(* ===== verification/JsValue.thy ===== *)
theory JsValue
  imports Prelude
begin

text \<open>
  The values the console computes with and the operations of the JavaScript standard library it
  applies to them.  Numbers are integers: every number of the management API is one (counts,
  ids, status codes, days).  An object is the list of its own properties, each key once, which
  is what \<open>JSON.parse\<close> builds.  Reading a property of \<open>undefined\<close> or \<open>null\<close> throws, and
  \<open>js_get\<close> is \<open>None\<close> there.
\<close>

datatype jsval =
    JUndefined
  | JNull
  | JBool bool
  | JNum int
  | JStr string
  | JArr "jsval list"
  | JObj "(string \<times> jsval) list"

section \<open>Tests and conversions\<close>

fun js_typeof :: "jsval \<Rightarrow> string" where
  "js_typeof JUndefined = ''undefined''"
| "js_typeof JNull = ''object''"
| "js_typeof (JBool _) = ''boolean''"
| "js_typeof (JNum _) = ''number''"
| "js_typeof (JStr _) = ''string''"
| "js_typeof (JArr _) = ''object''"
| "js_typeof (JObj _) = ''object''"

fun js_truthy :: "jsval \<Rightarrow> bool" where
  "js_truthy JUndefined = False"
| "js_truthy JNull = False"
| "js_truthy (JBool b) = b"
| "js_truthy (JNum n) = (n \<noteq> 0)"
| "js_truthy (JStr s) = (s \<noteq> [])"
| "js_truthy (JArr _) = True"
| "js_truthy (JObj _) = True"

definition js_is_nullish :: "jsval \<Rightarrow> bool" where
  "js_is_nullish v \<longleftrightarrow> v = JUndefined \<or> v = JNull"

text \<open>\<open>a ?? b\<close>\<close>

definition js_coalesce :: "jsval \<Rightarrow> jsval \<Rightarrow> jsval" where
  "js_coalesce a b = (if js_is_nullish a then b else a)"

text \<open>\<open>String(v)\<close>: array elements are joined by commas, a missing element prints as nothing.\<close>

fun js_string :: "jsval \<Rightarrow> string" where
  "js_string JUndefined = ''undefined''"
| "js_string JNull = ''null''"
| "js_string (JBool b) = (if b then ''true'' else ''false'')"
| "js_string (JNum n) = string_of_int n"
| "js_string (JStr s) = s"
| "js_string (JArr xs) =
     join_with '','' (map (\<lambda>x. if js_is_nullish x then [] else js_string x) xs)"
| "js_string (JObj _) = ''[object Object]''"

section \<open>Properties\<close>

fun js_get :: "jsval \<Rightarrow> string \<Rightarrow> jsval option" where
  "js_get JUndefined k = None"
| "js_get JNull k = None"
| "js_get (JStr s) k = Some (if k = ''length'' then JNum (int (length s)) else JUndefined)"
| "js_get (JArr xs) k = Some (if k = ''length'' then JNum (int (length xs)) else JUndefined)"
| "js_get (JObj ps) k = Some (case map_of ps k of Some v \<Rightarrow> v | None \<Rightarrow> JUndefined)"
| "js_get (JBool _) k = Some JUndefined"
| "js_get (JNum _) k = Some JUndefined"

text \<open>\<open>v?.k\<close>\<close>

definition js_get_opt :: "jsval \<Rightarrow> string \<Rightarrow> jsval" where
  "js_get_opt v k = (case js_get v k of Some w \<Rightarrow> w | None \<Rightarrow> JUndefined)"

lemma js_get_None_iff: "js_get v k = None \<longleftrightarrow> js_is_nullish v"
  by (cases v) (auto simp: js_is_nullish_def)

lemma js_get_JObj_hit: "map_of ps k = Some v \<Longrightarrow> js_get (JObj ps) k = Some v"
  by simp

text \<open>A value that is safe to read properties from and never throws.\<close>

definition js_is_object :: "jsval \<Rightarrow> bool" where
  "js_is_object v \<longleftrightarrow> v \<noteq> JNull \<and> js_typeof v = ''object''"

lemma js_is_object_iff: "js_is_object v \<longleftrightarrow> (\<exists>xs. v = JArr xs) \<or> (\<exists>ps. v = JObj ps)"
  by (cases v) (auto simp: js_is_object_def)

lemma js_is_object_get: "js_is_object v \<Longrightarrow> \<exists>w. js_get v k = Some w"
  by (auto simp: js_is_object_iff)

fun js_is_array :: "jsval \<Rightarrow> bool" where
  "js_is_array (JArr _) = True"
| "js_is_array _ = False"

fun js_elems :: "jsval \<Rightarrow> jsval list" where
  "js_elems (JArr xs) = xs"
| "js_elems _ = []"

section \<open>JSON values\<close>

text \<open>What \<open>JSON.parse\<close> can return: no \<open>undefined\<close> anywhere, no repeated key.\<close>

fun is_json :: "jsval \<Rightarrow> bool" where
  "is_json JUndefined = False"
| "is_json (JArr xs) = list_all is_json xs"
| "is_json (JObj ps) = (distinct (map fst ps) \<and> list_all (\<lambda>p. is_json (snd p)) ps)"
| "is_json _ = True"

lemmas js_object_simps = js_is_object_def js_is_nullish_def js_coalesce_def js_get_opt_def

declare js_object_simps [js_defs]

end
