(* ===== verification/TsSchema.thy ===== *)
theory TsSchema
  imports JsValue
begin

text \<open>
  The TypeScript types that the generated API contract (\<open>web/src/api/generated.ts\<close>) is written
  in, and the structural typing relation between a type and a JavaScript value.  The console
  casts every response body to one of these types without looking at it
  (\<open>unwrap<T>\<close> in \<open>web/src/api/client.ts\<close>), so conformance is exactly what a server has to
  guarantee for the console's property reads to be safe.

  An object type lists its fields (name, required, type) and says whether it has an index
  signature \<open>[key: string]: unknown\<close>.  Extra properties are allowed by structural typing.
\<close>

datatype ty =
    TString
  | TNumber
  | TBoolean
  | TUnknown
  | TNull
  | TNever
  | TLit string
  | TArray ty
  | TObject "(string \<times> bool \<times> ty) list" bool
  | TUnion "ty list"
  | TInter ty ty

type_synonym field = "string \<times> bool \<times> ty"

abbreviation req :: "string \<Rightarrow> ty \<Rightarrow> field" where
  "req k t \<equiv> (k, True, t)"

abbreviation opt :: "string \<Rightarrow> ty \<Rightarrow> field" where
  "opt k t \<equiv> (k, False, t)"

abbreviation TEnum :: "string list \<Rightarrow> ty" where
  "TEnum ls \<equiv> TUnion (map TLit ls)"

section \<open>Conformance\<close>

fun conforms :: "ty \<Rightarrow> jsval \<Rightarrow> bool"
  and conforms_fields :: "field list \<Rightarrow> (string \<times> jsval) list \<Rightarrow> bool"
  and conforms_some :: "ty list \<Rightarrow> jsval \<Rightarrow> bool" where
  "conforms TString v = (\<exists>s. v = JStr s)"
| "conforms TNumber v = (\<exists>n. v = JNum n)"
| "conforms TBoolean v = (\<exists>b. v = JBool b)"
| "conforms TUnknown v = True"
| "conforms TNull v = (v = JNull)"
| "conforms TNever v = False"
| "conforms (TLit l) v = (v = JStr l)"
| "conforms (TArray t) v = (js_is_array v \<and> list_all (conforms t) (js_elems v))"
| "conforms (TObject fs _) v = (case v of JObj ps \<Rightarrow> conforms_fields fs ps | _ \<Rightarrow> False)"
| "conforms (TUnion ts) v = conforms_some ts v"
| "conforms (TInter t u) v = (conforms t v \<and> conforms u v)"
| "conforms_fields [] ps = True"
| "conforms_fields ((k, r, t) # fs) ps =
     ((case map_of ps k of None \<Rightarrow> \<not> r | Some v \<Rightarrow> conforms t v) \<and> conforms_fields fs ps)"
| "conforms_some [] v = False"
| "conforms_some (t # ts) v = (conforms t v \<or> conforms_some ts v)"

lemma conforms_simple [code]:
  "conforms TString v = (case v of JStr _ \<Rightarrow> True | _ \<Rightarrow> False)"
  "conforms TNumber v = (case v of JNum _ \<Rightarrow> True | _ \<Rightarrow> False)"
  "conforms TBoolean v = (case v of JBool _ \<Rightarrow> True | _ \<Rightarrow> False)"
  "conforms TUnknown v = True"
  "conforms TNull v = (v = JNull)"
  "conforms TNever v = False"
  "conforms (TLit l) v = (v = JStr l)"
  "conforms (TArray t) v = (js_is_array v \<and> list_all (conforms t) (js_elems v))"
  "conforms (TObject fs b) v = (case v of JObj ps \<Rightarrow> conforms_fields fs ps | _ \<Rightarrow> False)"
  "conforms (TUnion ts) v = conforms_some ts v"
  "conforms (TInter t u) v = (conforms t v \<and> conforms u v)"
  by (auto split: jsval.split)

lemma conforms_fields_iff:
  "conforms_fields fs ps \<longleftrightarrow>
     (\<forall>(k, r, t) \<in> set fs. case map_of ps k of None \<Rightarrow> \<not> r | Some v \<Rightarrow> conforms t v)"
  by (induction fs) auto

lemma conforms_some_iff: "conforms_some ts v \<longleftrightarrow> (\<exists>t \<in> set ts. conforms t v)"
  by (induction ts) auto

lemma conforms_some_TLit: "conforms_some (map TLit ls) v \<longleftrightarrow> (\<exists>l \<in> set ls. v = JStr l)"
  by (auto simp: conforms_some_iff)

lemma conforms_TEnum_iff: "conforms (TEnum ls) v \<longleftrightarrow> (\<exists>l \<in> set ls. v = JStr l)"
  by (simp add: conforms_some_TLit)

text \<open>Reading a declared field of a conforming object never throws, and a required one has
  the declared type.\<close>

lemma conforms_object_E:
  assumes "conforms (TObject fs b) v"
  obtains ps where "v = JObj ps" and "conforms_fields fs ps"
  using assms by (auto split: jsval.splits)

lemma conforms_required_get:
  assumes "conforms (TObject fs b) v" and "(k, True, t) \<in> set fs"
  shows "\<exists>w. js_get v k = Some w \<and> conforms t w"
proof -
  from assms(1) obtain ps where "v = JObj ps" "conforms_fields fs ps"
    by (rule conforms_object_E)
  with assms(2) show ?thesis
    by (fastforce simp: conforms_fields_iff split: option.splits)
qed

text \<open>Subtyping by width: a type with fewer or weaker fields accepts more values.\<close>

lemma conforms_fields_subset:
  "conforms_fields gs ps \<Longrightarrow> set fs \<subseteq> set gs \<Longrightarrow> conforms_fields fs ps"
  by (fastforce simp: conforms_fields_iff)

lemma conforms_object_width:
  "conforms (TObject gs b) v \<Longrightarrow> set fs \<subseteq> set gs \<Longrightarrow> conforms (TObject fs c) v"
  by (auto split: jsval.splits intro: conforms_fields_subset)

end
