(* ===== verification/ApiSchemas.thy ===== *)
theory ApiSchemas
  imports TsSchema
begin

text \<open>
  The \<open>components\<close> interface of \<open>web/src/api/generated.ts\<close>: every schema, parameter and named
  response of the management API, as a value of the type language of \<open>TsSchema\<close>.  A reference
  \<open>components["schemas"]["X"]\<close> of the source is a use of the constant \<open>schemas_X\<close>; the schemas
  are not recursive, so they are declared in dependency order.  A field or group the source
  types as \<open>never\<close> is \<open>Never\<close>.
\<close>

datatype 'a slot = Never | Optional 'a | Required 'a

fun slot_list :: "'a list slot \<Rightarrow> 'a list" where
  "slot_list Never = []"
| "slot_list (Optional xs) = xs"
| "slot_list (Required xs) = xs"

record resp =
  resp_headers :: ty
  resp_content :: "(string \<times> ty) list slot"

section \<open>Schemas\<close>

definition schemas_Diagnostic :: ty where
  "schemas_Diagnostic =
     TObject [req ''stage'' TString, opt ''source'' (TObject [] True), req ''message'' TString,
      req ''severity'' (TEnum [''error'', ''warning''])] False"

definition schemas_Error :: ty where
  "schemas_Error =
     TObject [req ''error'' (TObject [req ''code'' (TEnum [''INVALID_ARGUMENT'',
      ''UNAUTHENTICATED'', ''FORBIDDEN'', ''NOT_FOUND'', ''CONFLICT'', ''NO_CHANGES'',
      ''VALIDATION_FAILED'', ''RATE_LIMITED'', ''INTERNAL'', ''BAD_GATEWAY'']),
      req ''message'' TString, opt ''details'' (TArray schemas_Diagnostic)] False)] False"

definition schemas_Credentials :: ty where
  "schemas_Credentials =
     TObject [req ''username'' TString, req ''password'' TString] False"

definition schemas_BootstrapState :: ty where
  "schemas_BootstrapState =
     TObject [req ''required'' TBoolean, req ''expiresAt'' (TUnion [TString, TNull])] False"

definition schemas_Session :: ty where
  "schemas_Session =
     TObject [req ''user'' (TObject [req ''name'' TString,
      req ''roles'' (TArray (TLit ''admin''))] False), req ''expiresAt'' TString] False"

definition schemas_DraftFile :: ty where
  "schemas_DraftFile =
     TObject [req ''path'' TString, req ''content'' TString] False"

definition schemas_Draft :: ty where
  "schemas_Draft =
     TObject [req ''sourceType'' (TEnum [''protocol'', ''native'']),
      req ''resourceVersion'' TString, opt ''updatedAt'' (TUnion [TString, TNull]),
      req ''files'' (TArray schemas_DraftFile)] False"

definition schemas_ReplaceDraftRequest :: ty where
  "schemas_ReplaceDraftRequest =
     TObject [req ''sourceType'' (TEnum [''protocol'', ''native'']),
      opt ''expectedResourceVersion'' TString, req ''files'' (TArray schemas_DraftFile)] False"

definition schemas_ConfigKind :: ty where
  "schemas_ConfigKind =
     TEnum [''Gateway'', ''Listener'', ''Route'', ''Upstream'', ''Policy'', ''EnvoyResources'']"

definition schemas_ConfigObject :: ty where
  "schemas_ConfigObject =
     TObject [req ''apiVersion'' (TLit ''esgw/v1alpha1''), req ''kind'' schemas_ConfigKind,
      req ''metadata'' (TInter (TObject [req ''name'' TString] False) (TObject [] True)),
      req ''spec'' (TObject [] True)] False"

definition schemas_DraftMutation :: ty where
  "schemas_DraftMutation =
     TObject [req ''draftResourceVersion'' TString, opt ''object'' schemas_ConfigObject] False"

definition schemas_ObjectList :: ty where
  "schemas_ObjectList =
     TObject [req ''items'' (TArray schemas_ConfigObject), req ''total'' TNumber,
      req ''resourceVersion'' TString] False"

definition schemas_ValidationResult :: ty where
  "schemas_ValidationResult =
     TObject [req ''ok'' TBoolean, req ''mode'' (TEnum [''xds'', ''static'']),
      opt ''irVersion'' (TUnion [TString, TNull]),
      req ''results'' (TArray schemas_Diagnostic)] False"

definition schemas_Version :: ty where
  "schemas_Version =
     TObject [req ''id'' TNumber, req ''createdAt'' TString, req ''author'' TString,
      req ''message'' TString, req ''mode'' TString, req ''irVersion'' TString,
      req ''state'' TString, opt ''parentId'' TNumber, opt ''rollbackOf'' TNumber] False"

definition schemas_PublishResult :: ty where
  "schemas_PublishResult =
     TObject [req ''version'' schemas_Version,
      req ''delivery'' (TObject [req ''mode'' (TEnum [''xds'', ''static'']),
      req ''state'' TString] False)] False"

definition schemas_Certificate :: ty where
  "schemas_Certificate =
     TObject [req ''name'' TString, opt ''subject'' TString, req ''sans'' (TArray TString),
      opt ''notAfter'' TString, req ''updatedAt'' TString, req ''certificatePem'' TString,
      req ''references'' (TArray TString)] False"

definition schemas_CreateCertificateRequest :: ty where
  "schemas_CreateCertificateRequest =
     TObject [req ''name'' TString, req ''certificatePem'' TString,
      req ''privateKeyPem'' TString] False"

definition component_schemas :: "(string \<times> ty) list" where
  "component_schemas =
     [(''Error'', schemas_Error),
      (''Diagnostic'', schemas_Diagnostic),
      (''Credentials'', schemas_Credentials),
      (''BootstrapState'', schemas_BootstrapState),
      (''Session'', schemas_Session),
      (''DraftFile'', schemas_DraftFile),
      (''Draft'', schemas_Draft),
      (''ReplaceDraftRequest'', schemas_ReplaceDraftRequest),
      (''DraftMutation'', schemas_DraftMutation),
      (''ConfigKind'', schemas_ConfigKind),
      (''ConfigObject'', schemas_ConfigObject),
      (''ObjectList'', schemas_ObjectList),
      (''ValidationResult'', schemas_ValidationResult),
      (''PublishResult'', schemas_PublishResult),
      (''Version'', schemas_Version),
      (''Certificate'', schemas_Certificate),
      (''CreateCertificateRequest'', schemas_CreateCertificateRequest)]"

section \<open>Parameters\<close>

definition parameters_CsrfHeader :: ty where
  "parameters_CsrfHeader = TLit ''1''"

definition parameters_ExpectedResourceVersion :: ty where
  "parameters_ExpectedResourceVersion = TString"

definition parameters_KindQuery :: ty where
  "parameters_KindQuery = schemas_ConfigKind"

definition parameters_KindPath :: ty where
  "parameters_KindPath = schemas_ConfigKind"

definition parameters_NamePath :: ty where
  "parameters_NamePath = TString"

definition parameters_VersionPath :: ty where
  "parameters_VersionPath = TNumber"

definition parameters_ModeQuery :: ty where
  "parameters_ModeQuery = TEnum [''xds'', ''static'']"

definition parameters_Limit :: ty where
  "parameters_Limit = TNumber"

definition parameters_Offset :: ty where
  "parameters_Offset = TNumber"

section \<open>Responses\<close>

definition responses_Session :: resp where
  "responses_Session =
     \<lparr>resp_headers = TObject [opt ''Set-Cookie'' TString] True,
      resp_content = Required [(''application/json'', schemas_Session)]\<rparr>"

definition responses_DraftMutation :: resp where
  "responses_DraftMutation =
     \<lparr>resp_headers = TObject [] True, resp_content = Required [(''application/json'',
      schemas_DraftMutation)]\<rparr>"

definition responses_StatePayload :: resp where
  "responses_StatePayload =
     \<lparr>resp_headers = TObject [] True, resp_content = Required [(''application/json'',
      TObject [] True)]\<rparr>"

definition responses_Probe :: resp where
  "responses_Probe =
     \<lparr>resp_headers = TObject [] True, resp_content = Required [(''application/json'',
      TObject [req ''status'' TString] False)]\<rparr>"

definition responses_BadRequest :: resp where
  "responses_BadRequest =
     \<lparr>resp_headers = TObject [] True, resp_content = Never\<rparr>"

definition responses_Unauthenticated :: resp where
  "responses_Unauthenticated =
     \<lparr>resp_headers = TObject [] True, resp_content = Never\<rparr>"

definition responses_Conflict :: resp where
  "responses_Conflict =
     \<lparr>resp_headers = TObject [] True, resp_content = Never\<rparr>"

definition responses_NotFound :: resp where
  "responses_NotFound =
     \<lparr>resp_headers = TObject [] True, resp_content = Never\<rparr>"

definition responses_ValidationFailed :: resp where
  "responses_ValidationFailed =
     \<lparr>resp_headers = TObject [] True, resp_content = Never\<rparr>"

definition responses_RateLimited :: resp where
  "responses_RateLimited =
     \<lparr>resp_headers = TObject [] True, resp_content = Never\<rparr>"

definition responses_BadGateway :: resp where
  "responses_BadGateway =
     \<lparr>resp_headers = TObject [] True, resp_content = Never\<rparr>"

definition responses_Error400 :: resp where
  "responses_Error400 =
     \<lparr>resp_headers = TObject [] True, resp_content = Required [(''application/json'',
      schemas_Error)]\<rparr>"

definition responses_Error401 :: resp where
  "responses_Error401 =
     \<lparr>resp_headers = TObject [] True, resp_content = Required [(''application/json'',
      schemas_Error)]\<rparr>"

definition responses_Error404 :: resp where
  "responses_Error404 =
     \<lparr>resp_headers = TObject [] True, resp_content = Required [(''application/json'',
      schemas_Error)]\<rparr>"

definition responses_Error409 :: resp where
  "responses_Error409 =
     \<lparr>resp_headers = TObject [] True, resp_content = Required [(''application/json'',
      schemas_Error)]\<rparr>"

definition responses_Error422 :: resp where
  "responses_Error422 =
     \<lparr>resp_headers = TObject [] True, resp_content = Required [(''application/json'',
      schemas_Error)]\<rparr>"

definition responses_Error429 :: resp where
  "responses_Error429 =
     \<lparr>resp_headers = TObject [opt ''Retry-After'' TNumber] True,
      resp_content = Required [(''application/json'', schemas_Error)]\<rparr>"

definition responses_Error502 :: resp where
  "responses_Error502 =
     \<lparr>resp_headers = TObject [] True, resp_content = Required [(''application/json'',
      schemas_Error)]\<rparr>"

lemmas schema_defs [contract_defs] =
  schemas_Diagnostic_def schemas_Error_def schemas_Credentials_def schemas_BootstrapState_def
  schemas_Session_def schemas_DraftFile_def schemas_Draft_def schemas_ReplaceDraftRequest_def
  schemas_ConfigKind_def schemas_ConfigObject_def schemas_DraftMutation_def
  schemas_ObjectList_def schemas_ValidationResult_def schemas_Version_def
  schemas_PublishResult_def schemas_Certificate_def schemas_CreateCertificateRequest_def

lemmas parameter_defs [contract_defs] =
  parameters_CsrfHeader_def parameters_ExpectedResourceVersion_def parameters_KindQuery_def
  parameters_KindPath_def parameters_NamePath_def parameters_VersionPath_def
  parameters_ModeQuery_def parameters_Limit_def parameters_Offset_def

lemmas response_defs [contract_defs] =
  responses_Session_def responses_DraftMutation_def responses_StatePayload_def
  responses_Probe_def responses_BadRequest_def responses_Unauthenticated_def
  responses_Conflict_def responses_NotFound_def responses_ValidationFailed_def
  responses_RateLimited_def responses_BadGateway_def responses_Error400_def
  responses_Error401_def responses_Error404_def responses_Error409_def responses_Error422_def
  responses_Error429_def responses_Error502_def

end
