(* ===== verification/ApiOperations.thy ===== *)
theory ApiOperations
  imports ApiSchemas
begin

text \<open>
  The \<open>operations\<close> interface of \<open>web/src/api/generated.ts\<close>: for each operation of the management
  API its query, header, path and cookie parameters, its request body by media type and its
  responses by status code.
\<close>

record operation =
  op_query :: "field list slot"
  op_header :: "field list slot"
  op_path :: "field list slot"
  op_cookie :: "field list slot"
  op_requestBody :: "(string \<times> ty) list slot"
  op_responses :: "(nat \<times> resp) list"

definition operations_getAuthBootstrap :: operation where
  "operations_getAuthBootstrap = \<lparr>
     op_query = Never,
     op_header = Never,
     op_path = Never,
     op_cookie = Never,
     op_requestBody = Never,
     op_responses = [(200, \<lparr>resp_headers = TObject [] True,
         resp_content = Required [(''application/json'', schemas_BootstrapState)]\<rparr>)]\<rparr>"

definition operations_createAuthBootstrap :: operation where
  "operations_createAuthBootstrap = \<lparr>
     op_query = Never,
     op_header = Required [req ''X-ESGW-Request'' parameters_CsrfHeader],
     op_path = Never,
     op_cookie = Never,
     op_requestBody = Required [(''application/json'', schemas_Credentials)],
     op_responses = [(201, responses_Session),
       (400, responses_BadRequest),
       (409, responses_Conflict)]\<rparr>"

definition operations_login :: operation where
  "operations_login = \<lparr>
     op_query = Never,
     op_header = Required [req ''X-ESGW-Request'' parameters_CsrfHeader],
     op_path = Never,
     op_cookie = Never,
     op_requestBody = Required [(''application/json'', schemas_Credentials)],
     op_responses = [(200, responses_Session),
       (401, responses_Unauthenticated),
       (429, responses_RateLimited)]\<rparr>"

definition operations_logout :: operation where
  "operations_logout = \<lparr>
     op_query = Never,
     op_header = Required [req ''X-ESGW-Request'' parameters_CsrfHeader],
     op_path = Never,
     op_cookie = Never,
     op_requestBody = Never,
     op_responses = [(204, \<lparr>resp_headers = TObject [] True, resp_content = Never\<rparr>),
       (401, responses_Unauthenticated)]\<rparr>"

definition operations_getAuthSession :: operation where
  "operations_getAuthSession = \<lparr>
     op_query = Never,
     op_header = Never,
     op_path = Never,
     op_cookie = Never,
     op_requestBody = Never,
     op_responses = [(200, responses_Session),
       (401, responses_Unauthenticated)]\<rparr>"

definition operations_changePassword :: operation where
  "operations_changePassword = \<lparr>
     op_query = Never,
     op_header = Required [req ''X-ESGW-Request'' parameters_CsrfHeader],
     op_path = Never,
     op_cookie = Never,
     op_requestBody = Required [(''application/json'', TObject [req ''oldPassword'' TString,
        req ''newPassword'' TString] False)],
     op_responses = [(204, \<lparr>resp_headers = TObject [] True, resp_content = Never\<rparr>),
       (400, responses_BadRequest),
       (401, responses_Unauthenticated)]\<rparr>"

definition operations_listAuthMethods :: operation where
  "operations_listAuthMethods = \<lparr>
     op_query = Never,
     op_header = Never,
     op_path = Never,
     op_cookie = Never,
     op_requestBody = Never,
     op_responses = [(200, \<lparr>resp_headers = TObject [] True,
         resp_content = Required [(''application/json'',
         TObject [req ''items'' (TArray (TObject [req ''type'' (TLit ''local'')] False))] False)]\<rparr>)]\<rparr>"

definition operations_getConfigDraft :: operation where
  "operations_getConfigDraft = \<lparr>
     op_query = Never,
     op_header = Never,
     op_path = Never,
     op_cookie = Never,
     op_requestBody = Never,
     op_responses = [(200, \<lparr>resp_headers = TObject [] True,
         resp_content = Required [(''application/json'', schemas_Draft)]\<rparr>)]\<rparr>"

definition operations_replaceConfigDraft :: operation where
  "operations_replaceConfigDraft = \<lparr>
     op_query = Never,
     op_header = Required [req ''X-ESGW-Request'' parameters_CsrfHeader],
     op_path = Never,
     op_cookie = Never,
     op_requestBody = Required [(''application/json'', schemas_ReplaceDraftRequest)],
     op_responses = [(200, responses_DraftMutation),
       (400, responses_BadRequest),
       (409, responses_Conflict)]\<rparr>"

definition operations_listConfigObjects :: operation where
  "operations_listConfigObjects = \<lparr>
     op_query = Optional [opt ''kind'' parameters_KindQuery, opt ''limit'' parameters_Limit,
        opt ''offset'' parameters_Offset],
     op_header = Never,
     op_path = Never,
     op_cookie = Never,
     op_requestBody = Never,
     op_responses = [(200, \<lparr>resp_headers = TObject [] True,
         resp_content = Required [(''application/json'', schemas_ObjectList)]\<rparr>)]\<rparr>"

definition operations_getConfigObject :: operation where
  "operations_getConfigObject = \<lparr>
     op_query = Never,
     op_header = Never,
     op_path = Required [req ''kind'' parameters_KindPath, req ''name'' parameters_NamePath],
     op_cookie = Never,
     op_requestBody = Never,
     op_responses = [(200, \<lparr>resp_headers = TObject [] True,
         resp_content = Required [(''application/json'', schemas_ConfigObject),
         (''application/yaml'', TString)]\<rparr>),
       (404, responses_NotFound)]\<rparr>"

definition operations_putConfigObject :: operation where
  "operations_putConfigObject = \<lparr>
     op_query = Optional [opt ''expectedResourceVersion'' parameters_ExpectedResourceVersion],
     op_header = Required [req ''X-ESGW-Request'' parameters_CsrfHeader],
     op_path = Required [req ''kind'' parameters_KindPath, req ''name'' parameters_NamePath],
     op_cookie = Never,
     op_requestBody = Required [(''application/json'', schemas_ConfigObject), (''application/yaml'', TString)],
     op_responses = [(200, responses_DraftMutation),
       (400, responses_BadRequest),
       (409, responses_Conflict)]\<rparr>"

definition operations_deleteConfigObject :: operation where
  "operations_deleteConfigObject = \<lparr>
     op_query = Optional [opt ''expectedResourceVersion'' parameters_ExpectedResourceVersion],
     op_header = Required [req ''X-ESGW-Request'' parameters_CsrfHeader],
     op_path = Required [req ''kind'' parameters_KindPath, req ''name'' parameters_NamePath],
     op_cookie = Never,
     op_requestBody = Never,
     op_responses = [(200, responses_DraftMutation),
       (404, responses_NotFound),
       (409, responses_Conflict)]\<rparr>"

definition operations_getConfigSchemas :: operation where
  "operations_getConfigSchemas = \<lparr>
     op_query = Never,
     op_header = Never,
     op_path = Never,
     op_cookie = Never,
     op_requestBody = Never,
     op_responses = [(200, \<lparr>resp_headers = TObject [] True,
         resp_content = Required [(''application/schema+json'', TObject [] True)]\<rparr>)]\<rparr>"

definition operations_validateConfig :: operation where
  "operations_validateConfig = \<lparr>
     op_query = Optional [opt ''mode'' parameters_ModeQuery],
     op_header = Required [req ''X-ESGW-Request'' parameters_CsrfHeader],
     op_path = Never,
     op_cookie = Never,
     op_requestBody = Optional [(''application/json'', TObject [opt ''envoyValidate'' TBoolean] False)],
     op_responses = [(200, \<lparr>resp_headers = TObject [] True,
         resp_content = Required [(''application/json'', schemas_ValidationResult)]\<rparr>),
       (400, responses_BadRequest)]\<rparr>"

definition operations_getCompiledConfig :: operation where
  "operations_getCompiledConfig = \<lparr>
     op_query = Optional [opt ''mode'' parameters_ModeQuery],
     op_header = Never,
     op_path = Never,
     op_cookie = Never,
     op_requestBody = Never,
     op_responses = [(200, \<lparr>resp_headers = TObject [] True,
         resp_content = Required [(''application/json'', TObject [] True)]\<rparr>),
       (422, responses_ValidationFailed)]\<rparr>"

definition operations_getDraftDiff :: operation where
  "operations_getDraftDiff = \<lparr>
     op_query = Optional [opt ''against'' TString, opt ''format'' (TEnum [''unified'', ''summary''])],
     op_header = Never,
     op_path = Never,
     op_cookie = Never,
     op_requestBody = Never,
     op_responses = [(200, \<lparr>resp_headers = TObject [] True,
         resp_content = Required [(''application/json'', TObject [] True)]\<rparr>)]\<rparr>"

definition operations_publishConfig :: operation where
  "operations_publishConfig = \<lparr>
     op_query = Never,
     op_header = Required [req ''X-ESGW-Request'' parameters_CsrfHeader],
     op_path = Never,
     op_cookie = Never,
     op_requestBody = Required [(''application/json'', TObject [req ''message'' TString,
        opt ''expectedResourceVersion'' TString] False)],
     op_responses = [(202, \<lparr>resp_headers = TObject [] True,
         resp_content = Required [(''application/json'', schemas_PublishResult)]\<rparr>),
       (409, responses_Conflict),
       (422, responses_ValidationFailed)]\<rparr>"

definition operations_getConfigStatus :: operation where
  "operations_getConfigStatus = \<lparr>
     op_query = Never,
     op_header = Never,
     op_path = Never,
     op_cookie = Never,
     op_requestBody = Never,
     op_responses = [(200, \<lparr>resp_headers = TObject [] True,
         resp_content = Required [(''application/json'', TObject [] True)]\<rparr>)]\<rparr>"

definition operations_listConfigVersions :: operation where
  "operations_listConfigVersions = \<lparr>
     op_query = Optional [opt ''limit'' parameters_Limit, opt ''offset'' parameters_Offset],
     op_header = Never,
     op_path = Never,
     op_cookie = Never,
     op_requestBody = Never,
     op_responses = [(200, \<lparr>resp_headers = TObject [] True,
         resp_content = Required [(''application/json'',
         TObject [req ''items'' (TArray schemas_Version), req ''total'' TNumber] False)]\<rparr>)]\<rparr>"

definition operations_getConfigVersion :: operation where
  "operations_getConfigVersion = \<lparr>
     op_query = Never,
     op_header = Never,
     op_path = Required [req ''id'' parameters_VersionPath],
     op_cookie = Never,
     op_requestBody = Never,
     op_responses = [(200, \<lparr>resp_headers = TObject [] True,
         resp_content = Required [(''application/json'', schemas_Version)]\<rparr>),
       (404, responses_NotFound)]\<rparr>"

definition operations_getConfigVersionSource :: operation where
  "operations_getConfigVersionSource = \<lparr>
     op_query = Never,
     op_header = Never,
     op_path = Required [req ''id'' parameters_VersionPath],
     op_cookie = Never,
     op_requestBody = Never,
     op_responses = [(200, \<lparr>resp_headers = TObject [] True,
         resp_content = Required [(''application/json'', schemas_Draft)]\<rparr>),
       (404, responses_NotFound)]\<rparr>"

definition operations_getConfigVersionCompiled :: operation where
  "operations_getConfigVersionCompiled = \<lparr>
     op_query = Optional [opt ''mode'' parameters_ModeQuery, opt ''format'' (TEnum [''json'',
        ''static-yaml''])],
     op_header = Never,
     op_path = Required [req ''id'' parameters_VersionPath],
     op_cookie = Never,
     op_requestBody = Never,
     op_responses = [(200, \<lparr>resp_headers = TObject [] True,
         resp_content = Required [(''application/json'', TObject [] True), (''application/yaml'',
         TString)]\<rparr>),
       (404, responses_NotFound)]\<rparr>"

definition operations_getConfigVersionDiff :: operation where
  "operations_getConfigVersionDiff = \<lparr>
     op_query = Required [req ''against'' TNumber],
     op_header = Never,
     op_path = Required [req ''id'' parameters_VersionPath],
     op_cookie = Never,
     op_requestBody = Never,
     op_responses = [(200, \<lparr>resp_headers = TObject [] True,
         resp_content = Required [(''application/json'', TObject [] True)]\<rparr>),
       (404, responses_NotFound)]\<rparr>"

definition operations_rollbackConfigVersion :: operation where
  "operations_rollbackConfigVersion = \<lparr>
     op_query = Never,
     op_header = Required [req ''X-ESGW-Request'' parameters_CsrfHeader],
     op_path = Required [req ''id'' parameters_VersionPath],
     op_cookie = Never,
     op_requestBody = Optional [(''application/json'', TObject [opt ''publish'' TBoolean,
        opt ''force'' TBoolean] False)],
     op_responses = [(200, responses_DraftMutation),
       (202, \<lparr>resp_headers = TObject [] True,
         resp_content = Required [(''application/json'', schemas_PublishResult)]\<rparr>),
       (409, responses_Conflict)]\<rparr>"

definition operations_getStatusSummary :: operation where
  "operations_getStatusSummary = \<lparr>
     op_query = Never,
     op_header = Never,
     op_path = Never,
     op_cookie = Never,
     op_requestBody = Never,
     op_responses = [(200, responses_StatePayload)]\<rparr>"

definition operations_listStatusListeners :: operation where
  "operations_listStatusListeners = \<lparr>
     op_query = Never,
     op_header = Never,
     op_path = Never,
     op_cookie = Never,
     op_requestBody = Never,
     op_responses = [(200, responses_StatePayload)]\<rparr>"

definition operations_listStatusClusters :: operation where
  "operations_listStatusClusters = \<lparr>
     op_query = Never,
     op_header = Never,
     op_path = Never,
     op_cookie = Never,
     op_requestBody = Never,
     op_responses = [(200, responses_StatePayload)]\<rparr>"

definition operations_listStatusClusterEndpoints :: operation where
  "operations_listStatusClusterEndpoints = \<lparr>
     op_query = Never,
     op_header = Never,
     op_path = Required [req ''name'' parameters_NamePath],
     op_cookie = Never,
     op_requestBody = Never,
     op_responses = [(200, responses_StatePayload),
       (404, responses_NotFound)]\<rparr>"

definition operations_listStatusRoutes :: operation where
  "operations_listStatusRoutes = \<lparr>
     op_query = Never,
     op_header = Never,
     op_path = Never,
     op_cookie = Never,
     op_requestBody = Never,
     op_responses = [(200, responses_StatePayload)]\<rparr>"

definition operations_listStatusCerts :: operation where
  "operations_listStatusCerts = \<lparr>
     op_query = Never,
     op_header = Never,
     op_path = Never,
     op_cookie = Never,
     op_requestBody = Never,
     op_responses = [(200, responses_StatePayload)]\<rparr>"

definition operations_getStatsOverview :: operation where
  "operations_getStatsOverview = \<lparr>
     op_query = Optional [opt ''window'' (TEnum [''5m'', ''15m'', ''1h'', ''6h''])],
     op_header = Never,
     op_path = Never,
     op_cookie = Never,
     op_requestBody = Never,
     op_responses = [(200, responses_StatePayload)]\<rparr>"

definition operations_listStatsSeries :: operation where
  "operations_listStatsSeries = \<lparr>
     op_query = Optional [opt ''dimension'' (TEnum [''route'', ''cluster'']), opt ''name'' TString,
        opt ''metric'' TString, opt ''window'' (TEnum [''5m'', ''15m'', ''1h'', ''6h''])],
     op_header = Never,
     op_path = Never,
     op_cookie = Never,
     op_requestBody = Never,
     op_responses = [(200, responses_StatePayload)]\<rparr>"

definition operations_listCertificates :: operation where
  "operations_listCertificates = \<lparr>
     op_query = Never,
     op_header = Never,
     op_path = Never,
     op_cookie = Never,
     op_requestBody = Never,
     op_responses = [(200, \<lparr>resp_headers = TObject [] True,
         resp_content = Required [(''application/json'',
         TObject [req ''items'' (TArray schemas_Certificate),
         req ''total'' TNumber] False)]\<rparr>)]\<rparr>"

definition operations_createCertificate :: operation where
  "operations_createCertificate = \<lparr>
     op_query = Never,
     op_header = Required [req ''X-ESGW-Request'' parameters_CsrfHeader],
     op_path = Never,
     op_cookie = Never,
     op_requestBody = Required [(''application/json'', schemas_CreateCertificateRequest)],
     op_responses = [(201, \<lparr>resp_headers = TObject [] True,
         resp_content = Required [(''application/json'', schemas_Certificate)]\<rparr>),
       (400, responses_BadRequest),
       (409, responses_Conflict)]\<rparr>"

definition operations_getCertificate :: operation where
  "operations_getCertificate = \<lparr>
     op_query = Never,
     op_header = Never,
     op_path = Required [req ''name'' parameters_NamePath],
     op_cookie = Never,
     op_requestBody = Never,
     op_responses = [(200, \<lparr>resp_headers = TObject [] True,
         resp_content = Required [(''application/json'', schemas_Certificate)]\<rparr>),
       (404, responses_NotFound)]\<rparr>"

definition operations_deleteCertificate :: operation where
  "operations_deleteCertificate = \<lparr>
     op_query = Never,
     op_header = Required [req ''X-ESGW-Request'' parameters_CsrfHeader],
     op_path = Required [req ''name'' parameters_NamePath],
     op_cookie = Never,
     op_requestBody = Never,
     op_responses = [(204, \<lparr>resp_headers = TObject [] True, resp_content = Never\<rparr>),
       (404, responses_NotFound),
       (409, responses_Conflict)]\<rparr>"

definition operations_getSystemInfo :: operation where
  "operations_getSystemInfo = \<lparr>
     op_query = Never,
     op_header = Never,
     op_path = Never,
     op_cookie = Never,
     op_requestBody = Never,
     op_responses = [(200, \<lparr>resp_headers = TObject [] True,
         resp_content = Required [(''application/json'', TObject [] True)]\<rparr>)]\<rparr>"

definition operations_getEnvoyPrometheusStats :: operation where
  "operations_getEnvoyPrometheusStats = \<lparr>
     op_query = Never,
     op_header = Never,
     op_path = Never,
     op_cookie = Never,
     op_requestBody = Never,
     op_responses = [(200, \<lparr>resp_headers = TObject [] True, resp_content = Required [(''text/plain'',
         TString)]\<rparr>),
       (502, responses_BadGateway)]\<rparr>"

definition operations_getHealth :: operation where
  "operations_getHealth = \<lparr>
     op_query = Never,
     op_header = Never,
     op_path = Never,
     op_cookie = Never,
     op_requestBody = Never,
     op_responses = [(200, responses_Probe)]\<rparr>"

definition operations_getReady :: operation where
  "operations_getReady = \<lparr>
     op_query = Never,
     op_header = Never,
     op_path = Never,
     op_cookie = Never,
     op_requestBody = Never,
     op_responses = [(200, responses_Probe),
       (503, responses_Probe)]\<rparr>"

definition operations_getManagementMetrics :: operation where
  "operations_getManagementMetrics = \<lparr>
     op_query = Never,
     op_header = Never,
     op_path = Never,
     op_cookie = Never,
     op_requestBody = Never,
     op_responses = [(200, \<lparr>resp_headers = TObject [] True, resp_content = Required [(''text/plain'',
         TString)]\<rparr>)]\<rparr>"

definition operations :: "(string \<times> operation) list" where
  "operations =
     [(''getAuthBootstrap'', operations_getAuthBootstrap),
      (''createAuthBootstrap'', operations_createAuthBootstrap),
      (''login'', operations_login),
      (''logout'', operations_logout),
      (''getAuthSession'', operations_getAuthSession),
      (''changePassword'', operations_changePassword),
      (''listAuthMethods'', operations_listAuthMethods),
      (''getConfigDraft'', operations_getConfigDraft),
      (''replaceConfigDraft'', operations_replaceConfigDraft),
      (''listConfigObjects'', operations_listConfigObjects),
      (''getConfigObject'', operations_getConfigObject),
      (''putConfigObject'', operations_putConfigObject),
      (''deleteConfigObject'', operations_deleteConfigObject),
      (''getConfigSchemas'', operations_getConfigSchemas),
      (''validateConfig'', operations_validateConfig),
      (''getCompiledConfig'', operations_getCompiledConfig),
      (''getDraftDiff'', operations_getDraftDiff),
      (''publishConfig'', operations_publishConfig),
      (''getConfigStatus'', operations_getConfigStatus),
      (''listConfigVersions'', operations_listConfigVersions),
      (''getConfigVersion'', operations_getConfigVersion),
      (''getConfigVersionSource'', operations_getConfigVersionSource),
      (''getConfigVersionCompiled'', operations_getConfigVersionCompiled),
      (''getConfigVersionDiff'', operations_getConfigVersionDiff),
      (''rollbackConfigVersion'', operations_rollbackConfigVersion),
      (''getStatusSummary'', operations_getStatusSummary),
      (''listStatusListeners'', operations_listStatusListeners),
      (''listStatusClusters'', operations_listStatusClusters),
      (''listStatusClusterEndpoints'', operations_listStatusClusterEndpoints),
      (''listStatusRoutes'', operations_listStatusRoutes),
      (''listStatusCerts'', operations_listStatusCerts),
      (''getStatsOverview'', operations_getStatsOverview),
      (''listStatsSeries'', operations_listStatsSeries),
      (''listCertificates'', operations_listCertificates),
      (''createCertificate'', operations_createCertificate),
      (''getCertificate'', operations_getCertificate),
      (''deleteCertificate'', operations_deleteCertificate),
      (''getSystemInfo'', operations_getSystemInfo),
      (''getEnvoyPrometheusStats'', operations_getEnvoyPrometheusStats),
      (''getHealth'', operations_getHealth),
      (''getReady'', operations_getReady),
      (''getManagementMetrics'', operations_getManagementMetrics)]"

lemmas operation_defs [contract_defs] =
  operations_getAuthBootstrap_def operations_createAuthBootstrap_def operations_login_def
  operations_logout_def operations_getAuthSession_def operations_changePassword_def
  operations_listAuthMethods_def operations_getConfigDraft_def
  operations_replaceConfigDraft_def operations_listConfigObjects_def
  operations_getConfigObject_def operations_putConfigObject_def
  operations_deleteConfigObject_def operations_getConfigSchemas_def
  operations_validateConfig_def operations_getCompiledConfig_def operations_getDraftDiff_def
  operations_publishConfig_def operations_getConfigStatus_def operations_listConfigVersions_def
  operations_getConfigVersion_def operations_getConfigVersionSource_def
  operations_getConfigVersionCompiled_def operations_getConfigVersionDiff_def
  operations_rollbackConfigVersion_def operations_getStatusSummary_def
  operations_listStatusListeners_def operations_listStatusClusters_def
  operations_listStatusClusterEndpoints_def operations_listStatusRoutes_def
  operations_listStatusCerts_def operations_getStatsOverview_def operations_listStatsSeries_def
  operations_listCertificates_def operations_createCertificate_def
  operations_getCertificate_def operations_deleteCertificate_def operations_getSystemInfo_def
  operations_getEnvoyPrometheusStats_def operations_getHealth_def operations_getReady_def
  operations_getManagementMetrics_def

text \<open>The body type an operation declares for a status and a media type.\<close>

definition response_type :: "operation \<Rightarrow> nat \<Rightarrow> string \<Rightarrow> ty option" where
  "response_type oper status media =
     Option.bind (map_of (op_responses oper) status)
       (\<lambda>r. map_of (slot_list (resp_content r)) media)"

definition request_type :: "operation \<Rightarrow> string \<Rightarrow> ty option" where
  "request_type oper media = map_of (slot_list (op_requestBody oper)) media"

end
