(* ===== verification/ApiContract.thy ===== *)
theory ApiContract
  imports ApiOperations
begin

text \<open>
  The two descriptions of the management API's surface and how they relate: the \<open>paths\<close> interface
  the console is compiled against (\<open>web/src/api/generated.ts\<close>) and the registry the server routes
  by (\<open>internal/api/contract/operations.go\<close>), with the matching rule of the router it is
  registered in.  The properties: the two tables are one-to-one, every operation of the contract
  is declared, exactly the state-changing operations demand the anti-CSRF header, the path
  parameters are the placeholders of the template, and no request matches two registered
  patterns.
\<close>

section \<open>The console's side: paths\<close>

record path_item =
  item_query :: "field list slot"
  item_header :: "field list slot"
  item_path :: "field list slot"
  item_cookie :: "field list slot"
  item_get :: "string option"
  item_put :: "string option"
  item_post :: "string option"
  item_delete :: "string option"
  item_options :: "string option"
  item_head :: "string option"
  item_patch :: "string option"
  item_trace :: "string option"

definition no_item :: path_item where
  "no_item = \<lparr>item_query = Never, item_header = Never, item_path = Never, item_cookie = Never,
     item_get = None, item_put = None, item_post = None, item_delete = None,
     item_options = None, item_head = None, item_patch = None, item_trace = None\<rparr>"

definition paths_auth :: "(string \<times> path_item) list" where
  "paths_auth =
     [(''/auth/bootstrap'', no_item\<lparr>item_get := Some ''getAuthBootstrap'',
        item_post := Some ''createAuthBootstrap''\<rparr>),
      (''/auth/login'', no_item\<lparr>item_post := Some ''login''\<rparr>),
      (''/auth/logout'', no_item\<lparr>item_post := Some ''logout''\<rparr>),
      (''/auth/session'', no_item\<lparr>item_get := Some ''getAuthSession''\<rparr>),
      (''/auth/password'', no_item\<lparr>item_post := Some ''changePassword''\<rparr>),
      (''/auth/methods'', no_item\<lparr>item_get := Some ''listAuthMethods''\<rparr>)]"

definition paths_draft :: "(string \<times> path_item) list" where
  "paths_draft =
     [(''/config/draft'', no_item\<lparr>item_get := Some ''getConfigDraft'',
        item_put := Some ''replaceConfigDraft''\<rparr>),
      (''/config/objects'', no_item\<lparr>item_get := Some ''listConfigObjects''\<rparr>),
      (''/config/objects/{kind}/{name}'',
        no_item\<lparr>item_path := Required [req ''kind'' parameters_KindPath,
        req ''name'' parameters_NamePath], item_get := Some ''getConfigObject'',
        item_put := Some ''putConfigObject'', item_delete := Some ''deleteConfigObject''\<rparr>),
      (''/config/schemas'', no_item\<lparr>item_get := Some ''getConfigSchemas''\<rparr>),
      (''/config/validate'', no_item\<lparr>item_post := Some ''validateConfig''\<rparr>),
      (''/config/compiled'', no_item\<lparr>item_get := Some ''getCompiledConfig''\<rparr>),
      (''/config/draft/diff'', no_item\<lparr>item_get := Some ''getDraftDiff''\<rparr>),
      (''/config/publish'', no_item\<lparr>item_post := Some ''publishConfig''\<rparr>)]"

definition paths_versions :: "(string \<times> path_item) list" where
  "paths_versions =
     [(''/config/status'', no_item\<lparr>item_get := Some ''getConfigStatus''\<rparr>),
      (''/config/versions'', no_item\<lparr>item_get := Some ''listConfigVersions''\<rparr>),
      (''/config/versions/{id}'',
        no_item\<lparr>item_path := Required [req ''id'' parameters_VersionPath],
        item_get := Some ''getConfigVersion''\<rparr>),
      (''/config/versions/{id}/config'',
        no_item\<lparr>item_path := Required [req ''id'' parameters_VersionPath],
        item_get := Some ''getConfigVersionSource''\<rparr>),
      (''/config/versions/{id}/compiled'',
        no_item\<lparr>item_path := Required [req ''id'' parameters_VersionPath],
        item_get := Some ''getConfigVersionCompiled''\<rparr>),
      (''/config/versions/{id}/diff'',
        no_item\<lparr>item_path := Required [req ''id'' parameters_VersionPath],
        item_get := Some ''getConfigVersionDiff''\<rparr>),
      (''/config/versions/{id}/rollback'',
        no_item\<lparr>item_path := Required [req ''id'' parameters_VersionPath],
        item_post := Some ''rollbackConfigVersion''\<rparr>)]"

definition paths_status :: "(string \<times> path_item) list" where
  "paths_status =
     [(''/status/summary'', no_item\<lparr>item_get := Some ''getStatusSummary''\<rparr>),
      (''/status/listeners'', no_item\<lparr>item_get := Some ''listStatusListeners''\<rparr>),
      (''/status/clusters'', no_item\<lparr>item_get := Some ''listStatusClusters''\<rparr>),
      (''/status/clusters/{name}/endpoints'',
        no_item\<lparr>item_get := Some ''listStatusClusterEndpoints''\<rparr>),
      (''/status/routes'', no_item\<lparr>item_get := Some ''listStatusRoutes''\<rparr>),
      (''/status/certs'', no_item\<lparr>item_get := Some ''listStatusCerts''\<rparr>),
      (''/stats/overview'', no_item\<lparr>item_get := Some ''getStatsOverview''\<rparr>),
      (''/stats/series'', no_item\<lparr>item_get := Some ''listStatsSeries''\<rparr>)]"

definition paths_system :: "(string \<times> path_item) list" where
  "paths_system =
     [(''/certs'', no_item\<lparr>item_get := Some ''listCertificates'',
        item_post := Some ''createCertificate''\<rparr>),
      (''/certs/{name}'',
        no_item\<lparr>item_path := Required [req ''name'' parameters_NamePath],
        item_get := Some ''getCertificate'', item_delete := Some ''deleteCertificate''\<rparr>),
      (''/system/info'', no_item\<lparr>item_get := Some ''getSystemInfo''\<rparr>),
      (''/envoy/stats/prometheus'',
        no_item\<lparr>item_get := Some ''getEnvoyPrometheusStats''\<rparr>),
      (''/healthz'', no_item\<lparr>item_get := Some ''getHealth''\<rparr>),
      (''/readyz'', no_item\<lparr>item_get := Some ''getReady''\<rparr>),
      (''/metrics'', no_item\<lparr>item_get := Some ''getManagementMetrics''\<rparr>)]"

definition paths :: "(string \<times> path_item) list" where
  "paths = paths_auth @ paths_draft @ paths_versions @ paths_status @ paths_system"

text \<open>The methods of a path that are not \<open>never\<close>, with the operation each one names.\<close>

definition item_methods :: "path_item \<Rightarrow> (string \<times> string) list" where
  "item_methods it =
     List.map_filter (\<lambda>(m, oid). map_option (Pair m) oid)
       [(''GET'', item_get it), (''PUT'', item_put it), (''POST'', item_post it),
        (''DELETE'', item_delete it), (''OPTIONS'', item_options it), (''HEAD'', item_head it),
        (''PATCH'', item_patch it), (''TRACE'', item_trace it)]"

definition contract_table :: "(string \<times> string \<times> string) list" where
  "contract_table = concat (map (\<lambda>(p, it). map (\<lambda>(m, i). (p, m, i)) (item_methods it)) paths)"

section \<open>The server's side: the operation registry\<close>

record go_operation =
  ID :: string
  Method :: string
  Path :: string
  Anonymous :: bool

definition Operations :: "go_operation list" where
  "Operations =
     [\<lparr>ID = ''getAuthBootstrap'', Method = ''GET'', Path = ''/api/v1/auth/bootstrap'', Anonymous = True\<rparr>,
      \<lparr>ID = ''createAuthBootstrap'', Method = ''POST'', Path = ''/api/v1/auth/bootstrap'', Anonymous = True\<rparr>,
      \<lparr>ID = ''login'', Method = ''POST'', Path = ''/api/v1/auth/login'', Anonymous = True\<rparr>,
      \<lparr>ID = ''logout'', Method = ''POST'', Path = ''/api/v1/auth/logout'', Anonymous = False\<rparr>,
      \<lparr>ID = ''getAuthSession'', Method = ''GET'', Path = ''/api/v1/auth/session'', Anonymous = False\<rparr>,
      \<lparr>ID = ''changePassword'', Method = ''POST'', Path = ''/api/v1/auth/password'', Anonymous = False\<rparr>,
      \<lparr>ID = ''listAuthMethods'', Method = ''GET'', Path = ''/api/v1/auth/methods'', Anonymous = True\<rparr>,
      \<lparr>ID = ''getConfigDraft'', Method = ''GET'', Path = ''/api/v1/config/draft'', Anonymous = False\<rparr>,
      \<lparr>ID = ''replaceConfigDraft'', Method = ''PUT'', Path = ''/api/v1/config/draft'', Anonymous = False\<rparr>,
      \<lparr>ID = ''listConfigObjects'', Method = ''GET'', Path = ''/api/v1/config/objects'', Anonymous = False\<rparr>,
      \<lparr>ID = ''getConfigObject'', Method = ''GET'', Path = ''/api/v1/config/objects/{kind}/{name}'', Anonymous = False\<rparr>,
      \<lparr>ID = ''putConfigObject'', Method = ''PUT'', Path = ''/api/v1/config/objects/{kind}/{name}'', Anonymous = False\<rparr>,
      \<lparr>ID = ''deleteConfigObject'', Method = ''DELETE'', Path = ''/api/v1/config/objects/{kind}/{name}'', Anonymous = False\<rparr>,
      \<lparr>ID = ''getConfigSchemas'', Method = ''GET'', Path = ''/api/v1/config/schemas'', Anonymous = False\<rparr>,
      \<lparr>ID = ''validateConfig'', Method = ''POST'', Path = ''/api/v1/config/validate'', Anonymous = False\<rparr>,
      \<lparr>ID = ''getCompiledConfig'', Method = ''GET'', Path = ''/api/v1/config/compiled'', Anonymous = False\<rparr>,
      \<lparr>ID = ''getDraftDiff'', Method = ''GET'', Path = ''/api/v1/config/draft/diff'', Anonymous = False\<rparr>,
      \<lparr>ID = ''publishConfig'', Method = ''POST'', Path = ''/api/v1/config/publish'', Anonymous = False\<rparr>,
      \<lparr>ID = ''getConfigStatus'', Method = ''GET'', Path = ''/api/v1/config/status'', Anonymous = False\<rparr>,
      \<lparr>ID = ''listConfigVersions'', Method = ''GET'', Path = ''/api/v1/config/versions'', Anonymous = False\<rparr>,
      \<lparr>ID = ''getConfigVersion'', Method = ''GET'', Path = ''/api/v1/config/versions/{id}'', Anonymous = False\<rparr>,
      \<lparr>ID = ''getConfigVersionSource'', Method = ''GET'', Path = ''/api/v1/config/versions/{id}/config'', Anonymous = False\<rparr>,
      \<lparr>ID = ''getConfigVersionCompiled'', Method = ''GET'', Path = ''/api/v1/config/versions/{id}/compiled'', Anonymous = False\<rparr>,
      \<lparr>ID = ''getConfigVersionDiff'', Method = ''GET'', Path = ''/api/v1/config/versions/{id}/diff'', Anonymous = False\<rparr>,
      \<lparr>ID = ''rollbackConfigVersion'', Method = ''POST'', Path = ''/api/v1/config/versions/{id}/rollback'', Anonymous = False\<rparr>,
      \<lparr>ID = ''getStatusSummary'', Method = ''GET'', Path = ''/api/v1/status/summary'', Anonymous = False\<rparr>,
      \<lparr>ID = ''listStatusListeners'', Method = ''GET'', Path = ''/api/v1/status/listeners'', Anonymous = False\<rparr>,
      \<lparr>ID = ''listStatusClusters'', Method = ''GET'', Path = ''/api/v1/status/clusters'', Anonymous = False\<rparr>,
      \<lparr>ID = ''listStatusClusterEndpoints'', Method = ''GET'', Path = ''/api/v1/status/clusters/{name}/endpoints'', Anonymous = False\<rparr>,
      \<lparr>ID = ''listStatusRoutes'', Method = ''GET'', Path = ''/api/v1/status/routes'', Anonymous = False\<rparr>,
      \<lparr>ID = ''listStatusCerts'', Method = ''GET'', Path = ''/api/v1/status/certs'', Anonymous = False\<rparr>,
      \<lparr>ID = ''getStatsOverview'', Method = ''GET'', Path = ''/api/v1/stats/overview'', Anonymous = False\<rparr>,
      \<lparr>ID = ''listStatsSeries'', Method = ''GET'', Path = ''/api/v1/stats/series'', Anonymous = False\<rparr>,
      \<lparr>ID = ''listCertificates'', Method = ''GET'', Path = ''/api/v1/certs'', Anonymous = False\<rparr>,
      \<lparr>ID = ''createCertificate'', Method = ''POST'', Path = ''/api/v1/certs'', Anonymous = False\<rparr>,
      \<lparr>ID = ''getCertificate'', Method = ''GET'', Path = ''/api/v1/certs/{name}'', Anonymous = False\<rparr>,
      \<lparr>ID = ''deleteCertificate'', Method = ''DELETE'', Path = ''/api/v1/certs/{name}'', Anonymous = False\<rparr>,
      \<lparr>ID = ''getSystemInfo'', Method = ''GET'', Path = ''/api/v1/system/info'', Anonymous = False\<rparr>,
      \<lparr>ID = ''getEnvoyPrometheusStats'', Method = ''GET'', Path = ''/api/v1/envoy/stats/prometheus'', Anonymous = False\<rparr>,
      \<lparr>ID = ''getHealth'', Method = ''GET'', Path = ''/healthz'', Anonymous = True\<rparr>,
      \<lparr>ID = ''getReady'', Method = ''GET'', Path = ''/readyz'', Anonymous = True\<rparr>,
      \<lparr>ID = ''getManagementMetrics'', Method = ''GET'', Path = ''/metrics'', Anonymous = True\<rparr>]"

section \<open>Path templates\<close>

text \<open>A template is split at slashes; a segment in braces is a placeholder.\<close>

definition is_placeholder :: "string \<Rightarrow> bool" where
  "is_placeholder seg \<longleftrightarrow> seg \<noteq> [] \<and> hd seg = CHR ''{'' \<and> last seg = CHR ''}''"

definition segments :: "string \<Rightarrow> string list" where
  "segments p = split_on (CHR ''/'') p"

definition placeholders :: "string \<Rightarrow> string list" where
  "placeholders p = map (\<lambda>seg. butlast (tl seg)) (filter is_placeholder (segments p))"

text \<open>
  The matching rule of \<open>net/http.ServeMux\<close>: segment by segment, a placeholder takes one
  non-empty segment, and a pattern registered for \<open>GET\<close> also serves \<open>HEAD\<close>.
\<close>

fun segments_match :: "string list \<Rightarrow> string list \<Rightarrow> bool" where
  "segments_match [] [] = True"
| "segments_match (s # ss) (r # rs) =
     ((if is_placeholder s then r \<noteq> [] else s = r) \<and> segments_match ss rs)"
| "segments_match _ _ = False"

definition method_match :: "string \<Rightarrow> string \<Rightarrow> bool" where
  "method_match pat m \<longleftrightarrow> pat = m \<or> (pat = ''GET'' \<and> m = ''HEAD'')"

definition mux_match :: "go_operation \<Rightarrow> string \<Rightarrow> string \<Rightarrow> bool" where
  "mux_match oper m p \<longleftrightarrow> method_match (Method oper) m \<and> segments_match (segments (Path oper)) (segments p)"

text \<open>Two patterns that some path could match both of.\<close>

fun segments_overlap :: "string list \<Rightarrow> string list \<Rightarrow> bool" where
  "segments_overlap [] [] = True"
| "segments_overlap (s # ss) (t # ts) =
     ((is_placeholder s \<or> is_placeholder t \<or> s = t) \<and> segments_overlap ss ts)"
| "segments_overlap _ _ = False"

definition methods_overlap :: "string \<Rightarrow> string \<Rightarrow> bool" where
  "methods_overlap a b \<longleftrightarrow> a = b \<or> (a = ''GET'' \<and> b = ''HEAD'') \<or> (a = ''HEAD'' \<and> b = ''GET'')"

definition mux_route :: "string \<Rightarrow> string \<Rightarrow> go_operation option" where
  "mux_route m p = find (\<lambda>oper. mux_match oper m p) Operations"

section \<open>Properties of the contract\<close>

text \<open>The operations served outside the versioned API prefix.\<close>

definition probe_paths :: "string list" where
  "probe_paths = [''/healthz'', ''/readyz'', ''/metrics'']"

definition served_path :: "string \<Rightarrow> string" where
  "served_path p = (if p \<in> set probe_paths then p else ''/api/v1'' @ p)"

text \<open>
  The server's registry and the console's \<open>paths\<close> describe the same operations: entry by
  entry the same method, the same operation id and the same path under the API prefix (the three
  probes outside it), every id once; and the operations named by the paths are exactly the
  operations the contract declares.
\<close>

theorem registry_matches_contract:
  "map (\<lambda>oper. (Path oper, Method oper, ID oper)) Operations =
     map (\<lambda>(p, m, i). (served_path p, m, i)) contract_table \<and>
   distinct (map ID Operations) \<and>
   map (\<lambda>(p, m, i). i) contract_table = map fst operations"
  by code_simp

text \<open>
  An operation of the contract requires the header \<open>X-ESGW-Request\<close> with the literal value
  1 exactly when its method is not \<open>GET\<close>; a \<open>GET\<close> operation declares no header at all.
\<close>

lemma csrf_header_declared_iff_unsafe:
  "list_all (\<lambda>(p, m, i). \<exists>oper. map_of operations i = Some oper \<and>
      op_header oper = (if m = ''GET'' then Never
                     else Required [req ''X-ESGW-Request'' (TLit ''1'')])) contract_table"
proof -
  have "list_all (\<lambda>(p, m, i). (case map_of operations i of None \<Rightarrow> False | Some oper \<Rightarrow>
      op_header oper = (if m = ''GET'' then Never
                     else Required [req ''X-ESGW-Request'' (TLit ''1'')]))) contract_table"
    by code_simp
  then show ?thesis
    by (auto simp: list_all_iff split: option.splits)
qed

text \<open>
  The path parameters an operation declares are the placeholders of its path template, in
  the order of the template.
\<close>

lemma path_parameters_are_placeholders:
  "list_all (\<lambda>(p, m, i). \<exists>oper. map_of operations i = Some oper \<and>
      map fst (slot_list (op_path oper)) = placeholders p) contract_table"
proof -
  have "list_all (\<lambda>(p, m, i). (case map_of operations i of None \<Rightarrow> False | Some oper \<Rightarrow>
      map fst (slot_list (op_path oper)) = placeholders p)) contract_table"
    by code_simp
  then show ?thesis
    by (auto simp: list_all_iff split: option.splits)
qed

lemma segments_match_overlap:
  "segments_match ss rs \<Longrightarrow> segments_match ts rs \<Longrightarrow> segments_overlap ss ts"
proof (induction ss rs arbitrary: ts rule: segments_match.induct)
  case (2 s ss r rs)
  then show ?case by (cases ts) (auto split: if_splits)
qed (auto elim: segments_match.elims)

lemma method_match_overlap:
  "method_match a m \<Longrightarrow> method_match b m \<Longrightarrow> methods_overlap a b"
  by (auto simp: method_match_def methods_overlap_def)

lemma registry_patterns_apart:
  "list_all (\<lambda>a. list_all (\<lambda>b. methods_overlap (Method a) (Method b) \<longrightarrow>
      segments_overlap (segments (Path a)) (segments (Path b)) \<longrightarrow> a = b) Operations) Operations"
  by code_simp

lemma mux_match_unique:
  assumes "a \<in> set Operations" and "b \<in> set Operations" and "mux_match a m p" and "mux_match b m p"
  shows "a = b"
  using assms registry_patterns_apart segments_match_overlap method_match_overlap
  unfolding mux_match_def list_all_iff by blast

text \<open>
  Routing is unambiguous: for every method and every path, an operation of the registry
  matches exactly when it is the one the router selects, so no two patterns compete for a
  request, whatever order they are registered in.
\<close>

lemma mux_route_unambiguous:
  "oper \<in> set Operations \<and> mux_match oper m p \<longleftrightarrow> mux_route m p = Some oper"
proof
  assume L: "oper \<in> set Operations \<and> mux_match oper m p"
  then obtain a where a: "mux_route m p = Some a"
    by (cases "mux_route m p") (auto simp: mux_route_def find_None_iff)
  then have "a \<in> set Operations" "mux_match a m p"
    by (auto simp: mux_route_def find_Some_iff)
  with L a show "mux_route m p = Some oper"
    using mux_match_unique by blast
qed (auto simp: mux_route_def find_Some_iff)

end
