(* ===== verification/Client.thy ===== *)
theory Client
  imports ApiContract
begin

text \<open>
  The console's API client (\<open>web/src/api/client.ts\<close>) and its small helpers
  (\<open>web/src/lib/utils.ts\<close>): the error class every failed call is turned into, the middleware
  that marks state-changing requests for the server's anti-CSRF check, and the two functions
  that unwrap a call's outcome.  \<open>openapi-fetch\<close> builds the request and the outcome; both are
  arbitrary values here.
\<close>

section \<open>Errors\<close>

record management_api_error =
  status :: int
  code :: string
  message :: string
  details :: jsval

text \<open>What a promise of the console can be rejected with: its own error class, or an error of
  the platform or a library, of which only the message is ever read.\<close>

datatype js_error = ManagementAPIError management_api_error | NativeError string

fun error_message :: "js_error \<Rightarrow> string" where
  "error_message (ManagementAPIError e) = message e"
| "error_message (NativeError m) = m"

definition isRecord :: "jsval \<Rightarrow> bool" where
  "isRecord v \<longleftrightarrow> v \<noteq> JNull \<and> js_typeof v = ''object''"

definition asRecord :: "jsval \<Rightarrow> jsval" where
  "asRecord v = (if v \<noteq> JNull \<and> js_typeof v = ''object'' then v else JObj [])"

definition toAPIError :: "int \<Rightarrow> jsval \<Rightarrow> management_api_error" where
  "toAPIError st payload =
     (let root = (if isRecord payload \<and> isRecord (js_get_opt payload ''error'')
                  then js_get_opt payload ''error'' else JObj []);
          c = js_get_opt root ''code'';
          m = js_get_opt root ''message''
      in \<lparr>status = st,
          code = (case c of JStr s \<Rightarrow> s
                  | _ \<Rightarrow> if st = 401 then ''UNAUTHENTICATED'' else ''REQUEST_FAILED''),
          message = (case m of JStr s \<Rightarrow> s
                  | _ \<Rightarrow> if st = 0 then ''The management API could not be reached.''
                        else ''Request failed ('' @ string_of_int st @ '').''),
          details = js_get_opt root ''details''\<rparr>)"

section \<open>Unwrapping the outcome of a call\<close>

record fetch_result =
  fr_data :: jsval
  fr_error :: jsval
  fr_status :: int

text \<open>\<open>Response.ok\<close>\<close>

definition response_ok :: "int \<Rightarrow> bool" where
  "response_ok st \<longleftrightarrow> 200 \<le> st \<and> st \<le> 299"

definition unwrap :: "fetch_result \<Rightarrow> js_error + jsval" where
  "unwrap r = (if \<not> response_ok (fr_status r) \<or> fr_error r \<noteq> JUndefined
               then Inl (ManagementAPIError (toAPIError (fr_status r) (fr_error r)))
               else Inr (fr_data r))"

definition unwrapVoid :: "fetch_result \<Rightarrow> js_error + unit" where
  "unwrapVoid r = (if \<not> response_ok (fr_status r) \<or> fr_error r \<noteq> JUndefined
               then Inl (ManagementAPIError (toAPIError (fr_status r) (fr_error r)))
               else Inr ())"

section \<open>The anti-CSRF middleware\<close>

record http_request =
  rq_method :: string
  rq_headers :: "(string \<times> string) list"

text \<open>\<open>Headers.set\<close> and reading a header: names are compared without regard to case.\<close>

fun headers_set :: "(string \<times> string) list \<Rightarrow> string \<Rightarrow> string \<Rightarrow> (string \<times> string) list" where
  "headers_set [] k v = [(k, v)]"
| "headers_set ((k', v') # hs) k v =
     (if to_lower k' = to_lower k
      then (k', v) # filter (\<lambda>h. to_lower (fst h) \<noteq> to_lower k) hs
      else (k', v') # headers_set hs k v)"

definition header_values :: "(string \<times> string) list \<Rightarrow> string \<Rightarrow> string list" where
  "header_values hs k = map snd (filter (\<lambda>h. to_lower (fst h) = to_lower k) hs)"

definition safe_methods :: "string list" where
  "safe_methods = [''GET'', ''HEAD'', ''OPTIONS'']"

definition csrf_onRequest :: "'a http_request_scheme \<Rightarrow> 'a http_request_scheme" where
  "csrf_onRequest r =
     (if to_upper (rq_method r) \<notin> set safe_methods
      then r\<lparr>rq_headers := headers_set (rq_headers r) ''X-ESGW-Request'' ''1''\<rparr>
      else r)"

definition baseUrl :: string where
  "baseUrl = ''/api/v1''"

definition csrfHeader :: "(string \<times> string) list" where
  "csrfHeader = [(''X-ESGW-Request'', ''1'')]"

section \<open>Formatting helpers\<close>

text \<open>The bytes of the em dash the console shows for a missing value.\<close>

definition em_dash :: string where
  "em_dash = [CHR 0xE2, CHR 0x80, CHR 0x94]"

text \<open>
  \<open>formatTime\<close>: the locale's date format is the environment's, so \<open>fmt\<close> stands for parsing and
  formatting together and is \<open>None\<close> on a string that is not a date.
\<close>

definition formatTime :: "(string \<Rightarrow> string option) \<Rightarrow> jsval \<Rightarrow> string" where
  "formatTime fmt v =
     (if \<not> js_truthy v then em_dash
      else (case fmt (js_string v) of None \<Rightarrow> js_string v | Some s \<Rightarrow> s))"

text \<open>\<open>cn\<close>: \<open>clsx\<close> and \<open>tailwind-merge\<close> are the two libraries it composes.\<close>

definition cn :: "(string list \<Rightarrow> string) \<Rightarrow> (string \<Rightarrow> string) \<Rightarrow> string list \<Rightarrow> string" where
  "cn clsx twMerge inputs = twMerge (clsx inputs)"

section \<open>Lemmas\<close>

lemma isRecord_iff_object: "isRecord v \<longleftrightarrow> js_is_object v"
  by (simp add: isRecord_def js_is_object_def)

lemma asRecord_object: "js_is_object (asRecord v)"
  by (simp add: asRecord_def js_is_object_def)

lemma asRecord_get: "\<exists>w. js_get (asRecord v) k = Some w"
  using js_is_object_get [OF asRecord_object] .

lemma header_values_set_same [simp]:
  "header_values (headers_set hs k v) k = [v]"
  by (induction hs k v rule: headers_set.induct) (auto simp: header_values_def filter_empty_conv)

lemma header_values_set_other:
  "to_lower k' \<noteq> to_lower k \<Longrightarrow> header_values (headers_set hs k v) k' = header_values hs k'"
proof (induction hs k v rule: headers_set.induct)
  case (2 k1 v1 hs k v)
  have "filter (\<lambda>h. to_lower (fst h) = to_lower k' \<and> to_lower (fst h) \<noteq> to_lower k) hs =
        filter (\<lambda>h. to_lower (fst h) = to_lower k') hs"
    using "2.prems" by (intro filter_cong) auto
  with 2 show ?case
    by (auto simp: header_values_def conj_commute)
qed (auto simp: header_values_def)

lemma error_envelope_shape:
  assumes "conforms schemas_Error payload"
  obtains ps es c m where "payload = JObj ps" and "map_of ps ''error'' = Some (JObj es)"
    and "map_of es ''code'' = Some (JStr c)" and "map_of es ''message'' = Some (JStr m)"
  using assms
  by (auto simp: schemas_Error_def conforms_some_TLit simp del: list.map
      split: jsval.splits option.splits)

section \<open>Responses of a declared type\<close>

text \<open>
  The contract between a server operation and the console: the bodies the server encodes have
  the type the console casts them to.  Under it the cast is harmless: unwrapping yields a value
  of the declared type, and reading a required field neither throws nor yields a value of
  another type.
\<close>

locale wire_type =
  fixes T :: ty
    and encode :: "'a \<Rightarrow> jsval"
    and valid :: "'a \<Rightarrow> bool"
  assumes encode_conforms: "valid x \<Longrightarrow> conforms T (encode x)"
begin

lemma unwrap_typed:
  assumes "valid x" and "response_ok st"
  shows "\<exists>v. unwrap \<lparr>fr_data = encode x, fr_error = JUndefined, fr_status = st\<rparr> = Inr v \<and> conforms T v"
  using assms encode_conforms by (simp add: unwrap_def)

lemma field_read:
  assumes "valid x" and "T = TObject fs b" and "(k, True, t) \<in> set fs"
  shows "\<exists>w. js_get (encode x) k = Some w \<and> conforms t w"
  using conforms_required_get encode_conforms [OF assms(1)] assms(2,3) by blast

end

section \<open>Properties\<close>

text \<open>
  A failed call whose body is the API's error envelope is reported with exactly the code,
  the message and the details of the envelope and the status of the response; the code is one
  of the documented ones.
\<close>

lemma toAPIError_preserves_envelope:
  assumes "conforms schemas_Error payload"
  shows "\<exists>e c m. js_get payload ''error'' = Some e \<and> js_get e ''code'' = Some (JStr c) \<and>
     js_get e ''message'' = Some (JStr m) \<and>
     c \<in> {''INVALID_ARGUMENT'', ''UNAUTHENTICATED'', ''FORBIDDEN'', ''NOT_FOUND'', ''CONFLICT'',
           ''NO_CHANGES'', ''VALIDATION_FAILED'', ''RATE_LIMITED'', ''INTERNAL'', ''BAD_GATEWAY''} \<and>
     toAPIError st payload =
       \<lparr>status = st, code = c, message = m, details = js_get_opt e ''details''\<rparr>"
proof -
  obtain ps es c m where p: "payload = JObj ps" and e: "map_of ps ''error'' = Some (JObj es)"
    and c: "map_of es ''code'' = Some (JStr c)" and m: "map_of es ''message'' = Some (JStr m)"
    using assms by (rule error_envelope_shape)
  have "conforms (TEnum [''INVALID_ARGUMENT'', ''UNAUTHENTICATED'', ''FORBIDDEN'', ''NOT_FOUND'',
      ''CONFLICT'', ''NO_CHANGES'', ''VALIDATION_FAILED'', ''RATE_LIMITED'', ''INTERNAL'',
      ''BAD_GATEWAY'']) (JStr c)"
    using assms p e c by (simp add: schemas_Error_def del: list.map)
  then show ?thesis
    unfolding conforms_TEnum_iff using p e c m
    by (auto simp: toAPIError_def isRecord_def js_get_opt_def Let_def)
qed

lemma toAPIError_preserves_envelope_witness:
  "toAPIError 409 (JObj [(''error'', JObj [(''code'', JStr ''CONFLICT''),
      (''message'', JStr ''draft changed''), (''details'', JArr [])])]) =
     \<lparr>status = 409, code = ''CONFLICT'', message = ''draft changed'', details = JArr []\<rparr>"
proof -
  let ?p = "JObj [(''error'', JObj [(''code'', JStr ''CONFLICT''),
      (''message'', JStr ''draft changed''), (''details'', JArr [])])]"
  have "conforms schemas_Error ?p" by code_simp
  from toAPIError_preserves_envelope [OF this, of 409] show ?thesis
    by (auto simp: js_get_opt_def)
qed

text \<open>
  A failed call whose body is anything else is reported by status alone: the message and
  the code are the fixed fallbacks and nothing of the body reaches the error.
\<close>

lemma toAPIError_hides_unknown_payload:
  assumes "\<not> isRecord payload \<or> \<not> isRecord (js_get_opt payload ''error'')"
  shows "toAPIError st payload =
    \<lparr>status = st, code = (if st = 401 then ''UNAUTHENTICATED'' else ''REQUEST_FAILED''),
     message = (if st = 0 then ''The management API could not be reached.''
                else ''Request failed ('' @ string_of_int st @ '').''),
     details = JUndefined\<rparr>"
  using assms by (auto simp: toAPIError_def js_get_opt_def Let_def)

lemma toAPIError_hides_unknown_payload_witness:
  "message (toAPIError 500 (JStr ''database secret'')) = ''Request failed (500).''"
proof -
  have "\<not> isRecord (JStr ''database secret'')" by (simp add: isRecord_def)
  then have "message (toAPIError 500 (JStr ''database secret'')) =
      ''Request failed ('' @ string_of_int 500 @ '').''"
    using toAPIError_hides_unknown_payload [of "JStr ''database secret''" 500] by simp
  moreover have "string_of_int 500 = ''500''" by code_simp
  ultimately show ?thesis by simp
qed

end
