(* ===== verification/ConsoleKit.thy ===== *)
theory ConsoleKit
  imports Client "HOL-Library.Monad_Syntax"
begin

text \<open>
  What every page of the console is written with: the tree of elements a component renders, the
  states of the queries and mutations it reads, the calls it issues, and the components of
  \<open>web/src/components\<close>.

  A component is a function from its props and state to \<open>view option\<close>; \<open>None\<close> is an exception
  thrown while rendering (a property read of \<open>undefined\<close> or \<open>null\<close>, a method called on a value
  that does not have it, an object used as a child), which unmounts the whole console since it
  has no error boundary.  Elements keep their tag, their text and the attributes that carry
  meaning.  Class names, icons and wrappers that only place their children are left out; where
  a condition selects a class, what it selects is an attribute.
\<close>

section \<open>Rendered elements\<close>

datatype view = Txt string | El string "(string \<times> string) list" "view list"

text \<open>A JSX child \<open>{v}\<close>: text for strings and numbers, nothing for \<open>undefined\<close>, \<open>null\<close> and
  booleans, the elements of an array; React refuses an object.\<close>

fun js_child :: "jsval \<Rightarrow> view list option" where
  "js_child (JStr s) = Some [Txt s]"
| "js_child (JNum n) = Some [Txt (string_of_int n)]"
| "js_child (JArr xs) = map_option concat (those (map js_child xs))"
| "js_child (JObj _) = None"
| "js_child _ = Some []"

text \<open>A method of arrays, or of strings, called on a value.\<close>

definition js_array :: "jsval \<Rightarrow> jsval list option" where
  "js_array v = (case v of JArr xs \<Rightarrow> Some xs | _ \<Rightarrow> None)"

definition js_text :: "jsval \<Rightarrow> string option" where
  "js_text v = (case v of JStr s \<Rightarrow> Some s | _ \<Rightarrow> None)"

text \<open>\<open>s.replace(pat, rep)\<close> for a string pattern: the first occurrence only.\<close>

fun replace_first :: "string \<Rightarrow> string \<Rightarrow> string \<Rightarrow> string" where
  "replace_first pat rep [] = (if pat = [] then rep else [])"
| "replace_first pat rep (c # s) =
     (if prefix pat (c # s) then rep @ drop (length pat) (c # s) else c # replace_first pat rep s)"

text \<open>\<open>!s.trim()\<close>, for the white space of ASCII.\<close>

definition js_blank :: "string \<Rightarrow> bool" where
  "js_blank s = list_all (\<lambda>c. c \<in> {CHR '' '', CHR 0x09, CHR 0x0A, CHR 0x0B, CHR 0x0C, CHR 0x0D}) s"

text \<open>\<open>Array.from(new Set(xs))\<close>: the first occurrence of each value, in order.\<close>

definition js_unique :: "'a list \<Rightarrow> 'a list" where
  "js_unique xs = rev (remdups (rev xs))"

text \<open>The object \<open>{...v, k: w}\<close>: a key that is already there keeps its place.  Only objects and
  \<open>undefined\<close> are spread in the console.\<close>

fun obj_put :: "string \<Rightarrow> jsval \<Rightarrow> (string \<times> jsval) list \<Rightarrow> (string \<times> jsval) list" where
  "obj_put k v [] = [(k, v)]"
| "obj_put k v ((k', v') # ps) = (if k' = k then (k, v) # ps else (k', v') # obj_put k v ps)"

definition js_spread_put :: "jsval \<Rightarrow> string \<Rightarrow> jsval \<Rightarrow> jsval" where
  "js_spread_put v k w = JObj (obj_put k w (case v of JObj ps \<Rightarrow> ps | _ \<Rightarrow> []))"

lemma map_of_obj_put: "map_of (obj_put k v ps) = (map_of ps)(k \<mapsto> v)"
  by (induction ps) auto

lemma js_get_spread_put [simp]: "js_get (js_spread_put v k w) k = Some w"
  by (simp add: js_spread_put_def map_of_obj_put)

text \<open>The text of a view, and the elements of a tag, in document order.\<close>

fun texts :: "view \<Rightarrow> string list" where
  "texts (Txt s) = [s]"
| "texts (El _ _ vs) = concat (map texts vs)"

fun elems :: "string \<Rightarrow> view \<Rightarrow> view list" where
  "elems t (Txt s) = []"
| "elems t (El u as vs) = (if u = t then [El u as vs] else []) @ concat (map (elems t) vs)"

definition attr :: "string \<Rightarrow> view \<Rightarrow> string option" where
  "attr k v = (case v of El _ as _ \<Rightarrow> map_of as k | Txt _ \<Rightarrow> None)"

definition flag :: "string \<Rightarrow> bool \<Rightarrow> (string \<times> string) list" where
  "flag k b = (if b then [(k, '''')] else [])"

text \<open>The UTF-8 bytes of the typographic characters of the texts.\<close>

definition ellipsis :: string where
  "ellipsis = [CHR 0xE2, CHR 0x80, CHR 0xA6]"

definition middle_dot :: string where
  "middle_dot = [CHR 0xC2, CHR 0xB7]"

definition en_dash :: string where
  "en_dash = [CHR 0xE2, CHR 0x80, CHR 0x93]"

section \<open>Queries and mutations\<close>

text \<open>
  The result object of \<open>useQuery\<close> by its \<open>status\<close>: pending has neither data nor error; a failed
  query has an error and the data of an earlier success, if there was one (\<open>undefined\<close>
  otherwise).  The state of \<open>useMutation\<close> likewise.
\<close>

datatype query = QPending | QError js_error jsval | QSuccess jsval

fun isPending :: "query \<Rightarrow> bool" where
  "isPending QPending = True"
| "isPending _ = False"

fun isError :: "query \<Rightarrow> bool" where
  "isError (QError _ _) = True"
| "isError _ = False"

fun query_data :: "query \<Rightarrow> jsval" where
  "query_data QPending = JUndefined"
| "query_data (QError _ d) = d"
| "query_data (QSuccess d) = d"

fun query_error :: "query \<Rightarrow> js_error option" where
  "query_error (QError e _) = Some e"
| "query_error _ = None"

datatype mutation = MIdle | MPending | MError js_error | MSuccess

fun mutation_pending :: "mutation \<Rightarrow> bool" where
  "mutation_pending MPending = True"
| "mutation_pending _ = False"

fun mutation_error :: "mutation \<Rightarrow> js_error option" where
  "mutation_error (MError e) = Some e"
| "mutation_error _ = None"

text \<open>\<open>(a.error ?? b.error)?.message ?? text\<close>\<close>

definition first_error_message :: "js_error option list \<Rightarrow> string \<Rightarrow> string" where
  "first_error_message es text =
     (case find (\<lambda>e. e \<noteq> None) es of Some (Some e) \<Rightarrow> error_message e | _ \<Rightarrow> text)"

text \<open>A query whose data, when it has any, has a type.\<close>

definition query_typed :: "ty \<Rightarrow> query \<Rightarrow> bool" where
  "query_typed T q = (case q of QPending \<Rightarrow> True | QError _ d \<Rightarrow> d = JUndefined \<or> conforms T d
     | QSuccess d \<Rightarrow> conforms T d)"

lemma query_settled: "\<not> isPending q \<Longrightarrow> \<not> isError q \<Longrightarrow> \<exists>d. q = QSuccess d"
  by (cases q) auto

section \<open>Calls\<close>

record api_call =
  call_method :: string
  call_path :: string
  call_query :: "(string \<times> jsval) list"
  call_header :: "(string \<times> jsval) list"
  call_pathParams :: "(string \<times> jsval) list"
  call_body :: "jsval option"

text \<open>\<open>{params: {header: csrfHeader}}\<close>\<close>

definition csrf_params :: "(string \<times> jsval) list" where
  "csrf_params = map (\<lambda>(k, v). (k, JStr v)) csrfHeader"

definition GET :: "string \<Rightarrow> api_call" where
  "GET p = \<lparr>call_method = ''GET'', call_path = p, call_query = [], call_header = [],
            call_pathParams = [], call_body = None\<rparr>"

definition mutating :: "string \<Rightarrow> string \<Rightarrow> jsval option \<Rightarrow> api_call" where
  "mutating m p b = \<lparr>call_method = m, call_path = p, call_query = [], call_header = csrf_params,
            call_pathParams = [], call_body = b\<rparr>"

text \<open>The parameters given against the ones declared: declared ones only, each of its type, and
  all that are required.\<close>

definition params_ok :: "field list slot \<Rightarrow> (string \<times> jsval) list \<Rightarrow> bool" where
  "params_ok decl given \<longleftrightarrow>
     conforms_fields (slot_list decl) given \<and>
     list_all (\<lambda>(k, v). k \<in> set (map fst (slot_list decl))) given"

definition body_ok :: "operation \<Rightarrow> jsval option \<Rightarrow> bool" where
  "body_ok oper b =
     (case op_requestBody oper of
        Never \<Rightarrow> b = None
      | Optional cs \<Rightarrow> (case b of None \<Rightarrow> True | Some v \<Rightarrow>
          (case map_of cs ''application/json'' of None \<Rightarrow> False | Some t \<Rightarrow> conforms t v))
      | Required cs \<Rightarrow> (case b of None \<Rightarrow> False | Some v \<Rightarrow>
          (case map_of cs ''application/json'' of None \<Rightarrow> False | Some t \<Rightarrow> conforms t v)))"

definition call_operation :: "api_call \<Rightarrow> operation option" where
  "call_operation c =
     (case find (\<lambda>(p, m, i). p = call_path c \<and> m = call_method c) contract_table of
        None \<Rightarrow> None | Some (p, m, i) \<Rightarrow> map_of operations i)"

definition call_ok :: "operation \<Rightarrow> api_call \<Rightarrow> bool" where
  "call_ok oper c \<longleftrightarrow>
     params_ok (op_query oper) (call_query c) \<and> params_ok (op_header oper) (call_header c) \<and>
     params_ok (op_path oper) (call_pathParams c) \<and> body_ok oper (call_body c)"

definition call_conforms :: "api_call \<Rightarrow> bool" where
  "call_conforms c = (case call_operation c of None \<Rightarrow> False | Some oper \<Rightarrow> call_ok oper c)"

text \<open>The JSON body types of the success responses a call can have.\<close>

definition call_results :: "api_call \<Rightarrow> ty list" where
  "call_results c = (case call_operation c of None \<Rightarrow> [] | Some oper \<Rightarrow>
     List.map_filter (\<lambda>(st, r). if 200 \<le> st \<and> st \<le> 299
        then map_of (slot_list (resp_content r)) ''application/json'' else None)
      (op_responses oper))"

section \<open>Shared components\<close>

text \<open>\<open>components/ui\<close>\<close>

datatype tone = tone_healthy | tone_warning | tone_neutral | tone_danger

fun tone_name :: "tone \<Rightarrow> string" where
  "tone_name tone_healthy = ''healthy''"
| "tone_name tone_warning = ''warning''"
| "tone_name tone_neutral = ''neutral''"
| "tone_name tone_danger = ''danger''"

definition Badge :: "tone \<Rightarrow> view list \<Rightarrow> view" where
  "Badge t kids = El ''span'' [(''tone'', tone_name t)] kids"

definition Button :: "bool \<Rightarrow> (string \<times> string) list \<Rightarrow> view list \<Rightarrow> view" where
  "Button disabled props kids = El ''button'' (props @ flag ''disabled'' disabled) kids"

definition Field :: "string \<Rightarrow> string option \<Rightarrow> view list \<Rightarrow> view" where
  "Field label hint kids =
     El ''label'' [] (El ''span'' [] [Txt label] # kids @
       (case hint of Some h \<Rightarrow> if h \<noteq> [] then [El ''span'' [] [Txt h]] else [] | None \<Rightarrow> []))"

definition Input :: "(string \<times> string) list \<Rightarrow> view" where
  "Input props = El ''input'' props []"

definition Textarea :: "(string \<times> string) list \<Rightarrow> view" where
  "Textarea props = El ''textarea'' props []"

definition Panel :: "view list \<Rightarrow> view" where
  "Panel kids = El ''div'' [] kids"

definition PanelHeader :: "view list \<Rightarrow> view" where
  "PanelHeader kids = El ''div'' [] kids"

definition DialogContent :: "string \<Rightarrow> string option \<Rightarrow> view list \<Rightarrow> view" where
  "DialogContent title description kids =
     El ''dialog'' [] ([El ''title'' [] [Txt title]] @
       (case description of Some d \<Rightarrow> if d \<noteq> [] then [El ''description'' [] [Txt d]] else []
        | None \<Rightarrow> []) @ kids @ [El ''button'' [(''aria-label'', ''Close dialog'')] []])"

text \<open>\<open>components/query-state.tsx\<close> and \<open>components/page-heading.tsx\<close>\<close>

definition LoadingBlock :: "string \<Rightarrow> view" where
  "LoadingBlock label = El ''div'' [] [El ''p'' [] [Txt label]]"

definition ErrorBlock :: "string \<Rightarrow> string option \<Rightarrow> view" where
  "ErrorBlock msg retry =
     El ''div'' [(''role'', ''alert'')] ([El ''h2'' [] [Txt ''The signal broke''], El ''p'' [] [Txt msg]] @
       (case retry of Some r \<Rightarrow> [Button False [(''variant'', ''secondary''), (''onClick'', r)] [Txt ''Try again'']]
        | None \<Rightarrow> []))"

definition EmptyBlock :: "string \<Rightarrow> string \<Rightarrow> view" where
  "EmptyBlock title description =
     El ''div'' [] [El ''h2'' [] [Txt title], El ''p'' [] [Txt description]]"

definition PageHeading :: "string \<Rightarrow> string \<Rightarrow> string \<Rightarrow> view option \<Rightarrow> view" where
  "PageHeading eyebrow title description action =
     El ''header'' [] ([El ''p'' [] [Txt eyebrow], El ''h1'' [] [Txt title], El ''p'' [] [Txt description]] @
       (case action of Some a \<Rightarrow> [a] | None \<Rightarrow> []))"

lemmas kit_defs [view_defs] =
  Badge_def Button_def Field_def Input_def Textarea_def Panel_def PanelHeader_def
  DialogContent_def LoadingBlock_def ErrorBlock_def EmptyBlock_def PageHeading_def flag_def

section \<open>Lemmas on typed data\<close>

lemma those_map_Some: "those (map (\<lambda>x. Some (f x)) xs) = Some (map f xs)"
  by (induction xs) auto

lemma those_map_total:
  "(\<forall>x \<in> set xs. \<exists>y. f x = Some y) \<Longrightarrow> \<exists>ys. those (map f xs) = Some ys"
  by (induction xs) auto

lemma those_map_SomeD:
  "those (map f xs) = Some ys \<Longrightarrow> list_all2 (\<lambda>x y. f x = Some y) xs ys"
  by (induction xs arbitrary: ys) (auto split: option.splits)

lemma list_all2_in_right:
  "list_all2 P xs ys \<Longrightarrow> y \<in> set ys \<Longrightarrow> \<exists>x \<in> set xs. P x y"
  by (induction rule: list_all2_induct) auto

lemma js_array_elems: "js_is_array v \<Longrightarrow> v = JArr (js_elems v)"
  by (cases v) auto

lemma conforms_TArray_iff: "conforms (TArray t) v \<longleftrightarrow> (\<exists>xs. v = JArr xs \<and> (\<forall>x \<in> set xs. conforms t x))"
  by (cases v) (auto simp: list_all_iff)

lemma array_of_typed:
  assumes "conforms (TArray t) v"
  obtains xs where "v = JArr xs" and "js_array v = Some xs" and "\<forall>x \<in> set xs. conforms t x"
  using assms by (cases v) (auto simp: js_array_def list_all_iff)

lemma string_of_typed:
  assumes "conforms TString v"
  obtains s where "v = JStr s"
  using assms by auto

lemma call_operation_mutating:
  "call_operation (mutating m p b) = call_operation (mutating m p None)"
  by (simp add: call_operation_def mutating_def)

lemma call_conforms_mutating:
  assumes "call_operation (mutating m p None) = Some oper"
    and "op_query oper = Never \<or> (\<exists>fs. op_query oper = Optional fs \<and> list_all (\<lambda>(k, r, t). \<not> r) fs)"
    and "op_header oper = Required [req ''X-ESGW-Request'' parameters_CsrfHeader]"
    and "op_path oper = Never"
    and "op_requestBody oper = Required [(''application/json'', T)]" and "conforms T v"
  shows "call_conforms (mutating m p (Some v))"
proof -
  have "call_operation (mutating m p (Some v)) = Some oper"
    using assms(1) call_operation_mutating [of m p "Some v"] by simp
  moreover have "call_ok oper (mutating m p (Some v))"
    using assms(2-6) by (auto simp: call_ok_def params_ok_def body_ok_def mutating_def csrf_params_def
        csrfHeader_def parameters_CsrfHeader_def conforms_fields_iff list_all_iff)
  ultimately show ?thesis by (simp add: call_conforms_def)
qed

end
