(* ===== verification/Limiter.thy ===== *)
theory Limiter
  imports Prelude
begin

text \<open>
  The login limiter of the management server (\<open>internal/auth/limiter.go\<close>).  Times are
  nanoseconds; 0 is Go's zero \<open>time.Time\<close>.  The per-address list of attempts is filtered in
  place (\<open>attempts := l.byIP[ip][:0]\<close>): the compaction overwrites the array the map entry still
  refers to, so it is modelled on the array itself, and the equivalence with an ordinary filter
  is a theorem that needs the invariant on the list's length.
\<close>

type_synonym time = int

definition second :: time where "second = 10 ^ 9"
definition minute :: time where "minute = 60 * second"

record accountFailures =
  fcount :: int
  lockedUntil :: time

record loginLimiter =
  byIP :: "string \<Rightarrow> time list"
  accounts :: "string \<rightharpoonup> accountFailures"

definition newLoginLimiter :: loginLimiter where
  "newLoginLimiter = \<lparr>byIP = (\<lambda>_. []), accounts = Map.empty\<rparr>"

text \<open>Reading a missing key of a Go map gives the zero value.\<close>

definition account :: "loginLimiter \<Rightarrow> string \<Rightarrow> accountFailures" where
  "account l key = (case accounts l key of Some f \<Rightarrow> f | None \<Rightarrow> \<lparr>fcount = 0, lockedUntil = 0\<rparr>)"

section \<open>Operations\<close>

text \<open>
  The loop of \<open>allow\<close>: \<open>i\<close> is the range index, \<open>n\<close> the length of \<open>attempts\<close>, whose
  elements are the first \<open>n\<close> cells of the array being read.
\<close>

function compact :: "time \<Rightarrow> time list \<Rightarrow> nat \<Rightarrow> nat \<Rightarrow> time list \<times> nat" where
  "compact cutoff buf i n =
     (if i < length buf
      then if cutoff < buf ! i then compact cutoff (buf[n := buf ! i]) (Suc i) (Suc n)
           else compact cutoff buf (Suc i) n
      else (buf, n))"
  by pat_completeness auto
termination
  by (relation "measure (\<lambda>(c, buf, i, n). length buf - i)") auto

declare compact.simps [simp del]

text \<open>\<open>allow\<close>: \<open>None\<close> lets the attempt through, \<open>Some d\<close> refuses it with a retry delay.\<close>

definition allow :: "time \<Rightarrow> string \<Rightarrow> string \<Rightarrow> loginLimiter \<Rightarrow> time option \<times> loginLimiter" where
  "allow now ip username l =
     (let key = to_lower username; failure = account l key in
      if now < lockedUntil failure then (Some (lockedUntil failure - now), l)
      else
        let l1 = (if lockedUntil failure \<noteq> 0 then l\<lparr>accounts := (accounts l)(key := None)\<rparr> else l);
            cutoff = now - minute;
            (buf, n) = compact cutoff (byIP l1 ip) 0 0
        in if 10 \<le> n
           then (Some (buf ! 0 + minute - now), l1\<lparr>byIP := (byIP l1)(ip := buf)\<rparr>)
           else (None, l1\<lparr>byIP := (byIP l1)(ip := take n buf @ [now])\<rparr>))"

definition failure :: "time \<Rightarrow> string \<Rightarrow> loginLimiter \<Rightarrow> loginLimiter" where
  "failure now username l =
     (let key = to_lower username; f = account l key; c = fcount f + 1;
          f' = (if 5 \<le> c then \<lparr>fcount = 0, lockedUntil = now + 5 * minute\<rparr>
                else f\<lparr>fcount := c\<rparr>)
      in l\<lparr>accounts := (accounts l)(key := Some f')\<rparr>)"

definition success :: "string \<Rightarrow> loginLimiter \<Rightarrow> loginLimiter" where
  "success username l = l\<lparr>accounts := (accounts l)(to_lower username := None)\<rparr>"

section \<open>The in-place filter\<close>

lemma compact_spec:
  assumes "n \<le> i"
  shows "compact cutoff buf i n = (buf', n') \<Longrightarrow>
     length buf' = length buf \<and>
     take n' buf' = take n buf @ filter ((<) cutoff) (drop i buf) \<and>
     n' = n + length (filter ((<) cutoff) (drop i buf))"
  using assms
proof (induction cutoff buf i n rule: compact.induct)
  case (1 cutoff buf i n)
  show ?case
  proof (cases "i < length buf")
    case True
    then have d: "drop i buf = buf ! i # drop (Suc i) buf"
      by (rule Cons_nth_drop_Suc [symmetric])
    show ?thesis
    proof (cases "cutoff < buf ! i")
      case kept: True
      let ?b = "buf[n := buf ! i]"
      have "drop (Suc i) ?b = drop (Suc i) buf"
        using "1.prems" by simp
      moreover have "take (Suc n) ?b = take n buf @ [buf ! i]"
        using "1.prems" True by (simp add: take_Suc_conv_app_nth)
      ultimately show ?thesis
        using "1.IH"(1) [OF True kept] "1.prems" True kept d
        by (auto simp: compact.simps [of cutoff buf i n])
    next
      case False
      with "1.IH"(2) [OF True] "1.prems" True d show ?thesis
        by (auto simp: compact.simps [of cutoff buf i n])
    qed
  next
    case False
    with "1.prems" show ?thesis
      by (simp add: compact.simps [of cutoff buf i n])
  qed
qed

lemma compact_filter:
  assumes "compact cutoff buf 0 0 = (buf', n)"
  shows "take n buf' = filter ((<) cutoff) buf" and "n = length (filter ((<) cutoff) buf)"
    and "length buf' = length buf"
  using compact_spec [of 0 0, OF _ assms] by auto

lemma compact_all_kept:
  assumes "compact cutoff buf 0 0 = (buf', n)" and "length buf \<le> n"
  shows "buf' = buf"
proof -
  have "length (filter ((<) cutoff) buf) = length buf"
    using compact_filter [OF assms(1)] assms(2) length_filter_le [of "(<) cutoff" buf] by linarith
  then have "filter ((<) cutoff) buf = buf"
    by (rule length_filter_all)
  then show ?thesis
    using compact_filter [OF assms(1)] assms(2) by simp
qed

section \<open>Invariant\<close>

text \<open>No address has more than ten remembered attempts.\<close>

definition limiter_inv :: "loginLimiter \<Rightarrow> bool" where
  "limiter_inv l \<longleftrightarrow> (\<forall>ip. length (byIP l ip) \<le> 10)"

text \<open>What \<open>allow\<close> computes, with an ordinary filter that does not share its array.\<close>

definition allow_spec :: "time \<Rightarrow> string \<Rightarrow> string \<Rightarrow> loginLimiter \<Rightarrow> time option \<times> loginLimiter" where
  "allow_spec now ip username l =
     (let key = to_lower username; failure = account l key;
          l1 = (if lockedUntil failure \<noteq> 0 then l\<lparr>accounts := (accounts l)(key := None)\<rparr> else l);
          recent = filter ((<) (now - minute)) (byIP l ip)
      in if now < lockedUntil failure then (Some (lockedUntil failure - now), l)
         else if 10 \<le> length recent then (Some (hd recent + minute - now), l1)
         else (None, l1\<lparr>byIP := (byIP l1)(ip := recent @ [now])\<rparr>))"

lemma allow_eq_spec:
  assumes "limiter_inv l"
  shows "allow now ip username l = allow_spec now ip username l"
proof -
  obtain buf n where c: "compact (now - minute) (byIP l ip) 0 0 = (buf, n)" by fastforce
  note f = compact_filter [OF c]
  have len: "length (byIP l ip) \<le> 10" using assms by (simp add: limiter_inv_def)
  have same: "10 \<le> n \<Longrightarrow> buf = byIP l ip"
    using compact_all_kept [OF c] len by simp
  have hd: "buf ! 0 = hd (filter ((<) (now - minute)) (byIP l ip))" if "10 \<le> n"
  proof -
    have "hd (filter ((<) (now - minute)) (byIP l ip)) = hd (take n buf)"
      by (simp only: f(1))
    moreover have "buf \<noteq> []"
      using that f(2,3) length_filter_le [of "(<) (now - minute)" "byIP l ip"] by auto
    ultimately show ?thesis
      using that by (simp add: hd_take hd_conv_nth)
  qed
  show ?thesis
  proof (cases "10 \<le> n")
    case True
    with c f(2) hd same show ?thesis
      by (auto simp: allow_def allow_spec_def Let_def)
  next
    case False
    with c f(1,2) show ?thesis
      by (simp add: allow_def allow_spec_def Let_def)
  qed
qed

lemma limiter_inv_new: "limiter_inv newLoginLimiter"
  by (simp add: limiter_inv_def newLoginLimiter_def)

lemma limiter_inv_allow: "limiter_inv l \<Longrightarrow> limiter_inv (snd (allow now ip username l))"
  by (auto simp: allow_eq_spec allow_spec_def Let_def limiter_inv_def)

lemma limiter_inv_failure: "limiter_inv l \<Longrightarrow> limiter_inv (failure now username l)"
  by (simp add: limiter_inv_def failure_def Let_def)

lemma limiter_inv_success: "limiter_inv l \<Longrightarrow> limiter_inv (success username l)"
  by (simp add: limiter_inv_def success_def)

section \<open>Runs\<close>

text \<open>
  The calls the service makes, in the order in which the mutex lets them through.
\<close>

datatype limiter_event = Attempt time string string | Failed time string | Succeeded string

fun limiter_step :: "loginLimiter \<Rightarrow> limiter_event \<Rightarrow> loginLimiter" where
  "limiter_step l (Attempt now ip u) = snd (allow now ip u l)"
| "limiter_step l (Failed now u) = failure now u l"
| "limiter_step l (Succeeded u) = success u l"

lemma limiter_inv_step: "limiter_inv l \<Longrightarrow> limiter_inv (limiter_step l e)"
  by (cases e) (simp_all add: limiter_inv_allow limiter_inv_failure limiter_inv_success)

fun attempt_times :: "limiter_event list \<Rightarrow> time list" where
  "attempt_times [] = []"
| "attempt_times (Attempt now ip u # es) = now # attempt_times es"
| "attempt_times (e # es) = attempt_times es"

text \<open>The times at which attempts from an address were let through.\<close>

fun granted :: "string \<Rightarrow> loginLimiter \<Rightarrow> limiter_event list \<Rightarrow> time list" where
  "granted ip l [] = []"
| "granted ip l (Attempt now ip' u # es) =
     (if ip' = ip \<and> fst (allow now ip' u l) = None then [now] else []) @
     granted ip (limiter_step l (Attempt now ip' u)) es"
| "granted ip l (e # es) = granted ip (limiter_step l e) es"

definition in_window :: "time \<Rightarrow> time list \<Rightarrow> nat" where
  "in_window t gs = length (filter (\<lambda>g. t - minute < g \<and> g \<le> t) gs)"

text \<open>
  The stored list of an address remembers every granted attempt that a window ending now or
  later can still contain.
\<close>

definition remembers :: "time list \<Rightarrow> time list \<Rightarrow> time \<Rightarrow> bool" where
  "remembers stored gs now \<longleftrightarrow>
     (\<forall>c \<ge> now - minute. filter ((<) c) stored = filter ((<) c) gs) \<and> (\<forall>g \<in> set gs. g \<le> now)"

lemma remembers_later: "remembers s gs now \<Longrightarrow> now \<le> now' \<Longrightarrow> remembers s gs now'"
  by (fastforce simp: remembers_def)

lemma remembers_grant:
  assumes "remembers s gs now"
  shows "remembers (filter ((<) (now - minute)) s @ [now]) (gs @ [now]) now"
proof -
  have "filter ((<) c) (filter ((<) (now - minute)) s) = filter ((<) c) gs" if "now - minute \<le> c" for c
  proof -
    have "filter ((<) c) (filter ((<) (now - minute)) s) = filter ((<) c) s"
      unfolding filter_filter using that by (intro filter_cong) auto
    also have "\<dots> = filter ((<) c) gs" using assms that unfolding remembers_def by blast
    finally show ?thesis .
  qed
  then show ?thesis using assms unfolding remembers_def filter_append by (simp del: filter_filter)
qed

lemma in_window_grant:
  assumes r: "remembers s gs now" and few: "length (filter ((<) (now - minute)) s) < 10"
    and w: "\<forall>t. in_window t gs \<le> 10"
  shows "in_window t (gs @ [now]) \<le> 10"
proof (cases "t < now")
  case True
  then show ?thesis using w by (simp add: in_window_def)
next
  case False
  have "in_window t gs \<le> length (filter ((<) (t - minute)) gs)"
    unfolding in_window_def by (induction gs) auto
  also have "\<dots> \<le> length (filter ((<) (now - minute)) gs)"
    using False by (induction gs) auto
  also have "filter ((<) (now - minute)) gs = filter ((<) (now - minute)) s"
    using r by (simp add: remembers_def)
  finally have "in_window t gs \<le> 9" using few by linarith
  then show ?thesis by (simp add: in_window_def)
qed

lemma allow_byIP:
  assumes "limiter_inv l"
  shows "byIP (snd (allow now ip u l)) ip' =
     (if ip' = ip \<and> fst (allow now ip u l) = None
      then filter ((<) (now - minute)) (byIP l ip) @ [now] else byIP l ip')"
    and "fst (allow now ip u l) = None \<Longrightarrow> length (filter ((<) (now - minute)) (byIP l ip)) < 10"
  using assms by (auto simp: allow_eq_spec allow_spec_def Let_def split: if_splits)

lemma granted_window:
  assumes "limiter_inv l" and "remembers (byIP l ip) gs now" and "\<forall>t. in_window t gs \<le> 10"
    and "sorted (now # attempt_times es)"
  shows "\<forall>t. in_window t (gs @ granted ip l es) \<le> 10"
  using assms
proof (induction es arbitrary: l gs now)
  case Nil
  then show ?case by simp
next
  case (Cons e es)
  show ?case
  proof (cases e)
    case (Attempt at ip' u)
    have now: "now \<le> at" and srt: "sorted (at # attempt_times es)"
      using Cons.prems(4) Attempt by auto
    have inv: "limiter_inv (limiter_step l e)"
      using Cons.prems(1) by (rule limiter_inv_step)
    have rem: "remembers (byIP l ip) gs at"
      using Cons.prems(2) now by (rule remembers_later)
    show ?thesis
    proof (cases "ip' = ip \<and> fst (allow at ip' u l) = None")
      case True
      then have "length (filter ((<) (at - minute)) (byIP l ip)) < 10"
        using allow_byIP(2) [OF Cons.prems(1)] by blast
      then have w: "\<forall>t. in_window t (gs @ [at]) \<le> 10"
        using in_window_grant [OF rem] Cons.prems(3) by blast
      have "remembers (byIP (limiter_step l e) ip) (gs @ [at]) at"
        using remembers_grant [OF rem] True Attempt allow_byIP(1) [OF Cons.prems(1)] by auto
      from Cons.IH [OF inv this w srt] show ?thesis
        using True Attempt by auto
    next
      case False
      then have "remembers (byIP (limiter_step l e) ip) gs at"
        using rem Attempt allow_byIP(1) [OF Cons.prems(1)] by auto
      from Cons.IH [OF inv this Cons.prems(3) srt] show ?thesis
        using False Attempt by auto
    qed
  next
    case (Failed at u)
    then show ?thesis
      using Cons.IH [of "failure at u l" gs now] Cons.prems limiter_inv_failure
      by (simp add: failure_def Let_def)
  next
    case (Succeeded u)
    then show ?thesis
      using Cons.IH [of "success u l" gs now] Cons.prems limiter_inv_success
      by (simp add: success_def)
  qed
qed

section \<open>Locked accounts\<close>

text \<open>
  What a caller relies on while an account is locked, as an interface: the attempt is refused
  with a positive delay and the limiter is left as it was, and a failure recorded meanwhile
  does not shorten the lock.
\<close>

locale throttle =
  fixes attempt :: "time \<Rightarrow> string \<Rightarrow> string \<Rightarrow> 's \<Rightarrow> time option \<times> 's"
    and record_failure :: "time \<Rightarrow> string \<Rightarrow> 's \<Rightarrow> 's"
    and locked_until :: "'s \<Rightarrow> string \<Rightarrow> time"
  assumes refused: "now < locked_until s u \<Longrightarrow>
      attempt now ip u s = (Some (locked_until s u - now), s)"
    and failure_keeps_lock: "locked_until s u \<le> now + 5 * minute \<Longrightarrow>
      locked_until s u \<le> locked_until (record_failure now v s) u"
begin

lemma locked_attempts_refused:
  assumes "\<forall>(now, ip) \<in> set tries. now < locked_until s u"
  shows "fold (\<lambda>(now, ip) (ok, s). case attempt now ip u s of (r, s') \<Rightarrow> (ok \<or> r = None, s'))
           tries (False, s) = (False, s)"
  using assms by (induction tries) (auto simp: refused)

lemma failure_while_locked:
  assumes "now < locked_until s u" and "locked_until s u \<le> t + 5 * minute" and "t \<le> now"
  shows "fst (attempt now ip u (record_failure t v s)) \<noteq> None"
proof -
  have "now < locked_until (record_failure t v s) u"
    using failure_keeps_lock [OF assms(2), of v] assms(1) by linarith
  then show ?thesis by (simp add: refused)
qed

end

definition locked_until_of :: "loginLimiter \<Rightarrow> string \<Rightarrow> time" where
  "locked_until_of l u = lockedUntil (account l (to_lower u))"

interpretation login_throttle: throttle allow failure locked_until_of
proof
  fix now u ip and l :: loginLimiter
  assume "now < locked_until_of l u"
  then show "allow now ip u l = (Some (locked_until_of l u - now), l)"
    by (simp add: allow_def locked_until_of_def Let_def)
next
  fix u v now and l :: loginLimiter
  assume "locked_until_of l u \<le> now + 5 * minute"
  then show "locked_until_of l u \<le> locked_until_of (failure now v l) u"
    by (auto simp: locked_until_of_def failure_def account_def Let_def split: option.splits)
qed

text \<open>Consecutive failures of one account, whatever the spelling of the name.\<close>

definition failures_from :: "nat \<Rightarrow> string \<Rightarrow> loginLimiter \<Rightarrow> bool" where
  "failures_from k u l \<longleftrightarrow> fcount (account l (to_lower u)) = int k"

lemma failure_counts:
  assumes "failures_from k u l" and "k < 4" and "to_lower v = to_lower u"
  shows "failures_from (Suc k) u (failure now v l)"
  using assms by (simp add: failures_from_def failure_def account_def Let_def split: option.splits)

lemma fifth_failure_locks:
  assumes "failures_from 4 u l" and "to_lower v = to_lower u"
  shows "locked_until_of (failure now v l) u = now + 5 * minute"
  using assms
  by (simp add: failures_from_def locked_until_of_def failure_def account_def Let_def
      split: option.splits)

lemma failures_from_new: "failures_from 0 u newLoginLimiter"
  by (simp add: failures_from_def newLoginLimiter_def account_def)

section \<open>Properties\<close>

text \<open>
  \<open>allow\<close> filters the attempts of an address in the array the map entry still refers to.
  While no address has more than ten remembered attempts this computes the same decision and
  the same state as a filter into a fresh list, and every operation of the limiter keeps that
  bound, so the sharing is never observable.
\<close>

theorem allow_in_place_filter_sound:
  assumes "limiter_inv l"
  shows "allow now ip u l = allow_spec now ip u l \<and> limiter_inv (limiter_step l e)"
  using allow_eq_spec [OF assms] limiter_inv_step [OF assms] by blast

theorem allow_in_place_filter_sound_witness:
  "limiter_inv newLoginLimiter \<and>
   allow minute ''10.0.0.1'' ''admin'' newLoginLimiter =
     allow_spec minute ''10.0.0.1'' ''admin'' newLoginLimiter"
  using allow_in_place_filter_sound [OF limiter_inv_new] limiter_inv_new by blast

text \<open>
  C27: in any run of the limiter whose attempts carry non-decreasing times, at most ten attempts
  of an address are let through in any window of one minute.
\<close>

theorem at_most_ten_per_minute:
  assumes "sorted (attempt_times es)"
  shows "in_window t (granted ip newLoginLimiter es) \<le> 10"
proof -
  define t0 where "t0 = (case attempt_times es of [] \<Rightarrow> 0 | x # _ \<Rightarrow> x)"
  have "sorted (t0 # attempt_times es)"
    using assms by (cases "attempt_times es") (auto simp: t0_def)
  moreover have "remembers (byIP newLoginLimiter ip) [] t0"
    by (simp add: remembers_def newLoginLimiter_def)
  ultimately have "\<forall>t. in_window t ([] @ granted ip newLoginLimiter es) \<le> 10"
    by (intro granted_window [OF limiter_inv_new]) (auto simp: in_window_def)
  then show ?thesis by simp
qed

theorem at_most_ten_per_minute_witness:
  "in_window (11 * second) (granted ''a'' newLoginLimiter
     (map (\<lambda>i. Attempt (int i * second) ''a'' ''admin'') [0..<12])) \<le> 10"
proof -
  have "sorted (attempt_times (map (\<lambda>i. Attempt (int i * second) ''a'' ''admin'') [0..<12]))"
    by code_simp
  then show ?thesis by (rule at_most_ten_per_minute)
qed

text \<open>
  Five failures in a row against one account name, in any spelling of its case, lock it:
  from the fifth failure until five minutes later every attempt on that name, from any address,
  is refused, and the refusals leave the limiter unchanged.
\<close>

theorem five_failures_lock_account:
  assumes "failures_from 0 u l"
    and "\<forall>v \<in> {u1, u2, u3, u4, u5}. to_lower v = to_lower u"
    and "\<forall>(now, ip) \<in> set tries. now < t5 + 5 * minute"
  shows "let l5 = failure t5 u5 (failure t4 u4 (failure t3 u3 (failure t2 u2 (failure t1 u1 l))))
    in fold (\<lambda>(now, ip) (ok, s). case allow now ip u s of (r, s') \<Rightarrow> (ok \<or> r = None, s'))
         tries (False, l5) = (False, l5)"
proof -
  let ?l4 = "failure t4 u4 (failure t3 u3 (failure t2 u2 (failure t1 u1 l)))"
  have "failures_from 4 u ?l4"
    using failure_counts [of 0 u l u1 t1] failure_counts [of 1 u "failure t1 u1 l" u2 t2]
      failure_counts [of 2 u "failure t2 u2 (failure t1 u1 l)" u3 t3]
      failure_counts [of 3 u "failure t3 u3 (failure t2 u2 (failure t1 u1 l))" u4 t4] assms(1,2)
    by (simp add: eval_nat_numeral)
  then have "locked_until_of (failure t5 u5 ?l4) u = t5 + 5 * minute"
    using assms(2) by (intro fifth_failure_locks) auto
  then show ?thesis
    using login_throttle.locked_attempts_refused [of tries "failure t5 u5 ?l4" u] assms(3)
    by (simp add: Let_def)
qed

theorem five_failures_lock_account_witness:
  "let l5 = failure 5 ''Admin'' (failure 4 ''admin'' (failure 3 ''ADMIN'' (failure 2 ''admin''
        (failure 1 ''admin'' newLoginLimiter))))
    in fold (\<lambda>(now, ip) (ok, s). case allow now ip ''admin'' s of (r, s') \<Rightarrow> (ok \<or> r = None, s'))
         [(6, ''10.0.0.1''), (minute, ''10.0.0.2'')] (False, l5) = (False, l5)"
proof (rule five_failures_lock_account)
  show "failures_from 0 ''admin'' newLoginLimiter" by (rule failures_from_new)
  show "\<forall>v \<in> {''admin'', ''admin'', ''ADMIN'', ''admin'', ''Admin''}. to_lower v = to_lower ''admin''"
    by code_simp
  show "\<forall>(now, ip) \<in> set [(6, ''10.0.0.1''), (minute, ''10.0.0.2'')]. now < 5 + 5 * minute"
    by (simp add: minute_def second_def)
qed

end
