(* ===== verification/AuthStore.thy ===== *)
theory AuthStore
  imports Limiter
begin

text \<open>
  The durable tables behind authentication (\<open>internal/store/auth.go\<close> and the \<open>users\<close> and
  \<open>sessions\<close> tables of \<open>internal/store/store.go\<close>).  A table is the list of its rows; each
  operation is the statement it runs, with the constraints of the schema (\<open>username\<close> unique,
  \<open>token\<close> primary key, \<open>user_id\<close> a reference to \<open>users\<close>) as error branches.  Failures of the
  database engine itself are not modelled.
\<close>

record user =
  user_id :: int
  username :: string
  password_hash :: string
  user_created :: time
  password_updated :: time

record db_session =
  token :: string
  sess_user :: int
  created_at :: time
  last_active_at :: time
  expires_at :: time
  absolute_expires_at :: time
  sess_ip :: string
  sess_agent :: string

record auth_db =
  users :: "user list"
  sessions :: "db_session list"

definition empty_db :: auth_db where
  "empty_db = \<lparr>users = [], sessions = []\<rparr>"

datatype store_error = ErrNoRows | ErrConstraint | ErrRequired

section \<open>Users\<close>

definition UserCount :: "auth_db \<Rightarrow> nat" where
  "UserCount db = length (users db)"

text \<open>The rowid SQLite gives a new row: one more than the largest in use.\<close>

definition next_user_id :: "auth_db \<Rightarrow> int" where
  "next_user_id db = fold max (map user_id (users db)) 0 + 1"

definition CreateUser :: "time \<Rightarrow> user \<Rightarrow> auth_db \<Rightarrow> store_error + (user \<times> auth_db)" where
  "CreateUser sysnow u db =
     (if username u = [] \<or> password_hash u = [] then Inl ErrRequired
      else
        let u1 = (if user_created u = 0 then u\<lparr>user_created := sysnow\<rparr> else u);
            u2 = (if password_updated u1 = 0 then u1\<lparr>password_updated := user_created u1\<rparr> else u1);
            u3 = u2\<lparr>user_id := next_user_id db\<rparr>
        in if \<exists>v \<in> set (users db). username v = username u then Inl ErrConstraint
           else Inr (u3, db\<lparr>users := users db @ [u3]\<rparr>))"

definition UserByUsername :: "auth_db \<Rightarrow> string \<Rightarrow> user option" where
  "UserByUsername db name = find (\<lambda>u. username u = name) (users db)"

section \<open>Sessions\<close>

definition CreateSession :: "db_session \<Rightarrow> auth_db \<Rightarrow> store_error + auth_db" where
  "CreateSession s db =
     (if token s = [] \<or> sess_user s \<le> 0 then Inl ErrRequired
      else if created_at s = 0 \<or> expires_at s = 0 \<or> absolute_expires_at s = 0 then Inl ErrRequired
      else
        let s1 = (if last_active_at s = 0 then s\<lparr>last_active_at := created_at s\<rparr> else s)
        in if (\<exists>r \<in> set (sessions db). token r = token s) \<or>
              \<not> (\<exists>u \<in> set (users db). user_id u = sess_user s) then Inl ErrConstraint
           else Inr (db\<lparr>sessions := sessions db @ [s1]\<rparr>))"

text \<open>A session joined with the current name of its user.\<close>

definition SessionByTokenHash :: "auth_db \<Rightarrow> string \<Rightarrow> (db_session \<times> string) option" where
  "SessionByTokenHash db h =
     (case find (\<lambda>s. token s = h) (sessions db) of
        None \<Rightarrow> None
      | Some s \<Rightarrow> map_option (\<lambda>u. (s, username u)) (find (\<lambda>u. user_id u = sess_user s) (users db)))"

definition RotateSession :: "string \<Rightarrow> string \<Rightarrow> time \<Rightarrow> time \<Rightarrow> auth_db \<Rightarrow> store_error + auth_db" where
  "RotateSession oldHash newHash activeAt expiresAt db =
     (if oldHash = [] \<or> newHash = [] then Inl ErrRequired
      else if newHash \<noteq> oldHash \<and> (\<exists>s \<in> set (sessions db). token s = newHash) \<and>
              (\<exists>s \<in> set (sessions db). token s = oldHash) then Inl ErrConstraint
      else if length (filter (\<lambda>s. token s = oldHash) (sessions db)) \<noteq> 1 then Inl ErrNoRows
      else Inr (db\<lparr>sessions := map (\<lambda>s. if token s = oldHash
             then s\<lparr>token := newHash, last_active_at := activeAt, expires_at := expiresAt\<rparr> else s)
             (sessions db)\<rparr>))"

definition TouchSession :: "string \<Rightarrow> time \<Rightarrow> auth_db \<Rightarrow> store_error + auth_db" where
  "TouchSession h activeAt db =
     (if length (filter (\<lambda>s. token s = h) (sessions db)) \<noteq> 1 then Inl ErrNoRows
      else Inr (db\<lparr>sessions := map (\<lambda>s. if token s = h then s\<lparr>last_active_at := activeAt\<rparr> else s)
             (sessions db)\<rparr>))"

definition DeleteSession :: "string \<Rightarrow> auth_db \<Rightarrow> auth_db" where
  "DeleteSession h db = db\<lparr>sessions := filter (\<lambda>s. token s \<noteq> h) (sessions db)\<rparr>"

definition UpdatePasswordAndRevokeSessions ::
    "int \<Rightarrow> string \<Rightarrow> string \<Rightarrow> time \<Rightarrow> auth_db \<Rightarrow> store_error + auth_db" where
  "UpdatePasswordAndRevokeSessions uid hash keep updatedAt db =
     (if length (filter (\<lambda>u. user_id u = uid) (users db)) \<noteq> 1 then Inl ErrNoRows
      else Inr (db\<lparr>users := map (\<lambda>u. if user_id u = uid
               then u\<lparr>password_hash := hash, password_updated := updatedAt\<rparr> else u) (users db),
             sessions := filter (\<lambda>s. \<not> (sess_user s = uid \<and> (keep = [] \<or> token s \<noteq> keep)))
               (sessions db)\<rparr>))"

section \<open>Table invariant\<close>

definition db_wf :: "auth_db \<Rightarrow> bool" where
  "db_wf db \<longleftrightarrow> distinct (map user_id (users db)) \<and> distinct (map username (users db)) \<and>
     distinct (map token (sessions db)) \<and>
     (\<forall>s \<in> set (sessions db). sess_user s \<in> set (map user_id (users db)))"

lemma db_wf_empty: "db_wf empty_db"
  by (simp add: db_wf_def empty_db_def)

lemma fold_max_ge: "x \<in> set xs \<Longrightarrow> x \<le> fold max xs (a :: int)"
proof (induction xs arbitrary: a)
  case (Cons y ys)
  have "b \<le> fold max ys b" for b :: int
    by (induction ys arbitrary: b) (simp, metis fold_simps(2) max.cobounded2 order_trans)
  then have "y \<le> fold max ys (max y a)"
    by (meson max.cobounded1 order_trans)
  with Cons show ?case by auto
qed simp

lemma next_user_id_fresh: "next_user_id db \<notin> set (map user_id (users db))"
  using fold_max_ge [of "next_user_id db" "map user_id (users db)" 0]
  by (auto simp: next_user_id_def)

lemma db_wf_CreateUser:
  assumes "db_wf db" and "CreateUser t u db = Inr (u', db')"
  shows "db_wf db'"
proof -
  have "username u \<notin> set (map username (users db))" "username u' = username u"
    "user_id u' = next_user_id db" "db' = db\<lparr>users := users db @ [u']\<rparr>"
    using assms(2) by (auto simp: CreateUser_def Let_def split: if_splits)
  with assms(1) next_user_id_fresh [of db] show ?thesis
    by (auto simp: db_wf_def)
qed

lemma db_wf_sessionsI:
  assumes "db_wf db" and "distinct (map token ss)"
    and "\<And>s. s \<in> set ss \<Longrightarrow> sess_user s \<in> set (map user_id (users db))"
  shows "db_wf (db\<lparr>sessions := ss\<rparr>)"
  using assms by (simp add: db_wf_def)

lemma db_wf_session_user:
  "db_wf db \<Longrightarrow> s \<in> set (sessions db) \<Longrightarrow> sess_user s \<in> set (map user_id (users db))"
  by (simp add: db_wf_def)

lemma CreateSession_Inr:
  assumes "CreateSession s db = Inr db'"
  shows "token s \<noteq> []" and "token s \<notin> set (map token (sessions db))"
    and "sess_user s \<in> set (map user_id (users db))"
    and "db' = db\<lparr>sessions := sessions db @
           [if last_active_at s = 0 then s\<lparr>last_active_at := created_at s\<rparr> else s]\<rparr>"
  using assms by (auto simp: CreateSession_def Let_def intro: image_eqI [OF sym] split: if_split_asm)

lemma db_wf_CreateSession:
  assumes wf: "db_wf db" and cr: "CreateSession s db = Inr db'"
  shows "db_wf db'"
  unfolding CreateSession_Inr(4) [OF cr]
proof (rule db_wf_sessionsI [OF wf])
  show "distinct (map token (sessions db @
      [if last_active_at s = 0 then s\<lparr>last_active_at := created_at s\<rparr> else s]))"
    using wf CreateSession_Inr(2) [OF cr] by (simp add: db_wf_def)
  show "sess_user r \<in> set (map user_id (users db))"
    if "r \<in> set (sessions db @
      [if last_active_at s = 0 then s\<lparr>last_active_at := created_at s\<rparr> else s])" for r
    using that CreateSession_Inr(3) [OF cr] db_wf_session_user [OF wf]
    by (auto split: if_split_asm)
qed

lemma map_token_update:
  assumes "distinct (map token ss)" and "h' = h \<or> h' \<notin> set (map token ss)"
    and "\<And>s. token (f s) = h'"
  shows "distinct (map token (map (\<lambda>s. if token s = h then f s else s) ss))"
proof -
  have "map token (map (\<lambda>s. if token s = h then f s else s) ss) =
        map (\<lambda>t. if t = h then h' else t) (map token ss)"
    using assms(3) by simp
  moreover have "inj_on (\<lambda>t. if t = h then h' else t) (set (map token ss))"
    using assms(2) by (auto simp: inj_on_def)
  ultimately show ?thesis
    using assms(1) by (simp only: distinct_map)
qed

lemma RotateSession_Inr:
  assumes "RotateSession old new a e db = Inr db'"
  shows "old \<noteq> []" and "new \<noteq> []" and "new = old \<or> new \<notin> set (map token (sessions db))"
    and "\<exists>s \<in> set (sessions db). token s = old"
    and "db' = db\<lparr>sessions := map (\<lambda>s. if token s = old
             then s\<lparr>token := new, last_active_at := a, expires_at := e\<rparr> else s) (sessions db)\<rparr>"
proof -
  from assms have one: "length (filter (\<lambda>s. token s = old) (sessions db)) = 1"
    by (auto simp: RotateSession_def split: if_splits)
  then show mem: "\<exists>s \<in> set (sessions db). token s = old"
    by (metis (mono_tags, lifting) filter_False list.size(3) zero_neq_one)
  show "old \<noteq> []" and "new \<noteq> []" and "new = old \<or> new \<notin> set (map token (sessions db))"
    and "db' = db\<lparr>sessions := map (\<lambda>s. if token s = old
             then s\<lparr>token := new, last_active_at := a, expires_at := e\<rparr> else s) (sessions db)\<rparr>"
    using assms mem by (auto simp: RotateSession_def split: if_splits)
qed

lemma db_wf_RotateSession:
  assumes wf: "db_wf db" and rot: "RotateSession old new a e db = Inr db'"
  shows "db_wf db'"
  unfolding RotateSession_Inr(5) [OF rot]
proof (rule db_wf_sessionsI [OF wf])
  show "distinct (map token (map (\<lambda>s. if token s = old
      then s\<lparr>token := new, last_active_at := a, expires_at := e\<rparr> else s) (sessions db)))"
    using wf RotateSession_Inr(3) [OF rot] by (intro map_token_update) (auto simp: db_wf_def)
qed (auto simp: db_wf_session_user [OF wf, simplified])

lemma db_wf_TouchSession:
  assumes wf: "db_wf db" and touch: "TouchSession h a db = Inr db'"
  shows "db_wf db'"
proof -
  have eq: "db' = db\<lparr>sessions := map (\<lambda>s. if token s = h then s\<lparr>last_active_at := a\<rparr> else s)
             (sessions db)\<rparr>"
    using touch by (auto simp: TouchSession_def split: if_splits)
  have tok: "map token (map (\<lambda>s. if token s = h then s\<lparr>last_active_at := a\<rparr> else s) (sessions db)) =
    map token (sessions db)"
    by simp
  show ?thesis
    unfolding eq
    using wf by (intro db_wf_sessionsI) (simp_all only: tok, auto simp: db_wf_def)
qed

lemma db_wf_DeleteSession: "db_wf db \<Longrightarrow> db_wf (DeleteSession h db)"
  by (auto simp: db_wf_def DeleteSession_def distinct_map_filter)

lemma db_wf_UpdatePassword:
  assumes "db_wf db" and "UpdatePasswordAndRevokeSessions uid ph keep t db = Inr db'"
  shows "db_wf db'"
proof -
  have eq: "db' = db\<lparr>users := map (\<lambda>u. if user_id u = uid
               then u\<lparr>password_hash := ph, password_updated := t\<rparr> else u) (users db),
             sessions := filter (\<lambda>s. \<not> (sess_user s = uid \<and> (keep = [] \<or> token s \<noteq> keep)))
               (sessions db)\<rparr>"
    using assms(2) by (auto simp: UpdatePasswordAndRevokeSessions_def split: if_splits)
  have "map user_id (users db') = map user_id (users db)"
    "map username (users db') = map username (users db)"
    by (simp_all add: eq)
  with assms(1) show ?thesis
    by (auto simp: db_wf_def eq distinct_map_filter simp del: map_map)
qed

section \<open>The session table as an interface\<close>

text \<open>
  What the service relies on: a removed token is gone and no other token is affected; a
  rotation moves a session from its old token to the new one.
\<close>

locale session_table =
  fixes lookup :: "'s \<Rightarrow> string \<Rightarrow> 'v option"
    and remove :: "string \<Rightarrow> 's \<Rightarrow> 's"
    and rotate :: "string \<Rightarrow> string \<Rightarrow> time \<Rightarrow> time \<Rightarrow> 's \<Rightarrow> store_error + 's"
    and retime :: "string \<Rightarrow> time \<Rightarrow> time \<Rightarrow> 'v \<Rightarrow> 'v"
    and wf :: "'s \<Rightarrow> bool"
  assumes lookup_remove: "lookup (remove h s) k = (if k = h then None else lookup s k)"
    and wf_remove: "wf s \<Longrightarrow> wf (remove h s)"
    and wf_rotate: "wf s \<Longrightarrow> rotate old new a e s = Inr s' \<Longrightarrow> wf s'"
    and lookup_rotate: "wf s \<Longrightarrow> rotate old new a e s = Inr s' \<Longrightarrow>
      lookup s' k = (if k = new then map_option (retime new a e) (lookup s old)
                     else if k = old then None else lookup s k)"
begin

lemma remove_idem: "lookup (remove h (remove h s)) k = lookup (remove h s) k"
  by (simp add: lookup_remove)

text \<open>After a rotation the old token is dead, and revoking the new one ends the session.\<close>

lemma rotate_old_dead:
  "wf s \<Longrightarrow> rotate old new a e s = Inr s' \<Longrightarrow> new \<noteq> old \<Longrightarrow> lookup s' old = None"
  by (simp add: lookup_rotate)

lemma rotate_then_remove:
  assumes "wf s" and "rotate old new a e s = Inr s'"
  shows "lookup (remove new s') new = None" and "new \<noteq> old \<Longrightarrow> lookup (remove new s') old = None"
  using assms by (simp_all add: lookup_remove lookup_rotate)

end

lemma find_token_mapped:
  assumes "\<And>s. token (g s) = new" and "k \<noteq> new"
  shows "find (\<lambda>s. token s = k) (map (\<lambda>s. if token s = old then g s else s) ss) =
     (if k = old then None else find (\<lambda>s. token s = k) ss)"
  using assms by (induction ss) auto

lemma find_token_moved:
  assumes "\<And>s. token (g s) = new" and "new = old \<or> new \<notin> set (map token ss)"
  shows "find (\<lambda>s. token s = new) (map (\<lambda>s. if token s = old then g s else s) ss) =
     map_option g (find (\<lambda>s. token s = old) ss)"
  using assms by (induction ss) auto

lemma SessionByTokenHash_sessions:
  "SessionByTokenHash (db\<lparr>sessions := ss\<rparr>) h =
     (case find (\<lambda>s. token s = h) ss of
        None \<Rightarrow> None
      | Some s \<Rightarrow> map_option (\<lambda>u. (s, username u)) (find (\<lambda>u. user_id u = sess_user s) (users db)))"
  by (simp add: SessionByTokenHash_def split: option.split)

lemma find_filter_neq:
  "find (\<lambda>s. token s = k) (filter (\<lambda>s. token s \<noteq> h) ss) =
     (if k = h then None else find (\<lambda>s. token s = k) ss)"
  by (induction ss) auto

definition retime_session :: "string \<Rightarrow> time \<Rightarrow> time \<Rightarrow> db_session \<times> string \<Rightarrow> db_session \<times> string" where
  "retime_session new a e =
     map_prod (\<lambda>s. s\<lparr>token := new, last_active_at := a, expires_at := e\<rparr>) id"

lemma SessionByTokenHash_rotate:
  assumes rot: "RotateSession old new a e db = Inr db'"
  shows "SessionByTokenHash db' k =
     (if k = new then map_option (retime_session new a e) (SessionByTokenHash db old)
      else if k = old then None else SessionByTokenHash db k)"
proof (cases "k = new")
  case True
  then show ?thesis
    unfolding RotateSession_Inr(5) [OF rot] SessionByTokenHash_sessions
    using find_token_moved [OF _ RotateSession_Inr(3) [OF rot],
        of "\<lambda>s. s\<lparr>token := new, last_active_at := a, expires_at := e\<rparr>"]
    by (simp add: SessionByTokenHash_def retime_session_def option.map_comp comp_def
        split: option.split)
next
  case False
  then show ?thesis
    unfolding RotateSession_Inr(5) [OF rot] SessionByTokenHash_sessions
    by (cases "k = old")
      (simp_all add: SessionByTokenHash_def find_token_mapped [where new = new])
qed

lemma SessionByTokenHash_delete:
  "SessionByTokenHash (DeleteSession h db) k = (if k = h then None else SessionByTokenHash db k)"
  unfolding DeleteSession_def SessionByTokenHash_sessions find_filter_neq
  by (simp add: SessionByTokenHash_def)

interpretation db_sessions: session_table SessionByTokenHash DeleteSession RotateSession
  retime_session db_wf
  by unfold_locales
    (simp_all add: SessionByTokenHash_rotate SessionByTokenHash_delete db_wf_RotateSession
      db_wf_DeleteSession)

end
