(* ===== verification/AuthService.thy ===== *)
theory AuthService
  imports AuthStore
begin

text \<open>
  The authentication service (\<open>internal/auth/service.go\<close>) on top of the tables of \<open>AuthStore\<close>
  and the limiter of \<open>Limiter\<close>: bootstrap of the one administrator, login, token
  authentication with rotation, logout and password change.

  Argon2 (a third-party package) and SHA-256 enter as the functions of a record \<open>crypto\<close>; the
  random source as the bytes it delivers, \<open>None\<close> when reading it fails.  Each reading of the
  clock is an argument of its own.
\<close>

record crypto =
  VerifyPassword :: "string \<Rightarrow> string \<Rightarrow> bool option"
  hashPassword :: "string \<Rightarrow> string option \<Rightarrow> string option"
  tokenHash :: "string \<Rightarrow> string"

record auth_config =
  StartedAt :: time
  BootstrapTTL :: time
  IdleTTL :: time
  AbsoluteTTL :: time

definition withDefaults :: "time \<Rightarrow> auth_config \<Rightarrow> auth_config" where
  "withDefaults now c =
     \<lparr>StartedAt = (if StartedAt c = 0 then now else StartedAt c),
      BootstrapTTL = (if BootstrapTTL c \<le> 0 then 30 * minute else BootstrapTTL c),
      IdleTTL = (if IdleTTL c \<le> 0 then 24 * 60 * minute else IdleTTL c),
      AbsoluteTTL = (if AbsoluteTTL c \<le> 0 then 7 * 24 * 60 * minute else AbsoluteTTL c)\<rparr>"

record service =
  config :: auth_config
  bootstrapDeadline :: time
  dummyHash :: string
  prims :: crypto

datatype auth_error =
    ErrUnauthenticated
  | ErrBootstrapComplete
  | ErrBootstrapClosed
  | ErrWeakPassword
  | ErrInvalidUsername
  | RateLimitError time
  | ErrInternal

record session =
  UserID :: int
  Username :: string
  Roles :: "string list"
  ExpiresAt :: time
  Token :: string

record auth_state =
  adb :: auth_db
  limiter :: loginLimiter

text \<open>\<open>New\<close>: fails when the dummy hash cannot be computed.\<close>

definition New :: "auth_config \<Rightarrow> crypto \<Rightarrow> string option \<Rightarrow> time \<Rightarrow> service option" where
  "New c k salt now =
     (let c' = withDefaults now c in
      map_option (\<lambda>h. \<lparr>config = c', bootstrapDeadline = StartedAt c' + BootstrapTTL c',
          dummyHash = h, prims = k\<rparr>)
        (hashPassword k ''esgw-invalid-account-password'' salt))"

section \<open>Helpers\<close>

definition minPasswordLength :: nat where
  "minPasswordLength = 12"

definition validateCredentials :: "string \<Rightarrow> string \<Rightarrow> auth_error option" where
  "validateCredentials name password =
     (if length password < minPasswordLength then Some ErrWeakPassword
      else if name = [] \<or> 64 < length name \<or>
              (\<exists>c \<in> set name. (of_char c :: nat) \<le> 32 \<or> (of_char c :: nat) = 127)
           then Some ErrInvalidUsername
      else None)"

text \<open>\<open>strings.TrimSpace\<close> on ASCII, then at most 256 bytes.\<close>

definition is_space :: "char \<Rightarrow> bool" where
  "is_space c \<longleftrightarrow> (of_char c :: nat) = 32 \<or> (9 \<le> (of_char c :: nat) \<and> (of_char c :: nat) \<le> 13)"

definition trim_space :: "string \<Rightarrow> string" where
  "trim_space s = rev (dropWhile is_space (rev (dropWhile is_space s)))"

definition summarizeUserAgent :: "string \<Rightarrow> string" where
  "summarizeUserAgent s = (let v = trim_space s in if 256 < length v then take 256 v else v)"

definition minTime :: "time \<Rightarrow> time \<Rightarrow> time" where
  "minTime a b = (if a < b then a else b)"

definition sessionProjection :: "db_session \<times> string \<Rightarrow> session" where
  "sessionProjection sn = \<lparr>UserID = sess_user (fst sn), Username = snd sn, Roles = [''admin''],
     ExpiresAt = expires_at (fst sn), Token = []\<rparr>"

definition issueSession ::
    "service \<Rightarrow> string option \<Rightarrow> time \<Rightarrow> user \<Rightarrow> string \<Rightarrow> string \<Rightarrow> auth_db \<Rightarrow>
     auth_error + (session \<times> auth_db)" where
  "issueSession sv rnd now u ip agent db =
     (case rnd of None \<Rightarrow> Inl ErrInternal
      | Some tok \<Rightarrow>
          let absolute = now + AbsoluteTTL (config sv);
              durable = \<lparr>token = tokenHash (prims sv) tok, sess_user = user_id u,
                created_at = now, last_active_at = now,
                expires_at = minTime (now + IdleTTL (config sv)) absolute,
                absolute_expires_at = absolute, sess_ip = ip,
                sess_agent = summarizeUserAgent agent\<rparr>
          in (case CreateSession durable db of Inl e \<Rightarrow> Inl ErrInternal
              | Inr db' \<Rightarrow> Inr ((sessionProjection (durable, username u))\<lparr>Token := tok\<rparr>, db')))"

section \<open>Operations\<close>

text \<open>\<open>BootstrapState\<close>: whether setup is still open, and its deadline.\<close>

definition BootstrapState :: "service \<Rightarrow> time \<Rightarrow> auth_db \<Rightarrow> bool \<times> time" where
  "BootstrapState sv now db = (UserCount db = 0 \<and> \<not> bootstrapDeadline sv < now, bootstrapDeadline sv)"

definition Bootstrap ::
    "service \<Rightarrow> string option \<Rightarrow> string option \<Rightarrow> time \<times> time \<times> time \<Rightarrow>
     string \<Rightarrow> string \<Rightarrow> string \<Rightarrow> string \<Rightarrow> auth_db \<Rightarrow> (auth_error + session) \<times> auth_db" where
  "Bootstrap sv salt rnd clock name password ip agent db =
     (case clock of (t_check, t_create, t_issue) \<Rightarrow>
      case validateCredentials name password of Some e \<Rightarrow> (Inl e, db)
      | None \<Rightarrow>
        if UserCount db \<noteq> 0 then (Inl ErrBootstrapComplete, db)
        else if bootstrapDeadline sv < t_check then (Inl ErrBootstrapClosed, db)
        else (case hashPassword (prims sv) password salt of None \<Rightarrow> (Inl ErrInternal, db)
          | Some h \<Rightarrow>
            (case CreateUser t_create \<lparr>user_id = 0, username = name, password_hash = h,
                 user_created = t_create, password_updated = 0\<rparr> db of
               Inl e \<Rightarrow> (Inl (if UserCount db \<noteq> 0 then ErrBootstrapComplete else ErrInternal), db)
             | Inr (u, db1) \<Rightarrow>
               (case issueSession sv rnd t_issue u ip agent db1 of
                  Inl e \<Rightarrow> (Inl e, db1)
                | Inr (s, db2) \<Rightarrow> (Inr s, db2)))))"

definition Login ::
    "service \<Rightarrow> string option \<Rightarrow> time \<times> time \<Rightarrow> string \<Rightarrow> string \<Rightarrow> string \<Rightarrow> string \<Rightarrow>
     auth_state \<Rightarrow> (auth_error + session) \<times> auth_state" where
  "Login sv rnd clock name password ip agent st =
     (case clock of (now, t_issue) \<Rightarrow>
      case allow now ip name (limiter st) of
        (Some d, l) \<Rightarrow> (Inl (RateLimitError d), st\<lparr>limiter := l\<rparr>)
      | (None, l) \<Rightarrow>
          let found = UserByUsername (adb st) name;
              encoded = (case found of None \<Rightarrow> dummyHash sv | Some u \<Rightarrow> password_hash u)
          in (case (VerifyPassword (prims sv) password encoded, found) of
                (Some True, Some u) \<Rightarrow>
                  (case issueSession sv rnd t_issue u ip agent (adb st) of
                     Inl e \<Rightarrow> (Inl e, st\<lparr>limiter := success name l\<rparr>)
                   | Inr (s, db) \<Rightarrow> (Inr s, st\<lparr>limiter := success name l, adb := db\<rparr>))
              | _ \<Rightarrow> (Inl ErrUnauthenticated, st\<lparr>limiter := failure now name l\<rparr>)))"

definition Authenticate ::
    "service \<Rightarrow> string option \<Rightarrow> time \<Rightarrow> string \<Rightarrow> auth_db \<Rightarrow> (auth_error + session) \<times> auth_db" where
  "Authenticate sv rnd now tok db =
     (if tok = [] then (Inl ErrUnauthenticated, db)
      else
        let oldHash = tokenHash (prims sv) tok in
        (case SessionByTokenHash db oldHash of None \<Rightarrow> (Inl ErrUnauthenticated, db)
         | Some (d, name) \<Rightarrow>
           if \<not> now < expires_at d \<or> \<not> now < absolute_expires_at d
           then (Inl ErrUnauthenticated, DeleteSession oldHash db)
           else
             let result = sessionProjection (d, name) in
             if expires_at d - now \<le> IdleTTL (config sv) div 2
             then (case rnd of None \<Rightarrow> (Inl ErrInternal, db)
               | Some newToken \<Rightarrow>
                 let newExpiry = minTime (now + IdleTTL (config sv)) (absolute_expires_at d) in
                 (case RotateSession oldHash (tokenHash (prims sv) newToken) now newExpiry db of
                    Inl e \<Rightarrow> (Inl ErrInternal, db)
                  | Inr db' \<Rightarrow> (Inr (result\<lparr>Token := newToken, ExpiresAt := newExpiry\<rparr>), db')))
             else if 5 * minute \<le> now - last_active_at d
             then (case TouchSession oldHash now db of
                    Inl e \<Rightarrow> (Inl ErrInternal, db)
                  | Inr db' \<Rightarrow> (Inr result, db'))
             else (Inr result, db)))"

definition Logout :: "service \<Rightarrow> string \<Rightarrow> auth_db \<Rightarrow> auth_db" where
  "Logout sv tok db = (if tok = [] then db else DeleteSession (tokenHash (prims sv) tok) db)"

definition ChangePassword ::
    "service \<Rightarrow> string option \<Rightarrow> time \<times> time \<times> time \<Rightarrow> string \<Rightarrow> string \<Rightarrow> string \<Rightarrow>
     auth_db \<Rightarrow> (auth_error + unit) \<times> auth_db" where
  "ChangePassword sv salt clock tok oldPassword newPassword db =
     (case clock of (t1, t2, t3) \<Rightarrow>
      if length newPassword < minPasswordLength then (Inl ErrWeakPassword, db)
      else
        let h = tokenHash (prims sv) tok in
        (case SessionByTokenHash db h of None \<Rightarrow> (Inl ErrUnauthenticated, db)
         | Some (d, name) \<Rightarrow>
           if \<not> t1 < expires_at d \<or> \<not> t2 < absolute_expires_at d then (Inl ErrUnauthenticated, db)
           else (case UserByUsername db name of None \<Rightarrow> (Inl ErrUnauthenticated, db)
             | Some u \<Rightarrow>
               if VerifyPassword (prims sv) oldPassword (password_hash u) \<noteq> Some True
               then (Inl ErrUnauthenticated, db)
               else (case hashPassword (prims sv) newPassword salt of None \<Rightarrow> (Inl ErrInternal, db)
                 | Some nh \<Rightarrow>
                   (case UpdatePasswordAndRevokeSessions (user_id u) nh h t3 db of
                      Inl e \<Rightarrow> (Inl ErrInternal, db)
                    | Inr db' \<Rightarrow> (Inr (), db'))))))"

lemmas service_defs [go_defs] =
  Bootstrap_def Login_def Authenticate_def Logout_def ChangePassword_def issueSession_def

end
