(* ===== verification/AuthProps.thy ===== *)
theory AuthProps
  imports AuthService
begin

text \<open>
  Properties of the authentication service: the step relation of its operations, the invariant
  of every reachable state, and the security properties of sessions, rotation, password change
  and bootstrap.
\<close>

section \<open>Steps and reachable states\<close>

inductive auth_step :: "service \<Rightarrow> auth_state \<Rightarrow> auth_state \<Rightarrow> bool" for sv where
  step_bootstrap: "auth_step sv st
     (st\<lparr>adb := snd (Bootstrap sv salt rnd clock name password ip agent (adb st))\<rparr>)"
| step_login: "auth_step sv st (snd (Login sv rnd ticks name password ip agent st))"
| step_authenticate: "auth_step sv st (st\<lparr>adb := snd (Authenticate sv rnd now tok (adb st))\<rparr>)"
| step_logout: "auth_step sv st (st\<lparr>adb := Logout sv tok (adb st)\<rparr>)"
| step_password: "auth_step sv st
     (st\<lparr>adb := snd (ChangePassword sv salt clock tok oldp newp (adb st))\<rparr>)"

inductive auth_reachable :: "service \<Rightarrow> auth_state \<Rightarrow> bool" for sv where
  reach_init: "auth_reachable sv \<lparr>adb = empty_db, limiter = newLoginLimiter\<rparr>"
| reach_step: "auth_reachable sv st \<Longrightarrow> auth_step sv st st' \<Longrightarrow> auth_reachable sv st'"

definition session_bounded :: "service \<Rightarrow> db_session \<Rightarrow> bool" where
  "session_bounded sv s \<longleftrightarrow> expires_at s \<le> absolute_expires_at s \<and>
     absolute_expires_at s = created_at s + AbsoluteTTL (config sv)"

definition db_inv :: "service \<Rightarrow> auth_db \<Rightarrow> bool" where
  "db_inv sv db \<longleftrightarrow> db_wf db \<and> length (users db) \<le> 1 \<and>
     (\<forall>s \<in> set (sessions db). session_bounded sv s)"

lemma minTime_le [simp]: "minTime a b \<le> a" "minTime a b \<le> b"
  by (simp_all add: minTime_def)

section \<open>Every operation keeps the invariant\<close>

lemma db_inv_empty: "db_inv sv empty_db"
  using db_wf_empty by (simp add: db_inv_def empty_db_def)

lemma issueSession_inv:
  assumes inv: "db_inv sv db" and ok: "issueSession sv rnd now u ip agent db = Inr (s, db')"
  shows "db_inv sv db'"
proof -
  obtain tok where rnd: "rnd = Some tok"
    using ok by (cases rnd) (simp_all add: issueSession_def)
  define d where "d = \<lparr>token = tokenHash (prims sv) tok, sess_user = user_id u,
     created_at = now, last_active_at = now,
     expires_at = minTime (now + IdleTTL (config sv)) (now + AbsoluteTTL (config sv)),
     absolute_expires_at = now + AbsoluteTTL (config sv), sess_ip = ip,
     sess_agent = summarizeUserAgent agent\<rparr>"
  have cr: "CreateSession d db = Inr db'"
    using ok rnd by (simp add: issueSession_def d_def Let_def split: sum.splits)
  have "session_bounded sv (if last_active_at d = 0 then d\<lparr>last_active_at := created_at d\<rparr> else d)"
    by (simp add: session_bounded_def d_def)
  with inv show ?thesis
    using db_wf_CreateSession [OF _ cr] CreateSession_Inr(4) [OF cr]
    by (simp add: db_inv_def)
qed

lemma Bootstrap_inv:
  assumes inv: "db_inv sv db"
  shows "db_inv sv (snd (Bootstrap sv salt rnd clock name password ip agent db))"
proof -
  have one: "db_inv sv db1" if "UserCount db = 0" "CreateUser t u db = Inr (u', db1)" for t u u' db1
  proof -
    have "users db1 = users db @ [u']" "sessions db1 = sessions db"
      using that(2) by (auto simp: CreateUser_def Let_def split: if_splits)
    with that inv db_wf_CreateUser [OF _ that(2)] show ?thesis
      by (simp add: db_inv_def UserCount_def)
  qed
  then have two: "db_inv sv db2" if "UserCount db = 0" "CreateUser t u db = Inr (u', db1)"
    "issueSession sv rnd t' u' ip agent db1 = Inr (s, db2)" for t u u' db1 t' s db2
    using that issueSession_inv by blast
  show ?thesis
    using inv by (auto simp: Bootstrap_def dest: one two split: prod.splits option.splits sum.splits)
qed

lemma Login_adb:
  "adb (snd (Login sv rnd ticks name password ip agent st)) = adb st \<or>
   (\<exists>u s t. issueSession sv rnd t u ip agent (adb st) =
      Inr (s, adb (snd (Login sv rnd ticks name password ip agent st))))"
  by (auto simp: Login_def Let_def split: prod.splits option.splits bool.splits sum.splits)

lemma Login_inv:
  "db_inv sv (adb st) \<Longrightarrow> db_inv sv (adb (snd (Login sv rnd ticks name password ip agent st)))"
  using Login_adb [of sv rnd ticks name password ip agent st] issueSession_inv by metis

lemma Rotate_inv:
  assumes inv: "db_inv sv db" and rot: "RotateSession old new a e db = Inr db'"
    and e: "\<And>d. d \<in> set (sessions db) \<Longrightarrow> token d = old \<Longrightarrow> e \<le> absolute_expires_at d"
  shows "db_inv sv db'"
  using inv e db_wf_RotateSession [OF _ rot] RotateSession_Inr(5) [OF rot]
  by (auto simp: db_inv_def session_bounded_def)

lemma SessionByTokenHash_row:
  "SessionByTokenHash db h = Some (d, name) \<Longrightarrow> d \<in> set (sessions db) \<and> token d = h"
  by (auto simp: SessionByTokenHash_def find_Some_iff split: option.splits)

lemma SessionByTokenHash_unique:
  assumes "db_wf db" and "SessionByTokenHash db h = Some (d, name)"
    and "s \<in> set (sessions db)" and "token s = h"
  shows "s = d"
  using assms SessionByTokenHash_row [OF assms(2)]
  by (auto simp: db_wf_def dest: inj_onD [OF distinct_map [THEN iffD1, THEN conjunct2]])

lemma Touch_inv:
  assumes inv: "db_inv sv db" and touch: "TouchSession h a db = Inr db'"
  shows "db_inv sv db'"
proof -
  have "session_bounded sv (s\<lparr>last_active_at := a\<rparr>) = session_bounded sv s" for s
    by (simp add: session_bounded_def)
  then show ?thesis
    using inv db_wf_TouchSession [OF _ touch] touch
    by (auto simp: db_inv_def TouchSession_def split: if_splits)
qed

lemma Delete_inv: "db_inv sv db \<Longrightarrow> db_inv sv (DeleteSession h db)"
  using db_wf_DeleteSession [of db h] by (simp add: db_inv_def DeleteSession_def)

lemma Authenticate_inv:
  assumes inv: "db_inv sv db"
  shows "db_inv sv (snd (Authenticate sv rnd now tok db))"
proof -
  have rot: "db_inv sv db'"
    if "SessionByTokenHash db h = Some (d, name)"
      "RotateSession h new now (minTime x (absolute_expires_at d)) db = Inr db'"
    for h d name new x db'
    using Rotate_inv [OF inv that(2)] SessionByTokenHash_unique [OF _ that(1)] inv
    by (fastforce simp: db_inv_def)
  show ?thesis
    using inv rot Touch_inv [OF inv] Delete_inv [OF inv]
    by (auto simp: Authenticate_def Let_def split: option.splits sum.splits)
qed

lemma Update_inv:
  assumes inv: "db_inv sv db" and upd: "UpdatePasswordAndRevokeSessions uid ph keep t db = Inr db'"
  shows "db_inv sv db'"
  using inv db_wf_UpdatePassword [OF _ upd] upd
  by (auto simp: db_inv_def UpdatePasswordAndRevokeSessions_def split: if_splits)

lemma ChangePassword_inv:
  "db_inv sv db \<Longrightarrow> db_inv sv (snd (ChangePassword sv salt clock tok oldp newp db))"
  using Update_inv
  by (auto simp: ChangePassword_def Let_def split: prod.splits option.splits sum.splits)

lemma auth_step_inv: "auth_step sv st st' \<Longrightarrow> db_inv sv (adb st) \<Longrightarrow> db_inv sv (adb st')"
  by (induction rule: auth_step.induct)
    (simp_all add: Bootstrap_inv Login_inv Authenticate_inv ChangePassword_inv Logout_def Delete_inv)

lemma auth_reachable_inv: "auth_reachable sv st \<Longrightarrow> db_inv sv (adb st)"
proof (induction rule: auth_reachable.induct)
  case reach_init
  then show ?case by (simp add: db_inv_empty)
next
  case (reach_step st st')
  then show ?case by (blast intro: auth_step_inv)
qed

section \<open>Rotation\<close>

text \<open>The only way \<open>Authenticate\<close> hands back a token is by rotating the session.\<close>

lemma Authenticate_rotated:
  assumes "Authenticate sv (Some new) now tok db = (Inr s, db')" and "Token s \<noteq> []"
  obtains d name e where "SessionByTokenHash db (tokenHash (prims sv) tok) = Some (d, name)"
    and "RotateSession (tokenHash (prims sv) tok) (tokenHash (prims sv) new) now e db = Inr db'"
    and "s = (sessionProjection (d, name))\<lparr>Token := new, ExpiresAt := e\<rparr>"
  using assms
  by (auto simp: Authenticate_def Let_def sessionProjection_def split: if_splits option.splits sum.splits)

section \<open>A concrete service\<close>

text \<open>
  An instance of the service with transparent primitives, on which the hypotheses of the
  properties are shown to be satisfiable.
\<close>

definition demo_crypto :: crypto where
  "demo_crypto = \<lparr>VerifyPassword = (\<lambda>p h. Some (h = ''h'' @ p)),
     hashPassword = (\<lambda>p salt. map_option (\<lambda>_. ''h'' @ p) salt), tokenHash = (\<lambda>t. ''t'' @ t)\<rparr>"

definition demo_service :: service where
  "demo_service = \<lparr>config = \<lparr>StartedAt = 1, BootstrapTTL = 100, IdleTTL = 100, AbsoluteTTL = 1000\<rparr>,
     bootstrapDeadline = 101, dummyHash = ''hx'', prims = demo_crypto\<rparr>"

definition demo_state :: auth_state where
  "demo_state = \<lparr>adb = snd (Bootstrap demo_service (Some ''s'') (Some ''tok'') (10, 10, 10)
     ''admin'' ''long-enough-pw'' ''::1'' ''ua'' empty_db), limiter = newLoginLimiter\<rparr>"

definition demo_db :: auth_db where
  "demo_db = \<lparr>users = [\<lparr>user_id = 1, username = ''admin'', password_hash = ''hlong-enough-pw'',
       user_created = 10, password_updated = 10\<rparr>],
     sessions = [\<lparr>token = ''ttok'', sess_user = 1, created_at = 10, last_active_at = 10,
       expires_at = 110, absolute_expires_at = 1010, sess_ip = ''::1'', sess_agent = ''ua''\<rparr>]\<rparr>"

lemma demo_state_db: "adb demo_state = demo_db"
  by code_simp

lemma demo_reachable: "auth_reachable demo_service demo_state"
proof -
  have "auth_reachable demo_service (\<lparr>adb = empty_db, limiter = newLoginLimiter\<rparr>
     \<lparr>adb := snd (Bootstrap demo_service (Some ''s'') (Some ''tok'') (10, 10, 10)
     ''admin'' ''long-enough-pw'' ''::1'' ''ua''
       (adb \<lparr>adb = empty_db, limiter = newLoginLimiter\<rparr>))\<rparr>)"
    by (rule reach_step [OF reach_init step_bootstrap])
  then show ?thesis by (simp add: demo_state_def)
qed

lemma demo_wf: "db_wf demo_db"
  using auth_reachable_inv [OF demo_reachable] by (simp add: db_inv_def demo_state_db)

section \<open>Properties\<close>

text \<open>
  C28: a token authenticates only while its session is alive: in every reachable state of the
  service, a successful \<open>Authenticate\<close> happens strictly before the creation time of the session
  plus the absolute lifetime, and the expiry it reports (also after a rotation) never exceeds
  that bound, however often the session is used and rotated.
\<close>

theorem session_never_outlives_absolute_ttl:
  assumes "auth_reachable sv st" and "fst (Authenticate sv rnd now tok (adb st)) = Inr s"
  shows "\<exists>d \<in> set (sessions (adb st)). token d = tokenHash (prims sv) tok \<and>
     now < created_at d + AbsoluteTTL (config sv) \<and>
     ExpiresAt s \<le> created_at d + AbsoluteTTL (config sv)"
proof -
  obtain d name where d: "SessionByTokenHash (adb st) (tokenHash (prims sv) tok) = Some (d, name)"
    and alive: "now < absolute_expires_at d"
    and exp: "ExpiresAt s = expires_at d \<or>
              ExpiresAt s = minTime (now + IdleTTL (config sv)) (absolute_expires_at d)"
    using assms(2)
    by (auto simp: Authenticate_def Let_def sessionProjection_def split: if_splits option.splits sum.splits)
  note row = SessionByTokenHash_row [OF d]
  then have "session_bounded sv d"
    using auth_reachable_inv [OF assms(1)] by (simp add: db_inv_def)
  then have "absolute_expires_at d = created_at d + AbsoluteTTL (config sv)"
    "expires_at d \<le> absolute_expires_at d"
    by (simp_all add: session_bounded_def)
  with row alive exp show ?thesis
    by (metis minTime_le(2))
qed

theorem session_never_outlives_absolute_ttl_witness:
  "\<exists>d \<in> set (sessions (adb demo_state)). token d = tokenHash (prims demo_service) ''tok'' \<and>
     100 < created_at d + AbsoluteTTL (config demo_service) \<and>
     ExpiresAt \<lparr>UserID = 1, Username = ''admin'', Roles = [''admin''], ExpiresAt = 200, Token = ''new''\<rparr>
       \<le> created_at d + AbsoluteTTL (config demo_service)"
proof (rule session_never_outlives_absolute_ttl [OF demo_reachable])
  show "fst (Authenticate demo_service (Some ''new'') 100 ''tok'' (adb demo_state)) =
    Inr \<lparr>UserID = 1, Username = ''admin'', Roles = [''admin''], ExpiresAt = 200, Token = ''new''\<rparr>"
    by code_simp
qed

text \<open>
  When \<open>Authenticate\<close> rotates a token, the new token is the one handed back and carries the
  session with the reported expiry, and the old token is dead from then on: it authenticates at
  no later time.  (The two tokens hash differently, which SHA-256 is relied on for.)
\<close>

theorem rotation_hands_over:
  assumes "db_wf db" and "Authenticate sv (Some new) now tok db = (Inr s, db')" and "Token s \<noteq> []"
    and "tokenHash (prims sv) new \<noteq> tokenHash (prims sv) tok"
  shows "Token s = new \<and>
     (\<exists>d name. SessionByTokenHash db' (tokenHash (prims sv) new) = Some (d, name) \<and>
        expires_at d = ExpiresAt s \<and> name = Username s) \<and>
     (\<forall>rnd t. fst (Authenticate sv rnd t tok db') = Inl ErrUnauthenticated)"
proof -
  let ?h = "tokenHash (prims sv)"
  obtain d name e where d: "SessionByTokenHash db (?h tok) = Some (d, name)"
    and rot: "RotateSession (?h tok) (?h new) now e db = Inr db'"
    and s: "s = (sessionProjection (d, name))\<lparr>Token := new, ExpiresAt := e\<rparr>"
    using assms(2,3) by (rule Authenticate_rotated)
  have "SessionByTokenHash db' (?h new) = Some (retime_session (?h new) now e (d, name))"
    using db_sessions.lookup_rotate [OF assms(1) rot, of "?h new"] d by simp
  moreover have "SessionByTokenHash db' (?h tok) = None"
    using db_sessions.rotate_old_dead [OF assms(1) rot assms(4)] .
  ultimately show ?thesis
    using s by (simp add: Authenticate_def retime_session_def sessionProjection_def)
qed

theorem rotation_hands_over_witness:
  "Token \<lparr>UserID = 1, Username = ''admin'', Roles = [''admin''], ExpiresAt = 200, Token = ''new''\<rparr> = ''new'' \<and>
   (\<exists>d name. SessionByTokenHash (snd (Authenticate demo_service (Some ''new'') 100 ''tok'' demo_db))
        (tokenHash (prims demo_service) ''new'') = Some (d, name) \<and>
        expires_at d = ExpiresAt \<lparr>UserID = 1, Username = ''admin'', Roles = [''admin''], ExpiresAt = 200, Token = ''new''\<rparr> \<and>
        name = Username \<lparr>UserID = 1, Username = ''admin'', Roles = [''admin''], ExpiresAt = 200, Token = ''new''\<rparr>) \<and>
     (\<forall>rnd t. fst (Authenticate demo_service rnd t ''tok''
        (snd (Authenticate demo_service (Some ''new'') 100 ''tok'' demo_db))) = Inl ErrUnauthenticated)"
proof (rule rotation_hands_over [OF demo_wf, where now = 100])
  show "Authenticate demo_service (Some ''new'') 100 ''tok'' demo_db =
    (Inr \<lparr>UserID = 1, Username = ''admin'', Roles = [''admin''], ExpiresAt = 200, Token = ''new''\<rparr>,
     snd (Authenticate demo_service (Some ''new'') 100 ''tok'' demo_db))"
    by code_simp
qed (code_simp+)

text \<open>
  Logging out revokes the token at once: no later \<open>Authenticate\<close> with it succeeds, and the
  tables of every other token are as before.
\<close>

theorem logout_revokes:
  "fst (Authenticate sv rnd now tok (Logout sv tok db)) = Inl ErrUnauthenticated \<and>
   (h \<noteq> tokenHash (prims sv) tok \<longrightarrow>
      SessionByTokenHash (Logout sv tok db) h = SessionByTokenHash db h)"
  by (simp add: Authenticate_def Logout_def db_sessions.lookup_remove)

theorem logout_revokes_witness:
  "fst (Authenticate demo_service None 50 ''tok'' (Logout demo_service ''tok'' demo_db)) = Inl ErrUnauthenticated \<and>
   SessionByTokenHash (Logout demo_service ''tok'' demo_db) ''other'' = SessionByTokenHash demo_db ''other''"
proof -
  have "''other'' \<noteq> tokenHash (prims demo_service) ''tok''" by code_simp
  then show ?thesis
    using logout_revokes [of demo_service None 50 "''tok''" demo_db "''other''"] by blast
qed

text \<open>
  A successful password change stores the new hash for the account of the session, revokes
  every other session of that account and keeps the session that made the change; sessions of
  other accounts are untouched.  It only succeeds with the old password, and never with a new
  password shorter than twelve bytes.
\<close>

theorem change_password_revokes_others:
  assumes "db_wf db" and "ChangePassword sv salt clock tok oldp newp db = (Inr (), db')"
    and "tokenHash (prims sv) tok \<noteq> []"
  shows "\<exists>d name u nh. SessionByTokenHash db (tokenHash (prims sv) tok) = Some (d, name) \<and>
     UserByUsername db name = Some u \<and> 12 \<le> length newp \<and>
     VerifyPassword (prims sv) oldp (password_hash u) = Some True \<and>
     hashPassword (prims sv) newp salt = Some nh \<and>
     (\<forall>v \<in> set (users db'). user_id v = user_id u \<longrightarrow> password_hash v = nh) \<and>
     (\<forall>s. s \<in> set (sessions db') \<longleftrightarrow>
        s \<in> set (sessions db) \<and> (sess_user s = user_id u \<longrightarrow> token s = tokenHash (prims sv) tok))"
proof -
  obtain t1 t2 t3 where clock: "clock = (t1, t2, t3)" by (cases clock)
  obtain d name u nh where
    facts: "SessionByTokenHash db (tokenHash (prims sv) tok) = Some (d, name)"
      "UserByUsername db name = Some u" "minPasswordLength \<le> length newp"
      "VerifyPassword (prims sv) oldp (password_hash u) = Some True"
      "hashPassword (prims sv) newp salt = Some nh"
    and upd: "UpdatePasswordAndRevokeSessions (user_id u) nh (tokenHash (prims sv) tok) t3 db = Inr db'"
    using assms(2) clock
    by (auto simp: ChangePassword_def Let_def split: if_splits option.splits sum.splits)
  have "\<forall>v \<in> set (users db'). user_id v = user_id u \<longrightarrow> password_hash v = nh"
    using upd by (auto simp: UpdatePasswordAndRevokeSessions_def split: if_splits)
  moreover have "set (sessions db') = {s \<in> set (sessions db).
      sess_user s = user_id u \<longrightarrow> token s = tokenHash (prims sv) tok}"
    using upd assms(3) by (auto simp: UpdatePasswordAndRevokeSessions_def split: if_splits)
  ultimately show ?thesis
    using facts by (auto simp: minPasswordLength_def)
qed

theorem change_password_revokes_others_witness:
  "\<exists>d name u nh. SessionByTokenHash demo_db (tokenHash (prims demo_service) ''tok'') = Some (d, name) \<and>
     UserByUsername demo_db name = Some u \<and> 12 \<le> length ''another-password'' \<and>
     VerifyPassword (prims demo_service) ''long-enough-pw'' (password_hash u) = Some True \<and>
     hashPassword (prims demo_service) ''another-password'' (Some ''s'') = Some nh \<and>
     (\<forall>v \<in> set (users (snd (ChangePassword demo_service (Some ''s'') (20, 20, 20) ''tok''
        ''long-enough-pw'' ''another-password'' demo_db))).
        user_id v = user_id u \<longrightarrow> password_hash v = nh) \<and>
     (\<forall>s. s \<in> set (sessions (snd (ChangePassword demo_service (Some ''s'') (20, 20, 20) ''tok''
        ''long-enough-pw'' ''another-password'' demo_db))) \<longleftrightarrow>
        s \<in> set (sessions demo_db) \<and>
        (sess_user s = user_id u \<longrightarrow> token s = tokenHash (prims demo_service) ''tok''))"
proof (rule change_password_revokes_others [OF demo_wf])
  show "ChangePassword demo_service (Some ''s'') (20, 20, 20) ''tok'' ''long-enough-pw''
      ''another-password'' demo_db =
    (Inr (), snd (ChangePassword demo_service (Some ''s'') (20, 20, 20) ''tok''
        ''long-enough-pw'' ''another-password'' demo_db))"
    by code_simp
  show "tokenHash (prims demo_service) ''tok'' \<noteq> []" by code_simp
qed

text \<open>
  The gateway is claimed once.  In every reachable state there is at most one account, and
  once there is one, no bootstrap request succeeds or changes anything, whatever the time and
  the credentials.
\<close>

theorem bootstrap_claims_once:
  assumes "auth_reachable sv st"
  shows "length (users (adb st)) \<le> 1 \<and>
     (users (adb st) \<noteq> [] \<longrightarrow>
       (\<exists>e. Bootstrap sv salt rnd clock name password ip agent (adb st) = (Inl e, adb st)) \<and>
       \<not> fst (BootstrapState sv now (adb st)))"
  using auth_reachable_inv [OF assms]
  by (auto simp: db_inv_def Bootstrap_def BootstrapState_def UserCount_def split: prod.splits option.splits)

theorem bootstrap_claims_once_witness:
  "length (users (adb demo_state)) \<le> 1 \<and>
   (\<exists>e. Bootstrap demo_service (Some ''s'') (Some ''x'') (20, 20, 20) ''mallory'' ''long-enough-pw'' [] []
      (adb demo_state) = (Inl e, adb demo_state)) \<and>
   \<not> fst (BootstrapState demo_service 20 (adb demo_state))"
proof -
  have "users (adb demo_state) \<noteq> []" by (simp add: demo_state_db demo_db_def)
  then show ?thesis
    using bootstrap_claims_once [OF demo_reachable] by blast
qed

text \<open>
  Login does not reveal which account names exist.  For a name without an account and a
  name with an account whose password does not verify, starting from the same limiter, the
  outcome and the limiter afterwards are the same, and neither touches the tables.
\<close>

theorem login_does_not_reveal_accounts:
  assumes "UserByUsername (adb st1) name = None"
    and "UserByUsername (adb st2) name = Some u"
    and "VerifyPassword (prims sv) password (password_hash u) \<noteq> Some True"
    and "limiter st1 = limiter st2"
  shows "fst (Login sv rnd clock name password ip agent st1) =
         fst (Login sv rnd clock name password ip agent st2) \<and>
     limiter (snd (Login sv rnd clock name password ip agent st1)) =
         limiter (snd (Login sv rnd clock name password ip agent st2)) \<and>
     adb (snd (Login sv rnd clock name password ip agent st1)) = adb st1 \<and>
     adb (snd (Login sv rnd clock name password ip agent st2)) = adb st2"
  using assms by (auto simp: Login_def Let_def split: prod.splits option.splits bool.splits)

theorem login_does_not_reveal_accounts_witness:
  "fst (Login demo_service None (20, 20) ''admin'' ''wrong-password'' ''a'' ''u''
        \<lparr>adb = empty_db, limiter = newLoginLimiter\<rparr>) =
   fst (Login demo_service None (20, 20) ''admin'' ''wrong-password'' ''a'' ''u'' demo_state)"
proof -
  have "UserByUsername (adb \<lparr>adb = empty_db, limiter = newLoginLimiter\<rparr>) ''admin'' = None"
    by code_simp
  moreover have "UserByUsername (adb demo_state) ''admin'' = Some (hd (users demo_db))"
    by code_simp
  moreover have "VerifyPassword (prims demo_service) ''wrong-password''
      (password_hash (hd (users demo_db))) \<noteq> Some True"
    by code_simp
  moreover have "limiter \<lparr>adb = empty_db, limiter = newLoginLimiter\<rparr> = limiter demo_state"
    by (simp add: demo_state_def)
  ultimately show ?thesis
    by (rule login_does_not_reveal_accounts [THEN conjunct1])
qed

end
