(* ===== verification/ApiServer.thy ===== *)
theory ApiServer
  imports Client AuthProps
begin

text \<open>
  The management HTTP server around the authentication service: the error envelope
  (\<open>internal/api/error.go\<close>), the security wrapper of every operation and the builtin handlers
  (\<open>internal/api/server.go\<close>, \<open>internal/api/auth_handlers.go\<close>).

  A request carries its method, headers, session cookie, remote address and body; the body is
  \<open>None\<close> when it is not exactly one JSON value of at most one mebibyte.  A response carries its
  status, its headers, what it does to the session cookie and its JSON body.
\<close>

record api_request = http_request +
  rq_cookie :: "string option"
  rq_addr :: string
  rq_agent :: string
  rq_body :: "jsval option"

datatype cookie_action = KeepCookie | SetCookie string time | ClearCookie

record http_response =
  rs_status :: int
  rs_headers :: "(string \<times> string) list"
  rs_cookie :: cookie_action
  rs_body :: jsval

section \<open>Writing responses\<close>

definition writeJSON :: "int \<Rightarrow> jsval \<Rightarrow> http_response" where
  "writeJSON st v = \<lparr>rs_status = st,
     rs_headers = [(''Content-Type'', ''application/json; charset=utf-8'')],
     rs_cookie = KeepCookie, rs_body = v\<rparr>"

definition error_body :: "string \<Rightarrow> string \<Rightarrow> jsval" where
  "error_body c m = JObj [(''error'', JObj [(''code'', JStr c), (''message'', JStr m)])]"

definition writeError :: "int \<Rightarrow> string \<Rightarrow> string \<Rightarrow> http_response" where
  "writeError st c m = writeJSON st (error_body c m)"

definition noContent :: http_response where
  "noContent = \<lparr>rs_status = 204, rs_headers = [], rs_cookie = KeepCookie, rs_body = JUndefined\<rparr>"

definition internalError :: http_response where
  "internalError = writeError 500 ''INTERNAL'' ''internal server error''"

text \<open>\<open>max(int(d.Round(time.Second).Seconds()), 1)\<close> for a positive delay.\<close>

definition retry_after :: "time \<Rightarrow> int" where
  "retry_after d = max ((d + second div 2) div second) 1"

definition writeAuthError :: "auth_error \<Rightarrow> http_response" where
  "writeAuthError e =
     (case e of
        RateLimitError d \<Rightarrow>
          (writeError 429 ''RATE_LIMITED'' ''too many authentication attempts'')
            \<lparr>rs_headers := [(''Retry-After'', string_of_int (retry_after d)),
               (''Content-Type'', ''application/json; charset=utf-8'')]\<rparr>
      | ErrUnauthenticated \<Rightarrow> writeError 401 ''UNAUTHENTICATED'' ''invalid username or password''
      | ErrBootstrapComplete \<Rightarrow> writeError 409 ''CONFLICT'' ''initial bootstrap is already complete''
      | ErrBootstrapClosed \<Rightarrow> writeError 403 ''FORBIDDEN'' ''initial bootstrap window is closed''
      | ErrWeakPassword \<Rightarrow>
          writeError 400 ''INVALID_ARGUMENT'' ''password must contain at least 12 characters''
      | ErrInvalidUsername \<Rightarrow>
          writeError 400 ''INVALID_ARGUMENT''
            ''username must be 1-64 visible characters without whitespace''
      | ErrInternal \<Rightarrow> internalError)"

text \<open>The JSON form of a time is the standard library's; \<open>rfc\<close> stands for it.\<close>

definition makeSessionResponse :: "(time \<Rightarrow> string) \<Rightarrow> session \<Rightarrow> jsval" where
  "makeSessionResponse rfc s =
     JObj [(''user'', JObj [(''name'', JStr (Username s)), (''roles'', JArr (map JStr (Roles s)))]),
           (''expiresAt'', JStr (rfc (ExpiresAt s)))]"

definition bootstrap_body :: "(time \<Rightarrow> string) \<Rightarrow> bool \<times> time \<Rightarrow> jsval" where
  "bootstrap_body rfc b = JObj [(''expiresAt'', JStr (rfc (snd b))), (''required'', JBool (fst b))]"

section \<open>Decoding request bodies\<close>

text \<open>
  \<open>decodeJSON\<close> into a struct of string fields, with unknown fields refused.  Go matches keys
  without regard to case, and \<open>null\<close> leaves a field, or the whole struct, at its zero value.
\<close>

fun decode_fields :: "string list \<Rightarrow> (string \<times> jsval) list \<Rightarrow> (string \<Rightarrow> string) \<Rightarrow> (string \<Rightarrow> string) option" where
  "decode_fields ks [] f = Some f"
| "decode_fields ks ((k, v) # ps) f =
     (case find (\<lambda>k'. to_lower k' = to_lower k) ks of
        None \<Rightarrow> None
      | Some k' \<Rightarrow>
          (case v of JStr s \<Rightarrow> decode_fields ks ps (f(k' := s))
           | JNull \<Rightarrow> decode_fields ks ps f
           | _ \<Rightarrow> None))"

definition decodeJSON :: "string list \<Rightarrow> jsval option \<Rightarrow> http_response + (string \<Rightarrow> string)" where
  "decodeJSON ks body =
     (case body of
        Some (JObj ps) \<Rightarrow>
          (case decode_fields ks ps (\<lambda>_. []) of
             Some f \<Rightarrow> Inr f
           | None \<Rightarrow> Inl (writeError 400 ''INVALID_ARGUMENT'' ''invalid JSON request body''))
      | Some JNull \<Rightarrow> Inr (\<lambda>_. [])
      | _ \<Rightarrow> Inl (writeError 400 ''INVALID_ARGUMENT'' ''invalid JSON request body''))"

section \<open>The security wrapper\<close>

definition header_get :: "api_request \<Rightarrow> string \<Rightarrow> string" where
  "header_get r k = (case header_values (rq_headers r) k of v # _ \<Rightarrow> v | [] \<Rightarrow> [])"

definition csrf_refused :: "api_request \<Rightarrow> bool" where
  "csrf_refused r \<longleftrightarrow> rq_method r \<noteq> ''GET'' \<and> rq_method r \<noteq> ''HEAD'' \<and>
     header_get r ''X-ESGW-Request'' \<noteq> ''1''"

type_synonym handler = "api_request \<Rightarrow> session option \<Rightarrow> auth_state \<Rightarrow> http_response \<times> auth_state"

text \<open>
  \<open>secureOperation\<close>: \<open>now\<close> and \<open>rnd\<close> are the clock and the random bytes the authentication
  of the request reads.
\<close>

definition secureOperation ::
    "service \<Rightarrow> go_operation \<Rightarrow> handler \<Rightarrow> time \<Rightarrow> string option \<Rightarrow> handler" where
  "secureOperation sv oper next now rnd r _ st =
     (if csrf_refused r
      then (writeError 403 ''FORBIDDEN'' ''missing or invalid X-ESGW-Request header'', st)
      else if Anonymous oper then next r None st
      else (case rq_cookie r of
          None \<Rightarrow> (writeError 401 ''UNAUTHENTICATED'' ''authentication required'', st)
        | Some tok \<Rightarrow>
          if tok = [] then (writeError 401 ''UNAUTHENTICATED'' ''authentication required'', st)
          else (case Authenticate sv rnd now tok (adb st) of
              (Inl ErrUnauthenticated, db) \<Rightarrow>
                ((writeError 401 ''UNAUTHENTICATED'' ''authentication required'')\<lparr>rs_cookie := ClearCookie\<rparr>,
                 st\<lparr>adb := db\<rparr>)
            | (Inl e, db) \<Rightarrow> (internalError, st\<lparr>adb := db\<rparr>)
            | (Inr s, db) \<Rightarrow>
                (case next r (Some s) (st\<lparr>adb := db\<rparr>) of (resp, st') \<Rightarrow>
                   (if Token s \<noteq> [] \<and> rs_cookie resp = KeepCookie
                    then resp\<lparr>rs_cookie := SetCookie (Token s) (ExpiresAt s)\<rparr> else resp, st')))))"

section \<open>Builtin handlers\<close>

record server_env =
  rfc3339 :: "time \<Rightarrow> string"
  clock3 :: "time \<times> time \<times> time"
  random_salt :: "string option"
  random_token :: "string option"
  ready :: bool

definition getAuthBootstrap :: "service \<Rightarrow> server_env \<Rightarrow> handler" where
  "getAuthBootstrap sv e r s st =
     (writeJSON 200 (bootstrap_body (rfc3339 e) (BootstrapState sv (fst (clock3 e)) (adb st))), st)"

definition createAuthBootstrap :: "service \<Rightarrow> server_env \<Rightarrow> handler" where
  "createAuthBootstrap sv e r s st =
     (case decodeJSON [''username'', ''password''] (rq_body r) of
        Inl resp \<Rightarrow> (resp, st)
      | Inr f \<Rightarrow>
        (case Bootstrap sv (random_salt e) (random_token e) (clock3 e) (f ''username'') (f ''password'')
            (rq_addr r) (rq_agent r) (adb st) of
          (Inl err, db) \<Rightarrow> (writeAuthError err, st\<lparr>adb := db\<rparr>)
        | (Inr x, db) \<Rightarrow> ((writeJSON 201 (makeSessionResponse (rfc3339 e) x))
             \<lparr>rs_cookie := SetCookie (Token x) (ExpiresAt x)\<rparr>, st\<lparr>adb := db\<rparr>)))"

definition login :: "service \<Rightarrow> server_env \<Rightarrow> handler" where
  "login sv e r s st =
     (case decodeJSON [''username'', ''password''] (rq_body r) of
        Inl resp \<Rightarrow> (resp, st)
      | Inr f \<Rightarrow>
        (case Login sv (random_token e) (fst (clock3 e), fst (snd (clock3 e)))
            (f ''username'') (f ''password'') (rq_addr r) (rq_agent r) st of
          (Inl err, st') \<Rightarrow> (writeAuthError err, st')
        | (Inr x, st') \<Rightarrow> ((writeJSON 200 (makeSessionResponse (rfc3339 e) x))
             \<lparr>rs_cookie := SetCookie (Token x) (ExpiresAt x)\<rparr>, st')))"

definition logout :: "service \<Rightarrow> handler" where
  "logout sv r s st =
     (noContent\<lparr>rs_cookie := ClearCookie\<rparr>,
      (case rq_cookie r of None \<Rightarrow> st | Some tok \<Rightarrow> st\<lparr>adb := Logout sv tok (adb st)\<rparr>))"

definition getAuthSession :: "server_env \<Rightarrow> handler" where
  "getAuthSession e r s st =
     (case s of
        None \<Rightarrow> (writeError 401 ''UNAUTHENTICATED'' ''authentication required'', st)
      | Some x \<Rightarrow> (writeJSON 200 (makeSessionResponse (rfc3339 e) x), st))"

definition changePassword :: "service \<Rightarrow> server_env \<Rightarrow> handler" where
  "changePassword sv e r s st =
     (case decodeJSON [''oldPassword'', ''newPassword''] (rq_body r) of
        Inl resp \<Rightarrow> (resp, st)
      | Inr f \<Rightarrow>
        (case rq_cookie r of
           None \<Rightarrow> (writeError 401 ''UNAUTHENTICATED'' ''authentication required'', st)
         | Some tok \<Rightarrow>
           (case ChangePassword sv (random_salt e) (clock3 e) tok (f ''oldPassword'') (f ''newPassword'')
               (adb st) of
              (Inl err, db) \<Rightarrow> (writeAuthError err, st\<lparr>adb := db\<rparr>)
            | (Inr u, db) \<Rightarrow> (noContent, st\<lparr>adb := db\<rparr>))))"

definition listAuthMethods :: handler where
  "listAuthMethods r s st =
     (writeJSON 200 (JObj [(''items'', JArr [JObj [(''type'', JStr ''local'')]])]), st)"

definition getHealth :: handler where
  "getHealth r s st = (writeJSON 200 (JObj [(''status'', JStr ''ok'')]), st)"

definition getReady :: "server_env \<Rightarrow> handler" where
  "getReady e r s st =
     (if ready e then (writeJSON 200 (JObj [(''status'', JStr ''ready'')]), st)
      else (writeJSON 503 (JObj [(''status'', JStr ''not_ready'')]), st))"

lemmas response_simps = writeJSON_def writeError_def error_body_def noContent_def internalError_def

section \<open>What the server sends has the declared type\<close>

text \<open>The error codes of the contract.\<close>

definition documented_codes :: "string list" where
  "documented_codes = [''INVALID_ARGUMENT'', ''UNAUTHENTICATED'', ''FORBIDDEN'', ''NOT_FOUND'',
     ''CONFLICT'', ''NO_CHANGES'', ''VALIDATION_FAILED'', ''RATE_LIMITED'', ''INTERNAL'', ''BAD_GATEWAY'']"

lemma conforms_error_body: "conforms schemas_Error (error_body c m) \<longleftrightarrow> c \<in> set documented_codes"
  by (simp add: schemas_Error_def error_body_def documented_codes_def conforms_some_TLit
      del: list.map)

interpretation error_wire: wire_type schemas_Error "\<lambda>(c, m). error_body c m"
  "\<lambda>(c, m). c \<in> set documented_codes"
  by unfold_locales (auto simp: conforms_error_body)

interpretation session_wire: wire_type schemas_Session "makeSessionResponse rfc"
  "\<lambda>s. set (Roles s) \<subseteq> {''admin''}" for rfc
  by unfold_locales
    (auto simp: schemas_Session_def makeSessionResponse_def list_all_iff)

interpretation bootstrap_wire: wire_type schemas_BootstrapState "bootstrap_body rfc" "\<lambda>_. True" for rfc
  by unfold_locales (simp add: schemas_BootstrapState_def bootstrap_body_def)

lemma writeAuthError_body:
  "\<exists>c m. rs_body (writeAuthError e) = error_body c m \<and> c \<in> set documented_codes"
  by (cases e) (auto simp: writeAuthError_def response_simps documented_codes_def)

lemma issueSession_Roles: "issueSession sv rnd t u ip a db = Inr (s, db') \<Longrightarrow> Roles s = [''admin'']"
  by (auto simp: issueSession_def sessionProjection_def Let_def split: option.splits sum.splits)

lemma Bootstrap_Roles:
  "Bootstrap sv salt rnd clock name pw ip a db = (Inr s, db') \<Longrightarrow> Roles s = [''admin'']"
  by (auto simp: Bootstrap_def dest: issueSession_Roles split: prod.splits option.splits sum.splits if_splits)

lemma Login_Roles:
  "Login sv rnd clock name pw ip a st = (Inr s, st') \<Longrightarrow> Roles s = [''admin'']"
  by (auto simp: Login_def Let_def dest: issueSession_Roles
      split: prod.splits option.splits sum.splits bool.splits)

lemma decodeJSON_error:
  "decodeJSON ks body = Inl resp \<Longrightarrow>
   resp = writeError 400 ''INVALID_ARGUMENT'' ''invalid JSON request body''"
  by (auto simp: decodeJSON_def split: option.splits jsval.splits)

definition typed_response :: "ty \<Rightarrow> http_response \<Rightarrow> bool" where
  "typed_response T r \<longleftrightarrow> (if response_ok (rs_status r) then conforms T (rs_body r)
                        else conforms schemas_Error (rs_body r))"

lemma typed_response_auth_error: "typed_response T (writeAuthError e)"
proof -
  have "\<not> response_ok (rs_status (writeAuthError e))"
    by (cases e) (simp_all add: writeAuthError_def response_simps response_ok_def)
  then show ?thesis
    using writeAuthError_body [of e] by (auto simp: typed_response_def conforms_error_body)
qed

lemma typed_response_error:
  "\<not> response_ok st \<Longrightarrow> c \<in> set documented_codes \<Longrightarrow> typed_response T (writeError st c m)"
  by (simp add: typed_response_def response_simps flip: error_body_def)
    (simp add: conforms_error_body)

lemma typed_response_ok: "response_ok st \<Longrightarrow> conforms T v \<Longrightarrow> typed_response T (writeJSON st v)"
  by (simp add: typed_response_def writeJSON_def)

lemma typed_response_cookie [simp]: "typed_response T (r\<lparr>rs_cookie := c\<rparr>) = typed_response T r"
  by (simp add: typed_response_def)

section \<open>Properties\<close>

text \<open>
  The authentication endpoints answer with bodies of the declared types: a success body of
  \<open>login\<close>, \<open>createAuthBootstrap\<close> and \<open>getAuthBootstrap\<close> has the type the contract gives for its
  status, and every failure body is the error envelope with a documented code.
\<close>

theorem auth_responses_have_declared_types:
  "typed_response schemas_Session (fst (login sv e r s st)) \<and>
   typed_response schemas_Session (fst (createAuthBootstrap sv e r s st)) \<and>
   typed_response schemas_BootstrapState (fst (getAuthBootstrap sv e r s st)) \<and>
   response_type operations_login 200 ''application/json'' = Some schemas_Session \<and>
   response_type operations_createAuthBootstrap 201 ''application/json'' = Some schemas_Session \<and>
   response_type operations_getAuthBootstrap 200 ''application/json'' = Some schemas_BootstrapState"
proof (intro conjI)
  have bad: "typed_response T (writeError 400 ''INVALID_ARGUMENT'' m)" for T m
    by (rule typed_response_error) (simp_all add: response_ok_def documented_codes_def)
  have good: "typed_response schemas_Session ((writeJSON st (makeSessionResponse (rfc3339 e) x))\<lparr>rs_cookie := c\<rparr>)"
    if "Roles x = [''admin'']" "response_ok st" for x st c
    using that session_wire.encode_conforms [of x] by (simp add: typed_response_ok)
  show "typed_response schemas_Session (fst (login sv e r s st))"
    using bad good typed_response_auth_error
    by (auto simp: login_def response_ok_def dest!: decodeJSON_error Login_Roles
        split: sum.splits prod.splits)
  show "typed_response schemas_Session (fst (createAuthBootstrap sv e r s st))"
    using bad good typed_response_auth_error
    by (auto simp: createAuthBootstrap_def response_ok_def dest!: decodeJSON_error Bootstrap_Roles
        split: sum.splits prod.splits)
  show "typed_response schemas_BootstrapState (fst (getAuthBootstrap sv e r s st))"
    using bootstrap_wire.encode_conforms
    by (simp add: getAuthBootstrap_def typed_response_ok response_ok_def)
qed (code_simp+)

lemma header_get_set_csrf:
  "header_get (r\<lparr>rq_headers := headers_set hs ''X-ESGW-Request'' v\<rparr>) ''X-ESGW-Request'' = v"
  by (simp add: header_get_def)

lemma registry_methods:
  "oper \<in> set Operations \<Longrightarrow> Method oper \<in> {''GET'', ''PUT'', ''POST'', ''DELETE''}"
proof -
  have "list_all (\<lambda>oper. Method oper \<in> set [''GET'', ''PUT'', ''POST'', ''DELETE'']) Operations"
    by code_simp
  then show "oper \<in> set Operations \<Longrightarrow> Method oper \<in> {''GET'', ''PUT'', ''POST'', ''DELETE''}"
    by (auto simp: list_all_iff)
qed

text \<open>
  C31: the console's middleware and the server's check fit together.  For every operation of the
  registry, a request that went through the middleware is never refused by the check, whatever
  headers it had; and a request without the header, as a form or link of another site sends it,
  is refused exactly when the operation is not a \<open>GET\<close>.
\<close>

theorem csrf_middleware_satisfies_server:
  assumes "oper \<in> set Operations" and "rq_method r = Method oper"
  shows "\<not> csrf_refused (csrf_onRequest r) \<and>
     (header_values (rq_headers r) ''X-ESGW-Request'' = [] \<longrightarrow>
        (csrf_refused r \<longleftrightarrow> Method oper \<noteq> ''GET''))"
proof -
  have up: "to_upper ''GET'' = ''GET''" "to_upper ''PUT'' = ''PUT''" "to_upper ''POST'' = ''POST''"
    "to_upper ''DELETE'' = ''DELETE''"
    by code_simp+
  show ?thesis
    using registry_methods [OF assms(1)] assms(2)
    by (auto simp: csrf_refused_def csrf_onRequest_def safe_methods_def up header_get_set_csrf)
      (simp_all add: header_get_def)
qed

definition demo_request :: "string \<Rightarrow> api_request" where
  "demo_request m = \<lparr>rq_method = m, rq_headers = [(''X-ESGW-Request'', ''1'')],
     rq_cookie = Some ''tok'', rq_addr = ''::1'', rq_agent = ''ua'', rq_body = None\<rparr>"

definition demo_operation :: go_operation where
  "demo_operation = \<lparr>ID = ''logout'', Method = ''POST'', Path = ''/api/v1/auth/logout'', Anonymous = False\<rparr>"

theorem csrf_middleware_satisfies_server_witness:
  "\<not> csrf_refused (csrf_onRequest ((demo_request ''POST'')\<lparr>rq_headers := []\<rparr>)) \<and>
   csrf_refused ((demo_request ''POST'')\<lparr>rq_headers := []\<rparr>)"
proof -
  have "demo_operation \<in> set Operations" by code_simp
  moreover have "rq_method ((demo_request ''POST'')\<lparr>rq_headers := []\<rparr>) = Method demo_operation"
    by (simp add: demo_request_def demo_operation_def)
  ultimately show ?thesis
    using csrf_middleware_satisfies_server [of demo_operation "(demo_request ''POST'')\<lparr>rq_headers := []\<rparr>"]
    by (simp add: header_values_def demo_operation_def)
qed

text \<open>
  C29: an operation that is not anonymous runs its handler only for a live session.  Without a
  session cookie, or with one that does not authenticate, the answer and the state afterwards are
  the same whatever the handler is, the status is 401, 403 or 500, and no account is changed.
\<close>

theorem protected_operation_needs_session:
  assumes "\<not> Anonymous oper"
    and "\<forall>tok s. rq_cookie r = Some tok \<longrightarrow> fst (Authenticate sv rnd now tok (adb st)) \<noteq> Inr s"
  shows "\<exists>resp st'. (\<forall>h. secureOperation sv oper h now rnd r x st = (resp, st')) \<and>
     rs_status resp \<in> {401, 403, 500} \<and> users (adb st') = users (adb st) \<and> limiter st' = limiter st"
proof (cases "csrf_refused r")
  case True
  then show ?thesis by (simp add: secureOperation_def response_simps)
next
  case csrf: False
  show ?thesis
  proof (cases "rq_cookie r")
    case None
    then show ?thesis using csrf assms(1) by (simp add: secureOperation_def response_simps)
  next
    case (Some tok)
    obtain res db where a: "Authenticate sv rnd now tok (adb st) = (res, db)" by fastforce
    then obtain e where e: "res = Inl e"
      using assms(2) Some by (cases res) auto
    have "users db = users (adb st)"
      using a e by (auto simp: Authenticate_def Let_def DeleteSession_def split: if_splits option.splits sum.splits)
    then show ?thesis
      using csrf assms(1) Some a e
      by (cases "tok = []"; cases e) (simp_all add: secureOperation_def response_simps)
  qed
qed

theorem protected_operation_needs_session_witness:
  "\<exists>resp st'. (\<forall>h. secureOperation demo_service demo_operation h 200 None (demo_request ''POST'') None
       demo_state = (resp, st')) \<and> rs_status resp \<in> {401, 403, 500} \<and>
     users (adb st') = users (adb demo_state) \<and> limiter st' = limiter demo_state"
proof (rule protected_operation_needs_session)
  show "\<not> Anonymous demo_operation" by (simp add: demo_operation_def)
  have "fst (Authenticate demo_service None 200 ''tok'' (adb demo_state)) = Inl ErrUnauthenticated"
    by code_simp
  then show "\<forall>tok s. rq_cookie (demo_request ''POST'') = Some tok \<longrightarrow>
      fst (Authenticate demo_service None 200 tok (adb demo_state)) \<noteq> Inr s"
    by (simp add: demo_request_def)
qed

text \<open>
  An error travels from the server to the console unchanged: whatever status, documented
  code and message the server writes, the console's \<open>unwrap\<close> throws a \<open>ManagementAPIError\<close> with
  that status, code and message and no details.  The library in between is relied on for handing
  over the body of a failed response as the error.
\<close>

theorem error_envelope_round_trip:
  assumes fetch: "\<And>r. \<not> response_ok (rs_status r) \<Longrightarrow>
      fr_status (wrap r) = rs_status r \<and> fr_error (wrap r) = rs_body r"
    and "\<not> response_ok st"
  shows "unwrap (wrap (writeError st c m)) =
    Inl (ManagementAPIError \<lparr>status = st, code = c, message = m, details = JUndefined\<rparr>)"
proof -
  have "fr_status (wrap (writeError st c m)) = st"
    "fr_error (wrap (writeError st c m)) = error_body c m"
    using fetch [of "writeError st c m"] assms(2) by (simp_all add: writeError_def writeJSON_def)
  then show ?thesis
    using assms(2) by (simp add: unwrap_def toAPIError_def error_body_def isRecord_def js_get_opt_def)
qed

theorem error_envelope_round_trip_witness:
  "unwrap ((\<lambda>r. if response_ok (rs_status r)
      then \<lparr>fr_data = rs_body r, fr_error = JUndefined, fr_status = rs_status r\<rparr>
      else \<lparr>fr_data = JUndefined, fr_error = rs_body r, fr_status = rs_status r\<rparr>)
     (writeError 429 ''RATE_LIMITED'' ''slow down'')) =
   Inl (ManagementAPIError \<lparr>status = 429, code = ''RATE_LIMITED'', message = ''slow down'', details = JUndefined\<rparr>)"
  by (rule error_envelope_round_trip) (auto simp: response_ok_def)

text \<open>
  The logout handler revokes the token of the request's cookie, but the security wrapper may
  just have rotated that token away.  Then the response says the session is gone and clears the
  cookie while the session lives on in the table under the new token.
\<close>

theorem logout_after_rotation_keeps_session:
  assumes "db_wf (adb st)" and "Authenticate sv (Some new) now tok (adb st) = (Inr s, db')"
    and "Token s \<noteq> []" and "tokenHash (prims sv) new \<noteq> tokenHash (prims sv) tok"
    and "\<not> csrf_refused r" and "\<not> Anonymous oper" and "rq_cookie r = Some tok" and "tok \<noteq> []"
  shows "rs_status (fst (secureOperation sv oper (logout sv) now (Some new) r x st)) = 204 \<and>
     rs_cookie (fst (secureOperation sv oper (logout sv) now (Some new) r x st)) = ClearCookie \<and>
     SessionByTokenHash (adb (snd (secureOperation sv oper (logout sv) now (Some new) r x st)))
       (tokenHash (prims sv) new) \<noteq> None"
proof -
  obtain d name e where "SessionByTokenHash (adb st) (tokenHash (prims sv) tok) = Some (d, name)"
    "RotateSession (tokenHash (prims sv) tok) (tokenHash (prims sv) new) now e (adb st) = Inr db'"
    using assms(2,3) by (rule Authenticate_rotated)
  then have "\<exists>v. SessionByTokenHash db' (tokenHash (prims sv) new) = Some v"
    using db_sessions.lookup_rotate [OF assms(1)] by simp
  then show ?thesis
    using assms
    by (simp add: secureOperation_def logout_def Logout_def noContent_def db_sessions.lookup_remove)
qed

theorem logout_after_rotation_keeps_session_witness:
  "rs_status (fst (secureOperation demo_service demo_operation (logout demo_service) 100 (Some ''new'')
       (demo_request ''POST'') None demo_state)) = 204 \<and>
   rs_cookie (fst (secureOperation demo_service demo_operation (logout demo_service) 100 (Some ''new'')
       (demo_request ''POST'') None demo_state)) = ClearCookie \<and>
   SessionByTokenHash (adb (snd (secureOperation demo_service demo_operation (logout demo_service) 100
       (Some ''new'') (demo_request ''POST'') None demo_state)))
     (tokenHash (prims demo_service) ''new'') \<noteq> None"
proof (rule logout_after_rotation_keeps_session)
  show "db_wf (adb demo_state)" by (simp add: demo_state_db demo_wf)
  show "Authenticate demo_service (Some ''new'') 100 ''tok'' (adb demo_state) =
    (Inr \<lparr>UserID = 1, Username = ''admin'', Roles = [''admin''], ExpiresAt = 200, Token = ''new''\<rparr>,
     snd (Authenticate demo_service (Some ''new'') 100 ''tok'' (adb demo_state)))"
    by code_simp
qed (code_simp+)

text \<open>
  For the same reason a password change fails when its request rotates the token: the
  handler presents the replaced token, and the answer is 401 with the account unchanged, although
  the session was live and whatever the passwords are.
\<close>

theorem change_password_after_rotation_fails:
  assumes "db_wf (adb st)" and "Authenticate sv (Some new) now tok (adb st) = (Inr s, db')"
    and "Token s \<noteq> []" and "tokenHash (prims sv) new \<noteq> tokenHash (prims sv) tok"
    and "\<not> csrf_refused r" and "\<not> Anonymous oper" and "rq_cookie r = Some tok" and "tok \<noteq> []"
    and "decodeJSON [''oldPassword'', ''newPassword''] (rq_body r) = Inr f"
    and "12 \<le> length (f ''newPassword'')"
  shows "rs_status (fst (secureOperation sv oper (changePassword sv e) now (Some new) r x st)) = 401 \<and>
     users (adb (snd (secureOperation sv oper (changePassword sv e) now (Some new) r x st))) =
       users (adb st)"
proof -
  obtain d where rot:
    "RotateSession (tokenHash (prims sv) tok) (tokenHash (prims sv) new) now d (adb st) = Inr db'"
    using assms(2,3) by (rule Authenticate_rotated)
  then have "SessionByTokenHash db' (tokenHash (prims sv) tok) = None"
    using db_sessions.rotate_old_dead [OF assms(1) _ assms(4)] by blast
  then have "ChangePassword sv (random_salt e) (clock3 e) tok (f ''oldPassword'') (f ''newPassword'') db' =
      (Inl ErrUnauthenticated, db')"
    using assms(10) by (simp add: ChangePassword_def minPasswordLength_def split: prod.splits)
  moreover have "users db' = users (adb st)"
    using RotateSession_Inr(5) [OF rot] by simp
  ultimately show ?thesis
    using assms by (simp add: secureOperation_def changePassword_def writeAuthError_def response_simps)
qed

theorem change_password_after_rotation_fails_witness:
  "let r = (demo_request ''POST'')\<lparr>rq_body := Some (JObj [(''oldPassword'', JStr ''long-enough-pw''),
         (''newPassword'', JStr ''another-password'')])\<rparr>;
       e = \<lparr>rfc3339 = (\<lambda>_. []), clock3 = (100, 100, 100), random_salt = Some ''s'',
         random_token = None, ready = True\<rparr>;
       out = secureOperation demo_service demo_operation (changePassword demo_service e) 100
         (Some ''new'') r None demo_state
   in rs_status (fst out) = 401 \<and> users (adb (snd out)) = users (adb demo_state)"
proof -
  let ?r = "(demo_request ''POST'')\<lparr>rq_body := Some (JObj [(''oldPassword'', JStr ''long-enough-pw''),
         (''newPassword'', JStr ''another-password'')])\<rparr>"
  have "case decodeJSON [''oldPassword'', ''newPassword''] (rq_body ?r) of
      Inl _ \<Rightarrow> False | Inr f \<Rightarrow> 12 \<le> length (f ''newPassword'')"
    by code_simp
  then obtain f where f: "decodeJSON [''oldPassword'', ''newPassword''] (rq_body ?r) = Inr f"
    "12 \<le> length (f ''newPassword'')"
    by (auto split: sum.splits)
  show ?thesis
    unfolding Let_def
  proof (rule change_password_after_rotation_fails [OF _ _ _ _ _ _ _ _ f])
    show "db_wf (adb demo_state)" by (simp add: demo_state_db demo_wf)
    show "Authenticate demo_service (Some ''new'') 100 ''tok'' (adb demo_state) =
      (Inr \<lparr>UserID = 1, Username = ''admin'', Roles = [''admin''], ExpiresAt = 200, Token = ''new''\<rparr>,
       snd (Authenticate demo_service (Some ''new'') 100 ''tok'' (adb demo_state)))"
      by code_simp
  qed (code_simp+)
qed

end
