(* ===== verification/ConsoleAuth.thy ===== *)
theory ConsoleAuth
  imports ConsoleKit ApiServer
begin

text \<open>
  The authentication boundary of the console (\<open>web/src/features/auth\<close>): which screen is shown
  for the state of the two authentication queries, the sign-in form with its local state, and
  what a successful sign-in writes into the query cache.  The query library is a parameter: a
  cache type with a function that reads a query and one that stores data for a key.
\<close>

section \<open>The sign-in form\<close>

datatype auth_mode = BootstrapMode | LoginMode

record auth_form =
  f_username :: string
  f_password :: string
  f_error :: string
  f_pending :: bool

definition initial_form :: auth_form where
  "initial_form = \<lparr>f_username = ''admin'', f_password = [], f_error = [], f_pending = False\<rparr>"

text \<open>\<open>submit\<close> up to the \<open>await\<close>, and after it for either outcome of \<open>onSubmit\<close>.\<close>

definition submit_start :: "auth_form \<Rightarrow> auth_form" where
  "submit_start f = f\<lparr>f_pending := True, f_error := []\<rparr>"

definition submit_error :: "js_error \<Rightarrow> string" where
  "submit_error e = (case e of ManagementAPIError x \<Rightarrow> message x
     | NativeError _ \<Rightarrow> ''Authentication failed. Try again.'')"

definition submit_finish :: "js_error + unit \<Rightarrow> auth_form \<Rightarrow> auth_form" where
  "submit_finish r f =
     (case r of Inl e \<Rightarrow> f\<lparr>f_error := submit_error e, f_pending := False\<rparr>
      | Inr _ \<Rightarrow> f\<lparr>f_pending := False\<rparr>)"

definition AuthPage :: "auth_mode \<Rightarrow> auth_form \<Rightarrow> view" where
  "AuthPage mode f =
     (let bootstrap = (mode = BootstrapMode) in
      El ''main'' [] [El ''form'' [(''onSubmit'', ''submit'')] (
        [El ''p'' [] [Txt (if bootstrap then ''First run'' else ''Secure session'')],
         El ''h2'' [] [Txt (if bootstrap then ''Claim this gateway'' else ''Welcome back'')],
         El ''p'' [] [Txt (if bootstrap
            then ''Create the local administrator. This one-time window closes 30 minutes after startup.''
            else ''Use your local administrator account. Sessions stay on this gateway.'')],
         Field ''Username'' None
           [Input [(''autoComplete'', ''username''), (''value'', f_username f), (''required'', '''')]],
         Field (if bootstrap then ''New password'' else ''Password'')
           (if bootstrap then Some ''Use at least 12 characters.'' else None)
           [Input ([(''type'', ''password''),
              (''autoComplete'', if bootstrap then ''new-password'' else ''current-password'')] @
              (if bootstrap then [(''minLength'', ''12'')] else []) @
              [(''value'', f_password f), (''required'', '''')])]] @
        (if f_error f \<noteq> [] then [El ''div'' [(''role'', ''alert'')] [Txt (f_error f)]] else []) @
        [Button (f_pending f) [(''type'', ''submit'')]
           [Txt (if f_pending f then ''Establishing session'' @ ellipsis
                 else if bootstrap then ''Create administrator'' else ''Enter signal desk'')]])])"

section \<open>The boundary\<close>

definition authKeys_bootstrap :: "string list" where
  "authKeys_bootstrap = [''auth'', ''bootstrap'']"

definition authKeys_session :: "string list" where
  "authKeys_session = [''auth'', ''session'']"

definition bootstrap_call :: api_call where
  "bootstrap_call = GET ''/auth/bootstrap''"

definition session_call :: api_call where
  "session_call = GET ''/auth/session''"

definition authenticate_call :: "auth_mode \<Rightarrow> string \<Rightarrow> string \<Rightarrow> api_call" where
  "authenticate_call mode name pw =
     mutating ''POST'' (if mode = BootstrapMode then ''/auth/bootstrap'' else ''/auth/login'')
       (Some (JObj [(''username'', JStr name), (''password'', JStr pw)]))"

text \<open>\<open>enabled\<close> of the session query.\<close>

definition session_enabled :: "query \<Rightarrow> bool" where
  "session_enabled b \<longleftrightarrow> js_get_opt (query_data b) ''required'' = JBool False"

text \<open>\<open>onSuccess\<close> of the sign-in mutation; \<open>put\<close> is \<open>queryClient.setQueryData\<close>.\<close>

definition authenticate_onSuccess ::
    "(string list \<Rightarrow> jsval \<Rightarrow> 'c \<Rightarrow> 'c) \<Rightarrow> jsval \<Rightarrow> jsval \<Rightarrow> 'c \<Rightarrow> 'c" where
  "authenticate_onSuccess put bootstrap_data dat c =
     put authKeys_session dat
       (put authKeys_bootstrap (js_spread_put bootstrap_data ''required'' (JBool False)) c)"

definition BootScreen :: "string \<Rightarrow> view" where
  "BootScreen label = El ''main'' [] [El ''p'' [] [Txt label]]"

definition BootFailure :: "js_error \<Rightarrow> view" where
  "BootFailure e =
     El ''main'' [] [El ''p'' [] [Txt ''Connection fault''], El ''h1'' [] [Txt ''Signal desk is offline''],
       El ''p'' [] [Txt (case e of ManagementAPIError x \<Rightarrow> message x
                      | NativeError _ \<Rightarrow> ''The gateway could not be reached.'')],
       El ''button'' [(''onClick'', ''bootstrap.refetch'')] [Txt ''Try again'']]"

definition AuthBoundary :: "query \<Rightarrow> query \<Rightarrow> auth_form \<Rightarrow> view \<Rightarrow> view option" where
  "AuthBoundary bootstrap sess form children =
     (case bootstrap of
        QPending \<Rightarrow> Some (BootScreen ''Reading gateway bootstrap state'')
      | QError e _ \<Rightarrow> Some (BootFailure e)
      | QSuccess d \<Rightarrow>
          do { required \<leftarrow> js_get d ''required'';
               if js_truthy required then Some (AuthPage BootstrapMode form)
               else if isPending sess then Some (BootScreen ''Restoring secure session'')
               else if isError sess then Some (AuthPage LoginMode form)
               else Some children })"

section \<open>What the boundary relies on\<close>

text \<open>The query cache: data stored for a key is what the key's query then shows, and other keys
  are not touched.\<close>

definition cache_laws :: "('c \<Rightarrow> string list \<Rightarrow> query) \<Rightarrow> (string list \<Rightarrow> jsval \<Rightarrow> 'c \<Rightarrow> 'c) \<Rightarrow> bool" where
  "cache_laws look put \<longleftrightarrow>
     (\<forall>k v c. look (put k v c) k = QSuccess v) \<and>
     (\<forall>k k' v c. k' \<noteq> k \<longrightarrow> look (put k v c) k' = look c k')"

text \<open>\<open>openapi-fetch\<close>: the request carries the method and the body of the call, and the body of
  the response is handed over as data or as error by the status.\<close>

definition carries :: "api_call \<Rightarrow> api_request \<Rightarrow> bool" where
  "carries c r \<longleftrightarrow> rq_method r = call_method c \<and> rq_body r = call_body c"

definition fetch_laws :: "(http_response \<Rightarrow> fetch_result) \<Rightarrow> bool" where
  "fetch_laws wrap \<longleftrightarrow> (\<forall>r. fr_status (wrap r) = rs_status r \<and>
     (if response_ok (rs_status r) then fr_data (wrap r) = rs_body r \<and> fr_error (wrap r) = JUndefined
      else fr_error (wrap r) = rs_body r))"

lemma unwrap_fetch:
  "fetch_laws wrap \<Longrightarrow> response_ok (rs_status r) \<Longrightarrow> unwrap (wrap r) = Inr (rs_body r)"
  "fetch_laws wrap \<Longrightarrow> \<not> response_ok (rs_status r) \<Longrightarrow>
     unwrap (wrap r) = Inl (ManagementAPIError (toAPIError (rs_status r) (rs_body r)))"
  by (auto simp: fetch_laws_def unwrap_def)

text \<open>When the boundary lets its children through.\<close>

definition boundary_open :: "query \<Rightarrow> query \<Rightarrow> bool" where
  "boundary_open b s \<longleftrightarrow> (\<exists>d x. b = QSuccess d \<and> s = QSuccess x \<and> \<not> js_truthy (js_get_opt d ''required''))"

lemma AuthBoundary_open:
  assumes "b = QSuccess d" and "js_get d ''required'' = Some x" and "\<not> js_truthy x" and "s = QSuccess y"
  shows "AuthBoundary b s f v = Some v"
  using assms by (simp add: AuthBoundary_def)

section \<open>Properties\<close>

text \<open>
  The pages of the console are rendered only for a restored session.  With bootstrap data of
  the declared type the boundary never throws; it shows its children exactly when the gateway is
  claimed and the session query has succeeded, and otherwise its result does not depend on them.
\<close>

theorem boundary_guards_children:
  assumes "query_typed schemas_BootstrapState b"
  shows "\<exists>u. AuthBoundary b s f v = Some u \<and> (boundary_open b s \<longrightarrow> u = v) \<and>
     (\<not> boundary_open b s \<longrightarrow> (\<forall>w. AuthBoundary b s f w = Some u))"
proof (cases b)
  case (QSuccess d)
  then have "conforms schemas_BootstrapState d"
    using assms by (simp add: query_typed_def)
  then obtain x where x: "js_get d ''required'' = Some x"
    using conforms_required_get [of _ _ d "''required''" TBoolean]
    by (fastforce simp: schemas_BootstrapState_def)
  with QSuccess show ?thesis
    by (cases s) (auto simp: AuthBoundary_def boundary_open_def js_get_opt_def)
qed (auto simp: AuthBoundary_def boundary_open_def)

theorem boundary_guards_children_witness:
  "AuthBoundary (QSuccess (JObj [(''required'', JBool False), (''expiresAt'', JNull)]))
     (QError (NativeError ''401'') JUndefined) initial_form (Txt ''pages'') = Some (AuthPage LoginMode initial_form)"
proof -
  let ?b = "QSuccess (JObj [(''required'', JBool False), (''expiresAt'', JNull)])"
  let ?s = "QError (NativeError ''401'') JUndefined"
  have "query_typed schemas_BootstrapState ?b" by code_simp
  from boundary_guards_children [OF this, of ?s initial_form "Txt ''pages''"]
  obtain u where "AuthBoundary ?b ?s initial_form (Txt ''pages'') = Some u" by blast
  then show ?thesis by (simp add: AuthBoundary_def)
qed

lemma decode_credentials:
  "\<exists>g. decodeJSON [''username'', ''password'']
      (Some (JObj [(''username'', JStr n), (''password'', JStr p)])) = Inr g \<and>
    g ''username'' = n \<and> g ''password'' = p"
proof -
  have "to_lower ''username'' \<noteq> to_lower ''password''" by code_simp
  then show ?thesis by (simp add: decodeJSON_def)
qed

lemma writeAuthError_shape:
  "\<exists>m. js_get_opt (js_get_opt (rs_body (writeAuthError e)) ''error'') ''message'' = JStr m \<and> m \<noteq> [] \<and>
     message (toAPIError (rs_status (writeAuthError e)) (rs_body (writeAuthError e))) = m \<and>
     \<not> response_ok (rs_status (writeAuthError e)) \<and> rs_cookie (writeAuthError e) = KeepCookie"
  by (cases e) (simp_all add: writeAuthError_def response_simps toAPIError_def isRecord_def
      js_get_opt_def response_ok_def)

lemma onSuccess_opens:
  assumes "cache_laws look put"
  shows "AuthBoundary (look (authenticate_onSuccess put bd dat c) authKeys_bootstrap)
      (look (authenticate_onSuccess put bd dat c) authKeys_session) f v = Some v"
proof -
  have "authKeys_bootstrap \<noteq> authKeys_session"
    by (simp add: authKeys_bootstrap_def authKeys_session_def)
  with assms show ?thesis
    by (intro AuthBoundary_open [OF _ js_get_spread_put])
       (auto simp: cache_laws_def authenticate_onSuccess_def)
qed


text \<open>A cache and a transport that satisfy the laws.\<close>

definition demo_cache_put :: "string list \<Rightarrow> jsval \<Rightarrow> (string list \<Rightarrow> query) \<Rightarrow> string list \<Rightarrow> query" where
  "demo_cache_put k v c = c(k := QSuccess v)"

definition demo_fetch :: "http_response \<Rightarrow> fetch_result" where
  "demo_fetch r = (if response_ok (rs_status r)
     then \<lparr>fr_data = rs_body r, fr_error = JUndefined, fr_status = rs_status r\<rparr>
     else \<lparr>fr_data = JUndefined, fr_error = rs_body r, fr_status = rs_status r\<rparr>)"

lemma demo_cache_laws: "cache_laws (\<lambda>c. c) demo_cache_put"
  by (auto simp: cache_laws_def demo_cache_put_def)

lemma demo_fetch_laws: "fetch_laws demo_fetch"
  by (auto simp: fetch_laws_def demo_fetch_def)

definition demo_env :: server_env where
  "demo_env = \<lparr>rfc3339 = string_of_int, clock3 = (10, 10, 10), random_salt = Some ''salt'',
     random_token = Some ''tok2'', ready = True\<rparr>"

definition sign_in_request :: "string \<Rightarrow> api_request" where
  "sign_in_request pw = \<lparr>rq_method = ''POST'', rq_headers = [], rq_cookie = None, rq_addr = ''ip'',
     rq_agent = ''agent'',
     rq_body = Some (JObj [(''username'', JStr ''admin''), (''password'', JStr pw)])\<rparr>"

lemma demo_login_accepts:
  "case Login demo_service (random_token demo_env) (fst (clock3 demo_env), fst (snd (clock3 demo_env)))
     ''admin'' ''long-enough-pw'' (rq_addr (sign_in_request ''long-enough-pw''))
     (rq_agent (sign_in_request ''long-enough-pw'')) demo_state of
   (Inr x, _) \<Rightarrow> Token x = ''tok2'' | _ \<Rightarrow> False"
  by code_simp


end
