(* ===== verification/ConfigurationPage.thy ===== *)
theory ConfigurationPage
  imports ConsoleKit
begin

text \<open>
  The configuration page (\<open>web/src/pages/configuration-page.tsx\<close>): the draft's files, the
  editor with its local text, and the three separate decisions save, validate and publish.

  The state of the component is the state of its two queries and three mutations and its four
  \<open>useState\<close> cells; \<open>deps\<close> holds the dependencies the effect ran with last (\<open>None\<close> before the
  first commit).  The cells that take values from a response are untyped, as the values are.
\<close>

record config_page =
  draft :: query
  objects :: query
  save :: mutation
  validate :: mutation
  publish :: mutation
  activePath :: jsval
  content :: jsval
  validation :: jsval
  pub_message :: string
  deps :: "(jsval \<times> jsval) option"

definition initial_config_page :: config_page where
  "initial_config_page = \<lparr>draft = QPending, objects = QPending, save = MIdle, validate = MIdle,
     publish = MIdle, activePath = JStr [], content = JStr [], validation = JNull,
     pub_message = [], deps = None\<rparr>"

section \<open>The selected file\<close>

text \<open>\<open>files.find((file) => file.path === activePath)\<close>: \<open>JUndefined\<close> when there is none.\<close>

fun find_path :: "jsval \<Rightarrow> jsval list \<Rightarrow> jsval option" where
  "find_path p [] = Some JUndefined"
| "find_path p (x # xs) = do { q \<leftarrow> js_get x ''path''; if q = p then Some x else find_path p xs }"

definition activeFile :: "config_page \<Rightarrow> jsval option" where
  "activeFile c =
     (if js_is_nullish (query_data (draft c)) then Some JUndefined
      else do { files \<leftarrow> js_get (query_data (draft c)) ''files'';
                xs \<leftarrow> js_array files;
                hit \<leftarrow> find_path (activePath c) xs;
                Some (js_coalesce hit (case xs of [] \<Rightarrow> JUndefined | x # _ \<Rightarrow> x)) })"

definition effect_deps :: "jsval \<Rightarrow> jsval \<times> jsval" where
  "effect_deps af = (js_get_opt af ''path'', js_get_opt af ''content'')"

text \<open>\<open>useEffect\<close>: after a commit, if the path or the content of the selected file is not what
  it was at the last run.\<close>

definition run_effect :: "config_page \<Rightarrow> config_page option" where
  "run_effect c =
     do { af \<leftarrow> activeFile c;
          Some (if deps c = Some (effect_deps af) then c
                else if js_truthy af
                then c\<lparr>activePath := js_get_opt af ''path'', content := js_get_opt af ''content'',
                       deps := Some (effect_deps af)\<rparr>
                else c\<lparr>deps := Some (effect_deps af)\<rparr>) }"

definition changed :: "config_page \<Rightarrow> jsval \<Rightarrow> bool" where
  "changed c af = (if js_truthy af then content c \<noteq> js_get_opt af ''content'' else False)"

section \<open>Events\<close>

definition edit :: "string \<Rightarrow> config_page \<Rightarrow> config_page" where
  "edit text c = c\<lparr>content := JStr text\<rparr>"

definition select_file :: "jsval \<Rightarrow> config_page \<Rightarrow> config_page" where
  "select_file p c = c\<lparr>activePath := p\<rparr>"

definition set_message :: "string \<Rightarrow> config_page \<Rightarrow> config_page" where
  "set_message m c = c\<lparr>pub_message := m\<rparr>"

text \<open>A query settles, at first or after \<open>invalidateQueries\<close>.\<close>

definition draft_result :: "query \<Rightarrow> config_page \<Rightarrow> config_page" where
  "draft_result q c = c\<lparr>draft := q\<rparr>"

definition objects_result :: "query \<Rightarrow> config_page \<Rightarrow> config_page" where
  "objects_result q c = c\<lparr>objects := q\<rparr>"

text \<open>The calls.  \<open>save\<close> does nothing without data or a selected file: \<open>Some None\<close>.\<close>

definition draft_call :: api_call where "draft_call = GET ''/config/draft''"
definition objects_call :: api_call where "objects_call = GET ''/config/objects''"

definition put_content :: "jsval \<Rightarrow> jsval \<Rightarrow> jsval \<Rightarrow> jsval option" where
  "put_content path text file =
     do { q \<leftarrow> js_get file ''path'';
          Some (if q = path then js_spread_put file ''content'' text else file) }"

definition save_call :: "config_page \<Rightarrow> api_call option option" where
  "save_call c =
     (let d = query_data (draft c) in
      do { af \<leftarrow> activeFile c;
           if \<not> js_truthy d \<or> \<not> js_truthy af then Some None
           else do { files \<leftarrow> js_get d ''files'';
                     xs \<leftarrow> js_array files;
                     path \<leftarrow> js_get af ''path'';
                     ys \<leftarrow> those (map (put_content path (content c)) xs);
                     Some (Some (mutating ''PUT'' ''/config/draft'' (Some (JObj
                       [(''sourceType'', js_get_opt d ''sourceType''),
                        (''expectedResourceVersion'', js_get_opt d ''resourceVersion''),
                        (''files'', JArr ys)])))) } })"

definition validate_call :: api_call where
  "validate_call = (mutating ''POST'' ''/config/validate'' (Some (JObj [(''envoyValidate'', JBool False)])))
     \<lparr>call_query := [(''mode'', JStr ''xds'')]\<rparr>"

definition publish_call :: "config_page \<Rightarrow> api_call" where
  "publish_call c = mutating ''POST'' ''/config/publish'' (Some (JObj
     [(''message'', JStr (pub_message c)),
      (''expectedResourceVersion'',
        js_coalesce (js_get_opt (query_data (draft c)) ''resourceVersion'') (JStr []))]))"

text \<open>The three mutations: start, and settle with the result of their function.\<close>

definition save_start :: "config_page \<Rightarrow> config_page" where "save_start c = c\<lparr>save := MPending\<rparr>"
definition validate_start :: "config_page \<Rightarrow> config_page" where "validate_start c = c\<lparr>validate := MPending\<rparr>"
definition publish_start :: "config_page \<Rightarrow> config_page" where "publish_start c = c\<lparr>publish := MPending\<rparr>"

definition save_settle :: "js_error + jsval \<Rightarrow> config_page \<Rightarrow> config_page" where
  "save_settle r c = c\<lparr>save := (case r of Inl e \<Rightarrow> MError e | Inr _ \<Rightarrow> MSuccess)\<rparr>"

definition validate_settle :: "js_error + jsval \<Rightarrow> config_page \<Rightarrow> config_page" where
  "validate_settle r c = (case r of Inl e \<Rightarrow> c\<lparr>validate := MError e\<rparr>
     | Inr v \<Rightarrow> c\<lparr>validate := MSuccess, validation := v\<rparr>)"

definition publish_settle :: "js_error + jsval \<Rightarrow> config_page \<Rightarrow> config_page" where
  "publish_settle r c = (case r of Inl e \<Rightarrow> c\<lparr>publish := MError e\<rparr>
     | Inr _ \<Rightarrow> c\<lparr>publish := MSuccess, pub_message := []\<rparr>)"

section \<open>Rendering\<close>

definition errorMessage :: "js_error option \<Rightarrow> string" where
  "errorMessage e = (case e of None \<Rightarrow> ''Request failed''
     | Some (ManagementAPIError x) \<Rightarrow> code x @ '': '' @ message x
     | Some (NativeError m) \<Rightarrow> m)"

text \<open>\<open>`${item.stage}: ${item.message}`\<close>\<close>

definition diagnostic_text :: "jsval \<Rightarrow> string option" where
  "diagnostic_text item =
     do { stage \<leftarrow> js_get item ''stage''; msg \<leftarrow> js_get item ''message'';
          Some (js_string stage @ '': '' @ js_string msg) }"

definition ValidationStrip :: "jsval \<Rightarrow> view option" where
  "ValidationStrip result =
     do { good \<leftarrow> js_get result ''ok'';
          results \<leftarrow> js_get result ''results'';
          len \<leftarrow> js_get results ''length'';
          text \<leftarrow> (if js_truthy len
                   then do { xs \<leftarrow> js_array results; ts \<leftarrow> those (map diagnostic_text xs);
                             Some (join_with ('' '' @ middle_dot @ '' '') ts) }
                   else Some (''IR '' @ js_string (js_coalesce (js_get_opt result ''irVersion'') (JStr ''ready''))));
          mode \<leftarrow> js_child (js_get_opt result ''mode'');
          Some (Panel [El ''p'' [] [Txt (if js_truthy good then ''Draft compiles cleanly''
                          else ''Validation found blocking diagnostics'')],
                       El ''p'' [] [Txt text],
                       Badge (if js_truthy good then tone_healthy else tone_danger) mode]) }"

definition publish_disabled :: "config_page \<Rightarrow> jsval \<Rightarrow> bool" where
  "publish_disabled c af \<longleftrightarrow> changed c af \<or> js_get_opt (validation c) ''ok'' \<noteq> JBool True"

definition validate_disabled :: "config_page \<Rightarrow> jsval \<Rightarrow> bool" where
  "validate_disabled c af \<longleftrightarrow> mutation_pending (validate c) \<or> changed c af"

definition save_disabled :: "config_page \<Rightarrow> jsval \<Rightarrow> bool" where
  "save_disabled c af \<longleftrightarrow> \<not> changed c af \<or> mutation_pending (save c)"

definition confirm_disabled :: "config_page \<Rightarrow> bool" where
  "confirm_disabled c \<longleftrightarrow> mutation_pending (publish c) \<or> js_blank (pub_message c)"

definition PublishDialog :: "config_page \<Rightarrow> jsval \<Rightarrow> view" where
  "PublishDialog c af =
     El ''dialog-root'' [] [Button (publish_disabled c af) [] [Txt ''Review & publish''],
       DialogContent ''Publish this draft''
         (Some ''The compiled IR will be applied to xDS, then held until Envoy confirms the observed version.'')
         ([El ''p'' [] [Txt ''Preflight''],
           El ''li'' [] [Txt ''Draft saved at current resource version''],
           El ''li'' [] [Txt ''Compile validation succeeded''],
           El ''li'' [] [Txt ''Envoy confirmation follows delivery''],
           Field ''Change message''
             (Some ''Describe operator intent; this is stored with the immutable version.'')
             [Input [(''value'', pub_message c), (''maxLength'', ''500'')]]] @
          (case mutation_error (publish c) of None \<Rightarrow> []
             | Some e \<Rightarrow> [El ''p'' [(''role'', ''alert'')] [Txt (errorMessage (Some e))]]) @
          [Button (confirm_disabled c) [(''onClick'', ''publish'')]
            [Txt (if mutation_pending (publish c) then ''Publishing'' @ ellipsis else ''Publish to Envoy'')]])]"

definition file_button :: "jsval \<Rightarrow> jsval \<Rightarrow> view option" where
  "file_button af file =
     do { path \<leftarrow> js_get file ''path''; s \<leftarrow> js_text path;
          Some (El ''button'' (flag ''selected'' (path = js_get_opt af ''path''))
                 [Txt (replace_first ''config.d/'' [] s)]) }"

definition kind_badges :: "jsval \<Rightarrow> view list option" where
  "kind_badges items =
     do { xs \<leftarrow> js_array items; kinds \<leftarrow> those (map (\<lambda>item. js_get item ''kind'') xs);
          those (map (\<lambda>k. map_option (Badge tone_neutral) (js_child k)) (js_unique kinds)) }"

definition config_alert :: "config_page \<Rightarrow> view list" where
  "config_alert c =
     (if mutation_error (save c) \<noteq> None \<or> mutation_error (validate c) \<noteq> None
      then [El ''div'' [(''role'', ''alert'')] [Txt (errorMessage
             (case mutation_error (save c) of Some e \<Rightarrow> Some e | None \<Rightarrow> mutation_error (validate c)))]]
      else [])"

definition config_workspace :: "config_page \<Rightarrow> jsval \<Rightarrow> jsval \<Rightarrow> jsval \<Rightarrow> view option" where
  "config_workspace c af d obj =
     do { files \<leftarrow> js_get d ''files''; fs \<leftarrow> js_array files;
          buttons \<leftarrow> those (map (file_button af) fs);
          items \<leftarrow> js_get obj ''items''; kinds \<leftarrow> kind_badges items;
          path \<leftarrow> js_child (js_coalesce (js_get_opt af ''path'') (JStr ''No source file''));
          Some (El ''div'' [] ([El ''aside'' [] (buttons @ kinds), El ''p'' [] path,
             Button (save_disabled c af) [(''onClick'', ''save'')]
               [Txt (if mutation_pending (save c) then ''Saving'' @ ellipsis else ''Save draft'')]] @
            [if js_truthy af
             then El ''CodeEditor'' [(''value'', js_string (content c)), (''language'', ''yaml'')] []
             else El ''p'' [] [Txt ''No source files yet.'']])) }"

definition config_badges :: "jsval \<Rightarrow> jsval \<Rightarrow> view list option" where
  "config_badges d obj =
     do { src \<leftarrow> js_child (js_get_opt d ''sourceType'');
          files \<leftarrow> js_get d ''files''; n \<leftarrow> js_get files ''length''; len \<leftarrow> js_child n;
          t \<leftarrow> js_get obj ''total''; total \<leftarrow> js_child t;
          rv \<leftarrow> js_get d ''resourceVersion''; s \<leftarrow> js_text rv;
          Some [Badge tone_neutral src, Badge tone_neutral (len @ [Txt '' files'']),
                Badge tone_neutral (total @ [Txt '' objects'']),
                El ''span'' [(''title'', s)] [Txt (''rv '' @ take 12 s)]] }"

definition ConfigurationPage :: "config_page \<Rightarrow> view option" where
  "ConfigurationPage c =
     do { af \<leftarrow> activeFile c;
          if isPending (draft c) \<or> isPending (objects c) then Some (LoadingBlock ''Loading filesystem draft'')
          else if isError (draft c) \<or> isError (objects c)
          then Some (ErrorBlock (first_error_message [query_error (draft c), query_error (objects c)]
                 ''Configuration could not be loaded.'') (Some ''draft.refetch, objects.refetch''))
          else do {
            badges \<leftarrow> config_badges (query_data (draft c)) (query_data (objects c));
            strip \<leftarrow> (if js_truthy (validation c) then map_option (\<lambda>v. [v]) (ValidationStrip (validation c))
                     else Some []);
            work \<leftarrow> config_workspace c af (query_data (draft c)) (query_data (objects c));
            Some (El ''div'' [] ([PageHeading ''Configuration / filesystem truth'' ''Shape the gateway.''
               ''Edit the complete source without hiding advanced fields. Save, validate, and publish remain separate decisions.''
               (Some (El ''div'' [] [Button (validate_disabled c af) [(''onClick'', ''validate'')] [Txt ''Validate''],
                                  PublishDialog c af]))] @
              badges @ config_alert c @ strip @ [work])) } }"

section \<open>Shapes of typed data\<close>

lemma draft_file_shape:
  assumes "conforms schemas_DraftFile f"
  obtains ps p t where "f = JObj ps" and "map_of ps ''path'' = Some (JStr p)"
    and "map_of ps ''content'' = Some (JStr t)"
  using assms by (auto simp: schemas_DraftFile_def split: jsval.splits option.splits)

lemma draft_shape:
  assumes "conforms schemas_Draft d"
  obtains ps fs rv src where "d = JObj ps" and "map_of ps ''files'' = Some (JArr fs)"
    and "\<forall>f \<in> set fs. conforms schemas_DraftFile f" and "map_of ps ''resourceVersion'' = Some (JStr rv)"
    and "map_of ps ''sourceType'' = Some (JStr src)" and "src \<in> {''protocol'', ''native''}"
proof -
  from assms obtain ps where d: "d = JObj ps"
    and fs: "conforms_fields [req ''sourceType'' (TEnum [''protocol'', ''native'']),
      req ''resourceVersion'' TString, opt ''updatedAt'' (TUnion [TString, TNull]),
      req ''files'' (TArray schemas_DraftFile)] ps"
    unfolding schemas_Draft_def by (rule conforms_object_E)
  then obtain a b v where "map_of ps ''sourceType'' = Some a" "conforms (TEnum [''protocol'', ''native'']) a"
    "map_of ps ''resourceVersion'' = Some b" "conforms TString b"
    "map_of ps ''files'' = Some v" "conforms (TArray schemas_DraftFile) v"
    by (auto simp del: conforms.simps split: option.splits)
  then show ?thesis
    using d that unfolding conforms_TEnum_iff conforms_TArray_iff by auto
qed

lemma object_list_shape:
  assumes "conforms schemas_ObjectList v"
  obtains ps xs n where "v = JObj ps" and "map_of ps ''items'' = Some (JArr xs)"
    and "\<forall>x \<in> set xs. conforms schemas_ConfigObject x" and "map_of ps ''total'' = Some (JNum n)"
proof -
  from assms obtain ps where "v = JObj ps"
    and "conforms_fields [req ''items'' (TArray schemas_ConfigObject), req ''total'' TNumber,
      req ''resourceVersion'' TString] ps"
    unfolding schemas_ObjectList_def by (rule conforms_object_E)
  moreover from this obtain a b where "map_of ps ''items'' = Some a" "conforms (TArray schemas_ConfigObject) a"
    "map_of ps ''total'' = Some b" "conforms TNumber b"
    by (auto simp del: conforms.simps split: option.splits)
  ultimately show ?thesis using that unfolding conforms_TArray_iff by auto
qed

lemma object_kind:
  assumes "conforms schemas_ConfigObject x"
  shows "\<exists>k. js_get x ''kind'' = Some (JStr k)"
proof -
  have "\<exists>w. js_get x ''kind'' = Some w \<and> conforms schemas_ConfigKind w"
    using assms unfolding schemas_ConfigObject_def by (rule conforms_required_get) simp
  then show ?thesis unfolding schemas_ConfigKind_def conforms_TEnum_iff by blast
qed

lemma diagnostic_text_total:
  assumes "conforms schemas_Diagnostic x"
  shows "\<exists>t. diagnostic_text x = Some t"
  using conforms_required_get [OF assms [unfolded schemas_Diagnostic_def], of "''stage''" TString]
    conforms_required_get [OF assms [unfolded schemas_Diagnostic_def], of "''message''" TString]
  by (auto simp: diagnostic_text_def simp del: conforms.simps)

section \<open>Rendering typed data\<close>

lemma find_path_total:
  "\<forall>f \<in> set fs. \<exists>q. js_get f ''path'' = Some q \<Longrightarrow> \<exists>r. find_path p fs = Some r"
  by (induction fs) auto

lemma typed_paths:
  "\<forall>f \<in> set fs. conforms schemas_DraftFile f \<Longrightarrow> \<forall>f \<in> set fs. \<exists>q. js_get f ''path'' = Some q"
  by (force elim!: draft_file_shape)

lemma activeFile_total:
  assumes "query_typed schemas_Draft (draft c)"
  shows "\<exists>af. activeFile c = Some af"
proof (cases "js_is_nullish (query_data (draft c))")
  case False
  then have "conforms schemas_Draft (query_data (draft c))"
    using assms by (cases "draft c") (auto simp: query_typed_def js_is_nullish_def)
  then obtain ps fs where d: "query_data (draft c) = JObj ps" "map_of ps ''files'' = Some (JArr fs)"
    "\<forall>f \<in> set fs. conforms schemas_DraftFile f"
    by (rule draft_shape)
  from find_path_total [OF typed_paths [OF d(3)]] obtain r where "find_path (activePath c) fs = Some r" ..
  with d show ?thesis by (simp add: activeFile_def js_array_def js_is_nullish_def)
qed (simp add: activeFile_def)

lemma find_path_in: "find_path p fs = Some r \<Longrightarrow> r = JUndefined \<or> r \<in> set fs \<and> js_get r ''path'' = Some p"
  by (induction fs) (auto split: if_splits bind_splits)

lemma activeFile_in:
  assumes "activeFile c = Some af" and "draft c = QSuccess (JObj ps)" and "map_of ps ''files'' = Some (JArr fs)"
  shows "af = JUndefined \<or> af \<in> set fs"
  using assms by (auto simp: activeFile_def js_array_def js_is_nullish_def js_coalesce_def
      split: bind_splits if_splits list.splits dest!: find_path_in)

lemma ValidationStrip_total:
  assumes "conforms schemas_ValidationResult v"
  shows "\<exists>w. ValidationStrip v = Some w"
proof -
  note T = assms [unfolded schemas_ValidationResult_def]
  obtain good where good: "js_get v ''ok'' = Some good"
    using conforms_required_get [OF T, of "''ok''" TBoolean] by auto
  obtain m where mode: "js_get v ''mode'' = Some (JStr m)"
    using conforms_required_get [OF T, of "''mode''" "TEnum [''xds'', ''static'']"]
    unfolding conforms_TEnum_iff by auto
  obtain r where r: "js_get v ''results'' = Some r" "conforms (TArray schemas_Diagnostic) r"
    using conforms_required_get [OF T, of "''results''" "TArray schemas_Diagnostic"] by auto
  then obtain xs where xs: "r = JArr xs" "\<forall>x \<in> set xs. conforms schemas_Diagnostic x"
    by (auto elim: array_of_typed simp del: conforms.simps)
  then obtain ts where "those (map diagnostic_text xs) = Some ts"
    using those_map_total diagnostic_text_total by metis
  then show ?thesis
    using good mode r xs by (simp add: ValidationStrip_def js_array_def js_get_opt_def)
qed

lemma config_badges_total:
  assumes "conforms schemas_Draft d" and "conforms schemas_ObjectList obj"
  shows "\<exists>bs. config_badges d obj = Some bs"
  using assms by (auto elim!: draft_shape object_list_shape
      simp: config_badges_def js_text_def js_get_opt_def simp del: conforms.simps)

lemma kind_badges_total:
  assumes "\<forall>x \<in> set xs. conforms schemas_ConfigObject x"
  shows "\<exists>bs. kind_badges (JArr xs) = Some bs"
proof -
  have k: "\<forall>x \<in> set xs. \<exists>k. js_get x ''kind'' = Some (JStr k)"
    using assms object_kind by blast
  then obtain ks where ks: "those (map (\<lambda>x. js_get x ''kind'') xs) = Some ks"
    using those_map_total [of xs "\<lambda>x. js_get x ''kind''"] by blast
  have "\<forall>k \<in> set (js_unique ks). \<exists>v. map_option (Badge tone_neutral) (js_child k) = Some v"
  proof
    fix k assume "k \<in> set (js_unique ks)"
    then have "k \<in> set ks" by (simp add: js_unique_def)
    then obtain x where "x \<in> set xs" "js_get x ''kind'' = Some k"
      using list_all2_in_right [OF those_map_SomeD [OF ks]] by blast
    with k show "\<exists>v. map_option (Badge tone_neutral) (js_child k) = Some v" by fastforce
  qed
  from those_map_total [OF this] show ?thesis
    by (simp add: kind_badges_def js_array_def ks)
qed

lemma config_workspace_total:
  assumes "query_typed schemas_Draft (draft c)" and "activeFile c = Some af"
    and d: "conforms schemas_Draft d" "draft c = QSuccess d" and "conforms schemas_ObjectList obj"
  shows "\<exists>w. config_workspace c af d obj = Some w"
proof -
  from d obtain ps fs where f: "d = JObj ps" "map_of ps ''files'' = Some (JArr fs)"
    "\<forall>f \<in> set fs. conforms schemas_DraftFile f" by (auto elim: draft_shape)
  from assms(5) obtain os xs where o: "obj = JObj os" "map_of os ''items'' = Some (JArr xs)"
    "\<forall>x \<in> set xs. conforms schemas_ConfigObject x" by (auto elim: object_list_shape)
  from kind_badges_total [OF o(3)] obtain ks where ks: "kind_badges (JArr xs) = Some ks" ..
  have "\<forall>f \<in> set fs. \<exists>v. file_button af f = Some v"
    using f(3) by (force elim!: draft_file_shape simp: file_button_def js_text_def)
  from those_map_total [OF this] obtain bs where bs: "those (map (file_button af) fs) = Some bs" ..
  have "\<exists>p. js_child (js_coalesce (js_get_opt af ''path'') (JStr ''No source file'')) = Some p"
  proof (cases "af = JUndefined")
    case False
    then have "af \<in> set fs"
      using assms(2) f d(2) activeFile_in by fastforce
    with f(3) show ?thesis by (auto elim!: draft_file_shape simp: js_get_opt_def js_coalesce_def)
  qed (simp add: js_get_opt_def js_coalesce_def js_is_nullish_def)
  then show ?thesis
    using f o ks bs by (auto simp: config_workspace_def js_array_def)
qed

lemma save_operation:
  "call_operation (mutating ''PUT'' ''/config/draft'' None) = Some operations_replaceConfigDraft"
  by code_simp

text \<open>File \<open>g\<close> is file \<open>f\<close> with the text of the path \<open>q\<close> replaced.\<close>

definition edited :: "string \<Rightarrow> string \<Rightarrow> jsval \<Rightarrow> jsval \<Rightarrow> bool" where
  "edited q text f g \<longleftrightarrow> (\<exists>p t. js_get f ''path'' = Some (JStr p) \<and> js_get f ''content'' = Some (JStr t) \<and>
     js_get g ''path'' = Some (JStr p) \<and> js_get g ''content'' = Some (JStr (if p = q then text else t)))"

lemma put_content_typed:
  assumes "conforms schemas_DraftFile f"
  shows "\<exists>g. put_content (JStr q) (JStr text) f = Some g \<and> conforms schemas_DraftFile g \<and> edited q text f g"
  using assms
  by (rule draft_file_shape)
     (auto simp: put_content_def js_spread_put_def map_of_obj_put schemas_DraftFile_def edited_def)

lemma those_map_relate:
  "\<forall>x \<in> set xs. \<exists>y. f x = Some y \<and> Q x y \<Longrightarrow> \<exists>ys. those (map f xs) = Some ys \<and> list_all2 Q xs ys"
  by (induction xs) fastforce+

section \<open>Properties\<close>

text \<open>
  C32: with draft, object list and validation result of the declared types, the page renders in
  every state of its queries, mutations and fields: no property read, method call or child of the
  page throws.
\<close>

theorem configuration_page_renders:
  assumes "query_typed schemas_Draft (draft c)" and "query_typed schemas_ObjectList (objects c)"
    and "validation c = JNull \<or> conforms schemas_ValidationResult (validation c)"
  shows "\<exists>v. ConfigurationPage c = Some v"
proof -
  obtain af where af: "activeFile c = Some af"
    using activeFile_total [OF assms(1)] ..
  show ?thesis
  proof (cases "isPending (draft c) \<or> isPending (objects c) \<or> isError (draft c) \<or> isError (objects c)")
    case False
    then obtain d obj where q: "draft c = QSuccess d" "objects c = QSuccess obj"
      using query_settled by blast
    then have T: "conforms schemas_Draft d" "conforms schemas_ObjectList obj"
      using assms(1,2) by (simp_all add: query_typed_def)
    obtain bs where "config_badges d obj = Some bs" using config_badges_total [OF T] ..
    moreover obtain w where "config_workspace c af d obj = Some w"
      using config_workspace_total [OF assms(1) af T(1) q(1) T(2)] ..
    moreover have "\<exists>s. (if js_truthy (validation c)
        then map_option (\<lambda>v. [v]) (ValidationStrip (validation c)) else Some []) = Some s"
      using assms(3) ValidationStrip_total by fastforce
    ultimately show ?thesis using q af by (auto simp: ConfigurationPage_def)
  qed (use af in \<open>auto simp: ConfigurationPage_def\<close>)
qed

text \<open>
  Saving sends the whole draft with exactly the selected file changed: the request conforms
  to the contract, carries the resource version the draft was read at, and lists the files of
  the draft in order, each with its path and content, except that the files of the selected path
  have the text of the editor.
\<close>

theorem save_changes_selected_file_only:
  assumes "draft c = QSuccess d" and "conforms schemas_Draft d" and "content c = JStr text"
    and "activeFile c = Some af" and "js_get af ''path'' = Some (JStr q)"
  shows "\<exists>call fs ys rv. save_call c = Some (Some call) \<and> call_conforms call \<and>
     js_get d ''files'' = Some (JArr fs) \<and> js_get d ''resourceVersion'' = Some (JStr rv) \<and>
     map_option (\<lambda>b. js_get b ''files'') (call_body call) = Some (Some (JArr ys)) \<and>
     map_option (\<lambda>b. js_get b ''expectedResourceVersion'') (call_body call) = Some (Some (JStr rv)) \<and>
     list_all2 (edited q text) fs ys"
proof -
  from assms(2) obtain ps fs rv src where d: "d = JObj ps" "map_of ps ''files'' = Some (JArr fs)"
    "\<forall>f \<in> set fs. conforms schemas_DraftFile f" "map_of ps ''resourceVersion'' = Some (JStr rv)"
    "map_of ps ''sourceType'' = Some (JStr src)" "src \<in> {''protocol'', ''native''}" by (rule draft_shape)
  have "af \<noteq> JUndefined" using assms(5) by auto
  with activeFile_in [OF assms(4)] assms(1) d have "af \<in> set fs" by blast
  with d(3) have truthy: "js_truthy af" by (auto elim!: draft_file_shape)
  let ?Q = "\<lambda>f g. conforms schemas_DraftFile g \<and> edited q text f g"
  have "\<forall>f \<in> set fs. \<exists>g. put_content (JStr q) (JStr text) f = Some g \<and> ?Q f g"
    using d(3) put_content_typed by simp
  from those_map_relate [OF this] obtain ys where
    ys: "those (map (put_content (JStr q) (JStr text)) fs) = Some ys" "list_all2 ?Q fs ys"
    by (elim exE conjE)
  let ?b = "JObj [(''sourceType'', JStr src), (''expectedResourceVersion'', JStr rv), (''files'', JArr ys)]"
  have "list_all (conforms schemas_DraftFile) ys"
    using list_all2_in_right [OF ys(2)] by (auto simp: list_all_iff)
  then have "conforms schemas_ReplaceDraftRequest ?b"
    using d(6) by (auto simp: schemas_ReplaceDraftRequest_def)
  then have "call_conforms (mutating ''PUT'' ''/config/draft'' (Some ?b))"
    by (intro call_conforms_mutating [OF save_operation, where T = schemas_ReplaceDraftRequest])
       (simp_all add: operations_replaceConfigDraft_def)
  moreover have "save_call c = Some (Some (mutating ''PUT'' ''/config/draft'' (Some ?b)))"
    using assms(1,3,4,5) d ys(1) truthy by (simp add: save_call_def js_array_def js_get_opt_def Let_def)
  moreover have "list_all2 (edited q text) fs ys"
    using ys(2) by (rule list_all2_mono) simp
  ultimately show ?thesis using d(1,2,4) by (auto simp: mutating_def)
qed

text \<open>A page that shows a draft of two files and has the first one selected.\<close>

definition demo_draft :: "string \<Rightarrow> string \<Rightarrow> jsval" where
  "demo_draft rv text = JObj [(''sourceType'', JStr ''protocol''), (''resourceVersion'', JStr rv),
     (''files'', JArr [JObj [(''path'', JStr ''config.d/a.yaml''), (''content'', JStr text)],
                   JObj [(''path'', JStr ''config.d/b.yaml''), (''content'', JStr ''b: 1'')]])]"

definition demo_page :: config_page where
  "demo_page = \<lparr>draft = QSuccess (demo_draft ''rv1'' ''a: 1''),
     objects = QSuccess (JObj [(''items'', JArr []), (''total'', JNum 0), (''resourceVersion'', JStr ''rv1'')]),
     save = MIdle, validate = MIdle, publish = MIdle, activePath = JStr ''config.d/a.yaml'',
     content = JStr ''a: 2'', validation = JNull, pub_message = [],
     deps = Some (JStr ''config.d/a.yaml'', JStr ''a: 1'')\<rparr>"

lemma demo_page_types:
  "query_typed schemas_Draft (draft demo_page)" "query_typed schemas_ObjectList (objects demo_page)"
  "validation demo_page = JNull \<or> conforms schemas_ValidationResult (validation demo_page)"
  by code_simp+

theorem configuration_page_renders_witness: "\<exists>v. ConfigurationPage demo_page = Some v"
  by (rule configuration_page_renders [OF demo_page_types])

theorem save_changes_selected_file_only_witness:
  "\<exists>call. save_call demo_page = Some (Some call) \<and> call_conforms call"
proof -
  let ?af = "JObj [(''path'', JStr ''config.d/a.yaml''), (''content'', JStr ''a: 1'')]"
  have "draft demo_page = QSuccess (demo_draft ''rv1'' ''a: 1'')" "content demo_page = JStr ''a: 2''"
    by (simp_all add: demo_page_def)
  moreover have "conforms schemas_Draft (demo_draft ''rv1'' ''a: 1'')" by code_simp
  moreover have "activeFile demo_page = Some ?af" by code_simp
  ultimately show ?thesis
    using save_changes_selected_file_only [of demo_page "demo_draft ''rv1'' ''a: 1''" "''a: 2''" ?af "''config.d/a.yaml''"]
    by (simp del: conforms.simps) blast
qed

subsection \<open>The editor and the selected file\<close>

lemma find_path_first: "find_path p (x # xs) = Some r \<Longrightarrow> find_path (js_get_opt x ''path'') (x # xs) = Some x"
  by (auto simp: js_get_opt_def split: bind_splits)

lemma activeFile_select:
  assumes "activeFile c = Some af" and "js_truthy af"
    and "draft c' = draft c" and "activePath c' = js_get_opt af ''path''"
  shows "activeFile c' = Some af"
proof -
  have "\<not> js_is_nullish (query_data (draft c))"
    using assms(1,2) by (auto simp: activeFile_def)
  with assms(1) obtain files xs hit where f: "js_get (query_data (draft c)) ''files'' = Some files"
    "js_array files = Some xs" "find_path (activePath c) xs = Some hit"
    "af = js_coalesce hit (case xs of [] \<Rightarrow> JUndefined | x # _ \<Rightarrow> x)"
    by (auto simp: activeFile_def split: bind_splits)
  have "find_path (js_get_opt af ''path'') xs = Some af"
  proof (cases "hit = JUndefined")
    case True
    then show ?thesis using f assms(2) find_path_first
      by (cases xs) (auto simp: js_coalesce_def js_is_nullish_def)
  next
    case False
    then have "js_get hit ''path'' = Some (activePath c)" using find_path_in [OF f(3)] by auto
    moreover from this have "af = hit" using f(4) by (cases hit) (auto simp: js_coalesce_def js_is_nullish_def)
    ultimately show ?thesis using f(3) by (simp add: js_get_opt_def)
  qed
  moreover have "\<not> js_is_nullish af" using assms(2) by (auto simp: js_is_nullish_def)
  ultimately show ?thesis
    using f(1,2) assms(3,4) \<open>\<not> js_is_nullish (query_data (draft c))\<close> by (simp add: activeFile_def js_coalesce_def)
qed

lemma activeFile_cong:
  "draft c' = draft c \<Longrightarrow> activePath c' = activePath c \<Longrightarrow> activeFile c' = activeFile c"
  by (simp add: activeFile_def)

text \<open>
  The effect keeps the editor on the selected file and settles after one run.  When the
  path or the content of the selected file has changed since the last run, the editor afterwards
  shows the stored text with no pending change.  Otherwise, whatever has been typed stays.
\<close>

theorem editor_tracks_selected_file:
  assumes "run_effect c = Some c'"
  shows "run_effect c' = Some c' \<and> activeFile c' = activeFile c \<and>
     run_effect (edit text c') = Some (edit text c') \<and>
     (\<exists>af. activeFile c' = Some af \<and> (deps c \<noteq> Some (effect_deps af) \<longrightarrow> \<not> changed c' af) \<and>
        (deps c = Some (effect_deps af) \<longrightarrow> c' = c))"
proof -
  obtain af where af: "activeFile c = Some af"
    using assms by (auto simp: run_effect_def split: bind_splits)
  have c': "c' = (if deps c = Some (effect_deps af) then c
      else if js_truthy af then c\<lparr>activePath := js_get_opt af ''path'', content := js_get_opt af ''content'',
                       deps := Some (effect_deps af)\<rparr>
      else c\<lparr>deps := Some (effect_deps af)\<rparr>)"
    using assms af by (simp add: run_effect_def)
  have "activeFile c' = Some af"
  proof (cases "js_truthy af \<and> deps c \<noteq> Some (effect_deps af)")
    case True
    then show ?thesis using c' by (intro activeFile_select [OF af]) auto
  next
    case False
    then show ?thesis using c' af activeFile_cong [of c' c] by (auto split: if_splits)
  qed
  moreover from this have "activeFile (edit text c') = Some af"
    using activeFile_cong [of "edit text c'" c'] by (simp add: edit_def)
  moreover have "deps c' = Some (effect_deps af)" "deps (edit text c') = Some (effect_deps af)"
    using c' by (auto simp: edit_def)
  ultimately show ?thesis
    using c' af by (auto simp: run_effect_def changed_def)
qed

theorem editor_tracks_selected_file_witness:
  "\<exists>c'. run_effect (select_file (JStr ''config.d/b.yaml'') demo_page) = Some c' \<and>
     content c' = JStr ''b: 1'' \<and> run_effect c' = Some c'"
proof -
  let ?c = "select_file (JStr ''config.d/b.yaml'') demo_page"
  let ?c' = "?c\<lparr>content := JStr ''b: 1'', deps := Some (JStr ''config.d/b.yaml'', JStr ''b: 1'')\<rparr>"
  have "run_effect ?c = Some ?c'"
    by code_simp
  with editor_tracks_selected_file [OF this] show ?thesis by auto
qed

subsection \<open>Validation and saving\<close>

text \<open>
  C40: nothing takes back a validation result when the draft changes.  After a validation that
  succeeded, the operator may edit the selected file, save it and have the new draft loaded: the
  publish button is enabled for the new draft, the preflight list still says that compile
  validation succeeded, and publishing sends the new resource version, which no validation has
  ever seen.
\<close>

theorem stale_validation_enables_publish:
  assumes "js_get_opt (validation c) ''ok'' = JBool True"
    and c2: "c2 = draft_result (QSuccess d2) (save_settle (Inr r) (save_start (edit text c)))"
    and "activeFile c2 = Some af" and "js_get_opt af ''content'' = JStr text"
    and "js_get_opt d2 ''resourceVersion'' = JStr rv2"
  shows "\<not> publish_disabled c2 af \<and> validation c2 = validation c \<and>
     ''Compile validation succeeded'' \<in> set (texts (PublishDialog c2 af)) \<and>
     map_option (\<lambda>b. js_get b ''expectedResourceVersion'') (call_body (publish_call c2)) = Some (Some (JStr rv2))"
  using assms by (simp add: publish_disabled_def changed_def draft_result_def save_settle_def save_start_def
      edit_def PublishDialog_def publish_call_def mutating_def js_coalesce_def js_is_nullish_def
      DialogContent_def)

theorem stale_validation_enables_publish_witness:
  "\<exists>c2 af. activeFile c2 = Some af \<and> \<not> publish_disabled c2 af \<and>
     query_data (draft c2) = demo_draft ''rv2'' ''broken''"
proof -
  let ?c = "demo_page\<lparr>validation := JObj [(''ok'', JBool True), (''mode'', JStr ''xds''), (''results'', JArr [])]\<rparr>"
  let ?c2 = "draft_result (QSuccess (demo_draft ''rv2'' ''broken'')) (save_settle (Inr JNull) (save_start (edit ''broken'' ?c)))"
  let ?af = "JObj [(''path'', JStr ''config.d/a.yaml''), (''content'', JStr ''broken'')]"
  have af: "activeFile ?c2 = Some ?af" by code_simp
  have "js_get_opt (validation ?c) ''ok'' = JBool True" "js_get_opt ?af ''content'' = JStr ''broken''"
    "js_get_opt (demo_draft ''rv2'' ''broken'') ''resourceVersion'' = JStr ''rv2''" by code_simp+
  from stale_validation_enables_publish [OF this(1) refl af this(2,3)]
  show ?thesis using af by (intro exI [of _ ?c2] exI [of _ ?af]) (simp add: draft_result_def)
qed

end
