(* ===== verification/StatusPages.thy ===== *)
theory StatusPages
  imports ConsoleKit
begin

text \<open>
  The three pages that only read: the overview (\<open>web/src/pages/overview-page.tsx\<close>), the runtime
  state (\<open>web/src/pages/runtime-page.tsx\<close>) and the system page (\<open>web/src/pages/system-page.tsx\<close>).
  Their responses are typed as objects with unknown fields, so every field is read through
  \<open>String\<close>, \<open>asRecord\<close> or \<open>Array.isArray\<close>.  The formatting of times is a parameter, as in
  \<open>formatTime\<close>.
\<close>

section \<open>Reading unknown fields\<close>

text \<open>\<open>String(v.k ?? d)\<close>\<close>

definition field_text :: "jsval \<Rightarrow> string \<Rightarrow> jsval \<Rightarrow> string option" where
  "field_text v k dflt = map_option (\<lambda>w. js_string (js_coalesce w dflt)) (js_get v k)"

text \<open>\<open>v.k === true\<close>\<close>

definition field_true :: "jsval \<Rightarrow> string \<Rightarrow> bool option" where
  "field_true v k = map_option (\<lambda>w. w = JBool True) (js_get v k)"

text \<open>\<open>Array.isArray(v.k) ? v.k.length : 0\<close>\<close>

definition array_length :: "jsval \<Rightarrow> nat" where
  "array_length v = length (js_elems v)"

text \<open>
  \<open>Number(v)\<close>, \<open>None\<close> for \<open>NaN\<close>: on strings, the empty or blank string and decimal integers with
  an optional sign.  Fractions, exponents and other bases are left out, as in \<open>jsval\<close>.
\<close>

definition digits_value :: "string \<Rightarrow> int" where
  "digits_value s = foldl (\<lambda>n c. n * 10 + (int (of_char c) - 48)) 0 s"

definition string_number :: "string \<Rightarrow> int option" where
  "string_number s0 =
     (let blank = (\<lambda>c. js_blank [c]); s = rev (dropWhile blank (rev (dropWhile blank s0))) in
      case s of
        [] \<Rightarrow> Some 0
      | c # cs \<Rightarrow>
          if c = CHR ''-'' \<or> c = CHR ''+''
          then if cs \<noteq> [] \<and> list_all is_digit cs
               then Some (if c = CHR ''-'' then - digits_value cs else digits_value cs) else None
          else if list_all is_digit s then Some (digits_value s) else None)"

fun js_number :: "jsval \<Rightarrow> int option" where
  "js_number JUndefined = None"
| "js_number JNull = Some 0"
| "js_number (JBool b) = Some (if b then 1 else 0)"
| "js_number (JNum n) = Some n"
| "js_number v = string_number (js_string v)"

section \<open>Overview\<close>

definition SignalCell :: "string \<Rightarrow> string \<Rightarrow> string \<Rightarrow> tone \<Rightarrow> view" where
  "SignalCell label val meta accent =
     El ''div'' [] [El ''p'' [] [Txt label], El ''div'' [] [Txt val], El ''p'' [] [Txt meta],
       El ''i'' [(''accent'', tone_name accent)] []]"

definition Fact :: "string \<Rightarrow> string \<Rightarrow> view" where
  "Fact label val = El ''div'' [] [El ''p'' [] [Txt label], El ''p'' [] [Txt val]]"

definition QueueItem :: "bool \<Rightarrow> string \<Rightarrow> string \<Rightarrow> view" where
  "QueueItem done title detail =
     El ''div'' (flag ''done'' done) [El ''p'' [] [Txt title], El ''p'' [] [Txt detail]]"

definition summary_call :: api_call where "summary_call = GET ''/status/summary''"
definition config_status_call :: api_call where "config_status_call = GET ''/config/status''"

definition overview_signals :: "jsval \<Rightarrow> jsval \<Rightarrow> bool \<Rightarrow> view option" where
  "overview_signals summary delivery rdy =
     do { counts0 \<leftarrow> js_get summary ''counts'';
          let counts = asRecord counts0;
          readyStatus \<leftarrow> field_text summary ''readyStatus'' (JStr ''Unknown'');
          listeners \<leftarrow> field_text counts ''listeners'' (JNum 0);
          clusters \<leftarrow> field_text counts ''clusters'' (JNum 0);
          endpoints \<leftarrow> field_text counts ''endpoints'' (JNum 0);
          routes \<leftarrow> field_text counts ''routes'' (JNum 0);
          state \<leftarrow> field_text delivery ''state'' (JStr ''idle'');
          state0 \<leftarrow> js_get delivery ''state'';
          mode \<leftarrow> field_text delivery ''mode'' (JStr ''xds'');
          Some (El ''section'' []
            [SignalCell ''Data plane'' (if rdy then ''Ready'' else ''Not ready'') readyStatus
               (if rdy then tone_healthy else tone_warning),
             SignalCell ''Listeners'' listeners ''active resources'' tone_neutral,
             SignalCell ''Clusters'' clusters (endpoints @ '' endpoints'') tone_neutral,
             SignalCell ''Routes'' routes ''route configurations'' tone_neutral,
             SignalCell ''Delivery'' (replace_char (CHR ''_'') '' '' state) mode
               (if str_includes (js_string state0) ''confirm'' then tone_warning else tone_neutral)]) }"

definition overview_heartbeat :: "(string \<Rightarrow> string option) \<Rightarrow> jsval \<Rightarrow> bool \<Rightarrow> bool \<Rightarrow> view option" where
  "overview_heartbeat fmt summary rdy stale =
     do { envoy0 \<leftarrow> js_get summary ''envoy'';
          let envoy = asRecord envoy0;
          version \<leftarrow> field_text envoy ''version'' (JStr ''Unknown'');
          state \<leftarrow> field_text envoy ''state'' (JStr ''Unknown'');
          collected \<leftarrow> field_text summary ''collectedAt'' (JStr []);
          node \<leftarrow> field_text summary ''nodeId'' (JStr em_dash);
          Some (Panel [PanelHeader [El ''p'' [] [Txt ''Data-plane signal''], El ''h2'' [] [Txt ''Envoy heartbeat''],
               Badge (if stale then tone_warning else if rdy then tone_healthy else tone_danger)
                 [Txt (if stale then ''stale snapshot'' else if rdy then ''live'' else ''degraded'')]],
             Fact ''Envoy version'' version, Fact ''Server state'' state,
             Fact ''Collected'' (formatTime fmt (JStr collected)), Fact ''Node'' node]) }"

definition overview_queue :: "jsval \<Rightarrow> bool \<Rightarrow> view option" where
  "overview_queue delivery stale =
     do { state0 \<leftarrow> js_get delivery ''state'';
          let waiting = str_includes (js_string state0) ''confirm'';
          Some (Panel [PanelHeader [El ''p'' [] [Txt ''Next action''], El ''h2'' [] [Txt ''Operator queue'']],
             QueueItem (\<not> stale) (if stale then ''Envoy state is stale'' else ''State collection current'')
               (if stale then ''Check the admin endpoint before publishing.'' else ''No collector intervention required.''),
             QueueItem (\<not> waiting) (if waiting then ''Publish awaits confirmation'' else ''No publish in flight'')
               ''Review delivery state before the next change.'',
             QueueItem True ''Session protected'' ''Same-origin cookie and CSRF boundary active.'']) }"

definition OverviewPage :: "(string \<Rightarrow> string option) \<Rightarrow> query \<Rightarrow> query \<Rightarrow> view option" where
  "OverviewPage fmt summary config =
     (if isPending summary \<or> isPending config then Some (LoadingBlock ''Assembling operational picture'')
      else if isError summary \<or> isError config
      then Some (ErrorBlock (first_error_message [query_error summary, query_error config]
             ''Overview could not be loaded.'') (Some ''summary.refetch, config.refetch''))
      else do {
        delivery0 \<leftarrow> js_get (query_data config) ''delivery'';
        let delivery = asRecord delivery0;
        rdy \<leftarrow> field_true (query_data summary) ''ready'';
        stale \<leftarrow> field_true (query_data summary) ''stale'';
        signals \<leftarrow> overview_signals (query_data summary) delivery rdy;
        heartbeat \<leftarrow> overview_heartbeat fmt (query_data summary) rdy stale;
        queue \<leftarrow> overview_queue delivery stale;
        Some (El ''div'' [] [PageHeading ''Operational picture / live'' ''The edge, at a glance.''
           ''What Envoy is actually serving, what configuration is moving, and where attention is needed.''
           (Some (El ''a'' [(''to'', ''/configuration'')] [Txt ''Open configuration''])), signals, heartbeat, queue]) })"

section \<open>Runtime\<close>

record runtime_queries =
  summary_q :: query
  listeners_q :: query
  clusters_q :: query
  routes_q :: query
  certs_q :: query

definition all_queries :: "runtime_queries \<Rightarrow> query list" where
  "all_queries qs = [summary_q qs, listeners_q qs, clusters_q qs, routes_q qs, certs_q qs]"

definition runtime_calls :: "api_call list" where
  "runtime_calls = map GET [''/status/summary'', ''/status/listeners'', ''/status/clusters'', ''/status/routes'',
     ''/status/certs'']"

text \<open>Items of a resource list are records (\<open>asRecord\<close>), so their fields are read by \<open>js_get_opt\<close>.\<close>

definition item_text :: "jsval \<Rightarrow> string list \<Rightarrow> string \<Rightarrow> string" where
  "item_text item ks dflt = js_string (foldr (\<lambda>k d. js_coalesce (js_get_opt item k) d) ks (JStr dflt))"

definition Owner :: "jsval \<Rightarrow> view" where
  "Owner item =
     (let owner = asRecord (js_get_opt item ''owner'') in
      if js_truthy (js_get_opt owner ''name'')
      then Badge tone_neutral [Txt (js_string (js_get_opt owner ''kind'')), Txt ''/'',
             Txt (js_string (js_get_opt owner ''name''))]
      else El ''icon'' [] [])"

definition listener_row :: "jsval \<Rightarrow> view list" where
  "listener_row item = [El ''p'' [] [Txt (item_text item [''name''] ''unnamed'')],
     El ''p'' [] [Txt (item_text item [''address''] ''address not reported'')], Owner item]"

definition cluster_row :: "jsval \<Rightarrow> view list" where
  "cluster_row item = [El ''p'' [] [Txt (item_text item [''name''] ''unnamed'')],
     El ''p'' [] [Txt (string_of_nat (array_length (js_get_opt item ''endpoints''))), Txt '' endpoints''], Owner item]"

definition route_row :: "jsval \<Rightarrow> view list" where
  "route_row item = [El ''p'' [] [Txt (item_text item [''name''] ''unnamed'')],
     El ''p'' [] [Txt (string_of_nat (if js_is_array (js_get_opt item ''virtual_hosts'')
          then array_length (js_get_opt item ''virtual_hosts'')
          else array_length (js_get_opt item ''virtualHosts''))), Txt '' virtual hosts''], Owner item]"

definition days_left :: "jsval \<Rightarrow> jsval \<Rightarrow> jsval" where
  "days_left item dflt = js_coalesce (js_get_opt item ''days_left'') (js_coalesce (js_get_opt item ''daysLeft'') dflt)"

definition cert_row :: "jsval \<Rightarrow> view list" where
  "cert_row item = [El ''p'' [] [Txt (item_text item [''name'', ''subject''] ''certificate'')],
     El ''p'' [] [Txt (item_text item [''subject''] ''subject not reported'')],
     Badge (case js_number (days_left item (JNum 99)) of
         Some n \<Rightarrow> if n < 30 then tone_warning else tone_healthy | None \<Rightarrow> tone_healthy)
       [Txt (js_string (days_left item (JStr em_dash))), Txt '' days'']]"

definition ResourcePanel :: "string \<Rightarrow> jsval \<Rightarrow> (jsval \<Rightarrow> view list) \<Rightarrow> view" where
  "ResourcePanel title dat render =
     (let items = map asRecord (js_elems (js_get_opt dat ''items'')) in
      Panel (PanelHeader [El ''p'' [] [Txt ''Observed resources''], El ''h2'' [] [Txt title]] #
        (if items \<noteq> []
         then [El ''div'' [] (map (\<lambda>(i, item). El ''div''
                [(''key'', js_string (js_coalesce (js_get_opt item ''name'') (JNum (int i))))] (render item))
                (enumerate 0 items))]
         else [EmptyBlock (''No '' @ to_lower title) ''Envoy did not report any resources in this snapshot.''])))"

definition RuntimePage :: "(string \<Rightarrow> string option) \<Rightarrow> runtime_queries \<Rightarrow> view option" where
  "RuntimePage fmt qs =
     (if list_ex isPending (all_queries qs) then Some (LoadingBlock ''Reading Envoy admin state'')
      else case find isError (all_queries qs) of
        Some (QError e _) \<Rightarrow> Some (ErrorBlock (error_message e) (Some ''refetch all''))
      | _ \<Rightarrow>
        do { let summary = js_coalesce (query_data (summary_q qs)) (JObj []);
             stale \<leftarrow> field_true summary ''stale'';
             rdy \<leftarrow> field_true summary ''ready'';
             collected \<leftarrow> field_text summary ''collectedAt'' (JStr []);
             node \<leftarrow> field_text summary ''nodeId'' (JStr em_dash);
             envoy \<leftarrow> js_get summary ''envoy'';
             version \<leftarrow> field_text (asRecord envoy) ''version'' (JStr ''unknown'');
             Some (El ''div'' [] [PageHeading ''Runtime / observed state'' ''What Envoy sees.''
               ''Normalized read-only state from the local admin endpoint. Stale snapshots remain visible and are never presented as current.''
               (Some (Badge (if stale then tone_warning else if rdy then tone_healthy else tone_danger)
                  [Txt (if stale then ''stale'' else if rdy then ''ready'' else ''not ready'')])),
               El ''span'' [] [Txt ''Collected '', Txt (formatTime fmt (JStr collected))],
               El ''span'' [] [Txt ''node '', Txt node], El ''span'' [] [Txt ''Envoy '', Txt version],
               ResourcePanel ''Listeners'' (query_data (listeners_q qs)) listener_row,
               ResourcePanel ''Clusters'' (query_data (clusters_q qs)) cluster_row,
               ResourcePanel ''Routes'' (query_data (routes_q qs)) route_row,
               ResourcePanel ''Data-plane certificates'' (query_data (certs_q qs)) cert_row]) })"

section \<open>System\<close>

definition system_call :: api_call where "system_call = GET ''/system/info''"

definition SystemFact :: "string \<Rightarrow> string \<Rightarrow> view" where
  "SystemFact label val = El ''div'' [] [El ''p'' [] [Txt label], El ''p'' [] [Txt val]]"

definition SystemPage :: "query \<Rightarrow> view option" where
  "SystemPage sys =
     (case sys of
        QPending \<Rightarrow> Some (LoadingBlock ''Reading build information'')
      | QError e _ \<Rightarrow> Some (ErrorBlock (error_message e) (Some ''system.refetch''))
      | QSuccess d \<Rightarrow>
        do { envoy0 \<leftarrow> js_get d ''envoy'';
             let envoy = asRecord envoy0;
             let matrix = map js_string (js_elems (js_get_opt envoy ''validationMatrix''));
             version \<leftarrow> field_text d ''version'' (JStr ''dev'');
             goVersion \<leftarrow> field_text d ''goVersion'' (JStr ''unknown'');
             mode \<leftarrow> field_text d ''mode'' (JStr ''xds'');
             topology \<leftarrow> field_text d ''topology'' (JStr ''standalone'');
             Some (El ''div'' [] [PageHeading ''System / compatibility'' ''Know what is running.''
               ''Build identity, deployment topology, and the exact Envoy support window used by validation.'' None,
               Panel [SystemFact ''Version'' version, SystemFact ''Go runtime'' goVersion, SystemFact ''Delivery mode'' mode,
                 SystemFact ''Topology'' topology],
               Panel ([El ''p'' [] [Txt (item_text envoy [''version''] ''not connected'')],
                 El ''p'' [] [Txt ''1.'', Txt (item_text envoy [''supportedMinorMin''] em_dash), Txt en_dash, Txt ''1.'',
                   Txt (item_text envoy [''supportedMinorMax''] em_dash)]] @
                 map (\<lambda>v. Badge (if JStr v = js_get_opt envoy ''version'' then tone_healthy else tone_neutral) [Txt v]) matrix)]) })"

section \<open>Properties\<close>

lemma not_nullish_reads:
  assumes "\<not> js_is_nullish v"
  shows "\<exists>w. js_get v k = Some w" and "\<exists>t. field_text v k d = Some t" and "\<exists>b. field_true v k = Some b"
proof -
  from assms obtain w where "js_get v k = Some w" using js_get_None_iff [of v k] by auto
  then show "\<exists>w. js_get v k = Some w" "\<exists>t. field_text v k d = Some t" "\<exists>b. field_true v k = Some b"
    by (simp_all add: field_text_def field_true_def)
qed

lemma record_reads:
  shows "\<exists>w. js_get (asRecord v) k = Some w" and "\<exists>t. field_text (asRecord v) k d = Some t"
  using asRecord_get [of v k] by (auto simp: field_text_def)

lemma bind_total: "\<exists>x. a = Some x \<Longrightarrow> (\<And>x. a = Some x \<Longrightarrow> \<exists>y. f x = Some y) \<Longrightarrow> \<exists>y. Option.bind a f = Some y"
  by auto

lemma some_total: "\<exists>y. Some x = Some y"
  by simp

lemmas total_intros = bind_total record_reads some_total

lemma overview_parts:
  assumes "\<not> js_is_nullish s"
  shows "\<exists>v. overview_signals s (asRecord d) r = Some v" and "\<exists>v. overview_heartbeat fmt s r st = Some v"
    and "\<exists>v. overview_queue (asRecord d) st = Some v"
  unfolding overview_signals_def overview_heartbeat_def overview_queue_def Let_def
  by (intro total_intros not_nullish_reads [OF assms])+

lemma object_not_nullish: "conforms (TObject fs b) v \<Longrightarrow> \<not> js_is_nullish v"
  by (auto simp: js_is_nullish_def)

lemma overview_total:
  assumes q: "query_typed (TObject [] True) s" "query_typed (TObject [] True) c"
  shows "\<exists>v. OverviewPage fmt s c = Some v"
proof (cases "isPending s \<or> isPending c \<or> isError s \<or> isError c")
  case False
  then obtain a b where ab: "s = QSuccess a" "c = QSuccess b" using query_settled by blast
  with q have n: "\<not> js_is_nullish a" "\<not> js_is_nullish b"
    using object_not_nullish by (auto simp: query_typed_def simp del: conforms.simps)
  then show ?thesis
    using ab unfolding OverviewPage_def Let_def
    by (simp del: bind_eq_Some_conv)
       (intro total_intros not_nullish_reads [OF n(1)] not_nullish_reads [OF n(2)] overview_parts [OF n(1)])
qed (auto simp: OverviewPage_def)

text \<open>
  The pages that show untyped state never throw.  The runtime page renders for every data
  its five queries can hold, of whatever shape; the overview and the system page render whenever
  the data of their queries are objects, which is all the contract says of them.
\<close>

theorem status_pages_never_throw:
  "(\<exists>v. RuntimePage fmt qs = Some v) \<and>
   (query_typed (TObject [] True) s \<and> query_typed (TObject [] True) c \<longrightarrow> (\<exists>v. OverviewPage fmt s c = Some v)) \<and>
   (query_typed (TObject [] True) y \<longrightarrow> (\<exists>v. SystemPage y = Some v))"
proof (intro conjI impI)
  have ns: "\<not> js_is_nullish (js_coalesce x (JObj []))" for x
    by (simp add: js_coalesce_def js_is_nullish_def)
  have err: "find isError xs = Some q \<Longrightarrow> \<exists>e x. q = QError e x" for xs q
    by (induction xs) (auto split: if_splits elim: isError.elims)
  have "\<exists>v. (do { stale \<leftarrow> field_true (js_coalesce x (JObj [])) ''stale'';
             rdy \<leftarrow> field_true (js_coalesce x (JObj [])) ''ready'';
             collected \<leftarrow> field_text (js_coalesce x (JObj [])) ''collectedAt'' (JStr []);
             node \<leftarrow> field_text (js_coalesce x (JObj [])) ''nodeId'' (JStr em_dash);
             envoy \<leftarrow> js_get (js_coalesce x (JObj [])) ''envoy'';
             version \<leftarrow> field_text (asRecord envoy) ''version'' (JStr ''unknown'');
             Some (g stale rdy collected node version) }) = Some v" for x and g :: "_ \<Rightarrow> _ \<Rightarrow> _ \<Rightarrow> _ \<Rightarrow> _ \<Rightarrow> view"
    by (intro total_intros not_nullish_reads [OF ns])
  then show "\<exists>v. RuntimePage fmt qs = Some v"
    using err [of "all_queries qs"] by (fastforce simp: RuntimePage_def Let_def split: option.splits)
next
  assume "query_typed (TObject [] True) s \<and> query_typed (TObject [] True) c"
  then show "\<exists>v. OverviewPage fmt s c = Some v" using overview_total by blast
next
  assume q: "query_typed (TObject [] True) y"
  show "\<exists>v. SystemPage y = Some v"
  proof (cases y)
    case (QSuccess d)
    then have n: "\<not> js_is_nullish d" using q object_not_nullish by (auto simp: query_typed_def simp del: conforms.simps)
    show ?thesis unfolding QSuccess SystemPage_def Let_def query.case
      by (intro total_intros not_nullish_reads [OF n])
  qed (simp_all add: SystemPage_def)
qed

theorem status_pages_never_throw_witness:
  "\<exists>v. OverviewPage (\<lambda>_. None) (QSuccess (JObj [(''counts'', JStr ''broken'')])) (QSuccess (JObj [])) = Some v"
proof -
  have "query_typed (TObject [] True) (QSuccess (JObj [(''counts'', JStr ''broken'')]))"
    "query_typed (TObject [] True) (QSuccess (JObj []))" by (simp_all add: query_typed_def)
  then show ?thesis using status_pages_never_throw [of "\<lambda>_. None" _ _ _ QPending] by blast
qed

text \<open>
  A stale snapshot is never presented as live.  Whatever else the summary says, also when it
  says that the data plane is ready, the overview has no badge with the healthy tone and tells the
  operator that the state is stale, and the heading of the runtime page carries the warning badge.
\<close>

theorem stale_never_presented_as_live:
  assumes "js_get_opt s ''stale'' = JBool True"
  shows "(OverviewPage fmt (QSuccess s) (QSuccess c) = Some v \<longrightarrow>
            (\<forall>b \<in> set (elems ''span'' v). attr ''tone'' b \<noteq> Some ''healthy'') \<and>
            ''Envoy state is stale'' \<in> set (texts v)) \<and>
         (RuntimePage fmt \<lparr>summary_q = QSuccess s, listeners_q = QSuccess l, clusters_q = QSuccess k,
              routes_q = QSuccess r, certs_q = QSuccess x\<rparr> = Some w \<longrightarrow>
            (\<exists>h vs. w = El ''div'' [] (h # vs) \<and> attr ''tone'' (hd (elems ''span'' h)) = Some ''warning'' \<and>
              length (elems ''span'' h) = 1))"
proof -
  have st: "field_true s ''stale'' = Some True"
    using assms by (cases s) (auto simp: field_true_def js_get_opt_def split: option.splits)
  have "(\<forall>b \<in> set (elems ''span'' v). attr ''tone'' b \<noteq> Some ''healthy'') \<and>
      ''Envoy state is stale'' \<in> set (texts v)" if "OverviewPage fmt (QSuccess s) (QSuccess c) = Some v"
    using that st by (auto simp: OverviewPage_def overview_signals_def overview_heartbeat_def overview_queue_def
        kit_defs SignalCell_def Fact_def QueueItem_def attr_def Let_def split: bind_splits)
  moreover have "js_coalesce s (JObj []) = s"
    using assms by (cases s) (auto simp: js_coalesce_def js_is_nullish_def js_get_opt_def)
  then have "\<exists>h vs. w = El ''div'' [] (h # vs) \<and> attr ''tone'' (hd (elems ''span'' h)) = Some ''warning'' \<and>
      length (elems ''span'' h) = 1"
    if "RuntimePage fmt \<lparr>summary_q = QSuccess s, listeners_q = QSuccess l, clusters_q = QSuccess k,
              routes_q = QSuccess r, certs_q = QSuccess x\<rparr> = Some w"
    using that st by (auto simp: RuntimePage_def all_queries_def PageHeading_def Badge_def attr_def Let_def
        split: bind_splits)
  ultimately show ?thesis by blast
qed

theorem stale_never_presented_as_live_witness:
  "\<exists>v. OverviewPage (\<lambda>_. None) (QSuccess (JObj [(''stale'', JBool True), (''ready'', JBool True)])) (QSuccess (JObj [])) = Some v \<and>
     (\<forall>b \<in> set (elems ''span'' v). attr ''tone'' b \<noteq> Some ''healthy'')"
proof -
  let ?s = "JObj [(''stale'', JBool True), (''ready'', JBool True)]"
  have "js_get_opt ?s ''stale'' = JBool True" by (simp add: js_get_opt_def)
  moreover have "OverviewPage (\<lambda>_. None) (QSuccess ?s) (QSuccess (JObj [])) \<noteq> None" by code_simp
  ultimately show ?thesis using stale_never_presented_as_live [of ?s "\<lambda>_. None" "JObj []"] by blast
qed

end
