(* ===== verification/CertificatesPage.thy ===== *)
theory CertificatesPage
  imports ConsoleKit
begin

text \<open>
  The certificates page (\<open>web/src/pages/certificates-page.tsx\<close>): the list of managed certificates
  with their deletion, and the dialog that uploads a new pair.  Parsing and printing of dates and
  the clock are parameters.
\<close>

record cert_env =
  parse_date :: "string \<Rightarrow> int option"
  now_ms :: int
  fmt_time :: "string \<Rightarrow> string option"

section \<open>The list\<close>

text \<open>\<open>new Date(v).getTime()\<close>; \<open>None\<close> is \<open>NaN\<close>, which is not less than anything.\<close>

definition date_ms :: "cert_env \<Rightarrow> jsval \<Rightarrow> int option" where
  "date_ms env v = (case v of JNum n \<Rightarrow> Some n | _ \<Rightarrow> parse_date env (js_string v))"

definition expiring :: "cert_env \<Rightarrow> jsval \<Rightarrow> bool" where
  "expiring env notAfter =
     (case date_ms env (js_coalesce notAfter (JNum 0)) of
        Some t \<Rightarrow> t - now_ms env < 30 * 86400000 | None \<Rightarrow> False)"

text \<open>\<open>xs.join(", ")\<close>: a missing element joins as nothing.\<close>

definition js_join :: "string \<Rightarrow> jsval list \<Rightarrow> string" where
  "js_join sep xs = join_with sep (map (\<lambda>x. if js_is_nullish x then [] else js_string x) xs)"

definition delete_disabled :: "mutation \<Rightarrow> jsval list \<Rightarrow> bool" where
  "delete_disabled rm refs \<longleftrightarrow> length refs > 0 \<or> mutation_pending rm"

definition certificate_card :: "cert_env \<Rightarrow> mutation \<Rightarrow> jsval \<Rightarrow> view option" where
  "certificate_card env rm cert =
     do { name0 \<leftarrow> js_get cert ''name''; name \<leftarrow> js_child name0;
          subject0 \<leftarrow> js_get cert ''subject'';
          subject \<leftarrow> js_child (js_coalesce subject0 (JStr ''Subject unavailable''));
          notAfter \<leftarrow> js_get cert ''notAfter'';
          sans0 \<leftarrow> js_get cert ''sans''; sans \<leftarrow> js_array sans0;
          badges \<leftarrow> those (map (\<lambda>san. map_option (Badge tone_neutral) (js_child san)) (take 4 sans));
          refs0 \<leftarrow> js_get cert ''references''; refs \<leftarrow> js_array refs0;
          Some (Panel ([El ''i'' [(''accent'', if expiring env notAfter then ''signal'' else ''healthy'')] [],
            El ''p'' [] [Txt ''Managed certificate''], El ''h2'' [] name, El ''p'' [] subject] @ badges @
            (if length sans > 4 then [Badge tone_neutral [Txt ''+'', Txt (string_of_nat (length sans - 4))]] else []) @
            [El ''div'' [] [Txt ''Expires '', Txt (formatTime (fmt_time env) notAfter)],
             El ''div'' [] [Txt (if refs \<noteq> [] then js_join '', '' refs else ''Not referenced'')],
             Button (delete_disabled rm refs)
               [(''variant'', ''danger''), (''onClick'', ''remove:'' @ js_string name0),
                (''title'', if refs \<noteq> [] then ''Remove listener references before deletion'' else ''Delete certificate'')]
               [Txt ''Delete'']])) }"

definition certificates_call :: api_call where "certificates_call = GET ''/certs''"

definition remove_call :: "string \<Rightarrow> api_call" where
  "remove_call name = (mutating ''DELETE'' ''/certs/{name}'' None)\<lparr>call_pathParams := [(''name'', JStr name)]\<rparr>"

section \<open>The upload dialog\<close>

record upload =
  u_name :: string
  u_certificatePem :: string
  u_privateKeyPem :: string
  u_create :: mutation

definition create_call :: "upload \<Rightarrow> api_call" where
  "create_call u = mutating ''POST'' ''/certs'' (Some (JObj [(''name'', JStr (u_name u)),
     (''certificatePem'', JStr (u_certificatePem u)), (''privateKeyPem'', JStr (u_privateKeyPem u))]))"

definition create_settle :: "js_error + jsval \<Rightarrow> upload \<Rightarrow> upload" where
  "create_settle r u = (case r of Inl e \<Rightarrow> u\<lparr>u_create := MError e\<rparr>
     | Inr _ \<Rightarrow> u\<lparr>u_create := MSuccess, u_name := [], u_certificatePem := [], u_privateKeyPem := []\<rparr>)"

definition create_disabled :: "upload \<Rightarrow> bool" where
  "create_disabled u \<longleftrightarrow> mutation_pending (u_create u) \<or> u_name u = [] \<or> u_certificatePem u = [] \<or> u_privateKeyPem u = []"

definition UploadCertificate :: "upload \<Rightarrow> view" where
  "UploadCertificate u =
     El ''dialog-root'' [] [Button False [] [Txt ''Upload certificate''],
       DialogContent ''Add a managed certificate''
         (Some ''The pair is validated before an atomic write. The private key cannot be retrieved later.'')
         ([Field ''Reference name'' (Some ''Lowercase DNS-style name used by Listener TLS refs.'')
             [Input [(''value'', u_name u), (''pattern'', ''[a-z0-9]([-a-z0-9]*[a-z0-9])?'')]],
           Field ''Certificate chain (PEM)'' None [Textarea [(''value'', u_certificatePem u)]],
           Field ''Private key (PEM)'' (Some ''Sent once over this same-origin session and stored with mode 0600.'')
             [Textarea [(''value'', u_privateKeyPem u)]]] @
          (case mutation_error (u_create u) of None \<Rightarrow> []
             | Some e \<Rightarrow> [El ''p'' [(''role'', ''alert'')] [Txt (error_message e)]]) @
          [Button (create_disabled u) [(''onClick'', ''create'')]
            [Txt (if mutation_pending (u_create u) then ''Validating pair'' @ ellipsis else ''Validate & store'')]])]"

definition CertificatesPage :: "cert_env \<Rightarrow> query \<Rightarrow> mutation \<Rightarrow> upload \<Rightarrow> view option" where
  "CertificatesPage env q rm u =
     (case q of
        QPending \<Rightarrow> Some (LoadingBlock ''Reading managed certificates'')
      | QError e _ \<Rightarrow> Some (ErrorBlock (error_message e) (Some ''certificates.refetch''))
      | QSuccess d \<Rightarrow>
        do { items0 \<leftarrow> js_get d ''items'';
             items \<leftarrow> js_array (js_coalesce items0 (JArr []));
             cards \<leftarrow> those (map (certificate_card env rm) items);
             Some (El ''div'' [] ([PageHeading ''Certificates / managed store'' ''Private keys stay private.''
               ''Upload a PEM pair once. The API returns public metadata and references, never the private key.''
               (Some (UploadCertificate u))] @
               (case mutation_error rm of None \<Rightarrow> []
                | Some e \<Rightarrow> [El ''div'' [(''role'', ''alert'')] [Txt (error_message e)]]) @
               (if items = []
                then [EmptyBlock ''No managed certificates''
                  ''Upload a matching certificate and private key pair, then reference it from a TLS listener.'']
                else cards))) })"

section \<open>Lemmas\<close>

definition certificate_list_type :: ty where
  "certificate_list_type = TObject [req ''items'' (TArray schemas_Certificate), req ''total'' TNumber] False"

lemma string_children: "\<forall>x \<in> set xs. conforms TString x \<Longrightarrow>
    \<exists>vs. those (map (\<lambda>x. map_option (Badge tone_neutral) (js_child x)) xs) = Some vs"
  by (rule those_map_total) auto

lemma certificate_card_total:
  assumes "conforms schemas_Certificate c"
  shows "\<exists>v. certificate_card env rm c = Some v"
proof -
  note T = assms [unfolded schemas_Certificate_def]
  obtain n where name: "js_get c ''name'' = Some (JStr n)"
    using conforms_required_get [OF T, of "''name''" TString] by auto
  obtain xs where sans: "js_get c ''sans'' = Some (JArr xs)" "\<forall>x \<in> set xs. conforms TString x"
    using conforms_required_get [OF T, of "''sans''" "TArray TString"] by (auto simp: conforms_TArray_iff simp del: conforms.simps)
  obtain rs where refs: "js_get c ''references'' = Some (JArr rs)"
    using conforms_required_get [OF T, of "''references''" "TArray TString"] by (auto simp: conforms_TArray_iff simp del: conforms.simps)
  obtain bs where bs: "those (map (\<lambda>x. map_option (Badge tone_neutral) (js_child x)) (take 4 xs)) = Some bs"
    using string_children [of "take 4 xs"] sans(2) by (auto dest: in_set_takeD)
  from T obtain ps where c: "c = JObj ps" and fs: "conforms_fields [req ''name'' TString, opt ''subject'' TString,
      req ''sans'' (TArray TString), opt ''notAfter'' TString, req ''updatedAt'' TString,
      req ''certificatePem'' TString, req ''references'' (TArray TString)] ps" by (rule conforms_object_E)
  have "\<exists>s vs. js_get c ''subject'' = Some s \<and> js_child (js_coalesce s (JStr ''Subject unavailable'')) = Some vs"
    using c fs by (auto simp: js_coalesce_def js_is_nullish_def split: option.splits)
  moreover have "\<exists>t. js_get c ''notAfter'' = Some t" by (simp add: c)
  ultimately show ?thesis
    using name sans(1) refs bs by (auto simp: certificate_card_def js_array_def)
qed

text \<open>The fields of a certificate that its card shows.\<close>

definition shown_fields :: "string list" where
  "shown_fields = [''name'', ''subject'', ''sans'', ''notAfter'', ''references'']"

lemma map_of_filter_key: "k \<in> S \<Longrightarrow> map_of (filter (\<lambda>(k, v). k \<in> S) ps) k = map_of ps k"
  by (induction ps) auto

lemma certificate_card_shown:
  "certificate_card env rm (JObj (filter (\<lambda>(k, v). k \<in> set shown_fields) ps)) = certificate_card env rm (JObj ps)"
proof -
  have g: "js_get (JObj (filter (\<lambda>(k, v). k \<in> set shown_fields) ps)) k = js_get (JObj ps) k"
    if "k \<in> set shown_fields" for k using map_of_filter_key [OF that, of ps] by simp
  have m: "''name'' \<in> set shown_fields" "''subject'' \<in> set shown_fields" "''sans'' \<in> set shown_fields"
    "''notAfter'' \<in> set shown_fields" "''references'' \<in> set shown_fields" by (simp_all add: shown_fields_def)
  show ?thesis unfolding certificate_card_def by (simp only: g [OF m(1)] g [OF m(2)] g [OF m(3)] g [OF m(4)] g [OF m(5)])
qed

section \<open>Properties\<close>

text \<open>
  With a certificate list of the declared type the page renders in every state, and what it
  shows of a certificate depends on its name, subject, alternative names, expiry and references
  only; a private key would not be shown even if a response contained one.  After a successful
  upload the dialog keeps nothing of the pair.
\<close>

theorem certificates_page_renders:
  assumes "query_typed certificate_list_type q"
  shows "(\<exists>v. CertificatesPage env q rm u = Some v) \<and>
     certificate_card env rm (JObj (filter (\<lambda>(k, v). k \<in> set shown_fields) ps)) = certificate_card env rm (JObj ps) \<and>
     u_privateKeyPem (create_settle (Inr x) u) = [] \<and> u_certificatePem (create_settle (Inr x) u) = []"
proof -
  have "\<exists>v. CertificatesPage env q rm u = Some v"
  proof (cases q)
    case (QSuccess d)
    then have T: "conforms (TObject [req ''items'' (TArray schemas_Certificate), req ''total'' TNumber] False) d"
      using assms by (simp add: query_typed_def certificate_list_type_def)
    obtain xs where xs: "js_get d ''items'' = Some (JArr xs)" "\<forall>x \<in> set xs. conforms schemas_Certificate x"
      using conforms_required_get [OF T, of "''items''" "TArray schemas_Certificate"]
      by (auto simp: conforms_TArray_iff simp del: conforms.simps)
    have "\<forall>x \<in> set xs. \<exists>v. certificate_card env rm x = Some v"
      using xs(2) certificate_card_total by blast
    from those_map_total [OF this] show ?thesis
      using xs(1) by (auto simp: QSuccess CertificatesPage_def js_array_def js_coalesce_def js_is_nullish_def)
  qed (simp_all add: CertificatesPage_def)
  then show ?thesis by (simp add: certificate_card_shown create_settle_def)
qed

theorem certificates_page_renders_witness:
  "\<exists>v. CertificatesPage \<lparr>parse_date = (\<lambda>_. None), now_ms = 0, fmt_time = (\<lambda>_. None)\<rparr>
     (QSuccess (JObj [(''items'', JArr [JObj [(''name'', JStr ''api''), (''sans'', JArr []), (''updatedAt'', JStr ''t''),
        (''certificatePem'', JStr ''PEM''), (''references'', JArr [])]]), (''total'', JNum 1)])) MIdle
     \<lparr>u_name = [], u_certificatePem = [], u_privateKeyPem = [], u_create = MIdle\<rparr> = Some v"
proof -
  have "query_typed certificate_list_type (QSuccess (JObj [(''items'', JArr [JObj [(''name'', JStr ''api''),
     (''sans'', JArr []), (''updatedAt'', JStr ''t''), (''certificatePem'', JStr ''PEM''), (''references'', JArr [])]]),
     (''total'', JNum 1)]))" by code_simp
  from certificates_page_renders [OF this] show ?thesis by blast
qed

end
