(* ===== verification/JsonText.thy ===== *)
theory JsonText
  imports JsValue
begin

text \<open>
  \<open>JSON.stringify(value, null, 2)\<close> of the JavaScript standard library, and a reader of JSON text
  that serves as its specification: what is printed reads back as the value that was printed.
  Strings are UTF-8 bytes, so a byte above 127 is printed as it is.
\<close>

section \<open>Printing\<close>

definition hex_digit :: "nat \<Rightarrow> char" where
  "hex_digit n = char_of (if n < 10 then 48 + n else 87 + n)"

definition backslash :: char where
  "backslash = CHR 0x5C"

definition quote_char :: "char \<Rightarrow> string" where
  "quote_char c =
     (if c = CHR 0x22 \<or> c = backslash then [backslash, c]
      else if c = CHR 0x08 then [backslash, CHR ''b'']
      else if c = CHR 0x09 then [backslash, CHR ''t'']
      else if c = CHR 0x0A then [backslash, CHR ''n'']
      else if c = CHR 0x0C then [backslash, CHR ''f'']
      else if c = CHR 0x0D then [backslash, CHR ''r'']
      else if (of_char c :: nat) < 32
      then [backslash, CHR ''u'', CHR ''0'', CHR ''0'', hex_digit (of_char c div 16), hex_digit (of_char c mod 16)]
      else [c])"

definition quote_string :: "string \<Rightarrow> string" where
  "quote_string s = CHR 0x22 # concat (map quote_char s) @ [CHR 0x22]"

text \<open>The items of an array or object, each on a line of its own one step further in.\<close>

definition bracket :: "char \<Rightarrow> char \<Rightarrow> string \<Rightarrow> string list \<Rightarrow> string" where
  "bracket a b ind ts =
     (if ts = [] then [a, b]
      else [a, CHR 0x0A] @ ind @ ''  '' @ join_with ([CHR '','', CHR 0x0A] @ ind @ ''  '') ts @
        CHR 0x0A # ind @ [b])"

function (sequential) stringify :: "string \<Rightarrow> jsval \<Rightarrow> string option"
  and elements :: "string \<Rightarrow> jsval list \<Rightarrow> string list"
  and members :: "string \<Rightarrow> (string \<times> jsval) list \<Rightarrow> string list" where
  "stringify ind JUndefined = None"
| "stringify ind JNull = Some ''null''"
| "stringify ind (JBool b) = Some (if b then ''true'' else ''false'')"
| "stringify ind (JNum n) = Some (string_of_int n)"
| "stringify ind (JStr s) = Some (quote_string s)"
| "stringify ind (JArr xs) = Some (bracket CHR ''['' CHR '']'' ind (elements (ind @ ''  '') xs))"
| "stringify ind (JObj ps) = Some (bracket CHR ''{'' CHR ''}'' ind (members (ind @ ''  '') ps))"
| "elements ind [] = []"
| "elements ind (x # xs) =
     (case stringify ind x of Some t \<Rightarrow> t | None \<Rightarrow> ''null'') # elements ind xs"
| "members ind [] = []"
| "members ind ((k, v) # ps) =
     (case stringify ind v of Some t \<Rightarrow> [quote_string k @ '': '' @ t] | None \<Rightarrow> []) @ members ind ps"
  by pat_completeness auto
termination
  by (relation "measure (case_sum (\<lambda>(i, v). size v)
       (case_sum (\<lambda>(i, xs). size_list size xs) (\<lambda>(i, ps). size_list (size_prod (\<lambda>_. 0) size) ps)))")
     auto

section \<open>Reading\<close>

definition is_ws :: "char \<Rightarrow> bool" where
  "is_ws c \<longleftrightarrow> c \<in> {CHR '' '', CHR 0x09, CHR 0x0A, CHR 0x0D}"

definition skip :: "string \<Rightarrow> string" where
  "skip s = dropWhile is_ws s"

definition hex_value :: "char \<Rightarrow> nat" where
  "hex_value c = (if is_digit c then of_char c - 48 else of_char c - 87)"

text \<open>The characters of a string up to the closing quote; an escape above \<open>\u00ff\<close> is refused.\<close>

fun read_chars :: "string \<Rightarrow> (string \<times> string) option" where
  "read_chars [] = None"
| "read_chars (c # r) =
     (if c = CHR 0x22 then Some ([], r)
      else if c = backslash then
        (case r of
           [] \<Rightarrow> None
         | e # r' \<Rightarrow>
             (if e = CHR ''u'' then
                (case r' of
                   z0 # z1 # h # l # r'' \<Rightarrow>
                     if z0 = CHR ''0'' \<and> z1 = CHR ''0''
                     then map_option (map_prod ((#) (char_of (16 * hex_value h + hex_value l))) id) (read_chars r'')
                     else None
                 | _ \<Rightarrow> None)
              else map_option (map_prod ((#) (if e = CHR ''b'' then CHR 0x08 else if e = CHR ''t'' then CHR 0x09
                  else if e = CHR ''n'' then CHR 0x0A else if e = CHR ''f'' then CHR 0x0C
                  else if e = CHR ''r'' then CHR 0x0D else e)) id) (read_chars r')))
      else map_option (map_prod ((#) c) id) (read_chars r))"

definition read_nat :: "string \<Rightarrow> nat" where
  "read_nat s = foldl (\<lambda>n c. 10 * n + (of_char c - 48)) 0 s"

definition read_number :: "string \<Rightarrow> jsval \<times> string" where
  "read_number s =
     (if prefix ''-'' s then (JNum (- int (read_nat (takeWhile is_digit (tl s)))), dropWhile is_digit (tl s))
      else (JNum (int (read_nat (takeWhile is_digit s))), dropWhile is_digit s))"

definition read_word :: "string \<Rightarrow> (jsval \<times> string) option" where
  "read_word s =
     (if prefix ''null'' s then Some (JNull, drop 4 s)
      else if prefix ''true'' s then Some (JBool True, drop 4 s)
      else if prefix ''false'' s then Some (JBool False, drop 5 s) else None)"

fun read_value :: "nat \<Rightarrow> string \<Rightarrow> (jsval \<times> string) option"
  and read_elements :: "nat \<Rightarrow> string \<Rightarrow> (jsval list \<times> string) option"
  and read_members :: "nat \<Rightarrow> string \<Rightarrow> ((string \<times> jsval) list \<times> string) option" where
  "read_value 0 s = None"
| "read_value (Suc n) s =
     (case skip s of
        [] \<Rightarrow> None
      | c # r \<Rightarrow>
          if c = CHR 0x22 then map_option (map_prod JStr id) (read_chars r)
          else if c = CHR ''['' then
            (if prefix '']'' (skip r) then Some (JArr [], tl (skip r))
             else map_option (map_prod JArr id) (read_elements n r))
          else if c = CHR ''{'' then
            (if prefix ''}'' (skip r) then Some (JObj [], tl (skip r))
             else map_option (map_prod JObj id) (read_members n r))
          else if is_digit c \<or> c = CHR ''-'' then Some (read_number (c # r))
          else read_word (c # r))"
| "read_elements 0 s = None"
| "read_elements (Suc n) s =
     (case read_value n s of
        None \<Rightarrow> None
      | Some (x, r) \<Rightarrow>
          (case skip r of
             [] \<Rightarrow> None
           | c # r' \<Rightarrow> if c = CHR '']'' then Some ([x], r')
               else if c = CHR '','' then map_option (map_prod ((#) x) id) (read_elements n r') else None))"
| "read_members 0 s = None"
| "read_members (Suc n) s =
     (if prefix [CHR 0x22] (skip s) then
        (case read_chars (tl (skip s)) of
           None \<Rightarrow> None
         | Some (k, q) \<Rightarrow>
             if prefix '':'' (skip q) then
               (case read_value n (tl (skip q)) of
                  None \<Rightarrow> None
                | Some (x, r) \<Rightarrow>
                    (case skip r of
                       [] \<Rightarrow> None
                     | c # r' \<Rightarrow> if c = CHR ''}'' then Some ([(k, x)], r')
                         else if c = CHR '','' then map_option (map_prod ((#) (k, x)) id) (read_members n r')
                         else None))
             else None)
      else None)"

text \<open>A whole text: one value and white space.  A step consumes a character, so the length of the
  text is fuel enough.\<close>

definition read_json :: "string \<Rightarrow> jsval option" where
  "read_json s = (case read_value (length s) s of Some (v, r) \<Rightarrow> if skip r = [] then Some v else None | None \<Rightarrow> None)"

section \<open>What is printed reads back\<close>

lemma hex_value_digit: "n < 16 \<Longrightarrow> hex_value (hex_digit n) = n"
  by (auto simp: hex_value_def hex_digit_def is_digit_def)

lemma read_quote_char:
  "read_chars (quote_char c @ r) = map_option (map_prod ((#) c) id) (read_chars r)"
proof (cases "(of_char c :: nat) < 32 \<and> quote_char c \<noteq> [c] \<and> length (quote_char c) = 6")
  case True
  then have "(of_char c :: nat) div 16 < 16" by linarith
  then have "16 * hex_value (hex_digit (of_char c div 16)) + hex_value (hex_digit (of_char c mod 16)) = of_char c"
    by (simp add: hex_value_digit)
  with True show ?thesis
    by (auto simp: quote_char_def backslash_def split: if_splits)
next
  case False
  then show ?thesis by (auto simp: quote_char_def backslash_def split: if_splits)
qed

lemma read_quote_string: "read_chars (concat (map quote_char s) @ CHR 0x22 # r) = Some (s, r)"
  by (induction s) (auto simp: read_quote_char)

lemma read_nat_print: "read_nat (string_of_nat n) = n"
proof (induction n rule: string_of_nat.induct)
  case (1 n)
  then show ?case by (subst string_of_nat.simps) (auto simp: read_nat_def)
qed

lemma digits_run:
  assumes "\<not> (r \<noteq> [] \<and> is_digit (hd r))"
  shows "takeWhile is_digit (string_of_nat n @ r) = string_of_nat n"
    and "dropWhile is_digit (string_of_nat n @ r) = r"
proof -
  have "\<And>c. c \<in> set (string_of_nat n) \<Longrightarrow> is_digit c"
    using string_of_nat_digits by (auto simp: list_all_iff)
  moreover have "takeWhile is_digit r = []" "dropWhile is_digit r = r"
    using assms by (cases r; simp)+
  ultimately show "takeWhile is_digit (string_of_nat n @ r) = string_of_nat n"
    and "dropWhile is_digit (string_of_nat n @ r) = r" by (simp_all add: takeWhile_append2 dropWhile_append2)
qed

lemma string_of_nat_hd: "is_digit (hd (string_of_nat n))"
  using string_of_nat_digits [of n] by (cases "string_of_nat n") auto

lemma read_int_print:
  assumes "\<not> (r \<noteq> [] \<and> is_digit (hd r))"
  shows "read_number (string_of_int i @ r) = (JNum i, r)"
proof (cases "i < 0")
  case False
  then have "\<not> prefix ''-'' (string_of_nat (nat i) @ r)"
    using string_of_nat_hd [of "nat i"] by (cases "string_of_nat (nat i)") (auto simp: is_digit_def)
  with False show ?thesis by (simp add: read_number_def string_of_int_def digits_run [OF assms] read_nat_print)
qed (simp add: read_number_def string_of_int_def digits_run [OF assms] read_nat_print)

lemma is_ws_eval [simp]:
  "is_ws CHR '' ''" "is_ws CHR 0x0A" "\<not> is_ws CHR 0x22" "\<not> is_ws CHR ''[''" "\<not> is_ws CHR '']''"
  "\<not> is_ws CHR ''{''" "\<not> is_ws CHR ''}''" "\<not> is_ws CHR '',''" "\<not> is_ws CHR '':''"
  by (simp_all add: is_ws_def)

lemma skip_ws [simp]: "list_all is_ws w \<Longrightarrow> skip (w @ s) = skip s"
  by (simp add: skip_def dropWhile_append2 list_all_iff)

lemma skip_Cons [simp]: "skip (c # s) = (if is_ws c then skip s else c # s)"
  by (simp add: skip_def)

lemma skip_Nil [simp]: "skip [] = []"
  by (simp add: skip_def)

text \<open>A printed value never begins with white space or a closing bracket.\<close>

definition opens :: "string \<Rightarrow> bool" where
  "opens t \<longleftrightarrow> t \<noteq> [] \<and> \<not> is_ws (hd t) \<and> hd t \<noteq> CHR '']'' \<and> hd t \<noteq> CHR ''}''"

lemma opens_string: "opens (quote_string s @ t)"
  by (simp add: opens_def quote_string_def is_ws_def)

lemma opens_int: "opens (string_of_int i)"
proof -
  have "is_digit c \<Longrightarrow> \<not> is_ws c \<and> c \<noteq> CHR '']'' \<and> c \<noteq> CHR ''}''" for c
    by (auto simp: is_digit_def is_ws_def)
  then show ?thesis using string_of_nat_hd [of "nat i"]
    by (simp add: opens_def string_of_int_def is_ws_def)
qed

lemma opens_stringify: "stringify ind v = Some t \<Longrightarrow> opens t"
  using opens_int opens_string [of _ "[]"]
  by (cases v) (auto simp: opens_def bracket_def is_ws_def split: if_splits)

lemma stringify_json: "is_json v \<Longrightarrow> \<exists>t. stringify ind v = Some t"
  by (cases v) auto

lemma opens_hd: "opens t \<Longrightarrow> skip (t @ r) = t @ r \<and> \<not> prefix '']'' (t @ r) \<and> \<not> prefix ''}'' (t @ r)"
  by (cases t) (auto simp: opens_def)

lemma join_opens: "opens t \<Longrightarrow> opens (join_with sep (t # ts))"
  by (cases ts) (auto simp: opens_def)

lemma join_Cons: "ts \<noteq> [] \<Longrightarrow> join_with sep (t # ts) = t @ sep @ join_with sep ts"
  by (cases ts) auto

lemma not_digit_ws: "is_ws c \<Longrightarrow> \<not> is_digit c"
  by (auto simp: is_ws_def is_digit_def)

lemma read_value_num:
  assumes "list_all is_ws w" and "\<not> (r \<noteq> [] \<and> is_digit (hd r))"
  shows "read_value (Suc m) (w @ string_of_int i @ r) = Some (JNum i, r)"
proof -
  obtain c s where c: "string_of_int i = c # s" "is_digit c \<or> c = CHR ''-''"
    using string_of_nat_hd [of "nat i"] string_of_nat_not_Nil [of "nat i"]
    by (cases "i < 0"; cases "string_of_nat (nat i)") (auto simp: string_of_int_def)
  moreover have "c \<notin> {CHR 0x22, CHR ''['', CHR ''{''}" "\<not> is_ws c"
    using c(2) by (auto simp: is_digit_def is_ws_def)
  ultimately show ?thesis using read_int_print [OF assms(2), of i] assms(1) by auto
qed

lemma read_value_word:
  "list_all is_ws w \<Longrightarrow> read_value (Suc m) (w @ ''null'' @ r) = Some (JNull, r)"
  "list_all is_ws w \<Longrightarrow> read_value (Suc m) (w @ ''true'' @ r) = Some (JBool True, r)"
  "list_all is_ws w \<Longrightarrow> read_value (Suc m) (w @ ''false'' @ r) = Some (JBool False, r)"
  by (simp_all add: is_ws_def is_digit_def read_word_def)

lemma read_value_string:
  "list_all is_ws w \<Longrightarrow> read_value (Suc m) (w @ quote_string s @ r) = Some (JStr s, r)"
  by (simp add: quote_string_def is_ws_def read_quote_string)

lemma read_value_array:
  assumes "list_all is_ws w" and "list_all is_ws ind" and "ts \<noteq> [] \<Longrightarrow> opens (hd ts)"
    and "ts \<noteq> [] \<Longrightarrow> read_elements m ((CHR 0x0A # ind @ ''  '') @ join_with ([CHR '','', CHR 0x0A] @ ind @ ''  '') ts @
      (CHR 0x0A # ind) @ CHR '']'' # r) = Some (xs, r)" and "ts = [] \<Longrightarrow> xs = []"
  shows "read_value (Suc m) (w @ bracket CHR ''['' CHR '']'' ind ts @ r) = Some (JArr xs, r)"
proof (cases ts)
  case (Cons t us)
  then have "opens (join_with ([CHR '','', CHR 0x0A] @ ind @ ''  '') ts)"
    using assms(3) join_opens by auto
  from opens_hd [OF this, of "CHR 0x0A # ind @ CHR '']'' # r"] show ?thesis
    using assms Cons by (simp add: bracket_def)
qed (use assms in \<open>simp add: bracket_def\<close>)

lemma read_value_object:
  assumes "list_all is_ws w" and "list_all is_ws ind" and "ts \<noteq> [] \<Longrightarrow> opens (hd ts)"
    and "ts \<noteq> [] \<Longrightarrow> read_members m ((CHR 0x0A # ind @ ''  '') @ join_with ([CHR '','', CHR 0x0A] @ ind @ ''  '') ts @
      (CHR 0x0A # ind) @ CHR ''}'' # r) = Some (ps, r)" and "ts = [] \<Longrightarrow> ps = []"
  shows "read_value (Suc m) (w @ bracket CHR ''{'' CHR ''}'' ind ts @ r) = Some (JObj ps, r)"
proof (cases ts)
  case (Cons t us)
  then have "opens (join_with ([CHR '','', CHR 0x0A] @ ind @ ''  '') ts)"
    using assms(3) join_opens by auto
  from opens_hd [OF this, of "CHR 0x0A # ind @ CHR ''}'' # r"] show ?thesis
    using assms Cons by (simp add: bracket_def)
qed (use assms in \<open>simp add: bracket_def\<close>)

lemma elements_json:
  assumes "list_all is_json xs"
  shows "elements ind xs = [] \<longleftrightarrow> xs = []" and "xs \<noteq> [] \<Longrightarrow> opens (hd (elements ind xs))"
  using assms stringify_json [of "hd xs" ind] opens_stringify by (cases xs; auto)+

lemma members_json:
  assumes "list_all (\<lambda>p. is_json (snd p)) ps"
  shows "members ind ps = [] \<longleftrightarrow> ps = []" and "ps \<noteq> [] \<Longrightarrow> opens (hd (members ind ps))"
  using assms stringify_json [of "snd (hd ps)" ind] opens_string by (cases ps; fastforce)+

lemma bracket_length:
  "ts \<noteq> [] \<Longrightarrow> length (join_with ([CHR '','', CHR 0x0A] @ ind @ ''  '') ts) + 1 < length (bracket a b ind ts)"
  "0 < length (bracket a b ind ts)"
  by (simp_all add: bracket_def)

lemma after_item:
  "list_all is_ws w' \<Longrightarrow> \<not> is_digit b \<Longrightarrow> \<not> (w' @ b # r \<noteq> [] \<and> is_digit (hd (w' @ b # r)))"
  using not_digit_ws by (cases w') auto

lemma read_elements_last:
  assumes "read_value m (w @ t @ w' @ CHR '']'' # r) = Some (x, w' @ CHR '']'' # r)" and "list_all is_ws w'"
  shows "read_elements (Suc m) (w @ t @ w' @ CHR '']'' # r) = Some ([x], r)"
  using assms by simp

lemma read_elements_more:
  assumes "read_value m (w @ t @ CHR '','' # q) = Some (x, CHR '','' # q)" and "read_elements m q = Some (xs, r)"
  shows "read_elements (Suc m) (w @ t @ CHR '','' # q) = Some (x # xs, r)"
  using assms by simp

lemma read_members_last:
  assumes "read_value m ('' '' @ t @ w' @ CHR ''}'' # r) = Some (x, w' @ CHR ''}'' # r)"
    and "list_all is_ws w" and "list_all is_ws w'"
  shows "read_members (Suc m) (w @ (quote_string k @ '': '' @ t) @ w' @ CHR ''}'' # r) = Some ([(k, x)], r)"
  using assms by (simp add: quote_string_def read_quote_string)

lemma read_members_more:
  assumes "read_value m ('' '' @ t @ CHR '','' # q) = Some (x, CHR '','' # q)" and "read_members m q = Some (ps, r)"
    and "list_all is_ws w"
  shows "read_members (Suc m) (w @ (quote_string k @ '': '' @ t) @ CHR '','' # q) = Some ((k, x) # ps, r)"
  using assms by (simp add: quote_string_def read_quote_string)

lemma read_back:
  "stringify ind v = Some t \<Longrightarrow> is_json v \<Longrightarrow> list_all is_ws ind \<Longrightarrow> length t \<le> n \<Longrightarrow> list_all is_ws w \<Longrightarrow>
     \<not> (r \<noteq> [] \<and> is_digit (hd r)) \<Longrightarrow> read_value n (w @ t @ r) = Some (v, r)"
  "list_all is_json xs \<Longrightarrow> xs \<noteq> [] \<Longrightarrow> list_all is_ws ind \<Longrightarrow>
     length (join_with ([CHR '','', CHR 0x0A] @ ind) (elements ind xs)) < n \<Longrightarrow> list_all is_ws w \<Longrightarrow> list_all is_ws w' \<Longrightarrow>
     read_elements n (w @ join_with ([CHR '','', CHR 0x0A] @ ind) (elements ind xs) @ w' @ CHR '']'' # r) = Some (xs, r)"
  "list_all (\<lambda>p. is_json (snd p)) ps \<Longrightarrow> ps \<noteq> [] \<Longrightarrow> list_all is_ws ind \<Longrightarrow>
     length (join_with ([CHR '','', CHR 0x0A] @ ind) (members ind ps)) < n \<Longrightarrow> list_all is_ws w \<Longrightarrow> list_all is_ws w' \<Longrightarrow>
     read_members n (w @ join_with ([CHR '','', CHR 0x0A] @ ind) (members ind ps) @ w' @ CHR ''}'' # r) = Some (ps, r)"
proof (induction ind v and ind xs and ind ps arbitrary: t n w r and n w w' r and n w w' r
    rule: stringify_elements_members.induct)
  case (2 ind)
  then show ?case using read_value_word(1) [of w "n - 1" r] by (cases n) auto
next
  case (3 ind b)
  then show ?case using read_value_word(2,3) [of w "n - 1" r] by (cases n) (auto split: if_splits)
next
  case (4 ind i)
  then show ?case using read_value_num [of w r "n - 1" i] opens_int [of i] by (cases n) (auto simp: opens_def)
next
  case (5 ind s)
  then show ?case using read_value_string [of w "n - 1" s r] by (cases n) (auto simp: quote_string_def)
next
  case (6 ind xs)
  let ?ts = "elements (ind @ ''  '') xs"
  obtain m where m: "n = Suc m" using 6(2,5) bracket_length(2) [of _ _ ind ?ts] by (cases n) auto
  have "list_all is_json xs" using 6(3) by simp
  note e = elements_json [OF this]
  have "read_value (Suc m) (w @ bracket CHR ''['' CHR '']'' ind ?ts @ r) = Some (JArr xs, r)"
    using 6(2-6) m e bracket_length(1) [of ?ts ind "CHR ''[''" "CHR '']''"]
    by (intro read_value_array 6(1)) auto
  with 6(2) m show ?case by simp
next
  case (7 ind ps)
  let ?ts = "members (ind @ ''  '') ps"
  obtain m where m: "n = Suc m" using 7(2,5) bracket_length(2) [of _ _ ind ?ts] by (cases n) auto
  have "list_all (\<lambda>p. is_json (snd p)) ps" using 7(3) by simp
  note e = members_json [OF this]
  have "read_value (Suc m) (w @ bracket CHR ''{'' CHR ''}'' ind ?ts @ r) = Some (JObj ps, r)"
    using 7(2-6) m e bracket_length(1) [of ?ts ind "CHR ''{''" "CHR ''}''"]
    by (intro read_value_object 7(1)) auto
  with 7(2) m show ?case by simp
next
  case (9 ind x xs)
  obtain t m where t: "stringify ind x = Some t" and m: "n = Suc m"
    using 9(3,6) stringify_json [of x ind] by (cases n) auto
  show ?case
  proof (cases "xs = []")
    case True
    have "read_value m (w @ t @ w' @ CHR '']'' # r) = Some (x, w' @ CHR '']'' # r)"
      using 9(3-) True t m after_item [of w' "CHR '']''" r] by (intro 9(1)) (auto simp: is_digit_def)
    with True t m 9(8) show ?thesis by (simp del: append_assoc add: read_elements_last)
  next
    case False
    then have "elements ind xs \<noteq> []" using elements_json(1) 9(3) by auto
    note j = join_Cons [OF this, of "[CHR '','', CHR 0x0A] @ ind" t]
    let ?q = "(CHR 0x0A # ind) @ join_with ([CHR '','', CHR 0x0A] @ ind) (elements ind xs) @ w' @ CHR '']'' # r"
    have "read_value m (w @ t @ CHR '','' # ?q) = Some (x, CHR '','' # ?q)"
      using 9(3-) t m j by (intro 9(1)) (auto simp: is_digit_def)
    moreover have "read_elements m ?q = Some (xs, r)" using 9(3-) False t m j by (intro 9(2)) auto
    ultimately show ?thesis using read_elements_more [of m w t ?q x xs r] t m j by simp
  qed
next
  case (11 ind k v ps)
  obtain t m where t: "stringify ind v = Some t" and m: "n = Suc m"
    using 11(3,6) stringify_json [of v ind] by (cases n) auto
  show ?case
  proof (cases "ps = []")
    case True
    have "read_value m ('' '' @ t @ w' @ CHR ''}'' # r) = Some (v, w' @ CHR ''}'' # r)"
      using 11(3-) True t m after_item [of w' "CHR ''}''" r] by (intro 11(1)) (auto simp: is_digit_def)
    with True t m 11(7,8) show ?thesis using read_members_last [of m t w' r v w k] by simp
  next
    case False
    then have "members ind ps \<noteq> []" using members_json(1) 11(3) by auto
    note j = join_Cons [OF this, of "[CHR '','', CHR 0x0A] @ ind" "quote_string k @ '': '' @ t"]
    let ?q = "(CHR 0x0A # ind) @ join_with ([CHR '','', CHR 0x0A] @ ind) (members ind ps) @ w' @ CHR ''}'' # r"
    have "read_value m ('' '' @ t @ CHR '','' # ?q) = Some (v, CHR '','' # ?q)"
      using 11(3-) t m j by (intro 11(1)) (auto simp: is_digit_def)
    moreover have "read_members m ?q = Some (ps, r)" using 11(3-) False t m j by (intro 11(2)) auto
    ultimately show ?thesis using read_members_more [of m t ?q v ps r w k] t m j 11(7) by simp
  qed
qed simp_all

theorem read_stringify:
  assumes "is_json v"
  shows "\<exists>t. stringify [] v = Some t \<and> read_json t = Some v"
proof -
  obtain t where "stringify [] v = Some t" using stringify_json [OF assms] by blast
  then show ?thesis using read_back(1) [of "[]" v t "length t" "[]" "[]"] assms by (simp add: read_json_def)
qed

end
