(* ===== verification/ExpertPage.thy ===== *)
theory ExpertPage
  imports ConsoleKit JsonText
begin

text \<open>
  The expert page (\<open>web/src/pages/expert-page.tsx\<close>): the compiled output of the draft as JSON text,
  for the mode the operator has chosen.
\<close>

datatype view_mode = xds | static

fun mode_name :: "view_mode \<Rightarrow> string" where
  "mode_name xds = ''xds''"
| "mode_name static = ''static''"

text \<open>The query is keyed by the mode, so each mode has a query state of its own.\<close>

record expert_page =
  expert_mode :: view_mode
  compiled :: "view_mode \<Rightarrow> query"

definition initial_expert_page :: "(view_mode \<Rightarrow> query) \<Rightarrow> expert_page" where
  "initial_expert_page q = \<lparr>expert_mode = xds, compiled = q\<rparr>"

definition setMode :: "view_mode \<Rightarrow> expert_page \<Rightarrow> expert_page" where
  "setMode m e = e\<lparr>expert_mode := m\<rparr>"

definition compiled_call :: "view_mode \<Rightarrow> api_call" where
  "compiled_call m = (GET ''/config/compiled'')\<lparr>call_query := [(''mode'', JStr (mode_name m))]\<rparr>"

text \<open>\<open>s.length\<close> counts UTF-16 units: one for a character of the first plane, two for the others,
  which are the ones with four bytes.\<close>

definition utf16_length :: "string \<Rightarrow> nat" where
  "utf16_length s = sum_list (map (\<lambda>c. let b = (of_char c :: nat) in
     if b < 128 then 1 else if b < 192 then 0 else if b < 240 then 1 else 2) s)"

definition mode_button :: "expert_page \<Rightarrow> view_mode \<Rightarrow> string \<Rightarrow> view" where
  "mode_button e m label =
     Button False [(''variant'', if expert_mode e = m then ''primary'' else ''secondary''),
       (''onClick'', ''setMode '' @ mode_name m)] [Txt label]"

definition expert_view :: "(nat \<Rightarrow> string) \<Rightarrow> expert_page \<Rightarrow> string \<Rightarrow> view" where
  "expert_view toLocaleString e content =
     El ''div'' []
      [PageHeading ''Expert / compiled output'' ''See past the abstraction.''
         ''Inspect the exact resource graph produced from the current draft. This view is read-only by design.''
         (Some (El ''div'' [] [mode_button e xds ''xDS snapshot'', mode_button e static ''Static IR''])),
       El ''div'' [] [Badge tone_neutral [Txt (mode_name (expert_mode e))],
         Badge tone_neutral [Txt (toLocaleString (utf16_length content)), Txt '' bytes''],
         El ''span'' [] [Txt ''Generated from the unsaved filesystem draft at request time.'']],
       Panel [El ''CodeEditor'' [(''value'', content), (''language'', ''json''), (''readOnly'', '''')] []]]"

text \<open>\<open>content.length\<close> throws when the data are \<open>undefined\<close>.\<close>

definition ExpertPage :: "(nat \<Rightarrow> string) \<Rightarrow> expert_page \<Rightarrow> view option" where
  "ExpertPage toLocaleString e =
     (case compiled e (expert_mode e) of
        QPending \<Rightarrow> Some (LoadingBlock ''Compiling expert view'')
      | QError err _ \<Rightarrow> Some (ErrorBlock (error_message err) (Some ''refetch''))
      | QSuccess d \<Rightarrow> map_option (expert_view toLocaleString e) (stringify [] d))"

section \<open>Properties\<close>

definition editor_text :: "view \<Rightarrow> string option list" where
  "editor_text v = map (attr ''value'') (elems ''CodeEditor'' v)"

lemma editor_text_expert_view: "editor_text (expert_view loc e t) = [Some t]"
  by (simp add: editor_text_def expert_view_def mode_button_def kit_defs attr_def)

lemma expert_view_mode: "expert_view loc (setMode m e1) = expert_view loc (setMode m e2)"
  by (simp add: fun_eq_iff expert_view_def mode_button_def setMode_def)

lemma ExpertPage_shows:
  assumes "compiled e m = QSuccess d" and "is_json d"
  obtains t where "ExpertPage loc (setMode m e) = Some (expert_view loc (setMode m e) t)" and "read_json t = Some d"
  using assms read_stringify [of d] by (auto simp: ExpertPage_def setMode_def)

lemma ExpertPage_mode:
  "compiled e' m = compiled e m \<Longrightarrow> ExpertPage loc (setMode m e') = ExpertPage loc (setMode m e)"
  using expert_view_mode [of loc m e' e] by (simp add: ExpertPage_def setMode_def split: query.split)

lemma ExpertPage_inj:
  assumes d: "compiled e m = QSuccess d" "is_json d" and d': "compiled e' m = QSuccess d'" "is_json d'"
    and eq: "ExpertPage loc (setMode m e') = ExpertPage loc (setMode m e)"
  shows "d' = d"
proof -
  obtain t where t: "ExpertPage loc (setMode m e) = Some (expert_view loc (setMode m e) t)" "read_json t = Some d"
    using ExpertPage_shows [OF d] .
  obtain t' where t': "ExpertPage loc (setMode m e') = Some (expert_view loc (setMode m e') t')" "read_json t' = Some d'"
    using ExpertPage_shows [OF d'] .
  have "t' = t"
    using eq t(1) t'(1) editor_text_expert_view [of loc "setMode m e'" t'] editor_text_expert_view [of loc "setMode m e" t]
    by simp
  with t(2) t'(2) show ?thesis by simp
qed

text \<open>
  C35: the expert view loses nothing.  For every JSON value the server may have compiled, the page
  renders, and the text in its read-only editor reads back as exactly that value; so two different
  outputs are never shown alike.  After the operator switches, the page shows what was compiled for
  the chosen mode, and nothing of the other.
\<close>

theorem expert_view_lossless:
  assumes "compiled e m = QSuccess d" and "is_json d"
  shows "(\<exists>v t. ExpertPage loc (setMode m e) = Some v \<and> editor_text v = [Some t] \<and> read_json t = Some d \<and>
       mode_name m \<in> set (texts v)) \<and>
     (compiled e' m = compiled e m \<longrightarrow> ExpertPage loc (setMode m e') = ExpertPage loc (setMode m e)) \<and>
     (compiled e' m = QSuccess d' \<and> is_json d' \<longrightarrow>
       (ExpertPage loc (setMode m e') = ExpertPage loc (setMode m e) \<longleftrightarrow> d' = d))"
proof (intro conjI impI)
  obtain t where t: "ExpertPage loc (setMode m e) = Some (expert_view loc (setMode m e) t)" "read_json t = Some d"
    using ExpertPage_shows [OF assms] .
  moreover have "mode_name m \<in> set (texts (expert_view loc (setMode m e) t))"
    by (simp add: expert_view_def setMode_def kit_defs)
  ultimately show "\<exists>v t. ExpertPage loc (setMode m e) = Some v \<and> editor_text v = [Some t] \<and> read_json t = Some d \<and>
       mode_name m \<in> set (texts v)"
    using editor_text_expert_view by blast
next
  assume d': "compiled e' m = QSuccess d' \<and> is_json d'"
  show "ExpertPage loc (setMode m e') = ExpertPage loc (setMode m e) \<longleftrightarrow> d' = d"
    using ExpertPage_inj [OF assms, of e' d' loc] ExpertPage_mode [of e' m e loc] assms d' by auto
qed (rule ExpertPage_mode)

definition demo_compiled :: expert_page where
  "demo_compiled = initial_expert_page (\<lambda>m. case m of xds \<Rightarrow> QPending
     | static \<Rightarrow> QSuccess (JObj [(''version'', JStr [CHR ''a'', CHR 0x22, CHR 0x0A]), (''listeners'', JArr [JNum (- 12), JNull])]))"

theorem expert_view_lossless_witness:
  "\<exists>v t. ExpertPage string_of_nat (setMode static demo_compiled) = Some v \<and> editor_text v = [Some t] \<and>
     read_json t = Some (JObj [(''version'', JStr [CHR ''a'', CHR 0x22, CHR 0x0A]), (''listeners'', JArr [JNum (- 12), JNull])])"
proof -
  let ?d = "JObj [(''version'', JStr [CHR ''a'', CHR 0x22, CHR 0x0A]), (''listeners'', JArr [JNum (- 12), JNull])]"
  have "compiled demo_compiled static = QSuccess ?d" "is_json ?d"
    by (simp_all add: demo_compiled_def initial_expert_page_def)
  from expert_view_lossless [OF this, of string_of_nat demo_compiled ?d] show ?thesis by blast
qed

text \<open>Both modes are declared, and the answer has no further type.\<close>

lemma compiled_call_conforms: "call_conforms (compiled_call m) \<and> call_results (compiled_call m) = [TObject [] True]"
proof -
  have "call_conforms (compiled_call xds)" "call_conforms (compiled_call static)"
    "call_results (compiled_call xds) = [TObject [] True]" "call_results (compiled_call static) = [TObject [] True]"
    by code_simp+
  then show ?thesis by (cases m) simp_all
qed

text \<open>The badge says bytes, but the number is that of UTF-16 units: an accented letter has one unit
  and two bytes.\<close>

lemma size_badge_counts_units: "utf16_length [CHR 0xC3, CHR 0xA9] = 1" "length [CHR 0xC3, CHR 0xA9] = 2"
  by (simp_all add: utf16_length_def)

end
