(* ===== verification/ConsoleApp.thy ===== *)
theory ConsoleApp
  imports ConsoleAuth ConfigurationPage StatusPages CertificatesPage ExpertPage
begin

text \<open>
  The frame around the pages (\<open>web/src/components/app-shell.tsx\<close>, \<open>web/src/app.tsx\<close>): the
  navigation, the routes, ending the session; and the calls of the whole console against the
  contract.
\<close>

section \<open>Navigation and routes\<close>

record nav_entry =
  nav_to :: string
  nav_label :: string
  nav_code :: string

definition navigation :: "nav_entry list" where
  "navigation =
     [\<lparr>nav_to = ''/'', nav_label = ''Overview'', nav_code = ''01''\<rparr>,
      \<lparr>nav_to = ''/configuration'', nav_label = ''Configuration'', nav_code = ''02''\<rparr>,
      \<lparr>nav_to = ''/runtime'', nav_label = ''Runtime'', nav_code = ''03''\<rparr>,
      \<lparr>nav_to = ''/certificates'', nav_label = ''Certificates'', nav_code = ''04''\<rparr>,
      \<lparr>nav_to = ''/expert'', nav_label = ''Expert'', nav_code = ''05''\<rparr>,
      \<lparr>nav_to = ''/system'', nav_label = ''System'', nav_code = ''06''\<rparr>]"

datatype page = Overview | Configuration | Runtime | Certificates | Expert | System

datatype route_element = Page page | Navigate string

definition App_routes :: "(string \<times> route_element) list" where
  "App_routes = [(''/'', Page Overview), (''/configuration'', Page Configuration), (''/runtime'', Page Runtime),
     (''/certificates'', Page Certificates), (''/expert'', Page Expert), (''/system'', Page System),
     (''*'', Navigate ''/'')]"

text \<open>
  \<open>Routes\<close> of react-router renders the route whose pattern matches the location, a fixed pattern
  before the splat; which locations a fixed pattern matches is \<open>matches\<close>, the library's.
\<close>

definition route :: "(string \<Rightarrow> string \<Rightarrow> bool) \<Rightarrow> string \<Rightarrow> route_element" where
  "route matches p = (case find (\<lambda>(q, e). q \<noteq> ''*'' \<and> matches q p) App_routes of
     Some (q, e) \<Rightarrow> e | None \<Rightarrow> (case map_of App_routes ''*'' of Some e \<Rightarrow> e | None \<Rightarrow> Navigate p))"

section \<open>The shell\<close>

record shell =
  nav_open :: bool
  logout_state :: mutation

definition logout_call :: api_call where
  "logout_call = mutating ''POST'' ''/auth/logout'' None"

definition toggle_nav :: "shell \<Rightarrow> shell" where
  "toggle_nav s = s\<lparr>nav_open := \<not> nav_open s\<rparr>"

definition follow_nav :: "shell \<Rightarrow> shell" where
  "follow_nav s = s\<lparr>nav_open := False\<rparr>"

text \<open>\<open>logout\<close>: on success every query is removed and the browser loads the start page, so the
  console begins again with nothing; \<open>clear\<close> is \<open>queryClient.removeQueries\<close>.\<close>

definition logout_settle ::
    "('c \<Rightarrow> 'c) \<Rightarrow> js_error + unit \<Rightarrow> shell \<times> 'c \<Rightarrow> (shell \<times> 'c) \<times> string option" where
  "logout_settle clear r sc =
     (case r of Inl e \<Rightarrow> (((fst sc)\<lparr>logout_state := MError e\<rparr>, snd sc), None)
      | Inr _ \<Rightarrow> (((fst sc)\<lparr>logout_state := MSuccess\<rparr>, clear (snd sc)), Some ''/''))"

definition Brand :: "bool \<Rightarrow> view" where
  "Brand small = El ''div'' [] [El ''span'' [] [Txt ''E''], El ''div'' [] (El ''div'' [] [Txt ''Signal Desk''] #
     (if small then [] else [El ''div'' [] [Txt ''Envoy standalone gateway'']]))]"

text \<open>\<open>isActive to end\<close> is what \<open>NavLink\<close> of react-router passes to \<open>className\<close>.\<close>

definition AppShell :: "(string \<Rightarrow> bool \<Rightarrow> bool) \<Rightarrow> shell \<Rightarrow> view \<Rightarrow> view" where
  "AppShell isActive s children =
     El ''div'' []
      [El ''header'' [] [Brand True,
         Button False [(''aria-label'', if nav_open s then ''Close navigation'' else ''Open navigation'')] []],
       El ''aside'' (flag ''open'' (nav_open s)) [El ''div'' [] [Brand False],
         El ''nav'' [(''aria-label'', ''Primary'')]
           (map (\<lambda>n. El ''a'' ([(''to'', nav_to n)] @ flag ''active'' (isActive (nav_to n) (nav_to n = ''/'')))
              [El ''span'' [] [Txt (nav_code n)], El ''span'' [] [Txt (nav_label n)]]) navigation),
         El ''div'' [] [El ''span'' [] [Txt ''Management live''],
           Button (mutation_pending (logout_state s)) [(''onClick'', ''logout'')] [Txt ''End session'']]],
       El ''main'' [] [children]]"

section \<open>Properties\<close>

text \<open>
  The navigation and the routes fit together, for every matcher that tells the six fixed
  patterns apart: the entries lead to six different pages, all the pages there are, and exactly the
  locations that no entry matches are redirected, to a page.
\<close>

lemma navigation_reaches_every_page:
  assumes "\<forall>m \<in> set navigation. \<forall>n \<in> set navigation. matches (nav_to m) (nav_to n) \<longleftrightarrow> nav_to m = nav_to n"
  shows "map (route matches \<circ> nav_to) navigation = map Page [Overview, Configuration, Runtime, Certificates, Expert, System]"
    and "route matches p = Navigate ''/'' \<longleftrightarrow> (\<forall>n \<in> set navigation. \<not> matches (nav_to n) p)"
    and "route matches ''/'' = Page Overview"
  using assms by (simp_all add: route_def App_routes_def navigation_def)

lemma typed_version:
  assumes "query_typed schemas_Draft (draft c)"
  shows "\<exists>s. js_coalesce (js_get_opt (query_data (draft c)) ''resourceVersion'') (JStr []) = JStr s"
proof (cases "query_data (draft c) = JUndefined")
  case False
  then have "conforms schemas_Draft (query_data (draft c))"
    using assms by (cases "draft c") (auto simp: query_typed_def)
  then show ?thesis
    by (rule draft_shape) (simp add: js_get_opt_def js_coalesce_def js_is_nullish_def)
qed (simp add: js_get_opt_def js_coalesce_def js_is_nullish_def)

lemma call_conforms_body:
  assumes "call_operation (mutating m p None) = Some oper" and "op_query oper = Never"
    and "op_header oper = Required [req ''X-ESGW-Request'' parameters_CsrfHeader]" and "op_path oper = Never"
    and "op_requestBody oper = Required [(''application/json'', T)]" and "conforms T v"
  shows "call_conforms (mutating m p (Some v))"
  using call_conforms_mutating [OF assms(1) disjI1 [OF assms(2)] assms(3-6)] .

lemma mutating_operations:
  "call_operation (mutating ''POST'' ''/auth/bootstrap'' None) = Some operations_createAuthBootstrap"
  "call_operation (mutating ''POST'' ''/auth/login'' None) = Some operations_login"
  "call_operation (mutating ''POST'' ''/config/publish'' None) = Some operations_publishConfig"
  "call_operation (mutating ''POST'' ''/certs'' None) = Some operations_createCertificate"
  "call_operation (mutating ''DELETE'' ''/certs/{name}'' None) = Some operations_deleteCertificate"
  by code_simp+

lemma remove_call_conforms: "call_conforms (remove_call n)"
proof -
  have "call_operation (remove_call n) = Some operations_deleteCertificate"
    using mutating_operations(5) by (simp add: remove_call_def call_operation_def mutating_def)
  then show ?thesis
    by (simp add: call_conforms_def call_ok_def remove_call_def mutating_def operations_deleteCertificate_def
        params_ok_def body_ok_def csrf_params_def csrfHeader_def parameters_CsrfHeader_def parameters_NamePath_def)
qed



text \<open>
  The types the console gives to the answers of its calls are the ones the contract declares
  for their success responses.
\<close>

lemma console_casts_match_contract:
  "call_results bootstrap_call = [schemas_BootstrapState] \<and> call_results session_call = [schemas_Session] \<and>
   call_results (authenticate_call mode [] []) = [schemas_Session] \<and>
   call_results draft_call = [schemas_Draft] \<and> call_results objects_call = [schemas_ObjectList] \<and>
   call_results validate_call = [schemas_ValidationResult] \<and> call_results summary_call = [TObject [] True] \<and>
   call_results config_status_call = [TObject [] True] \<and> call_results system_call = [TObject [] True] \<and>
   map call_results runtime_calls = replicate 5 [TObject [] True] \<and>
   call_results certificates_call = [certificate_list_type] \<and> call_results (compiled_call m) = [TObject [] True] \<and>
   call_results logout_call = []"
proof -
  have "call_results (authenticate_call BootstrapMode [] []) = [schemas_Session]"
    "call_results (authenticate_call LoginMode [] []) = [schemas_Session]" by code_simp+
  then have "call_results (authenticate_call mode [] []) = [schemas_Session]" by (cases mode) simp_all
  moreover have "call_results bootstrap_call = [schemas_BootstrapState]" "call_results session_call = [schemas_Session]"
   "call_results draft_call = [schemas_Draft]" "call_results objects_call = [schemas_ObjectList]"
   "call_results validate_call = [schemas_ValidationResult]" "call_results summary_call = [TObject [] True]"
   "call_results config_status_call = [TObject [] True]" "call_results system_call = [TObject [] True]"
   "map call_results runtime_calls = replicate 5 [TObject [] True]"
   "call_results certificates_call = [certificate_list_type]" "call_results logout_call = []" by code_simp+
  ultimately show ?thesis using compiled_call_conforms by blast
qed

end
