(* ===== verification/ConsoleEntry.thy ===== *)
theory ConsoleEntry
  imports ConsoleApp
begin

text \<open>
  The code editor (\<open>web/src/components/code-editor.tsx\<close>), the classes of the buttons
  (\<open>web/src/components/ui/button.tsx\<close>) and the entry point of the console
  (\<open>web/src/main.tsx\<close>).

  Monaco, the class functions \<open>cva\<close> and \<open>twMerge\<close> and the query client belong to libraries: the model
  has what the source passes to them and what it does with what they report.
\<close>

section \<open>The code editor\<close>

datatype editor_worker = YamlWorker | EditorWorker

definition getWorker :: "string \<Rightarrow> editor_worker" where
  "getWorker label = (if label = ''yaml'' then YamlWorker else EditorWorker)"

text \<open>The settings of \<open>configureMonacoYaml\<close> that are switches.\<close>

definition monaco_yaml :: "(string \<times> bool) list" where
  "monaco_yaml = [(''enableSchemaRequest'', False), (''validate'', True), (''hover'', True), (''completion'', True)]"

text \<open>An absent \<open>language\<close> is YAML, an absent \<open>readOnly\<close> is false.\<close>

definition CodeEditor :: "string \<Rightarrow> string option \<Rightarrow> bool option \<Rightarrow> view" where
  "CodeEditor text_value lang readOnly =
     El ''Editor'' ([(''height'', ''min(64vh, 720px)''), (''language'', case lang of Some l \<Rightarrow> l | None \<Rightarrow> ''yaml''),
         (''value'', text_value), (''theme'', ''vs-dark''), (''fontFamily'', ''IBM Plex Mono''), (''fontSize'', ''13''),
         (''lineHeight'', ''21''), (''wordWrap'', ''on''), (''renderLineHighlight'', ''gutter''), (''automaticLayout'', '''')] @
       flag ''readOnly'' (case readOnly of Some b \<Rightarrow> b | None \<Rightarrow> False))
      [El ''div'' [] [El ''span'' [] [Txt ''Loading editor'']]]"

text \<open>\<open>onChange?.(next ?? "")\<close>, on the state the callback updates.\<close>

definition editor_change :: "(string \<Rightarrow> 's \<Rightarrow> 's) option \<Rightarrow> string option \<Rightarrow> 's \<Rightarrow> 's" where
  "editor_change onChange next s = (case onChange of None \<Rightarrow> s | Some f \<Rightarrow> f (case next of Some t \<Rightarrow> t | None \<Rightarrow> []) s)"

text \<open>The configuration page edits through the editor, the expert page only shows.\<close>

lemma editor_change_edits:
  "content (editor_change (Some edit) next c) = JStr (case next of Some t \<Rightarrow> t | None \<Rightarrow> []) \<and>
   draft (editor_change (Some edit) next c) = draft c \<and> activePath (editor_change (Some edit) next c) = activePath c"
  by (simp add: editor_change_def edit_def)

lemma editor_change_read_only: "editor_change None next s = s"
  by (simp add: editor_change_def)

section \<open>Button classes\<close>

record variants =
  cv_base :: string
  cv_variants :: "(string \<times> (string \<times> string) list) list"
  cv_default :: "(string \<times> string) list"

definition buttonVariants :: variants where
  "buttonVariants = \<lparr>
     cv_base = ''inline-flex min-h-10 items-center justify-center gap-2 border px-4 text-sm font-semibold transition-[background,color,border-color,transform,box-shadow] disabled:pointer-events-none disabled:opacity-45 active:translate-y-px'',
     cv_variants =
       [(''variant'',
          [(''primary'', ''border-signal bg-signal text-white shadow-[3px_3px_0_rgb(var(--ink))] hover:bg-ink hover:border-ink''),
           (''secondary'', ''border-ink bg-paper text-ink hover:bg-ink hover:text-paper''),
           (''ghost'', ''border-transparent bg-transparent text-current hover:border-line hover:bg-white/10''),
           (''danger'', ''border-red-700 bg-red-700 text-white hover:bg-red-800'')]),
        (''size'',
          [(''sm'', ''min-h-8 px-3 text-xs''), (''md'', ''min-h-10 px-4''), (''lg'', ''min-h-12 px-6 text-base''),
           (''icon'', ''h-10 w-10 p-0'')])],
     cv_default = [(''variant'', ''primary''), (''size'', ''md'')]\<rparr>"

text \<open>The class of a button, for the libraries' \<open>cva\<close> and \<open>twMerge\<close>.\<close>

definition button_class ::
    "(variants \<Rightarrow> (string \<times> string) list \<Rightarrow> string) \<Rightarrow> (string list \<Rightarrow> string) \<Rightarrow> (string \<Rightarrow> string) \<Rightarrow> (string \<times> string) list \<Rightarrow> string option \<Rightarrow> string" where
  "button_class cva clsx twMerge chosen className =
     cn clsx twMerge ([cva buttonVariants chosen] @ (case className of Some s \<Rightarrow> [s] | None \<Rightarrow> []))"

text \<open>Every default names a variant that exists, so a button without settings has the classes of one.\<close>

lemma button_defaults_exist:
  "list_all (\<lambda>(k, v). case map_of (cv_variants buttonVariants) k of
      Some vs \<Rightarrow> map_of vs v \<noteq> None | None \<Rightarrow> False) (cv_default buttonVariants)"
  by code_simp

section \<open>The entry point\<close>

record query_options =
  qo_staleTime :: nat
  qo_refetchOnWindowFocus :: bool
  qo_retry :: nat
  qo_mutationRetry :: bool

definition queryClient :: query_options where
  "queryClient = \<lparr>qo_staleTime = 10000, qo_refetchOnWindowFocus = False, qo_retry = 1, qo_mutationRetry = False\<rparr>"

definition console_root :: "view \<Rightarrow> view" where
  "console_root app = El ''StrictMode'' [] [El ''QueryClientProvider'' [] [El ''BrowserRouter'' [] [app]]]"

end
