(* ===== verification/GoPath.thy ===== *)
theory GoPath
  imports Prelude
begin

text \<open>
  The functions of Go's \<open>path/filepath\<close> that the draft code calls, on a system whose separator
  is the slash (so \<open>FromSlash\<close> and \<open>ToSlash\<close> are the identity), and what a path that is its own
  \<open>Clean\<close> looks like.
\<close>

abbreviation slash :: char where "slash \<equiv> CHR ''/''"
abbreviation dot :: char where "dot \<equiv> CHR ''.''"

definition path_isAbs :: "string \<Rightarrow> bool" where
  "path_isAbs p \<longleftrightarrow> p \<noteq> [] \<and> hd p = slash"

text \<open>One component of the path against the components kept so far, the last one first.\<close>

definition clean_step :: "bool \<Rightarrow> string list \<Rightarrow> string \<Rightarrow> string list" where
  "clean_step rooted st c =
     (if c = [] \<or> c = ''.'' then st
      else if c = ''..'' then
        (case st of [] \<Rightarrow> if rooted then [] else [''..'']
         | x # xs \<Rightarrow> if x = ''..'' then ''..'' # st else xs)
      else c # st)"

definition path_clean :: "string \<Rightarrow> string" where
  "path_clean p =
     (if p = [] then ''.''
      else
        let rooted = path_isAbs p;
            out = rev (foldl (clean_step rooted) [] (split_on slash p))
        in if rooted then slash # join_with [slash] out
           else if out = [] then ''.'' else join_with [slash] out)"

text \<open>Everything up to the last slash, with it, and what follows.\<close>

definition path_before :: "string \<Rightarrow> string" where
  "path_before p = rev (dropWhile (\<lambda>c. c \<noteq> slash) (rev p))"

definition path_base :: "string \<Rightarrow> string" where
  "path_base p = rev (takeWhile (\<lambda>c. c \<noteq> slash) (rev p))"

definition path_dir :: "string \<Rightarrow> string" where
  "path_dir p = path_clean (path_before p)"

definition path_ext :: "string \<Rightarrow> string" where
  "path_ext p =
     (let tail = takeWhile (\<lambda>c. c \<noteq> slash) (rev p) in
      if dot \<in> set tail then dot # rev (takeWhile (\<lambda>c. c \<noteq> dot) tail) else [])"

section \<open>Splitting and joining\<close>

lemma split_on_notin: "c \<notin> set s \<Longrightarrow> split_on c s = [s]"
  by (induction s) auto

lemma split_on_append: "c \<notin> set n \<Longrightarrow> split_on c (d @ c # n) = split_on c d @ [n]"
  by (induction d) (auto simp: split_on_notin split: list.splits)

lemma split_on_no_sep: "s \<in> set (split_on c t) \<Longrightarrow> c \<notin> set s"
proof (induction t arbitrary: s)
  case (Cons d t)
  then show ?case
    by (cases "split_on c t") (auto split: if_splits)
qed simp

lemma split_on_join:
  "xs \<noteq> [] \<Longrightarrow> \<forall>x \<in> set xs. c \<notin> set x \<Longrightarrow> split_on c (join_with [c] xs) = xs"
proof (induction xs rule: induct_list012)
  case (3 x y zs)
  have "split_on c (x @ c # s) = x # split_on c s" if "c \<notin> set x" for x s
    using that by (induction x) auto
  with 3 show ?case by simp
qed (auto simp: split_on_notin)

section \<open>Clean paths\<close>

lemma clean_step_length: "length (clean_step r st c) \<le> Suc (length st)"
  by (auto simp: clean_step_def split: list.splits)

lemma clean_length: "length (foldl (clean_step r) st cs) \<le> length st + length cs"
proof (induction cs arbitrary: st)
  case (Cons c cs)
  have "length (foldl (clean_step r) (clean_step r st c) cs) \<le> length (clean_step r st c) + length cs"
    by (rule Cons.IH)
  also have "\<dots> \<le> Suc (length st) + length cs" using clean_step_length [of r st c] by simp
  finally show ?case by simp
qed simp

lemma clean_step_full:
  "length (clean_step r st c) = Suc (length st) \<Longrightarrow> clean_step r st c = c # st"
  by (auto simp: clean_step_def split: if_splits list.splits)

lemma clean_full:
  "length (foldl (clean_step r) st cs) = length st + length cs \<Longrightarrow>
     foldl (clean_step r) st cs = rev cs @ st"
proof (induction cs arbitrary: st)
  case (Cons c cs)
  have "length (clean_step r st c) = Suc (length st)"
    using Cons.prems clean_step_length [of r st c] clean_length [of r "clean_step r st c" cs] by simp
  with Cons show ?case using clean_step_full [of r st c] by simp
qed simp

lemma clean_full_butlast:
  assumes "foldl (clean_step r) [] (cs @ [n]) = rev (cs @ [n])"
  shows "foldl (clean_step r) [] cs = rev cs" and "clean_step r (rev cs) n = n # rev cs"
proof -
  let ?f = "foldl (clean_step r) [] cs"
  have "length (clean_step r ?f n) = Suc (length cs)"
    using assms by simp
  moreover have "length (clean_step r ?f n) \<le> Suc (length ?f)" by (rule clean_step_length)
  moreover have "length ?f \<le> length cs" using clean_length [of r "[]" cs] by simp
  ultimately have "length ?f = length cs" by simp
  then show "?f = rev cs" using clean_full [of r "[]" cs] by simp
  with assms show "clean_step r (rev cs) n = n # rev cs" by simp
qed

lemma clean_step_push: "clean_step r st n = n # st \<Longrightarrow> n \<noteq> [] \<and> n \<noteq> ''.'' \<and> (n = ''..'' \<longrightarrow> st = [] \<or> hd st = ''..'')"
  by (auto simp: clean_step_def split: if_splits list.splits)

lemma path_split: "path_before p @ path_base p = p" "slash \<notin> set (path_base p)"
  by (simp_all add: path_before_def path_base_def flip: rev_append) (auto dest: set_takeWhileD)

lemma path_before_cases: "path_before p = [] \<or> (\<exists>d. path_before p = d @ [slash])"
proof (cases "dropWhile (\<lambda>c. c \<noteq> slash) (rev p)")
  case (Cons c xs)
  moreover from this have "c = slash"
    by (simp add: dropWhile_eq_Cons_conv)
  ultimately show ?thesis by (simp add: path_before_def)
qed (simp add: path_before_def)

text \<open>The out component list of a relative clean path is its own list of components.\<close>

lemma clean_relative:
  assumes "path_clean p = p" and "\<not> path_isAbs p" and "slash \<in> set p"
  shows "foldl (clean_step False) [] (split_on slash p) = rev (split_on slash p)"
proof -
  let ?out = "rev (foldl (clean_step False) [] (split_on slash p))"
  have ne: "p \<noteq> []" using assms(3) by auto
  have "?out \<noteq> []"
    using assms ne by (auto simp: path_clean_def Let_def)
  then have p: "p = join_with [slash] ?out"
    using assms(1,2) ne by (simp add: path_clean_def Let_def)
  have "\<forall>x \<in> set ?out. slash \<notin> set x"
  proof -
    have "\<forall>x \<in> set (foldl (clean_step False) st cs). slash \<notin> set x"
      if "\<forall>x \<in> set cs. slash \<notin> set x" "\<forall>x \<in> set st. slash \<notin> set x" for st cs
      using that
    proof (induction cs arbitrary: st)
      case (Cons c cs)
      have "\<forall>x \<in> set (clean_step False st c). slash \<notin> set x"
        using Cons.prems by (auto simp: clean_step_def split: list.splits)
      with Cons show ?case by simp
    qed simp
    from this [of "split_on slash p" "[]"] show ?thesis
      by (simp add: split_on_no_sep)
  qed
  then have "split_on slash p = ?out"
    using split_on_join \<open>?out \<noteq> []\<close> p by metis
  then show ?thesis by (metis rev_rev_ident)
qed

lemma clean_in_directory:
  assumes "path_clean p = p" and "path_dir p = d" and "d \<noteq> ''.''" and "\<not> path_isAbs p"
  obtains n where "p = d @ slash # n" and "slash \<notin> set n" and "n \<noteq> []" and "n \<noteq> ''.''"
    and "n = ''..'' \<Longrightarrow> last (split_on slash d) = ''..''"
proof -
  have "path_before p \<noteq> []"
    using assms(2,3) by (auto simp: path_dir_def path_clean_def)
  then obtain e where e: "path_before p = e @ [slash]" using path_before_cases by blast
  let ?n = "path_base p"
  have p: "p = e @ slash # ?n" using path_split(1) [of p] e by simp
  have "e \<noteq> []"
  proof
    assume "e = []"
    then have "path_isAbs p" by (subst p) (simp add: path_isAbs_def)
    with assms(4) show False ..
  qed
  have split: "split_on slash p = split_on slash e @ [?n]"
    using p split_on_append [OF path_split(2), of e] by metis
  have "slash \<in> set p" using p by (metis in_set_conv_decomp)
  from clean_relative [OF assms(1,4) this]
  have full: "foldl (clean_step False) [] (split_on slash e @ [?n]) = rev (split_on slash e @ [?n])"
    by (simp only: split)
  note b = clean_full_butlast [OF full]
  have "path_isAbs (e @ x) = path_isAbs e" for x
    using \<open>e \<noteq> []\<close> by (simp add: path_isAbs_def)
  then have rel: "\<not> path_isAbs (e @ [slash])"
    using assms(4) p by metis
  have "path_dir p = join_with [slash] (split_on slash e)"
    using rel b(1) split_on_append [of slash "[]" e] \<open>e \<noteq> []\<close>
    by (simp add: path_dir_def e path_clean_def clean_step_def Let_def)
  then have "d = e" using assms(2) join_split_on by metis
  moreover have "?n = ''..'' \<Longrightarrow> last (split_on slash e) = ''..''"
    using clean_step_push [OF b(2)] by (auto simp: hd_rev)
  ultimately show ?thesis
    using that [of ?n] p path_split(2) clean_step_push [OF b(2)] by simp
qed

end
