(* ===== verification/ConfDraft.thy ===== *)
theory ConfDraft
  imports GoPath "HOL-Library.Char_ord" "HOL-Library.List_Lexorder" "HOL-Library.Multiset"
begin

text \<open>
  The filesystem draft (\<open>internal/conf/draft.go\<close>, \<open>internal/conf/replace.go\<close>): its source files
  and their content hash, the checks on a replacement, and the replacement itself with its
  backup, install and restore steps.

  A data directory maps a name to its entry: a directory of regular files in the order
  \<open>os.ReadDir\<close> lists them (by name), or a file.  Subdirectories of \<open>config.d\<close> are skipped by the
  code and left out.  SHA-256 with its hexadecimal form and the two loaders of the protocol and
  native formats are parameters.  Every filesystem step of a replacement can fail, as its fault
  record says; reading files that exist does not fail.
\<close>

datatype dirent = Entries "(string \<times> string) list" | Contents string

type_synonym data_dir = "string \<Rightarrow> dirent option"

record source_file =
  sf_path :: string
  sf_content :: string

text \<open>The errors the API tells apart: a missing file or row, a draft that changed, a publish that is
  still active, and any other, by its text.  Paths in the texts are relative to the data directory.\<close>

datatype conf_error = ErrNotFound string | ErrDraftChanged string | ErrPublishActive | ErrText string

definition ModeAbstract :: string where "ModeAbstract = ''abstract''"
definition ModeNative :: string where "ModeNative = ''native''"

section \<open>Source files and their hash\<close>

definition yaml_name :: "string \<Rightarrow> bool" where
  "yaml_name n \<longleftrightarrow> path_ext n = ''.yaml'' \<or> path_ext n = ''.yml''"

text \<open>\<open>sourceFiles\<close>: paths relative to the data directory, sorted, with their contents, so that
  the failure to read a \<open>native.yaml\<close> that is a directory, which the callers run into when they
  hash the files, shows here.\<close>

definition config_entries :: "(string \<times> string) list \<Rightarrow> (string \<times> string) list" where
  "config_entries es = map (\<lambda>(n, c). (''config.d/'' @ n, c)) (filter (\<lambda>(n, c). yaml_name n) es)"

definition sourceFiles :: "data_dir \<Rightarrow> conf_error + (string \<times> string) list" where
  "sourceFiles d =
     (case d ''config.d'' of
        Some (Contents _) \<Rightarrow> Inl (ErrText ''config.d is not a directory'')
      | ce \<Rightarrow>
          let configs = (case ce of Some (Entries es) \<Rightarrow> config_entries es | _ \<Rightarrow> []) in
          (case d ''native.yaml'' of
             Some (Entries _) \<Rightarrow> Inl (ErrText ''read native.yaml: is a directory'')
           | Some (Contents c) \<Rightarrow> Inr (sort_key fst (configs @ [(''native.yaml'', c)]))
           | None \<Rightarrow> Inr (sort_key fst configs)))"

text \<open>\<open>binary.BigEndian.PutUint64\<close>: the \<open>k\<close> low bytes of \<open>n\<close>, the highest first.\<close>

fun be_bytes :: "nat \<Rightarrow> nat \<Rightarrow> string" where
  "be_bytes 0 n = []"
| "be_bytes (Suc k) n = be_bytes k (n div 256) @ [char_of (n mod 256)]"

definition writeHashPart :: "string \<Rightarrow> string" where
  "writeHashPart v = be_bytes 8 (length v) @ v"

definition hash_input :: "(string \<times> string) list \<Rightarrow> string" where
  "hash_input files = concat (map (\<lambda>(p, c). writeHashPart p @ writeHashPart c) files)"

definition hashFiles :: "(string \<Rightarrow> string) \<Rightarrow> (string \<times> string) list \<Rightarrow> string" where
  "hashFiles sha files = sha (hash_input files)"

definition DraftHash :: "(string \<Rightarrow> string) \<Rightarrow> data_dir \<Rightarrow> conf_error + string" where
  "DraftHash sha d = bind_result (sourceFiles d) (\<lambda>fs. Inr (hashFiles sha fs))"

section \<open>Loading\<close>

text \<open>A load error with its printed form, and the parameters: the loader of the protocol files, and
  the native loader, which gives an error or the version of the loaded resources.\<close>

record load_error =
  le_text :: string
  le_file :: string
  le_doc :: int
  le_message :: string

record loaders =
  sha256 :: "string \<Rightarrow> string"
  loadDir :: "(string \<times> string) list \<Rightarrow> load_error list"
  loadNative :: "string \<Rightarrow> string + string"

record draft_info =
  dr_mode :: string
  dr_hash :: string
  dr_files :: "(string \<times> string) list"
  dr_errors :: "load_error list"

text \<open>\<open>LoadDraft\<close> creates \<open>config.d\<close> when it is missing.\<close>

definition LoadDraft :: "loaders \<Rightarrow> data_dir \<Rightarrow> (conf_error + draft_info) \<times> data_dir" where
  "LoadDraft L d0 =
     (let d = (if d0 ''config.d'' = None then d0(''config.d'' \<mapsto> Entries []) else d0) in
      (bind_result (sourceFiles d) (\<lambda>files.
         let configs = filter (\<lambda>(p, c). p \<noteq> ''native.yaml'') files in
         if d ''native.yaml'' \<noteq> None \<and> configs \<noteq> []
         then Inl (ErrText ''native.yaml and config.d/*.yaml|*.yml are mutually exclusive'')
         else if d ''native.yaml'' \<noteq> None
         then Inr \<lparr>dr_mode = ModeNative, dr_hash = hashFiles (sha256 L) files, dr_files = files, dr_errors = []\<rparr>
         else Inr \<lparr>dr_mode = ModeAbstract, dr_hash = hashFiles (sha256 L) files, dr_files = files,
                   dr_errors = loadDir L files\<rparr>), d))"

section \<open>Checking a replacement\<close>

text \<open>\<open>%q\<close>, for the quoting of printable text.\<close>

definition go_quote :: "string \<Rightarrow> string" where
  "go_quote s = [CHR 0x22] @ concat (map (\<lambda>c. if c = CHR 0x22 \<or> c = CHR 0x5C then [CHR 0x5C, c] else [c]) s) @ [CHR 0x22]"

fun validate_files :: "string \<Rightarrow> string list \<Rightarrow> source_file list \<Rightarrow> string option" where
  "validate_files mode seen [] = None"
| "validate_files mode seen (f # fs) =
     (let clean = path_clean (sf_path f) in
      if sf_path f = [] \<or> clean \<noteq> sf_path f \<or> path_isAbs (sf_path f) \<or> clean = ''..'' \<or> prefix ''../'' clean
      then Some (''unsafe draft path '' @ go_quote (sf_path f))
      else if clean \<in> set seen then Some (''duplicate draft path '' @ go_quote clean)
      else if mode = ModeNative \<and> clean \<noteq> ''native.yaml''
      then Some ''native draft path must be native.yaml''
      else if mode = ModeAbstract \<and>
         (path_dir clean \<noteq> ''config.d'' \<or> path_ext clean \<noteq> ''.yaml'' \<and> path_ext clean \<noteq> ''.yml'')
      then Some (''protocol draft path '' @ go_quote clean @ '' must be config.d/*.yaml|*.yml'')
      else validate_files mode (clean # seen) fs)"

definition validateSourceSet :: "string \<Rightarrow> source_file list \<Rightarrow> string option" where
  "validateSourceSet mode files =
     (if mode = ModeNative \<and> length files \<noteq> 1
      then Some ''native draft requires exactly one native.yaml file''
      else validate_files mode [] files)"

section \<open>Moving, with failures\<close>

datatype rename_result = RenameOk | RenameFails string | CrossDevice

record move_fault =
  mv_rename :: rename_result
  mv_copy :: "string option"
  mv_remove :: "(nat \<times> string) option"

text \<open>
  \<open>moveDraftPath\<close> on the source entry: the error, what is left of the source, and the target.
  On another device the source is copied and then removed; a removal that fails has deleted the
  first \<open>k\<close> entries of a directory.
\<close>

definition partly_removed :: "nat \<Rightarrow> dirent \<Rightarrow> dirent" where
  "partly_removed k e = (case e of Entries es \<Rightarrow> Entries (drop k es) | Contents c \<Rightarrow> Contents c)"

definition moveDraftPath :: "move_fault \<Rightarrow> dirent \<Rightarrow> string option \<times> dirent option \<times> dirent option" where
  "moveDraftPath m e =
     (case mv_rename m of
        RenameOk \<Rightarrow> (None, None, Some e)
      | RenameFails msg \<Rightarrow> (Some msg, Some e, None)
      | CrossDevice \<Rightarrow>
          (case mv_copy m of
             Some msg \<Rightarrow> (Some msg, Some e, None)
           | None \<Rightarrow>
               (case mv_remove m of
                  None \<Rightarrow> (None, None, Some e)
                | Some (k, msg) \<Rightarrow> (Some (''remove copied draft source: '' @ msg), Some (partly_removed k e), None))))"

record commit_state =
  data :: data_dir
  stage :: data_dir
  backup :: data_dir

record commit_faults =
  mkdir_backup :: "string option"
  stat_data :: "string \<Rightarrow> string option"
  move_backup :: "string \<Rightarrow> move_fault"
  stat_stage :: "string \<Rightarrow> string option"
  move_install :: "string \<Rightarrow> move_fault"
  move_restore :: "string \<Rightarrow> move_fault"

text \<open>\<open>restoreDraftBackup\<close>: errors are ignored; a name that is not there fails to move.\<close>

fun restoreDraftBackup :: "commit_faults \<Rightarrow> string list \<Rightarrow> commit_state \<Rightarrow> commit_state" where
  "restoreDraftBackup f [] s = s"
| "restoreDraftBackup f (n # ns) s =
     restoreDraftBackup f ns
       (case backup s n of
          None \<Rightarrow> s
        | Some e \<Rightarrow>
            (case moveDraftPath (move_restore f n) e of
               (None, src, tgt) \<Rightarrow> s\<lparr>backup := (backup s)(n := src), data := (data s)(n := tgt)\<rparr>
             | (Some _, src, tgt) \<Rightarrow> s\<lparr>backup := (backup s)(n := src)\<rparr>))"

definition rollbackDraftInstall :: "commit_faults \<Rightarrow> string list \<Rightarrow> string list \<Rightarrow> commit_state \<Rightarrow> commit_state" where
  "rollbackDraftInstall f installed moved s =
     restoreDraftBackup f moved (s\<lparr>data := (\<lambda>n. if n \<in> set installed then None else data s n)\<rparr>)"

definition targets :: "string list" where
  "targets = [''config.d'', ''native.yaml'']"

text \<open>The first loop: each existing target is moved into the backup directory.\<close>

fun backup_loop :: "commit_faults \<Rightarrow> string list \<Rightarrow> string list \<Rightarrow> commit_state \<Rightarrow>
    string option \<times> string list \<times> commit_state" where
  "backup_loop f [] moved s = (None, moved, s)"
| "backup_loop f (n # ns) moved s =
     (case stat_data f n of
        Some msg \<Rightarrow> (Some msg, moved, s)
      | None \<Rightarrow>
          (case data s n of
             None \<Rightarrow> backup_loop f ns moved s
           | Some e \<Rightarrow>
               (case moveDraftPath (move_backup f n) e of
                  (Some msg, src, tgt) \<Rightarrow>
                    (Some (''backup draft '' @ n @ '': '' @ msg), moved,
                     restoreDraftBackup f moved (s\<lparr>data := (data s)(n := src)\<rparr>))
                | (None, src, tgt) \<Rightarrow>
                    backup_loop f ns (moved @ [n])
                      (s\<lparr>data := (data s)(n := src), backup := (backup s)(n := tgt)\<rparr>))))"

text \<open>The second loop: each staged target is moved into the data directory.\<close>

fun install_loop :: "commit_faults \<Rightarrow> string list \<Rightarrow> string list \<Rightarrow> string list \<Rightarrow> commit_state \<Rightarrow>
    string option \<times> commit_state" where
  "install_loop f [] moved installed s = (None, s)"
| "install_loop f (n # ns) moved installed s =
     (case stat_stage f n of
        Some msg \<Rightarrow> (Some msg, rollbackDraftInstall f installed moved s)
      | None \<Rightarrow>
          (case stage s n of
             None \<Rightarrow> install_loop f ns moved installed s
           | Some e \<Rightarrow>
               (case moveDraftPath (move_install f n) e of
                  (Some msg, src, tgt) \<Rightarrow>
                    (Some (''install draft '' @ n @ '': '' @ msg),
                     rollbackDraftInstall f installed moved (s\<lparr>stage := (stage s)(n := src)\<rparr>))
                | (None, src, tgt) \<Rightarrow>
                    install_loop f ns moved (installed @ [n])
                      (s\<lparr>stage := (stage s)(n := src), data := (data s)(n := tgt)\<rparr>))))"

text \<open>\<open>commitDraftStage\<close>; the deferred removal of the backup directory runs on every return.\<close>

definition commitDraftStage :: "commit_faults \<Rightarrow> data_dir \<Rightarrow> data_dir \<Rightarrow> string option \<times> data_dir" where
  "commitDraftStage f d stg =
     (case mkdir_backup f of
        Some msg \<Rightarrow> (Some msg, d)
      | None \<Rightarrow>
          (case backup_loop f targets [] \<lparr>data = d, stage = stg, backup = Map.empty\<rparr> of
             (Some msg, _, s) \<Rightarrow> (Some msg, data s)
           | (None, moved, s) \<Rightarrow>
               (case install_loop f targets moved [] s of (res, s') \<Rightarrow> (res, data s'))))"

section \<open>Replacing the draft\<close>

text \<open>The staging directory after all files are written.\<close>

definition staged :: "source_file list \<Rightarrow> data_dir" where
  "staged files =
     Map.empty(''config.d'' \<mapsto> Entries (sort_key fst (map (\<lambda>f. (path_base (sf_path f), sf_content f))
          (filter (\<lambda>f. sf_path f \<noteq> ''native.yaml'') files))),
       ''native.yaml'' := map_option (\<lambda>f. Contents (sf_content f))
          (find (\<lambda>f. sf_path f = ''native.yaml'') files))"

definition ReplaceDraft ::
    "loaders \<Rightarrow> string option \<Rightarrow> commit_faults \<Rightarrow> string \<Rightarrow> source_file list \<Rightarrow> string \<Rightarrow> data_dir \<Rightarrow>
     (conf_error + string) \<times> data_dir" where
  "ReplaceDraft L stage_fault f mode files expectedHash d =
     (if mode \<noteq> ModeAbstract \<and> mode \<noteq> ModeNative
      then (Inl (ErrText (''invalid draft mode '' @ go_quote mode)), d)
      else case DraftHash (sha256 L) d of
        Inl e \<Rightarrow> (Inl e, d)
      | Inr current \<Rightarrow>
        if expectedHash \<noteq> [] \<and> expectedHash \<noteq> current
        then (Inl (ErrDraftChanged (''conf: draft changed since it was read: want '' @ expectedHash @ '', current '' @ current)), d)
        else case validateSourceSet mode files of
          Some msg \<Rightarrow> (Inl (ErrText msg), d)
        | None \<Rightarrow>
          case stage_fault of Some msg \<Rightarrow> (Inl (ErrText msg), d)
          | None \<Rightarrow>
            case LoadDraft L (staged files) of
              (Inl (ErrText msg), _) \<Rightarrow> (Inl (ErrText (''validate replacement draft: '' @ msg)), d)
            | (Inl e, _) \<Rightarrow> (Inl e, d)
            | (Inr dr, stg) \<Rightarrow>
              if dr_errors dr \<noteq> []
              then (Inl (ErrText (''validate replacement draft: '' @ le_text (hd (dr_errors dr)))), d)
              else if dr_mode dr \<noteq> mode
              then (Inl (ErrText (''replacement draft resolved to mode '' @ go_quote (dr_mode dr) @ '', want '' @ go_quote mode)), d)
              else case (if mode = ModeNative
                         then (case stg ''native.yaml'' of
                             Some (Contents c) \<Rightarrow> (case loadNative L c of Inl msg \<Rightarrow> Some msg | Inr _ \<Rightarrow> None)
                           | _ \<Rightarrow> None)
                         else None) of
                Some msg \<Rightarrow> (Inl (ErrText (''validate native draft: '' @ msg)), d)
              | None \<Rightarrow>
                case commitDraftStage f d stg of
                  (Some msg, d') \<Rightarrow> (Inl (ErrText msg), d')
                | (None, d') \<Rightarrow> (DraftHash (sha256 L) d', d'))"

section \<open>The hash identifies the files\<close>

lemma length_be_bytes [simp]: "length (be_bytes k n) = k"
  by (induction k arbitrary: n) auto

lemma be_bytes_Nil_iff [simp]: "be_bytes k n = [] \<longleftrightarrow> k = 0"
  by (cases k) auto

lemma be_bytes_value: "foldl (\<lambda>a c. a * 256 + of_char c) 0 (be_bytes k n) = n mod 256 ^ k"
proof (induction k arbitrary: n)
  case (Suc k)
  have "(n div 256) mod 256 ^ k * 256 + n mod 256 = n mod (256 * 256 ^ k)"
    by (metis add.commute mod_mult2_eq mult.commute)
  with Suc show ?case by simp
qed simp

lemma be_bytes_inj: "be_bytes k m = be_bytes k n \<Longrightarrow> m < 256 ^ k \<Longrightarrow> n < 256 ^ k \<Longrightarrow> m = n"
  by (metis be_bytes_value mod_less)

lemma writeHashPart_inj:
  assumes "writeHashPart v @ x = writeHashPart w @ y" and "length v < 2 ^ 64" and "length w < 2 ^ 64"
  shows "v = w \<and> x = y"
proof -
  have "be_bytes 8 (length v) = be_bytes 8 (length w) \<and> v @ x = w @ y"
    using assms(1) by (simp add: writeHashPart_def)
  moreover from this have "length v = length w"
    using be_bytes_inj [of 8 "length v" "length w"] assms(2,3) by simp
  ultimately show ?thesis by simp
qed

text \<open>Lengths that fit the eight bytes of the frame.\<close>

definition frameable :: "(string \<times> string) list \<Rightarrow> bool" where
  "frameable fs = list_all (\<lambda>(p, c). length p < 2 ^ 64 \<and> length c < 2 ^ 64) fs"

lemma hash_input_inj: "hash_input fs = hash_input gs \<Longrightarrow> frameable fs \<Longrightarrow> frameable gs \<Longrightarrow> fs = gs"
proof (induction fs arbitrary: gs)
  case Nil
  then show ?case by (cases gs) (auto simp: hash_input_def writeHashPart_def simp del: be_bytes.simps)
next
  case (Cons f fs)
  obtain p c where f: "f = (p, c)" by (cases f)
  show ?case
  proof (cases gs)
    case Nil
    with Cons.prems(1) f show ?thesis by (simp add: hash_input_def writeHashPart_def)
  next
    case (Cons g gs')
    obtain q e where g: "g = (q, e)" by (cases g)
    have eq: "writeHashPart p @ writeHashPart c @ hash_input fs =
        writeHashPart q @ writeHashPart e @ hash_input gs'"
      using Cons.prems(1) Cons f g by (simp add: hash_input_def)
    have len: "length p < 2 ^ 64" "length q < 2 ^ 64" "length c < 2 ^ 64" "length e < 2 ^ 64"
      and fr: "frameable fs" "frameable gs'"
      using Cons.prems(2,3) Cons f g by (simp_all add: frameable_def)
    from writeHashPart_inj [OF eq len(1,2)] have "p = q"
      and eq': "writeHashPart c @ hash_input fs = writeHashPart e @ hash_input gs'" by auto
    moreover from writeHashPart_inj [OF eq' len(3,4)] have "c = e" "hash_input fs = hash_input gs'" by auto
    ultimately show ?thesis using Cons.IH [OF _ fr] Cons f g by simp
  qed
qed

section \<open>Accepted replacements stay inside the draft\<close>

lemma tail_after_slash:
  assumes "slash \<notin> set n"
  shows "takeWhile (\<lambda>c. c \<noteq> slash) (rev (d @ slash # n)) = rev n"
    and "takeWhile (\<lambda>c. c \<noteq> slash) (rev n) = rev n"
proof -
  have n: "c \<noteq> slash" if "c \<in> set (rev n)" for c using assms that by auto
  have "takeWhile (\<lambda>c. c \<noteq> slash) (rev n @ slash # rev d) = rev n @ takeWhile (\<lambda>c. c \<noteq> slash) (slash # rev d)"
    by (rule takeWhile_append2 [OF n])
  then show "takeWhile (\<lambda>c. c \<noteq> slash) (rev (d @ slash # n)) = rev n" by simp
  show "takeWhile (\<lambda>c. c \<noteq> slash) (rev n) = rev n" using n by (simp add: takeWhile_eq_all_conv)
qed

lemma path_ext_base: "slash \<notin> set n \<Longrightarrow> path_ext (d @ slash # n) = path_ext n"
  using tail_after_slash(1) [of n d] tail_after_slash(2) [of n] unfolding path_ext_def by metis

lemma path_base_file: "slash \<notin> set n \<Longrightarrow> path_base (d @ slash # n) = n"
  using tail_after_slash(1) [of n d] unfolding path_base_def by (metis rev_rev_ident)

definition draft_member :: "string \<Rightarrow> bool" where
  "draft_member p \<longleftrightarrow> (\<exists>n. p = ''config.d/'' @ n \<and> slash \<notin> set n \<and> n \<noteq> [] \<and> n \<noteq> ''.'' \<and> n \<noteq> ''..'' \<and> yaml_name n)"

lemma accepted_path:
  assumes "path_clean p = p" and "path_dir p = ''config.d''" and "\<not> path_isAbs p"
    and "path_ext p = ''.yaml'' \<or> path_ext p = ''.yml''"
  shows "draft_member p"
proof -
  obtain n where n: "p = ''config.d'' @ slash # n" "slash \<notin> set n" "n \<noteq> []" "n \<noteq> ''.''"
    "n = ''..'' \<Longrightarrow> last (split_on slash ''config.d'') = ''..''"
    using clean_in_directory [OF assms(1,2) _ assms(3)] by auto
  have "split_on slash ''config.d'' = [''config.d'']" by code_simp
  with n have "n \<noteq> ''..''" by auto
  moreover have "yaml_name n"
    using assms(4) n(1,2) path_ext_base [of n "''config.d''"] by (simp add: yaml_name_def)
  ultimately show ?thesis using n by (auto simp: draft_member_def)
qed

lemma validate_files_abstract:
  assumes "validate_files ModeAbstract seen fs = None"
  shows "distinct (map sf_path fs) \<and> set (map sf_path fs) \<inter> set seen = {} \<and>
     (\<forall>f \<in> set fs. draft_member (sf_path f))"
  using assms
proof (induction fs arbitrary: seen)
  case (Cons f fs)
  then have a: "path_clean (sf_path f) = sf_path f" "\<not> path_isAbs (sf_path f)" "sf_path f \<notin> set seen"
    "path_dir (sf_path f) = ''config.d''" "path_ext (sf_path f) = ''.yaml'' \<or> path_ext (sf_path f) = ''.yml''"
    and rest: "validate_files ModeAbstract (sf_path f # seen) fs = None"
    by (auto simp: Let_def ModeAbstract_def ModeNative_def split: if_splits)
  from Cons.IH [OF rest] a accepted_path [OF a(1,4,2,5)] show ?case by auto
qed simp

section \<open>Committing\<close>

definition move_succeeds :: "move_fault \<Rightarrow> bool" where
  "move_succeeds m \<longleftrightarrow> mv_rename m = RenameOk \<or> mv_rename m = CrossDevice \<and> mv_copy m = None \<and> mv_remove m = None"

lemma moveDraftPath_ok: "move_succeeds m \<Longrightarrow> moveDraftPath m e = (None, None, Some e)"
  by (auto simp: move_succeeds_def moveDraftPath_def)

lemma moveDraftPath_cases:
  obtains "moveDraftPath m e = (None, None, Some e)"
  | msg src where "moveDraftPath m e = (Some msg, Some src, None)" and "mv_remove m = None \<Longrightarrow> src = e"
  by (cases "mv_rename m"; cases "mv_copy m"; cases "mv_remove m") (auto simp: moveDraftPath_def)

lemma two_targets: "''config.d'' \<noteq> ''native.yaml''"
  by simp

lemma restore_all:
  assumes "\<forall>n. move_succeeds (move_restore f n)" and "distinct ns" and "\<forall>n \<in> set ns. backup s n \<noteq> None"
  shows "data (restoreDraftBackup f ns s) = (\<lambda>n. if n \<in> set ns then backup s n else data s n)"
  using assms(2,3)
proof (induction ns arbitrary: s)
  case (Cons n ns)
  obtain e where e: "backup s n = Some e" using Cons.prems by auto
  let ?s = "s\<lparr>backup := (backup s)(n := None), data := (data s)(n := Some e)\<rparr>"
  have "data (restoreDraftBackup f ns ?s) = (\<lambda>k. if k \<in> set ns then backup ?s k else data ?s k)"
    using Cons by (intro Cons.IH) auto
  moreover have "restoreDraftBackup f (n # ns) s = restoreDraftBackup f ns ?s"
    using e moveDraftPath_ok assms(1) by simp
  ultimately show ?case using e Cons.prems(1) by (auto simp: fun_eq_iff)
qed (simp add: fun_eq_iff)

text \<open>What the backup loop establishes: a name is in the backup exactly when it was moved, and
  together with the data directory nothing is lost.\<close>

definition backed_up :: "data_dir \<Rightarrow> data_dir \<Rightarrow> string list \<Rightarrow> commit_state \<Rightarrow> bool" where
  "backed_up d stg moved s \<longleftrightarrow> distinct moved \<and> stage s = stg \<and>
     (\<forall>n \<in> set moved. backup s n = d n \<and> d n \<noteq> None \<and> data s n = None) \<and>
     (\<forall>n. n \<notin> set moved \<longrightarrow> data s n = d n)"

lemma restore_backed_up:
  assumes "\<forall>n. move_succeeds (move_restore f n)" and "backed_up d stg moved s"
  shows "data (restoreDraftBackup f moved s) = d"
  using restore_all [OF assms(1), of moved s] assms(2) by (auto simp: backed_up_def fun_eq_iff)

lemma backup_loop_inv:
  assumes "\<forall>n. stat_data f n = None" and "\<forall>n. mv_remove (move_backup f n) = None"
    and "\<forall>n. move_succeeds (move_restore f n)"
    and "backed_up d stg moved s" and "distinct (moved @ ns)" and "backup_loop f ns moved s = (res, moved', s')"
  shows "case res of
      None \<Rightarrow> backed_up d stg moved' s' \<and> (\<forall>n. n \<in> set ns \<or> data s n = None \<longrightarrow> data s' n = None)
    | Some _ \<Rightarrow> data s' = d"
  using assms(4-6)
proof (induction ns arbitrary: moved s)
  case (Cons n ns)
  show ?case
  proof (cases "data s n")
    case None
    with Cons.prems assms(1) have "backup_loop f ns moved s = (res, moved', s')" by simp
    from Cons.IH [OF Cons.prems(1) _ this] Cons.prems(2) None show ?thesis by (cases res) auto
  next
    case (Some e)
    show ?thesis
    proof (rule moveDraftPath_cases [of "move_backup f n" e])
      assume 1: "moveDraftPath (move_backup f n) e = (None, None, Some e)"
      let ?s = "s\<lparr>data := (data s)(n := None), backup := (backup s)(n := Some e)\<rparr>"
      have "backed_up d stg (moved @ [n]) ?s"
        using Cons.prems(1,2) Some by (auto simp: backed_up_def)
      moreover have "backup_loop f ns (moved @ [n]) ?s = (res, moved', s')"
        using Cons.prems(3) Some 1 assms(1) by simp
      ultimately show ?thesis
        using Cons.IH [of "moved @ [n]" ?s] Cons.prems(2) by (cases res) auto
    next
      fix msg src assume "moveDraftPath (move_backup f n) e = (Some msg, Some src, None)"
        and "mv_remove (move_backup f n) = None \<Longrightarrow> src = e"
      moreover have "s\<lparr>data := (data s)(n := Some e)\<rparr> = s"
        using Some by (simp add: fun_upd_idem)
      ultimately show ?thesis
        using Cons.prems Some assms(1,2) restore_backed_up [OF assms(3) Cons.prems(1)] by auto
    qed
  qed
qed auto

text \<open>During the install loop the names that hold new entries are the installed ones.\<close>

lemma install_loop_restores:
  assumes "\<forall>n. move_succeeds (move_restore f n)" and "backed_up d stg0 moved s0"
    and "\<forall>n \<in> set (installed @ ns). data s0 n = None"
    and "backup s = backup s0" and "\<forall>n. n \<notin> set installed \<longrightarrow> data s n = data s0 n"
    and "install_loop f ns moved installed s = (Some msg, s')"
  shows "data s' = d"
  using assms(3-6)
proof (induction ns arbitrary: installed s)
  case (Cons n ns)
  have undo: "data (rollbackDraftInstall f installed moved (s\<lparr>stage := x\<rparr>)) = d" for x
  proof -
    let ?r = "s\<lparr>stage := x, data := (\<lambda>n. if n \<in> set installed then None else data s n)\<rparr>"
    have "data ?r = data s0" using Cons.prems(1,3) by (auto simp: fun_eq_iff)
    then have "backed_up d x moved ?r"
      using assms(2) Cons.prems(2) by (auto simp: backed_up_def)
    then show ?thesis
      using restore_backed_up [OF assms(1)] by (simp add: rollbackDraftInstall_def cong: if_cong)
  qed
  from undo [of "stage s"] have undo': "data (rollbackDraftInstall f installed moved s) = d" by simp
  consider (fails) m where "stat_stage f n = Some m" | (absent) "stat_stage f n = None" "stage s n = None"
    | (present) "stat_stage f n = None \<and> stage s n \<noteq> None" by (cases "stat_stage f n") auto
  then show ?case
  proof cases
    case fails
    then show ?thesis using Cons.prems undo' by auto
  next
    case absent
    show ?thesis
      by (rule Cons.IH [of installed s]) (use Cons.prems absent in auto)
  next
    case True: present
    then obtain e where e: "stage s n = Some e" by auto
    show ?thesis
    proof (rule moveDraftPath_cases [of "move_install f n" e])
      assume 1: "moveDraftPath (move_install f n) e = (None, None, Some e)"
      let ?s = "s\<lparr>stage := (stage s)(n := None), data := (data s)(n := Some e)\<rparr>"
      show ?thesis
        by (rule Cons.IH [of "installed @ [n]" ?s]) (use Cons.prems True e 1 in auto)
    next
      fix m src assume "moveDraftPath (move_install f n) e = (Some m, Some src, None)"
      with Cons.prems True e undo show ?thesis by auto
    qed
  qed
qed simp

lemma start_backed_up: "backed_up d stg [] \<lparr>data = d, stage = stg, backup = Map.empty\<rparr>"
  by (simp add: backed_up_def)

text \<open>A loop that ends without error has moved everything there was to move.\<close>

lemma backup_loop_done:
  "backup_loop f ns moved s = (None, moved', s') \<Longrightarrow>
     stage s' = stage s \<and> data s' = (\<lambda>n. if n \<in> set ns then None else data s n)"
proof (induction ns arbitrary: moved s)
  case (Cons n ns)
  show ?case
  proof (cases "data s n")
    case None
    with Cons show ?thesis by (fastforce simp: fun_eq_iff split: option.splits)
  next
    case (Some e)
    show ?thesis
      by (rule moveDraftPath_cases [of "move_backup f n" e])
         (use Some Cons in \<open>fastforce simp: fun_eq_iff split: option.splits\<close>)+
  qed
qed (simp add: fun_eq_iff)

lemma install_loop_done:
  "install_loop f ns moved installed s = (None, s') \<Longrightarrow> distinct ns \<Longrightarrow>
     data s' = (\<lambda>n. if n \<in> set ns \<and> stage s n \<noteq> None then stage s n else data s n)"
proof (induction ns arbitrary: installed s)
  case (Cons n ns)
  show ?case
  proof (cases "stage s n")
    case None
    with Cons show ?thesis by (fastforce simp: fun_eq_iff split: option.splits)
  next
    case (Some e)
    show ?thesis
    proof (rule moveDraftPath_cases [of "move_install f n" e])
      assume m: "moveDraftPath (move_install f n) e = (None, None, Some e)"
      let ?s = "s\<lparr>stage := (stage s)(n := None), data := (data s)(n := Some e)\<rparr>"
      have "install_loop f ns moved (installed @ [n]) ?s = (None, s')"
        using Cons.prems(1) Some m by (simp split: option.splits)
      with Cons.IH [of "installed @ [n]" ?s] Cons.prems(2) Some show ?thesis by (auto simp: fun_eq_iff)
    next
      fix m src assume "moveDraftPath (move_install f n) e = (Some m, Some src, None)"
      with Cons.prems(1) Some show ?thesis by (simp split: option.splits)
    qed
  qed
qed (simp add: fun_eq_iff)

lemma commit_done:
  assumes "commitDraftStage f d stg = (None, d')"
  shows "d' = (\<lambda>n. if n \<in> set targets then stg n else d n)"
proof -
  obtain moved s s' where b: "backup_loop f targets [] \<lparr>data = d, stage = stg, backup = Map.empty\<rparr> = (None, moved, s)"
    and i: "install_loop f targets moved [] s = (None, s')" and "d' = data s'"
    using assms by (auto simp: commitDraftStage_def split: option.splits prod.splits)
  moreover have "distinct targets" by (simp add: targets_def)
  ultimately show ?thesis
    using backup_loop_done [OF b] install_loop_done [OF i] by (auto simp: fun_eq_iff)
qed

lemma backup_loop_ok:
  assumes "\<forall>n. stat_data f n = None" and "\<forall>n. move_succeeds (move_backup f n)"
  shows "\<exists>moved s'. backup_loop f ns moved0 s = (None, moved, s')"
proof (induction ns arbitrary: moved0 s)
  case (Cons n ns)
  then show ?case using assms by (cases "data s n") (auto simp: moveDraftPath_ok)
qed simp

lemma install_loop_ok:
  assumes "\<forall>n. stat_stage f n = None" and "\<forall>n. move_succeeds (move_install f n)"
  shows "\<exists>s'. install_loop f ns moved installed s = (None, s')"
proof (induction ns arbitrary: installed s)
  case (Cons n ns)
  then show ?case using assms by (cases "stage s n") (auto simp: moveDraftPath_ok)
qed simp

text \<open>Faults that leave the restore path intact: what may go wrong is creating the backup
  directory, and the rename or the copy of any single move.\<close>

definition recoverable :: "commit_faults \<Rightarrow> bool" where
  "recoverable f \<longleftrightarrow> (\<forall>n. stat_data f n = None) \<and> (\<forall>n. mv_remove (move_backup f n) = None) \<and>
     (\<forall>n. move_succeeds (move_restore f n))"

definition faultless :: "commit_faults \<Rightarrow> bool" where
  "faultless f \<longleftrightarrow> mkdir_backup f = None \<and> (\<forall>n. stat_data f n = None) \<and> (\<forall>n. stat_stage f n = None) \<and>
     (\<forall>n. move_succeeds (move_backup f n)) \<and> (\<forall>n. move_succeeds (move_install f n))"

lemma commit_faultless: "faultless f \<Longrightarrow> \<exists>d'. commitDraftStage f d stg = (None, d')"
proof -
  assume f: "faultless f"
  then obtain moved s where "backup_loop f targets [] \<lparr>data = d, stage = stg, backup = Map.empty\<rparr> = (None, moved, s)"
    using backup_loop_ok by (metis faultless_def)
  moreover obtain s' where "install_loop f targets moved [] s = (None, s')"
    using f install_loop_ok by (metis faultless_def)
  ultimately show ?thesis
    using f by (simp add: commitDraftStage_def faultless_def)
qed

section \<open>Properties\<close>


text \<open>A draft directory and two fault records: none, and a failing install of the second entry.\<close>

definition no_fault :: move_fault where
  "no_fault = \<lparr>mv_rename = RenameOk, mv_copy = None, mv_remove = None\<rparr>"

definition no_faults :: commit_faults where
  "no_faults = \<lparr>mkdir_backup = None, stat_data = (\<lambda>_. None), move_backup = (\<lambda>_. no_fault),
     stat_stage = (\<lambda>_. None), move_install = (\<lambda>_. no_fault), move_restore = (\<lambda>_. no_fault)\<rparr>"

definition demo_dir :: data_dir where
  "demo_dir = [''config.d'' \<mapsto> Entries [(''a.yaml'', ''a: 1''), (''b.yaml'', ''b: 1'')], ''secrets'' \<mapsto> Contents ''s'']"

definition failing_install :: commit_faults where
  "failing_install = no_faults\<lparr>move_install := (\<lambda>n. if n = ''config.d''
     then no_fault\<lparr>mv_rename := RenameFails ''no space''\<rparr> else no_fault)\<rparr>"


text \<open>
  Every path of an accepted replacement lies directly in the draft.  For a protocol draft
  each path is \<open>config.d/\<close> and a file name with a YAML extension, without a further slash and
  other than the two dot names, and no path occurs twice; a native draft is the single file
  \<open>native.yaml\<close>.  So no replacement writes outside its staging directory.
\<close>

theorem replacement_paths_confined:
  assumes "validateSourceSet mode files = None"
  shows "(mode = ModeAbstract \<longrightarrow> distinct (map sf_path files) \<and> (\<forall>f \<in> set files. draft_member (sf_path f))) \<and>
         (mode = ModeNative \<longrightarrow> map sf_path files = [''native.yaml''])"
proof (intro conjI impI)
  assume "mode = ModeAbstract"
  then have "validate_files ModeAbstract [] files = None"
    using assms by (simp add: validateSourceSet_def ModeAbstract_def ModeNative_def)
  from validate_files_abstract [OF this] show "distinct (map sf_path files)"
    and "\<forall>f \<in> set files. draft_member (sf_path f)" by auto
next
  assume m: "mode = ModeNative"
  then obtain f where "files = [f]"
    using assms by (auto simp: validateSourceSet_def length_Suc_conv split: if_splits)
  with assms m show "map sf_path files = [''native.yaml'']"
    by (auto simp: validateSourceSet_def Let_def split: if_splits)
qed

theorem replacement_paths_confined_witness:
  "validateSourceSet ModeAbstract [\<lparr>sf_path = ''config.d/../native.yaml'', sf_content = []\<rparr>] \<noteq> None \<and>
   draft_member ''config.d/a.yaml''"
proof -
  have "validateSourceSet ModeAbstract [\<lparr>sf_path = ''config.d/a.yaml'', sf_content = []\<rparr>] = None" by code_simp
  from replacement_paths_confined [OF this] have "draft_member ''config.d/a.yaml''" by simp
  moreover have "validateSourceSet ModeAbstract [\<lparr>sf_path = ''config.d/../native.yaml'', sf_content = []\<rparr>] \<noteq> None"
    by code_simp
  ultimately show ?thesis by blast
qed

subsection \<open>Optimistic concurrency\<close>

text \<open>
  The contract between a store and the clients that read a document, keep its version and write
  the document back with it: a write goes through only against the version it names.
\<close>

locale optimistic_store =
  fixes current :: "'s \<Rightarrow> 'v option"
    and replace_at :: "'v \<Rightarrow> 'd \<Rightarrow> 's \<Rightarrow> 's option"
  assumes replace_needs_current: "replace_at v x s = Some s' \<Longrightarrow> current s = Some v"
begin

lemma second_writer_refused:
  assumes "replace_at v x s = Some s'" and "current s' \<noteq> current s"
  shows "replace_at v y s' = None"
  using assms replace_needs_current [of v x s s'] replace_needs_current [of v y s']
  by (cases "replace_at v y s'") auto

lemma current_unique: "replace_at v x s = Some s' \<Longrightarrow> current s = Some w \<Longrightarrow> w = v"
  using replace_needs_current by fastforce

end

definition draft_version :: "loaders \<Rightarrow> data_dir \<Rightarrow> string option" where
  "draft_version L d = (case DraftHash (sha256 L) d of Inr h \<Rightarrow> Some h | Inl _ \<Rightarrow> None)"

definition replaced :: "(conf_error + string) \<times> data_dir \<Rightarrow> data_dir option" where
  "replaced r = (case r of (Inr _, d) \<Rightarrow> Some d | _ \<Rightarrow> None)"

lemma ReplaceDraft_success:
  assumes "ReplaceDraft L sf f mode files expected d = (Inr h, d')"
  shows "(expected \<noteq> [] \<longrightarrow> draft_version L d = Some expected)"
    and "validateSourceSet mode files = None"
    and "commitDraftStage f d (snd (LoadDraft L (staged files))) = (None, d')"
    and "DraftHash (sha256 L) d' = Inr h"
    and "\<exists>dr. fst (LoadDraft L (staged files)) = Inr dr \<and> dr_mode dr = mode \<and> dr_errors dr = []"
  using assms
  by (auto simp: ReplaceDraft_def draft_version_def split: if_splits sum.splits option.splits prod.splits
      conf_error.splits)

interpretation draft_store: optimistic_store "draft_version L"
    "\<lambda>v files d. if v = [] then None else replaced (ReplaceDraft L sf f mode files v d)"
  for L sf f mode
proof
  fix v :: string and x s s'
  assume "(if v = [] then None else replaced (ReplaceDraft L sf f mode x v s)) = Some s'"
  then obtain h where "v \<noteq> []" "ReplaceDraft L sf f mode x v s = (Inr h, s')"
    by (auto simp: replaced_def split: if_splits prod.splits sum.splits)
  with ReplaceDraft_success(1) show "draft_version L s = Some v" by blast
qed

lemma sort_key_unique:
  fixes k :: "'a \<Rightarrow> 'b :: linorder"
  assumes "mset xs = mset ys" and "distinct (map k xs)"
  shows "sort_key k xs = sort_key k ys"
proof (rule properties_for_sort_key [symmetric])
  have set: "set xs = set ys" using assms(1) by (metis set_mset_mset)
  have dist: "distinct (map k ys)"
    using assms by (metis distinct_count_atmost_1 mset_map distinct_map mset_eq_imp_distinct_iff)
  have one: "filter (\<lambda>x. k z = k x) zs = [z]" if "z \<in> set zs" "distinct (map k zs)" for z zs
    using that
  proof (induction zs)
    case (Cons a zs)
    then show ?case by (cases "k z = k a") (auto simp: filter_empty_conv image_iff)
  qed simp
  show "mset (sort_key k xs) = mset ys" using assms(1) by simp
  show "sorted (map k (sort_key k xs))" by simp
  fix z assume "z \<in> set (sort_key k xs)"
  then show "filter (\<lambda>x. k z = k x) (sort_key k xs) = filter (\<lambda>x. k z = k x) ys"
    using one [of z ys] one [of z xs] dist assms(2) set by (simp add: filter_sort)
qed

lemma config_entries_of_members:
  assumes "\<forall>f \<in> set files. draft_member (sf_path f)"
  shows "config_entries (map (\<lambda>f. (path_base (sf_path f), sf_content f)) files) =
     map (\<lambda>f. (sf_path f, sf_content f)) files"
  using assms
proof (induction files)
  case (Cons f fs)
  then obtain n where "sf_path f = ''config.d/'' @ n" "slash \<notin> set n" "yaml_name n"
    by (auto simp: draft_member_def)
  moreover from this have "path_base (sf_path f) = n"
    using path_base_file [of n "''config.d''"] by simp
  ultimately show ?case using Cons by (simp add: config_entries_def)
qed (simp add: config_entries_def)

lemma mset_config_entries: "mset xs = mset ys \<Longrightarrow> mset (config_entries xs) = mset (config_entries ys)"
  by (simp add: config_entries_def mset_filter)

lemma sourceFiles_staged:
  assumes "distinct (map sf_path files)" and mem: "\<forall>f \<in> set files. draft_member (sf_path f)"
  shows "sourceFiles (staged files) = Inr (sort_key fst (map (\<lambda>f. (sf_path f, sf_content f)) files))"
proof -
  have native: "sf_path f \<noteq> ''native.yaml''" if "f \<in> set files" for f
    using mem that by (auto simp: draft_member_def)
  then have "filter (\<lambda>f. sf_path f \<noteq> ''native.yaml'') files = files"
    "find (\<lambda>f. sf_path f = ''native.yaml'') files = None"
    by (auto simp: filter_id_conv find_None_iff)
  then have st: "sourceFiles (staged files) = Inr (sort_key fst
      (config_entries (sort_key fst (map (\<lambda>f. (path_base (sf_path f), sf_content f)) files))))"
    by (simp add: sourceFiles_def staged_def)
  let ?es = "map (\<lambda>f. (path_base (sf_path f), sf_content f)) files"
  have "mset (config_entries (sort_key fst ?es)) = mset (config_entries ?es)"
    by (rule mset_config_entries) simp
  also have "\<dots> = mset (map (\<lambda>f. (sf_path f, sf_content f)) files)"
    by (simp only: config_entries_of_members [OF mem])
  finally have "sort_key fst (map (\<lambda>f. (sf_path f, sf_content f)) files) = sort_key fst (config_entries (sort_key fst ?es))"
    by (intro sort_key_unique) (use assms(1) in \<open>simp_all add: comp_def\<close>)
  with st show ?thesis by simp
qed

lemma LoadDraft_dir: "d ''config.d'' \<noteq> None \<Longrightarrow> snd (LoadDraft L d) = d"
  by (auto simp: LoadDraft_def Let_def)

lemma sourceFiles_cong:
  assumes "d ''config.d'' = e ''config.d''" and "d ''native.yaml'' = e ''native.yaml''"
  shows "sourceFiles d = sourceFiles e"
  unfolding sourceFiles_def assms ..

text \<open>A protocol draft that is well-formed, loads without errors and names the current version is
  accepted when the filesystem works.\<close>

lemma ReplaceDraft_accepts:
  assumes "faultless f" and "validateSourceSet ModeAbstract files = None"
    and "DraftHash (sha256 L) d = Inr v" and "expected = [] \<or> expected = v"
    and "loadDir L (sort_key fst (map (\<lambda>f. (sf_path f, sf_content f)) files)) = []"
  shows "\<exists>h d'. ReplaceDraft L None f ModeAbstract files expected d = (Inr h, d')"
proof -
  let ?fs = "sort_key fst (map (\<lambda>f. (sf_path f, sf_content f)) files)"
  have val: "distinct (map sf_path files)" "\<forall>f \<in> set files. draft_member (sf_path f)"
    using validate_files_abstract [of "[]" files] assms(2)
    by (auto simp: validateSourceSet_def ModeAbstract_def ModeNative_def)
  note src = sourceFiles_staged [OF val]
  have "sf_path f \<noteq> ''native.yaml''" if "f \<in> set files" for f
    using val(2) that by (auto simp: draft_member_def)
  then have nat: "staged files ''native.yaml'' = None"
    by (auto simp: staged_def find_None_iff)
  have dir: "staged files ''config.d'' \<noteq> None" by (simp add: staged_def)
  have load: "LoadDraft L (staged files) = (Inr \<lparr>dr_mode = ModeAbstract, dr_hash = hashFiles (sha256 L) ?fs,
      dr_files = ?fs, dr_errors = []\<rparr>, staged files)"
    using src nat dir assms(5) by (auto simp: LoadDraft_def Let_def)
  obtain d' where c: "commitDraftStage f d (staged files) = (None, d')"
    using commit_faultless [OF assms(1)] ..
  have "sourceFiles d' = Inr ?fs"
    using commit_done [OF c] src sourceFiles_cong [of d' "staged files"] by (simp add: targets_def)
  with c load assms(2,3,4) show ?thesis
    by (auto simp: ReplaceDraft_def ModeAbstract_def ModeNative_def DraftHash_def)
qed

text \<open>
  C6: no update is lost.  A replacement of a protocol draft that names a version goes through
  only if the files in the data directory are the ones that version was computed from, unless
  two different inputs of the hash collide; and then the files read next are exactly the files
  of the replacement, sorted by path, under the version that was returned.
\<close>

theorem replace_draft_no_lost_update:
  assumes "ReplaceDraft L sf f ModeAbstract files (hashFiles (sha256 L) seen) d = (Inr h, d')"
    and "sourceFiles d = Inr current" and "frameable seen" and "frameable current"
    and "hashFiles (sha256 L) seen \<noteq> []"
  shows "(current = seen \<or> (\<exists>x y. x \<noteq> y \<and> sha256 L x = sha256 L y)) \<and>
     sourceFiles d' = Inr (sort_key fst (map (\<lambda>f. (sf_path f, sf_content f)) files)) \<and>
     h = hashFiles (sha256 L) (sort_key fst (map (\<lambda>f. (sf_path f, sf_content f)) files))"
proof -
  note R = ReplaceDraft_success [OF assms(1)]
  have "sha256 L (hash_input current) = sha256 L (hash_input seen)"
    using R(1) assms(2,5) by (simp add: draft_version_def DraftHash_def hashFiles_def)
  then have "current = seen \<or> (\<exists>x y. x \<noteq> y \<and> sha256 L x = sha256 L y)"
    using hash_input_inj [OF _ assms(4,3)] by blast
  moreover have "validate_files ModeAbstract [] files = None"
    using R(2) by (simp add: validateSourceSet_def ModeAbstract_def ModeNative_def)
  then have "sourceFiles (staged files) = Inr (sort_key fst (map (\<lambda>f. (sf_path f, sf_content f)) files))"
    using validate_files_abstract by (intro sourceFiles_staged) blast+
  moreover have "sourceFiles d' = sourceFiles (staged files)"
  proof -
    have "snd (LoadDraft L (staged files)) = staged files"
      by (rule LoadDraft_dir) (simp add: staged_def)
    then show ?thesis
      using commit_done [OF R(3)] by (intro sourceFiles_cong) (simp_all add: targets_def)
  qed
  ultimately show ?thesis using R(4) by (simp add: DraftHash_def)
qed

lemma no_faults_faultless: "faultless no_faults"
  by (simp add: faultless_def no_faults_def no_fault_def move_succeeds_def)

definition demo_loaders :: loaders where
  "demo_loaders = \<lparr>sha256 = (\<lambda>x. ''h'' @ x), loadDir = (\<lambda>_. []), loadNative = (\<lambda>_. Inr ''ir'')\<rparr>"

definition demo_seen :: "(string \<times> string) list" where
  "demo_seen = [(''config.d/a.yaml'', ''a: 1''), (''config.d/b.yaml'', ''b: 1'')]"

theorem replace_draft_no_lost_update_witness:
  "sourceFiles (snd (ReplaceDraft demo_loaders None no_faults ModeAbstract
      [\<lparr>sf_path = ''config.d/c.yaml'', sf_content = ''c: 2''\<rparr>] (hashFiles (sha256 demo_loaders) demo_seen) demo_dir)) =
    Inr [(''config.d/c.yaml'', ''c: 2'')]"
proof -
  let ?R = "ReplaceDraft demo_loaders None no_faults ModeAbstract
      [\<lparr>sf_path = ''config.d/c.yaml'', sf_content = ''c: 2''\<rparr>] (hashFiles (sha256 demo_loaders) demo_seen) demo_dir"
  have src: "sourceFiles demo_dir = Inr demo_seen" by code_simp
  have "validateSourceSet ModeAbstract [\<lparr>sf_path = ''config.d/c.yaml'', sf_content = ''c: 2''\<rparr>] = None" by code_simp
  moreover have "DraftHash (sha256 demo_loaders) demo_dir = Inr (hashFiles (sha256 demo_loaders) demo_seen)"
    by (simp add: DraftHash_def src)
  moreover have "loadDir demo_loaders fs = []" for fs by (simp add: demo_loaders_def)
  ultimately obtain h d' where R: "?R = (Inr h, d')"
    using ReplaceDraft_accepts [OF no_faults_faultless] by blast
  have "frameable demo_seen" "hashFiles (sha256 demo_loaders) demo_seen \<noteq> []"
    by (simp_all add: frameable_def demo_seen_def hashFiles_def demo_loaders_def)
  note src this
  from replace_draft_no_lost_update [OF R this(1,2,2,3)] R show ?thesis by simp
qed

subsection \<open>Faults that lose the draft\<close>

text \<open>
  The claim of \<open>ReplaceDraft\<close> that the prior draft is restored if the commit cannot finish
  does not hold for a failing check of \<open>native.yaml\<close>.  By then \<open>config.d\<close> has been moved into the
  backup directory, the error path returns without restoring it, and the deferred removal deletes
  the backup: the error is reported and the whole protocol draft is gone.
\<close>

theorem stat_failure_loses_draft:
  assumes "mkdir_backup f = None" and "stat_data f ''config.d'' = None" and "d ''config.d'' = Some e"
    and "move_succeeds (move_backup f ''config.d'')" and "stat_data f ''native.yaml'' = Some msg"
  shows "commitDraftStage f d stg = (Some msg, d(''config.d'' := None))"
  using assms by (simp add: commitDraftStage_def targets_def moveDraftPath_ok)

theorem stat_failure_loses_draft_witness:
  "snd (commitDraftStage (no_faults\<lparr>stat_data := (\<lambda>n. if n = ''native.yaml'' then Some ''stat: i/o error'' else None)\<rparr>)
     demo_dir (staged [])) ''config.d'' = None \<and> demo_dir ''config.d'' \<noteq> None"
proof -
  have "demo_dir ''config.d'' = Some (Entries [(''a.yaml'', ''a: 1''), (''b.yaml'', ''b: 1'')])"
    by (simp add: demo_dir_def)
  then show ?thesis
    by (subst stat_failure_loses_draft [of _ demo_dir _ "''stat: i/o error''"])
       (simp_all add: no_faults_def no_fault_def move_succeeds_def)
qed

text \<open>
  On a data directory that cannot be renamed across devices, the copy in the backup is
  deleted when the removal of the source fails half way, although the source is no longer
  complete: the files removed so far exist nowhere any more, contrary to the rollback safety the
  comment of \<open>moveDraftPath\<close> claims.
\<close>

theorem cross_device_removal_loses_files:
  assumes "mkdir_backup f = None" and "stat_data f ''config.d'' = None" and "d ''config.d'' = Some (Entries es)"
    and "mv_rename (move_backup f ''config.d'') = CrossDevice" and "mv_copy (move_backup f ''config.d'') = None"
    and "mv_remove (move_backup f ''config.d'') = Some (k, msg)"
  shows "commitDraftStage f d stg = (Some (''backup draft config.d: remove copied draft source: '' @ msg),
     d(''config.d'' \<mapsto> Entries (drop k es)))"
  using assms by (simp add: commitDraftStage_def targets_def moveDraftPath_def partly_removed_def)

theorem cross_device_removal_loses_files_witness:
  "snd (commitDraftStage (no_faults\<lparr>move_backup := (\<lambda>_. \<lparr>mv_rename = CrossDevice, mv_copy = None,
       mv_remove = Some (1, ''busy'')\<rparr>)\<rparr>) demo_dir (staged [])) ''config.d'' = Some (Entries [(''b.yaml'', ''b: 1'')])"
proof -
  have "demo_dir ''config.d'' = Some (Entries [(''a.yaml'', ''a: 1''), (''b.yaml'', ''b: 1'')])"
    by (simp add: demo_dir_def)
  then show ?thesis
    by (subst cross_device_removal_loses_files [where k = 1 and msg = "''busy''" and
          es = "[(''a.yaml'', ''a: 1''), (''b.yaml'', ''b: 1'')]"]) (simp_all add: no_faults_def)
qed

end
