(* ===== verification/ConfigServer.thy ===== *)
theory ConfigServer
  imports ConfDraft ApiServer
begin

text \<open>
  The draft and validation operations of the configuration API
  (\<open>internal/api/config_handlers.go\<close>): reading and replacing the draft, compiling it into
  diagnostics, and the classification of errors by \<open>writeConfigError\<close>.

  The compiler and the final check by the Envoy binary are parameters.  A Go slice that is \<open>nil\<close>
  is kept apart from an empty one, since it is encoded as \<open>null\<close>.
\<close>

section \<open>Requests\<close>

record replaceDraftRequest =
  rr_sourceType :: string
  rr_expected :: string
  rr_files :: "source_file list"

definition decode_file :: "jsval \<Rightarrow> source_file option" where
  "decode_file v = (case v of
       JObj ps \<Rightarrow> map_option (\<lambda>f. \<lparr>sf_path = f ''path'', sf_content = f ''content''\<rparr>)
          (decode_fields [''path'', ''content''] ps (\<lambda>_. []))
     | JNull \<Rightarrow> Some \<lparr>sf_path = [], sf_content = []\<rparr>
     | _ \<Rightarrow> None)"

text \<open>Decoding into \<open>replaceDraftRequest\<close>: keys without regard to case, unknown ones refused.\<close>

fun decode_replace_fields :: "(string \<times> jsval) list \<Rightarrow> replaceDraftRequest \<Rightarrow> replaceDraftRequest option" where
  "decode_replace_fields [] q = Some q"
| "decode_replace_fields ((k, v) # ps) q =
     (if v = JNull \<and> to_lower k \<in> {''sourcetype'', ''expectedresourceversion'', ''files''}
      then decode_replace_fields ps (if to_lower k = ''files'' then q\<lparr>rr_files := []\<rparr> else q)
      else if to_lower k = ''sourcetype'' then
        (case v of JStr s \<Rightarrow> decode_replace_fields ps (q\<lparr>rr_sourceType := s\<rparr>) | _ \<Rightarrow> None)
      else if to_lower k = ''expectedresourceversion'' then
        (case v of JStr s \<Rightarrow> decode_replace_fields ps (q\<lparr>rr_expected := s\<rparr>) | _ \<Rightarrow> None)
      else if to_lower k = ''files'' then
        (case v of JArr xs \<Rightarrow>
           (case those (map decode_file xs) of
              Some fs \<Rightarrow> decode_replace_fields ps (q\<lparr>rr_files := fs\<rparr>) | None \<Rightarrow> None)
         | _ \<Rightarrow> None)
      else None)"

definition invalid_body :: http_response where
  "invalid_body = writeError 400 ''INVALID_ARGUMENT'' ''invalid JSON request body''"

definition decode_replace :: "jsval option \<Rightarrow> http_response + replaceDraftRequest" where
  "decode_replace body =
     (let zero = \<lparr>rr_sourceType = [], rr_expected = [], rr_files = []\<rparr> in
      case body of
        Some (JObj ps) \<Rightarrow>
          (case decode_replace_fields ps zero of Some q \<Rightarrow> Inr q | None \<Rightarrow> Inl invalid_body)
      | Some JNull \<Rightarrow> Inr zero
      | _ \<Rightarrow> Inl invalid_body)"

definition sourceMode :: "string \<Rightarrow> string option" where
  "sourceMode s = (if s = ''protocol'' then Some ModeAbstract
                   else if s = ''native'' then Some ModeNative else None)"

definition sourceType :: "string \<Rightarrow> string" where
  "sourceType mode = (if mode = ModeNative then ''native'' else ''protocol'')"

section \<open>Errors\<close>

fun error_text :: "conf_error \<Rightarrow> string" where
  "error_text (ErrNotFound m) = m"
| "error_text (ErrDraftChanged m) = m"
| "error_text ErrPublishActive = ''conf: another publish is already active''"
| "error_text (ErrText m) = m"

definition writeConfigError :: "conf_error \<Rightarrow> http_response" where
  "writeConfigError e =
     (let m = error_text e in
      case e of
        ErrNotFound _ \<Rightarrow> writeError 404 ''NOT_FOUND'' ''configuration resource not found''
      | ErrDraftChanged _ \<Rightarrow> writeError 409 ''CONFLICT'' m
      | ErrPublishActive \<Rightarrow> writeError 409 ''CONFLICT'' m
      | ErrText _ \<Rightarrow>
          if str_includes m ''force is required'' \<or> str_includes (to_lower m) ''conflict''
          then writeError 409 ''CONFLICT'' m
          else if str_includes m ''validate'' \<or> str_includes m ''draft load failed'' \<or> str_includes m ''compile''
          then writeError 422 ''VALIDATION_FAILED'' m
          else if str_includes m ''invalid'' \<or> str_includes m ''unsafe'' \<or> str_includes m ''required''
          then writeError 400 ''INVALID_ARGUMENT'' m
          else writeError 500 ''INTERNAL'' ''internal server error'')"

section \<open>The draft\<close>

definition file_json :: "string \<times> string \<Rightarrow> jsval" where
  "file_json f = JObj [(''path'', JStr (fst f)), (''content'', JStr (snd f))]"

text \<open>\<open>readDraft\<close>; \<open>mtime\<close> gives the printed time of the latest modification of the files.\<close>

definition draft_json :: "((string \<times> string) list \<Rightarrow> string option) \<Rightarrow> draft_info \<Rightarrow> jsval" where
  "draft_json mtime dr =
     JObj [(''sourceType'', JStr (sourceType (dr_mode dr))), (''resourceVersion'', JStr (dr_hash dr)),
           (''updatedAt'', case mtime (dr_files dr) of Some t \<Rightarrow> JStr t | None \<Rightarrow> JNull),
           (''files'', JArr (map file_json (dr_files dr)))]"

definition readDraft ::
    "loaders \<Rightarrow> ((string \<times> string) list \<Rightarrow> string option) \<Rightarrow> data_dir \<Rightarrow> (conf_error + jsval) \<times> data_dir" where
  "readDraft L mtime d =
     (case LoadDraft L d of
        (Inl e, d') \<Rightarrow> (Inl e, d')
      | (Inr dr, d') \<Rightarrow> (Inr (draft_json mtime dr), d'))"

definition getDraft ::
    "loaders \<Rightarrow> ((string \<times> string) list \<Rightarrow> string option) \<Rightarrow> data_dir \<Rightarrow> http_response \<times> data_dir" where
  "getDraft L mtime d =
     (case readDraft L mtime d of
        (Inl e, d') \<Rightarrow> (writeConfigError e, d')
      | (Inr v, d') \<Rightarrow> (writeJSON 200 v, d'))"

definition replaceDraft ::
    "loaders \<Rightarrow> string option \<Rightarrow> commit_faults \<Rightarrow> jsval option \<Rightarrow> data_dir \<Rightarrow> http_response \<times> data_dir" where
  "replaceDraft L stage_fault f body d =
     (case decode_replace body of
        Inl resp \<Rightarrow> (resp, d)
      | Inr q \<Rightarrow>
          (case sourceMode (rr_sourceType q) of
             None \<Rightarrow> (writeError 400 ''INVALID_ARGUMENT'' ''sourceType must be protocol or native'', d)
           | Some mode \<Rightarrow>
               (case ReplaceDraft L stage_fault f mode (rr_files q) (rr_expected q) d of
                  (Inl e, d') \<Rightarrow> (writeConfigError e, d')
                | (Inr h, d') \<Rightarrow> (writeJSON 200 (JObj [(''draftResourceVersion'', JStr h)]), d'))))"

section \<open>Validation\<close>

record diagnostic =
  dg_stage :: string
  dg_source :: "(string \<times> jsval) list"
  dg_message :: string
  dg_severity :: string

datatype severity = SeverityError | SeverityWarning

fun severity_text :: "severity \<Rightarrow> string" where
  "severity_text SeverityError = ''Error''"
| "severity_text SeverityWarning = ''Warning''"

record compile_error =
  ce_stage :: string
  ce_file :: string
  ce_kind :: string
  ce_name :: string
  ce_path :: string
  ce_message :: string
  ce_severity :: severity

text \<open>The compiler: the version of the resources it produced, if any, and its errors.  The final
  check: the message and severity of its one diagnostic, if it finds fault.\<close>

record compiler =
  compile_ir :: "string \<Rightarrow> (string \<times> string) list \<Rightarrow> string option \<times> compile_error list"
  envoy_check :: "string \<Rightarrow> (string \<times> severity) option"

text \<open>A map that is \<open>nil\<close> or empty is left out of the JSON.\<close>

definition diagnostic_json :: "diagnostic \<Rightarrow> jsval" where
  "diagnostic_json g =
     JObj ([(''stage'', JStr (dg_stage g))] @
       (if dg_source g = [] then [] else [(''source'', JObj (dg_source g))]) @
       [(''message'', JStr (dg_message g)), (''severity'', JStr (dg_severity g))])"

definition plain_diagnostic :: "string \<Rightarrow> string \<Rightarrow> string \<Rightarrow> diagnostic" where
  "plain_diagnostic st m sev = \<lparr>dg_stage = st, dg_source = [], dg_message = m, dg_severity = sev\<rparr>"

definition loadDiagnostics :: "load_error list \<Rightarrow> diagnostic list" where
  "loadDiagnostics es = map (\<lambda>e. \<lparr>dg_stage = ''schema'',
     dg_source = [(''docIndex'', JNum (le_doc e)), (''file'', JStr (le_file e))],
     dg_message = le_message e, dg_severity = ''error''\<rparr>) es"

definition compileDiagnostics :: "compile_error list \<Rightarrow> diagnostic list" where
  "compileDiagnostics es = map (\<lambda>e. \<lparr>dg_stage = ce_stage e,
     dg_source = [(''file'', JStr (ce_file e)), (''kind'', JStr (ce_kind e)), (''name'', JStr (ce_name e)),
                  (''path'', JStr (ce_path e))],
     dg_message = ce_message e, dg_severity = to_lower (severity_text (ce_severity e))\<rparr>) es"

definition hasErrorDiagnostics :: "diagnostic list option \<Rightarrow> bool" where
  "hasErrorDiagnostics ds = (case ds of None \<Rightarrow> False | Some gs \<Rightarrow> list_ex (\<lambda>g. dg_severity g = ''error'') gs)"

definition compileDraft ::
    "loaders \<Rightarrow> compiler \<Rightarrow> string \<Rightarrow> data_dir \<Rightarrow> (string option \<times> diagnostic list option) \<times> data_dir" where
  "compileDraft L C mode d =
     (case LoadDraft L d of
        (Inl e, d') \<Rightarrow> ((None, Some [plain_diagnostic ''schema'' (error_text e) ''error'']), d')
      | (Inr dr, d') \<Rightarrow>
          if dr_errors dr \<noteq> [] then ((None, Some (loadDiagnostics (dr_errors dr))), d')
          else if dr_mode dr = ModeNative then
            (case d' ''native.yaml'' of
               Some (Contents c) \<Rightarrow>
                 (case loadNative L c of
                    Inl m \<Rightarrow> ((None, Some [plain_diagnostic ''validate'' m ''error'']), d')
                  | Inr v \<Rightarrow> ((Some v, None), d'))
             | _ \<Rightarrow> ((None, Some [plain_diagnostic ''validate'' ''read native.yaml'' ''error'']), d'))
          else (case compile_ir C mode (dr_files dr) of
                  (out, es) \<Rightarrow> ((out, Some (compileDiagnostics es)), d')))"

definition validateWithEnvoy :: "loaders \<Rightarrow> compiler \<Rightarrow> data_dir \<Rightarrow> diagnostic list option" where
  "validateWithEnvoy L C d =
     (case fst (compileDraft L C ''static'' d) of
        (None, ds) \<Rightarrow> ds
      | (Some v, ds) \<Rightarrow>
          if hasErrorDiagnostics ds then ds
          else map_option (\<lambda>(m, sev). [plain_diagnostic ''envoy'' m (to_lower (severity_text sev))]) (envoy_check C v))"

text \<open>\<open>append(a, b...)\<close>: \<open>nil\<close> stays \<open>nil\<close> when nothing is appended.\<close>

definition append_nil :: "'a list option \<Rightarrow> 'a list option \<Rightarrow> 'a list option" where
  "append_nil a b = (let ys = (case b of Some ys \<Rightarrow> ys | None \<Rightarrow> []) in
     case a of Some xs \<Rightarrow> Some (xs @ ys) | None \<Rightarrow> if ys = [] then None else Some ys)"

definition compileMode :: "string \<Rightarrow> string \<Rightarrow> string option" where
  "compileMode raw fallback =
     (let mode = (if raw = [] then (if fallback = [] then ''xds'' else fallback) else raw) in
      if mode = ''xds'' \<or> mode = ''static'' then Some mode else None)"

text \<open>The body of a validation request: absent, not one JSON value, or a value.\<close>

definition decode_validation :: "jsval option option \<Rightarrow> http_response + bool" where
  "decode_validation body =
     (case body of
        None \<Rightarrow> Inr False
      | Some (Some (JObj ps)) \<Rightarrow>
          if list_all (\<lambda>(k, v). to_lower k = ''envoyvalidate'' \<and> (v = JNull \<or> (\<exists>b \<in> {True, False}. v = JBool b))) ps
          then Inr (list_ex (\<lambda>(k, v). v = JBool True) (case filter (\<lambda>(k, v). v \<noteq> JNull) ps of [] \<Rightarrow> [] | qs \<Rightarrow> [last qs]))
          else Inl invalid_body
      | Some (Some JNull) \<Rightarrow> Inr False
      | _ \<Rightarrow> Inl invalid_body)"

definition validation_body :: "string \<Rightarrow> string option \<Rightarrow> diagnostic list option \<Rightarrow> jsval" where
  "validation_body mode out ds =
     JObj [(''irVersion'', case out of Some v \<Rightarrow> JStr v | None \<Rightarrow> JNull), (''mode'', JStr mode),
           (''ok'', JBool (out \<noteq> None \<and> \<not> hasErrorDiagnostics ds)),
           (''results'', case ds of Some gs \<Rightarrow> JArr (map diagnostic_json gs) | None \<Rightarrow> JNull)]"

definition validateConfig ::
    "loaders \<Rightarrow> compiler \<Rightarrow> string \<Rightarrow> jsval option option \<Rightarrow> string \<Rightarrow> data_dir \<Rightarrow> http_response \<times> data_dir" where
  "validateConfig L C fallback body raw_mode d =
     (case decode_validation body of
        Inl resp \<Rightarrow> (resp, d)
      | Inr envoyValidate \<Rightarrow>
          (case compileMode raw_mode fallback of
             None \<Rightarrow> (writeError 400 ''INVALID_ARGUMENT'' ''mode must be xds or static'', d)
           | Some mode \<Rightarrow>
               (case compileDraft L C mode d of
                  ((out, ds), d') \<Rightarrow>
                    (writeJSON 200 (validation_body mode out
                       (if envoyValidate then append_nil ds (validateWithEnvoy L C d') else ds)), d'))))"

section \<open>Types of the responses\<close>

interpretation draft_wire: wire_type schemas_Draft "draft_json mtime" "\<lambda>_. True" for mtime
  by unfold_locales
    (auto simp: schemas_Draft_def schemas_DraftFile_def draft_json_def file_json_def sourceType_def
      list_all_iff split: option.splits)

lemma diagnostic_json_typed:
  "dg_severity g \<in> {''error'', ''warning''} \<Longrightarrow> conforms schemas_Diagnostic (diagnostic_json g)"
  by (auto simp: schemas_Diagnostic_def diagnostic_json_def)

text \<open>A validation result whose diagnostics are not the \<open>nil\<close> slice.\<close>

definition severities_ok :: "diagnostic list \<Rightarrow> bool" where
  "severities_ok gs = list_all (\<lambda>g. dg_severity g \<in> {''error'', ''warning''}) gs"

interpretation validation_wire: wire_type schemas_ValidationResult
  "\<lambda>(mode, out, gs). validation_body mode out (Some gs)"
  "\<lambda>(mode, out, gs). mode \<in> {''xds'', ''static''} \<and> severities_ok gs"
proof
  fix x :: "string \<times> string option \<times> diagnostic list"
  obtain mode out gs where x: "x = (mode, out, gs)" by (cases x)
  assume "case x of (mode, out, gs) \<Rightarrow> mode \<in> {''xds'', ''static''} \<and> severities_ok gs"
  with x have m: "mode \<in> {''xds'', ''static''}" and g: "\<forall>g \<in> set gs. conforms schemas_Diagnostic (diagnostic_json g)"
    using diagnostic_json_typed by (auto simp: severities_ok_def list_all_iff)
  then have "list_all (conforms schemas_Diagnostic) (map diagnostic_json gs)" by (simp add: list_all_iff)
  with m show "conforms schemas_ValidationResult (case x of (mode, out, gs) \<Rightarrow> validation_body mode out (Some gs))"
    by (auto simp: x schemas_ValidationResult_def validation_body_def split: option.splits)
qed

lemma writeConfigError_typed: "typed_response T (writeConfigError e)"
  by (cases e) (auto simp: writeConfigError_def Let_def intro!: typed_response_error
      simp: response_ok_def documented_codes_def)

lemma invalid_body_typed: "typed_response T invalid_body"
  by (simp add: invalid_body_def typed_response_error response_ok_def documented_codes_def)

lemma lowered_severity: "to_lower (severity_text s) \<in> {''error'', ''warning''}"
proof -
  have "to_lower ''Error'' = ''error''" "to_lower ''Warning'' = ''warning''" by code_simp+
  then show ?thesis by (cases s) auto
qed

lemma compileDiagnostics_severities: "severities_ok (compileDiagnostics es)"
proof -
  have "dg_severity g \<in> {''error'', ''warning''}" if "g \<in> set (compileDiagnostics es)" for g
  proof -
    from that obtain sev where "dg_severity g = to_lower (severity_text sev)"
      by (auto simp: compileDiagnostics_def)
    with lowered_severity [of sev] show ?thesis by (simp only:)
  qed
  then show ?thesis unfolding severities_ok_def list_all_iff by blast
qed

lemma compileDraft_severities:
  "fst (compileDraft L C mode d) = (out, Some gs) \<Longrightarrow> severities_ok gs"
  using compileDiagnostics_severities
  by (auto simp: compileDraft_def severities_ok_def loadDiagnostics_def plain_diagnostic_def list_all_iff
      split: prod.splits sum.splits if_splits option.splits dirent.splits)

lemma compileDraft_nil:
  "fst (compileDraft L C mode d) = (out, None) \<longleftrightarrow>
     (\<exists>dr c v. fst (LoadDraft L d) = Inr dr \<and> dr_errors dr = [] \<and> dr_mode dr = ModeNative \<and>
        snd (LoadDraft L d) ''native.yaml'' = Some (Contents c) \<and> loadNative L c = Inr v \<and> out = Some v)"
  by (auto simp: compileDraft_def split: prod.splits sum.splits option.splits dirent.splits)

lemma validateWithEnvoy_severities: "validateWithEnvoy L C d = Some gs \<Longrightarrow> severities_ok gs"
  using compileDraft_severities [of L C "''static''" d] lowered_severity
  by (auto simp: validateWithEnvoy_def severities_ok_def plain_diagnostic_def
      split: prod.splits option.splits if_splits)

lemma append_nil_severities:
  "severities_ok xs \<Longrightarrow> (\<And>gs. b = Some gs \<Longrightarrow> severities_ok gs) \<Longrightarrow>
     \<exists>gs. append_nil (Some xs) b = Some gs \<and> severities_ok gs"
  by (cases b) (auto simp: append_nil_def severities_ok_def)

lemma compileMode_values: "compileMode raw fb = Some m \<Longrightarrow> m \<in> {''xds'', ''static''}"
  by (auto simp: compileMode_def Let_def split: if_splits)

section \<open>Properties\<close>

text \<open>
  Reading and replacing the draft answer with bodies of the declared types in every case,
  and so does validating a draft unless it is a native one: a success body has the type the
  contract gives, a failure body is the error envelope with a documented code.
\<close>

theorem draft_api_responses_typed:
  "typed_response schemas_Draft (fst (getDraft L mtime d)) \<and>
   typed_response schemas_DraftMutation (fst (replaceDraft L stage_fault f body d)) \<and>
   ((\<forall>dr. fst (LoadDraft L d) = Inr dr \<longrightarrow> dr_mode dr \<noteq> ModeNative) \<longrightarrow>
      typed_response schemas_ValidationResult (fst (validateConfig L C fallback vbody raw d)))"
proof (intro conjI impI)
  show "typed_response schemas_Draft (fst (getDraft L mtime d))"
    using draft_wire.encode_conforms
    by (auto simp: getDraft_def readDraft_def response_ok_def split: prod.splits sum.splits
        intro!: typed_response_ok writeConfigError_typed)
  have "decode_replace body = Inl resp \<Longrightarrow> resp = invalid_body" for resp
    by (auto simp: decode_replace_def Let_def split: option.splits jsval.splits)
  then show "typed_response schemas_DraftMutation (fst (replaceDraft L stage_fault f body d))"
    by (auto simp: replaceDraft_def response_ok_def schemas_DraftMutation_def documented_codes_def
        split: sum.splits option.splits prod.splits
        intro!: typed_response_ok writeConfigError_typed invalid_body_typed typed_response_error)
next
  assume nn: "\<forall>dr. fst (LoadDraft L d) = Inr dr \<longrightarrow> dr_mode dr \<noteq> ModeNative"
  have inv: "decode_validation vbody = Inl resp \<Longrightarrow> resp = invalid_body" for resp
    by (auto simp: decode_validation_def split: option.splits jsval.splits if_splits)
  show "typed_response schemas_ValidationResult (fst (validateConfig L C fallback vbody raw d))"
  proof (cases "\<exists>ev mode. decode_validation vbody = Inr ev \<and> compileMode raw fallback = Some mode")
    case True
    then obtain ev mode where e: "decode_validation vbody = Inr ev" "compileMode raw fallback = Some mode" by blast
    obtain out ds d' where c: "compileDraft L C mode d = ((out, ds), d')" by (metis prod.collapse)
    with nn compileDraft_nil [of L C mode d out] obtain gs where gs: "ds = Some gs" by (cases ds) auto
    then have "severities_ok gs" using c compileDraft_severities [of L C mode d out gs] by simp
    then obtain hs where hs: "(if ev then append_nil ds (validateWithEnvoy L C d') else ds) = Some hs" "severities_ok hs"
      using append_nil_severities [of gs "validateWithEnvoy L C d'"] validateWithEnvoy_severities gs
      by (cases ev) auto
    then have "conforms schemas_ValidationResult (validation_body mode out (Some hs))"
      using validation_wire.encode_conforms [of "(mode, out, hs)"] compileMode_values [OF e(2)] by simp
    with e c hs show ?thesis by (simp add: validateConfig_def typed_response_ok response_ok_def)
  next
    case False
    then show ?thesis
      using inv by (cases "decode_validation vbody"; cases "compileMode raw fallback")
        (auto simp: validateConfig_def response_ok_def documented_codes_def
          intro!: invalid_body_typed typed_response_error)
  qed
qed

theorem draft_api_responses_typed_witness:
  "typed_response schemas_ValidationResult (fst (validateConfig demo_loaders
     \<lparr>compile_ir = (\<lambda>_ _. (Some ''ir'', [])), envoy_check = (\<lambda>_. None)\<rparr> ''xds'' None [] demo_dir))"
proof -
  have "\<forall>dr. fst (LoadDraft demo_loaders demo_dir) = Inr dr \<longrightarrow> dr_mode dr \<noteq> ModeNative"
    by (auto simp: LoadDraft_def demo_dir_def ModeAbstract_def ModeNative_def Let_def bind_result_Inr_iff
        split: if_splits)
  then show ?thesis
    using draft_api_responses_typed [of demo_loaders "\<lambda>_. None" demo_dir None no_faults None] by blast
qed

text \<open>
  Four refusals of \<open>validateSourceSet\<close> that are faults of the request are answered as internal
  errors: their texts contain none of the words \<open>writeConfigError\<close> looks for, although the
  contract answers a bad replacement with 400; while a path whose text contains the word conflict
  turns an unsafe path into 409.
\<close>

lemma bad_replacements_misclassified:
  "rs_status (writeConfigError (ErrText ''native draft requires exactly one native.yaml file'')) = 500 \<and>
   rs_status (writeConfigError (ErrText ''native draft path must be native.yaml'')) = 500 \<and>
   rs_status (writeConfigError (ErrText (''protocol draft path '' @ go_quote ''a.yaml'' @ '' must be config.d/*.yaml|*.yml''))) = 500 \<and>
   rs_status (writeConfigError (ErrText (''duplicate draft path '' @ go_quote ''config.d/a.yaml''))) = 500 \<and>
   rs_status (writeConfigError (ErrText (''unsafe draft path '' @ go_quote ''../a.yaml''))) = 400 \<and>
   rs_status (writeConfigError (ErrText (''unsafe draft path '' @ go_quote ''../conflict.yaml''))) = 409"
  by code_simp

end
