(* ===== verification/DraftEntries.thy ===== *)
theory DraftEntries
  imports ConfDraft
begin

text \<open>
  The sets of files a protocol draft can consist of: what \<open>sourceFiles\<close> lists for a directory is a
  set \<open>ReplaceDraft\<close> accepts, and a set that was accepted is what a later load gives back.
\<close>

section \<open>Directory entries give acceptable paths\<close>

definition entry_name :: "string \<Rightarrow> bool" where
  "entry_name n \<longleftrightarrow> n \<noteq> [] \<and> n \<noteq> ''.'' \<and> n \<noteq> ''..'' \<and> slash \<notin> set n"

lemma entry_path_clean:
  assumes "entry_name n"
  shows "path_clean (''config.d/'' @ n) = ''config.d/'' @ n" and "path_dir (''config.d/'' @ n) = ''config.d''"
    and "\<not> path_isAbs (''config.d/'' @ n)" and "path_ext (''config.d/'' @ n) = path_ext n"
proof -
  have n: "slash \<notin> set n" "n \<noteq> []" "n \<noteq> ''.''" "n \<noteq> ''..''" using assms by (auto simp: entry_name_def)
  have one: "split_on slash ''config.d'' = [''config.d'']" by code_simp
  have sp: "split_on slash (''config.d/'' @ n) = [''config.d'', n]"
    using split_on_append [OF n(1), of "''config.d''"] one by simp
  show abs: "\<not> path_isAbs (''config.d/'' @ n)" by (simp add: path_isAbs_def)
  show "path_clean (''config.d/'' @ n) = ''config.d/'' @ n"
    unfolding path_clean_def sp using abs n by (simp add: clean_step_def Let_def)
  have "path_before (''config.d/'' @ n) = ''config.d/''"
    using path_base_file [OF n(1), of "''config.d''"] path_split(1) [of "''config.d/'' @ n"] by simp
  moreover have "path_clean ''config.d/'' = ''config.d''" by code_simp
  ultimately show "path_dir (''config.d/'' @ n) = ''config.d''" by (simp only: path_dir_def)
  show "path_ext (''config.d/'' @ n) = path_ext n"
    using path_ext_base [OF n(1), of "''config.d''"] by simp
qed

definition entry_path :: "string \<Rightarrow> bool" where
  "entry_path p \<longleftrightarrow> (\<exists>n. p = ''config.d/'' @ n \<and> entry_name n \<and> yaml_name n)"

lemma validate_entry_paths:
  assumes "\<forall>f \<in> set fs. entry_path (sf_path f)" and "distinct (map sf_path fs)" and "set (map sf_path fs) \<inter> set seen = {}"
  shows "validate_files ModeAbstract seen fs = None"
  using assms
proof (induction fs arbitrary: seen)
  case (Cons f fs)
  then obtain n where n: "sf_path f = ''config.d/'' @ n" "entry_name n" "yaml_name n"
    by (auto simp: entry_path_def)
  have "validate_files ModeAbstract (sf_path f # seen) fs = None"
    using Cons.prems by (intro Cons.IH) auto
  moreover have "path_clean (sf_path f) = sf_path f" "path_dir (sf_path f) = ''config.d''"
    "\<not> path_isAbs (sf_path f)" "path_ext (sf_path f) = ''.yaml'' \<or> path_ext (sf_path f) = ''.yml''"
    using entry_path_clean [OF n(2)] n(1,3) by (simp_all add: yaml_name_def)
  ultimately show ?case
    using Cons.prems(3) n(1) by (simp add: Let_def ModeAbstract_def ModeNative_def)
qed simp

text \<open>A data directory whose \<open>config.d\<close> lists distinct proper names.\<close>

definition dir_wf :: "data_dir \<Rightarrow> bool" where
  "dir_wf d \<longleftrightarrow> (case d ''config.d'' of Some (Entries es) \<Rightarrow>
     distinct (map fst es) \<and> list_all (\<lambda>(n, c). entry_name n) es | _ \<Rightarrow> True)"

lemma sort_key_sorted:
  fixes k :: "'a \<Rightarrow> 'b :: linorder"
  shows "sorted (map k xs) \<Longrightarrow> sort_key k xs = xs"
  by (rule properties_for_sort_key) auto

lemma protocol_files:
  assumes "dir_wf d" and "LoadDraft L d = (Inr dr, d)" and "dr_mode dr = ModeAbstract"
  shows "sorted (map fst (dr_files dr))" and "distinct (map fst (dr_files dr))"
    and "\<forall>p \<in> set (map fst (dr_files dr)). entry_path p"
    and "dr_hash dr = hashFiles (sha256 L) (dr_files dr)" and "sourceFiles d = Inr (dr_files dr)"
    and "d ''native.yaml'' = None"
proof -
  have same: "(if d ''config.d'' = None then d(''config.d'' \<mapsto> Entries []) else d) = d"
    using assms(2) by (simp add: LoadDraft_def Let_def)
  then have src: "sourceFiles d = Inr (dr_files dr)" and nat: "d ''native.yaml'' = None"
    and h: "dr_hash dr = hashFiles (sha256 L) (dr_files dr)"
    using assms(2,3) by (auto simp: LoadDraft_def Let_def bind_result_Inr_iff ModeAbstract_def ModeNative_def
        split: if_splits)
  then show "sourceFiles d = Inr (dr_files dr)" "d ''native.yaml'' = None"
    "dr_hash dr = hashFiles (sha256 L) (dr_files dr)" by simp_all
  have "d ''config.d'' \<noteq> None" using same by (metis fun_upd_same option.distinct(1))
  then obtain es where dir: "d ''config.d'' = Some (Entries es)"
    using src by (auto simp: sourceFiles_def split: dirent.splits)
  have fs: "dr_files dr = sort_key fst (config_entries es)"
    using src nat dir by (simp add: sourceFiles_def)
  have es: "distinct (map fst es)" "list_all (\<lambda>(n, c). entry_name n) es"
    using assms(1) dir by (simp_all add: dir_wf_def)
  show "sorted (map fst (dr_files dr))" by (simp add: fs)
  have "distinct (map fst (config_entries es))"
    using es(1) by (induction es) (auto simp: config_entries_def rev_image_eqI)
  moreover have "distinct (map fst (sort_key fst xs)) = distinct (map fst xs)" for xs :: "(string \<times> string) list"
    by (metis mset_eq_imp_distinct_iff mset_map mset_sort)
  ultimately show "distinct (map fst (dr_files dr))" by (simp add: fs)
  show "\<forall>p \<in> set (map fst (dr_files dr)). entry_path p"
    using es(2) by (auto simp: fs config_entries_def entry_path_def list_all_iff)
qed

section \<open>Installing a set of files\<close>

definition source_of :: "string \<times> string \<Rightarrow> source_file" where
  "source_of f = \<lparr>sf_path = fst f, sf_content = snd f\<rparr>"

lemma source_of_simps [simp]: "sf_path (source_of f) = fst f" "sf_content (source_of f) = snd f"
  by (simp_all add: source_of_def)

lemma native_absent:
  assumes "\<forall>f \<in> set files. draft_member (sf_path f)"
  shows "staged files ''native.yaml'' = None"
  using assms by (auto simp: staged_def find_None_iff draft_member_def)

definition protocol_set :: "(string \<times> string) list \<Rightarrow> bool" where
  "protocol_set fs \<longleftrightarrow> sorted (map fst fs) \<and> distinct (map fst fs) \<and> (\<forall>p \<in> set (map fst fs). entry_path p)"

text \<open>What loading such a set gives, when the loader finds nothing wrong.\<close>

definition protocol_info :: "loaders \<Rightarrow> (string \<times> string) list \<Rightarrow> draft_info" where
  "protocol_info L fs = \<lparr>dr_mode = ModeAbstract, dr_hash = hashFiles (sha256 L) fs, dr_files = fs, dr_errors = []\<rparr>"

lemma replacement_installs:
  assumes fs: "protocol_set fs" and hash: "DraftHash (sha256 L) d = Inr v"
    and ok: "faultless f" "loadDir L fs = []"
  shows "\<exists>h d'. ReplaceDraft L None f ModeAbstract (map source_of fs) v d = (Inr h, d') \<and>
     LoadDraft L d' = (Inr (protocol_info L fs), d')"
proof -
  let ?ss = "map source_of fs"
  have P: "sorted (map fst fs)" "distinct (map fst fs)" "\<forall>p \<in> set (map fst fs). entry_path p"
    using fs by (simp_all add: protocol_set_def)
  have paths: "map sf_path ?ss = map fst fs" by (simp add: comp_def)
  have "\<forall>s \<in> set ?ss. entry_path (sf_path s)"
    using P(3) paths by (metis imageI set_map)
  then have vf: "validate_files ModeAbstract [] ?ss = None"
    using validate_entry_paths [of ?ss "[]"] P(2) unfolding paths by simp
  then have valid: "validateSourceSet ModeAbstract ?ss = None"
    by (simp add: validateSourceSet_def ModeAbstract_def ModeNative_def)
  have st: "distinct (map sf_path ?ss)" "\<forall>s \<in> set ?ss. draft_member (sf_path s)"
    using validate_files_abstract [OF vf] by (simp_all del: set_map)
  have pairs: "map (\<lambda>s. (sf_path s, sf_content s)) ?ss = fs" by (simp add: comp_def)
  have sorted: "sort_key fst fs = fs" using P(1) by (rule sort_key_sorted)
  obtain h d' where R: "ReplaceDraft L None f ModeAbstract ?ss v d = (Inr h, d')"
    using ReplaceDraft_accepts [OF ok(1) valid hash disjI2 [OF refl]] ok(2) pairs sorted by auto
  have d': "d' ''config.d'' = staged ?ss ''config.d''" "d' ''native.yaml'' = None"
    using commit_done [OF ReplaceDraft_success(3) [OF R]] LoadDraft_dir [of "staged ?ss" L]
      native_absent [OF st(2)] by (simp_all add: targets_def staged_def)
  have "sourceFiles (staged ?ss) = Inr fs"
    using sourceFiles_staged [OF st] pairs sorted by simp
  then have "sourceFiles d' = Inr fs"
    using sourceFiles_cong [of d' "staged ?ss"] d' native_absent [OF st(2)] by simp
  then have "LoadDraft L d' = (Inr (protocol_info L fs), d')"
    using d' ok(2) by (auto simp: LoadDraft_def Let_def staged_def protocol_info_def)
  with R show ?thesis by blast
qed

end
