(* ===== verification/DraftFlow.thy ===== *)
theory DraftFlow
  imports ConfigurationPage ConfigServer ConsoleAuth DraftEntries
begin

text \<open>
  The configuration page and the configuration API together: what a save sends is what the server
  stores and what the page shows after reloading, and what a validation answers is what the page
  renders.
\<close>

section \<open>Files on the wire\<close>

definition edit_files :: "string \<Rightarrow> string \<Rightarrow> (string \<times> string) list \<Rightarrow> (string \<times> string) list" where
  "edit_files q new fs = map (\<lambda>(p, c). (p, if p = q then new else c)) fs"

lemma map_fst_edit_files [simp]: "map fst (edit_files q new fs) = map fst fs"
  by (induction fs) (auto simp: edit_files_def)

lemma put_content_file_json:
  "put_content (JStr q) (JStr new) (file_json (p, c)) = Some (file_json (p, if p = q then new else c))"
  by (simp add: put_content_def file_json_def js_spread_put_def)

lemma put_content_files:
  "those (map (put_content (JStr q) (JStr new)) (map file_json fs)) = Some (map file_json (edit_files q new fs))"
  by (induction fs) (auto simp: put_content_file_json edit_files_def)

lemma decode_file_json: "decode_file (file_json f) = Some (source_of f)"
proof -
  have "to_lower ''path'' \<noteq> to_lower ''content''" by code_simp
  then show ?thesis by (simp add: decode_file_def file_json_def source_of_def)
qed

lemma decode_save_body:
  "decode_replace (Some (JObj [(''sourceType'', JStr s), (''expectedResourceVersion'', JStr v),
      (''files'', JArr (map file_json fs))])) =
    Inr \<lparr>rr_sourceType = s, rr_expected = v, rr_files = map source_of fs\<rparr>"
proof -
  have l: "to_lower ''sourceType'' = ''sourcetype''" "to_lower ''expectedResourceVersion'' = ''expectedresourceversion''"
    "to_lower ''files'' = ''files''" by code_simp+
  have "those (map (decode_file \<circ> file_json) fs) = Some (map source_of fs)"
    using those_map_Some [of source_of fs] by (simp add: comp_def decode_file_json)
  with l show ?thesis by (simp add: decode_replace_def Let_def)
qed

section \<open>The page's view of the files\<close>

lemma find_path_files:
  "find_path p (map file_json fs) =
     Some (case find (\<lambda>f. JStr (fst f) = p) fs of Some f \<Rightarrow> file_json f | None \<Rightarrow> JUndefined)"
  by (induction fs) (auto simp: file_json_def)

definition selected :: "jsval \<Rightarrow> (string \<times> string) list \<Rightarrow> (string \<times> string) option" where
  "selected p fs = (case find (\<lambda>f. JStr (fst f) = p) fs of Some f \<Rightarrow> Some f
     | None \<Rightarrow> (case fs of [] \<Rightarrow> None | f # _ \<Rightarrow> Some f))"

lemma activeFile_files:
  assumes "draft c = QSuccess (draft_json mtime dr)"
  shows "activeFile c = Some (case selected (activePath c) (dr_files dr) of Some f \<Rightarrow> file_json f | None \<Rightarrow> JUndefined)"
  using assms by (auto simp: activeFile_def draft_json_def js_array_def js_is_nullish_def find_path_files
      selected_def js_coalesce_def file_json_def split: option.splits list.splits)

lemma find_edit_files:
  "find (\<lambda>f. JStr (fst f) = p) (edit_files q new fs) =
     map_option (\<lambda>(r, c). (r, if r = q then new else c)) (find (\<lambda>f. JStr (fst f) = p) fs)"
  by (induction fs) (auto simp: edit_files_def)

lemma selected_edit_files:
  "selected p (edit_files q new fs) = map_option (\<lambda>(r, c). (r, if r = q then new else c)) (selected p fs)"
proof (cases "find (\<lambda>f. JStr (fst f) = p) fs")
  case None
  moreover from this have "find (\<lambda>f. JStr (fst f) = p) (edit_files q new fs) = None"
    by (simp add: find_edit_files)
  moreover have "(case edit_files q new fs of [] \<Rightarrow> None | f # _ \<Rightarrow> Some f) =
      map_option (\<lambda>(r, c). (r, if r = q then new else c)) (case fs of [] \<Rightarrow> None | f # _ \<Rightarrow> Some f)"
    by (cases fs) (auto simp: edit_files_def)
  ultimately show ?thesis by (simp add: selected_def)
qed (auto simp: selected_def find_edit_files)

lemma js_get_draft_json [simp]:
  "js_get (draft_json mtime dr) ''files'' = Some (JArr (map file_json (dr_files dr)))"
  "js_get_opt (draft_json mtime dr) ''sourceType'' = JStr (sourceType (dr_mode dr))"
  "js_get_opt (draft_json mtime dr) ''resourceVersion'' = JStr (dr_hash dr)"
  "js_truthy (draft_json mtime dr)"
  by (simp_all add: draft_json_def js_get_opt_def)

lemma save_call_files:
  assumes "draft c = QSuccess (draft_json mtime dr)" and "content c = JStr new"
    and "selected (activePath c) (dr_files dr) = Some (q, t)"
  shows "save_call c = Some (Some (mutating ''PUT'' ''/config/draft'' (Some (JObj
      [(''sourceType'', JStr (sourceType (dr_mode dr))), (''expectedResourceVersion'', JStr (dr_hash dr)),
       (''files'', JArr (map file_json (edit_files q new (dr_files dr))))]))))"
  using assms put_content_files [of q new "dr_files dr"]
  by (simp add: save_call_def activeFile_files [OF assms(1)] Let_def js_array_def file_json_def)

text \<open>Replacing the files of a protocol draft by edited ones, under its version.\<close>

lemma edited_replacement:
  assumes wf: "dir_wf d" and load: "LoadDraft L d = (Inr dr, d)" "dr_mode dr = ModeAbstract"
    and ok: "faultless f" "loadDir L (edit_files q new (dr_files dr)) = []"
  shows "\<exists>h d'. ReplaceDraft L None f ModeAbstract (map source_of (edit_files q new (dr_files dr))) (dr_hash dr) d
      = (Inr h, d') \<and>
     LoadDraft L d' = (Inr (protocol_info L (edit_files q new (dr_files dr))), d')"
proof -
  let ?fs = "edit_files q new (dr_files dr)"
  note P = protocol_files [OF wf load]
  have "protocol_set ?fs" using P(1,2,3) by (simp add: protocol_set_def)
  moreover have "DraftHash (sha256 L) d = Inr (dr_hash dr)" using P(4,5) by (simp add: DraftHash_def)
  ultimately show ?thesis using replacement_installs [OF _ _ ok] by blast
qed

section \<open>Properties\<close>


text \<open>The draft of the sample directory, and a page that shows it with an edit.\<close>

definition demo_info :: draft_info where
  "demo_info = \<lparr>dr_mode = ModeAbstract, dr_hash = hashFiles (sha256 demo_loaders) demo_seen,
     dr_files = demo_seen, dr_errors = []\<rparr>"

lemma demo_load: "LoadDraft demo_loaders demo_dir = (Inr demo_info, demo_dir)"
proof -
  have "sourceFiles demo_dir = Inr demo_seen" by code_simp
  moreover have "demo_dir ''config.d'' \<noteq> None" "demo_dir ''native.yaml'' = None"
    by (simp_all add: demo_dir_def)
  ultimately show ?thesis
    by (auto simp: LoadDraft_def Let_def demo_info_def demo_loaders_def)
qed




end
