(* ===== verification/CertStore.thy ===== *)
theory CertStore
  imports ConfDraft ApiServer
begin

text \<open>
  The managed certificate store (\<open>internal/certstore/certstore.go\<close>) with its index
  (\<open>internal/store/certificate.go\<close>) and its HTTP operations
  (\<open>internal/api/certificate_handlers.go\<close>).

  The state is the certificate directory, a pair of certificate and private key per name, and the
  rows of the index.  Parsing of a pair and the listeners of the loaded draft are parameters.  A
  slice that may be \<open>nil\<close> is an option, since \<open>nil\<close> is encoded as \<open>null\<close>.  The filesystem and
  database steps that can fail do so by a fault record.
\<close>

section \<open>Data\<close>

record cert_meta =
  cm_name :: string
  cm_subject :: string
  cm_sans :: "string list option"
  cm_notAfter :: time
  cm_updatedAt :: time

record certificate =
  ct_meta :: cert_meta
  ct_certificatePem :: string
  ct_references :: "string list option"

record cert_state =
  cert_files :: "string \<Rightarrow> (string \<times> string) option"
  cert_index :: "cert_meta list"

record leaf =
  lf_subject :: string
  lf_dns :: "string list"
  lf_ips :: "string list"
  lf_emails :: "string list"
  lf_uris :: "string list"
  lf_notAfter :: time

record cert_deps =
  cd_loaders :: loaders
  cd_listeners :: "(string \<times> string) list \<Rightarrow> (string \<times> string list option) list"
  cd_parsePair :: "string \<Rightarrow> string \<Rightarrow> string + leaf"

datatype cert_error = CertNotFound | CertExists | CertReferenced string | CertInvalid string | CertOther string

section \<open>The index\<close>

definition GetCertificate :: "cert_state \<Rightarrow> string \<Rightarrow> cert_meta option" where
  "GetCertificate st n = find (\<lambda>m. cm_name m = n) (cert_index st)"

definition ListCertificates :: "cert_state \<Rightarrow> cert_meta list" where
  "ListCertificates st = sort_key cm_name (cert_index st)"

definition UpsertCertificate :: "cert_meta \<Rightarrow> cert_state \<Rightarrow> cert_state" where
  "UpsertCertificate m st = st\<lparr>cert_index :=
     (if GetCertificate st (cm_name m) = None then cert_index st @ [m]
      else map (\<lambda>x. if cm_name x = cm_name m then m else x) (cert_index st))\<rparr>"

definition DeleteCertificate :: "string \<Rightarrow> cert_state \<Rightarrow> cert_state" where
  "DeleteCertificate n st = st\<lparr>cert_index := filter (\<lambda>m. cm_name m \<noteq> n) (cert_index st)\<rparr>"

section \<open>Names, metadata, references\<close>

text \<open>\<open>ValidateName\<close>: \<open>^[a-z0-9]([a-z0-9-]{0,61}[a-z0-9])?$\<close>\<close>

definition name_char :: "char \<Rightarrow> bool" where
  "name_char c \<longleftrightarrow> is_digit c \<or> 97 \<le> (of_char c :: nat) \<and> (of_char c :: nat) \<le> 122"

definition ValidateName :: "string \<Rightarrow> bool" where
  "ValidateName s \<longleftrightarrow> s \<noteq> [] \<and> length s \<le> 63 \<and> name_char (hd s) \<and> name_char (last s) \<and>
     list_all (\<lambda>c. name_char c \<or> c = CHR ''-'') s"

text \<open>Appending to \<open>[]string(nil)\<close> and sorting.\<close>

definition metadataFromLeaf :: "string \<Rightarrow> leaf \<Rightarrow> time \<Rightarrow> cert_meta" where
  "metadataFromLeaf n l now =
     (let sans = lf_dns l @ lf_ips l @ lf_emails l @ lf_uris l in
      \<lparr>cm_name = n, cm_subject = lf_subject l, cm_sans = (if sans = [] then None else Some (sort sans)),
       cm_notAfter = lf_notAfter l, cm_updatedAt = now\<rparr>)"

definition references :: "cert_deps \<Rightarrow> data_dir \<Rightarrow> string \<Rightarrow> cert_error + string list option" where
  "references dp d n =
     (case fst (LoadDraft (cd_loaders dp) d) of
        Inl e \<Rightarrow> Inl (CertOther ''load draft certificate references'')
      | Inr dr \<Rightarrow>
          if dr_errors dr \<noteq> [] then Inl (CertOther ''load draft certificate references'')
          else if dr_mode dr \<noteq> ModeAbstract then Inr None
          else let rs = List.map_filter (\<lambda>(l, tls). case tls of None \<Rightarrow> None
                     | Some refs \<Rightarrow> if n \<in> set refs then Some (''Listener/'' @ l) else None)
                   (cd_listeners dp (dr_files dr))
               in Inr (if rs = [] then None else Some (sort rs)))"

section \<open>Operations\<close>

record create_faults =
  cf_mkdir :: "string option"
  cf_stage :: "string option"
  cf_rename :: "string option"
  cf_index :: "string option"

definition Create ::
    "cert_deps \<Rightarrow> create_faults \<Rightarrow> time \<Rightarrow> string \<Rightarrow> string \<Rightarrow> string \<Rightarrow> cert_state \<Rightarrow>
     (cert_error + certificate) \<times> cert_state" where
  "Create dp f now n crt key st =
     (if \<not> ValidateName n then (Inl (CertInvalid ''invalid certificate name''), st)
      else case cd_parsePair dp crt key of
        Inl m \<Rightarrow> (Inl (CertInvalid m), st)
      | Inr l \<Rightarrow>
        (case cf_mkdir f of Some m \<Rightarrow> (Inl (CertOther m), st)
        | None \<Rightarrow>
          if cert_files st n \<noteq> None then (Inl CertExists, st)
          else if GetCertificate st n \<noteq> None then (Inl CertExists, st)
          else (case cf_stage f of Some m \<Rightarrow> (Inl (CertOther m), st)
            | None \<Rightarrow>
              (case cf_rename f of Some m \<Rightarrow> (Inl (CertOther m), st)
               | None \<Rightarrow>
                 let st1 = st\<lparr>cert_files := (cert_files st)(n \<mapsto> (crt, key))\<rparr>;
                     meta = metadataFromLeaf n l now
                 in (case cf_index f of
                       Some m \<Rightarrow> (Inl (CertOther m), st1\<lparr>cert_files := (cert_files st1)(n := None)\<rparr>)
                     | None \<Rightarrow> (Inr \<lparr>ct_meta = meta, ct_certificatePem = crt, ct_references = Some []\<rparr>,
                                UpsertCertificate meta st1))))))"

definition Get :: "cert_deps \<Rightarrow> data_dir \<Rightarrow> string \<Rightarrow> cert_state \<Rightarrow> cert_error + certificate" where
  "Get dp d n st =
     (case GetCertificate st n of
        None \<Rightarrow> Inl CertNotFound
      | Some meta \<Rightarrow>
          (case cert_files st n of
             None \<Rightarrow> Inl CertNotFound
           | Some (crt, _) \<Rightarrow>
               bind_result (references dp d n)
                 (\<lambda>rs. Inr \<lparr>ct_meta = meta, ct_certificatePem = crt, ct_references = rs\<rparr>)))"

fun get_all :: "cert_deps \<Rightarrow> data_dir \<Rightarrow> cert_meta list \<Rightarrow> cert_state \<Rightarrow> cert_error + certificate list" where
  "get_all dp d [] st = Inr []"
| "get_all dp d (m # ms) st =
     bind_result (Get dp d (cm_name m) st) (\<lambda>c. bind_result (get_all dp d ms st) (\<lambda>cs. Inr (c # cs)))"

definition List_certs :: "cert_deps \<Rightarrow> data_dir \<Rightarrow> cert_state \<Rightarrow> cert_error + certificate list" where
  "List_certs dp d st = get_all dp d (ListCertificates st) st"

record delete_faults =
  df_rename :: "string option"
  df_index :: "string option"
  df_cleanup :: "string option"

definition Delete ::
    "cert_deps \<Rightarrow> delete_faults \<Rightarrow> data_dir \<Rightarrow> string \<Rightarrow> cert_state \<Rightarrow> (cert_error + unit) \<times> cert_state" where
  "Delete dp f d n st =
     (if GetCertificate st n = None then (Inl CertNotFound, st)
      else case references dp d n of
        Inl e \<Rightarrow> (Inl e, st)
      | Inr rs \<Rightarrow>
          (case rs of
             Some (r # rs') \<Rightarrow> (Inl (CertReferenced (join_with '', '' (r # rs'))), st)
           | _ \<Rightarrow>
             (case df_rename f of Some m \<Rightarrow> (Inl (CertOther m), st)
              | None \<Rightarrow>
                if cert_files st n = None then (Inl CertNotFound, st)
                else (case df_index f of Some m \<Rightarrow> (Inl (CertOther m), st)
                  | None \<Rightarrow>
                    let st' = DeleteCertificate n (st\<lparr>cert_files := (cert_files st)(n := None)\<rparr>)
                    in (case df_cleanup f of Some m \<Rightarrow> (Inl (CertOther m), st') | None \<Rightarrow> (Inr (), st'))))))"

section \<open>HTTP\<close>

definition opt_array :: "string list option \<Rightarrow> jsval" where
  "opt_array xs = (case xs of None \<Rightarrow> JNull | Some ys \<Rightarrow> JArr (map JStr ys))"

definition certificate_json :: "(time \<Rightarrow> string) \<Rightarrow> certificate \<Rightarrow> jsval" where
  "certificate_json rfc c =
     JObj [(''name'', JStr (cm_name (ct_meta c))), (''subject'', JStr (cm_subject (ct_meta c))),
           (''sans'', opt_array (cm_sans (ct_meta c))), (''notAfter'', JStr (rfc (cm_notAfter (ct_meta c)))),
           (''updatedAt'', JStr (rfc (cm_updatedAt (ct_meta c)))), (''certificatePem'', JStr (ct_certificatePem c)),
           (''references'', opt_array (ct_references c))]"

definition writeCertificateError :: "cert_error \<Rightarrow> http_response" where
  "writeCertificateError e =
     (case e of
        CertNotFound \<Rightarrow> writeError 404 ''NOT_FOUND'' ''certificate not found''
      | CertExists \<Rightarrow> writeError 409 ''CONFLICT'' ''certificate already exists''
      | CertReferenced _ \<Rightarrow> writeError 409 ''CONFLICT'' ''certificate is referenced by the draft''
      | CertInvalid _ \<Rightarrow> writeError 400 ''INVALID_ARGUMENT'' ''invalid certificate or private key''
      | CertOther _ \<Rightarrow> writeError 500 ''INTERNAL'' ''internal server error'')"

definition listCertificates :: "cert_deps \<Rightarrow> (time \<Rightarrow> string) \<Rightarrow> data_dir \<Rightarrow> cert_state \<Rightarrow> http_response" where
  "listCertificates dp rfc d st =
     (case List_certs dp d st of
        Inl e \<Rightarrow> writeCertificateError e
      | Inr cs \<Rightarrow> writeJSON 200 (JObj [(''items'', JArr (map (certificate_json rfc) cs)), (''total'', JNum (int (length cs)))]))"

definition getCertificate :: "cert_deps \<Rightarrow> (time \<Rightarrow> string) \<Rightarrow> data_dir \<Rightarrow> string \<Rightarrow> cert_state \<Rightarrow> http_response" where
  "getCertificate dp rfc d n st =
     (case Get dp d n st of Inl e \<Rightarrow> writeCertificateError e | Inr c \<Rightarrow> writeJSON 200 (certificate_json rfc c))"

definition createCertificate ::
    "cert_deps \<Rightarrow> create_faults \<Rightarrow> (time \<Rightarrow> string) \<Rightarrow> time \<Rightarrow> jsval option \<Rightarrow> cert_state \<Rightarrow> http_response \<times> cert_state" where
  "createCertificate dp f rfc now body st =
     (case decodeJSON [''name'', ''certificatePem'', ''privateKeyPem''] body of
        Inl resp \<Rightarrow> (resp, st)
      | Inr g \<Rightarrow>
          if g ''name'' = [] \<or> g ''certificatePem'' = [] \<or> g ''privateKeyPem'' = []
          then (writeError 400 ''INVALID_ARGUMENT'' ''name, certificatePem and privateKeyPem are required'', st)
          else (case Create dp f now (g ''name'') (g ''certificatePem'') (g ''privateKeyPem'') st of
                  (Inl e, st') \<Rightarrow> (writeCertificateError e, st')
                | (Inr c, st') \<Rightarrow> (writeJSON 201 (certificate_json rfc c), st')))"

definition deleteCertificate ::
    "cert_deps \<Rightarrow> delete_faults \<Rightarrow> data_dir \<Rightarrow> string \<Rightarrow> cert_state \<Rightarrow> http_response \<times> cert_state" where
  "deleteCertificate dp f d n st =
     (case Delete dp f d n st of
        (Inl e, st') \<Rightarrow> (writeCertificateError e, st')
      | (Inr _, st') \<Rightarrow> (noContent, st'))"

lemmas cert_ops [go_defs] = Create_def Get_def Delete_def List_certs_def

section \<open>Directory and index agree\<close>

definition cert_inv :: "cert_state \<Rightarrow> bool" where
  "cert_inv st \<longleftrightarrow> distinct (map cm_name (cert_index st)) \<and>
     (\<forall>n. cert_files st n \<noteq> None \<longleftrightarrow> n \<in> set (map cm_name (cert_index st)))"

inductive cert_step :: "cert_deps \<Rightarrow> cert_state \<Rightarrow> cert_state \<Rightarrow> bool" for dp where
  step_create: "cert_step dp st (snd (Create dp f now n crt key st))"
| step_delete: "cert_step dp st (snd (Delete dp g d n st))"

inductive cert_reachable :: "cert_deps \<Rightarrow> cert_state \<Rightarrow> bool" for dp where
  reach_empty: "cert_reachable dp \<lparr>cert_files = Map.empty, cert_index = []\<rparr>"
| reach_next: "cert_reachable dp st \<Longrightarrow> cert_step dp st st' \<Longrightarrow> cert_reachable dp st'"

lemma GetCertificate_None_iff: "GetCertificate st n = None \<longleftrightarrow> n \<notin> set (map cm_name (cert_index st))"
  by (auto simp: GetCertificate_def find_None_iff)

lemma Create_success:
  assumes "Create dp f now n crt key st = (Inr c, st')"
  shows "ValidateName n" and "cert_files st n = None" and "GetCertificate st n = None"
    and "\<exists>l. ct_meta c = metadataFromLeaf n l now" and "ct_certificatePem c = crt"
    and "st' = st\<lparr>cert_files := (cert_files st)(n \<mapsto> (crt, key)), cert_index := cert_index st @ [ct_meta c]\<rparr>"
proof -
  have name: "cm_name (metadataFromLeaf n l now) = n" for l by (simp add: metadataFromLeaf_def Let_def)
  have "ValidateName n \<and> cert_files st n = None \<and> GetCertificate st n = None \<and>
      (\<exists>l. ct_meta c = metadataFromLeaf n l now) \<and> ct_certificatePem c = crt \<and>
      st' = UpsertCertificate (ct_meta c) (st\<lparr>cert_files := (cert_files st)(n \<mapsto> (crt, key))\<rparr>)"
    using assms by (auto simp: Create_def Let_def split: if_splits sum.splits option.splits)
  then show "ValidateName n" "cert_files st n = None" "GetCertificate st n = None"
    "\<exists>l. ct_meta c = metadataFromLeaf n l now" "ct_certificatePem c = crt"
    "st' = st\<lparr>cert_files := (cert_files st)(n \<mapsto> (crt, key)), cert_index := cert_index st @ [ct_meta c]\<rparr>"
    using name by (auto simp: UpsertCertificate_def GetCertificate_def)
qed

lemma Create_failure: "Create dp f now n crt key st = (Inl e, st') \<Longrightarrow> st' = st"
  by (auto simp: Create_def Let_def fun_upd_idem split: if_splits sum.splits option.splits)

lemma cert_Create_inv:
  assumes "cert_inv st"
  shows "cert_inv (snd (Create dp f now n crt key st))"
proof (cases "Create dp f now n crt key st")
  case (Pair r st')
  show ?thesis
  proof (cases r)
    case (Inr c)
    note C = Create_success [OF Pair [unfolded Inr]]
    have "cm_name (ct_meta c) = n" using C(4) by (auto simp: metadataFromLeaf_def)
    then show ?thesis
      using assms C(2,3,6) Pair by (auto simp: cert_inv_def GetCertificate_None_iff)
  next
    case (Inl e)
    then show ?thesis using assms Pair Create_failure [of dp f now n crt key st e st'] by simp
  qed
qed

lemma Delete_cases:
  "(\<exists>e. Delete dp f d n st = (Inl e, st)) \<or>
   (\<exists>r rs. Delete dp f d n st = (r, DeleteCertificate n (st\<lparr>cert_files := (cert_files st)(n := None)\<rparr>)) \<and>
      references dp d n = Inr rs \<and> (rs = None \<or> rs = Some []))"
  by (simp add: Delete_def Let_def split: sum.split option.split list.split)

lemma cert_Delete_inv:
  assumes "cert_inv st"
  shows "cert_inv (snd (Delete dp f d n st))"
proof -
  have "cert_inv (DeleteCertificate n (st\<lparr>cert_files := (cert_files st)(n := None)\<rparr>))"
    using assms by (auto simp: cert_inv_def DeleteCertificate_def distinct_map_filter)
  with assms Delete_cases [of dp f d n st] show ?thesis by auto
qed

lemma cert_reachable_inv: "cert_reachable dp st \<Longrightarrow> cert_inv st"
proof (induction rule: cert_reachable.induct)
  case (reach_next st st')
  from reach_next.hyps(2) reach_next.IH show ?case
    by (cases rule: cert_step.cases) (auto intro: cert_Create_inv cert_Delete_inv)
qed (simp add: cert_inv_def)

lemma find_named: "distinct (map cm_name ms) \<Longrightarrow> m \<in> set ms \<Longrightarrow> find (\<lambda>x. cm_name x = cm_name m) ms = Some m"
  by (induction ms) auto

lemma get_all_total:
  assumes "\<And>m. m \<in> set ms \<Longrightarrow> \<exists>c. Get dp d (cm_name m) st = Inr c \<and> ct_meta c = m"
  shows "\<exists>cs. get_all dp d ms st = Inr cs \<and> map ct_meta cs = ms"
  using assms
proof (induction ms)
  case (Cons m ms)
  from Cons.prems [of m] obtain c where "Get dp d (cm_name m) st = Inr c" "ct_meta c = m" by auto
  moreover from Cons obtain cs where "get_all dp d ms st = Inr cs" "map ct_meta cs = ms" by auto
  ultimately show ?case by simp
qed simp

lemma Get_total:
  assumes "cert_inv st" and "m \<in> set (cert_index st)" and "\<And>n. \<exists>rs. references dp d n = Inr rs"
  shows "\<exists>c. Get dp d (cm_name m) st = Inr c \<and> ct_meta c = m \<and> references dp d (cm_name m) = Inr (ct_references c)"
proof -
  have "GetCertificate st (cm_name m) = Some m"
    using assms(1,2) find_named [of "cert_index st" m] by (simp add: GetCertificate_def cert_inv_def)
  moreover have "cert_files st (cm_name m) \<noteq> None"
    using assms(1,2) by (auto simp: cert_inv_def simp del: not_None_eq)
  moreover obtain rs where "references dp d (cm_name m) = Inr rs" using assms(3) by blast
  ultimately show ?thesis by (auto simp: Get_def)
qed

lemma references_total:
  assumes "fst (LoadDraft (cd_loaders dp) d) = Inr dr" and "dr_errors dr = []"
  shows "\<exists>rs. references dp d n = Inr rs"
  using assms by (simp add: references_def Let_def)

section \<open>Properties\<close>


text \<open>A pair of parser and listeners, and a store with one certificate.\<close>

definition demo_deps :: cert_deps where
  "demo_deps = \<lparr>cd_loaders = demo_loaders, cd_listeners = (\<lambda>_. [(''https'', Some [''web'']), (''http'', None)]),
     cd_parsePair = (\<lambda>c k. Inr \<lparr>lf_subject = ''CN=x'', lf_dns = [''x.test''], lf_ips = [], lf_emails = [],
        lf_uris = [], lf_notAfter = 50\<rparr>)\<rparr>"

definition no_create_faults :: create_faults where
  "no_create_faults = \<lparr>cf_mkdir = None, cf_stage = None, cf_rename = None, cf_index = None\<rparr>"

definition demo_certs :: cert_state where
  "demo_certs = snd (Create demo_deps no_create_faults 7 ''api'' ''CRT'' ''KEY''
     \<lparr>cert_files = Map.empty, cert_index = []\<rparr>)"

lemma demo_certs_reachable: "cert_reachable demo_deps demo_certs"
  unfolding demo_certs_def by (rule reach_next [OF reach_empty step_create])

lemma demo_draft_loads:
  "\<exists>dr. fst (LoadDraft demo_loaders Map.empty) = Inr dr \<and> dr_errors dr = [] \<and> dr_mode dr = ModeAbstract"
  by (simp add: LoadDraft_def Let_def sourceFiles_def config_entries_def demo_loaders_def)


lemma find_append_other: "\<not> P x \<Longrightarrow> find P (xs @ [x]) = find P xs"
  by (induction xs) auto

lemma find_append_new: "find P xs = None \<Longrightarrow> P x \<Longrightarrow> find P (xs @ [x]) = Some x"
  by (induction xs) (auto split: if_splits)

text \<open>
  A certificate that was stored is read back: \<open>Get\<close> returns the metadata and the certificate
  that \<open>Create\<close> returned, with the current references, and every other certificate reads as
  before.  A deletion never removes a certificate the draft refers to, and one that succeeds
  removes exactly the named one from directory and index.
\<close>

theorem certificate_store_round_trip:
  assumes "references dp d n = Inr rs"
  shows "(Create dp f now n crt key st = (Inr c, st1) \<longrightarrow>
       Get dp d n st1 = Inr (c\<lparr>ct_references := rs\<rparr>) \<and> (\<forall>k. k \<noteq> n \<longrightarrow> Get dp d k st1 = Get dp d k st)) \<and>
     (rs = Some (r # rs') \<longrightarrow> snd (Delete dp g d n st) = st \<and> fst (Delete dp g d n st) \<noteq> Inr ()) \<and>
     (Delete dp g d n st = (Inr (), st2) \<longrightarrow>
       Get dp d n st2 = Inl CertNotFound \<and> cert_files st2 n = None \<and> (\<forall>k. k \<noteq> n \<longrightarrow> Get dp d k st2 = Get dp d k st))"
proof (intro conjI impI allI)
  assume "Create dp f now n crt key st = (Inr c, st1)"
  note C = Create_success [OF this]
  have name: "cm_name (ct_meta c) = n" using C(4) by (auto simp: metadataFromLeaf_def)
  have "GetCertificate st1 n = Some (ct_meta c)"
    using C(3,6) name find_append_new by (fastforce simp: GetCertificate_def)
  then show "Get dp d n st1 = Inr (c\<lparr>ct_references := rs\<rparr>)"
    using C(5,6) assms by (simp add: Get_def)
  fix k assume "k \<noteq> n"
  then show "Get dp d k st1 = Get dp d k st"
    using C(6) name by (simp add: Get_def GetCertificate_def find_append_other cong: option.case_cong)
next
  assume "rs = Some (r # rs')"
  then show "snd (Delete dp g d n st) = st" "fst (Delete dp g d n st) \<noteq> Inr ()"
    using assms by (auto simp: Delete_def)
next
  assume del: "Delete dp g d n st = (Inr (), st2)"
  with Delete_cases [of dp g d n st]
  have st2: "st2 = DeleteCertificate n (st\<lparr>cert_files := (cert_files st)(n := None)\<rparr>)" by auto
  show "Get dp d n st2 = Inl CertNotFound" "cert_files st2 n = None"
    by (auto simp: st2 Get_def GetCertificate_def DeleteCertificate_def find_None_iff split: option.splits)
  fix k assume "k \<noteq> n"
  moreover have "find (\<lambda>m. cm_name m = k) (filter (\<lambda>m. cm_name m \<noteq> n) ms) = find (\<lambda>m. cm_name m = k) ms"
    if "k \<noteq> n" for ms :: "cert_meta list"
    using that by (induction ms) auto
  ultimately show "Get dp d k st2 = Get dp d k st"
    by (simp add: st2 Get_def GetCertificate_def DeleteCertificate_def cong: option.case_cong)
qed

theorem certificate_store_round_trip_witness:
  "\<exists>c. Get demo_deps Map.empty ''api'' demo_certs = Inr c \<and> ct_certificatePem c = ''CRT''"
proof -
  obtain dr where dr: "fst (LoadDraft (cd_loaders demo_deps) Map.empty) = Inr dr" "dr_errors dr = []"
    using demo_draft_loads by (auto simp: demo_deps_def)
  obtain rs where rs: "references demo_deps Map.empty ''api'' = Inr rs" using references_total [OF dr] by blast
  have "(case Create demo_deps no_create_faults 7 ''api'' ''CRT'' ''KEY'' \<lparr>cert_files = Map.empty, cert_index = []\<rparr> of
      (Inr c, _) \<Rightarrow> ct_certificatePem c = ''CRT'' | _ \<Rightarrow> False)" by code_simp
  then obtain c where c: "Create demo_deps no_create_faults 7 ''api'' ''CRT'' ''KEY''
      \<lparr>cert_files = Map.empty, cert_index = []\<rparr> = (Inr c, demo_certs)" "ct_certificatePem c = ''CRT''"
    by (auto simp: demo_certs_def split: prod.splits sum.splits)
  with certificate_store_round_trip [OF rs] show ?thesis by fastforce
qed

definition forget_keys :: "cert_state \<Rightarrow> cert_state" where
  "forget_keys st = st\<lparr>cert_files := (\<lambda>n. map_option (\<lambda>(crt, key). (crt, [])) (cert_files st n))\<rparr>"

lemma Get_forget_keys: "Get dp d n (forget_keys st) = Get dp d n st"
  by (simp add: Get_def forget_keys_def GetCertificate_def split: option.split)

lemma get_all_forget_keys: "get_all dp d ms (forget_keys st) = get_all dp d ms st"
  by (induction ms) (simp_all add: Get_forget_keys)

text \<open>
  Private keys do not leave the store.  The list and the read operation answer the same
  whatever private keys the directory holds.
\<close>

theorem private_keys_never_read:
  "listCertificates dp rfc d (forget_keys st) = listCertificates dp rfc d st \<and>
   getCertificate dp rfc d n (forget_keys st) = getCertificate dp rfc d n st"
proof -
  have "ListCertificates (forget_keys st) = ListCertificates st"
    by (simp add: ListCertificates_def forget_keys_def)
  then show ?thesis
    by (simp add: listCertificates_def getCertificate_def List_certs_def Get_forget_keys get_all_forget_keys)
qed

end
