(* ===== verification/CertFlow.thy ===== *)
theory CertFlow
  imports CertificatesPage CertStore ConsoleAuth
begin

text \<open>
  The certificates page on the answers of the certificate store.
\<close>

section \<open>Typed answers\<close>

text \<open>A certificate whose two slices are not \<open>nil\<close> is encoded with the declared type.\<close>

interpretation certificate_wire: wire_type schemas_Certificate "certificate_json rfc"
  "\<lambda>c. cm_sans (ct_meta c) \<noteq> None \<and> ct_references c \<noteq> None" for rfc
  by unfold_locales
    (auto simp: schemas_Certificate_def certificate_json_def opt_array_def list_all_iff)

lemma card_of_nil_references:
  "ct_references c = None \<Longrightarrow> certificate_card env rm (certificate_json rfc c) = None"
  by (auto simp: certificate_card_def certificate_json_def opt_array_def js_array_def split: bind_splits)

lemma those_None: "None \<in> set xs \<Longrightarrow> those xs = None"
  by (induction xs) (auto split: option.splits)

lemma json_of_nil_references:
  "ct_references c = None \<Longrightarrow> \<not> conforms schemas_Certificate (certificate_json rfc c)"
  by (simp add: schemas_Certificate_def certificate_json_def opt_array_def)

section \<open>Properties\<close>

text \<open>
  An unreferenced certificate takes the certificates page down.  The store collects the
  references of a certificate into a slice that stays \<open>nil\<close> when no listener uses it, so the list
  is answered with \<open>null\<close> for \<open>references\<close>, against the contract, and the page throws when it reads
  its length.
\<close>

theorem unreferenced_certificate_breaks_page:
  assumes st: "cert_reachable dp st" "m \<in> set (cert_index st)"
    and load: "fst (LoadDraft (cd_loaders dp) d) = Inr dr" "dr_errors dr = []"
    and unref: "\<forall>l refs. (l, Some refs) \<in> set (cd_listeners dp (dr_files dr)) \<longrightarrow> cm_name m \<notin> set refs"
    and fetch: "fetch_laws wrap"
  shows "rs_status (listCertificates dp rfc d st) = 200 \<and>
     \<not> typed_response certificate_list_type (listCertificates dp rfc d st) \<and>
     (\<exists>v. unwrap (wrap (listCertificates dp rfc d st)) = Inr v \<and> CertificatesPage env (QSuccess v) rm u = None)"
proof -
  note inv = cert_reachable_inv [OF st(1)]
  note tot = Get_total [OF inv _ references_total [OF load]]
  have "List.map_filter (\<lambda>(l, tls). case tls of None \<Rightarrow> None
      | Some refs \<Rightarrow> if cm_name m \<in> set refs then Some (''Listener/'' @ l) else None) (cd_listeners dp (dr_files dr)) = []"
    using unref by (fastforce simp: List.map_filter_def filter_empty_conv split: option.splits)
  then have ref: "references dp d (cm_name m) = Inr None"
    using load by (simp add: references_def)
  have all: "\<exists>cs. get_all dp d ms st = Inr cs \<and> (m \<in> set ms \<longrightarrow> (\<exists>c \<in> set cs. ct_references c = None))"
    if "set ms \<subseteq> set (cert_index st)" for ms
    using that
  proof (induction ms)
    case (Cons x ms)
    then obtain c where "Get dp d (cm_name x) st = Inr c" "ct_meta c = x"
      "references dp d (cm_name x) = Inr (ct_references c)" using tot [of x] by auto
    moreover obtain cs where "get_all dp d ms st = Inr cs" "m \<in> set ms \<longrightarrow> (\<exists>c \<in> set cs. ct_references c = None)"
      using Cons by auto
    ultimately show ?case using ref by auto
  qed simp
  obtain cs c where cs: "List_certs dp d st = Inr cs" "c \<in> set cs" "ct_references c = None"
    using all [of "ListCertificates st"] st(2) by (auto simp: List_certs_def ListCertificates_def)
  let ?v = "JObj [(''items'', JArr (map (certificate_json rfc) cs)), (''total'', JNum (int (length cs)))]"
  have r: "listCertificates dp rfc d st = writeJSON 200 ?v" using cs(1) by (simp add: listCertificates_def)
  have "\<not> conforms certificate_list_type ?v"
    using json_of_nil_references cs(2,3) by (auto simp: certificate_list_type_def list_all_iff)
  then have "\<not> typed_response certificate_list_type (writeJSON 200 ?v)"
    by (simp add: typed_response_def writeJSON_def response_ok_def)
  moreover have "unwrap (wrap (writeJSON 200 ?v)) = Inr ?v"
    using unwrap_fetch(1) [OF fetch, of "writeJSON 200 ?v"] by (simp add: writeJSON_def response_ok_def)
  moreover have "those (map (certificate_card env rm) (map (certificate_json rfc) cs)) = None"
    using card_of_nil_references [OF cs(3), of env rm rfc] cs(2) by (intro those_None) (auto intro: rev_image_eqI)
  then have "CertificatesPage env (QSuccess ?v) rm u = None"
    by (simp add: CertificatesPage_def js_array_def js_coalesce_def js_is_nullish_def)
  ultimately show ?thesis by (simp add: r writeJSON_def)
qed

theorem unreferenced_certificate_breaks_page_witness:
  "rs_status (listCertificates demo_deps string_of_int Map.empty demo_certs) = 200 \<and>
   \<not> typed_response certificate_list_type (listCertificates demo_deps string_of_int Map.empty demo_certs)"
proof -
  obtain dr where dr: "fst (LoadDraft (cd_loaders demo_deps) Map.empty) = Inr dr" "dr_errors dr = []"
    using demo_draft_loads by (auto simp: demo_deps_def)
  have "map cm_name (cert_index demo_certs) = [''api'']" by code_simp
  then obtain m where m: "m \<in> set (cert_index demo_certs)" "cm_name m = ''api''"
    by (cases "cert_index demo_certs") auto
  have "\<forall>l refs. (l, Some refs) \<in> set (cd_listeners demo_deps (dr_files dr)) \<longrightarrow> cm_name m \<notin> set refs"
    using m(2) by (simp add: demo_deps_def)
  from unreferenced_certificate_breaks_page [OF demo_certs_reachable m(1) dr this demo_fetch_laws]
  show ?thesis by blast
qed

end
