(* ===== verification/VersionStore.thy ===== *)
theory VersionStore
  imports Limiter
begin

text \<open>
  The tables of versions and publish runs (\<open>internal/store/store.go\<close>).  A table is the list of its
  rows; a statement that SQLite refuses or that cannot reach the database changes nothing, and a
  transaction is one step.  The clock is an argument, the zero time is \<open>0\<close>.  Every statement may
  fail: \<open>fault\<close> is the text of the error, if there is one.

  The partial unique index \<open>one_active_publish\<close> has one key for all active rows, so a statement
  that would make a second row active is refused.
\<close>

section \<open>Rows by key\<close>

text \<open>Reading and upserting a row under its key, as a contract and on lists.\<close>

definition row_get :: "('r \<Rightarrow> 'k) \<Rightarrow> 'k \<Rightarrow> 'r list \<Rightarrow> 'r option" where
  "row_get key k rows = find (\<lambda>r. key r = k) rows"

fun row_put :: "('r \<Rightarrow> 'k) \<Rightarrow> 'r \<Rightarrow> 'r list \<Rightarrow> 'r list" where
  "row_put key r [] = [r]"
| "row_put key r (x # xs) = (if key x = key r then r # xs else x # row_put key r xs)"

locale keyed_table =
  fixes key :: "'r \<Rightarrow> 'k" and lookup :: "'k \<Rightarrow> 't \<Rightarrow> 'r option" and upsert :: "'r \<Rightarrow> 't \<Rightarrow> 't"
  assumes lookup_upsert: "lookup k (upsert r t) = (if k = key r then Some r else lookup k t)"
begin

lemma lookup_same [simp]: "lookup (key r) (upsert r t) = Some r"
  by (simp add: lookup_upsert)

lemma lookup_other: "k \<noteq> key r \<Longrightarrow> lookup k (upsert r t) = lookup k t"
  by (simp add: lookup_upsert)

lemma last_upsert_wins: "key q = key r \<Longrightarrow> lookup k (upsert r (upsert q t)) = lookup k (upsert r t)"
  by (simp add: lookup_upsert)

end

lemma row_get_put: "row_get key k (row_put key r rows) = (if k = key r then Some r else row_get key k rows)"
  by (induction rows) (auto simp: row_get_def)

lemma map_key_put:
  "map key (row_put key r rows) = (if key r \<in> key ` set rows then map key rows else map key rows @ [key r])"
  by (induction rows) auto

lemma set_row_put: "distinct (map key rows) \<Longrightarrow> set (row_put key r rows) = insert r {x \<in> set rows. key x \<noteq> key r}"
  by (induction rows) (auto simp: image_iff)

lemma row_put_new: "key r \<notin> key ` set rows \<Longrightarrow> row_put key r rows = rows @ [r]"
  by (induction rows) auto

lemma row_get_SomeD: "row_get key k rows = Some r \<Longrightarrow> r \<in> set rows \<and> key r = k"
  by (auto simp: row_get_def find_Some_iff)

lemma row_get_None_iff: "row_get key k rows = None \<longleftrightarrow> k \<notin> key ` set rows"
  by (auto simp: row_get_def find_None_iff)

lemma row_get_in: "distinct (map key rows) \<Longrightarrow> r \<in> set rows \<Longrightarrow> row_get key (key r) rows = Some r"
  by (induction rows) (auto simp: row_get_def image_iff)

section \<open>The tables\<close>

record version =
  vs_seq :: int
  vs_createdAt :: time
  vs_author :: string
  vs_message :: string
  vs_mode :: string
  vs_irVersion :: string
  vs_state :: string
  vs_parentSeq :: int
  vs_rollbackOf :: int
  vs_statsJSON :: string

text \<open>A run without a version has \<open>NULL\<close> there, which is read as zero.\<close>

record publish_run =
  pr_id :: int
  pr_versionSeq :: int
  pr_triggerBy :: string
  pr_baseHash :: string
  pr_state :: string
  pr_errorsJSON :: string
  pr_diffJSON :: string
  pr_createdAt :: time
  pr_updatedAt :: time

text \<open>The last identifier \<open>AUTOINCREMENT\<close> has given out.\<close>

record version_db =
  db_versions :: "version list"
  db_runs :: "publish_run list"
  db_lastRun :: int

definition active_states :: "string list" where
  "active_states = [''VALIDATING'', ''VALIDATED'', ''PUBLISHING'', ''CONFIRMING'']"

definition run_active :: "publish_run \<Rightarrow> bool" where
  "run_active r \<longleftrightarrow> pr_state r \<in> set active_states"

text \<open>The index refuses the row when another one is active already.\<close>

definition index_refuses :: "publish_run \<Rightarrow> version_db \<Rightarrow> bool" where
  "index_refuses r db \<longleftrightarrow> run_active r \<and> (\<exists>q \<in> set (db_runs db). run_active q \<and> pr_id q \<noteq> pr_id r)"

datatype sql_error = SqlNoRows | SqlConstraint | SqlOther string

section \<open>Versions\<close>

definition next_seq :: "version_db \<Rightarrow> int" where
  "next_seq db = fold max (map vs_seq (db_versions db)) 0 + 1"

definition reserved_version :: "int \<Rightarrow> time \<Rightarrow> version" where
  "reserved_version seq now = \<lparr>vs_seq = seq, vs_createdAt = now, vs_author = [], vs_message = [], vs_mode = [],
     vs_irVersion = [], vs_state = ''RESERVED'', vs_parentSeq = 0, vs_rollbackOf = 0, vs_statsJSON = ''{}''\<rparr>"

definition NextVersionSeq :: "string option \<Rightarrow> time \<Rightarrow> version_db \<Rightarrow> (sql_error + int) \<times> version_db" where
  "NextVersionSeq fault now db =
     (case fault of Some e \<Rightarrow> (Inl (SqlOther e), db)
      | None \<Rightarrow> (let seq = next_seq db in
          (Inr seq, db\<lparr>db_versions := db_versions db @ [reserved_version seq now]\<rparr>)))"

definition InsertVersion :: "string option \<Rightarrow> time \<Rightarrow> version \<Rightarrow> version_db \<Rightarrow> sql_error option \<times> version_db" where
  "InsertVersion fault now v0 db =
     (if vs_seq v0 \<le> 0 then (Some (SqlOther ''version sequence must be positive''), db)
      else let v1 = (if vs_createdAt v0 = 0 then v0\<lparr>vs_createdAt := now\<rparr> else v0);
               v = (if vs_statsJSON v1 = [] then v1\<lparr>vs_statsJSON := ''{}''\<rparr> else v1)
           in (case fault of Some e \<Rightarrow> (Some (SqlOther e), db)
               | None \<Rightarrow> (None, db\<lparr>db_versions := row_put vs_seq v (db_versions db)\<rparr>)))"

definition GetVersion :: "int \<Rightarrow> version_db \<Rightarrow> version option" where
  "GetVersion seq db = row_get vs_seq seq (db_versions db)"

definition newest_first :: "version list \<Rightarrow> version list" where
  "newest_first vs = rev (sort_key vs_seq vs)"

definition visible :: "version \<Rightarrow> bool" where
  "visible v \<longleftrightarrow> vs_state v \<noteq> ''RESERVED''"

definition ListVersions :: "int \<Rightarrow> int \<Rightarrow> version_db \<Rightarrow> sql_error + version list \<times> nat" where
  "ListVersions limit offset db =
     (if limit \<le> 0 \<or> 1000 < limit \<or> offset < 0 then Inl (SqlOther ''invalid version pagination'')
      else let vs = filter visible (db_versions db) in
        Inr (take (nat limit) (drop (nat offset) (newest_first vs)), length vs))"

definition LatestVersion :: "string \<Rightarrow> version_db \<Rightarrow> version option" where
  "LatestVersion st db =
     (case newest_first (filter (\<lambda>v. visible v \<and> (st = [] \<or> vs_state v = st)) (db_versions db)) of
        [] \<Rightarrow> None | v # vs \<Rightarrow> Some v)"

section \<open>Publish runs\<close>

definition run_defaults :: "time \<Rightarrow> publish_run \<Rightarrow> publish_run" where
  "run_defaults now r =
     (let r1 = (if pr_createdAt r = 0 then r\<lparr>pr_createdAt := now\<rparr> else r);
          r2 = (if pr_updatedAt r1 = 0 then r1\<lparr>pr_updatedAt := pr_createdAt r1\<rparr> else r1);
          r3 = (if pr_errorsJSON r2 = [] then r2\<lparr>pr_errorsJSON := ''[]''\<rparr> else r2)
      in if pr_diffJSON r3 = [] then r3\<lparr>pr_diffJSON := ''{}''\<rparr> else r3)"

definition CreatePublishRun :: "string option \<Rightarrow> time \<Rightarrow> publish_run \<Rightarrow> version_db \<Rightarrow> (sql_error + int) \<times> version_db" where
  "CreatePublishRun fault now r0 db =
     (case fault of Some e \<Rightarrow> (Inl (SqlOther e), db)
      | None \<Rightarrow>
          let i = db_lastRun db + 1; r = (run_defaults now r0)\<lparr>pr_id := i\<rparr> in
          if index_refuses r db then (Inl SqlConstraint, db)
          else (Inr i, db\<lparr>db_runs := db_runs db @ [r], db_lastRun := i\<rparr>))"

text \<open>The update leaves the creation time alone; without a row of that identifier it does nothing.\<close>

definition UpdatePublishRun :: "string option \<Rightarrow> time \<Rightarrow> publish_run \<Rightarrow> version_db \<Rightarrow> sql_error option \<times> version_db" where
  "UpdatePublishRun fault now r0 db =
     (if pr_id r0 \<le> 0 then (Some (SqlOther ''publish run id must be positive''), db)
      else let r = (if pr_updatedAt r0 = 0 then r0\<lparr>pr_updatedAt := now\<rparr> else r0) in
        (case fault of Some e \<Rightarrow> (Some (SqlOther e), db)
         | None \<Rightarrow>
             (case row_get pr_id (pr_id r) (db_runs db) of
                None \<Rightarrow> (None, db)
              | Some q \<Rightarrow>
                  if index_refuses r db then (Some SqlConstraint, db)
                  else (None, db\<lparr>db_runs := row_put pr_id (r\<lparr>pr_createdAt := pr_createdAt q\<rparr>) (db_runs db)\<rparr>))))"

definition GetPublishRun :: "int \<Rightarrow> version_db \<Rightarrow> publish_run option" where
  "GetPublishRun i db = row_get pr_id i (db_runs db)"

definition ActivePublishRuns :: "version_db \<Rightarrow> publish_run list" where
  "ActivePublishRuns db = sort_key pr_id (filter run_active (db_runs db))"

text \<open>The transition of a run and its version, in one transaction.\<close>

definition supersede_others :: "int \<Rightarrow> version list \<Rightarrow> version list" where
  "supersede_others seq vs =
     map (\<lambda>v. if vs_state v = ''effective'' \<and> vs_seq v \<noteq> seq then v\<lparr>vs_state := ''superseded''\<rparr> else v) vs"

definition TransitionPublish ::
    "string option \<Rightarrow> time \<Rightarrow> int \<Rightarrow> int \<Rightarrow> string \<Rightarrow> string \<Rightarrow> bool \<Rightarrow> version_db \<Rightarrow> sql_error option \<times> version_db" where
  "TransitionPublish fault now runID versionSeq runState versionState supersede db =
     (if runID \<le> 0 \<or> versionSeq \<le> 0 \<or> runState = [] \<or> versionState = []
      then (Some (SqlOther ''publish transition requires run, version and states''), db)
      else case fault of Some e \<Rightarrow> (Some (SqlOther e), db)
      | None \<Rightarrow>
        (case row_get pr_id runID (db_runs db) of
           None \<Rightarrow> (Some SqlNoRows, db)
         | Some r \<Rightarrow>
             if pr_versionSeq r \<noteq> versionSeq
             then (Some (SqlOther (''publish run '' @ string_of_int runID @ '' is not linked to version '' @ string_of_int versionSeq)), db)
             else
               let vs = (if supersede then supersede_others versionSeq (db_versions db) else db_versions db);
                   r' = r\<lparr>pr_state := runState, pr_updatedAt := now\<rparr>
               in (case row_get vs_seq versionSeq (filter visible vs) of
                     None \<Rightarrow> (Some (SqlOther (''version '' @ string_of_int versionSeq @ '' is not publishable'')), db)
                   | Some v \<Rightarrow>
                       if index_refuses r' db then (Some SqlConstraint, db)
                       else (None, db\<lparr>db_versions := row_put vs_seq (v\<lparr>vs_state := versionState\<rparr>) vs,
                                      db_runs := row_put pr_id r' (db_runs db)\<rparr>))))"

section \<open>Invariant\<close>

definition vdb_wf :: "version_db \<Rightarrow> bool" where
  "vdb_wf db \<longleftrightarrow>
     distinct (map vs_seq (db_versions db)) \<and> (\<forall>v \<in> set (db_versions db). 0 < vs_seq v) \<and>
     distinct (map pr_id (db_runs db)) \<and> (\<forall>r \<in> set (db_runs db). 0 < pr_id r \<and> pr_id r \<le> db_lastRun db) \<and>
     0 \<le> db_lastRun db"

definition one_active :: "version_db \<Rightarrow> bool" where
  "one_active db \<longleftrightarrow> (\<forall>r \<in> set (db_runs db). \<forall>q \<in> set (db_runs db). run_active r \<and> run_active q \<longrightarrow> r = q)"

definition one_effective :: "version_db \<Rightarrow> bool" where
  "one_effective db \<longleftrightarrow> (\<forall>v \<in> set (db_versions db). \<forall>w \<in> set (db_versions db).
     vs_state v = ''effective'' \<and> vs_state w = ''effective'' \<longrightarrow> v = w)"

definition vdb_inv :: "version_db \<Rightarrow> bool" where
  "vdb_inv db \<longleftrightarrow> vdb_wf db \<and> one_active db \<and> one_effective db"

definition empty_vdb :: version_db where
  "empty_vdb = \<lparr>db_versions = [], db_runs = [], db_lastRun = 0\<rparr>"

lemma vdb_inv_empty: "vdb_inv empty_vdb"
  by (simp add: vdb_inv_def vdb_wf_def one_active_def one_effective_def empty_vdb_def)

lemma fold_max_upper: "(x :: int) \<in> insert a (set xs) \<Longrightarrow> x \<le> fold max xs a"
  by (simp only: Max.set_eq_fold [symmetric]) (rule Max_ge; simp)

lemma next_seq_above: "v \<in> set (db_versions db) \<Longrightarrow> vs_seq v < next_seq db"
  using fold_max_upper [of "vs_seq v" 0 "map vs_seq (db_versions db)"] by (simp add: next_seq_def)

lemma next_seq_positive: "0 < next_seq db"
  using fold_max_upper [of 0 0 "map vs_seq (db_versions db)"] by (simp add: next_seq_def)

lemma NextVersionSeq_cases:
  obtains e where "NextVersionSeq fault now db = (Inl (SqlOther e), db)"
  | "NextVersionSeq fault now db =
       (Inr (next_seq db), db\<lparr>db_versions := db_versions db @ [reserved_version (next_seq db) now]\<rparr>)"
  by (cases fault) (auto simp: NextVersionSeq_def Let_def)

lemma vdb_inv_reserve:
  assumes "vdb_inv db"
  shows "vdb_inv (db\<lparr>db_versions := db_versions db @ [reserved_version (next_seq db) now]\<rparr>)"
  using assms next_seq_above [of _ db] next_seq_positive [of db]
  by (fastforce simp: vdb_inv_def vdb_wf_def one_active_def one_effective_def reserved_version_def)

lemma vdb_inv_NextVersionSeq: "vdb_inv db \<Longrightarrow> vdb_inv (snd (NextVersionSeq fault now db))"
  by (rule NextVersionSeq_cases [of fault now db]) (simp_all add: vdb_inv_reserve)

lemma distinct_row_put: "distinct (map key rows) \<Longrightarrow> distinct (map key (row_put key r rows))"
  by (simp add: map_key_put)

lemma vdb_inv_put_version:
  assumes "vdb_inv db" and "0 < vs_seq v" and "vs_state v \<noteq> ''effective''"
  shows "vdb_inv (db\<lparr>db_versions := row_put vs_seq v (db_versions db)\<rparr>)"
proof -
  have d: "distinct (map vs_seq (db_versions db))" using assms(1) by (simp add: vdb_inv_def vdb_wf_def)
  show ?thesis
    using assms distinct_row_put [OF d] by (auto simp: vdb_inv_def vdb_wf_def one_active_def one_effective_def set_row_put [OF d])
qed

lemma vdb_inv_InsertVersion:
  assumes "vdb_inv db" and "vs_state v \<noteq> ''effective''"
  shows "vdb_inv (snd (InsertVersion fault now v db))"
  using assms vdb_inv_put_version [OF assms(1)]
  by (auto simp: InsertVersion_def Let_def split: option.splits)

lemma vdb_inv_add_run:
  assumes "vdb_inv db" and "pr_id r = db_lastRun db + 1" and "\<not> index_refuses r db"
  shows "vdb_inv (db\<lparr>db_runs := db_runs db @ [r], db_lastRun := db_lastRun db + 1\<rparr>)"
proof -
  have wf: "vdb_wf db" "one_active db" "one_effective db" using assms(1) by (simp_all add: vdb_inv_def)
  then have new: "q \<in> set (db_runs db) \<Longrightarrow> pr_id q \<noteq> pr_id r" for q
    using assms(2) by (force simp: vdb_wf_def)
  have "vdb_wf (db\<lparr>db_runs := db_runs db @ [r], db_lastRun := db_lastRun db + 1\<rparr>)"
    using wf(1) assms(2) new by (force simp: vdb_wf_def)
  moreover have "one_active (db\<lparr>db_runs := db_runs db @ [r], db_lastRun := db_lastRun db + 1\<rparr>)"
    using wf(2) assms(3) new by (simp add: one_active_def index_refuses_def) blast
  ultimately show ?thesis using wf(3) by (simp add: vdb_inv_def one_effective_def)
qed

lemma vdb_inv_CreatePublishRun: "vdb_inv db \<Longrightarrow> vdb_inv (snd (CreatePublishRun fault now r db))"
  by (simp add: CreatePublishRun_def Let_def vdb_inv_add_run split: option.splits)

lemma vdb_inv_put_run:
  assumes "vdb_inv db" and "pr_id r \<in> pr_id ` set (db_runs db)" and "\<not> index_refuses r db"
  shows "vdb_inv (db\<lparr>db_runs := row_put pr_id r (db_runs db)\<rparr>)"
proof -
  have d: "distinct (map pr_id (db_runs db))" using assms(1) by (simp add: vdb_inv_def vdb_wf_def)
  show ?thesis
    using assms distinct_row_put [OF d]
    by (auto simp: vdb_inv_def vdb_wf_def one_active_def one_effective_def index_refuses_def set_row_put [OF d])
qed

lemma vdb_inv_UpdatePublishRun: "vdb_inv db \<Longrightarrow> vdb_inv (snd (UpdatePublishRun fault now r db))"
proof -
  assume inv: "vdb_inv db"
  have "vdb_inv (db\<lparr>db_runs := row_put pr_id (q\<lparr>pr_createdAt := t\<rparr>) (db_runs db)\<rparr>)"
    if "row_get pr_id (pr_id q) (db_runs db) = Some p" "\<not> index_refuses q db" for p q t
    using that row_get_SomeD [OF that(1)]
    by (intro vdb_inv_put_run [OF inv]) (auto simp: index_refuses_def run_active_def image_iff intro!: bexI [of _ p])
  then show ?thesis using inv by (auto simp: UpdatePublishRun_def Let_def split: option.splits)
qed

lemma map_seq_supersede: "map vs_seq (supersede_others n vs) = map vs_seq vs"
  by (simp add: supersede_others_def comp_def if_distrib [of vs_seq])

lemma supersede_effective: "v \<in> set (supersede_others n vs) \<Longrightarrow> vs_state v = ''effective'' \<Longrightarrow> vs_seq v = n"
  by (auto simp: supersede_others_def split: if_splits)

lemma TransitionPublish_cases:
  obtains (fails) e where "TransitionPublish fault now i n rst vst super db = (Some e, db)"
  | (applies) r v vs where "vs = (if super then supersede_others n (db_versions db) else db_versions db)"
      and "row_get pr_id i (db_runs db) = Some r" and "pr_versionSeq r = n"
      and "row_get vs_seq n (filter visible vs) = Some v" and "0 < n" and "0 < i"
      and "\<not> index_refuses (r\<lparr>pr_state := rst, pr_updatedAt := now\<rparr>) db"
      and "TransitionPublish fault now i n rst vst super db =
        (None, db\<lparr>db_versions := row_put vs_seq (v\<lparr>vs_state := vst\<rparr>) vs,
                  db_runs := row_put pr_id (r\<lparr>pr_state := rst, pr_updatedAt := now\<rparr>) (db_runs db)\<rparr>)"
proof (cases "fst (TransitionPublish fault now i n rst vst super db)")
  case (Some e)
  then have "TransitionPublish fault now i n rst vst super db = (Some e, db)"
    by (auto simp: TransitionPublish_def Let_def split: if_splits option.splits)
  then show thesis by (rule fails)
next
  case None
  let ?vs = "if super then supersede_others n (db_versions db) else db_versions db"
  from None obtain r where r: "row_get pr_id i (db_runs db) = Some r" "pr_versionSeq r = n"
    by (auto simp: TransitionPublish_def Let_def split: if_splits option.splits)
  with None obtain v where "row_get vs_seq n (filter visible ?vs) = Some v"
    by (auto simp: TransitionPublish_def Let_def split: if_splits option.splits)
  with None r show thesis
    by (intro applies [OF refl, of r v]) (auto simp: TransitionPublish_def Let_def split: if_splits option.splits)
qed

lemma vdb_inv_put_versions:
  assumes inv: "vdb_inv db" and vs: "vs = (if super then supersede_others n (db_versions db) else db_versions db)"
    and v: "vs_seq v = n" "0 < n" and st: "vs_state v = ''effective'' \<longrightarrow> super"
  shows "vdb_inv (db\<lparr>db_versions := row_put vs_seq v vs\<rparr>)"
proof -
  have seqs: "map vs_seq vs = map vs_seq (db_versions db)"
    using vs map_seq_supersede by simp
  then have d: "distinct (map vs_seq vs)"
    using inv by (simp add: vdb_inv_def vdb_wf_def)
  have "list_all (\<lambda>n. 0 < n) (map vs_seq vs)"
    unfolding seqs using inv by (simp add: vdb_inv_def vdb_wf_def list_all_iff)
  then have pos: "\<forall>x \<in> set vs. 0 < vs_seq x" by (simp add: list_all_iff)
  note S = set_row_put [OF d, of v]
  have "vdb_wf (db\<lparr>db_versions := row_put vs_seq v vs\<rparr>)"
    using inv pos v S distinct_row_put [OF d] by (auto simp: vdb_inv_def vdb_wf_def)
  moreover have "one_effective (db\<lparr>db_versions := row_put vs_seq v vs\<rparr>)"
  proof (cases super)
    case True
    then have "x \<in> set vs \<Longrightarrow> vs_state x = ''effective'' \<Longrightarrow> vs_seq x = vs_seq v" for x
      using vs v supersede_effective by simp
    then show ?thesis using S by (auto simp: one_effective_def)
  next
    case False
    with st vs inv S show ?thesis by (auto simp: one_effective_def vdb_inv_def)
  qed
  ultimately show ?thesis using inv by (simp add: vdb_inv_def one_active_def)
qed

lemma vdb_inv_TransitionPublish:
  assumes inv: "vdb_inv db" and st: "vst = ''effective'' \<longrightarrow> super"
  shows "vdb_inv (snd (TransitionPublish fault now i n rst vst super db))"
proof (cases rule: TransitionPublish_cases [of fault now i n rst vst super db])
  case (fails e)
  with inv show ?thesis by simp
next
  case (applies r v vs)
  let ?db = "db\<lparr>db_versions := row_put vs_seq (v\<lparr>vs_state := vst\<rparr>) vs\<rparr>"
  have "vdb_inv ?db"
    using vdb_inv_put_versions [OF inv applies(1), of "v\<lparr>vs_state := vst\<rparr>"] applies(5) st row_get_SomeD [OF applies(4)]
    by simp
  then have "vdb_inv (?db\<lparr>db_runs := row_put pr_id (r\<lparr>pr_state := rst, pr_updatedAt := now\<rparr>) (db_runs ?db)\<rparr>)"
    using applies(7) row_get_SomeD [OF applies(2)]
    by (intro vdb_inv_put_run) (auto simp: index_refuses_def image_iff intro!: bexI [of _ r])
  with applies(8) show ?thesis by simp
qed

interpretation version_rows: keyed_table vs_seq "GetVersion" "\<lambda>v db. db\<lparr>db_versions := row_put vs_seq v (db_versions db)\<rparr>"
  by unfold_locales (simp add: GetVersion_def row_get_put)

interpretation run_rows: keyed_table pr_id "GetPublishRun" "\<lambda>r db. db\<lparr>db_runs := row_put pr_id r (db_runs db)\<rparr>"
  by unfold_locales (simp add: GetPublishRun_def row_get_put)

end
