(* ===== verification/ConfHistory.thy ===== *)
theory ConfHistory
  imports DraftEntries
begin

text \<open>
  Snapshots of the draft (\<open>internal/conf/draft.go\<close>), going back to one
  (\<open>internal/conf/rollback.go\<close>) and the differences between them (\<open>internal/conf/diff.go\<close>).

  The directory \<open>versions\<close> maps a sequence number to its snapshot: the metadata and the directory
  \<open>config\<close>, which is only made when a file is copied into it.  A snapshot is staged under \<open>tmp\<close> and
  renamed into place, so a step that fails leaves \<open>versions\<close> as it was.  Snapshots hold nothing
  but what \<open>Snapshot\<close> copied and the \<open>config.d\<close> a later read may create.
\<close>

record snapshot_meta =
  sm_seq :: int
  sm_createdAt :: int
  sm_author :: string
  sm_message :: string
  sm_mode :: string
  sm_irVersion :: string
  sm_state :: string
  sm_parentSeq :: int
  sm_rollbackOf :: int
  sm_stats :: "(string \<times> nat) list"

record snapshot =
  sn_config :: "data_dir option"
  sn_meta :: snapshot_meta

type_synonym snapshots = "int \<Rightarrow> snapshot option"

text \<open>\<open>%06d\<close>\<close>

definition seq_name :: "int \<Rightarrow> string" where
  "seq_name n = (let s = string_of_int n in replicate (6 - length s) CHR ''0'' @ s)"

section \<open>Snapshots\<close>

text \<open>The copied files, each at its relative path under \<open>config\<close>.\<close>

definition copied :: "(string \<times> string) list \<Rightarrow> data_dir" where
  "copied files =
     (let cs = filter (\<lambda>(p, c). p \<noteq> ''native.yaml'') files in
      (if cs = [] then Map.empty else [''config.d'' \<mapsto> Entries (map (\<lambda>(p, c). (path_base p, c)) cs)])
        (''native.yaml'' := map_option Contents (map_of files ''native.yaml'')))"

text \<open>The steps that may fail: before and after the check that the number is free.\<close>

record snapshot_faults =
  sn_prepare :: "string option"
  sn_write :: "string option"

definition Snapshot ::
    "snapshot_faults \<Rightarrow> data_dir \<Rightarrow> int \<Rightarrow> snapshot_meta \<Rightarrow> snapshots \<Rightarrow> conf_error option \<times> snapshots" where
  "Snapshot f d seq meta snaps =
     (if seq \<le> 0 then (Some (ErrText ''snapshot sequence must be positive''), snaps)
      else case sourceFiles d of Inl e \<Rightarrow> (Some e, snaps)
      | Inr files \<Rightarrow>
        (case sn_prepare f of Some m \<Rightarrow> (Some (ErrText m), snaps)
         | None \<Rightarrow>
             if snaps seq \<noteq> None
             then (Some (ErrText (''version '' @ seq_name seq @ '' already exists'')), snaps)
             else (case sn_write f of Some m \<Rightarrow> (Some (ErrText m), snaps)
               | None \<Rightarrow> (None, snaps(seq \<mapsto>
                   \<lparr>sn_config = (if files = [] then None else Some (copied files)), sn_meta = meta\<rparr>)))))"

section \<open>Rollback\<close>

text \<open>\<open>sourceFilesFrom\<close> and \<open>snapshotFiles\<close> walk the whole directory.\<close>

definition walk_files :: "data_dir \<Rightarrow> (string \<times> string) list" where
  "walk_files d =
     sort_key fst
       ((case d ''config.d'' of Some (Entries es) \<Rightarrow> map (\<lambda>(n, c). (''config.d/'' @ n, c)) es
         | Some (Contents c) \<Rightarrow> [(''config.d'', c)] | None \<Rightarrow> []) @
        (case d ''native.yaml'' of Some (Contents c) \<Rightarrow> [(''native.yaml'', c)] | _ \<Rightarrow> []))"

definition snapshot_config :: "snapshots \<Rightarrow> int \<Rightarrow> data_dir option" where
  "snapshot_config snaps seq = (case snaps seq of Some s \<Rightarrow> sn_config s | None \<Rightarrow> None)"

definition RollbackSource ::
    "loaders \<Rightarrow> string option \<Rightarrow> commit_faults \<Rightarrow> int \<Rightarrow> bool \<Rightarrow> snapshots \<Rightarrow> data_dir \<Rightarrow> conf_error option \<times> data_dir" where
  "RollbackSource L stage_fault f seq force snaps d =
     (if seq \<le> 0 then (Some (ErrText ''rollback sequence must be positive''), d)
      else case snapshot_config snaps seq of
        None \<Rightarrow> (Some (ErrNotFound ''rollback source: no such file or directory''), d)
      | Some src \<Rightarrow>
          let restore =
            (let files = walk_files src;
                 mode = (if map fst files = [''native.yaml''] then ModeNative else ModeAbstract);
                 replacement = map source_of files
             in (case DraftHash (sha256 L) d of
                   Inl e \<Rightarrow> (Some e, d)
                 | Inr expected \<Rightarrow>
                     (case ReplaceDraft L stage_fault f mode replacement expected d of
                        (Inl e, d') \<Rightarrow> (Some e, d')
                      | (Inr h, d') \<Rightarrow> (None, d'))))
          in if force then restore
             else (case sourceFiles d of
                 Inl e \<Rightarrow> (Some e, d)
               | Inr current \<Rightarrow>
                   if current \<noteq> [] then (Some (ErrText ''rollback would overwrite current draft; force is required''), d)
                   else restore))"

section \<open>Differences\<close>

text \<open>\<open>strings.ReplaceAll(s, "\r\n", "\n")\<close> and the trailing blanks of every line.\<close>

fun crlf_to_lf :: "string \<Rightarrow> string" where
  "crlf_to_lf [] = []"
| "crlf_to_lf [c] = [c]"
| "crlf_to_lf (c # d # s) = (if c = CHR 0x0D \<and> d = CHR 0x0A then CHR 0x0A # crlf_to_lf s else c # crlf_to_lf (d # s))"

definition trim_blanks :: "string \<Rightarrow> string" where
  "trim_blanks s = rev (dropWhile (\<lambda>c. c = CHR '' '' \<or> c = CHR 0x09) (rev s))"

definition normalizeText :: "string \<Rightarrow> string" where
  "normalizeText s = join_with [CHR 0x0A] (map trim_blanks (split_on (CHR 0x0A) (crlf_to_lf s)))"

definition splitLines :: "string \<Rightarrow> string list" where
  "splitLines s = (if s = [] then [] else split_on (CHR 0x0A) s)"

text \<open>\<open>unifiedPatch\<close> pairs the lines by their position.\<close>

fun patch_lines :: "string list \<Rightarrow> string list \<Rightarrow> string list" where
  "patch_lines [] [] = []"
| "patch_lines [] (b # bs) = (''+ '' @ b) # patch_lines [] bs"
| "patch_lines (a # as) [] = (''- '' @ a) # patch_lines as []"
| "patch_lines (a # as) (b # bs) =
     (if a = b then [''  '' @ a] else [''- '' @ a, ''+ '' @ b]) @ patch_lines as bs"

definition unifiedPatch :: "string list \<Rightarrow> string list \<Rightarrow> string" where
  "unifiedPatch as bs = concat (map (\<lambda>l. l @ [CHR 0x0A]) ([''--- from'', ''+++ to''] @ patch_lines as bs))"

record file_diff =
  fd_path :: string
  fd_status :: string
  fd_patch :: string

record snapshot_diff =
  sd_from :: int
  sd_to :: int
  sd_files :: "file_diff list"

definition file_diff_of :: "(string \<times> string) list \<Rightarrow> (string \<times> string) list \<Rightarrow> string \<Rightarrow> file_diff" where
  "file_diff_of left right n =
     (case (map_of left n, map_of right n) of
        (None, b) \<Rightarrow> \<lparr>fd_path = n, fd_status = ''added'',
           fd_patch = unifiedPatch [] (splitLines (case b of Some t \<Rightarrow> t | None \<Rightarrow> []))\<rparr>
      | (Some a, None) \<Rightarrow> \<lparr>fd_path = n, fd_status = ''removed'', fd_patch = unifiedPatch (splitLines a) []\<rparr>
      | (Some a, Some b) \<Rightarrow>
          if a = b then \<lparr>fd_path = n, fd_status = ''unchanged'', fd_patch = []\<rparr>
          else \<lparr>fd_path = n, fd_status = ''changed'', fd_patch = unifiedPatch (splitLines a) (splitLines b)\<rparr>)"

definition diffFileMaps :: "int \<Rightarrow> int \<Rightarrow> (string \<times> string) list \<Rightarrow> (string \<times> string) list \<Rightarrow> snapshot_diff" where
  "diffFileMaps from to left right =
     \<lparr>sd_from = from, sd_to = to,
      sd_files = map (file_diff_of left right) (sort (remdups (map fst left @ map fst right)))\<rparr>"

definition normalized :: "(string \<times> string) list \<Rightarrow> (string \<times> string) list" where
  "normalized files = map (\<lambda>(p, c). (p, normalizeText c)) files"

definition snapshotFiles :: "snapshots \<Rightarrow> int \<Rightarrow> conf_error + (string \<times> string) list" where
  "snapshotFiles snaps seq =
     (case snapshot_config snaps seq of
        None \<Rightarrow> Inl (ErrNotFound (''read snapshot '' @ seq_name seq @ '': no such file or directory''))
      | Some d \<Rightarrow> Inr (normalized (walk_files d)))"

definition DiffSnapshots :: "snapshots \<Rightarrow> int \<Rightarrow> int \<Rightarrow> conf_error + snapshot_diff" where
  "DiffSnapshots snaps from to =
     (if from \<le> 0 \<or> to \<le> 0 then Inl (ErrText ''snapshot sequence must be positive'')
      else bind_result (snapshotFiles snaps from) (\<lambda>left.
           bind_result (snapshotFiles snaps to) (\<lambda>right. Inr (diffFileMaps from to left right))))"

definition DiffDraftAgainstSnapshot :: "snapshots \<Rightarrow> int \<Rightarrow> data_dir \<Rightarrow> conf_error + snapshot_diff" where
  "DiffDraftAgainstSnapshot snaps from d =
     bind_result (if 0 < from then snapshotFiles snaps from else Inr []) (\<lambda>left.
     bind_result (sourceFiles d) (\<lambda>files. Inr (diffFileMaps from 0 left (normalized files))))"

section \<open>A snapshot keeps the files\<close>

lemma entry_path_base: "entry_path p \<Longrightarrow> ''config.d/'' @ path_base p = p"
  using path_base_file [of _ "''config.d''"] by (auto simp: entry_path_def entry_name_def)

lemma entry_not_native: "entry_path p \<Longrightarrow> p \<noteq> ''native.yaml''"
  by (auto simp: entry_path_def)

lemma walk_copied:
  assumes "protocol_set fs"
  shows "walk_files (copied fs) = fs"
proof -
  have e: "entry_path (fst f)" if "f \<in> set fs" for f
    using assms that by (auto simp: protocol_set_def)
  then have all: "filter (\<lambda>(p, c). p \<noteq> ''native.yaml'') fs = fs"
    using entry_not_native by (fastforce simp: filter_id_conv)
  have nn: "map_of fs ''native.yaml'' = None"
    using e entry_not_native by (fastforce simp: map_of_eq_None_iff)
  have "map (\<lambda>(n, c). (''config.d/'' @ n, c)) (map (\<lambda>(p, c). (path_base p, c)) fs) = fs"
    using e entry_path_base by (fastforce intro!: map_idI)
  with all nn assms show ?thesis
    by (simp add: walk_files_def copied_def Let_def protocol_set_def sort_key_sorted)
qed

lemma snapshot_taken:
  assumes "0 < seq" and "sourceFiles d = Inr fs" and "snaps seq = None"
  shows "Snapshot \<lparr>sn_prepare = None, sn_write = None\<rparr> d seq meta snaps =
    (None, snaps(seq \<mapsto> \<lparr>sn_config = (if fs = [] then None else Some (copied fs)), sn_meta = meta\<rparr>))"
  using assms by (simp add: Snapshot_def)

lemma Snapshot_cases:
  obtains (fails) e where "Snapshot f d seq meta snaps = (Some e, snaps)"
  | (taken) fs where "0 < seq" and "snaps seq = None" and "sourceFiles d = Inr fs"
      and "Snapshot f d seq meta snaps = (None, snaps(seq \<mapsto>
        \<lparr>sn_config = (if fs = [] then None else Some (copied fs)), sn_meta = meta\<rparr>))"
  by (cases "seq \<le> 0"; cases "sourceFiles d"; cases "sn_prepare f"; cases "snaps seq"; cases "sn_write f")
     (auto simp: Snapshot_def)

text \<open>A forced rollback to a snapshot of protocol files.\<close>

lemma rollback_installs:
  assumes cfg: "snapshot_config snaps seq = Some (copied fs)" and seq: "0 < seq" and fs: "protocol_set fs"
    and hash: "DraftHash (sha256 L) d = Inr v" and ok: "faultless f" "loadDir L fs = []"
  shows "\<exists>d'. RollbackSource L None f seq True snaps d = (None, d') \<and>
     LoadDraft L d' = (Inr (protocol_info L fs), d')"
proof -
  obtain h d' where R: "ReplaceDraft L None f ModeAbstract (map source_of fs) v d = (Inr h, d')"
      "LoadDraft L d' = (Inr (protocol_info L fs), d')"
    using replacement_installs [OF fs hash ok] by blast
  have "map fst fs \<noteq> [''native.yaml'']"
    using fs entry_not_native by (auto simp: protocol_set_def)
  then show ?thesis
    using R seq cfg hash by (simp add: RollbackSource_def walk_copied [OF fs] Let_def)
qed

text \<open>
  C19: a version can be gone back to.  Take a snapshot of a non-empty protocol draft, and let the
  draft become anything that can still be read.  With a filesystem that works and a loader that
  accepts the old files, a forced rollback succeeds, and the draft it leaves loads to exactly the
  mode, hash and files the snapshot was taken of.
\<close>

theorem snapshot_rollback_round_trip:
  assumes wf: "dir_wf d" and load: "LoadDraft L d = (Inr dr, d)" "dr_mode dr = ModeAbstract" "dr_errors dr = []"
    and ne: "dr_files dr \<noteq> []" and seq: "0 < seq" "snaps seq = None"
    and taken: "Snapshot \<lparr>sn_prepare = None, sn_write = None\<rparr> d seq meta snaps = (res, snaps')"
    and now: "sourceFiles later = Inr fs" and ok: "faultless f"
  shows "res = None \<and> (\<exists>d'. RollbackSource L None f seq True snaps' later = (None, d') \<and>
     LoadDraft L d' = (Inr dr, d'))"
proof -
  note P = protocol_files [OF wf load(1,2)]
  have set: "protocol_set (dr_files dr)" using P(1,2,3) by (simp add: protocol_set_def)
  have "\<lparr>dr_mode = ModeAbstract, dr_hash = hashFiles (sha256 L) (dr_files dr), dr_files = dr_files dr,
      dr_errors = loadDir L (dr_files dr)\<rparr> = dr"
    using load(1) P(5,6) by (auto simp: LoadDraft_def Let_def split: if_splits)
  then have loads: "loadDir L (dr_files dr) = []"
    using load(3) by (metis draft_info.select_convs(4))
  have S: "(res, snaps') = (None, snaps(seq \<mapsto> \<lparr>sn_config = Some (copied (dr_files dr)), sn_meta = meta\<rparr>))"
    using taken snapshot_taken [of seq d _ snaps meta] seq P(5) ne by (simp split: if_splits)
  have "DraftHash (sha256 L) later = Inr (hashFiles (sha256 L) fs)" using now by (simp add: DraftHash_def)
  moreover have "protocol_info L (dr_files dr) = dr"
    using load P(4) by (cases dr) (simp add: protocol_info_def)
  moreover have "snapshot_config snaps' seq = Some (copied (dr_files dr))"
    using S by (simp add: snapshot_config_def)
  ultimately show ?thesis
    using rollback_installs [OF _ seq(1) set _ ok loads] S by fastforce
qed

lemma demo_dir_load: "LoadDraft demo_loaders demo_dir = (Inr (protocol_info demo_loaders demo_seen), demo_dir)"
proof -
  have "sourceFiles demo_dir = Inr demo_seen" by code_simp
  moreover have "demo_dir ''config.d'' \<noteq> None" "demo_dir ''native.yaml'' = None"
    by (simp_all add: demo_dir_def)
  ultimately show ?thesis
    by (auto simp: LoadDraft_def Let_def protocol_info_def demo_loaders_def)
qed

definition demo_meta :: snapshot_meta where
  "demo_meta = \<lparr>sm_seq = 1, sm_createdAt = 10, sm_author = ''admin'', sm_message = ''first'', sm_mode = ''xds'',
     sm_irVersion = ''ir'', sm_state = ''publishing'', sm_parentSeq = 0, sm_rollbackOf = 0, sm_stats = []\<rparr>"

theorem snapshot_rollback_round_trip_witness:
  "\<exists>d'. RollbackSource demo_loaders None no_faults 1 True
     (snd (Snapshot \<lparr>sn_prepare = None, sn_write = None\<rparr> demo_dir 1 demo_meta Map.empty)) Map.empty = (None, d') \<and>
     LoadDraft demo_loaders d' = (Inr (protocol_info demo_loaders demo_seen), d')"
proof -
  have "dir_wf demo_dir" by code_simp
  moreover have "sourceFiles Map.empty = Inr []" by (simp add: sourceFiles_def)
  moreover have "dr_mode (protocol_info demo_loaders demo_seen) = ModeAbstract"
    "dr_errors (protocol_info demo_loaders demo_seen) = []" "dr_files (protocol_info demo_loaders demo_seen) \<noteq> []"
    by (simp_all add: protocol_info_def demo_seen_def)
  ultimately show ?thesis
    using snapshot_rollback_round_trip [OF _ demo_dir_load _ _ _ zero_less_one, of Map.empty demo_meta]
      no_faults_faultless by (metis prod.collapse)
qed

section \<open>A difference can be applied\<close>

text \<open>Reading a patch: its lines after the two of the head, and of those the ones the new side has.\<close>

definition patch_body :: "string \<Rightarrow> string list" where
  "patch_body p = drop 2 (butlast (split_on (CHR 0x0A) p))"

definition patch_new :: "string \<Rightarrow> string" where
  "patch_new p = join_with [CHR 0x0A] (map (drop 2) (filter (\<lambda>l. take 2 l \<noteq> ''- '') (patch_body p)))"

definition apply_file :: "(string \<times> string) list \<Rightarrow> file_diff \<Rightarrow> (string \<times> string) option" where
  "apply_file left fd =
     (if fd_status fd = ''removed'' then None
      else if fd_status fd = ''unchanged'' then map_option (Pair (fd_path fd)) (map_of left (fd_path fd))
      else Some (fd_path fd, patch_new (fd_patch fd)))"

definition apply_diff :: "(string \<times> string) list \<Rightarrow> snapshot_diff \<Rightarrow> (string \<times> string) list" where
  "apply_diff left sd = List.map_filter (apply_file left) (sd_files sd)"

lemma patch_lines_new: "map (drop 2) (filter (\<lambda>l. take 2 l \<noteq> ''- '') (patch_lines as bs)) = bs"
  by (induction as bs rule: patch_lines.induct) auto

lemma split_terminated:
  "\<forall>l \<in> set ls. c \<notin> set l \<Longrightarrow> split_on c (concat (map (\<lambda>l. l @ [c]) ls)) = ls @ [[]]"
proof (induction ls)
  case (Cons l ls)
  have "split_on c (x @ c # s) = x # split_on c s" if "c \<notin> set x" for x s
    using that by (induction x) auto
  with Cons show ?case by simp
qed simp

lemma patch_lines_clean:
  "\<forall>l \<in> set as \<union> set bs. CHR 0x0A \<notin> set l \<Longrightarrow> \<forall>l \<in> set (patch_lines as bs). CHR 0x0A \<notin> set l"
  by (induction as bs rule: patch_lines.induct) auto

lemma splitLines_clean: "l \<in> set (splitLines t) \<Longrightarrow> CHR 0x0A \<notin> set l"
  using split_on_no_sep [of l "CHR 0x0A" t] by (simp add: splitLines_def split: if_splits)

lemma join_splitLines: "join_with [CHR 0x0A] (splitLines t) = t"
  by (simp add: splitLines_def join_split_on)

lemma patch_new_unified:
  assumes "\<forall>l \<in> set as. CHR 0x0A \<notin> set l"
  shows "patch_new (unifiedPatch as (splitLines t)) = t"
proof -
  let ?ls = "[''--- from'', ''+++ to''] @ patch_lines as (splitLines t)"
  have "\<forall>l \<in> set as \<union> set (splitLines t). CHR 0x0A \<notin> set l"
    using assms splitLines_clean by blast
  then have "\<forall>l \<in> set ?ls. CHR 0x0A \<notin> set l"
    using patch_lines_clean [of as "splitLines t"] by auto
  then have "patch_body (unifiedPatch as (splitLines t)) = patch_lines as (splitLines t)"
    using split_terminated [of ?ls "CHR 0x0A"] by (simp add: patch_body_def unifiedPatch_def)
  then show ?thesis by (simp add: patch_new_def patch_lines_new join_splitLines)
qed

lemma apply_file_diff:
  assumes "n \<in> set (map fst left) \<union> set (map fst right)"
  shows "apply_file left (file_diff_of left right n) = map_option (Pair n) (map_of right n)"
proof -
  have "map_of left n \<noteq> None \<or> map_of right n \<noteq> None"
    using assms by (auto simp: map_of_eq_None_iff)
  then show ?thesis
    by (auto simp: file_diff_of_def apply_file_def patch_new_unified splitLines_clean split: option.splits)
qed

lemma keyed_entries:
  fixes right :: "('a :: linorder \<times> 'b) list"
  assumes "sorted (map fst right)" and "distinct (map fst right)" and "set (map fst right) \<subseteq> set ns"
    and "sorted ns" and "distinct ns"
  shows "List.map_filter (\<lambda>n. map_option (Pair n) (map_of right n)) ns = right"
proof -
  let ?l = "List.map_filter (\<lambda>n. map_option (Pair n) (map_of right n)) ns"
  have l: "?l = map (\<lambda>n. (n, the (map_of right n))) (filter (\<lambda>n. map_of right n \<noteq> None) ns)"
    by (induction ns) (auto simp: List.map_filter_def)
  have fst: "map fst ?l = filter (\<lambda>n. map_of right n \<noteq> None) ns"
    by (simp add: l comp_def)
  have "set ?l = set right"
    using assms(2,3) by (force simp: l map_of_eq_None_iff image_iff)
  moreover have "sorted (map fst ?l)" "distinct (map fst ?l)"
    unfolding fst using assms(4,5) by (simp_all add: sorted_wrt_filter)
  ultimately show ?thesis
    using assms(1,2) by (intro map_sorted_distinct_set_unique [of fst]) (auto simp: distinct_map)
qed

lemma apply_diff_maps:
  assumes "sorted (map fst right)" and "distinct (map fst right)"
  shows "apply_diff left (diffFileMaps from to left right) = right"
proof -
  let ?ns = "sort (remdups (map fst left @ map fst right))"
  have "apply_diff left (diffFileMaps from to left right) =
      List.map_filter (\<lambda>n. apply_file left (file_diff_of left right n)) ?ns"
    by (simp add: apply_diff_def diffFileMaps_def List.map_filter_def filter_map comp_def)
  also have "\<dots> = List.map_filter (\<lambda>n. map_option (Pair n) (map_of right n)) ?ns"
    unfolding List.map_filter_def
    by (intro map_cong filter_cong refl arg_cong [where f = the]) (auto simp: apply_file_diff)
  also have "\<dots> = right"
    using assms by (intro keyed_entries) auto
  finally show ?thesis .
qed

lemma map_fst_normalized [simp]: "map fst (normalized fs) = map fst fs"
  by (induction fs) (auto simp: normalized_def)

text \<open>
  C22: the difference of two versions is complete.  Reading the patches that \<open>DiffSnapshots\<close> prints
  and applying them to the normalised files of the first version gives the normalised files of the
  second one, every file and every line of them, also for files that were added, removed or empty.
\<close>

theorem diff_reconstructs_target:
  assumes diff: "DiffSnapshots snaps from to = Inr sd" and left: "snapshotFiles snaps from = Inr left"
    and target: "snapshot_config snaps to = Some (copied fs)" "protocol_set fs"
  shows "apply_diff left sd = normalized fs"
proof -
  have "snapshotFiles snaps to = Inr (normalized fs)"
    using target by (simp add: snapshotFiles_def walk_copied)
  then have "sd = diffFileMaps from to left (normalized fs)"
    using diff left by (simp add: DiffSnapshots_def split: if_splits)
  then show ?thesis
    using target(2) by (simp add: apply_diff_maps protocol_set_def)
qed

definition demo_snaps :: snapshots where
  "demo_snaps =
     [1 \<mapsto> \<lparr>sn_config = Some (copied [(''config.d/a.yaml'', ''a: 1''), (''config.d/b.yaml'', ''b: 1'')]), sn_meta = demo_meta\<rparr>,
      2 \<mapsto> \<lparr>sn_config = Some (copied [(''config.d/a.yaml'', ''a: 2''), (''config.d/c.yaml'', [])]), sn_meta = demo_meta\<rparr>]"

theorem diff_reconstructs_target_witness:
  "\<exists>left sd. snapshotFiles demo_snaps 1 = Inr left \<and> DiffSnapshots demo_snaps 1 2 = Inr sd \<and>
     apply_diff left sd = [(''config.d/a.yaml'', ''a: 2''), (''config.d/c.yaml'', [])]"
proof -
  let ?fs = "[(''config.d/a.yaml'', ''a: 2''), (''config.d/c.yaml'', [])]"
  have "protocol_set ?fs"
  proof -
    have "entry_path ''config.d/a.yaml''" "entry_path ''config.d/c.yaml''"
      unfolding entry_path_def
      by (intro exI [of _ "''a.yaml''"] exI [of _ "''c.yaml''"], code_simp)+
    moreover have "sorted (map fst ?fs)" "distinct (map fst ?fs)" by code_simp+
    ultimately show ?thesis by (simp add: protocol_set_def)
  qed
  moreover have "snapshot_config demo_snaps 2 = Some (copied ?fs)"
    by (simp add: snapshot_config_def demo_snaps_def)
  moreover obtain left where left: "snapshotFiles demo_snaps 1 = Inr left"
    by (simp add: snapshotFiles_def snapshot_config_def demo_snaps_def)
  moreover obtain sd where sd: "DiffSnapshots demo_snaps 1 2 = Inr sd"
    by (simp add: DiffSnapshots_def snapshotFiles_def snapshot_config_def demo_snaps_def)
  moreover have "normalized ?fs = ?fs" by code_simp
  ultimately show ?thesis using diff_reconstructs_target [OF sd left, of ?fs] by simp
qed

section \<open>Snapshots of an empty draft\<close>

text \<open>
  The snapshot of a draft without files has no source.  \<open>Snapshot\<close> makes the directory
  \<open>config\<close> only when it copies a file into it, and the readers of a snapshot need the directory: the
  version exists, but neither a rollback to it nor a difference from or to it is possible.
\<close>

theorem empty_snapshot_has_no_source:
  assumes taken: "Snapshot f d seq meta snaps = (None, snaps')" and "sourceFiles d = Inr []" and "0 < other"
  shows "snaps' seq \<noteq> None \<and>
     RollbackSource L sf cf seq force snaps' now = (Some (ErrNotFound ''rollback source: no such file or directory''), now) \<and>
     (\<exists>e. DiffSnapshots snaps' seq other = Inl e) \<and> (\<exists>e. DiffSnapshots snaps' other seq = Inl e)"
proof (cases rule: Snapshot_cases [of f d seq meta snaps])
  case (taken fs)
  with assms have "snaps' seq = Some \<lparr>sn_config = None, sn_meta = meta\<rparr>" "0 < seq" by auto
  then show ?thesis
    using assms(3) by (simp add: RollbackSource_def DiffSnapshots_def snapshotFiles_def snapshot_config_def
        bind_result_def split: sum.splits)
qed (use assms in simp)

theorem empty_snapshot_has_no_source_witness:
  "RollbackSource demo_loaders None no_faults 1 True
     (snd (Snapshot \<lparr>sn_prepare = None, sn_write = None\<rparr> Map.empty 1 demo_meta Map.empty)) demo_dir =
     (Some (ErrNotFound ''rollback source: no such file or directory''), demo_dir)"
proof -
  have "sourceFiles Map.empty = Inr []" by (simp add: sourceFiles_def)
  then show ?thesis
    using empty_snapshot_has_no_source [of "\<lparr>sn_prepare = None, sn_write = None\<rparr>" Map.empty 1 demo_meta Map.empty _ 1]
      snapshot_taken [of 1 Map.empty "[]" Map.empty demo_meta] by simp
qed

end
