(* ===== verification/StateConfirm.thy ===== *)
theory StateConfirm
  imports Limiter GoPath JsValue "HOL-Library.Char_ord" "HOL-Library.List_Lexorder"
begin

text \<open>
  Version confirmation by the collector of Envoy's state (\<open>internal/state/state.go\<close>): which version
  a configuration dump shows, what one poll does to the expectation, the loop that polls until the
  expectation is settled, and the events it leaves for the publisher.

  Envoy's admin interface is a parameter: a poll sees \<open>None\<close> when a request of it fails, and else
  the body of the dump, which is \<open>None\<close> again when it is not a JSON object.  The channel of events is
  the list of those not yet received.
\<close>

section \<open>The version of a configuration dump\<close>

text \<open>
  \<open>walk\<close> of \<open>configDumpVersions\<close>.  A type is the last \<open>@type\<close> on the way down, followed by the keys
  passed since.
\<close>

definition type_name :: "string \<Rightarrow> (string \<times> jsval) list \<Rightarrow> string" where
  "type_name ctxt ps = (case map_of ps ''@type'' of Some (JStr raw) \<Rightarrow> raw | _ \<Rightarrow> ctxt)"

definition version_entry :: "string \<Rightarrow> string \<Rightarrow> jsval \<Rightarrow> (string \<times> string) list" where
  "version_entry typ k v = (case v of JStr ver \<Rightarrow> if k = ''version_info'' then [(typ, ver)] else [] | _ \<Rightarrow> [])"

function (sequential) dump_walk :: "string \<Rightarrow> jsval \<Rightarrow> (string \<times> string) list"
  and dump_items :: "string \<Rightarrow> jsval list \<Rightarrow> (string \<times> string) list"
  and dump_members :: "string \<Rightarrow> (string \<times> jsval) list \<Rightarrow> (string \<times> string) list" where
  "dump_walk ctxt (JObj ps) = dump_members (type_name ctxt ps) ps"
| "dump_walk ctxt (JArr xs) = dump_items ctxt xs"
| "dump_walk ctxt v = []"
| "dump_items ctxt [] = []"
| "dump_items ctxt (x # xs) = dump_walk ctxt x @ dump_items ctxt xs"
| "dump_members typ [] = []"
| "dump_members typ ((k, v) # ps) =
     version_entry typ k v @ dump_walk (typ @ ''/'' @ k) v @ dump_members typ ps"
  by pat_completeness auto
termination
  by (relation "measure (case_sum (\<lambda>(i, v). size v)
       (case_sum (\<lambda>(i, xs). size_list size xs) (\<lambda>(i, ps). size_list (size_prod (\<lambda>_. 0) size) ps)))")
     auto

definition endpoint_type :: "string \<Rightarrow> bool" where
  "endpoint_type t \<longleftrightarrow> str_includes (to_lower t) ''endpoint'' \<or> str_includes (to_lower t) ''eds''"

definition dump_resources :: "jsval option \<Rightarrow> (string \<times> string) list" where
  "dump_resources body =
     (case body of Some (JObj ps) \<Rightarrow> filter (\<lambda>(t, v). \<not> endpoint_type t) (dump_walk [] (JObj ps)) | _ \<Rightarrow> [])"

text \<open>One version is itself, several are joined in order, which covers both returns of the code.\<close>

definition configDumpVersions :: "jsval option \<Rightarrow> string \<times> (string \<times> string) list" where
  "configDumpVersions body =
     (let rs = dump_resources body in
      (join_with '','' (sort (remdups (filter (\<lambda>v. v \<noteq> []) (map snd rs)))), rs))"

section \<open>Expectations\<close>

record version_status =
  vst_expected :: string
  vst_observed :: string
  vst_status :: string
  vst_at :: time
  vst_elapsed :: time
  vst_details :: "(string \<times> string) list"

record confirm_event =
  ev_expected :: string
  ev_observed :: string
  ev_status :: string

record state_service =
  ss_expected :: string
  ss_expectAt :: time
  ss_timeout :: time
  ss_version :: version_status
  ss_events :: "confirm_event list"

definition no_version :: version_status where
  "no_version = \<lparr>vst_expected = [], vst_observed = [], vst_status = [], vst_at = 0, vst_elapsed = 0, vst_details = []\<rparr>"

definition new_state_service :: state_service where
  "new_state_service = \<lparr>ss_expected = [], ss_expectAt = 0, ss_timeout = 30 * second, ss_version = no_version, ss_events = []\<rparr>"

definition ExpectVersion :: "string \<Rightarrow> time \<Rightarrow> time \<Rightarrow> state_service \<Rightarrow> state_service" where
  "ExpectVersion version timeout now s =
     s\<lparr>ss_expected := version, ss_expectAt := now,
       ss_timeout := (if 0 < timeout then timeout else ss_timeout s),
       ss_version := no_version\<lparr>vst_expected := version, vst_status := ''IDLE''\<rparr>\<rparr>"

text \<open>The publisher's channel holds eight events; one more is dropped.\<close>

definition post_event :: "confirm_event \<Rightarrow> confirm_event list \<Rightarrow> confirm_event list" where
  "post_event e es = (if length es < 8 then es @ [e] else es)"

definition confirm_status :: "string \<Rightarrow> time \<Rightarrow> state_service \<Rightarrow> string" where
  "confirm_status observed now s =
     (if observed = ss_expected s then ''CONFIRMED''
      else if ss_expectAt s \<noteq> 0 \<and> ss_timeout s \<le> now - ss_expectAt s then ''TIMEOUT'' else ''IDLE'')"

text \<open>What \<open>refreshLocked\<close> does about the version; a failing request returns before it.\<close>

definition refresh_version :: "jsval option option \<Rightarrow> time \<Rightarrow> state_service \<Rightarrow> state_service" where
  "refresh_version obs now s =
     (case obs of None \<Rightarrow> s
      | Some body \<Rightarrow>
          if ss_expected s = [] then s
          else
            let (observed, resources) = configDumpVersions body; st = confirm_status observed now s;
                s1 = s\<lparr>ss_version := \<lparr>vst_expected = ss_expected s, vst_observed = observed, vst_status = st,
                         vst_at = now, vst_elapsed = now - ss_expectAt s, vst_details = resources\<rparr>\<rparr>
            in if st = ''CONFIRMED'' \<or> st = ''TIMEOUT''
               then s1\<lparr>ss_events := post_event \<lparr>ev_expected = ss_expected s, ev_observed = observed, ev_status = st\<rparr> (ss_events s),
                       ss_expected := []\<rparr>
               else s1)"

section \<open>The confirmation loop\<close>

definition next_delay :: "time \<Rightarrow> time" where
  "next_delay delay = (if delay < 5 * second then 2 * delay else delay)"

definition settled :: "state_service \<Rightarrow> bool" where
  "settled s \<longleftrightarrow> vst_status (ss_version s) \<in> {''CONFIRMED'', ''TIMEOUT''}"

text \<open>
  \<open>confirmLoop\<close>, with the polls it may make as fuel.  \<open>admin t\<close> is what a poll at time \<open>t\<close> sees; the
  requests take no time.
\<close>

fun confirmLoop :: "(time \<Rightarrow> jsval option option) \<Rightarrow> nat \<Rightarrow> time \<Rightarrow> time \<Rightarrow> state_service \<Rightarrow> state_service option" where
  "confirmLoop admin 0 delay now s = None"
| "confirmLoop admin (Suc n) delay now s =
     (let s' = refresh_version (admin now) now s in
      if admin now \<noteq> None \<and> settled s' then Some s'
      else confirmLoop admin n (next_delay delay) (now + delay) s')"

definition initial_delay :: time where
  "initial_delay = 500 * 10 ^ 6"

section \<open>What a confirmation means\<close>

lemma join_with_single: "join_with sep [x] = x"
  by simp

lemma join_comma_distinct:
  assumes "CHR '','' \<notin> set v" and "v \<noteq> []" and "join_with '','' xs = v" and "\<forall>x \<in> set xs. x \<noteq> []"
  shows "xs = [v]"
  using assms
proof (cases xs rule: remdups_adj.cases)
  case (3 x y zs)
  with assms show ?thesis by auto
qed auto

text \<open>
  A version counts as observed only when the dump agrees on it.  For an expected version that
  is not empty and has no comma in it, \<open>configDumpVersions\<close> reports exactly it if and only if some
  resource outside endpoint discovery carries it and no such resource carries another version.
\<close>

theorem observed_iff_unanimous:
  assumes "v \<noteq> []" and "CHR '','' \<notin> set v"
  shows "fst (configDumpVersions body) = v \<longleftrightarrow>
    v \<in> snd ` set (dump_resources body) \<and> (\<forall>w \<in> snd ` set (dump_resources body). w = [] \<or> w = v)"
proof -
  let ?vs = "sort (remdups (filter (\<lambda>v. v \<noteq> []) (map snd (dump_resources body))))"
  have "fst (configDumpVersions body) = join_with '','' ?vs" by (simp add: configDumpVersions_def Let_def)
  moreover have "\<forall>x \<in> set ?vs. x \<noteq> []" by simp
  ultimately have "fst (configDumpVersions body) = v \<longleftrightarrow> ?vs = [v]"
    using join_comma_distinct [OF assms(2,1), of ?vs] join_with_single [of "'',''" v] by metis
  also have "?vs = [v] \<longleftrightarrow> set ?vs = {v}"
  proof
    assume "set ?vs = {v}"
    moreover have "sorted ?vs" "distinct ?vs" by simp_all
    ultimately show "?vs = [v]"
      using sorted_distinct_set_unique [of ?vs "[v]"] by simp
  qed (simp only: list.set)
  also have "\<dots> \<longleftrightarrow> v \<in> snd ` set (dump_resources body) \<and> (\<forall>w \<in> snd ` set (dump_resources body). w = [] \<or> w = v)"
  proof -
    have "set ?vs = {w \<in> snd ` set (dump_resources body). w \<noteq> []}" by auto
    then show ?thesis using assms(1) by (auto simp: set_eq_iff)
  qed
  finally show ?thesis .
qed

definition demo_dump :: "string \<Rightarrow> string \<Rightarrow> jsval" where
  "demo_dump l c = JObj [(''configs'', JArr
     [JObj [(''@type'', JStr ''type.googleapis.com/envoy.admin.v3.ListenersConfigDump''), (''version_info'', JStr l)],
      JObj [(''@type'', JStr ''type.googleapis.com/envoy.admin.v3.ClustersConfigDump''), (''version_info'', JStr c)],
      JObj [(''@type'', JStr ''type.googleapis.com/envoy.admin.v3.EndpointsConfigDump''), (''version_info'', JStr ''old'')]])]"

theorem observed_iff_unanimous_witness:
  "fst (configDumpVersions (Some (demo_dump ''v2'' ''v2''))) = ''v2'' \<and>
   fst (configDumpVersions (Some (demo_dump ''v2'' ''v1''))) \<noteq> ''v2''"
proof -
  have "dump_resources (Some (demo_dump ''v2'' ''v2'')) =
      [(''type.googleapis.com/envoy.admin.v3.ListenersConfigDump'', ''v2''),
       (''type.googleapis.com/envoy.admin.v3.ClustersConfigDump'', ''v2'')]"
    "dump_resources (Some (demo_dump ''v2'' ''v1'')) =
      [(''type.googleapis.com/envoy.admin.v3.ListenersConfigDump'', ''v2''),
       (''type.googleapis.com/envoy.admin.v3.ClustersConfigDump'', ''v1'')]"
    by code_simp+
  then show ?thesis
    using observed_iff_unanimous [of "''v2''" "Some (demo_dump ''v2'' ''v2'')"]
      observed_iff_unanimous [of "''v2''" "Some (demo_dump ''v2'' ''v1'')"] by simp
qed

section \<open>One poll\<close>

lemma refresh_idle: "ss_expected s = [] \<Longrightarrow> refresh_version obs now s = s"
  by (simp add: refresh_version_def split: option.splits)

lemma refresh_unreachable [simp]: "refresh_version None now s = s"
  by (simp add: refresh_version_def)

text \<open>A poll either leaves the expectation as it is, or settles it with one event.\<close>

lemma refresh_cases:
  obtains (waits) "ss_expected (refresh_version obs now s) = ss_expected s"
      and "ss_events (refresh_version obs now s) = ss_events s"
      and "ss_expectAt (refresh_version obs now s) = ss_expectAt s"
      and "ss_timeout (refresh_version obs now s) = ss_timeout s"
  | (settles) e where "ss_expected s \<noteq> []" and "ss_expected (refresh_version obs now s) = []"
      and "ev_expected e = ss_expected s" and "ev_status e \<in> {''CONFIRMED'', ''TIMEOUT''}"
      and "ev_status e = ''CONFIRMED'' \<longrightarrow> ev_observed e = ss_expected s"
      and "ss_events (refresh_version obs now s) = post_event e (ss_events s)"
      and "settled (refresh_version obs now s)"
proof (cases "ss_expected (refresh_version obs now s) = ss_expected s \<and>
    ss_events (refresh_version obs now s) = ss_events s")
  case True
  then show thesis
    by (intro waits) (auto simp: refresh_version_def Let_def split: option.splits prod.splits)
next
  case False
  then obtain body where b: "obs = Some body" "ss_expected s \<noteq> []"
    by (cases obs) (auto simp: refresh_version_def split: if_splits)
  define observed where "observed = fst (configDumpVersions body)"
  define st where "st = confirm_status observed now s"
  have "st = ''CONFIRMED'' \<or> st = ''TIMEOUT''"
    using False b by (auto simp: refresh_version_def Let_def st_def observed_def split: prod.splits if_splits)
  then show thesis
    using b by (intro settles [of "\<lparr>ev_expected = ss_expected s, ev_observed = observed, ev_status = st\<rparr>"])
      (auto simp: refresh_version_def Let_def st_def observed_def confirm_status_def settled_def split: prod.splits if_splits)
qed

lemma refresh_due:
  assumes "obs \<noteq> None" and "ss_expected s \<noteq> []" and "ss_expectAt s \<noteq> 0" and "ss_expectAt s + ss_timeout s \<le> now"
  shows "ss_expected (refresh_version obs now s) = [] \<and> settled (refresh_version obs now s)"
  using assms by (auto simp: refresh_version_def Let_def confirm_status_def settled_def split: prod.splits)

section \<open>The loop ends\<close>

lemma next_delay_ge: "initial_delay \<le> delay \<Longrightarrow> initial_delay \<le> next_delay delay"
  by (simp add: next_delay_def initial_delay_def second_def)

lemma next_delay_le: "delay \<le> 10 * second \<Longrightarrow> next_delay delay \<le> 10 * second"
  by (simp add: next_delay_def second_def)

lemma refresh_expected_cases:
  "ss_expected s \<noteq> [] \<Longrightarrow> (ss_expected (refresh_version obs now s) = ss_expected s \<and> ss_events (refresh_version obs now s) = ss_events s \<and>
      ss_expectAt (refresh_version obs now s) = ss_expectAt s \<and> ss_timeout (refresh_version obs now s) = ss_timeout s) \<or>
    (obs \<noteq> None \<and> ss_expected (refresh_version obs now s) = [] \<and> settled (refresh_version obs now s) \<and>
      (\<exists>e. ev_expected e = ss_expected s \<and> (ev_status e = ''CONFIRMED'' \<longrightarrow> ev_observed e = ss_expected s) \<and>
         ss_events (refresh_version obs now s) = post_event e (ss_events s)))"
  by (cases obs; cases rule: refresh_cases [of obs now s]) auto

lemma settled_cleared:
  assumes "obs \<noteq> None" and "ss_expected s \<noteq> []" and "settled (refresh_version obs now s)"
  shows "ss_expected (refresh_version obs now s) = []"
  using assms by (auto simp: refresh_version_def Let_def settled_def confirm_status_def split: prod.splits if_splits)

lemma confirmLoop_continues:
  "\<not> (admin now \<noteq> None \<and> settled (refresh_version (admin now) now s)) \<Longrightarrow>
   confirmLoop admin (Suc n) delay now s =
     confirmLoop admin n (next_delay delay) (now + delay) (refresh_version (admin now) now s)"
  unfolding confirmLoop.simps(2) Let_def by (rule if_not_P)

lemma confirmLoop_ends:
  assumes "initial_delay \<le> delay" and "ss_expected s \<noteq> []" and "ss_expectAt s \<noteq> 0"
    and "\<forall>t \<ge> up. admin t \<noteq> None" and "max up (ss_expectAt s + ss_timeout s) - now \<le> initial_delay * int n"
  shows "\<exists>s' e. confirmLoop admin (Suc n) delay now s = Some s' \<and> ss_expected s' = [] \<and>
     ev_expected e = ss_expected s \<and> (ev_status e = ''CONFIRMED'' \<longrightarrow> ev_observed e = ss_expected s) \<and>
     ss_events s' = post_event e (ss_events s)"
  using assms
proof (induction n arbitrary: delay now s)
  case 0
  then have due: "admin now \<noteq> None" "ss_expectAt s + ss_timeout s \<le> now" by auto
  with 0 refresh_due [of "admin now" s now] refresh_expected_cases [of s "admin now" now]
  show ?case by (auto simp: Let_def)
next
  case (Suc n)
  let ?s = "refresh_version (admin now) now s"
  show ?case
  proof (cases "admin now \<noteq> None \<and> settled ?s")
    case True
    then have "ss_expected ?s = []" using settled_cleared Suc.prems(2) by blast
    with True Suc.prems(2) refresh_expected_cases [of s "admin now" now] show ?thesis by (auto simp: Let_def)
  next
    case False
    then have same: "ss_expected ?s = ss_expected s" "ss_events ?s = ss_events s" "ss_expectAt ?s = ss_expectAt s"
      "ss_timeout ?s = ss_timeout s"
      using refresh_expected_cases [OF Suc.prems(2), of "admin now" now] by auto
    have "initial_delay * int (Suc n) \<le> initial_delay * int n + delay"
      using Suc.prems(1) by (simp add: algebra_simps)
    then have "max up (ss_expectAt ?s + ss_timeout ?s) - (now + delay) \<le> initial_delay * int n"
      using Suc.prems(5) by (simp add: same)
    with Suc.IH [of "next_delay delay" ?s "now + delay"] Suc.prems
    show ?thesis unfolding confirmLoop_continues [of admin now s "Suc n", OF False] by (simp add: same next_delay_ge)
  qed
qed

text \<open>Enough polls to reach the later of the two times in steps of the initial delay.\<close>

definition polls_until :: "time \<Rightarrow> time \<Rightarrow> nat" where
  "polls_until now later = nat ((later - now) div initial_delay) + 2"

lemma polls_until_enough: "later - now \<le> initial_delay * int (nat ((later - now) div initial_delay) + 1)"
proof -
  have p: "0 < initial_delay" by (simp add: initial_delay_def)
  have "later - now = initial_delay * ((later - now) div initial_delay) + (later - now) mod initial_delay" by simp
  also have "\<dots> \<le> initial_delay * ((later - now) div initial_delay + 1)"
    using pos_mod_bound [OF p, of "later - now"] by (simp only: distrib_left)
  also have "\<dots> \<le> initial_delay * int (nat ((later - now) div initial_delay) + 1)"
    using p by (intro mult_left_mono) auto
  finally show ?thesis .
qed

lemma confirmation_settles:
  assumes "version \<noteq> []" and "now \<noteq> 0" and "0 < timeout" and "\<forall>t \<ge> up. admin t \<noteq> None"
  shows "\<exists>s' e. confirmLoop admin (polls_until now (max up (now + timeout))) initial_delay now
       (ExpectVersion version timeout now s) = Some s' \<and>
     ss_expected s' = [] \<and> ev_expected e = version \<and> (ev_status e = ''CONFIRMED'' \<longrightarrow> ev_observed e = version) \<and>
     ss_events s' = post_event e (ss_events s)"
  using confirmLoop_ends [of initial_delay "ExpectVersion version timeout now s" up admin now
      "nat ((max up (now + timeout) - now) div initial_delay) + 1"]
    polls_until_enough [of "max up (now + timeout)" now] assms
  by (simp add: polls_until_def ExpectVersion_def)

lemma confirmLoop_fuel: "confirmLoop admin n delay now s = Some s' \<Longrightarrow> n \<le> m \<Longrightarrow> confirmLoop admin m delay now s = Some s'"
proof (induction n arbitrary: m delay now s)
  case (Suc n)
  then obtain k where "m = Suc k" "n \<le> k" by (cases m) auto
  with Suc show ?case by (auto simp: Let_def split: if_splits)
qed simp

lemma confirmLoop_settled: "confirmLoop admin n delay now s = Some s' \<Longrightarrow> settled s'"
  by (induction n arbitrary: delay now s) (auto simp: Let_def split: if_splits)

text \<open>
  Waiting for a version comes to an end.  Let a version be expected with some timeout, and let
  the admin interface answer from some time \<open>up\<close> on, whatever it answers.  Then the confirmation
  loop returns after at most as many polls as half seconds lie between its start and the later of
  \<open>up\<close> and the deadline, plus two, with one and the same state however many polls more it were
  given; the status is then confirmed or timed out, and no version is expected any more.
\<close>

theorem confirmation_ends:
  assumes "version \<noteq> []" and "now \<noteq> 0" and "0 < timeout" and "\<forall>t \<ge> up. admin t \<noteq> None"
  shows "\<exists>s'. (\<forall>n \<ge> polls_until now (max up (now + timeout)).
       confirmLoop admin n initial_delay now (ExpectVersion version timeout now s) = Some s') \<and>
     ss_expected s' = [] \<and> vst_status (ss_version s') \<in> {''CONFIRMED'', ''TIMEOUT''}"
proof -
  obtain s' where "confirmLoop admin (polls_until now (max up (now + timeout))) initial_delay now
      (ExpectVersion version timeout now s) = Some s'" "ss_expected s' = []"
    using confirmation_settles [OF assms, of s] by blast
  with confirmLoop_fuel [OF this(1)] confirmLoop_settled [OF this(1)] show ?thesis
    unfolding settled_def by blast
qed

theorem confirmation_ends_witness:
  "\<exists>s'. confirmLoop (\<lambda>t. if t < 5 * second then None else Some None) 100 initial_delay 1
       (ExpectVersion ''v1'' (30 * second) 1 new_state_service) = Some s' \<and> ss_expected s' = []"
proof -
  let ?admin = "\<lambda>t. if t < 5 * second then None else Some None"
  have "max (5 * second) (1 + 30 * second) = 1 + 30 * second" by (simp add: second_def)
  moreover have "polls_until 1 (1 + 30 * second) \<le> 100" by (simp add: polls_until_def initial_delay_def second_def)
  moreover have "\<forall>t \<ge> 5 * second. ?admin t \<noteq> None" by simp
  ultimately show ?thesis
    using confirmation_ends [of "''v1''" 1 "30 * second" "5 * second" ?admin new_state_service] by (auto simp: second_def)
qed

end
