(* ===== verification/Publisher.thy ===== *)
theory Publisher
  imports VersionStore ConfHistory ConfigServer StateConfirm JsonText
begin

text \<open>
  The publisher (\<open>internal/conf/publish.go\<close>, the end of \<open>internal/conf/rollback.go\<close>): the path of a
  publish through draft, compiler, version store, snapshots and delivery, the confirmation of a
  delivered version, and going back to an old one.

  The deliverer is a parameter: it accepts a version or fails with a text.  Every statement of the
  store and every step of the snapshot can fail, as the fault record of a call says.  The clock
  stands still during a call, and the mutex of the publisher makes a call one step.
\<close>

section \<open>Encoding of run details\<close>

text \<open>\<open>json.Marshal\<close>: compact, and with the characters of HTML markup escaped.\<close>

definition go_char :: "char \<Rightarrow> string" where
  "go_char c = (if c \<in> {CHR ''<'', CHR ''>'', CHR ''&''}
     then [backslash, CHR ''u'', CHR ''0'', CHR ''0'', hex_digit (of_char c div 16), hex_digit (of_char c mod 16)]
     else quote_char c)"

definition go_string :: "string \<Rightarrow> string" where
  "go_string s = CHR 0x22 # concat (map go_char s) @ [CHR 0x22]"

function (sequential) go_marshal :: "jsval \<Rightarrow> string"
  and go_elements :: "jsval list \<Rightarrow> string list"
  and go_members :: "(string \<times> jsval) list \<Rightarrow> string list" where
  "go_marshal (JBool b) = (if b then ''true'' else ''false'')"
| "go_marshal (JNum n) = string_of_int n"
| "go_marshal (JStr s) = go_string s"
| "go_marshal (JArr xs) = ''['' @ join_with '','' (go_elements xs) @ '']''"
| "go_marshal (JObj ps) = ''{'' @ join_with '','' (go_members ps) @ ''}''"
| "go_marshal v = ''null''"
| "go_elements [] = []"
| "go_elements (x # xs) = go_marshal x # go_elements xs"
| "go_members [] = []"
| "go_members ((k, v) # ps) = (go_string k @ '':'' @ go_marshal v) # go_members ps"
  by pat_completeness auto
termination
  by (relation "measure (case_sum size (case_sum (size_list size) (size_list (size_prod (\<lambda>_. 0) size))))") auto

definition marshalErrors :: "string list \<Rightarrow> string" where
  "marshalErrors es = go_marshal (JArr (map JStr es))"

definition marshalCompileErrors :: "compile_error list \<Rightarrow> string" where
  "marshalCompileErrors es = go_marshal (JArr (map (\<lambda>e. JObj
     [(''Stage'', JStr (ce_stage e)),
      (''Source'', JObj [(''File'', JStr (ce_file e)), (''Kind'', JStr (ce_kind e)), (''Name'', JStr (ce_name e)),
         (''Path'', JStr (ce_path e))]),
      (''Message'', JStr (ce_message e)), (''Severity'', JStr (severity_text (ce_severity e)))]) es))"

definition file_diff_json :: "file_diff \<Rightarrow> jsval" where
  "file_diff_json fd = JObj ([(''path'', JStr (fd_path fd)), (''status'', JStr (fd_status fd))] @
     (if fd_patch fd = [] then [] else [(''patch'', JStr (fd_patch fd))]))"

text \<open>The slice of files is \<open>nil\<close> when no file was appended to it.\<close>

definition diff_json :: "snapshot_diff \<Rightarrow> jsval" where
  "diff_json sd = JObj [(''from'', JNum (sd_from sd)), (''to'', JNum (sd_to sd)),
     (''files'', if sd_files sd = [] then JNull else JArr (map file_diff_json (sd_files sd)))]"

definition stats_json :: "(string \<times> nat) list \<Rightarrow> jsval" where
  "stats_json st = JObj (map (\<lambda>(k, n). (k, JNum (int n))) (sort_key fst st))"

section \<open>State and parameters\<close>

text \<open>\<open>pw_applied\<close> lists the versions the deliverer has accepted.\<close>

record pub_world =
  pw_dir :: data_dir
  pw_snaps :: snapshots
  pw_db :: version_db
  pw_applied :: "string list"
  pw_state :: state_service

record publish_env =
  pe_loaders :: loaders
  pe_compiler :: compiler
  pe_mode :: string
  pe_stats :: "string \<Rightarrow> (string \<times> nat) list"
  pe_confirmTimeout :: time

record publish_faults =
  pf_create :: "string option"
  pf_validated :: "string option"
  pf_parent :: "string option"
  pf_seq :: "string option"
  pf_publishing :: "string option"
  pf_snapshot :: snapshot_faults
  pf_diff :: "string option"
  pf_record :: "string option"
  pf_apply :: "string option"
  pf_failed :: "string option"
  pf_confirming :: "string option"
  pf_run :: "string option"
  pf_fail :: "string option"

record publish_result =
  rs_seq :: int
  rs_runID :: int
  rs_irVersion :: string
  rs_state :: string

definition no_result :: publish_result where
  "no_result = \<lparr>rs_seq = 0, rs_runID = 0, rs_irVersion = [], rs_state = []\<rparr>"

fun store_text :: "sql_error \<Rightarrow> string" where
  "store_text SqlNoRows = ''sql: no rows in result set''"
| "store_text SqlConstraint = ''constraint failed: UNIQUE constraint failed: index 'one_active_publish' (2067)''"
| "store_text (SqlOther m) = m"

text \<open>A store error with a text before it, as the API will classify it.\<close>

definition wrapped :: "string \<Rightarrow> sql_error \<Rightarrow> conf_error" where
  "wrapped pre e = (case e of SqlNoRows \<Rightarrow> ErrNotFound (pre @ store_text e) | _ \<Rightarrow> ErrText (pre @ store_text e))"

text \<open>\<open>failRun\<close> ends the run in a failure state; a failure to record that is ignored.\<close>

definition failRun :: "publish_faults \<Rightarrow> time \<Rightarrow> string \<Rightarrow> conf_error \<Rightarrow> publish_run \<Rightarrow> pub_world \<Rightarrow> pub_world" where
  "failRun f now st cause run w =
     (let run1 = run\<lparr>pr_state := st, pr_updatedAt := now,
            pr_errorsJSON := (if pr_errorsJSON run = [] \<or> pr_errorsJSON run = ''[]''
               then marshalErrors [error_text cause] else pr_errorsJSON run)\<rparr>
      in w\<lparr>pw_db := snd (UpdatePublishRun (pf_fail f) now run1 (pw_db w))\<rparr>)"

type_synonym publish_answer = "publish_result \<times> conf_error option"

definition refused :: "conf_error \<Rightarrow> publish_answer" where
  "refused e = (no_result, Some e)"

section \<open>Validation\<close>

text \<open>The compiled version of a loaded draft with the recorded errors, or why there is none.\<close>

definition draft_output ::
    "publish_env \<Rightarrow> draft_info \<Rightarrow> data_dir \<Rightarrow> (conf_error \<times> string) + (string \<times> string)" where
  "draft_output E dr d =
     (if dr_errors dr \<noteq> []
      then Inl (ErrText (''draft validation failed: '' @ string_of_nat (length (dr_errors dr)) @ '' error(s)''), [])
      else if dr_mode dr = ModeNative then
        (case d ''native.yaml'' of
           Some (Contents c) \<Rightarrow>
             (case loadNative (pe_loaders E) c of Inl m \<Rightarrow> Inl (ErrText m, []) | Inr v \<Rightarrow> Inr (v, []))
         | _ \<Rightarrow> Inl (ErrText ''read native.yaml'', []))
      else
        (case compile_ir (pe_compiler E) (pe_mode E) (dr_files dr) of
           (out, es) \<Rightarrow>
             let ej = (if es = [] then [] else marshalCompileErrors es) in
             (case find (\<lambda>e. ce_severity e = SeverityError) es of
                Some e \<Rightarrow> Inl (ErrText (''compile failed: '' @ ce_message e), ej)
              | None \<Rightarrow> (case out of None \<Rightarrow> Inl (ErrText ''compile returned no IR'', ej) | Some v \<Rightarrow> Inr (v, ej)))))"

section \<open>Publishing\<close>

text \<open>From the snapshot's version row on: record, deliver, await the confirmation.\<close>

definition deliver_version ::
    "publish_env \<Rightarrow> publish_faults \<Rightarrow> time \<Rightarrow> version \<Rightarrow> publish_run \<Rightarrow> pub_world \<Rightarrow> publish_answer \<times> pub_world" where
  "deliver_version E f now v run w =
     (case InsertVersion (pf_record f) now v (pw_db w) of
        (Some e, db) \<Rightarrow>
          (let c = wrapped ''record version: '' e in (refused c, failRun f now ''PUBLISH_FAILED'' c run (w\<lparr>pw_db := db\<rparr>)))
      | (None, db) \<Rightarrow>
        (case pf_apply f of
           Some m \<Rightarrow>
             (let db1 = snd (InsertVersion (pf_failed f) now (v\<lparr>vs_state := ''failed''\<rparr>) db) in
              ((\<lparr>rs_seq = vs_seq v, rs_runID = pr_id run, rs_irVersion = vs_irVersion v, rs_state = ''failed''\<rparr>, Some (ErrText m)),
               failRun f now ''PUBLISH_FAILED'' (ErrText m) run (w\<lparr>pw_db := db1\<rparr>)))
         | None \<Rightarrow>
           let w1 = w\<lparr>pw_db := db, pw_applied := vs_irVersion v # pw_applied w\<rparr> in
           (case InsertVersion (pf_confirming f) now (v\<lparr>vs_state := ''confirming''\<rparr>) db of
              (Some e, db1) \<Rightarrow>
                (let c = wrapped ''record confirming version: '' e in
                 (refused c, failRun f now ''PUBLISH_FAILED'' c run (w1\<lparr>pw_db := db1\<rparr>)))
            | (None, db1) \<Rightarrow>
              (case UpdatePublishRun (pf_run f) now (run\<lparr>pr_state := ''CONFIRMING'', pr_updatedAt := now\<rparr>) db1 of
                 (Some e, db2) \<Rightarrow> (refused (wrapped [] e), w1\<lparr>pw_db := db2\<rparr>)
               | (None, db2) \<Rightarrow>
                   ((\<lparr>rs_seq = vs_seq v, rs_runID = pr_id run, rs_irVersion = vs_irVersion v, rs_state = ''confirming''\<rparr>, None),
                    w1\<lparr>pw_db := db2,
                       pw_state := ExpectVersion (vs_irVersion v)
                         (if pe_confirmTimeout E \<le> 0 then 30 * second else pe_confirmTimeout E) now (pw_state w)\<rparr>)))))"

text \<open>The difference to the parent is kept with the run when there is one.\<close>

definition record_diff ::
    "publish_faults \<Rightarrow> time \<Rightarrow> int \<Rightarrow> int \<Rightarrow> publish_run \<Rightarrow> pub_world \<Rightarrow> sql_error option \<times> publish_run \<times> pub_world" where
  "record_diff f now parent seq run w =
     (if 0 < parent then
        (case DiffSnapshots (pw_snaps w) parent seq of
           Inl e \<Rightarrow> (None, run, w)
         | Inr sd \<Rightarrow>
             let run1 = run\<lparr>pr_diffJSON := go_marshal (diff_json sd), pr_updatedAt := now\<rparr> in
             (case UpdatePublishRun (pf_diff f) now run1 (pw_db w) of (res, db) \<Rightarrow> (res, run1, w\<lparr>pw_db := db\<rparr>)))
      else (None, run, w))"

definition publish_meta :: "publish_env \<Rightarrow> time \<Rightarrow> string \<Rightarrow> string \<Rightarrow> string \<Rightarrow> int \<Rightarrow> int \<Rightarrow> int \<Rightarrow> snapshot_meta" where
  "publish_meta E now author msg v seq parent rollbackOf =
     \<lparr>sm_seq = seq, sm_createdAt = now, sm_author = author, sm_message = msg, sm_mode = pe_mode E, sm_irVersion = v,
      sm_state = ''publishing'', sm_parentSeq = parent, sm_rollbackOf = rollbackOf, sm_stats = pe_stats E v\<rparr>"

definition publish_version :: "publish_env \<Rightarrow> time \<Rightarrow> string \<Rightarrow> string \<Rightarrow> string \<Rightarrow> int \<Rightarrow> int \<Rightarrow> int \<Rightarrow> version" where
  "publish_version E now author msg v seq parent rollbackOf =
     \<lparr>vs_seq = seq, vs_createdAt = now, vs_author = author, vs_message = msg, vs_mode = pe_mode E, vs_irVersion = v,
      vs_state = ''publishing'', vs_parentSeq = parent, vs_rollbackOf = rollbackOf,
      vs_statsJSON = go_marshal (stats_json (pe_stats E v))\<rparr>"

text \<open>With a version number reserved: snapshot, difference, and on to the delivery.\<close>

definition publish_numbered ::
    "publish_env \<Rightarrow> publish_faults \<Rightarrow> time \<Rightarrow> string \<Rightarrow> string \<Rightarrow> string \<Rightarrow> int \<Rightarrow> int \<Rightarrow> int \<Rightarrow> publish_run \<Rightarrow> pub_world \<Rightarrow>
     publish_answer \<times> pub_world" where
  "publish_numbered E f now author msg v seq parent rollbackOf run w =
     (case Snapshot (pf_snapshot f) (pw_dir w) seq (publish_meta E now author msg v seq parent rollbackOf) (pw_snaps w) of
        (Some e, snaps) \<Rightarrow> (refused e, failRun f now ''PUBLISH_FAILED'' e run (w\<lparr>pw_snaps := snaps\<rparr>))
      | (None, snaps) \<Rightarrow>
        (case record_diff f now parent seq run (w\<lparr>pw_snaps := snaps\<rparr>) of
           (Some e, run1, w1) \<Rightarrow> (let c = wrapped [] e in (refused c, failRun f now ''PUBLISH_FAILED'' c run1 w1))
         | (None, run1, w1) \<Rightarrow>
             deliver_version E f now (publish_version E now author msg v seq parent rollbackOf) run1 w1))"

text \<open>With the draft compiled: the run is marked, the parent read and a number reserved.\<close>

definition publish_compiled ::
    "publish_env \<Rightarrow> publish_faults \<Rightarrow> time \<Rightarrow> string \<Rightarrow> string \<Rightarrow> string \<Rightarrow> int \<Rightarrow> publish_run \<Rightarrow> pub_world \<Rightarrow>
     publish_answer \<times> pub_world" where
  "publish_compiled E f now author msg v rollbackOf run0 w =
     (let run1 = run0\<lparr>pr_state := ''VALIDATED'', pr_updatedAt := now\<rparr> in
      case UpdatePublishRun (pf_validated f) now run1 (pw_db w) of
        (Some e, db) \<Rightarrow> (refused (wrapped [] e), w\<lparr>pw_db := db\<rparr>)
      | (None, db) \<Rightarrow>
        (case pf_parent f of
           Some m \<Rightarrow>
             (let c = ErrText (''read parent version: '' @ m) in
              (refused c, failRun f now ''PUBLISH_FAILED'' c run1 (w\<lparr>pw_db := db\<rparr>)))
         | None \<Rightarrow>
           let parent = (case LatestVersion [] db of Some p \<Rightarrow> vs_seq p | None \<Rightarrow> 0) in
           (case NextVersionSeq (pf_seq f) now db of
              (Inl e, db1) \<Rightarrow>
                (let c = wrapped ''reserve version: '' e in
                 (refused c, failRun f now ''PUBLISH_FAILED'' c run1 (w\<lparr>pw_db := db1\<rparr>)))
            | (Inr seq, db1) \<Rightarrow>
              let run2 = run1\<lparr>pr_versionSeq := seq, pr_state := ''PUBLISHING'', pr_updatedAt := now\<rparr> in
              (case UpdatePublishRun (pf_publishing f) now run2 db1 of
                 (Some e, db2) \<Rightarrow> (refused (wrapped [] e), w\<lparr>pw_db := db2\<rparr>)
               | (None, db2) \<Rightarrow>
                   publish_numbered E f now author msg v seq parent rollbackOf run2 (w\<lparr>pw_db := db2\<rparr>)))))"

definition active_conflict :: "sql_error \<Rightarrow> bool" where
  "active_conflict e \<longleftrightarrow> str_includes (to_lower (store_text e)) ''unique'' \<or> str_includes (to_lower (store_text e)) ''constraint''"

definition new_run :: "string \<Rightarrow> string \<Rightarrow> publish_run" where
  "new_run author hash = \<lparr>pr_id = 0, pr_versionSeq = 0, pr_triggerBy = author, pr_baseHash = hash, pr_state = ''VALIDATING'',
     pr_errorsJSON = [], pr_diffJSON = [], pr_createdAt = 0, pr_updatedAt = 0\<rparr>"

definition publishWithBaseLocked ::
    "publish_env \<Rightarrow> publish_faults \<Rightarrow> time \<Rightarrow> string \<Rightarrow> string \<Rightarrow> string \<Rightarrow> int \<Rightarrow> pub_world \<Rightarrow> publish_answer \<times> pub_world" where
  "publishWithBaseLocked E f now author msg baseHash rollbackOf w0 =
     (case LoadDraft (pe_loaders E) (pw_dir w0) of
        (Inl e, d) \<Rightarrow> (refused e, w0\<lparr>pw_dir := d\<rparr>)
      | (Inr dr, d) \<Rightarrow>
        let w = w0\<lparr>pw_dir := d\<rparr> in
        if baseHash \<noteq> [] \<and> baseHash \<noteq> dr_hash dr
        then (refused (ErrDraftChanged (''conf: draft changed since it was read: want '' @ baseHash @ '', current '' @ dr_hash dr)), w)
        else
          (case CreatePublishRun (pf_create f) now (new_run author (dr_hash dr)) (pw_db w) of
             (Inl e, db) \<Rightarrow>
               (refused (if active_conflict e then ErrPublishActive else wrapped ''create publish run: '' e), w\<lparr>pw_db := db\<rparr>)
           | (Inr i, db) \<Rightarrow>
               let run = (new_run author (dr_hash dr))\<lparr>pr_id := i\<rparr>; w1 = w\<lparr>pw_db := db\<rparr> in
               (case draft_output E dr d of
                  Inl (cause, ej) \<Rightarrow>
                    (refused cause, failRun f now ''VALIDATE_FAILED'' cause (run\<lparr>pr_errorsJSON := ej\<rparr>) w1)
                | Inr (v, ej) \<Rightarrow>
                    publish_compiled E f now author msg v rollbackOf (run\<lparr>pr_errorsJSON := ej\<rparr>) w1)))"

definition PublishWithBase ::
    "publish_env \<Rightarrow> publish_faults \<Rightarrow> time \<Rightarrow> string \<Rightarrow> string \<Rightarrow> string \<Rightarrow> pub_world \<Rightarrow> publish_answer \<times> pub_world" where
  "PublishWithBase E f now author msg baseHash w = publishWithBaseLocked E f now author msg baseHash 0 w"

section \<open>Going back\<close>

definition RollbackPublish ::
    "publish_env \<Rightarrow> string option \<Rightarrow> commit_faults \<Rightarrow> publish_faults \<Rightarrow> time \<Rightarrow> int \<Rightarrow> string \<Rightarrow> string \<Rightarrow> bool \<Rightarrow> pub_world \<Rightarrow>
     publish_answer \<times> pub_world" where
  "RollbackPublish E stage_fault cf f now seq author msg force w =
     (case RollbackSource (pe_loaders E) stage_fault cf seq force (pw_snaps w) (pw_dir w) of
        (Some e, d) \<Rightarrow> (refused e, w\<lparr>pw_dir := d\<rparr>)
      | (None, d) \<Rightarrow>
          (case DraftHash (sha256 (pe_loaders E)) d of
             Inl e \<Rightarrow> (refused e, w\<lparr>pw_dir := d\<rparr>)
           | Inr hash \<Rightarrow> publishWithBaseLocked E f now author msg hash seq (w\<lparr>pw_dir := d\<rparr>)))"

section \<open>Confirmation\<close>

definition confirmLocked ::
    "string option \<Rightarrow> time \<Rightarrow> publish_run \<Rightarrow> version \<Rightarrow> string \<Rightarrow> version_db \<Rightarrow> conf_error option \<times> version_db" where
  "confirmLocked fault now run v observed db =
     (if observed \<noteq> vs_irVersion v
      then (Some (ErrText (''confirm version mismatch: observed '' @ observed @ '', want '' @ vs_irVersion v)), db)
      else (case TransitionPublish fault now (pr_id run) (vs_seq v) ''EFFECTIVE'' ''effective'' True db of
              (res, db') \<Rightarrow> (map_option (wrapped []) res, db')))"

definition Confirm :: "string option \<Rightarrow> time \<Rightarrow> int \<Rightarrow> string \<Rightarrow> pub_world \<Rightarrow> conf_error option \<times> pub_world" where
  "Confirm fault now runID observed w =
     (case GetPublishRun runID (pw_db w) of
        None \<Rightarrow> (Some (wrapped [] SqlNoRows), w)
      | Some run \<Rightarrow>
        if pr_state run \<noteq> ''CONFIRMING''
        then (Some (ErrText (''publish run '' @ string_of_int runID @ '' is '' @ pr_state run @ '', want CONFIRMING'')), w)
        else (case GetVersion (pr_versionSeq run) (pw_db w) of
            None \<Rightarrow> (Some (wrapped [] SqlNoRows), w)
          | Some v \<Rightarrow>
              (case confirmLocked fault now run v observed (pw_db w) of (res, db) \<Rightarrow> (res, w\<lparr>pw_db := db\<rparr>))))"

text \<open>\<open>Publish\<close> takes the delivery itself for the confirmation.\<close>

definition Publish ::
    "publish_env \<Rightarrow> publish_faults \<Rightarrow> string option \<Rightarrow> time \<Rightarrow> string \<Rightarrow> string \<Rightarrow> pub_world \<Rightarrow> publish_answer \<times> pub_world" where
  "Publish E f fault now author msg w =
     (case PublishWithBase E f now author msg [] w of
        ((res, Some e), w1) \<Rightarrow> ((res, Some e), w1)
      | ((res, None), w1) \<Rightarrow>
          if rs_runID res = 0 then ((res, None), w1)
          else (case Confirm fault now (rs_runID res) (rs_irVersion res) w1 of
                  (Some e, w2) \<Rightarrow> ((res, Some e), w2)
                | (None, w2) \<Rightarrow> ((res\<lparr>rs_state := ''effective''\<rparr>, None), w2)))"

text \<open>The first active run whose version the event is about is moved on.\<close>

fun confirm_runs :: "string option \<Rightarrow> time \<Rightarrow> confirm_event \<Rightarrow> publish_run list \<Rightarrow> version_db \<Rightarrow> conf_error option \<times> version_db" where
  "confirm_runs fault now ev [] db = (None, db)"
| "confirm_runs fault now ev (run # runs) db =
     (case GetVersion (pr_versionSeq run) db of
        None \<Rightarrow> confirm_runs fault now ev runs db
      | Some v \<Rightarrow>
          if vs_irVersion v \<noteq> ev_expected ev then confirm_runs fault now ev runs db
          else if ev_status ev = ''CONFIRMED'' then confirmLocked fault now run v (ev_observed ev) db
          else (case TransitionPublish fault now (pr_id run) (vs_seq v) ''TIMEOUT'' ''timeout'' False db of
                  (res, db') \<Rightarrow> (map_option (wrapped []) res, db')))"

definition handleConfirmEvent ::
    "string option \<Rightarrow> string option \<Rightarrow> time \<Rightarrow> confirm_event \<Rightarrow> pub_world \<Rightarrow> conf_error option \<times> pub_world" where
  "handleConfirmEvent read_fault fault now ev w =
     (case read_fault of Some m \<Rightarrow> (Some (ErrText m), w)
      | None \<Rightarrow>
          (case confirm_runs fault now ev (ActivePublishRuns (pw_db w)) (pw_db w) of (res, db) \<Rightarrow> (res, w\<lparr>pw_db := db\<rparr>)))"

definition Recheck :: "publish_env \<Rightarrow> string option \<Rightarrow> time \<Rightarrow> int \<Rightarrow> pub_world \<Rightarrow> conf_error option \<times> pub_world" where
  "Recheck E fault now runID w =
     (case GetPublishRun runID (pw_db w) of
        None \<Rightarrow> (Some (wrapped [] SqlNoRows), w)
      | Some run \<Rightarrow>
        if pr_state run \<noteq> ''TIMEOUT''
        then (Some (ErrText (''publish run '' @ string_of_int runID @ '' is '' @ pr_state run @ '', want TIMEOUT'')), w)
        else (case GetVersion (pr_versionSeq run) (pw_db w) of
            None \<Rightarrow> (Some (wrapped [] SqlNoRows), w)
          | Some v \<Rightarrow>
              (case TransitionPublish fault now (pr_id run) (vs_seq v) ''CONFIRMING'' ''confirming'' False (pw_db w) of
                 (Some e, db) \<Rightarrow> (Some (wrapped [] e), w\<lparr>pw_db := db\<rparr>)
               | (None, db) \<Rightarrow>
                   (None, w\<lparr>pw_db := db,
                     pw_state := ExpectVersion (vs_irVersion v)
                       (if pe_confirmTimeout E \<le> 0 then 30 * second else pe_confirmTimeout E) now (pw_state w)\<rparr>))))"

end
