(* ===== verification/PublishInv.thy ===== *)
theory PublishInv
  imports Publisher
begin

text \<open>
  The invariant of the publisher's state: what ties the rows of the version store to the snapshots,
  to the versions the deliverer has accepted and to the expectations of the state collector, and
  that every operation keeps it, whatever fails on its way.
\<close>

section \<open>Statements as changes of one row\<close>

abbreviation put_version :: "version \<Rightarrow> version_db \<Rightarrow> version_db" where
  "put_version v db \<equiv> db\<lparr>db_versions := row_put vs_seq v (db_versions db)\<rparr>"

abbreviation put_run :: "publish_run \<Rightarrow> version_db \<Rightarrow> version_db" where
  "put_run r db \<equiv> db\<lparr>db_runs := row_put pr_id r (db_runs db)\<rparr>"

lemma GetVersion_runs [simp]: "GetVersion n (db\<lparr>db_runs := rs\<rparr>) = GetVersion n db"
  by (simp add: GetVersion_def)

lemma GetVersion_lastRun [simp]: "GetVersion n (db\<lparr>db_lastRun := i\<rparr>) = GetVersion n db"
  by (simp add: GetVersion_def)

lemma GetPublishRun_versions [simp]: "GetPublishRun i (db\<lparr>db_versions := vs\<rparr>) = GetPublishRun i db"
  by (simp add: GetPublishRun_def)

lemma GetPublishRun_lastRun [simp]: "GetPublishRun i (db\<lparr>db_lastRun := j\<rparr>) = GetPublishRun i db"
  by (simp add: GetPublishRun_def)

lemma InsertVersion_effect:
  obtains (fails) e where "InsertVersion fault now v db = (Some e, db)"
  | (writes) v' where "InsertVersion fault now v db = (None, put_version v' db)" and "0 < vs_seq v"
      and "vs_seq v' = vs_seq v" and "vs_state v' = vs_state v" and "vs_irVersion v' = vs_irVersion v"
      and "vs_author v' = vs_author v" and "vs_message v' = vs_message v"
  by (cases "vs_seq v \<le> 0"; cases fault)
     (auto simp: InsertVersion_def Let_def intro: that)

lemma UpdatePublishRun_effect:
  obtains (same) res where "UpdatePublishRun fault now r db = (res, db)"
  | (writes) r' where "UpdatePublishRun fault now r db = (None, put_run r' db)"
      and "pr_id r' = pr_id r" and "pr_state r' = pr_state r" and "pr_versionSeq r' = pr_versionSeq r"
proof (cases "UpdatePublishRun fault now r db")
  case (Pair res db')
  show thesis
  proof (cases "db' = db")
    case False
    then show thesis
      using Pair by (auto simp: UpdatePublishRun_def Let_def split: if_splits option.splits intro!: writes)
  qed (use Pair same in blast)
qed

lemma GetVersion_Update [simp]: "GetVersion n (snd (UpdatePublishRun fault now r db)) = GetVersion n db"
  by (cases rule: UpdatePublishRun_effect [of fault now r db]) simp_all

lemma CreatePublishRun_effect [consumes 1, case_names fails writes]:
  assumes "vdb_inv db"
  obtains (fails) e where "CreatePublishRun fault now r db = (Inl e, db)"
  | (writes) r' i where "CreatePublishRun fault now r db = (Inr i, (put_run r' db)\<lparr>db_lastRun := i\<rparr>)"
      and "pr_state r' = pr_state r" and "pr_versionSeq r' = pr_versionSeq r" and "pr_id r' = i"
proof (cases "CreatePublishRun fault now r db")
  case (Pair res db')
  define i where "i = db_lastRun db + 1"
  define r' where "r' = (run_defaults now r)\<lparr>pr_id := i\<rparr>"
  have kept: "pr_state r' = pr_state r" "pr_versionSeq r' = pr_versionSeq r" "pr_id r' = i"
    by (simp_all add: r'_def run_defaults_def Let_def)
  have "pr_id r' \<notin> pr_id ` set (db_runs db)"
    using assms kept by (force simp: vdb_inv_def vdb_wf_def i_def)
  then have put: "row_put pr_id r' (db_runs db) = db_runs db @ [r']" by (rule row_put_new)
  show thesis
  proof (cases res)
    case (Inl e)
    then show thesis using Pair
      by (auto simp: CreatePublishRun_def Let_def split: option.splits if_splits intro!: fails)
  next
    case (Inr j)
    then have "CreatePublishRun fault now r db = (Inr i, (put_run r' db)\<lparr>db_lastRun := i\<rparr>)"
      using Pair put by (auto simp: CreatePublishRun_def Let_def i_def r'_def split: option.splits if_splits)
    then show thesis using kept by (rule writes)
  qed
qed

lemma NextVersionSeq_effect:
  obtains (fails) e where "NextVersionSeq fault now db = (Inl e, db)"
  | (writes) "NextVersionSeq fault now db = (Inr (next_seq db), put_version (reserved_version (next_seq db) now) db)"
      and "GetVersion (next_seq db) db = None"
proof (cases rule: NextVersionSeq_cases [of fault now db])
  case (1 e)
  then show thesis by (rule fails)
next
  case 2
  have new: "next_seq db \<notin> vs_seq ` set (db_versions db)"
    using next_seq_above [of _ db] by force
  moreover have "vs_seq (reserved_version (next_seq db) now) = next_seq db" by (simp add: reserved_version_def)
  ultimately have "row_put vs_seq (reserved_version (next_seq db) now) (db_versions db) =
      db_versions db @ [reserved_version (next_seq db) now]"
    by (intro row_put_new) simp
  with 2 new show thesis by (intro writes) (simp_all add: GetVersion_def row_get_None_iff)
qed

lemma row_get_map:
  assumes "\<And>r. key (g r) = key r"
  shows "row_get key k (map g rows) = map_option g (row_get key k rows)"
  by (induction rows) (auto simp: row_get_def assms)

definition superseded :: "int \<Rightarrow> version \<Rightarrow> version" where
  "superseded n v = (if vs_state v = ''effective'' \<and> vs_seq v \<noteq> n then v\<lparr>vs_state := ''superseded''\<rparr> else v)"

lemma superseded_simps [simp]:
  "vs_seq (superseded n v) = vs_seq v" "vs_irVersion (superseded n v) = vs_irVersion v"
  "visible (superseded n v) = visible v"
  by (simp_all add: superseded_def visible_def)

lemma GetVersion_supersede:
  "GetVersion k (db\<lparr>db_versions := supersede_others n (db_versions db)\<rparr>) = map_option (superseded n) (GetVersion k db)"
proof -
  have "supersede_others n (db_versions db) = map (superseded n) (db_versions db)"
    by (simp add: supersede_others_def superseded_def)
  then show ?thesis by (simp add: GetVersion_def row_get_map)
qed

lemma row_get_filter: "row_get key k (filter p rows) = Some r \<Longrightarrow> distinct (map key rows) \<Longrightarrow> row_get key k rows = Some r"
  using row_get_SomeD [of key k "filter p rows" r] row_get_in [of key rows r] by auto

text \<open>What is left of a transition: the old rows of run and version, and the new ones.\<close>

lemma TransitionPublish_effect [consumes 1, case_names fails applied]:
  assumes "vdb_inv db"
  obtains (fails) e where "TransitionPublish fault now i n rst vst super db = (Some e, db)"
  | (applied) r v db' where "TransitionPublish fault now i n rst vst super db = (None, db')"
      and "GetPublishRun i db = Some r" and "pr_versionSeq r = n" and "GetVersion n db = Some v" and "visible v"
      and "\<And>k. GetVersion k db' = (if k = n then Some (v\<lparr>vs_state := vst\<rparr>)
             else if super then map_option (superseded n) (GetVersion k db) else GetVersion k db)"
      and "\<And>k. GetPublishRun k db' = (if k = i then Some (r\<lparr>pr_state := rst, pr_updatedAt := now\<rparr>) else GetPublishRun k db)"
proof (cases rule: TransitionPublish_cases [of fault now i n rst vst super db])
  case (fails e)
  then show thesis by (rule that(1))
next
  case (applies r v vs)
  have d: "distinct (map vs_seq vs)"
    using assms applies(1) map_seq_supersede [of n "db_versions db"] by (simp add: vdb_inv_def vdb_wf_def split: if_splits)
  have vs: "row_get vs_seq n vs = Some v" using row_get_filter [OF applies(4) d] .
  have vis: "visible v" "vs_seq v = n" using row_get_SomeD [OF applies(4)] by auto
  have rid: "pr_id r = i" using row_get_SomeD [OF applies(2)] by simp
  have look: "GetVersion k (db\<lparr>db_versions := vs\<rparr>) =
      (if super then map_option (superseded n) (GetVersion k db) else GetVersion k db)" for k
    using applies(1) GetVersion_supersede [of k n db] by simp
  then obtain v0 where v0: "GetVersion n db = Some v0" "v = (if super then superseded n v0 else v0)"
    using vs by (auto simp: GetVersion_def split: if_splits)
  then have same: "v\<lparr>vs_state := vst\<rparr> = v0\<lparr>vs_state := vst\<rparr>" "visible v0"
    using vis by (auto simp: superseded_def split: if_splits)
  show thesis
  proof (rule that(2) [OF applies(8), of r v0])
    show "GetPublishRun i db = Some r" using applies(2) by (simp add: GetPublishRun_def)
    fix k
    let ?db' = "db\<lparr>db_versions := row_put vs_seq (v\<lparr>vs_state := vst\<rparr>) vs,
        db_runs := row_put pr_id (r\<lparr>pr_state := rst, pr_updatedAt := now\<rparr>) (db_runs db)\<rparr>"
    show "GetVersion k ?db' = (if k = n then Some (v0\<lparr>vs_state := vst\<rparr>)
        else if super then map_option (superseded n) (GetVersion k db) else GetVersion k db)"
      using look [of k] vis(2) unfolding same(1) [symmetric] by (simp add: GetVersion_def row_get_put)
    show "GetPublishRun k ?db' = (if k = i then Some (r\<lparr>pr_state := rst, pr_updatedAt := now\<rparr>) else GetPublishRun k db)"
      using rid by (simp add: GetPublishRun_def row_get_put)
  qed (use applies(3) v0 same in auto)
qed

section \<open>The invariant\<close>

definition delivered :: "version_db \<Rightarrow> string list \<Rightarrow> int \<Rightarrow> bool" where
  "delivered db ap n \<longleftrightarrow> (\<exists>v. GetVersion n db = Some v \<and> visible v \<and> vs_irVersion v \<in> set ap)"

definition awaiting :: "string \<Rightarrow> bool" where
  "awaiting st \<longleftrightarrow> st = ''CONFIRMING'' \<or> st = ''TIMEOUT''"

text \<open>Rows and snapshots: each version that was not merely reserved has its snapshot, no snapshot is
  without a row, an effective version has been delivered, and so has the version of a run that
  waits for its confirmation or has waited in vain.\<close>

definition linked :: "version_db \<Rightarrow> snapshots \<Rightarrow> string list \<Rightarrow> bool" where
  "linked db snaps ap \<longleftrightarrow>
     (\<forall>n v. GetVersion n db = Some v \<and> visible v \<longrightarrow>
        (\<exists>s. snaps n = Some s \<and> sm_irVersion (sn_meta s) = vs_irVersion v)) \<and>
     (\<forall>n. snaps n \<noteq> None \<longrightarrow> GetVersion n db \<noteq> None) \<and>
     (\<forall>n v. GetVersion n db = Some v \<and> vs_state v = ''effective'' \<longrightarrow> vs_irVersion v \<in> set ap) \<and>
     (\<forall>i r. GetPublishRun i db = Some r \<and> awaiting (pr_state r) \<longrightarrow> delivered db ap (pr_versionSeq r))"

definition expects :: "state_service \<Rightarrow> string list \<Rightarrow> bool" where
  "expects s ap \<longleftrightarrow> (ss_expected s \<noteq> [] \<longrightarrow> ss_expected s \<in> set ap) \<and> (\<forall>e \<in> set (ss_events s). ev_expected e \<in> set ap)"

definition pub_inv :: "pub_world \<Rightarrow> bool" where
  "pub_inv w \<longleftrightarrow> vdb_inv (pw_db w) \<and> linked (pw_db w) (pw_snaps w) (pw_applied w) \<and> expects (pw_state w) (pw_applied w)"

subsection \<open>Statements keep it\<close>

lemma linked_put_run:
  assumes "linked db snaps ap" and "awaiting (pr_state r) \<longrightarrow> delivered db ap (pr_versionSeq r)"
  shows "linked (put_run r db) snaps ap"
  using assms by (auto simp: linked_def delivered_def run_rows.lookup_upsert)

lemma linked_Update:
  assumes "linked db snaps ap" and "awaiting (pr_state r) \<longrightarrow> delivered db ap (pr_versionSeq r)"
  shows "linked (snd (UpdatePublishRun fault now r db)) snaps ap"
  using assms by (cases rule: UpdatePublishRun_effect [of fault now r db]) (auto intro!: linked_put_run)

lemma linked_lastRun [simp]: "linked (db\<lparr>db_lastRun := i\<rparr>) snaps ap = linked db snaps ap"
  by (simp add: linked_def delivered_def)

lemma linked_Create:
  assumes "vdb_inv db" and "linked db snaps ap" and "\<not> awaiting (pr_state r)"
  shows "linked (snd (CreatePublishRun fault now r db)) snaps ap"
  using assms by (cases rule: CreatePublishRun_effect [where fault = fault and now = now and r = r]) (auto intro!: linked_put_run)

lemma linked_put_version:
  assumes "linked db snaps ap"
    and "\<forall>v0. GetVersion (vs_seq v) db = Some v0 \<and> visible v0 \<longrightarrow> visible v \<and> vs_irVersion v0 = vs_irVersion v"
    and "visible v \<longrightarrow> (\<exists>s. snaps (vs_seq v) = Some s \<and> sm_irVersion (sn_meta s) = vs_irVersion v)"
    and "vs_state v \<noteq> ''effective''"
  shows "linked (put_version v db) snaps ap"
proof -
  have "delivered (put_version v db) ap n" if "delivered db ap n" for n
    using that assms(2) by (auto simp: delivered_def version_rows.lookup_upsert)
  then show ?thesis
    using assms by (auto simp: linked_def version_rows.lookup_upsert)
qed

lemma linked_reserve:
  assumes "linked db snaps ap" and "GetVersion n db = None"
  shows "linked (put_version (reserved_version n now) db) snaps ap"
  using assms by (intro linked_put_version) (auto simp: reserved_version_def visible_def)

lemma reserved_invisible: "\<not> visible (reserved_version n now)"
  by (simp add: visible_def reserved_version_def)

lemma linked_Next: "linked db snaps ap \<Longrightarrow> linked (snd (NextVersionSeq fault now db)) snaps ap"
  by (cases rule: NextVersionSeq_effect [of fault now db]) (auto intro: linked_reserve)

lemma linked_snapshot:
  assumes "linked db snaps ap" and "GetVersion n db = Some v" and "\<not> visible v"
  shows "linked db (snaps(n \<mapsto> s)) ap"
  using assms by (auto simp: linked_def)

lemma linked_apply: "linked db snaps ap \<Longrightarrow> linked db snaps (x # ap)"
  by (simp add: linked_def delivered_def) blast

lemma expects_apply: "expects s ap \<Longrightarrow> expects s (x # ap)"
  by (auto simp: expects_def)

lemma expects_ExpectVersion: "expects s ap \<Longrightarrow> v \<in> set ap \<Longrightarrow> expects (ExpectVersion v t now s) ap"
  by (simp add: expects_def ExpectVersion_def)

lemma expects_refresh: "expects s ap \<Longrightarrow> expects (refresh_version obs now s) ap"
  by (cases rule: refresh_cases [of obs now s]) (auto simp: expects_def post_event_def split: if_splits)

lemma linked_Transition:
  assumes inv: "vdb_inv db" and l: "linked db snaps ap" and vst: "vst \<noteq> ''RESERVED''"
    and irv: "\<And>v. vst = ''effective'' \<or> awaiting rst \<Longrightarrow> GetVersion n db = Some v \<Longrightarrow> vs_irVersion v \<in> set ap"
  shows "linked (snd (TransitionPublish fault now i n rst vst super db)) snaps ap"
  using inv
proof (cases rule: TransitionPublish_effect [where fault = fault and now = now and i = i and n = n and rst = rst
      and vst = vst and super = super])
  case (fails e)
  with l show ?thesis by simp
next
  case (applied r v db')
  note V = applied(6) and R = applied(7) and writes = applied
  have del: "delivered db ap n" if "vst = ''effective'' \<or> awaiting rst"
    using irv [OF that] writes(4,5) by (simp add: delivered_def)
  have kept: "\<exists>w. GetVersion k db = Some w \<and> vs_irVersion w = vs_irVersion w' \<and> (visible w' \<longrightarrow> visible w) \<and>
      (vs_state w' = ''effective'' \<longrightarrow> vs_state w = ''effective'' \<or> k = n \<and> vst = ''effective'')"
    if "GetVersion k db' = Some w'" for k w'
    using that writes(4,5) V [of k] by (auto simp: superseded_def visible_def split: if_splits)
  have del': "delivered db' ap k" if "delivered db ap k" for k
  proof -
    from that obtain w where w: "GetVersion k db = Some w" "visible w" "vs_irVersion w \<in> set ap"
      by (auto simp: delivered_def)
    show ?thesis
    proof (cases "k = n")
      case True
      with w writes(4) vst V [of k] show ?thesis by (simp add: delivered_def visible_def)
    next
      case False
      with w V [of k] show ?thesis by (simp add: delivered_def)
    qed
  qed
  have "GetVersion k db' \<noteq> None" if "snaps k \<noteq> None" for k
  proof -
    have "GetVersion k db \<noteq> None" using l that by (simp add: linked_def)
    then show ?thesis using V [of k] by (auto split: if_splits)
  qed
  moreover have "\<exists>s. snaps k = Some s \<and> sm_irVersion (sn_meta s) = vs_irVersion w'"
    if "GetVersion k db' = Some w'" "visible w'" for k w'
    using kept [OF that(1)] that(2) l by (metis linked_def)
  moreover have "vs_irVersion w' \<in> set ap" if eff: "GetVersion k db' = Some w'" "vs_state w' = ''effective''" for k w'
  proof -
    obtain w where w: "GetVersion k db = Some w" "vs_irVersion w = vs_irVersion w'"
      "vs_state w = ''effective'' \<or> k = n \<and> vst = ''effective''"
      using kept [OF eff(1)] eff(2) by blast
    have "vs_irVersion w \<in> set ap"
      using w(3)
    proof
      assume "vs_state w = ''effective''"
      with w(1) l show ?thesis by (simp add: linked_def)
    next
      assume "k = n \<and> vst = ''effective''"
      with w(1) del show ?thesis by (auto simp: delivered_def)
    qed
    with w(2) show ?thesis by simp
  qed
  moreover have "delivered db' ap (pr_versionSeq q)" if aw: "GetPublishRun j db' = Some q" "awaiting (pr_state q)" for j q
  proof (cases "j = i")
    case True
    with aw R [of j] writes(3) have "pr_versionSeq q = n" "awaiting rst" by auto
    with del del' show ?thesis by simp
  next
    case False
    with aw R [of j] l have "delivered db ap (pr_versionSeq q)" by (simp add: linked_def)
    then show ?thesis by (rule del')
  qed
  ultimately show ?thesis unfolding linked_def writes(1) snd_conv by blast
qed

subsection \<open>The phases of a publish keep it\<close>

lemmas store_inv = vdb_inv_InsertVersion vdb_inv_UpdatePublishRun vdb_inv_CreatePublishRun vdb_inv_NextVersionSeq

lemma pub_inv_failRun:
  assumes "pub_inv w" and "\<not> awaiting st"
  shows "pub_inv (failRun f now st cause run w)"
  using assms by (simp add: failRun_def pub_inv_def Let_def linked_Update store_inv)

lemma pub_inv_Update:
  assumes "pub_inv w" and "UpdatePublishRun fault now r (pw_db w) = (res, db)"
    and "awaiting (pr_state r) \<longrightarrow> delivered (pw_db w) (pw_applied w) (pr_versionSeq r)"
  shows "pub_inv (w\<lparr>pw_db := db\<rparr>)" and "GetVersion n db = GetVersion n (pw_db w)"
  using assms linked_Update [of "pw_db w" "pw_snaps w" "pw_applied w" r fault now]
    vdb_inv_UpdatePublishRun [of "pw_db w" fault now r] GetVersion_Update [of n fault now r "pw_db w"]
  by (simp_all add: pub_inv_def)

lemma pub_inv_Insert:
  assumes w: "pub_inv w" and res: "InsertVersion fault now v (pw_db w) = (res, db)"
    and v: "vs_state v \<noteq> ''effective''" "visible v"
    and snap: "pw_snaps w (vs_seq v) = Some s" "sm_irVersion (sn_meta s) = vs_irVersion v"
    and old: "\<forall>v0. GetVersion (vs_seq v) (pw_db w) = Some v0 \<and> visible v0 \<longrightarrow> vs_irVersion v0 = vs_irVersion v"
  shows "pub_inv (w\<lparr>pw_db := db\<rparr>)"
    and "\<forall>v0. GetVersion (vs_seq v) db = Some v0 \<and> visible v0 \<longrightarrow> vs_irVersion v0 = vs_irVersion v"
    and "res = None \<Longrightarrow> \<exists>v0. GetVersion (vs_seq v) db = Some v0 \<and> visible v0 \<and> vs_irVersion v0 = vs_irVersion v"
proof -
  have inv: "vdb_inv db" using w res vdb_inv_InsertVersion [of "pw_db w" v fault now] v by (simp add: pub_inv_def)
  have "linked db (pw_snaps w) (pw_applied w) \<and>
    (\<forall>v0. GetVersion (vs_seq v) db = Some v0 \<and> visible v0 \<longrightarrow> vs_irVersion v0 = vs_irVersion v) \<and>
    (res = None \<longrightarrow> (\<exists>v0. GetVersion (vs_seq v) db = Some v0 \<and> visible v0 \<and> vs_irVersion v0 = vs_irVersion v))"
  proof (cases rule: InsertVersion_effect [of fault now v "pw_db w"])
    case (fails e)
    with w res old show ?thesis by (auto simp: pub_inv_def)
  next
    case (writes v')
    then have db: "db = put_version v' (pw_db w)" and vis: "visible v'" using res v by (simp_all add: visible_def)
    have "linked (put_version v' (pw_db w)) (pw_snaps w) (pw_applied w)"
      using w snap old v vis writes(3,4,5) by (intro linked_put_version) (auto simp: pub_inv_def)
    moreover have "GetVersion (vs_seq v) db = Some v'"
      using version_rows.lookup_same [of v' "pw_db w"] writes(3) db by simp
    ultimately show ?thesis using db vis writes(5) by auto
  qed
  then show "pub_inv (w\<lparr>pw_db := db\<rparr>)"
    and "\<forall>v0. GetVersion (vs_seq v) db = Some v0 \<and> visible v0 \<longrightarrow> vs_irVersion v0 = vs_irVersion v"
    and "res = None \<Longrightarrow> \<exists>v0. GetVersion (vs_seq v) db = Some v0 \<and> visible v0 \<and> vs_irVersion v0 = vs_irVersion v"
    using w inv by (auto simp: pub_inv_def)
qed

lemma pub_inv_apply: "pub_inv w \<Longrightarrow> pub_inv (w\<lparr>pw_applied := x # pw_applied w\<rparr>)"
  by (simp add: pub_inv_def linked_apply expects_apply)

lemma pub_inv_expect:
  "pub_inv w \<Longrightarrow> v \<in> set (pw_applied w) \<Longrightarrow> pub_inv (w\<lparr>pw_state := ExpectVersion v t now (pw_state w)\<rparr>)"
  by (simp add: pub_inv_def expects_ExpectVersion)

lemma not_awaiting [simp]:
  "\<not> awaiting ''PUBLISH_FAILED''" "\<not> awaiting ''VALIDATE_FAILED''" "\<not> awaiting ''VALIDATING''" "\<not> awaiting ''VALIDATED''"
  "\<not> awaiting ''PUBLISHING''" "\<not> awaiting ''EFFECTIVE''" "awaiting ''CONFIRMING''" "awaiting ''TIMEOUT''"
  by (simp_all add: awaiting_def)

lemma pub_inv_deliver:
  assumes w: "pub_inv w" and v: "vs_state v = ''publishing''" and run: "pr_versionSeq run = vs_seq v"
    and snap: "pw_snaps w (vs_seq v) = Some s" "sm_irVersion (sn_meta s) = vs_irVersion v"
    and old: "\<forall>v0. GetVersion (vs_seq v) (pw_db w) = Some v0 \<and> visible v0 \<longrightarrow> vs_irVersion v0 = vs_irVersion v"
  shows "pub_inv (snd (deliver_version E f now v run w))"
proof -
  obtain res db where I: "InsertVersion (pf_record f) now v (pw_db w) = (res, db)" by fastforce
  have "vs_state v \<noteq> ''effective''" "visible v" using v by (simp_all add: visible_def)
  note S1 = pub_inv_Insert [OF w I this snap old]
  show ?thesis
  proof (cases res)
    case (Some e)
    with I S1(1) show ?thesis by (simp add: deliver_version_def Let_def pub_inv_failRun)
  next
    case None
    note res = this
    show ?thesis
    proof (cases "pf_apply f")
      case (Some m)
      obtain res1 db1 where J: "InsertVersion (pf_failed f) now (v\<lparr>vs_state := ''failed''\<rparr>) db = (res1, db1)" by fastforce
      have "pub_inv (w\<lparr>pw_db := db1\<rparr>)"
        using pub_inv_Insert(1) [OF S1(1), of "pf_failed f" now "v\<lparr>vs_state := ''failed''\<rparr>" res1 db1 s] J S1(2) snap
        by (simp add: visible_def)
      with I J res Some show ?thesis by (simp add: deliver_version_def Let_def pub_inv_failRun)
    next
      case None
      let ?w1 = "w\<lparr>pw_db := db, pw_applied := vs_irVersion v # pw_applied w\<rparr>"
      have w1: "pub_inv ?w1" using pub_inv_apply [OF S1(1), of "vs_irVersion v"] by simp
      obtain res1 db1 where J: "InsertVersion (pf_confirming f) now (v\<lparr>vs_state := ''confirming''\<rparr>) db = (res1, db1)" by fastforce
      have S2: "pub_inv (?w1\<lparr>pw_db := db1\<rparr>)"
        "res1 = None \<Longrightarrow> \<exists>v0. GetVersion (vs_seq v) db1 = Some v0 \<and> visible v0 \<and> vs_irVersion v0 = vs_irVersion v"
        using pub_inv_Insert(1,3) [OF w1, of "pf_confirming f" now "v\<lparr>vs_state := ''confirming''\<rparr>" res1 db1 s] J S1(2) snap
        by (simp_all add: visible_def)
      show ?thesis
      proof (cases res1)
        case (Some e)
        with I J res None S2(1) show ?thesis by (simp add: deliver_version_def Let_def pub_inv_failRun)
      next
        case done1: None
        obtain res2 db2 where U: "UpdatePublishRun (pf_run f) now (run\<lparr>pr_state := ''CONFIRMING'', pr_updatedAt := now\<rparr>) db1 = (res2, db2)"
          by fastforce
        have "delivered db1 (vs_irVersion v # pw_applied w) (pr_versionSeq run)"
          using S2(2) [OF done1] run by (auto simp: delivered_def)
        then have w2: "pub_inv (?w1\<lparr>pw_db := db2\<rparr>)"
          using pub_inv_Update(1) [OF S2(1), of "pf_run f" now "run\<lparr>pr_state := ''CONFIRMING'', pr_updatedAt := now\<rparr>" res2 db2] U
          by simp
        from pub_inv_expect [OF this, of "vs_irVersion v"] this I J U res None done1 show ?thesis
          by (cases res2) (simp_all add: deliver_version_def Let_def)
      qed
    qed
  qed
qed

lemma record_diff_keeps:
  assumes "pub_inv w" and "\<not> awaiting (pr_state run)" and "record_diff f now parent seq run w = (res, run', w')"
  shows "pub_inv w' \<and> pw_snaps w' = pw_snaps w \<and> pr_versionSeq run' = pr_versionSeq run \<and>
     GetVersion n (pw_db w') = GetVersion n (pw_db w)"
proof (cases "0 < parent")
  case True
  show ?thesis
  proof (cases "DiffSnapshots (pw_snaps w) parent seq")
    case (Inr sd)
    let ?run = "run\<lparr>pr_diffJSON := go_marshal (diff_json sd), pr_updatedAt := now\<rparr>"
    obtain r db where U: "UpdatePublishRun (pf_diff f) now ?run (pw_db w) = (r, db)" by fastforce
    note pub_inv_Update [OF assms(1) U]
    with U Inr True assms(2,3) show ?thesis by (auto simp: record_diff_def Let_def)
  qed (use True assms in \<open>auto simp: record_diff_def\<close>)
qed (use assms in \<open>auto simp: record_diff_def\<close>)

lemma pub_inv_numbered:
  assumes w: "pub_inv w" and reserved: "GetVersion seq (pw_db w) = Some old" "\<not> visible old"
    and run: "pr_versionSeq run = seq" "\<not> awaiting (pr_state run)"
  shows "pub_inv (snd (publish_numbered E f now author msg v seq parent rollbackOf run w))"
proof (cases rule: Snapshot_cases [of "pf_snapshot f" "pw_dir w" seq "publish_meta E now author msg v seq parent rollbackOf" "pw_snaps w"])
  case (fails e)
  with w show ?thesis by (simp add: publish_numbered_def pub_inv_failRun)
next
  case (taken fs)
  let ?meta = "publish_meta E now author msg v seq parent rollbackOf"
  let ?s = "\<lparr>sn_config = (if fs = [] then None else Some (copied fs)), sn_meta = ?meta\<rparr>"
  let ?w = "w\<lparr>pw_snaps := (pw_snaps w)(seq \<mapsto> ?s)\<rparr>"
  have w1: "pub_inv ?w"
    using w linked_snapshot [OF _ reserved] by (simp add: pub_inv_def)
  obtain res run1 w2 where R: "record_diff f now parent seq run ?w = (res, run1, w2)"
    by (metis prod_cases3)
  have K: "pub_inv w2" "pw_snaps w2 = pw_snaps ?w" "pr_versionSeq run1 = seq" "GetVersion seq (pw_db w2) = Some old"
    using record_diff_keeps [OF w1 run(2) R, of seq] run(1) reserved by simp_all
  show ?thesis
  proof (cases res)
    case (Some e)
    with taken(4) R K(1) show ?thesis by (simp add: publish_numbered_def Let_def pub_inv_failRun)
  next
    case None
    have "pub_inv (snd (deliver_version E f now (publish_version E now author msg v seq parent rollbackOf) run1 w2))"
      using K reserved(2) by (intro pub_inv_deliver [where s = ?s]) (simp_all add: publish_version_def publish_meta_def)
    with taken(4) R None show ?thesis by (simp add: publish_numbered_def)
  qed
qed

lemma pub_inv_compiled:
  assumes w: "pub_inv w"
  shows "pub_inv (snd (publish_compiled E f now author msg v rollbackOf run w))"
proof -
  let ?run = "run\<lparr>pr_state := ''VALIDATED'', pr_updatedAt := now\<rparr>"
  obtain res db where U: "UpdatePublishRun (pf_validated f) now ?run (pw_db w) = (res, db)" by fastforce
  have w1: "pub_inv (w\<lparr>pw_db := db\<rparr>)" using pub_inv_Update(1) [OF w U] by simp
  show ?thesis
  proof (cases "res = None \<and> pf_parent f = None")
    case False
    with U w1 show ?thesis
      by (cases res; cases "pf_parent f") (simp_all add: publish_compiled_def Let_def pub_inv_failRun)
  next
    case ok: True
    show ?thesis
    proof (cases rule: NextVersionSeq_effect [of "pf_seq f" now db])
      case (fails e)
      with ok U w1 show ?thesis by (simp add: publish_compiled_def Let_def pub_inv_failRun)
    next
      case writes
      let ?seq = "next_seq db"
      let ?db = "put_version (reserved_version ?seq now) db"
      let ?run2 = "?run\<lparr>pr_versionSeq := ?seq, pr_state := ''PUBLISHING'', pr_updatedAt := now\<rparr>"
      have w2: "pub_inv (w\<lparr>pw_db := ?db\<rparr>)"
        using w1 linked_reserve [OF _ writes(2)] vdb_inv_NextVersionSeq [of db "pf_seq f" now] writes(1)
        by (simp add: pub_inv_def)
      have row: "GetVersion ?seq ?db = Some (reserved_version ?seq now)"
        using version_rows.lookup_same [of "reserved_version ?seq now" db] by (simp add: reserved_version_def)
      obtain res2 db2 where U2: "UpdatePublishRun (pf_publishing f) now ?run2 ?db = (res2, db2)" by fastforce
      have w3: "pub_inv (w\<lparr>pw_db := db2\<rparr>)" "GetVersion ?seq db2 = Some (reserved_version ?seq now)"
        using pub_inv_Update [OF w2, of "pf_publishing f" now ?run2 res2 db2] U2 row by simp_all
      have "pub_inv (snd (publish_numbered E f now author msg v ?seq parent rollbackOf ?run2 (w\<lparr>pw_db := db2\<rparr>)))" for parent
        by (rule pub_inv_numbered [OF w3(1), where old = "reserved_version ?seq now"]) (simp_all add: w3(2) reserved_invisible)
      with U U2 ok writes w3(1) show ?thesis by (cases res2) (simp_all add: publish_compiled_def Let_def)
    qed
  qed
qed

lemma pub_inv_dir: "pub_inv (w\<lparr>pw_dir := d\<rparr>) = pub_inv w"
  by (simp add: pub_inv_def)

lemma pub_inv_publish:
  assumes w: "pub_inv w"
  shows "pub_inv (snd (publishWithBaseLocked E f now author msg baseHash rollbackOf w))"
proof -
  obtain r d where L: "LoadDraft (pe_loaders E) (pw_dir w) = (r, d)" by fastforce
  show ?thesis
  proof (cases r)
    case (Inl e)
    with L w show ?thesis by (simp add: publishWithBaseLocked_def pub_inv_dir)
  next
    case (Inr dr)
    show ?thesis
    proof (cases "baseHash \<noteq> [] \<and> baseHash \<noteq> dr_hash dr")
      case True
      with L Inr w show ?thesis by (simp add: publishWithBaseLocked_def pub_inv_dir)
    next
      case False
      obtain r2 db where C: "CreatePublishRun (pf_create f) now (new_run author (dr_hash dr)) (pw_db w) = (r2, db)" by fastforce
      have db: "pub_inv (w\<lparr>pw_dir := d, pw_db := db\<rparr>)"
        using w C linked_Create [of "pw_db w" "pw_snaps w" "pw_applied w" "new_run author (dr_hash dr)" "pf_create f" now]
          vdb_inv_CreatePublishRun [of "pw_db w" "pf_create f" now "new_run author (dr_hash dr)"]
        by (simp add: pub_inv_def new_run_def)
      show ?thesis
      proof (cases r2)
        case (Inl e)
        with False C L \<open>r = Inr dr\<close> db show ?thesis by (auto simp: publishWithBaseLocked_def Let_def)
      next
        case (Inr i)
        note r2 = this
        show ?thesis
        proof (cases "draft_output E dr d")
          case (Inl c)
          with False C L \<open>r = Inr dr\<close> r2 db show ?thesis
            by (cases c) (auto simp: publishWithBaseLocked_def Let_def pub_inv_failRun)
        next
          case (Inr out)
          with False C L \<open>r = Inr dr\<close> r2 db show ?thesis
            by (cases out) (auto simp: publishWithBaseLocked_def Let_def pub_inv_compiled)
        qed
      qed
    qed
  qed
qed

subsection \<open>Confirmation and rollback keep it\<close>

lemma GetVersion_seq: "GetVersion n db = Some v \<Longrightarrow> vs_seq v = n"
  using row_get_SomeD [of vs_seq n "db_versions db" v] by (simp add: GetVersion_def)

lemma GetPublishRun_id: "GetPublishRun i db = Some r \<Longrightarrow> pr_id r = i"
  using row_get_SomeD [of pr_id i "db_runs db" r] by (simp add: GetPublishRun_def)

lemma pub_inv_Transition:
  assumes w: "pub_inv w" and vst: "vst \<noteq> ''RESERVED''" "vst = ''effective'' \<longrightarrow> super"
    and irv: "\<And>v. vst = ''effective'' \<or> awaiting rst \<Longrightarrow> GetVersion n (pw_db w) = Some v \<Longrightarrow>
       vs_irVersion v \<in> set (pw_applied w)"
    and res: "TransitionPublish fault now i n rst vst super (pw_db w) = (res, db)"
  shows "pub_inv (w\<lparr>pw_db := db\<rparr>)"
proof -
  have "vdb_inv (pw_db w)" "linked (pw_db w) (pw_snaps w) (pw_applied w)" using w by (simp_all add: pub_inv_def)
  from linked_Transition [OF this vst(1), of rst n fault now i super] vdb_inv_TransitionPublish [OF this(1) vst(2)]
  show ?thesis using w irv res by (auto simp: pub_inv_def dest: spec [of _ fault]) (metis snd_conv)+
qed

lemma pub_inv_confirmLocked:
  assumes w: "pub_inv w" and v: "GetVersion n (pw_db w) = Some v" "vs_irVersion v \<in> set (pw_applied w)"
    and res: "confirmLocked fault now run v observed (pw_db w) = (res, db)"
  shows "pub_inv (w\<lparr>pw_db := db\<rparr>)"
proof (cases "observed = vs_irVersion v")
  case True
  obtain r db' where T: "TransitionPublish fault now (pr_id run) (vs_seq v) ''EFFECTIVE'' ''effective'' True (pw_db w) = (r, db')"
    by fastforce
  with res True have "db = db'" by (simp add: confirmLocked_def)
  moreover have "pub_inv (w\<lparr>pw_db := db'\<rparr>)"
    by (rule pub_inv_Transition [OF w _ _ _ T]) (use v GetVersion_seq in auto)
  ultimately show ?thesis by simp
qed (use w res in \<open>auto simp: confirmLocked_def pub_inv_def\<close>)

lemma pub_inv_Confirm: "pub_inv w \<Longrightarrow> pub_inv (snd (Confirm fault now i observed w))"
proof -
  assume w: "pub_inv w"
  show ?thesis
  proof (cases "\<exists>run v. GetPublishRun i (pw_db w) = Some run \<and> pr_state run = ''CONFIRMING'' \<and>
      GetVersion (pr_versionSeq run) (pw_db w) = Some v")
    case True
    then obtain run v where r: "GetPublishRun i (pw_db w) = Some run" "pr_state run = ''CONFIRMING''"
      "GetVersion (pr_versionSeq run) (pw_db w) = Some v" by blast
    have "delivered (pw_db w) (pw_applied w) (pr_versionSeq run)"
      using w r(1,2) by (auto simp: pub_inv_def linked_def)
    then have "vs_irVersion v \<in> set (pw_applied w)" using r(3) by (auto simp: delivered_def)
    moreover obtain res db where "confirmLocked fault now run v observed (pw_db w) = (res, db)" by fastforce
    ultimately show ?thesis
      using pub_inv_confirmLocked [OF w r(3)] r by (simp add: Confirm_def)
  next
    case False
    then have "snd (Confirm fault now i observed w) = w"
      by (auto simp: Confirm_def split: option.splits)
    with w show ?thesis by simp
  qed
qed

lemma confirm_runs_keeps:
  assumes w: "pub_inv w" and e: "ev_expected e \<in> set (pw_applied w)"
    and res: "confirm_runs fault now e runs (pw_db w) = (res, db)"
  shows "pub_inv (w\<lparr>pw_db := db\<rparr>)"
  using res
proof (induction runs)
  case Nil
  with w show ?case by (auto simp: pub_inv_def)
next
  case (Cons run runs)
  show ?case
  proof (cases "GetVersion (pr_versionSeq run) (pw_db w)")
    case None
    with Cons show ?thesis by simp
  next
    case (Some v)
    show ?thesis
    proof (cases "vs_irVersion v = ev_expected e")
      case True
      then have v: "vs_irVersion v \<in> set (pw_applied w)" using e by simp
      obtain r db' where T: "TransitionPublish fault now (pr_id run) (vs_seq v) ''TIMEOUT'' ''timeout'' False (pw_db w) = (r, db')"
        by fastforce
      have "pub_inv (w\<lparr>pw_db := db'\<rparr>)"
        by (rule pub_inv_Transition [OF w _ _ _ T]) (use Some v GetVersion_seq in auto)
      with Cons.prems Some True T pub_inv_confirmLocked [OF w Some v] show ?thesis
        by (auto split: if_splits)
    next
      case False
      with Some Cons show ?thesis by simp
    qed
  qed
qed

lemma pub_inv_handle:
  assumes "pub_inv w" and "ev_expected e \<in> set (pw_applied w)"
  shows "pub_inv (snd (handleConfirmEvent rf fault now e w))"
proof -
  obtain res db where "confirm_runs fault now e (ActivePublishRuns (pw_db w)) (pw_db w) = (res, db)" by fastforce
  with confirm_runs_keeps [OF assms this] assms(1) show ?thesis
    by (cases rf) (simp_all add: handleConfirmEvent_def)
qed

lemma pub_inv_Recheck: "pub_inv w \<Longrightarrow> pub_inv (snd (Recheck E fault now i w))"
proof -
  assume w: "pub_inv w"
  show ?thesis
  proof (cases "\<exists>run v. GetPublishRun i (pw_db w) = Some run \<and> pr_state run = ''TIMEOUT'' \<and>
      GetVersion (pr_versionSeq run) (pw_db w) = Some v")
    case True
    then obtain run v where r: "GetPublishRun i (pw_db w) = Some run" "pr_state run = ''TIMEOUT''"
      "GetVersion (pr_versionSeq run) (pw_db w) = Some v" by blast
    have "delivered (pw_db w) (pw_applied w) (pr_versionSeq run)"
      using w r(1,2) by (auto simp: pub_inv_def linked_def)
    then have v: "vs_irVersion v \<in> set (pw_applied w)" using r(3) by (auto simp: delivered_def)
    obtain res db where T: "TransitionPublish fault now (pr_id run) (vs_seq v) ''CONFIRMING'' ''confirming'' False (pw_db w) = (res, db)"
      by fastforce
    have w': "pub_inv (w\<lparr>pw_db := db\<rparr>)"
      by (rule pub_inv_Transition [OF w _ _ _ T]) (use v r(3) GetVersion_seq in auto)
    from this pub_inv_expect [OF w', of "vs_irVersion v"] v r T show ?thesis
      by (cases res) (simp_all add: Recheck_def)
  next
    case False
    then have "snd (Recheck E fault now i w) = w"
      by (auto simp: Recheck_def split: option.splits)
    with w show ?thesis by simp
  qed
qed

lemma pub_inv_rollback: "pub_inv w \<Longrightarrow> pub_inv (snd (RollbackPublish E sf cf f now seq author msg force w))"
  by (auto simp: RollbackPublish_def pub_inv_dir pub_inv_publish split: prod.splits option.splits sum.splits)

end
