(* ===== verification/PublishFlow.thy ===== *)
theory PublishFlow
  imports PublishInv
begin

text \<open>
  The publisher as a state machine: the steps the management server can take, the states they
  reach, what holds in all of them, how a publish ends, and when it never does.
\<close>

section \<open>Steps\<close>

text \<open>
  What the running server does: the draft is changed, a publish or a rollback is requested, the
  source of a version is read, the state collector polls, an event is taken from the channel, and
  the process is restarted, which delivers a version of its own and starts with an empty collector.
\<close>

inductive server_step :: "pub_world \<Rightarrow> pub_world \<Rightarrow> bool" where
  edit: "server_step w (w\<lparr>pw_dir := d\<rparr>)"
| publish: "server_step w (snd (PublishWithBase E f now author msg base w))"
| rollback: "server_step w (snd (RollbackPublish E sf cf f now seq author msg force w))"
| read_source: "pw_snaps w n = Some s \<Longrightarrow>
     server_step w (w\<lparr>pw_snaps := (pw_snaps w)(n \<mapsto> s\<lparr>sn_config := Some d\<rparr>)\<rparr>)"
| poll: "server_step w (w\<lparr>pw_state := refresh_version obs now (pw_state w)\<rparr>)"
| event: "ss_events (pw_state w) = e # es \<Longrightarrow>
     server_step w (snd (handleConfirmEvent rf tf now e (w\<lparr>pw_state := (pw_state w)\<lparr>ss_events := es\<rparr>\<rparr>)))"
| restart: "server_step w (w\<lparr>pw_state := new_state_service, pw_applied := v # pw_applied w\<rparr>)"

text \<open>With the operations the publisher offers but the server does not use.\<close>

inductive pub_step :: "pub_world \<Rightarrow> pub_world \<Rightarrow> bool" where
  server: "server_step w w' \<Longrightarrow> pub_step w w'"
| confirm: "pub_step w (snd (Confirm fault now i observed w))"
| recheck: "pub_step w (snd (Recheck E fault now i w))"

definition first_world :: "data_dir \<Rightarrow> pub_world" where
  "first_world d = \<lparr>pw_dir = d, pw_snaps = Map.empty, pw_db = empty_vdb, pw_applied = [], pw_state = new_state_service\<rparr>"

inductive pub_reachable :: "pub_world \<Rightarrow> bool" where
  first: "pub_reachable (first_world d)"
| step: "pub_reachable w \<Longrightarrow> pub_step w w' \<Longrightarrow> pub_reachable w'"

section \<open>The invariant holds in all reachable states\<close>

lemma pub_inv_first: "pub_inv (first_world d)"
  using vdb_inv_empty
  by (simp add: pub_inv_def first_world_def linked_def expects_def empty_vdb_def GetVersion_def
      GetPublishRun_def row_get_def new_state_service_def)

lemma linked_same_meta:
  assumes l: "linked db snaps ap" and s: "snaps n = Some s" "sn_meta t = sn_meta s"
  shows "linked db (snaps(n \<mapsto> t)) ap"
proof -
  have "\<exists>u. (snaps(n \<mapsto> t)) k = Some u \<and> sm_irVersion (sn_meta u) = vs_irVersion v"
    if v: "GetVersion k db = Some v" "visible v" for k v
  proof -
    obtain u where "snaps k = Some u" "sm_irVersion (sn_meta u) = vs_irVersion v"
      using l v unfolding linked_def by blast
    with s show ?thesis by (cases "k = n") auto
  qed
  moreover have "GetVersion k db \<noteq> None" if "(snaps(n \<mapsto> t)) k \<noteq> None" for k
    using l s(1) that unfolding linked_def by (metis fun_upd_other option.distinct(1))
  ultimately show ?thesis using l unfolding linked_def by blast
qed

lemma pub_inv_read_source:
  assumes "pub_inv w" and "pw_snaps w n = Some s"
  shows "pub_inv (w\<lparr>pw_snaps := (pw_snaps w)(n \<mapsto> s\<lparr>sn_config := Some d\<rparr>)\<rparr>)"
  using assms linked_same_meta [of "pw_db w" "pw_snaps w" "pw_applied w" n s "s\<lparr>sn_config := Some d\<rparr>"]
  by (simp add: pub_inv_def)

lemma pub_inv_server: "server_step w w' \<Longrightarrow> pub_inv w \<Longrightarrow> pub_inv w'"
proof (induction rule: server_step.induct)
  case (event w e es rf tf now)
  then have "pub_inv (w\<lparr>pw_state := (pw_state w)\<lparr>ss_events := es\<rparr>\<rparr>)" "ev_expected e \<in> set (pw_applied w)"
    by (simp_all add: pub_inv_def expects_def)
  then show ?case by (intro pub_inv_handle) simp_all
next
  case (read_source w n s d)
  then show ?case by (intro pub_inv_read_source)
next
  case (poll w obs now)
  then show ?case by (simp add: pub_inv_def expects_refresh)
next
  case (restart w v)
  then show ?case by (simp add: pub_inv_def linked_apply expects_def new_state_service_def)
qed (simp_all add: pub_inv_dir pub_inv_publish PublishWithBase_def pub_inv_rollback)

lemma pub_inv_step: "pub_step w w' \<Longrightarrow> pub_inv w \<Longrightarrow> pub_inv w'"
  by (induction rule: pub_step.induct) (simp_all add: pub_inv_server pub_inv_Confirm pub_inv_Recheck)

lemma reachable_inv: "pub_reachable w \<Longrightarrow> pub_inv w"
  by (induction rule: pub_reachable.induct) (auto simp: pub_inv_first pub_inv_step)

lemma at_most_one:
  assumes "distinct (map k xs)" and "\<And>x y. x \<in> set xs \<Longrightarrow> y \<in> set xs \<Longrightarrow> p x \<Longrightarrow> p y \<Longrightarrow> x = y"
  shows "length (filter p xs) \<le> 1"
  using assms
proof (induction xs)
  case (Cons x xs)
  have "length (filter p xs) \<le> 1" using Cons by simp
  moreover have "filter p xs = []" if "p x"
    using Cons.prems that by (force simp: filter_empty_conv)
  ultimately show ?case by auto
qed simp

text \<open>
  C2: the publish state in every reachable state, whatever statement, file operation or delivery
  failed on the way and however often the server was restarted.  At most one run is active, at
  most one version is effective, a version that is effective has been accepted by the deliverer,
  and every version that is listed has its snapshot, made of the same compiled version.
\<close>

theorem reachable_publish_state:
  assumes "pub_reachable w"
  shows "length (ActivePublishRuns (pw_db w)) \<le> 1 \<and>
     length (filter (\<lambda>v. vs_state v = ''effective'') (db_versions (pw_db w))) \<le> 1 \<and>
     (\<forall>v \<in> set (db_versions (pw_db w)). vs_state v = ''effective'' \<longrightarrow> vs_irVersion v \<in> set (pw_applied w)) \<and>
     (\<forall>v \<in> set (db_versions (pw_db w)). visible v \<longrightarrow>
        (\<exists>s. pw_snaps w (vs_seq v) = Some s \<and> sm_irVersion (sn_meta s) = vs_irVersion v))"
proof -
  have inv: "vdb_wf (pw_db w)" "one_active (pw_db w)" "one_effective (pw_db w)"
    and l: "linked (pw_db w) (pw_snaps w) (pw_applied w)"
    using reachable_inv [OF assms] by (simp_all add: pub_inv_def vdb_inv_def)
  have get: "GetVersion (vs_seq v) (pw_db w) = Some v" if "v \<in> set (db_versions (pw_db w))" for v
    using inv(1) that by (simp add: GetVersion_def vdb_wf_def row_get_in)
  have "length (ActivePublishRuns (pw_db w)) \<le> 1"
    using inv(1,2) at_most_one [of pr_id "db_runs (pw_db w)" run_active]
    by (simp add: ActivePublishRuns_def vdb_wf_def one_active_def)
  moreover have "length (filter (\<lambda>v. vs_state v = ''effective'') (db_versions (pw_db w))) \<le> 1"
    using inv(1,3) by (intro at_most_one [of vs_seq]) (auto simp: vdb_wf_def one_effective_def)
  ultimately show ?thesis using get l unfolding linked_def by blast
qed

section \<open>A publish that goes through\<close>

text \<open>Environment and faults for examples: a compiler that always succeeds, and nothing that fails.\<close>

definition demo_compiler :: compiler where
  "demo_compiler = \<lparr>compile_ir = (\<lambda>_ fs. (Some (''ir'' @ string_of_nat (length fs)), [])), envoy_check = (\<lambda>_. None)\<rparr>"

definition demo_pub_env :: publish_env where
  "demo_pub_env = \<lparr>pe_loaders = demo_loaders, pe_compiler = demo_compiler, pe_mode = ''xds'', pe_stats = (\<lambda>_. [(''listeners'', 1)]),
     pe_confirmTimeout = 0\<rparr>"

definition no_publish_faults :: publish_faults where
  "no_publish_faults = \<lparr>pf_create = None, pf_validated = None, pf_parent = None, pf_seq = None, pf_publishing = None,
     pf_snapshot = \<lparr>sn_prepare = None, sn_write = None\<rparr>, pf_diff = None, pf_record = None, pf_apply = None, pf_failed = None,
     pf_confirming = None, pf_run = None, pf_fail = None\<rparr>"

definition demo_published :: pub_world where
  "demo_published = snd (PublishWithBase demo_pub_env no_publish_faults 10 ''admin'' ''first'' [] (first_world demo_dir))"

lemma demo_pub_reachable: "pub_reachable demo_published"
  unfolding demo_published_def by (intro pub_reachable.step [OF pub_reachable.first [of demo_dir]] pub_step.server server_step.publish)

theorem reachable_publish_state_witness:
  "length (ActivePublishRuns (pw_db demo_published)) \<le> 1"
proof -
  from reachable_publish_state [OF demo_pub_reachable] show ?thesis by blast
qed

text \<open>What a run and its version look like while their confirmation is awaited.\<close>

definition awaits_confirmation :: "publish_result \<Rightarrow> version_db \<Rightarrow> bool" where
  "awaits_confirmation res db \<longleftrightarrow>
     (\<exists>r. GetPublishRun (rs_runID res) db = Some r \<and> pr_state r = ''CONFIRMING'' \<and> pr_versionSeq r = rs_seq res) \<and>
     (\<exists>v. GetVersion (rs_seq res) db = Some v \<and> vs_state v = ''confirming'' \<and> vs_irVersion v = rs_irVersion res)"

definition recorded :: "string \<Rightarrow> string \<Rightarrow> publish_result \<Rightarrow> version_db \<Rightarrow> bool" where
  "recorded author msg res db \<longleftrightarrow> (\<exists>v. GetVersion (rs_seq res) db = Some v \<and> vs_author v = author \<and> vs_message v = msg)"

lemma Update_writes:
  assumes "UpdatePublishRun fault now r db = (None, db')" and "GetPublishRun (pr_id r) db \<noteq> None"
  shows "\<exists>r'. db' = put_run r' db \<and> pr_id r' = pr_id r \<and> pr_state r' = pr_state r \<and> pr_versionSeq r' = pr_versionSeq r"
  using assms by (auto simp: UpdatePublishRun_def GetPublishRun_def Let_def split: if_splits option.splits)

lemma Update_keeps_row:
  "UpdatePublishRun fault now r db = (res, db') \<Longrightarrow> GetPublishRun i db \<noteq> None \<Longrightarrow> GetPublishRun i db' \<noteq> None"
  by (cases rule: UpdatePublishRun_effect [of fault now r db]) (auto simp: run_rows.lookup_upsert)

lemma deliver_success:
  assumes ok: "deliver_version E f now v run w = ((res, None), w')"
    and run: "GetPublishRun (pr_id run) (pw_db w) \<noteq> None" "pr_versionSeq run = vs_seq v"
  shows "awaits_confirmation res (pw_db w') \<and> recorded (vs_author v) (vs_message v) res (pw_db w') \<and> rs_seq res = vs_seq v \<and> rs_irVersion res = vs_irVersion v \<and>
     rs_runID res = pr_id run \<and> pw_snaps w' = pw_snaps w \<and> pw_applied w' = vs_irVersion v # pw_applied w \<and>
     pw_state w' = ExpectVersion (vs_irVersion v) (if pe_confirmTimeout E \<le> 0 then 30 * second else pe_confirmTimeout E) now (pw_state w)"
proof -
  obtain r1 db1 where I: "InsertVersion (pf_record f) now v (pw_db w) = (r1, db1)" by fastforce
  then have r1: "r1 = None" and ap: "pf_apply f = None"
    using ok by (auto simp: deliver_version_def Let_def refused_def split: option.splits prod.splits)
  obtain r2 db2 where J: "InsertVersion (pf_confirming f) now (v\<lparr>vs_state := ''confirming''\<rparr>) db1 = (r2, db2)" by fastforce
  then have r2: "r2 = None"
    using ok I r1 ap by (auto simp: deliver_version_def Let_def refused_def split: option.splits prod.splits)
  let ?run = "run\<lparr>pr_state := ''CONFIRMING'', pr_updatedAt := now\<rparr>"
  obtain r3 db3 where U: "UpdatePublishRun (pf_run f) now ?run db2 = (r3, db3)" by fastforce
  then have r3: "r3 = None"
    using ok I r1 ap J r2 by (auto simp: deliver_version_def Let_def refused_def split: option.splits)
  from J r2 obtain v' where v': "db2 = put_version v' db1" "vs_seq v' = vs_seq v" "vs_state v' = ''confirming''"
    "vs_irVersion v' = vs_irVersion v" "vs_author v' = vs_author v" "vs_message v' = vs_message v"
    by (cases rule: InsertVersion_effect [of "pf_confirming f" now "v\<lparr>vs_state := ''confirming''\<rparr>" db1]) auto
  from I r1 obtain v1 where v1: "db1 = put_version v1 (pw_db w)"
    by (cases rule: InsertVersion_effect [of "pf_record f" now v "pw_db w"]) auto
  have "GetPublishRun (pr_id ?run) db2 \<noteq> None" using run(1) by (simp add: v'(1) v1)
  then obtain r where r: "db3 = put_run r db2" "pr_id r = pr_id run" "pr_state r = ''CONFIRMING''" "pr_versionSeq r = vs_seq v"
    using Update_writes [of "pf_run f" now ?run db2 db3] U r3 run(2) by auto
  have "GetVersion (vs_seq v) db3 = Some v'"
    using version_rows.lookup_same [of v' db1] by (simp add: r(1) v')
  moreover have "GetPublishRun (pr_id run) db3 = Some r"
    using run_rows.lookup_same [of r db2] by (simp add: r)
  ultimately show ?thesis
    using ok I r1 ap J r2 U r3 r v' by (auto simp: deliver_version_def Let_def awaits_confirmation_def recorded_def)
qed

text \<open>Where a publish has got to, with the state it started from: the run and its version, the
  delivery, the expectation, and the snapshot of the draft's files.\<close>

definition confirm_after :: "publish_env \<Rightarrow> time" where
  "confirm_after E = (if pe_confirmTimeout E \<le> 0 then 30 * second else pe_confirmTimeout E)"

definition published :: "publish_env \<Rightarrow> time \<Rightarrow> int \<Rightarrow> pub_world \<Rightarrow> publish_result \<Rightarrow> pub_world \<Rightarrow> bool" where
  "published E now rollbackOf w res w' \<longleftrightarrow>
     awaits_confirmation res (pw_db w') \<and> pw_applied w' = rs_irVersion res # pw_applied w \<and>
     pw_state w' = ExpectVersion (rs_irVersion res) (confirm_after E) now (pw_state w) \<and>
     (\<exists>fs s. sourceFiles (pw_dir w) = Inr fs \<and> pw_snaps w (rs_seq res) = None \<and> pw_snaps w' = (pw_snaps w)(rs_seq res \<mapsto> s) \<and>
        sn_config s = (if fs = [] then None else Some (copied fs)) \<and> sm_irVersion (sn_meta s) = rs_irVersion res \<and>
        sm_rollbackOf (sn_meta s) = rollbackOf)"

lemma published_db [simp]: "published E now rollbackOf (w\<lparr>pw_db := db\<rparr>) res w' = published E now rollbackOf w res w'"
  by (simp add: published_def)

lemma record_diff_frame:
  assumes "record_diff f now parent seq run w = (res, run', w')" and "GetPublishRun (pr_id run) (pw_db w) \<noteq> None"
  shows "pw_snaps w' = pw_snaps w \<and> pw_applied w' = pw_applied w \<and> pw_state w' = pw_state w \<and> pw_dir w' = pw_dir w \<and>
     pr_id run' = pr_id run \<and> pr_versionSeq run' = pr_versionSeq run \<and> GetPublishRun (pr_id run) (pw_db w') \<noteq> None"
  using assms Update_keeps_row
  by (auto simp: record_diff_def Let_def split: if_splits sum.splits prod.splits)

lemma numbered_success:
  assumes ok: "publish_numbered E f now author msg v seq parent rollbackOf run w = ((res, None), w')"
    and run: "GetPublishRun (pr_id run) (pw_db w) \<noteq> None" "pr_versionSeq run = seq"
  shows "published E now rollbackOf w res w' \<and> recorded author msg res (pw_db w') \<and> rs_irVersion res = v \<and> rs_seq res = seq \<and> rs_runID res = pr_id run"
proof (cases rule: Snapshot_cases [of "pf_snapshot f" "pw_dir w" seq "publish_meta E now author msg v seq parent rollbackOf" "pw_snaps w"])
  case (fails e)
  with ok show ?thesis by (simp add: publish_numbered_def refused_def)
next
  case (taken fs)
  let ?s = "\<lparr>sn_config = (if fs = [] then None else Some (copied fs)), sn_meta = publish_meta E now author msg v seq parent rollbackOf\<rparr>"
  let ?w = "w\<lparr>pw_snaps := (pw_snaps w)(seq \<mapsto> ?s)\<rparr>"
  let ?v = "publish_version E now author msg v seq parent rollbackOf"
  obtain res1 run1 w1 where R: "record_diff f now parent seq run ?w = (res1, run1, w1)" by (metis prod_cases3)
  have K: "pw_snaps w1 = pw_snaps ?w" "pw_applied w1 = pw_applied w" "pw_state w1 = pw_state w" "pr_id run1 = pr_id run"
    "pr_versionSeq run1 = seq" "GetPublishRun (pr_id run1) (pw_db w1) \<noteq> None"
    using record_diff_frame [OF R] run by simp_all
  have "res1 = None" using ok taken(4) R by (auto simp: publish_numbered_def Let_def refused_def split: option.splits)
  then have "deliver_version E f now ?v run1 w1 = ((res, None), w')"
    using ok taken(4) R by (simp add: publish_numbered_def)
  from deliver_success [OF this K(6)] K taken(2,3) show ?thesis
    by (auto simp: published_def publish_version_def confirm_after_def publish_meta_def)
qed

lemma compiled_success:
  assumes ok: "publish_compiled E f now author msg v rollbackOf run w = ((res, None), w')"
    and run: "GetPublishRun (pr_id run) (pw_db w) \<noteq> None"
  shows "published E now rollbackOf w res w' \<and> recorded author msg res (pw_db w') \<and> rs_irVersion res = v \<and> rs_runID res = pr_id run"
proof -
  let ?run = "run\<lparr>pr_state := ''VALIDATED'', pr_updatedAt := now\<rparr>"
  obtain r1 db where U: "UpdatePublishRun (pf_validated f) now ?run (pw_db w) = (r1, db)" by fastforce
  then have r1: "r1 = None" "pf_parent f = None"
    using ok by (auto simp: publish_compiled_def Let_def refused_def split: option.splits)
  have row: "GetPublishRun (pr_id run) db \<noteq> None" using Update_keeps_row [OF U run] .
  show ?thesis
  proof (cases rule: NextVersionSeq_effect [of "pf_seq f" now db])
    case (fails e)
    with ok U r1 show ?thesis by (simp add: publish_compiled_def Let_def refused_def)
  next
    case writes
    let ?seq = "next_seq db"
    let ?db = "put_version (reserved_version ?seq now) db"
    let ?run2 = "?run\<lparr>pr_versionSeq := ?seq, pr_state := ''PUBLISHING'', pr_updatedAt := now\<rparr>"
    define parent where "parent = (case LatestVersion [] db of Some p \<Rightarrow> vs_seq p | None \<Rightarrow> 0)"
    obtain r2 db2 where U2: "UpdatePublishRun (pf_publishing f) now ?run2 ?db = (r2, db2)" by fastforce
    then have r2: "r2 = None"
      using ok U r1 writes(1) by (auto simp: publish_compiled_def Let_def refused_def split: option.splits)
    have "GetPublishRun (pr_id ?run2) db2 \<noteq> None" using Update_keeps_row [OF U2] row by simp
    moreover have "publish_numbered E f now author msg v ?seq parent rollbackOf ?run2 (w\<lparr>pw_db := db2\<rparr>) = ((res, None), w')"
      using ok U r1 writes(1) U2 r2 by (simp add: publish_compiled_def Let_def parent_def)
    ultimately have "published E now rollbackOf (w\<lparr>pw_db := db2\<rparr>) res w' \<and> recorded author msg res (pw_db w') \<and> rs_irVersion res = v \<and> rs_runID res = pr_id run"
      using numbered_success [of E f now author msg v ?seq parent rollbackOf ?run2 "w\<lparr>pw_db := db2\<rparr>" res w'] by simp
    then show ?thesis by simp
  qed
qed

lemma publish_success:
  assumes ok: "publishWithBaseLocked E f now author msg baseHash rollbackOf w = ((res, None), w')" and inv: "vdb_inv (pw_db w)"
  shows "\<exists>dr d ej. LoadDraft (pe_loaders E) (pw_dir w) = (Inr dr, d) \<and> (baseHash = [] \<or> baseHash = dr_hash dr) \<and>
     draft_output E dr d = Inr (rs_irVersion res, ej) \<and> published E now rollbackOf (w\<lparr>pw_dir := d\<rparr>) res w' \<and> rs_runID res \<noteq> 0 \<and>
     recorded author msg res (pw_db w')"
proof -
  obtain r d where L: "LoadDraft (pe_loaders E) (pw_dir w) = (r, d)" by fastforce
  obtain dr where r: "r = Inr dr" "baseHash = [] \<or> baseHash = dr_hash dr"
    using ok L by (cases r) (auto simp: publishWithBaseLocked_def Let_def refused_def split: if_splits)
  let ?new = "new_run author (dr_hash dr)"
  from inv show ?thesis
  proof (cases rule: CreatePublishRun_effect [where fault = "pf_create f" and now = now and r = ?new])
    case (fails e)
    with ok L r show ?thesis by (auto simp: publishWithBaseLocked_def Let_def refused_def split: if_splits)
  next
    case (writes q i)
    let ?db = "(put_run q (pw_db w))\<lparr>db_lastRun := i\<rparr>"
    let ?w = "w\<lparr>pw_dir := d, pw_db := ?db\<rparr>"
    have row: "GetPublishRun i ?db \<noteq> None"
      using run_rows.lookup_same [of q "pw_db w"] writes(4) by simp
    have pos: "i \<noteq> 0"
    proof -
      have "i = db_lastRun (pw_db w) + 1"
        using writes(1) by (auto simp: CreatePublishRun_def Let_def split: option.splits if_splits)
      then show ?thesis using inv by (simp add: vdb_inv_def vdb_wf_def)
    qed
    obtain v ej where out: "draft_output E dr d = Inr (v, ej)"
      using ok L r writes(1) by (cases "draft_output E dr d")
        (auto simp: publishWithBaseLocked_def Let_def refused_def split: if_splits)
    have "publish_compiled E f now author msg v rollbackOf (?new\<lparr>pr_id := i, pr_errorsJSON := ej\<rparr>) ?w = ((res, None), w')"
      using ok L r writes(1) out by (auto simp: publishWithBaseLocked_def Let_def split: if_splits)
    from compiled_success [OF this] row have "published E now rollbackOf ?w res w' \<and> recorded author msg res (pw_db w') \<and> rs_irVersion res = v \<and> rs_runID res = i"
      by simp
    with L r out pos show ?thesis by auto
  qed
qed


section \<open>A publish goes through when nothing fails\<close>

text \<open>The run \<open>i\<close> is there, and no other one is active.\<close>

definition owns :: "int \<Rightarrow> version_db \<Rightarrow> bool" where
  "owns i db \<longleftrightarrow> 0 < i \<and> GetPublishRun i db \<noteq> None \<and> distinct (map pr_id (db_runs db)) \<and>
     (\<forall>q \<in> set (db_runs db). run_active q \<longrightarrow> pr_id q = i)"

lemma owns_versions [simp]: "owns i (db\<lparr>db_versions := vs\<rparr>) = owns i db"
  by (simp add: owns_def)

lemma owns_put_run:
  assumes "owns (pr_id r) db" shows "owns (pr_id r) (put_run r db)"
proof -
  have d: "distinct (map pr_id (db_runs db))" using assms by (simp add: owns_def)
  show ?thesis
    using assms distinct_row_put [OF d] run_rows.lookup_same [of r db] by (auto simp: owns_def set_row_put [OF d])
qed

lemma owns_Update:
  assumes "owns (pr_id r) db"
  shows "\<exists>db'. UpdatePublishRun None now r db = (None, db') \<and> owns (pr_id r) db'"
proof -
  obtain q where q: "row_get pr_id (pr_id r) (db_runs db) = Some q" using assms by (auto simp: owns_def GetPublishRun_def)
  let ?r = "if pr_updatedAt r = 0 then r\<lparr>pr_updatedAt := now\<rparr> else r"
  have "\<not> index_refuses q' db" if "pr_id q' = pr_id r" for q' using assms that by (auto simp: index_refuses_def owns_def)
  then have "\<not> index_refuses r db" "\<not> index_refuses (r\<lparr>pr_updatedAt := now\<rparr>) db" by simp_all
  then have "UpdatePublishRun None now r db = (None, put_run (?r\<lparr>pr_createdAt := pr_createdAt q\<rparr>) db)"
    using assms q by (simp add: UpdatePublishRun_def Let_def owns_def)
  moreover have "pr_id (?r\<lparr>pr_createdAt := pr_createdAt q\<rparr>) = pr_id r" by simp
  then have "owns (pr_id r) (put_run (?r\<lparr>pr_createdAt := pr_createdAt q\<rparr>) db)"
    using owns_put_run [of "?r\<lparr>pr_createdAt := pr_createdAt q\<rparr>" db] assms by (simp only:)
  ultimately show ?thesis by blast
qed

lemma Insert_ok: "0 < vs_seq v \<Longrightarrow> \<exists>vs. InsertVersion None now v db = (None, db\<lparr>db_versions := vs\<rparr>)"
  by (simp add: InsertVersion_def Let_def) blast

lemma deliver_accepts:
  assumes f: "f = no_publish_faults" and run: "owns (pr_id run) (pw_db w)" and v: "0 < vs_seq v"
  shows "\<exists>res w'. deliver_version E f now v run w = ((res, None), w')"
proof -
  obtain vs where I: "InsertVersion None now v (pw_db w) = (None, pw_db w\<lparr>db_versions := vs\<rparr>)"
    using Insert_ok [OF v] by blast
  obtain vs' where J: "InsertVersion None now (v\<lparr>vs_state := ''confirming''\<rparr>) (pw_db w\<lparr>db_versions := vs\<rparr>) =
      (None, pw_db w\<lparr>db_versions := vs'\<rparr>)"
    using Insert_ok [of "v\<lparr>vs_state := ''confirming''\<rparr>" now "pw_db w\<lparr>db_versions := vs\<rparr>"] v by auto
  obtain db where "UpdatePublishRun None now (run\<lparr>pr_state := ''CONFIRMING'', pr_updatedAt := now\<rparr>) (pw_db w\<lparr>db_versions := vs'\<rparr>) = (None, db)"
    using owns_Update [of "run\<lparr>pr_state := ''CONFIRMING'', pr_updatedAt := now\<rparr>" "pw_db w\<lparr>db_versions := vs'\<rparr>" now] run by auto
  with I J f show ?thesis by (simp add: deliver_version_def no_publish_faults_def Let_def)
qed

lemma record_diff_accepts:
  assumes f: "f = no_publish_faults" and run: "owns (pr_id run) (pw_db w)"
  shows "\<exists>run' w'. record_diff f now parent seq run w = (None, run', w') \<and> pr_id run' = pr_id run \<and> owns (pr_id run) (pw_db w')"
proof (cases "0 < parent \<and> (\<exists>sd. DiffSnapshots (pw_snaps w) parent seq = Inr sd)")
  case True
  then obtain sd where sd: "DiffSnapshots (pw_snaps w) parent seq = Inr sd" by blast
  let ?run = "run\<lparr>pr_diffJSON := go_marshal (diff_json sd), pr_updatedAt := now\<rparr>"
  obtain db where "UpdatePublishRun None now ?run (pw_db w) = (None, db)" "owns (pr_id run) db"
    using owns_Update [of ?run "pw_db w" now] run by auto
  with True sd f show ?thesis by (simp add: record_diff_def Let_def no_publish_faults_def)
next
  case False
  with run show ?thesis by (cases "DiffSnapshots (pw_snaps w) parent seq") (auto simp: record_diff_def)
qed

lemma numbered_accepts:
  assumes f: "f = no_publish_faults" and run: "owns (pr_id run) (pw_db w)" and seq: "0 < seq" "pw_snaps w seq = None"
    and fs: "sourceFiles (pw_dir w) = Inr fs"
  shows "\<exists>res w'. publish_numbered E f now author msg v seq parent rollbackOf run w = ((res, None), w')"
proof -
  let ?meta = "publish_meta E now author msg v seq parent rollbackOf"
  let ?snaps = "(pw_snaps w)(seq \<mapsto> \<lparr>sn_config = (if fs = [] then None else Some (copied fs)), sn_meta = ?meta\<rparr>)"
  have S: "Snapshot (pf_snapshot f) (pw_dir w) seq ?meta (pw_snaps w) = (None, ?snaps)"
    using snapshot_taken [OF seq(1) fs, of "pw_snaps w"] seq(2) f by (simp add: no_publish_faults_def)
  obtain run1 w1 where R: "record_diff f now parent seq run (w\<lparr>pw_snaps := ?snaps\<rparr>) = (None, run1, w1)" "pr_id run1 = pr_id run"
    "owns (pr_id run) (pw_db w1)"
    using record_diff_accepts [OF f, of run "w\<lparr>pw_snaps := ?snaps\<rparr>" now parent seq] run by fastforce
  let ?v = "publish_version E now author msg v seq parent rollbackOf"
  obtain res w' where "deliver_version E f now ?v run1 w1 = ((res, None), w')"
    using deliver_accepts [OF f, of run1 w1 ?v E now] R seq(1) by (auto simp: publish_version_def)
  with S R show ?thesis by (simp add: publish_numbered_def)
qed

lemma compiled_accepts:
  assumes f: "f = no_publish_faults" and run: "owns (pr_id run) (pw_db w)" and l: "linked (pw_db w) (pw_snaps w) (pw_applied w)"
    and fs: "sourceFiles (pw_dir w) = Inr fs"
  shows "\<exists>res w'. publish_compiled E f now author msg v rollbackOf run w = ((res, None), w')"
proof -
  let ?run = "run\<lparr>pr_state := ''VALIDATED'', pr_updatedAt := now\<rparr>"
  obtain db where U: "UpdatePublishRun None now ?run (pw_db w) = (None, db)" "owns (pr_id run) db"
    using owns_Update [of ?run "pw_db w" now] run by auto
  let ?seq = "next_seq db"
  have "GetVersion ?seq db = None" "NextVersionSeq None now db = (Inr ?seq, put_version (reserved_version ?seq now) db)"
    using NextVersionSeq_effect [of None now db] by (auto simp: NextVersionSeq_def Let_def)
  note N = this
  have snap: "pw_snaps w ?seq = None"
    using N(1) l GetVersion_Update [of ?seq None now ?run "pw_db w"] U(1) by (auto simp: linked_def)
  define parent where "parent = (case LatestVersion [] db of Some p \<Rightarrow> vs_seq p | None \<Rightarrow> 0)"
  let ?db = "put_version (reserved_version ?seq now) db"
  let ?run2 = "?run\<lparr>pr_versionSeq := ?seq, pr_state := ''PUBLISHING'', pr_updatedAt := now\<rparr>"
  obtain db2 where U2: "UpdatePublishRun None now ?run2 ?db = (None, db2)" "owns (pr_id run) db2"
    using owns_Update [of ?run2 ?db now] U(2) by auto
  obtain res w' where "publish_numbered E f now author msg v ?seq parent rollbackOf ?run2 (w\<lparr>pw_db := db2\<rparr>) = ((res, None), w')"
    using numbered_accepts [OF f, of ?run2 "w\<lparr>pw_db := db2\<rparr>" ?seq fs E now author msg v parent rollbackOf]
      U2(2) snap fs next_seq_positive [of db] by fastforce
  with U(1) N(2) U2(1) f show ?thesis
    by (simp add: publish_compiled_def Let_def no_publish_faults_def parent_def)
qed

lemma no_active_runs: "ActivePublishRuns db = [] \<longleftrightarrow> (\<forall>q \<in> set (db_runs db). \<not> run_active q)"
proof -
  have "ActivePublishRuns db = [] \<longleftrightarrow> set (ActivePublishRuns db) = {}" by simp
  then show ?thesis by (auto simp: ActivePublishRuns_def)
qed

lemma create_accepts:
  assumes inv: "vdb_inv db" and none: "ActivePublishRuns db = []"
  shows "\<exists>i r'. CreatePublishRun None now r db = (Inr i, (put_run r' db)\<lparr>db_lastRun := i\<rparr>) \<and> pr_id r' = i \<and>
     owns i ((put_run r' db)\<lparr>db_lastRun := i\<rparr>)"
proof -
  have "\<not> index_refuses q db" for q using none by (auto simp: index_refuses_def no_active_runs)
  then obtain i db' where C: "CreatePublishRun None now r db = (Inr i, db')"
    by (simp add: CreatePublishRun_def Let_def)
  from inv show ?thesis
  proof (cases rule: CreatePublishRun_effect [where fault = None and now = now and r = r])
    case (writes q j)
    have d: "distinct (map pr_id (db_runs db))" using inv by (simp add: vdb_inv_def vdb_wf_def)
    have "0 < j"
      using writes(1) inv by (auto simp: CreatePublishRun_def Let_def vdb_inv_def vdb_wf_def split: if_splits)
    then have "owns j ((put_run q db)\<lparr>db_lastRun := j\<rparr>)"
      using none writes(4) distinct_row_put [OF d, of q] run_rows.lookup_same [of q db]
      by (auto simp: owns_def no_active_runs set_row_put [OF d])
    with writes show ?thesis by blast
  qed (use C in simp)
qed

lemma publish_accepts:
  assumes pub: "pub_inv w" and none: "ActivePublishRuns (pw_db w) = []" and f: "f = no_publish_faults"
    and load: "LoadDraft (pe_loaders E) (pw_dir w) = (Inr dr, d)" and base: "baseHash = [] \<or> baseHash = dr_hash dr"
    and out: "draft_output E dr d = Inr (v, ej)"
  shows "\<exists>res w'. publishWithBaseLocked E f now author msg baseHash rollbackOf w = ((res, None), w')"
proof -
  have inv: "vdb_inv (pw_db w)" "linked (pw_db w) (pw_snaps w) (pw_applied w)"
    using pub by (simp_all add: pub_inv_def)
  let ?new = "new_run author (dr_hash dr)"
  obtain i r where C: "CreatePublishRun None now ?new (pw_db w) = (Inr i, (put_run r (pw_db w))\<lparr>db_lastRun := i\<rparr>)"
    and own: "owns i ((put_run r (pw_db w))\<lparr>db_lastRun := i\<rparr>)"
    using create_accepts [OF inv(1) none] by blast
  let ?w = "w\<lparr>pw_dir := d, pw_db := (put_run r (pw_db w))\<lparr>db_lastRun := i\<rparr>\<rparr>"
  have "linked (pw_db ?w) (pw_snaps ?w) (pw_applied ?w)"
    using linked_Create [OF inv, of ?new None now] C by (simp add: new_run_def)
  moreover have "sourceFiles (pw_dir ?w) = Inr (dr_files dr)"
    using load by (auto simp: LoadDraft_def Let_def bind_result_Inr_iff split: if_splits)
  ultimately obtain res w' where
    "publish_compiled E f now author msg v rollbackOf (?new\<lparr>pr_id := i, pr_errorsJSON := ej\<rparr>) ?w = ((res, None), w')"
    using compiled_accepts [OF f, of "?new\<lparr>pr_id := i, pr_errorsJSON := ej\<rparr>" ?w "dr_files dr" E now author msg v rollbackOf] own
    by fastforce
  with C load base out f show ?thesis
    by (auto simp: publishWithBaseLocked_def Let_def no_publish_faults_def)
qed

text \<open>
  Publishing works.  In a reachable state without an active run, a draft that loads, is the one
  the caller has seen and compiles without errors is published, when no statement, no file
  operation and not the delivery fails.
\<close>

theorem publish_succeeds:
  assumes "pub_reachable w" and "ActivePublishRuns (pw_db w) = []"
    and "LoadDraft (pe_loaders E) (pw_dir w) = (Inr dr, d)" and "baseHash = [] \<or> baseHash = dr_hash dr"
    and "draft_output E dr d = Inr (v, ej)"
  shows "\<exists>res w'. PublishWithBase E no_publish_faults now author msg baseHash w = ((res, None), w')"
  using publish_accepts [OF reachable_inv [OF assms(1)] assms(2) refl assms(3,4,5)] by (simp add: PublishWithBase_def)

text \<open>The first publish of the sample draft.\<close>

lemma demo_output: "draft_output demo_pub_env (protocol_info demo_loaders demo_seen) demo_dir = Inr (''ir2'', [])"
proof -
  have "string_of_nat (length demo_seen) = ''2''" by code_simp
  then show ?thesis
    by (simp add: draft_output_def demo_pub_env_def demo_compiler_def protocol_info_def ModeAbstract_def ModeNative_def)
qed

lemma demo_first: "LoadDraft (pe_loaders demo_pub_env) (pw_dir (first_world demo_dir)) =
    (Inr (protocol_info demo_loaders demo_seen), demo_dir)"
  using demo_dir_load by (simp add: demo_pub_env_def first_world_def)

lemma demo_idle: "ActivePublishRuns (pw_db (first_world demo_dir)) = []"
  by (simp add: first_world_def empty_vdb_def ActivePublishRuns_def)

theorem publish_succeeds_witness:
  "\<exists>res w'. PublishWithBase demo_pub_env no_publish_faults 10 ''admin'' ''first'' [] (first_world demo_dir) = ((res, None), w')"
  using publish_succeeds [OF pub_reachable.first demo_idle demo_first _ demo_output] by blast


end
