(* ===== verification/PublishLife.thy ===== *)
theory PublishLife
  imports PublishFlow
begin

text \<open>
  How publishes follow one another: one at a time, each with an end as long as the state collector
  keeps working, and none any more when the server was restarted before that end.
\<close>

section \<open>One publish at a time\<close>

lemma create_refused:
  assumes inv: "vdb_inv db" and active: "ActivePublishRuns db \<noteq> []" and r: "pr_state r = ''VALIDATING''"
  shows "\<exists>e. CreatePublishRun fault now r db = (Inl e, db) \<and> (fault = None \<longrightarrow> e = SqlConstraint)"
proof -
  obtain q where q: "q \<in> set (db_runs db)" "run_active q" using active by (auto simp: no_active_runs)
  then have "pr_id q \<noteq> db_lastRun db + 1" using inv by (force simp: vdb_inv_def vdb_wf_def)
  moreover have "run_active ((run_defaults now r)\<lparr>pr_id := i\<rparr>)" for i
    using r by (simp add: run_active_def run_defaults_def active_states_def Let_def)
  ultimately show ?thesis
    using q by (auto simp: CreatePublishRun_def Let_def index_refuses_def split: option.splits)
qed

lemma new_run_state: "pr_state (new_run a h) = ''VALIDATING''"
  by (simp add: new_run_def)

lemma same_db [simp]: "w\<lparr>pw_dir := d, pw_db := pw_db w\<rparr> = w\<lparr>pw_dir := d\<rparr>"
  by simp

lemma publish_refused:
  assumes inv: "vdb_inv (pw_db w)" and active: "ActivePublishRuns (pw_db w) \<noteq> []"
  shows "\<exists>e. publishWithBaseLocked E f now author msg baseHash rollbackOf w =
      (refused e, w\<lparr>pw_dir := snd (LoadDraft (pe_loaders E) (pw_dir w))\<rparr>) \<and>
     (pf_create f = None \<and> fst (LoadDraft (pe_loaders E) (pw_dir w)) = Inr dr \<and> (baseHash = [] \<or> baseHash = dr_hash dr) \<longrightarrow>
      e = ErrPublishActive)"
proof -
  obtain r d where L: "LoadDraft (pe_loaders E) (pw_dir w) = (r, d)" by fastforce
  show ?thesis
  proof (cases r)
    case (Inr i)
    obtain e where C: "CreatePublishRun (pf_create f) now (new_run author (dr_hash i)) (pw_db w) = (Inl e, pw_db w)"
      "pf_create f = None \<longrightarrow> e = SqlConstraint"
      using create_refused [OF inv active new_run_state] by blast
    have a: "active_conflict SqlConstraint" by code_simp
    show ?thesis
    proof (cases "baseHash \<noteq> [] \<and> baseHash \<noteq> dr_hash i")
      case True
      with L Inr show ?thesis by (auto simp: publishWithBaseLocked_def Let_def)
    next
      case False
      then have "publishWithBaseLocked E f now author msg baseHash rollbackOf w =
          (refused (if active_conflict e then ErrPublishActive else wrapped ''create publish run: '' e), w\<lparr>pw_dir := d\<rparr>)"
        using L Inr C(1) by (auto simp: publishWithBaseLocked_def Let_def)
      then show ?thesis using C(2) a L by (intro exI conjI) auto
    qed
  qed (use L in \<open>auto simp: publishWithBaseLocked_def\<close>)
qed

lemma publish_leaves:
  assumes "vdb_inv (pw_db w)" and "ActivePublishRuns (pw_db w) \<noteq> []"
  shows "\<exists>e d. publishWithBaseLocked E f now author msg baseHash rollbackOf w = ((no_result, Some e), w\<lparr>pw_dir := d\<rparr>)"
  using publish_refused [OF assms] unfolding refused_def by blast

text \<open>
  While a run is active no second publish starts.  Whatever the caller asks and whatever
  fails, the answer is an error, and the rows, the snapshots, the delivered versions and the
  expectation are as before; when the draft is fit to be published and the store works, the error
  is the conflict the API reports.
\<close>

theorem active_publish_refuses:
  assumes "pub_reachable w" and "ActivePublishRuns (pw_db w) \<noteq> []"
  shows "\<exists>e d. PublishWithBase E f now author msg baseHash w = ((no_result, Some e), w\<lparr>pw_dir := d\<rparr>) \<and>
     (pf_create f = None \<and> fst (LoadDraft (pe_loaders E) (pw_dir w)) = Inr dr \<and> (baseHash = [] \<or> baseHash = dr_hash dr) \<longrightarrow>
      e = ErrPublishActive)"
proof -
  have "vdb_inv (pw_db w)" using reachable_inv [OF assms(1)] by (simp add: pub_inv_def)
  from publish_refused [OF this assms(2)] show ?thesis unfolding PublishWithBase_def refused_def by blast
qed

lemma demo_published_ok:
  obtains res where "PublishWithBase demo_pub_env no_publish_faults 10 ''admin'' ''first'' [] (first_world demo_dir) = ((res, None), demo_published)"
  using publish_accepts [OF pub_inv_first demo_idle refl demo_first disjI1 [OF refl] demo_output, where rollbackOf = 0
      and now = 10 and author = "''admin''" and msg = "''first''"]
  by (auto simp: PublishWithBase_def demo_published_def)

lemma awaits_active: "awaits_confirmation res db \<Longrightarrow> ActivePublishRuns db \<noteq> []"
  using row_get_SomeD [of pr_id "rs_runID res" "db_runs db"]
  by (auto simp: awaits_confirmation_def no_active_runs GetPublishRun_def run_active_def active_states_def)

lemma demo_active: "ActivePublishRuns (pw_db demo_published) \<noteq> []"
proof (rule demo_published_ok)
  fix res
  assume "PublishWithBase demo_pub_env no_publish_faults 10 ''admin'' ''first'' [] (first_world demo_dir) = ((res, None), demo_published)"
  moreover have "vdb_inv (pw_db (first_world demo_dir))" using pub_inv_first [of demo_dir] by (simp add: pub_inv_def)
  ultimately show ?thesis
    using publish_success awaits_active by (fastforce simp: PublishWithBase_def published_def)
qed

theorem active_publish_refuses_witness:
  "\<exists>e d. PublishWithBase demo_pub_env no_publish_faults 20 ''admin'' ''again'' [] demo_published =
     ((no_result, Some e), demo_published\<lparr>pw_dir := d\<rparr>)"
  using active_publish_refuses [OF demo_pub_reachable demo_active] by metis

section \<open>A rollback that is refused\<close>

text \<open>
  A forced rollback with publication, asked for while a publish is active, is refused with the
  conflict of the active publish, but the draft has been replaced by then: nothing of the files
  that were being edited is left, although the request changed nothing else.
\<close>

theorem refused_rollback_replaces_draft:
  assumes "pub_reachable w" and "ActivePublishRuns (pw_db w) \<noteq> []"
    and snap: "0 < seq" "snapshot_config (pw_snaps w) seq = Some (copied fs)" "protocol_set fs"
    and now: "sourceFiles (pw_dir w) = Inr current" and ok: "faultless cf" "loadDir (pe_loaders E) fs = []" "pf_create f = None"
  shows "\<exists>d'. RollbackPublish E None cf f now seq author msg True w = ((no_result, Some ErrPublishActive), w\<lparr>pw_dir := d'\<rparr>) \<and>
     sourceFiles d' = Inr fs"
proof -
  let ?L = "pe_loaders E"
  have inv: "vdb_inv (pw_db w)" using reachable_inv [OF assms(1)] by (simp add: pub_inv_def)
  have "DraftHash (sha256 ?L) (pw_dir w) = Inr (hashFiles (sha256 ?L) current)" using now by (simp add: DraftHash_def)
  from rollback_installs [OF snap(2,1,3) this ok(1,2)] obtain d' where
    d': "RollbackSource ?L None cf seq True (pw_snaps w) (pw_dir w) = (None, d')" "LoadDraft ?L d' = (Inr (protocol_info ?L fs), d')" by blast
  have src: "sourceFiles d' = Inr fs"
    using d'(2) by (auto simp: LoadDraft_def Let_def bind_result_Inr_iff protocol_info_def split: if_splits)
  then have hash: "DraftHash (sha256 ?L) d' = Inr (dr_hash (protocol_info ?L fs))" by (simp add: DraftHash_def protocol_info_def)
  have "publishWithBaseLocked E f now author msg (dr_hash (protocol_info ?L fs)) seq (w\<lparr>pw_dir := d'\<rparr>) =
      (refused ErrPublishActive, w\<lparr>pw_dir := d'\<rparr>)"
    using publish_refused [of "w\<lparr>pw_dir := d'\<rparr>" E f now author msg "dr_hash (protocol_info ?L fs)" seq "protocol_info ?L fs"]
      inv assms(2) d'(2) ok(3) by auto
  with d'(1) hash src show ?thesis by (intro exI [of _ d']) (simp add: RollbackPublish_def refused_def)
qed

lemma demo_snapshot:
  obtains n where "0 < n" and "snapshot_config (pw_snaps demo_published) n = Some (copied demo_seen)"
proof (rule demo_published_ok)
  fix res
  assume ok: "PublishWithBase demo_pub_env no_publish_faults 10 ''admin'' ''first'' [] (first_world demo_dir) = ((res, None), demo_published)"
  have "vdb_inv (pw_db (first_world demo_dir))" using pub_inv_first [of demo_dir] by (simp add: pub_inv_def)
  from publish_success [OF ok [unfolded PublishWithBase_def] this] demo_first
  have P: "published demo_pub_env 10 0 (first_world demo_dir) res demo_published" by (simp add: first_world_def)
  moreover have "sourceFiles demo_dir = Inr demo_seen" by code_simp
  then have "sourceFiles (pw_dir (first_world demo_dir)) = Inr demo_seen" by (simp add: first_world_def)
  ultimately have snap: "snapshot_config (pw_snaps demo_published) (rs_seq res) = Some (copied demo_seen)"
    by (auto simp: published_def snapshot_config_def demo_seen_def)
  obtain v where "GetVersion (rs_seq res) (pw_db demo_published) = Some v" "vdb_inv (pw_db demo_published)"
    using P reachable_inv [OF demo_pub_reachable] by (auto simp: published_def awaits_confirmation_def pub_inv_def)
  then have "0 < rs_seq res"
    using row_get_SomeD [of vs_seq "rs_seq res" "db_versions (pw_db demo_published)" v]
    by (auto simp: GetVersion_def vdb_inv_def vdb_wf_def)
  with snap show thesis using that by blast
qed

lemma demo_protocol_set: "protocol_set demo_seen"
proof -
  have "dir_wf demo_dir" by code_simp
  from protocol_files [OF this demo_dir_load] show ?thesis by (simp add: protocol_set_def protocol_info_def)
qed

theorem refused_rollback_replaces_draft_witness:
  "\<exists>n d'. RollbackPublish demo_pub_env None no_faults no_publish_faults 20 n ''admin'' ''rollback'' True
       (demo_published\<lparr>pw_dir := Map.empty\<rparr>) =
     ((no_result, Some ErrPublishActive), demo_published\<lparr>pw_dir := d'\<rparr>) \<and> sourceFiles d' = Inr demo_seen"
proof (rule demo_snapshot)
  fix n
  assume n: "0 < n" "snapshot_config (pw_snaps demo_published) n = Some (copied demo_seen)"
  let ?w = "demo_published\<lparr>pw_dir := Map.empty\<rparr>"
  have "pub_reachable ?w"
    by (rule pub_reachable.step [OF demo_pub_reachable pub_step.server [OF server_step.edit]])
  moreover have "ActivePublishRuns (pw_db ?w) \<noteq> []" using demo_active by simp
  moreover have "sourceFiles (pw_dir ?w) = Inr []" by (simp add: sourceFiles_def)
  moreover have "loadDir (pe_loaders demo_pub_env) demo_seen = []" "pf_create no_publish_faults = None"
    by (simp_all add: demo_pub_env_def demo_loaders_def no_publish_faults_def)
  ultimately show ?thesis
    using refused_rollback_replaces_draft [of ?w n demo_seen "[]" no_faults demo_pub_env no_publish_faults 20 "''admin''" "''rollback''"]
      n demo_protocol_set no_faults_faultless by auto
qed

section \<open>A publish comes to an end\<close>

lemma Transition_ok:
  assumes "vdb_inv db" and run: "GetPublishRun i db = Some r" "pr_versionSeq r = n" and v: "GetVersion n db = Some v" "visible v"
    and st: "rst \<noteq> []" "vst \<noteq> []" "rst \<notin> set active_states"
  shows "\<exists>db'. TransitionPublish None now i n rst vst super db = (None, db')"
proof -
  have r: "r \<in> set (db_runs db)" "pr_id r = i" and w: "v \<in> set (db_versions db)" "vs_seq v = n"
    using row_get_SomeD [OF run(1) [unfolded GetPublishRun_def]] row_get_SomeD [OF v(1) [unfolded GetVersion_def]] by simp_all
  have pos: "0 < i" "0 < n" using assms(1) r w by (auto simp: vdb_inv_def vdb_wf_def)
  let ?vs = "if super then supersede_others n (db_versions db) else db_versions db"
  have "row_get vs_seq n (filter visible ?vs) \<noteq> None"
  proof -
    have "\<exists>x \<in> set ?vs. visible x \<and> vs_seq x = n"
      using w v(2) by (auto simp: supersede_others_def intro!: bexI [of _ v])
    then show ?thesis by (auto simp: row_get_None_iff image_iff)
  qed
  moreover have "\<not> index_refuses (r\<lparr>pr_state := rst, pr_updatedAt := now\<rparr>) db"
    using st(3) by (simp add: index_refuses_def run_active_def)
  ultimately show ?thesis
    using pos run st(1,2) by (auto simp: TransitionPublish_def Let_def GetPublishRun_def)
qed

lemma transition_ends_run:
  assumes inv: "vdb_inv db" and only: "ActivePublishRuns db = [r]" and run: "GetPublishRun i db = Some r" "pr_versionSeq r = n"
    and v: "GetVersion n db = Some v" "visible v" and st: "rst \<noteq> []" "vst \<noteq> []" "rst \<notin> set active_states" "vst = ''effective'' \<longrightarrow> super"
  shows "\<exists>db'. TransitionPublish None now i n rst vst super db = (None, db') \<and> ActivePublishRuns db' = [] \<and>
     (\<exists>v'. GetVersion n db' = Some v' \<and> vs_state v' = vst)"
proof -
  obtain db' where T: "TransitionPublish None now i n rst vst super db = (None, db')"
    using Transition_ok [OF inv run v st(1,2,3)] by blast
  have inv': "vdb_inv db'" using vdb_inv_TransitionPublish [OF inv st(4), of None now i n rst] T by simp
  from inv show ?thesis
  proof (cases rule: TransitionPublish_effect [where fault = None and now = now and i = i and n = n and rst = rst
        and vst = vst and super = super])
    case (applied r' v' db'')
    then have db'': "db'' = db'" "r' = r" "v' = v" using T run v by simp_all
    have "\<not> run_active q" if q: "q \<in> set (db_runs db')" for q
    proof -
      have get: "GetPublishRun (pr_id q) db' = Some q"
        using inv' q by (simp add: GetPublishRun_def vdb_inv_def vdb_wf_def row_get_in)
      show ?thesis
      proof (cases "pr_id q = i")
        case True
        then show ?thesis using get applied(7) [of i] db'' st(3) by (auto simp: run_active_def)
      next
        case False
        then have "q \<in> set (db_runs db)"
          using get applied(7) [of "pr_id q"] db'' row_get_SomeD [of pr_id "pr_id q" "db_runs db" q] by (simp add: GetPublishRun_def)
        moreover have "q \<noteq> r" using False GetPublishRun_id [OF run(1)] by auto
        moreover have "set (ActivePublishRuns db) = {r}" using only by simp
        ultimately show ?thesis by (auto simp: ActivePublishRuns_def)
      qed
    qed
    then have "ActivePublishRuns db' = []" by (simp add: no_active_runs)
    moreover have "GetVersion n db' = Some (v\<lparr>vs_state := vst\<rparr>)" using applied(6) [of n] db'' by simp
    ultimately show ?thesis using T by simp
  qed (use T in simp)
qed

lemma distinct_singleton:
  assumes "distinct xs" and "set xs = {r}" shows "xs = [r]"
proof (cases xs)
  case (Cons a ys)
  with assms have "a = r" "set ys \<subseteq> {r}" "r \<notin> set ys" by auto
  then have "set ys = {}" using subset_singletonD [of "set ys" r] by auto
  with Cons \<open>a = r\<close> show ?thesis by simp
qed (use assms in simp)

lemma event_ends_run:
  assumes inv: "pub_inv w" and wait: "awaits_confirmation res (pw_db w)"
    and e: "ev_expected e = rs_irVersion res" "ev_status e = ''CONFIRMED'' \<longrightarrow> ev_observed e = rs_irVersion res"
  shows "\<exists>w'. handleConfirmEvent None None now e w = (None, w') \<and> ActivePublishRuns (pw_db w') = [] \<and>
     (\<exists>v. GetVersion (rs_seq res) (pw_db w') = Some v \<and>
        vs_state v = (if ev_status e = ''CONFIRMED'' then ''effective'' else ''timeout''))"
proof -
  let ?db = "pw_db w"
  have vinv: "vdb_inv ?db" using inv by (simp add: pub_inv_def)
  obtain r v where r: "GetPublishRun (rs_runID res) ?db = Some r" "pr_state r = ''CONFIRMING''" "pr_versionSeq r = rs_seq res"
    and v: "GetVersion (rs_seq res) ?db = Some v" "vs_state v = ''confirming''" "vs_irVersion v = rs_irVersion res"
    using wait by (auto simp: awaits_confirmation_def)
  have "distinct (ActivePublishRuns ?db)" "set (ActivePublishRuns ?db) = {r}"
    using vinv row_get_SomeD [of pr_id "rs_runID res" "db_runs ?db" r] r
    by (auto simp: ActivePublishRuns_def vdb_inv_def vdb_wf_def one_active_def GetPublishRun_def run_active_def active_states_def distinct_map)
  then have only: "ActivePublishRuns ?db = [r]" by (intro distinct_singleton)
  have ids: "pr_id r = rs_runID res" "vs_seq v = rs_seq res" "visible v"
    using GetPublishRun_id [OF r(1)] GetVersion_seq [OF v(1)] v(2) by (simp_all add: visible_def)
  note ends = transition_ends_run [OF vinv only r(1,3) v(1) ids(3)]
  show ?thesis
  proof (cases "ev_status e = ''CONFIRMED''")
    case True
    obtain db' where "TransitionPublish None now (rs_runID res) (rs_seq res) ''EFFECTIVE'' ''effective'' True ?db = (None, db')"
      "ActivePublishRuns db' = []" "\<exists>v'. GetVersion (rs_seq res) db' = Some v' \<and> vs_state v' = ''effective''"
      using ends [of "''EFFECTIVE''" "''effective''" True now] by (auto simp: active_states_def)
    then show ?thesis
      using True only r(3) v e ids by (simp add: handleConfirmEvent_def confirmLocked_def)
  next
    case False
    obtain db' where "TransitionPublish None now (rs_runID res) (rs_seq res) ''TIMEOUT'' ''timeout'' False ?db = (None, db')"
      "ActivePublishRuns db' = []" "\<exists>v'. GetVersion (rs_seq res) db' = Some v' \<and> vs_state v' = ''timeout''"
      using ends [of "''TIMEOUT''" "''timeout''" False now] by (auto simp: active_states_def)
    then show ?thesis
      using False only r(3) v e ids by (simp add: handleConfirmEvent_def)
  qed
qed

text \<open>
  C5: a publish comes to an end.  Let a publish have succeeded while no event was waiting in the
  channel, and let Envoy's admin interface answer from some time on, whatever it answers.  Then the
  confirmation loop ends within the polls it needs to reach that time and the deadline, the one
  event it leaves is handled without error when the store works, no run is active after it, and
  the version is effective if the event says that Envoy showed it, and timed out otherwise.
\<close>

theorem publish_is_settled:
  assumes reach: "pub_reachable w" and ok: "PublishWithBase E f now author msg baseHash w = ((res, None), w')"
    and chan: "ss_events (pw_state w) = []" and clock: "now \<noteq> 0" and ver: "rs_irVersion res \<noteq> []"
    and admin: "\<forall>t \<ge> up. admin t \<noteq> None"
  shows "\<exists>s e w''. confirmLoop admin (polls_until now (max up (now + confirm_after E))) initial_delay now (pw_state w') = Some s \<and>
     ss_events s = [e] \<and> (ev_status e = ''CONFIRMED'' \<longrightarrow> ev_observed e = rs_irVersion res) \<and>
     handleConfirmEvent None None later e (w'\<lparr>pw_state := s\<lparr>ss_events := []\<rparr>\<rparr>) = (None, w'') \<and>
     ActivePublishRuns (pw_db w'') = [] \<and>
     (\<exists>v. GetVersion (rs_seq res) (pw_db w'') = Some v \<and>
        vs_state v = (if ev_status e = ''CONFIRMED'' then ''effective'' else ''timeout''))"
proof -
  have "vdb_inv (pw_db w)" using reachable_inv [OF reach] by (simp add: pub_inv_def)
  from publish_success [OF ok [unfolded PublishWithBase_def] this]
  have P: "awaits_confirmation res (pw_db w')" "pw_state w' = ExpectVersion (rs_irVersion res) (confirm_after E) now (pw_state w)"
    by (auto simp: published_def)
  have "0 < confirm_after E" by (simp add: confirm_after_def second_def)
  from confirmation_settles [OF ver clock this admin, of "pw_state w"] P(2) chan obtain s e where
    s: "confirmLoop admin (polls_until now (max up (now + confirm_after E))) initial_delay now (pw_state w') = Some s"
      "ss_expected s = []" "ss_events s = [e]" "ev_expected e = rs_irVersion res" "ev_status e = ''CONFIRMED'' \<longrightarrow> ev_observed e = rs_irVersion res"
    by (auto simp: post_event_def)
  have "pub_inv w'" using pub_inv_publish [OF reachable_inv [OF reach]] ok by (metis PublishWithBase_def snd_conv)
  then have "pub_inv (w'\<lparr>pw_state := s\<lparr>ss_events := []\<rparr>\<rparr>)" using s(2) by (simp add: pub_inv_def expects_def)
  from event_ends_run [OF this _ s(4,5), of later] P(1) s show ?thesis by auto
qed

lemma demo_confirm_after: "confirm_after demo_pub_env = 30 * second"
  by (simp add: confirm_after_def demo_pub_env_def)

theorem publish_is_settled_witness:
  "\<exists>s e w''. confirmLoop (\<lambda>_. Some None) (polls_until 10 (10 + 30 * second)) initial_delay 10 (pw_state demo_published) = Some s \<and>
     ss_events s = [e] \<and> handleConfirmEvent None None 99 e (demo_published\<lparr>pw_state := s\<lparr>ss_events := []\<rparr>\<rparr>) = (None, w'') \<and>
     ActivePublishRuns (pw_db w'') = []"
proof (rule demo_published_ok)
  fix res
  assume ok: "PublishWithBase demo_pub_env no_publish_faults 10 ''admin'' ''first'' [] (first_world demo_dir) = ((res, None), demo_published)"
  have "vdb_inv (pw_db (first_world demo_dir))" using pub_inv_first [of demo_dir] by (simp add: pub_inv_def)
  from publish_success [OF ok [unfolded PublishWithBase_def] this] demo_first demo_output
  have "rs_irVersion res \<noteq> []" by auto
  moreover have "ss_events (pw_state (first_world demo_dir)) = []" by (simp add: first_world_def new_state_service_def)
  moreover have "max 0 (10 + 30 * second) = 10 + 30 * second" by (simp add: second_def)
  ultimately show ?thesis
    using publish_is_settled [OF pub_reachable.first ok, of 0 "\<lambda>_. Some None" 99] demo_confirm_after by auto
qed

section \<open>What a restart leaves behind\<close>

definition restarted :: "string \<Rightarrow> pub_world \<Rightarrow> pub_world" where
  "restarted v w = w\<lparr>pw_state := new_state_service, pw_applied := v # pw_applied w\<rparr>"

definition wedged :: "version_db \<Rightarrow> pub_world \<Rightarrow> bool" where
  "wedged db w \<longleftrightarrow> pw_db w = db \<and> ss_expected (pw_state w) = [] \<and> ss_events (pw_state w) = []"

lemma wedged_restarted: "wedged (pw_db w) (restarted v w)"
  by (simp add: wedged_def restarted_def new_state_service_def)

lemma wedged_step:
  assumes inv: "vdb_inv db" and active: "ActivePublishRuns db \<noteq> []" and "wedged db w" and "server_step w w'"
  shows "wedged db w'"
  using assms(4,3)
proof (induction rule: server_step.induct)
  case (publish w E f now author msg base)
  then show ?case
    using publish_leaves [of w E f now author msg base 0] inv active by (auto simp: PublishWithBase_def wedged_def)
next
  case (rollback w E sf cf f now seq author msg force)
  have "wedged db (snd (publishWithBaseLocked E f now author msg hash seq (w\<lparr>pw_dir := d\<rparr>)))" for hash d
    using publish_leaves [of "w\<lparr>pw_dir := d\<rparr>" E f now author msg hash seq] inv active rollback by (auto simp: wedged_def)
  with rollback show ?case
    by (auto simp: RollbackPublish_def wedged_def split: prod.splits option.splits sum.splits)
qed (auto simp: wedged_def refresh_idle new_state_service_def)

lemma wedged_steps:
  assumes "server_step\<^sup>*\<^sup>* w w'" and "vdb_inv db" and "ActivePublishRuns db \<noteq> []" and "wedged db w"
  shows "wedged db w'"
  using assms by (induction rule: rtranclp_induct) (auto intro: wedged_step)

text \<open>
  C36: a restart during a confirmation ends publishing for good.  Restart the server in a reachable
  state with an active run, and let it take any steps after that: draft changes, publish and
  rollback requests, polls, events, further restarts.  The rows of the version store stay as they
  were, so the run stays active, and every publish is refused without anything being delivered.
\<close>

theorem restart_wedges_publishing:
  assumes "pub_reachable w" and "ActivePublishRuns (pw_db w) \<noteq> []" and "server_step\<^sup>*\<^sup>* (restarted v w) w'"
  shows "pw_db w' = pw_db w \<and>
     (\<exists>e d. PublishWithBase E f now author msg baseHash w' = ((no_result, Some e), w'\<lparr>pw_dir := d\<rparr>))"
proof -
  have inv: "vdb_inv (pw_db w)" using reachable_inv [OF assms(1)] by (simp add: pub_inv_def)
  then have "pw_db w' = pw_db w"
    using wedged_steps [OF assms(3) inv assms(2) wedged_restarted] by (simp add: wedged_def)
  with publish_leaves [of w' E f now author msg baseHash 0] inv assms(2) show ?thesis
    unfolding PublishWithBase_def by simp
qed

theorem restart_wedges_publishing_witness:
  "\<exists>e d. PublishWithBase demo_pub_env no_publish_faults 900 ''admin'' ''retry'' [] (restarted ''ir2'' demo_published) =
     ((no_result, Some e), (restarted ''ir2'' demo_published)\<lparr>pw_dir := d\<rparr>)"
  using restart_wedges_publishing [OF demo_pub_reachable demo_active rtranclp.rtrancl_refl] by metis

section \<open>Only what Envoy shows becomes effective\<close>

definition effective_at :: "version_db \<Rightarrow> int \<Rightarrow> bool" where
  "effective_at db n \<longleftrightarrow> (\<exists>v. GetVersion n db = Some v \<and> vs_state v = ''effective'')"

definition none_gained :: "version_db \<Rightarrow> version_db \<Rightarrow> bool" where
  "none_gained db db' \<longleftrightarrow> (\<forall>n. effective_at db' n \<longrightarrow> effective_at db n)"

lemma none_gained_refl [simp]: "none_gained db db"
  by (simp add: none_gained_def)

lemma none_gained_trans: "none_gained a b \<Longrightarrow> none_gained b c \<Longrightarrow> none_gained a c"
  by (simp add: none_gained_def)

lemma none_gained_Update: "UpdatePublishRun fault now r db = (res, db') \<Longrightarrow> none_gained db db'"
  using GetVersion_Update [of _ fault now r db] by (simp add: none_gained_def effective_at_def)

lemma none_gained_put_version: "vs_state v \<noteq> ''effective'' \<Longrightarrow> none_gained db (put_version v db)"
  by (auto simp: none_gained_def effective_at_def version_rows.lookup_upsert split: if_splits)

lemma none_gained_Insert:
  "InsertVersion fault now v db = (res, db') \<Longrightarrow> vs_state v \<noteq> ''effective'' \<Longrightarrow> none_gained db db'"
  by (cases rule: InsertVersion_effect [of fault now v db]) (auto intro: none_gained_put_version)

lemma none_gained_Next: "NextVersionSeq fault now db = (res, db') \<Longrightarrow> none_gained db db'"
  by (cases rule: NextVersionSeq_effect [of fault now db]) (auto intro!: none_gained_put_version simp: reserved_version_def)

lemma none_gained_Create: "CreatePublishRun fault now r db = (res, db') \<Longrightarrow> none_gained db db'"
  by (auto simp: CreatePublishRun_def Let_def none_gained_def effective_at_def split: option.splits if_splits)

lemma none_gained_failRun: "none_gained (pw_db w) (pw_db (failRun f now st cause run w))"
  by (simp add: failRun_def Let_def none_gained_def effective_at_def)

lemma none_gained_deliver:
  assumes "vs_state v = ''publishing''"
  shows "none_gained (pw_db w) (pw_db (snd (deliver_version E f now v run w)))"
proof -
  obtain r1 db1 where I: "InsertVersion (pf_record f) now v (pw_db w) = (r1, db1)" by fastforce
  obtain r2 db2 where J: "InsertVersion (pf_confirming f) now (v\<lparr>vs_state := ''confirming''\<rparr>) db1 = (r2, db2)" by fastforce
  obtain r3 db3 where K: "InsertVersion (pf_failed f) now (v\<lparr>vs_state := ''failed''\<rparr>) db1 = (r3, db3)" by fastforce
  obtain r4 db4 where U: "UpdatePublishRun (pf_run f) now (run\<lparr>pr_state := ''CONFIRMING'', pr_updatedAt := now\<rparr>) db2 = (r4, db4)" by fastforce
  have s1: "none_gained (pw_db w) db1" using none_gained_Insert [OF I] assms by simp
  have s2: "none_gained (pw_db w) db2" using none_gained_trans [OF s1 none_gained_Insert [OF J]] by simp
  have s3: "none_gained (pw_db w) db3" using none_gained_trans [OF s1 none_gained_Insert [OF K]] by simp
  have s4: "none_gained (pw_db w) db4" using none_gained_trans [OF s2 none_gained_Update [OF U]] .
  have fail: "none_gained (pw_db w) (pw_db (failRun f now st c run (w'\<lparr>pw_db := db\<rparr>)))" if "none_gained (pw_db w) db" for st c w' db
    using none_gained_trans [OF that none_gained_failRun [of "w'\<lparr>pw_db := db\<rparr>", simplified]] .
  show ?thesis
    using I J K U fail [OF s1] fail [OF s2] fail [OF s3] s4
    by (cases r1; cases "pf_apply f"; cases r2; cases r4) (simp_all add: deliver_version_def Let_def)
qed

lemma none_gained_record_diff:
  "record_diff f now parent seq run w = (res, run', w') \<Longrightarrow> none_gained (pw_db w) (pw_db w')"
  by (auto simp: record_diff_def Let_def intro: none_gained_Update split: if_splits sum.splits prod.splits)

lemma none_gained_numbered: "none_gained (pw_db w) (pw_db (snd (publish_numbered E f now author msg v seq parent rollbackOf run w)))"
proof (cases rule: Snapshot_cases [of "pf_snapshot f" "pw_dir w" seq "publish_meta E now author msg v seq parent rollbackOf" "pw_snaps w"])
  case (fails e)
  then show ?thesis using none_gained_failRun [of "w\<lparr>pw_snaps := pw_snaps w\<rparr>"] by (simp add: publish_numbered_def)
next
  case (taken fs)
  let ?w = "w\<lparr>pw_snaps := (pw_snaps w)(seq \<mapsto> \<lparr>sn_config = (if fs = [] then None else Some (copied fs)),
     sn_meta = publish_meta E now author msg v seq parent rollbackOf\<rparr>)\<rparr>"
  obtain res run1 w1 where R: "record_diff f now parent seq run ?w = (res, run1, w1)" by (metis prod_cases3)
  have s1: "none_gained (pw_db w) (pw_db w1)" using none_gained_record_diff [OF R] by simp
  have "vs_state (publish_version E now author msg v seq parent rollbackOf) = ''publishing''" by (simp add: publish_version_def)
  from none_gained_trans [OF s1 none_gained_deliver [OF this]] none_gained_trans [OF s1 none_gained_failRun] taken(4) R
  show ?thesis by (cases res) (simp_all add: publish_numbered_def Let_def)
qed

lemma none_gained_compiled: "none_gained (pw_db w) (pw_db (snd (publish_compiled E f now author msg v rollbackOf run w)))"
proof -
  let ?run = "run\<lparr>pr_state := ''VALIDATED'', pr_updatedAt := now\<rparr>"
  obtain r1 db1 where U: "UpdatePublishRun (pf_validated f) now ?run (pw_db w) = (r1, db1)" by fastforce
  obtain r2 db2 where N: "NextVersionSeq (pf_seq f) now db1 = (r2, db2)" by fastforce
  have s1: "none_gained (pw_db w) db1" using none_gained_Update [OF U] .
  have s2: "none_gained (pw_db w) db2" using none_gained_trans [OF s1 none_gained_Next [OF N]] .
  have fail: "none_gained (pw_db w) (pw_db (failRun f now st c q (w\<lparr>pw_db := db\<rparr>)))" if "none_gained (pw_db w) db" for st c q db
    using none_gained_trans [OF that none_gained_failRun [of "w\<lparr>pw_db := db\<rparr>", simplified]] .
  show ?thesis
  proof (cases r2)
    case (Inl e)
    with U N s1 fail [OF s1] fail [OF s2] show ?thesis
      by (cases r1; cases "pf_parent f") (simp_all add: publish_compiled_def Let_def)
  next
    case (Inr seq)
    let ?run2 = "?run\<lparr>pr_versionSeq := seq, pr_state := ''PUBLISHING'', pr_updatedAt := now\<rparr>"
    obtain r3 db3 where U2: "UpdatePublishRun (pf_publishing f) now ?run2 db2 = (r3, db3)" by fastforce
    have s3: "none_gained (pw_db w) db3" using none_gained_trans [OF s2 none_gained_Update [OF U2]] .
    have "none_gained (pw_db w) (pw_db (snd (publish_numbered E f now author msg v seq parent rollbackOf ?run2 (w\<lparr>pw_db := db3\<rparr>))))" for parent
      using none_gained_trans [OF s3] none_gained_numbered [of "w\<lparr>pw_db := db3\<rparr>"] by simp
    with U N U2 Inr s1 s3 fail [OF s1] show ?thesis
      by (cases r1; cases "pf_parent f"; cases r3) (simp_all add: publish_compiled_def Let_def)
  qed
qed

lemma none_gained_publish: "none_gained (pw_db w) (pw_db (snd (publishWithBaseLocked E f now author msg baseHash rollbackOf w)))"
proof -
  obtain r d where L: "LoadDraft (pe_loaders E) (pw_dir w) = (r, d)" by fastforce
  show ?thesis
  proof (cases r)
    case (Inr dr)
    obtain r2 db where C: "CreatePublishRun (pf_create f) now (new_run author (dr_hash dr)) (pw_db w) = (r2, db)" by fastforce
    have s1: "none_gained (pw_db w) db" using none_gained_Create [OF C] .
    have fail: "none_gained (pw_db w) (pw_db (failRun f now st c q (w\<lparr>pw_dir := d, pw_db := db\<rparr>)))" for st c q
      using none_gained_trans [OF s1 none_gained_failRun [of "w\<lparr>pw_dir := d, pw_db := db\<rparr>", simplified]] .
    have comp: "none_gained (pw_db w) (pw_db (snd (publish_compiled E f now author msg v rollbackOf q (w\<lparr>pw_dir := d, pw_db := db\<rparr>))))" for v q
      using none_gained_trans [OF s1 none_gained_compiled [of "w\<lparr>pw_dir := d, pw_db := db\<rparr>", simplified]] .
    show ?thesis
      using L Inr C s1 fail comp
      by (auto simp: publishWithBaseLocked_def Let_def split: sum.splits prod.splits)
  qed (use L in \<open>simp add: publishWithBaseLocked_def\<close>)
qed

lemma superseded_effective: "vs_state (superseded k v) = ''effective'' \<Longrightarrow> vs_state v = ''effective''"
  by (simp add: superseded_def split: if_splits)

lemma transition_gains:
  assumes inv: "vdb_inv db" and T: "TransitionPublish fault now i k rst vst super db = (res, db')"
    and gain: "effective_at db' n" "\<not> effective_at db n"
  shows "n = k \<and> vst = ''effective'' \<and> GetVersion n db \<noteq> None"
  using inv
proof (cases rule: TransitionPublish_effect [where fault = fault and now = now and i = i and n = k and rst = rst
      and vst = vst and super = super])
  case (applied r v db'')
  then have db'': "db'' = db'" using T by simp
  have "n = k"
  proof (rule ccontr)
    assume "n \<noteq> k"
    with applied(6) [of n] db'' gain show False
      by (auto simp: effective_at_def dest: superseded_effective split: if_splits)
  qed
  moreover from this have "vst = ''effective''" using applied(6) [of n] db'' gain(1) by (simp add: effective_at_def)
  ultimately show ?thesis using applied(4) by simp
qed (use T gain in simp)

lemma confirm_runs_gains:
  assumes inv: "vdb_inv db" and gain: "effective_at db' n" "\<not> effective_at db n"
    and "confirm_runs fault now e runs db = (res, db')"
  shows "ev_status e = ''CONFIRMED'' \<and> (\<exists>v. GetVersion n db = Some v \<and> ev_expected e = vs_irVersion v \<and> ev_observed e = vs_irVersion v)"
  using assms(4)
proof (induction runs)
  case Nil
  with gain show ?case by simp
next
  case (Cons run runs)
  show ?case
  proof (cases "\<exists>v. GetVersion (pr_versionSeq run) db = Some v \<and> vs_irVersion v = ev_expected e")
    case False
    with Cons show ?thesis by (auto split: option.splits)
  next
    case True
    then obtain v where v: "GetVersion (pr_versionSeq run) db = Some v" "vs_irVersion v = ev_expected e" by blast
    show ?thesis
    proof (cases "ev_status e = ''CONFIRMED''")
      case conf: True
      with Cons.prems v have C: "confirmLocked fault now run v (ev_observed e) db = (res, db')" by simp
      then have obs: "ev_observed e = vs_irVersion v" using gain by (auto simp: confirmLocked_def split: if_splits)
      obtain r d where T: "TransitionPublish fault now (pr_id run) (vs_seq v) ''EFFECTIVE'' ''effective'' True db = (r, d)" by fastforce
      with C obs have "d = db'" by (simp add: confirmLocked_def)
      with transition_gains [OF inv T] gain have "n = vs_seq v" by simp
      with v obs conf show ?thesis using GetVersion_seq [OF v(1)] by auto
    next
      case no: False
      obtain r d where T: "TransitionPublish fault now (pr_id run) (vs_seq v) ''TIMEOUT'' ''timeout'' False db = (r, d)" by fastforce
      with Cons.prems v no have "d = db'" by simp
      with transition_gains [OF inv T, of n] gain show ?thesis by simp
    qed
  qed
qed

text \<open>
  C3: nothing becomes effective unseen.  If a step of the server makes a version effective that was
  not, the step handled a confirmation event whose observed version, the one all resources of
  Envoy's configuration dump agreed on, is the version's compiled one.  No publish, rollback, poll,
  draft change or restart can do it.
\<close>

theorem effective_only_when_observed:
  assumes reach: "pub_reachable w" and step: "server_step w w'"
    and gain: "effective_at (pw_db w') n" "\<not> effective_at (pw_db w) n"
  shows "\<exists>e es v. ss_events (pw_state w) = e # es \<and> ev_status e = ''CONFIRMED'' \<and> GetVersion n (pw_db w) = Some v \<and>
     ev_expected e = vs_irVersion v \<and> ev_observed e = vs_irVersion v"
proof -
  have inv: "vdb_inv (pw_db w)" using reachable_inv [OF reach] by (simp add: pub_inv_def)
  from step show ?thesis
  proof cases
    case (publish E f now author msg base)
    with gain none_gained_publish show ?thesis unfolding none_gained_def PublishWithBase_def by blast
  next
    case (rollback E sf cf f now seq author msg force)
    have "none_gained (pw_db w) (pw_db (snd (publishWithBaseLocked E f now author msg hash seq (w\<lparr>pw_dir := d\<rparr>))))" for hash d
      using none_gained_publish [of "w\<lparr>pw_dir := d\<rparr>"] by simp
    then have "none_gained (pw_db w) (pw_db w')"
      unfolding rollback by (auto simp: RollbackPublish_def split: prod.splits option.splits sum.splits)
    with gain show ?thesis by (simp add: none_gained_def)
  next
    case (event e es rf tf now)
    obtain res db where C: "confirm_runs tf now e (ActivePublishRuns (pw_db w)) (pw_db w) = (res, db)" by fastforce
    then have "db = pw_db w'" using event gain by (cases rf) (auto simp: handleConfirmEvent_def)
    with confirm_runs_gains [OF inv gain, of tf now e "ActivePublishRuns (pw_db w)" res] C event(2)
    show ?thesis by auto
  qed (use gain in simp_all)
qed

lemma demo_state: "pw_state demo_published = ExpectVersion ''ir2'' (30 * second) 10 new_state_service"
  and demo_awaits: "\<exists>res. awaits_confirmation res (pw_db demo_published) \<and> rs_irVersion res = ''ir2''"
proof -
  have inv: "vdb_inv (pw_db (first_world demo_dir))" using pub_inv_first [of demo_dir] by (simp add: pub_inv_def)
  obtain res where "PublishWithBase demo_pub_env no_publish_faults 10 ''admin'' ''first'' [] (first_world demo_dir) = ((res, None), demo_published)"
    by (rule demo_published_ok)
  from publish_success [OF this [unfolded PublishWithBase_def] inv] demo_first demo_output
  have "published demo_pub_env 10 0 (first_world demo_dir) res demo_published" "rs_irVersion res = ''ir2''"
    by (auto simp: first_world_def)
  then show "pw_state demo_published = ExpectVersion ''ir2'' (30 * second) 10 new_state_service"
    and "\<exists>res. awaits_confirmation res (pw_db demo_published) \<and> rs_irVersion res = ''ir2''"
    by (auto simp: published_def first_world_def confirm_after_def demo_pub_env_def)
qed

theorem effective_only_when_observed_witness:
  "\<exists>w w' n e es. pub_reachable w \<and> server_step w w' \<and> effective_at (pw_db w') n \<and> \<not> effective_at (pw_db w) n \<and>
     ss_events (pw_state w) = e # es \<and> ev_observed e = ''ir2''"
proof -
  let ?obs = "Some (Some (demo_dump ''ir2'' ''ir2''))"
  let ?e = "\<lparr>ev_expected = ''ir2'', ev_observed = ''ir2'', ev_status = ''CONFIRMED''\<rparr>"
  define w where "w = demo_published\<lparr>pw_state := refresh_version ?obs 20 (pw_state demo_published)\<rparr>"
  have reach: "pub_reachable w"
    unfolding w_def by (rule pub_reachable.step [OF demo_pub_reachable pub_step.server [OF server_step.poll]])
  have "fst (configDumpVersions (Some (demo_dump ''ir2'' ''ir2''))) = ''ir2''" by code_simp
  then obtain rs where "configDumpVersions (Some (demo_dump ''ir2'' ''ir2'')) = (''ir2'', rs)" by (metis prod.collapse)
  then have ev: "ss_events (pw_state w) = [?e]"
    by (simp add: w_def demo_state refresh_version_def ExpectVersion_def new_state_service_def confirm_status_def post_event_def
        Let_def)
  obtain res where res: "awaits_confirmation res (pw_db w)" "rs_irVersion res = ''ir2''"
    using demo_awaits by (auto simp: w_def)
  let ?w = "w\<lparr>pw_state := (pw_state w)\<lparr>ss_events := []\<rparr>\<rparr>"
  have "pub_inv ?w" using reachable_inv [OF reach] by (simp add: pub_inv_def expects_def)
  from event_ends_run [OF this, of res ?e 30] res obtain w' where
    h: "handleConfirmEvent None None 30 ?e ?w = (None, w')" "effective_at (pw_db w') (rs_seq res)"
    by (auto simp: effective_at_def)
  have step: "server_step w w'" using server_step.event [OF ev, of None None 30] h(1) by simp
  have "\<not> effective_at (pw_db w) (rs_seq res)" using res(1) by (auto simp: awaits_confirmation_def effective_at_def)
  with effective_only_when_observed [OF reach step h(2)] reach step h(2) ev show ?thesis by fastforce
qed

end
