(* ===== verification/PublishServer.thy ===== *)
theory PublishServer
  imports PublishLife
begin

text \<open>
  The version operations of the configuration API (\<open>internal/api/config_handlers.go\<close>): publish,
  rollback, the list and source of versions and the differences between them.

  The status of the deliverer and the printed form of a time are parameters.  A query parameter
  that is absent is the empty string, as \<open>Get\<close> gives it.
\<close>

section \<open>Requests\<close>

text \<open>\<open>strconv.ParseInt(s, 10, 64)\<close>, and \<open>Atoi\<close> on the platforms the program is built for.\<close>

definition parse_int :: "string \<Rightarrow> int option" where
  "parse_int s =
     (let (neg, digits) = (case s of c # cs \<Rightarrow> if c = CHR ''-'' then (True, cs) else if c = CHR ''+'' then (False, cs) else (False, s)
                           | [] \<Rightarrow> (False, []));
          n = int (read_nat digits); i = (if neg then - n else n)
      in if digits = [] \<or> \<not> list_all is_digit digits \<or> i < - (2 ^ 63) \<or> 2 ^ 63 \<le> i then None else Some i)"

definition versionPath :: "string \<Rightarrow> http_response + int" where
  "versionPath raw = (case parse_int raw of
       Some n \<Rightarrow> if n \<le> 0 then Inl (writeError 400 ''INVALID_ARGUMENT'' ''version id must be positive'') else Inr n
     | None \<Rightarrow> Inl (writeError 400 ''INVALID_ARGUMENT'' ''version id must be positive''))"

definition pagination :: "string \<Rightarrow> string \<Rightarrow> http_response + (int \<times> int)" where
  "pagination limit offset =
     (case (if limit = [] then Some 100 else parse_int limit) of
        None \<Rightarrow> Inl (writeError 400 ''INVALID_ARGUMENT'' ''limit must be 1-1000'')
      | Some l \<Rightarrow>
          if limit \<noteq> [] \<and> (l < 1 \<or> 1000 < l) then Inl (writeError 400 ''INVALID_ARGUMENT'' ''limit must be 1-1000'')
          else (case (if offset = [] then Some 0 else parse_int offset) of
              None \<Rightarrow> Inl (writeError 400 ''INVALID_ARGUMENT'' ''offset must be non-negative'')
            | Some k \<Rightarrow> if k < 0 then Inl (writeError 400 ''INVALID_ARGUMENT'' ''offset must be non-negative'') else Inr (l, k)))"

record rollbackRequest =
  rb_publish :: bool
  rb_force :: bool

fun decode_rollback_fields :: "(string \<times> jsval) list \<Rightarrow> rollbackRequest \<Rightarrow> rollbackRequest option" where
  "decode_rollback_fields [] q = Some q"
| "decode_rollback_fields ((k, v) # ps) q =
     (if to_lower k = ''publish'' then
        (case v of JBool b \<Rightarrow> decode_rollback_fields ps (q\<lparr>rb_publish := b\<rparr>) | JNull \<Rightarrow> decode_rollback_fields ps q | _ \<Rightarrow> None)
      else if to_lower k = ''force'' then
        (case v of JBool b \<Rightarrow> decode_rollback_fields ps (q\<lparr>rb_force := b\<rparr>) | JNull \<Rightarrow> decode_rollback_fields ps q | _ \<Rightarrow> None)
      else None)"

text \<open>The body of a rollback may be absent; otherwise it is a JSON value or not one.\<close>

definition decode_rollback :: "jsval option option \<Rightarrow> http_response + rollbackRequest" where
  "decode_rollback body =
     (let zero = \<lparr>rb_publish = False, rb_force = False\<rparr> in
      case body of
        None \<Rightarrow> Inr zero
      | Some (Some (JObj ps)) \<Rightarrow> (case decode_rollback_fields ps zero of Some q \<Rightarrow> Inr q | None \<Rightarrow> Inl invalid_body)
      | Some (Some JNull) \<Rightarrow> Inr zero
      | _ \<Rightarrow> Inl invalid_body)"

definition requestUser :: "string option \<Rightarrow> string" where
  "requestUser session = (case session of Some name \<Rightarrow> name | None \<Rightarrow> ''unknown'')"

section \<open>Responses\<close>

record delivery_status =
  ds_version :: string
  ds_phase :: string
  ds_detail :: string
  ds_updatedAt :: time

definition versionResponse :: "(time \<Rightarrow> string) \<Rightarrow> version \<Rightarrow> jsval" where
  "versionResponse rfc v =
     JObj [(''author'', JStr (vs_author v)), (''createdAt'', JStr (rfc (vs_createdAt v))), (''id'', JNum (vs_seq v)),
           (''irVersion'', JStr (vs_irVersion v)), (''message'', JStr (vs_message v)), (''mode'', JStr (vs_mode v)),
           (''parentId'', JNum (vs_parentSeq v)), (''rollbackOf'', JNum (vs_rollbackOf v)), (''state'', JStr (vs_state v))]"

definition deliveryResponse :: "(time \<Rightarrow> string) \<Rightarrow> delivery_status \<Rightarrow> string \<Rightarrow> jsval" where
  "deliveryResponse rfc ds mode =
     JObj [(''detail'', JStr (ds_detail ds)), (''mode'', JStr mode), (''state'', JStr (ds_phase ds)),
           (''updatedAt'', JStr (rfc (ds_updatedAt ds))), (''version'', JStr (ds_version ds))]"

definition publishResponse :: "(time \<Rightarrow> string) \<Rightarrow> version \<Rightarrow> delivery_status \<Rightarrow> string \<Rightarrow> jsval" where
  "publishResponse rfc v ds mode =
     JObj [(''delivery'', deliveryResponse rfc ds mode), (''version'', versionResponse rfc v)]"

section \<open>Handlers\<close>

text \<open>The handler's own fields, and what the clock and the statements of the call do.\<close>

record config_api =
  ca_env :: publish_env
  ca_mode :: string
  ca_rfc :: "time \<Rightarrow> string"
  ca_status :: delivery_status

record call_faults =
  cf_latest :: "string option"
  cf_publish :: publish_faults
  cf_get :: "string option"
  cf_stage :: "string option"
  cf_commit :: commit_faults

definition accepted :: "config_api \<Rightarrow> call_faults \<Rightarrow> publish_answer \<Rightarrow> pub_world \<Rightarrow> http_response" where
  "accepted A cf ans w =
     (case ans of
        (res, Some e) \<Rightarrow> writeConfigError e
      | (res, None) \<Rightarrow>
          (case cf_get cf of Some m \<Rightarrow> writeConfigError (ErrText m)
           | None \<Rightarrow> (case GetVersion (rs_seq res) (pw_db w) of
               None \<Rightarrow> writeConfigError (wrapped [] SqlNoRows)
             | Some v \<Rightarrow> writeJSON 202 (publishResponse (ca_rfc A) v (ca_status A) (ca_mode A)))))"

definition publishConfig ::
    "config_api \<Rightarrow> call_faults \<Rightarrow> time \<Rightarrow> string option \<Rightarrow> jsval option \<Rightarrow> pub_world \<Rightarrow> http_response \<times> pub_world" where
  "publishConfig A cf now session body w =
     (case decodeJSON [''message'', ''expectedResourceVersion''] body of
        Inl resp \<Rightarrow> (resp, w)
      | Inr q \<Rightarrow>
          if 500 < length (q ''message'')
          then (writeError 400 ''INVALID_ARGUMENT'' ''publish message exceeds 500 characters'', w)
          else
            let E = ca_env A; mode = (if ca_mode A = [] then ''xds'' else ca_mode A);
                ((out, ds), d) = compileDraft (pe_loaders E) (pe_compiler E) mode (pw_dir w);
                w1 = w\<lparr>pw_dir := d\<rparr>; compiles = (out \<noteq> None \<and> \<not> hasErrorDiagnostics ds)
            in if compiles \<and> cf_latest cf \<noteq> None then (writeConfigError (ErrText (the (cf_latest cf))), w1)
               else if compiles \<and> map_option vs_irVersion (LatestVersion ''effective'' (pw_db w1)) = out
               then (writeError 409 ''NO_CHANGES'' ''draft compiles to the current effective version'', w1)
               else (case PublishWithBase E (cf_publish cf) now (requestUser session) (q ''message'') (q ''expectedResourceVersion'') w1 of
                       (ans, w2) \<Rightarrow> (accepted A cf ans w2, w2)))"

definition rollbackConfigVersion ::
    "config_api \<Rightarrow> call_faults \<Rightarrow> time \<Rightarrow> string option \<Rightarrow> string \<Rightarrow> jsval option option \<Rightarrow> pub_world \<Rightarrow> http_response \<times> pub_world" where
  "rollbackConfigVersion A cf now session raw body w =
     (case versionPath raw of
        Inl resp \<Rightarrow> (resp, w)
      | Inr seq \<Rightarrow>
          (case decode_rollback body of
             Inl resp \<Rightarrow> (resp, w)
           | Inr q \<Rightarrow>
               let E = ca_env A; L = pe_loaders E in
               if \<not> rb_publish q then
                 (case RollbackSource L (cf_stage cf) (cf_commit cf) seq (rb_force q) (pw_snaps w) (pw_dir w) of
                    (Some e, d) \<Rightarrow> (writeConfigError e, w\<lparr>pw_dir := d\<rparr>)
                  | (None, d) \<Rightarrow>
                      (case DraftHash (sha256 L) d of
                         Inl e \<Rightarrow> (writeConfigError e, w\<lparr>pw_dir := d\<rparr>)
                       | Inr h \<Rightarrow> (writeJSON 200 (JObj [(''draftResourceVersion'', JStr h)]), w\<lparr>pw_dir := d\<rparr>)))
               else (case RollbackPublish E (cf_stage cf) (cf_commit cf) (cf_publish cf) now seq (requestUser session)
                        (''rollback to version '' @ string_of_int seq) (rb_force q) w of
                       (ans, w1) \<Rightarrow> (accepted A cf ans w1, w1))))"

definition getConfigStatus :: "config_api \<Rightarrow> string option \<Rightarrow> version_db \<Rightarrow> http_response" where
  "getConfigStatus A fault db =
     (case fault of Some m \<Rightarrow> writeConfigError (ErrText m)
      | None \<Rightarrow> writeJSON 200 (JObj (
          [(''delivery'', deliveryResponse (ca_rfc A) (ca_status A) (ca_mode A))] @
          (case LatestVersion ''effective'' db of Some v \<Rightarrow> [(''effective'', versionResponse (ca_rfc A) v)] | None \<Rightarrow> []) @
          (case LatestVersion [] db of Some v \<Rightarrow> [(''published'', versionResponse (ca_rfc A) v)] | None \<Rightarrow> []))))"

definition listConfigVersions :: "config_api \<Rightarrow> string option \<Rightarrow> string \<Rightarrow> string \<Rightarrow> version_db \<Rightarrow> http_response" where
  "listConfigVersions A fault limit offset db =
     (case pagination limit offset of
        Inl resp \<Rightarrow> resp
      | Inr (l, k) \<Rightarrow>
          (case fault of Some m \<Rightarrow> writeConfigError (ErrText m)
           | None \<Rightarrow> (case ListVersions l k db of
               Inl e \<Rightarrow> writeConfigError (wrapped [] e)
             | Inr (vs, n) \<Rightarrow> writeJSON 200 (JObj [(''items'', JArr (map (versionResponse (ca_rfc A)) vs)), (''total'', JNum (int n))]))))"

definition version_row :: "string option \<Rightarrow> int \<Rightarrow> version_db \<Rightarrow> conf_error + version" where
  "version_row fault seq db =
     (case fault of Some m \<Rightarrow> Inl (ErrText m)
      | None \<Rightarrow> (case GetVersion seq db of None \<Rightarrow> Inl (wrapped [] SqlNoRows) | Some v \<Rightarrow> Inr v))"

definition getConfigVersion :: "config_api \<Rightarrow> string option \<Rightarrow> string \<Rightarrow> version_db \<Rightarrow> http_response" where
  "getConfigVersion A fault raw db =
     (case versionPath raw of
        Inl resp \<Rightarrow> resp
      | Inr seq \<Rightarrow> (case version_row fault seq db of
            Inl e \<Rightarrow> writeConfigError e | Inr v \<Rightarrow> writeJSON 200 (versionResponse (ca_rfc A) v)))"

text \<open>Reading the source of a version loads the directory of its snapshot as a draft, which creates
  \<open>config.d\<close> there.  A snapshot whose directory is gone altogether gets one.\<close>

definition getConfigVersionSource ::
    "config_api \<Rightarrow> ((string \<times> string) list \<Rightarrow> string option) \<Rightarrow> string option \<Rightarrow> string \<Rightarrow> pub_world \<Rightarrow> http_response \<times> pub_world" where
  "getConfigVersionSource A mtime fault raw w =
     (case versionPath raw of
        Inl resp \<Rightarrow> (resp, w)
      | Inr seq \<Rightarrow>
          (case version_row fault seq (pw_db w) of
             Inl e \<Rightarrow> (writeConfigError e, w)
           | Inr v \<Rightarrow>
               let d0 = (case snapshot_config (pw_snaps w) seq of Some d \<Rightarrow> d | None \<Rightarrow> Map.empty);
                   (res, d) = readDraft (pe_loaders (ca_env A)) mtime d0;
                   w1 = (case pw_snaps w seq of
                      Some s \<Rightarrow> w\<lparr>pw_snaps := (pw_snaps w)(seq \<mapsto> s\<lparr>sn_config := Some d\<rparr>)\<rparr> | None \<Rightarrow> w)
               in (case res of Inl e \<Rightarrow> (writeConfigError e, w1) | Inr doc \<Rightarrow> (writeJSON 200 doc, w1))))"

definition getConfigVersionDiff :: "string \<Rightarrow> string \<Rightarrow> snapshots \<Rightarrow> http_response" where
  "getConfigVersionDiff raw against snaps =
     (case versionPath raw of
        Inl resp \<Rightarrow> resp
      | Inr to \<Rightarrow>
          (case parse_int against of
             Some from \<Rightarrow>
               if from \<le> 0 then writeError 400 ''INVALID_ARGUMENT'' ''against must be a positive version id''
               else (case DiffSnapshots snaps from to of Inl e \<Rightarrow> writeConfigError e | Inr sd \<Rightarrow> writeJSON 200 (diff_json sd))
           | None \<Rightarrow> writeError 400 ''INVALID_ARGUMENT'' ''against must be a positive version id''))"

definition unified_text :: "file_diff list \<Rightarrow> string" where
  "unified_text fds = concat (map (\<lambda>fd. if fd_patch fd = [] then []
     else ''# '' @ fd_path fd @ '' ('' @ fd_status fd @ '')'' @ [CHR 0x0A] @ fd_patch fd) fds)"

definition getDraftDiff :: "string option \<Rightarrow> string \<Rightarrow> string \<Rightarrow> pub_world \<Rightarrow> http_response" where
  "getDraftDiff fault against format w =
     (let base = (if against = [] \<or> against = ''current''
           then (case fault of Some m \<Rightarrow> Inl (writeConfigError (ErrText m))
                 | None \<Rightarrow> Inr (case LatestVersion ''effective'' (pw_db w) of Some v \<Rightarrow> vs_seq v | None \<Rightarrow> 0))
           else (case parse_int against of
                   Some n \<Rightarrow> if n \<le> 0 then Inl (writeError 400 ''INVALID_ARGUMENT'' ''against must be current or a positive version id'') else Inr n
                 | None \<Rightarrow> Inl (writeError 400 ''INVALID_ARGUMENT'' ''against must be current or a positive version id'')))
      in case base of
        Inl resp \<Rightarrow> resp
      | Inr from \<Rightarrow>
          (case DiffDraftAgainstSnapshot (pw_snaps w) from (pw_dir w) of
             Inl e \<Rightarrow> writeConfigError e
           | Inr sd \<Rightarrow>
               if format = [] \<or> format = ''unified''
               then writeJSON 200 (JObj [(''base'', JNum from), (''diff'', JStr (unified_text (sd_files sd))), (''format'', JStr ''unified'')])
               else if format = ''summary''
               then writeJSON 200 (JObj [(''base'', JNum from),
                  (''changes'', JArr (map (\<lambda>fd. JObj [(''op'', JStr (fd_status fd)), (''path'', JStr (fd_path fd))])
                     (filter (\<lambda>fd. fd_status fd \<noteq> ''unchanged'') (sd_files sd)))), (''format'', JStr ''summary'')])
               else writeError 400 ''INVALID_ARGUMENT'' ''format must be unified or summary''))"

section \<open>Types of the responses\<close>

interpretation version_wire: wire_type schemas_Version "versionResponse rfc" "\<lambda>_. True" for rfc
  by unfold_locales (simp add: schemas_Version_def versionResponse_def)

interpretation publish_wire: wire_type schemas_PublishResult "\<lambda>(v, ds, mode). publishResponse rfc v ds mode"
    "\<lambda>(v, ds, mode). mode \<in> {''xds'', ''static''}" for rfc
proof
  fix x :: "version \<times> delivery_status \<times> string"
  obtain v ds mode where x: "x = (v, ds, mode)" by (cases x)
  assume "case x of (v, ds, mode) \<Rightarrow> mode \<in> {''xds'', ''static''}"
  with x version_wire.encode_conforms [of rfc v]
  show "conforms schemas_PublishResult (case x of (v, ds, mode) \<Rightarrow> publishResponse rfc v ds mode)"
    by (auto simp: schemas_PublishResult_def publishResponse_def deliveryResponse_def)
qed

lemma accepted_typed: "ca_mode A \<in> {''xds'', ''static''} \<Longrightarrow> typed_response schemas_PublishResult (accepted A cf ans w)"
  using publish_wire.encode_conforms [of "(_, ca_status A, ca_mode A)" "ca_rfc A"]
  by (auto simp: accepted_def writeConfigError_typed response_ok_def intro!: typed_response_ok split: prod.splits option.splits)

lemma error_typed: "typed_response T (writeError 400 ''INVALID_ARGUMENT'' m)" "typed_response T (writeError 409 ''NO_CHANGES'' m)"
  by (simp_all add: typed_response_error response_ok_def documented_codes_def)

text \<open>
  Whatever is posted to \<open>/config/publish\<close> and whatever fails, the answer is a \<open>PublishResult\<close>
  of the contract under a successful status, and else an error body with a documented code.
\<close>

theorem publish_response_typed:
  assumes "ca_mode A \<in> {''xds'', ''static''}"
  shows "typed_response schemas_PublishResult (fst (publishConfig A cf now session body w))"
proof -
  have dec: "typed_response schemas_PublishResult resp" if "decodeJSON ks body = Inl resp" for ks resp
    using decodeJSON_error [OF that] error_typed(1) by simp
  show ?thesis
  proof (cases "decodeJSON [''message'', ''expectedResourceVersion''] body")
    case (Inl resp)
    with dec show ?thesis by (simp add: publishConfig_def)
  next
    case (Inr q)
    let ?E = "ca_env A"
    obtain out ds d where c: "compileDraft (pe_loaders ?E) (pe_compiler ?E) (if ca_mode A = [] then ''xds'' else ca_mode A) (pw_dir w) = ((out, ds), d)"
      by (metis prod.collapse)
    obtain ans w2 where p: "PublishWithBase ?E (cf_publish cf) now (requestUser session) (q ''message'') (q ''expectedResourceVersion'')
        (w\<lparr>pw_dir := d\<rparr>) = (ans, w2)" by fastforce
    from Inr c p show ?thesis
      using accepted_typed [OF assms, of cf ans w2] error_typed [where T = schemas_PublishResult]
        writeConfigError_typed [of schemas_PublishResult]
      unfolding publishConfig_def Let_def by simp
  qed
qed

theorem publish_response_typed_witness:
  "typed_response schemas_PublishResult (fst (publishConfig
     \<lparr>ca_env = demo_pub_env, ca_mode = ''xds'', ca_rfc = (\<lambda>_. ''now''),
       ca_status = \<lparr>ds_version = [], ds_phase = ''idle'', ds_detail = [], ds_updatedAt = 0\<rparr>\<rparr>
     \<lparr>cf_latest = None, cf_publish = no_publish_faults, cf_get = None, cf_stage = None, cf_commit = no_faults\<rparr>
     10 (Some ''admin'') (Some (JObj [(''message'', JStr ''first'')])) (first_world demo_dir)))"
  using publish_response_typed [of "\<lparr>ca_env = demo_pub_env, ca_mode = ''xds'', ca_rfc = (\<lambda>_. ''now''),
       ca_status = \<lparr>ds_version = [], ds_phase = ''idle'', ds_detail = [], ds_updatedAt = 0\<rparr>\<rparr>"] by simp

section \<open>Errors by their text\<close>

text \<open>A text without digits is not found across a run of digits.\<close>

lemma str_includes_empty: "str_includes s []"
  by (cases s) simp_all

lemma str_includes_around:
  assumes inc: "str_includes (a @ d # b) t" and "d \<notin> set t"
  shows "str_includes a t \<or> str_includes b t"
proof -
  obtain u v where e: "a @ d # b = u @ t @ v" using inc unfolding str_includes_iff by blast
  then consider (left) us where "a = u @ us" "us @ d # b = t @ v" | (right) us where "u = a @ us" "d # b = us @ t @ v"
    by (auto simp: append_eq_append_conv2)
  then show ?thesis
  proof cases
    case left
    then consider x where "us = t @ x" | y where "t = us @ y" "d # b = y @ v"
      by (auto simp: append_eq_append_conv2)
    then show ?thesis
    proof cases
      case 1
      with left(1) show ?thesis unfolding str_includes_iff by blast
    next
      case 2
      with assms(2) have "t = us" by (cases y) auto
      with left(1) show ?thesis unfolding str_includes_iff by (metis append_Nil2)
    qed
  next
    case right
    show ?thesis
    proof (cases us)
      case Nil
      with right(2) assms(2) have "t = []" by (cases t) auto
      then show ?thesis by (simp add: str_includes_empty)
    next
      case (Cons c k)
      with right(2) show ?thesis unfolding str_includes_iff by auto
    qed
  qed
qed

lemma str_includes_digits:
  assumes "\<forall>d \<in> set ds. d \<notin> set t" and "ds \<noteq> []" and "str_includes (a @ ds @ b) t"
  shows "str_includes a t \<or> str_includes b t"
  using assms
proof (induction ds arbitrary: a)
  case (Cons d ds)
  then have or: "str_includes a t \<or> str_includes (ds @ b) t"
    using str_includes_around [of a d "ds @ b" t] by simp
  show ?case
  proof (cases "ds = []")
    case True
    with or show ?thesis by simp
  next
    case False
    with Cons.IH [of "[]"] Cons.prems(1) or have "str_includes a t \<or> t = [] \<or> str_includes b t" by auto
    then show ?thesis using str_includes_empty by auto
  qed
qed simp

lemma digits_not_in: "list_all is_digit ds \<Longrightarrow> list_all (\<lambda>c. \<not> is_digit c) t \<Longrightarrow> \<forall>d \<in> set ds. d \<notin> set t"
  by (auto simp: list_all_iff)

lemma load_errors_text:
  assumes "list_all (\<lambda>c. \<not> is_digit c) t" and "\<not> str_includes ''draft validation failed: '' t" and "\<not> str_includes '' error(s)'' t"
  shows "\<not> str_includes (''draft validation failed: '' @ string_of_nat n @ '' error(s)'') t"
  using str_includes_digits [OF digits_not_in [OF string_of_nat_digits assms(1)] string_of_nat_not_Nil] assms(2,3) by blast

lemma to_lower_digits: "list_all is_digit ds \<Longrightarrow> to_lower ds = ds"
  by (induction ds) (auto simp: to_lower_def lower_char_def is_digit_def)

lemma load_errors_internal:
  "writeConfigError (ErrText (''draft validation failed: '' @ string_of_nat n @ '' error(s)'')) =
     writeError 500 ''INTERNAL'' ''internal server error''"
proof -
  let ?m = "''draft validation failed: '' @ string_of_nat n @ '' error(s)''"
  have "to_lower ''draft validation failed: '' = ''draft validation failed: ''" "to_lower '' error(s)'' = '' error(s)''" by code_simp+
  then have low: "to_lower ?m = ?m"
    using to_lower_digits [OF string_of_nat_digits [of n]] by (simp only: to_lower_append)
  have "\<not> str_includes ?m ''force is required''" "\<not> str_includes ?m ''conflict''" "\<not> str_includes ?m ''validate''"
    "\<not> str_includes ?m ''draft load failed''" "\<not> str_includes ?m ''compile''" "\<not> str_includes ?m ''invalid''"
    "\<not> str_includes ?m ''unsafe''" "\<not> str_includes ?m ''required''"
    by (rule load_errors_text; code_simp)+
  with low show ?thesis
    unfolding writeConfigError_def Let_def error_text.simps conf_error.case by (simp only: if_False simp_thms)
qed

lemma LoadDraft_again: "LoadDraft L d0 = (r, d) \<Longrightarrow> LoadDraft L d = (r, d)"
  by (auto simp: LoadDraft_def Let_def split: if_splits)

text \<open>
  A draft with mistakes in it is reported as a failure of the server.  When the draft to be
  published loads with errors, and nothing else stands in the way of the publish, the answer is
  500 with the code \<open>INTERNAL\<close>, where the contract promises 422; the message the publisher gives is
  not among the texts \<open>writeConfigError\<close> looks for.
\<close>

theorem invalid_draft_publishes_as_internal_error:
  assumes reach: "pub_reachable w" and none: "ActivePublishRuns (pw_db w) = []" and f: "pf_create (cf_publish cf) = None"
    and load: "LoadDraft (pe_loaders (ca_env A)) (pw_dir w) = (Inr dr, d)" "dr_errors dr \<noteq> []"
    and body: "decodeJSON [''message'', ''expectedResourceVersion''] body = Inr q" "length (q ''message'') \<le> 500"
      "q ''expectedResourceVersion'' = [] \<or> q ''expectedResourceVersion'' = dr_hash dr"
  shows "fst (publishConfig A cf now session body w) = writeError 500 ''INTERNAL'' ''internal server error''"
proof -
  let ?E = "ca_env A"
  have inv: "vdb_inv (pw_db w)" using reachable_inv [OF reach] by (simp add: pub_inv_def)
  obtain ds where c: "compileDraft (pe_loaders ?E) (pe_compiler ?E) m (pw_dir w) = ((None, ds), d)" for m
    using load by (simp add: compileDraft_def)
  obtain i r where C: "CreatePublishRun None now (new_run (requestUser session) (dr_hash dr)) (pw_db w) =
      (Inr i, (put_run r (pw_db w))\<lparr>db_lastRun := i\<rparr>)"
    using create_accepts [OF inv none] by blast
  let ?cause = "ErrText (''draft validation failed: '' @ string_of_nat (length (dr_errors dr)) @ '' error(s)'')"
  have "draft_output ?E dr d = Inl (?cause, [])" using load(2) by (simp add: draft_output_def)
  then obtain w' where "PublishWithBase ?E (cf_publish cf) now (requestUser session) (q ''message'') (q ''expectedResourceVersion'')
      (w\<lparr>pw_dir := d\<rparr>) = (refused ?cause, w')"
    using C f body(3) LoadDraft_again [OF load(1)]
    by (auto simp: PublishWithBase_def publishWithBaseLocked_def Let_def)
  then show ?thesis
    using body c load_errors_internal by (simp add: publishConfig_def Let_def accepted_def refused_def)
qed

definition failing_loaders :: loaders where
  "failing_loaders = demo_loaders\<lparr>loadDir := (\<lambda>_. [\<lparr>le_text = ''a.yaml: bad'', le_file = ''a.yaml'', le_doc = 0, le_message = ''bad''\<rparr>])\<rparr>"

definition demo_api :: "loaders \<Rightarrow> config_api" where
  "demo_api L = \<lparr>ca_env = demo_pub_env\<lparr>pe_loaders := L\<rparr>, ca_mode = ''xds'', ca_rfc = (\<lambda>_. ''now''),
     ca_status = \<lparr>ds_version = [], ds_phase = ''idle'', ds_detail = [], ds_updatedAt = 0\<rparr>\<rparr>"

definition no_call_faults :: call_faults where
  "no_call_faults = \<lparr>cf_latest = None, cf_publish = no_publish_faults, cf_get = None, cf_stage = None, cf_commit = no_faults\<rparr>"

theorem invalid_draft_publishes_as_internal_error_witness:
  "fst (publishConfig (demo_api failing_loaders) no_call_faults 10 (Some ''admin'') (Some (JObj [(''message'', JStr ''first'')]))
     (first_world demo_dir)) = writeError 500 ''INTERNAL'' ''internal server error''"
proof -
  let ?dr = "\<lparr>dr_mode = ModeAbstract, dr_hash = hashFiles (sha256 demo_loaders) demo_seen, dr_files = demo_seen,
     dr_errors = [\<lparr>le_text = ''a.yaml: bad'', le_file = ''a.yaml'', le_doc = 0, le_message = ''bad''\<rparr>]\<rparr>"
  have "sourceFiles demo_dir = Inr demo_seen" by code_simp
  moreover have "demo_dir ''config.d'' \<noteq> None" "demo_dir ''native.yaml'' = None" by (simp_all add: demo_dir_def)
  ultimately have "LoadDraft failing_loaders demo_dir = (Inr ?dr, demo_dir)"
    by (auto simp: LoadDraft_def Let_def failing_loaders_def)
  then have load: "LoadDraft (pe_loaders (ca_env (demo_api failing_loaders))) (pw_dir (first_world demo_dir)) = (Inr ?dr, demo_dir)"
    by (simp add: demo_api_def first_world_def)
  have "to_lower ''message'' = ''message''" by code_simp
  then have body: "decodeJSON [''message'', ''expectedResourceVersion''] (Some (JObj [(''message'', JStr ''first'')])) = Inr ((\<lambda>_. [])(''message'' := ''first''))"
    by (simp add: decodeJSON_def)
  show ?thesis
    by (rule invalid_draft_publishes_as_internal_error [OF pub_reachable.first demo_idle _ load _ body])
      (simp_all add: no_call_faults_def no_publish_faults_def)
qed

section \<open>Listing versions\<close>

lemma sorted_desc: "distinct (map vs_seq vs) \<Longrightarrow> sorted_wrt (>) (map vs_seq (newest_first vs))"
proof -
  assume d: "distinct (map vs_seq vs)"
  have "distinct (map vs_seq (sort_key vs_seq vs))" using d by (simp add: distinct_map)
  moreover have "sorted (map vs_seq (sort_key vs_seq vs))" by simp
  ultimately have "sorted_wrt (<) (map vs_seq (sort_key vs_seq vs))" by (simp add: strict_sorted_iff)
  then show ?thesis by (simp add: newest_first_def rev_map [symmetric] sorted_wrt_rev)
qed

lemma sorted_wrt_sub: "sorted_wrt P xs \<Longrightarrow> sorted_wrt P (take n (drop k xs))"
  by (simp add: sorted_wrt_take sorted_wrt_drop)

text \<open>
  A page of versions.  A request with any limit and offset the API accepts answers the versions
  at that place of the list of all versions, newest first and each once, without those merely
  reserved; it has at most a thousand of them, and the total counts all.
\<close>

theorem version_page:
  assumes reach: "pub_reachable w" and page: "pagination limit offset = Inr (l, k)"
  shows "\<exists>vs. listConfigVersions A None limit offset (pw_db w) = writeJSON 200 (JObj
       [(''items'', JArr (map (versionResponse (ca_rfc A)) vs)),
        (''total'', JNum (int (length (filter visible (db_versions (pw_db w))))))]) \<and>
     sorted_wrt (>) (map vs_seq vs) \<and> set vs \<subseteq> {v \<in> set (db_versions (pw_db w)). visible v} \<and>
     length vs = min (nat l) (length (filter visible (db_versions (pw_db w))) - nat k) \<and> length vs \<le> 1000"
proof -
  let ?vs = "filter visible (db_versions (pw_db w))"
  let ?page = "take (nat l) (drop (nat k) (newest_first ?vs))"
  have lk: "1 \<le> l" "l \<le> 1000" "0 \<le> k"
    using page by (auto simp: pagination_def split: option.splits if_splits)
  have "distinct (map vs_seq (db_versions (pw_db w)))"
    using reachable_inv [OF reach] by (simp add: pub_inv_def vdb_inv_def vdb_wf_def)
  then have "distinct (map vs_seq ?vs)" by (simp add: distinct_map_filter)
  then have "sorted_wrt (>) (map vs_seq ?page)"
    using sorted_wrt_sub [OF sorted_desc] by (simp add: take_map drop_map)
  moreover have "set ?page \<subseteq> {v \<in> set (db_versions (pw_db w)). visible v}"
    using set_take_subset [of "nat l" "drop (nat k) (newest_first ?vs)"] set_drop_subset [of "nat k" "newest_first ?vs"]
    by (auto simp: newest_first_def)
  moreover have "length (newest_first ?vs) = length ?vs" by (simp add: newest_first_def)
  ultimately show ?thesis
    using lk page by (intro exI [of _ ?page]) (auto simp: listConfigVersions_def ListVersions_def Let_def)
qed

theorem version_page_witness:
  "\<exists>vs. listConfigVersions (demo_api demo_loaders) None [] [] (pw_db demo_published) = writeJSON 200 (JObj
     [(''items'', JArr (map (versionResponse (\<lambda>_. ''now'')) vs)),
      (''total'', JNum (int (length (filter visible (db_versions (pw_db demo_published))))))]) \<and> length vs \<le> 1000"
  using version_page [OF demo_pub_reachable, of "[]" "[]" 100 0 "demo_api demo_loaders"] by (auto simp: pagination_def demo_api_def)

section \<open>Reading a version changes it\<close>

text \<open>
  Reading the source of a version is not without effect.  A version published from an empty
  draft cannot be gone back to; after one request for its source, which answers an empty draft and
  creates the missing directories in the snapshot, it can.
\<close>

theorem reading_source_enables_rollback:
  assumes path: "versionPath raw = Inr seq" and row: "GetVersion seq (pw_db w) = Some v"
    and snap: "pw_snaps w seq = Some s" "sn_config s = None" and L: "L = pe_loaders (ca_env A)" "loadDir L [] = []"
    and now: "sourceFiles (pw_dir w) = Inr current" and ok: "faultless f"
    and req: "getConfigVersionSource A mtime None raw w = (resp, w')"
  shows "fst (RollbackSource L None f seq True (pw_snaps w) (pw_dir w)) \<noteq> None \<and> rs_status resp = 200 \<and>
     fst (RollbackSource L None f seq True (pw_snaps w') (pw_dir w')) = None"
proof -
  have pos: "0 < seq" using path by (auto simp: versionPath_def split: option.splits if_splits)
  let ?d = "[''config.d'' \<mapsto> Entries []]"
  have src: "sourceFiles ?d = Inr []" by (simp add: sourceFiles_def config_entries_def)
  have "LoadDraft L Map.empty = (Inr (protocol_info L []), ?d)"
    using L(2) src by (simp add: LoadDraft_def Let_def protocol_info_def)
  then have r: "readDraft L mtime Map.empty = (Inr (draft_json mtime (protocol_info L [])), ?d)" by (simp add: readDraft_def)
  have w': "w' = w\<lparr>pw_snaps := (pw_snaps w)(seq \<mapsto> s\<lparr>sn_config := Some ?d\<rparr>)\<rparr>" "rs_status resp = 200"
    using req path row snap r L(1) by (auto simp: getConfigVersionSource_def version_row_def Let_def snapshot_config_def writeJSON_def)
  have "fst (RollbackSource L None f seq True (pw_snaps w) (pw_dir w)) \<noteq> None"
    using pos snap by (simp add: RollbackSource_def snapshot_config_def)
  moreover have "DraftHash (sha256 L) (pw_dir w) = Inr (hashFiles (sha256 L) current)" using now by (simp add: DraftHash_def)
  then obtain h d' where "ReplaceDraft L None f ModeAbstract (map source_of []) (hashFiles (sha256 L) current) (pw_dir w) = (Inr h, d')"
    using replacement_installs [of "[]" L "pw_dir w" _ f] ok L(2) by (auto simp: protocol_set_def)
  then have "fst (RollbackSource L None f seq True (pw_snaps w') (pw_dir w')) = None"
    using w' pos now by (simp add: RollbackSource_def snapshot_config_def walk_files_def DraftHash_def Let_def)
  ultimately show ?thesis using w'(2) by blast
qed

definition empty_version :: pub_world where
  "empty_version = (first_world Map.empty)\<lparr>pw_snaps := [1 \<mapsto> \<lparr>sn_config = None, sn_meta = demo_meta\<rparr>],
     pw_db := empty_vdb\<lparr>db_versions := [(reserved_version 1 10)\<lparr>vs_state := ''effective''\<rparr>]\<rparr>\<rparr>"

theorem reading_source_enables_rollback_witness:
  "fst (RollbackSource demo_loaders None no_faults 1 True (pw_snaps empty_version) (pw_dir empty_version)) \<noteq> None \<and>
   fst (RollbackSource demo_loaders None no_faults 1 True
     (pw_snaps (snd (getConfigVersionSource (demo_api demo_loaders) (\<lambda>_. None) None ''1'' empty_version)))
     (pw_dir (snd (getConfigVersionSource (demo_api demo_loaders) (\<lambda>_. None) None ''1'' empty_version)))) = None"
proof -
  have "parse_int ''1'' = Some 1" by (simp add: parse_int_def read_nat_def is_digit_def)
  then have path: "versionPath ''1'' = Inr 1" by (simp add: versionPath_def)
  have row: "GetVersion 1 (pw_db empty_version) = Some ((reserved_version 1 10)\<lparr>vs_state := ''effective''\<rparr>)"
    by (simp add: empty_version_def GetVersion_def row_get_def reserved_version_def)
  have snap: "pw_snaps empty_version 1 = Some \<lparr>sn_config = None, sn_meta = demo_meta\<rparr>" by (simp add: empty_version_def)
  have L: "demo_loaders = pe_loaders (ca_env (demo_api demo_loaders))" "loadDir demo_loaders [] = []"
    by (simp_all add: demo_api_def demo_loaders_def)
  have now: "sourceFiles (pw_dir empty_version) = Inr []" by (simp add: empty_version_def first_world_def sourceFiles_def)
  from reading_source_enables_rollback [OF path row snap _ L now no_faults_faultless surjective_pairing, of "\<lambda>_. None"]
  show ?thesis by simp
qed

end
