(* ===== verification/PublishPage.thy ===== *)
theory PublishPage
  imports PublishServer DraftFlow
begin

text \<open>
  The publish dialog of the console and the publisher together.
\<close>

lemma publish_call_body:
  assumes "draft c = QSuccess (draft_json mtime dr)"
  shows "call_body (publish_call c) = Some (JObj [(''message'', JStr (pub_message c)), (''expectedResourceVersion'', JStr (dr_hash dr))])"
  using assms by (simp add: publish_call_def mutating_def js_coalesce_def js_is_nullish_def)

lemma decode_publish_body:
  "decodeJSON [''message'', ''expectedResourceVersion''] (Some (JObj [(''message'', JStr m), (''expectedResourceVersion'', JStr h)])) =
     Inr ((\<lambda>_. [])(''message'' := m, ''expectedResourceVersion'' := h))"
proof -
  have "to_lower ''message'' = ''message''" "to_lower ''expectedResourceVersion'' = ''expectedresourceversion''" by code_simp+
  then show ?thesis by (simp add: decodeJSON_def)
qed

text \<open>What the compilation for the check of changes finds when the publisher can compile the draft.\<close>

lemma compile_agrees:
  assumes "LoadDraft (pe_loaders E) d0 = (Inr dr, d)" and "draft_output E dr d = Inr (v, ej)"
  shows "\<exists>ds. compileDraft (pe_loaders E) (pe_compiler E) (pe_mode E) d0 = ((Some v, ds), d)"
  using assms by (auto simp: compileDraft_def draft_output_def Let_def split: if_splits option.splits dirent.splits sum.splits prod.splits)

text \<open>
  C18: publishing from the page.  Take a page that shows the draft that is on disk, a draft that
  compiles to something else than the effective version, with a message of at most 500 bytes, while
  no publish is active and nothing fails.  The request the dialog sends is accepted; the compiled
  version goes to the deliverer and is recorded, awaiting its confirmation, under the message of
  the dialog and the name of the signed-in user; and the page settles with the message cleared.
\<close>

theorem published_from_page:
  assumes reach: "pub_reachable w" and none: "ActivePublishRuns (pw_db w) = []" and fetch: "fetch_laws wrap"
    and page: "draft c = QSuccess (draft_json mtime dr)" "length (pub_message c) \<le> 500"
    and load: "LoadDraft (pe_loaders (ca_env A)) (pw_dir w) = (Inr dr, d)" and out: "draft_output (ca_env A) dr d = Inr (v, ej)"
    and mode: "ca_mode A = pe_mode (ca_env A)" "pe_mode (ca_env A) \<noteq> []"
    and new: "map_option vs_irVersion (LatestVersion ''effective'' (pw_db w)) \<noteq> Some v"
  shows "\<exists>resp w' seq ver. publishConfig A no_call_faults now (Some user) (call_body (publish_call c)) w = (resp, w') \<and>
     rs_status resp = 202 \<and> publish_settle (unwrap (wrap resp)) c = c\<lparr>publish := MSuccess, pub_message := []\<rparr> \<and>
     GetVersion seq (pw_db w') = Some ver \<and> vs_irVersion ver = v \<and> vs_state ver = ''confirming'' \<and>
     vs_author ver = user \<and> vs_message ver = pub_message c \<and> pw_applied w' = v # pw_applied w"
proof -
  let ?E = "ca_env A"
  let ?w = "w\<lparr>pw_dir := d\<rparr>"
  obtain ds where comp: "compileDraft (pe_loaders ?E) (pe_compiler ?E) (pe_mode ?E) (pw_dir w) = ((Some v, ds), d)"
    using compile_agrees [OF load out] by blast
  have again: "LoadDraft (pe_loaders ?E) (pw_dir ?w) = (Inr dr, d)" using LoadDraft_again [OF load] by simp
  have inv: "pub_inv ?w" using reachable_inv [OF reach] by (simp add: pub_inv_dir)
  have idle: "ActivePublishRuns (pw_db ?w) = []" using none by simp
  obtain res w' where P: "publishWithBaseLocked ?E no_publish_faults now user (pub_message c) (dr_hash dr) 0 ?w = ((res, None), w')"
    using publish_accepts [OF inv idle refl again disjI2 [OF refl] out] by blast
  have "vdb_inv (pw_db ?w)" using inv by (simp add: pub_inv_def)
  from publish_success [OF P this] again out
  have S: "published ?E now 0 ?w res w'" "recorded user (pub_message c) res (pw_db w')" "rs_irVersion res = v" by auto
  then obtain ver where ver: "GetVersion (rs_seq res) (pw_db w') = Some ver" "vs_irVersion ver = v" "vs_state ver = ''confirming''"
    "vs_author ver = user" "vs_message ver = pub_message c" and ap: "pw_applied w' = v # pw_applied w"
    by (auto simp: published_def awaits_confirmation_def recorded_def)
  let ?resp = "writeJSON 202 (publishResponse (ca_rfc A) ver (ca_status A) (ca_mode A))"
  have "publishConfig A no_call_faults now (Some user) (call_body (publish_call c)) w = (?resp, w')"
    using comp P page mode new ver(1)
    by (auto simp: publishConfig_def publish_call_body [OF page(1)] decode_publish_body Let_def no_call_faults_def
        PublishWithBase_def requestUser_def accepted_def)
  moreover have "unwrap (wrap ?resp) = Inr (rs_body ?resp)"
    using unwrap_fetch(1) [OF fetch, of ?resp] by (simp add: writeJSON_def response_ok_def)
  ultimately show ?thesis using ver ap by (simp add: publish_settle_def writeJSON_def) blast
qed

theorem published_from_page_witness:
  "\<exists>resp w' seq ver. publishConfig (demo_api demo_loaders) no_call_faults 10 (Some ''admin'')
      (call_body (publish_call (demo_page\<lparr>draft := QSuccess (draft_json (\<lambda>_. None) demo_info)\<rparr>))) (first_world demo_dir) = (resp, w') \<and>
     rs_status resp = 202 \<and> GetVersion seq (pw_db w') = Some ver \<and> vs_irVersion ver = ''ir2''"
proof -
  let ?c = "demo_page\<lparr>draft := QSuccess (draft_json (\<lambda>_. None) demo_info)\<rparr>"
  have env: "ca_env (demo_api demo_loaders) = demo_pub_env" by (simp add: demo_api_def demo_pub_env_def)
  have info: "protocol_info demo_loaders demo_seen = demo_info" by (simp add: protocol_info_def demo_info_def)
  have "LoadDraft (pe_loaders (ca_env (demo_api demo_loaders))) (pw_dir (first_world demo_dir)) = (Inr demo_info, demo_dir)"
    using demo_first env info by simp
  moreover have "draft_output (ca_env (demo_api demo_loaders)) demo_info demo_dir = Inr (''ir2'', [])"
    using demo_output env info by simp
  moreover have "LatestVersion ''effective'' (pw_db (first_world demo_dir)) = None"
    by (simp add: first_world_def empty_vdb_def LatestVersion_def newest_first_def)
  moreover have "length (pub_message ?c) \<le> 500" "draft ?c = QSuccess (draft_json (\<lambda>_. None) demo_info)" by (simp_all add: demo_page_def)
  moreover have "ca_mode (demo_api demo_loaders) = pe_mode (ca_env (demo_api demo_loaders))" "pe_mode (ca_env (demo_api demo_loaders)) \<noteq> []"
    by (simp_all add: demo_api_def demo_pub_env_def)
  ultimately show ?thesis
    using published_from_page [OF pub_reachable.first demo_idle demo_fetch_laws, of ?c] by (metis option.distinct(1) option.map_disc_iff)
qed

end
