(* ===== verification/LicenseScript.thy ===== *)
theory LicenseScript
  imports ConsoleKit "HOL-Library.Sorting_Algorithms" "HOL-Library.Char_ord" "HOL-Library.List_Lexorder"
begin

text \<open>
  The license inventory (\<open>scripts/dependency-licenses.mjs\<close>): one CSV row for every Go module the
  binary links and every npm package of the lock file.  The script reads its world at the top
  level; here the output of \<open>go list\<close>, the directories, the files and the parsed lock file are a
  record, and an exception is \<open>Inl\<close>.  \<open>localeCompare\<close> is the environment's, a comparator.
\<close>

section \<open>CSV\<close>

definition csv :: "jsval \<Rightarrow> string" where
  "csv v = [CHR 0x22] @ replace_char (CHR 0x22) [CHR 0x22, CHR 0x22] (js_string (js_coalesce v (JStr []))) @ [CHR 0x22]"

type_synonym row = "jsval list"

definition header :: row where
  "header = map JStr [''ecosystem'', ''name'', ''version'', ''license'', ''evidence'']"

definition render :: "row list \<Rightarrow> string" where
  "render rows = join_with [CHR 0x0A] (map (\<lambda>r. join_with '','' (map csv r)) rows) @ [CHR 0x0A]"

section \<open>Classification\<close>

definition classify :: "string \<Rightarrow> string" where
  "classify contents =
     (let normalized = to_lower contents; includes = str_includes normalized in
      if includes ''apache license'' \<and> includes ''version 2.0'' then ''Apache-2.0''
      else if includes ''mozilla public license'' \<and> includes ''2.0'' then ''MPL-2.0''
      else if includes ''isc license'' then ''ISC''
      else if includes ''mit license'' then ''MIT''
      else if includes ''permission is hereby granted, free of charge'' then ''MIT''
      else if includes ''redistribution and use in source and binary forms''
        then if includes ''neither the name'' then ''BSD-3-Clause'' else ''BSD-2-Clause''
      else if includes ''unicode license'' then ''Unicode-3.0''
      else if includes ''creative commons zero'' then ''CC0-1.0''
      else ''LicenseRef-See-File'')"

section \<open>Go modules\<close>

datatype script_error = Thrown string | EnvironmentError | JsTypeError

record world =
  go_list :: "string option"
  readdir :: "string \<Rightarrow> string list option"
  readFile :: "string \<Rightarrow> string \<Rightarrow> string option"
  lockfile :: "jsval option"

definition or_throw :: "'e \<Rightarrow> 'a option \<Rightarrow> 'e + 'a" where
  "or_throw e x = (case x of Some y \<Rightarrow> Inr y | None \<Rightarrow> Inl e)"

definition js_trim :: "string \<Rightarrow> string" where
  "js_trim s = (let blank = (\<lambda>c. js_blank [c]) in rev (dropWhile blank (rev (dropWhile blank s))))"

definition module_lines :: "string \<Rightarrow> string list" where
  "module_lines out = js_unique (filter (\<lambda>l. l \<noteq> []) (split_on (CHR 0x0A) (js_trim out)))"

text \<open>\<open>/^(license|copying|notice)(\.|$)/i\<close>\<close>

definition license_name :: "string \<Rightarrow> bool" where
  "license_name entry =
     list_ex (\<lambda>w. prefix w (to_lower entry) \<and> (entry = take (length w) entry \<or> prefix ''.'' (drop (length w) entry)))
       [''license'', ''copying'', ''notice'']"

definition js_basename :: "string \<Rightarrow> string" where
  "js_basename s = rev (takeWhile (\<lambda>c. c \<noteq> CHR ''/'') (dropWhile (\<lambda>c. c = CHR ''/'') (rev s)))"

text \<open>An absent piece of a line is \<open>undefined\<close>: it prints as that word, and no directory can be
  read under it.\<close>

definition piece :: "nat \<Rightarrow> string list \<Rightarrow> string" where
  "piece i ps = (if i < length ps then ps ! i else ''undefined'')"

definition go_row :: "world \<Rightarrow> string \<Rightarrow> script_error + row" where
  "go_row W line =
     (let ps = split_on (CHR ''|'') line; name = piece 0 ps; ver = piece 1 ps in
      if length ps < 3 then Inl EnvironmentError
      else bind_result (or_throw EnvironmentError (readdir W (ps ! 2))) (\<lambda>entries.
        bind_result (or_throw (Thrown (''Go module '' @ name @ ''@'' @ ver @ '' has no top-level license file''))
            (find license_name (List.sort entries))) (\<lambda>licenseFile.
        bind_result (or_throw EnvironmentError (readFile W (ps ! 2) licenseFile)) (\<lambda>contents.
        Inr (map JStr [''go'', name, ver, classify contents, name @ ''@'' @ ver @ ''/'' @ js_basename licenseFile])))))"

fun map_result :: "('a \<Rightarrow> 'e + 'b) \<Rightarrow> 'a list \<Rightarrow> 'e + 'b list" where
  "map_result f [] = Inr []"
| "map_result f (x # xs) = bind_result (f x) (\<lambda>y. bind_result (map_result f xs) (\<lambda>ys. Inr (y # ys)))"

section \<open>npm packages\<close>

text \<open>\<open>Object.entries\<close>\<close>

fun js_entries :: "jsval \<Rightarrow> (string \<times> jsval) list" where
  "js_entries (JObj ps) = ps"
| "js_entries (JArr xs) = zip (map string_of_nat [0..<length xs]) xs"
| "js_entries (JStr s) = zip (map string_of_nat [0..<length s]) (map (\<lambda>c. JStr [c]) s)"
| "js_entries _ = []"

text \<open>\<open>path.replace(/^.*node_modules\//, "")\<close>: up to the last occurrence the dot can reach, which
  does not pass a line break.\<close>

definition strip_modules :: "string \<Rightarrow> string" where
  "strip_modules p =
     (case filter (\<lambda>i. prefix ''node_modules/'' (drop i p) \<and> CHR 0x0A \<notin> set (take i p) \<and> CHR 0x0D \<notin> set (take i p))
        (rev [0..<Suc (length p)]) of
        [] \<Rightarrow> p
      | i # is \<Rightarrow> drop (i + 13) p)"

text \<open>One entry: nothing for a skipped one.\<close>

definition npm_row :: "string \<times> jsval \<Rightarrow> script_error + row list" where
  "npm_row e =
     (let path = fst e; metadata = snd e in
      if path = [] then Inr []
      else bind_result (or_throw JsTypeError (js_get metadata ''version'')) (\<lambda>ver.
        if \<not> js_truthy ver then Inr []
        else let name = strip_modules path; lic = js_get_opt metadata ''license'' in
          if \<not> js_truthy lic
          then Inl (Thrown (''npm package '' @ name @ ''@'' @ js_string ver @ '' has no license metadata''))
          else Inr [[JStr ''npm'', JStr name, ver, lic,
                     js_coalesce (js_get_opt metadata ''resolved'') (JStr ''package-lock.json'')]]))"

definition npm_rows :: "jsval \<Rightarrow> script_error + row list" where
  "npm_rows lock =
     bind_result (or_throw JsTypeError (js_get lock ''packages'')) (\<lambda>packages.
       bind_result (map_result npm_row (js_entries (js_coalesce packages (JObj [])))) (\<lambda>rss. Inr (concat rss)))"

section \<open>The script\<close>

definition sort_text :: "row \<Rightarrow> string" where
  "sort_text r = js_string (r ! 0) @ '':'' @ js_string (r ! 1)"

definition inventory :: "string comparator \<Rightarrow> world \<Rightarrow> script_error + row list" where
  "inventory localeCompare W =
     bind_result (or_throw EnvironmentError (go_list W)) (\<lambda>out.
     bind_result (map_result (go_row W) (module_lines out)) (\<lambda>go.
     bind_result (or_throw EnvironmentError (lockfile W)) (\<lambda>lock.
     bind_result (npm_rows lock) (\<lambda>npm.
     Inr (header # Sorting_Algorithms.sort (key sort_text localeCompare) (go @ npm))))))"

definition script :: "string comparator \<Rightarrow> world \<Rightarrow> script_error + string" where
  "script localeCompare W = bind_result (inventory localeCompare W) (\<lambda>rows. Inr (render rows))"

section \<open>Reading the inventory\<close>

text \<open>A reader of CSV in which every field is quoted (RFC 4180), as the specification of \<open>render\<close>:
  it scans the text once, with the field and the row read so far.\<close>

datatype csv_state = Begin | Inside | Closing

fun scan :: "csv_state \<Rightarrow> string \<Rightarrow> string list \<Rightarrow> string \<Rightarrow> string list list option" where
  "scan Begin f r [] = (if r = [] then Some [] else None)"
| "scan Inside f r [] = None"
| "scan Closing f r [] = None"
| "scan Begin f r (c # s) = (if c = CHR 0x22 then scan Inside [] r s else None)"
| "scan Inside f r (c # s) = (if c = CHR 0x22 then scan Closing f r s else scan Inside (f @ [c]) r s)"
| "scan Closing f r (c # s) =
     (if c = CHR 0x22 then scan Inside (f @ [c]) r s
      else if c = CHR '','' then scan Begin [] (r @ [f]) s
      else if c = CHR 0x0A then map_option ((#) (r @ [f])) (scan Begin [] [] s)
      else None)"

definition read_csv :: "string \<Rightarrow> string list list option" where
  "read_csv s = scan Begin [] [] s"

definition cell :: "jsval \<Rightarrow> string" where
  "cell v = js_string (js_coalesce v (JStr []))"

lemma scan_field: "scan Inside f r (replace_char (CHR 0x22) [CHR 0x22, CHR 0x22] v @ CHR 0x22 # s) = scan Closing (f @ v) r s"
  by (induction v arbitrary: f) auto

lemma scan_csv: "scan Begin f r (csv v @ s) = scan Closing (cell v) r s"
  by (simp add: csv_def cell_def scan_field)

lemma scan_row:
  "vs \<noteq> [] \<Longrightarrow> scan Begin f r (join_with '','' (map csv vs) @ CHR 0x0A # s) =
     map_option ((#) (r @ map cell vs)) (scan Begin [] [] s)"
proof (induction vs arbitrary: f r rule: induct_list012)
  case (3 x y zs)
  then show ?case by (simp add: scan_csv)
qed (simp_all add: scan_csv)

lemma read_render:
  assumes "\<forall>r \<in> set rows. r \<noteq> []" and "rows \<noteq> []"
  shows "read_csv (render rows) = Some (map (map cell) rows)"
  unfolding read_csv_def render_def using assms
proof (induction rows rule: induct_list012)
  case (3 x y zs)
  then show ?case by (simp add: scan_row)
qed (simp_all add: scan_row)

section \<open>Every dependency is listed\<close>

lemma map_result_Inr: "map_result f xs = Inr ys \<Longrightarrow> list_all2 (\<lambda>x y. f x = Inr y) xs ys"
  by (induction xs arbitrary: ys) (auto simp: bind_result_Inr_iff)

lemma or_throw_Inr [simp]: "or_throw e x = Inr y \<longleftrightarrow> x = Some y"
  by (cases x) (auto simp: or_throw_def)

lemma classify_not_Nil: "classify s \<noteq> []"
  by (simp add: classify_def Let_def)

definition row_ok :: "row \<Rightarrow> bool" where
  "row_ok r \<longleftrightarrow> length r = 5 \<and> js_truthy (r ! 3)"

lemma go_row_ok:
  assumes "go_row W l = Inr r"
  shows "row_ok r" and "r ! 1 = JStr (piece 0 (split_on (CHR ''|'') l))" and "r ! 2 = JStr (piece 1 (split_on (CHR ''|'') l))"
  using assms classify_not_Nil by (auto simp: go_row_def Let_def bind_result_Inr_iff row_ok_def split: if_splits)

text \<open>The lock file entries that are packages.\<close>

definition packaged :: "string \<times> jsval \<Rightarrow> bool" where
  "packaged e \<longleftrightarrow> fst e \<noteq> [] \<and> js_truthy (js_get_opt (snd e) ''version'')"

lemma npm_row_ok:
  assumes "npm_row e = Inr rs"
  shows "if packaged e then \<exists>r. rs = [r] \<and> row_ok r \<and> r ! 1 = JStr (strip_modules (fst e)) \<and> r ! 2 = js_get_opt (snd e) ''version''
         else rs = []"
  using assms by (auto simp: npm_row_def Let_def bind_result_Inr_iff row_ok_def packaged_def js_get_opt_def split: if_splits)

definition listed :: "row list \<Rightarrow> string \<Rightarrow> jsval \<Rightarrow> bool" where
  "listed rows name ver \<longleftrightarrow> (\<exists>r \<in> set rows. r ! 1 = JStr name \<and> r ! 2 = ver)"

lemma listed_simps [simp]:
  "listed [] n v \<longleftrightarrow> False"
  "listed (r # rs) n v \<longleftrightarrow> r ! 1 = JStr n \<and> r ! 2 = v \<or> listed rs n v"
  "listed (rs @ ts) n v \<longleftrightarrow> listed rs n v \<or> listed ts n v"
  by (auto simp: listed_def)

lemma npm_rows_ok:
  assumes "list_all2 (\<lambda>e rs. npm_row e = Inr rs) es rss"
  shows "length (concat rss) = length (filter packaged es) \<and> (\<forall>r \<in> set (concat rss). row_ok r) \<and>
    (\<forall>e \<in> set es. packaged e \<longrightarrow> listed (concat rss) (strip_modules (fst e)) (js_get_opt (snd e) ''version''))"
  using assms
proof (induction rule: list_all2_induct)
  case (Cons e es rs rss)
  then show ?case using npm_row_ok [of e rs] by (cases "packaged e") auto
qed simp

lemma go_rows_ok:
  assumes "list_all2 (\<lambda>l r. go_row W l = Inr r) ls rs"
  shows "length rs = length ls \<and> (\<forall>r \<in> set rs. row_ok r) \<and>
    (\<forall>l \<in> set ls. listed rs (piece 0 (split_on (CHR ''|'') l)) (JStr (piece 1 (split_on (CHR ''|'') l))))"
  using assms
proof (induction rule: list_all2_induct)
  case (Cons l ls r rs)
  then show ?case using go_row_ok [of W l r] by auto
qed simp

lemma listed_mset: "mset rows = mset (xs @ ys) \<Longrightarrow> listed xs n v \<or> listed ys n v \<Longrightarrow> listed rows n v"
  using mset_eq_setD [of rows "xs @ ys"] unfolding listed_def by auto

text \<open>
  C34: the license inventory is complete.  When the script ends without an exception, its output,
  whatever quotes, commas and line breaks the names and licenses contain, reads back as the header
  and one row of five fields for every distinct module line of \<open>go list\<close> and every package of the
  lock file, with its name, its version and a license, in the order of the comparator.
\<close>

theorem license_inventory_complete:
  assumes "script localeCompare W = Inr out"
  shows "\<exists>mods lock packages rows. go_list W = Some mods \<and> lockfile W = Some lock \<and> js_get lock ''packages'' = Some packages \<and>
     read_csv out = Some (map cell header # map (map cell) rows) \<and>
     (\<forall>r \<in> set rows. row_ok r) \<and> Sorting_Algorithms.sorted (key sort_text localeCompare) rows \<and>
     (\<forall>l \<in> set (module_lines mods).
        listed rows (piece 0 (split_on (CHR ''|'') l)) (JStr (piece 1 (split_on (CHR ''|'') l)))) \<and>
     (\<forall>e \<in> set (js_entries (js_coalesce packages (JObj []))). packaged e \<longrightarrow>
        listed rows (strip_modules (fst e)) (js_get_opt (snd e) ''version'')) \<and>
     length rows = length (module_lines mods) + length (filter packaged (js_entries (js_coalesce packages (JObj []))))"
proof -
  obtain mods go lock packages rss where w: "go_list W = Some mods" "lockfile W = Some lock"
      "js_get lock ''packages'' = Some packages"
    and go: "map_result (go_row W) (module_lines mods) = Inr go"
    and npm: "map_result npm_row (js_entries (js_coalesce packages (JObj []))) = Inr rss"
    and out: "out = render (header # Sorting_Algorithms.sort (key sort_text localeCompare) (go @ concat rss))"
    using assms by (auto simp: script_def inventory_def npm_rows_def bind_result_Inr_iff)
  define rows where "rows = Sorting_Algorithms.sort (key sort_text localeCompare) (go @ concat rss)"
  have m: "mset rows = mset (go @ concat rss)" and len: "length rows = length go + length (concat rss)"
    and srt: "Sorting_Algorithms.sorted (key sort_text localeCompare) rows" by (simp_all add: rows_def)
  note G = go_rows_ok [OF map_result_Inr [OF go]] and N = npm_rows_ok [OF map_result_Inr [OF npm]]
  have ok: "\<forall>r \<in> set rows. row_ok r" using G N mset_eq_setD [OF m] by auto
  then have "\<forall>r \<in> set (header # rows). r \<noteq> []" by (auto simp: row_ok_def header_def)
  from read_render [OF this] have "read_csv out = Some (map cell header # map (map cell) rows)"
    by (simp add: out flip: rows_def)
  with w ok srt G N len listed_mset [OF m] show ?thesis
    by (intro exI [of _ mods] exI [of _ lock] exI [of _ packages] exI [of _ rows]) auto
qed

definition demo_world :: world where
  "demo_world = \<lparr>go_list = Some ''m|v1|d'', readdir = (\<lambda>d. Some [''README'', ''LICENSE.md'']),
     readFile = (\<lambda>d f. Some ''The MIT License''),
     lockfile = Some (JObj [(''packages'', JObj [([], JObj []), (''node_modules/a'',
        JObj [(''version'', JStr ''1''), (''license'', JStr [CHR 0x22, CHR 0x0A])])])])\<rparr>"

theorem license_inventory_complete_witness:
  "\<exists>out rows. script flat demo_world = Inr out \<and> read_csv out = Some (map cell header # rows) \<and> length rows = 2"
proof -
  have "case script flat demo_world of Inl _ \<Rightarrow> False | Inr _ \<Rightarrow> True" by code_simp
  then obtain out where out: "script flat demo_world = Inr out" by (auto split: sum.splits)
  have "module_lines ''m|v1|d'' = [''m|v1|d'']" by code_simp
  then show ?thesis
    using license_inventory_complete [OF out] out
    by (force simp: demo_world_def js_coalesce_def js_is_nullish_def packaged_def js_get_opt_def)
qed

end
