(* ===== verification/DraftObjects.thy ===== *)
theory DraftObjects
  imports DraftEntries
begin

text \<open>
  Editing one document of the draft (\<open>internal/conf/crud.go\<close>): finding its file, replacing or
  removing the document in the file's YAML stream, and committing the new file after a strict load of
  the draft it would give.

  YAML is a parameter: the decoder gives the documents of a text, an empty one without a node, up to
  the end or an error; the encoder writes documents as one text.  The temporary file of a commit is
  hidden from every listing and removed with it, so only the failure of its steps shows.
\<close>

section \<open>Paths\<close>

definition path_join :: "string \<Rightarrow> string \<Rightarrow> string" where
  "path_join a b =
     (if a = [] \<and> b = [] then [] else if a = [] then path_clean b else if b = [] then path_clean a
      else path_clean (a @ slash # b))"

definition path_abs :: "string \<Rightarrow> string \<Rightarrow> string" where
  "path_abs cwd p = (if path_isAbs p then path_clean p else path_join cwd p)"

text \<open>\<open>filepath.Rel\<close> of two absolute clean paths.\<close>

definition path_comps :: "string \<Rightarrow> string list" where
  "path_comps p = filter (\<lambda>c. c \<noteq> []) (split_on slash p)"

fun rel_comps :: "string list \<Rightarrow> string list \<Rightarrow> string list" where
  "rel_comps (b # bs) (t # ts) = (if b = t then rel_comps bs ts else map (\<lambda>_. ''..'') (b # bs) @ t # ts)"
| "rel_comps bs ts = map (\<lambda>_. ''..'') bs @ ts"

definition path_rel :: "string \<Rightarrow> string \<Rightarrow> string" where
  "path_rel base targ =
     (let r = rel_comps (path_comps base) (path_comps targ) in if r = [] then ''.'' else join_with [slash] r)"

text \<open>The file of an origin, as its path in the data directory.\<close>

definition sourcePath :: "string \<Rightarrow> string \<Rightarrow> string \<Rightarrow> conf_error + string" where
  "sourcePath cwd dataDir file =
     (if dataDir = [] \<or> file = [] then Inl (ErrText ''data directory and origin file are required'')
      else
        let absData = path_abs cwd dataDir;
            absFile = path_abs cwd (if path_isAbs file then file else path_join absData file);
            rel = path_rel absData absFile
        in if rel = ''..'' \<or> prefix ''../'' rel then Inl (ErrText ''origin file is outside data directory'')
           else if path_ext absFile \<noteq> ''.yaml'' \<and> path_ext absFile \<noteq> ''.yml'' then Inl (ErrText ''origin file must be YAML'')
           else Inr rel)"

section \<open>Files of the data directory\<close>

definition file_at :: "data_dir \<Rightarrow> string \<Rightarrow> conf_error + string" where
  "file_at d p =
     (let missing = ErrNotFound (''open '' @ p @ '': no such file or directory'') in
      case split_on slash p of
        [n] \<Rightarrow> (case d n of Some (Contents c) \<Rightarrow> Inr c | Some (Entries _) \<Rightarrow> Inl (ErrText (''read '' @ p @ '': is a directory'')) | None \<Rightarrow> Inl missing)
      | [dir, n] \<Rightarrow> (case d dir of
            Some (Entries es) \<Rightarrow> (case map_of es n of Some c \<Rightarrow> Inr c | None \<Rightarrow> Inl missing)
          | Some (Contents _) \<Rightarrow> Inl (ErrText (''open '' @ p @ '': not a directory''))
          | None \<Rightarrow> Inl missing)
      | _ \<Rightarrow> Inl missing)"

definition put_entry :: "string \<Rightarrow> string \<Rightarrow> (string \<times> string) list \<Rightarrow> (string \<times> string) list" where
  "put_entry n c es = map (\<lambda>(k, x). (k, if k = n then c else x)) es"

definition put_file :: "string \<Rightarrow> string \<Rightarrow> data_dir \<Rightarrow> data_dir" where
  "put_file p c d =
     (case split_on slash p of
        [n] \<Rightarrow> d(n \<mapsto> Contents c)
      | [dir, n] \<Rightarrow> (case d dir of Some (Entries es) \<Rightarrow> d(dir \<mapsto> Entries (put_entry n c es)) | _ \<Rightarrow> d)
      | _ \<Rightarrow> d)"

definition remove_file :: "string \<Rightarrow> data_dir \<Rightarrow> data_dir" where
  "remove_file p d =
     (case split_on slash p of
        [n] \<Rightarrow> d(n := None)
      | [dir, n] \<Rightarrow> (case d dir of Some (Entries es) \<Rightarrow> d(dir \<mapsto> Entries (filter (\<lambda>(k, x). k \<noteq> n) es)) | _ \<Rightarrow> d)
      | _ \<Rightarrow> d)"

section \<open>Documents\<close>

record 'n yaml =
  y_decode :: "string \<Rightarrow> 'n option list \<times> string option"
  y_encode :: "'n list \<Rightarrow> string + string"

definition stream_docs :: "'n yaml \<Rightarrow> string \<Rightarrow> string + 'n list" where
  "stream_docs Y c =
     (case y_decode Y c of (ds, Some e) \<Rightarrow> Inl e | (ds, None) \<Rightarrow> Inr (List.map_filter (\<lambda>x. x) ds))"

text \<open>Only a second document that parses and has a node is refused.\<close>

definition parseSingleYAML :: "'n yaml \<Rightarrow> string \<Rightarrow> string + 'n" where
  "parseSingleYAML Y document =
     (case y_decode Y document of
        ([], Some e) \<Rightarrow> Inl e
      | ([], None) \<Rightarrow> Inl ''EOF''
      | (None # _, _) \<Rightarrow> Inl ''empty YAML document''
      | (Some n # Some m # _, _) \<Rightarrow> Inl ''replacement must contain one YAML document''
      | (Some n # _, _) \<Rightarrow> Inr n)"

record origin =
  or_file :: string
  or_docIndex :: int

record edit_faults =
  ef_temp :: "string option"
  ef_check :: "string option"
  ef_copy :: "string option"
  ef_rename :: "string option"
  ef_remove :: "string option"

definition replaced_in :: "string \<Rightarrow> string \<Rightarrow> (string \<times> string) list \<Rightarrow> (string \<times> string) list" where
  "replaced_in p content files = map (\<lambda>(q, c). (q, if q = p then content else c)) files"

definition commitValidated ::
    "loaders \<Rightarrow> edit_faults \<Rightarrow> string \<Rightarrow> string \<Rightarrow> data_dir \<Rightarrow> conf_error option \<times> data_dir" where
  "commitValidated L f p content d =
     (case ef_temp f of Some m \<Rightarrow> (Some (ErrText m), d) | None \<Rightarrow>
      (case ef_check f of Some m \<Rightarrow> (Some (ErrText m), d) | None \<Rightarrow>
       (case sourceFiles d of Inl e \<Rightarrow> (Some e, d) | Inr files \<Rightarrow>
        (case ef_copy f of Some m \<Rightarrow> (Some (ErrText m), d) | None \<Rightarrow>
          let errs = loadDir L (filter (\<lambda>(q, c). q \<noteq> ''native.yaml'') (replaced_in p content files)) in
          if errs \<noteq> [] then (Some (ErrText (''draft validation failed: '' @ le_text (hd errs))), d)
          else (case ef_rename f of Some m \<Rightarrow> (Some (ErrText m), d) | None \<Rightarrow> (None, put_file p content d))))))"

definition index_error :: "int \<Rightarrow> 'n list \<Rightarrow> conf_error" where
  "index_error i docs =
     ErrText (''origin document index '' @ string_of_int i @ '' out of range (documents='' @ string_of_nat (length docs) @ '')'')"

definition WriteDraftDocument ::
    "'n yaml \<Rightarrow> loaders \<Rightarrow> edit_faults \<Rightarrow> string \<Rightarrow> string \<Rightarrow> origin \<Rightarrow> string \<Rightarrow> data_dir \<Rightarrow> conf_error option \<times> data_dir" where
  "WriteDraftDocument Y L f cwd dataDir org document d =
     (case sourcePath cwd dataDir (or_file org) of Inl e \<Rightarrow> (Some e, d) | Inr p \<Rightarrow>
      (case parseSingleYAML Y document of Inl e \<Rightarrow> (Some (ErrText (''parse replacement document: '' @ e)), d) | Inr n \<Rightarrow>
       (case file_at d p of
          Inl (ErrNotFound m) \<Rightarrow> (Some (ErrNotFound (''read draft source: '' @ m)), d)
        | Inl (ErrText m) \<Rightarrow> (Some (ErrText (''read draft source: '' @ m)), d)
        | Inl e \<Rightarrow> (Some e, d)
        | Inr original \<Rightarrow>
          (case stream_docs Y original of Inl e \<Rightarrow> (Some (ErrText (''parse draft source: '' @ e)), d) | Inr docs \<Rightarrow>
            if or_docIndex org < 0 \<or> int (length docs) \<le> or_docIndex org then (Some (index_error (or_docIndex org) docs), d)
            else (case y_encode Y (docs[nat (or_docIndex org) := n]) of
                    Inl e \<Rightarrow> (Some (ErrText e), d)
                  | Inr out \<Rightarrow> commitValidated L f p out d)))))"

definition without_nth :: "nat \<Rightarrow> 'a list \<Rightarrow> 'a list" where
  "without_nth i xs = take i xs @ drop (Suc i) xs"

definition DeleteDraftDocument ::
    "'n yaml \<Rightarrow> loaders \<Rightarrow> edit_faults \<Rightarrow> string \<Rightarrow> string \<Rightarrow> origin \<Rightarrow> data_dir \<Rightarrow> conf_error option \<times> data_dir" where
  "DeleteDraftDocument Y L f cwd dataDir org d =
     (case sourcePath cwd dataDir (or_file org) of Inl e \<Rightarrow> (Some e, d) | Inr p \<Rightarrow>
      (case file_at d p of Inl e \<Rightarrow> (Some e, d) | Inr original \<Rightarrow>
       (case stream_docs Y original of Inl e \<Rightarrow> (Some (ErrText e), d) | Inr docs \<Rightarrow>
         if or_docIndex org < 0 \<or> int (length docs) \<le> or_docIndex org then (Some (index_error (or_docIndex org) docs), d)
         else
           let rest = without_nth (nat (or_docIndex org)) docs in
           if rest = []
           then (case ef_remove f of Some m \<Rightarrow> (Some (ErrText m), d) | None \<Rightarrow> (None, remove_file p d))
           else (case y_encode Y rest of
                   Inl e \<Rightarrow> (Some (ErrText e), d)
                 | Inr out \<Rightarrow> commitValidated L f p out d))))"


section \<open>The file of an origin\<close>

lemma foldl_clean_entries:
  "\<forall>x \<in> set cs. slash \<notin> set x \<Longrightarrow> \<forall>x \<in> set st. entry_name x \<Longrightarrow> \<forall>x \<in> set (foldl (clean_step True) st cs). entry_name x"
proof (induction cs arbitrary: st)
  case (Cons c cs)
  have "\<forall>x \<in> set (clean_step True st c). entry_name x"
    using Cons.prems by (auto simp: clean_step_def entry_name_def split: list.splits)
  with Cons show ?case by simp
qed simp

lemma foldl_clean_id: "\<forall>x \<in> set cs. entry_name x \<Longrightarrow> foldl (clean_step r) st cs = rev cs @ st"
  by (induction cs arbitrary: st) (auto simp: clean_step_def entry_name_def)

text \<open>An absolute clean path is the slash and its components.\<close>

definition rooted_path :: "string list \<Rightarrow> string" where
  "rooted_path cs = slash # join_with [slash] cs"

lemma split_rooted_path:
  assumes "\<forall>x \<in> set cs. entry_name x"
  shows "split_on slash (rooted_path cs) = [] # (if cs = [] then [[]] else cs)"
  using split_on_join [of cs slash] assms by (auto simp: rooted_path_def entry_name_def)

lemma rooted_path_isAbs [simp]: "path_isAbs (rooted_path cs)"
  by (simp add: path_isAbs_def rooted_path_def)

lemma rooted_path_clean:
  assumes "\<forall>x \<in> set cs. entry_name x"
  shows "path_clean (rooted_path cs) = rooted_path cs"
proof -
  have "clean_step True st [] = st" for st by (simp add: clean_step_def)
  then have "foldl (clean_step True) [] (split_on slash (rooted_path cs)) = rev cs"
    using foldl_clean_id [OF assms] by (simp add: split_rooted_path [OF assms])
  then show ?thesis by (simp add: path_clean_def Let_def) (simp add: rooted_path_def)
qed

lemma path_comps_rooted: "\<forall>x \<in> set cs. entry_name x \<Longrightarrow> path_comps (rooted_path cs) = cs"
  by (auto simp: path_comps_def split_rooted_path filter_id_conv entry_name_def)

lemma clean_absolute:
  assumes "path_isAbs D" and "path_clean D = D"
  obtains cs where "D = rooted_path cs" and "\<forall>x \<in> set cs. entry_name x"
proof (rule that)
  let ?cs = "rev (foldl (clean_step True) [] (split_on slash D))"
  show "D = rooted_path ?cs"
    using assms by (auto simp: path_clean_def Let_def path_isAbs_def rooted_path_def)
  show "\<forall>x \<in> set ?cs. entry_name x"
    using foldl_clean_entries [of "split_on slash D" "[]"] by (simp add: split_on_no_sep)
qed

lemma path_join_rooted:
  assumes "\<forall>x \<in> set cs. entry_name x" and "entry_name n"
  shows "path_join (rooted_path cs) (''config.d/'' @ n) = rooted_path (cs @ [''config.d'', n])"
proof -
  let ?F = "rooted_path cs @ slash # ''config.d/'' @ n"
  have n: "slash \<notin> set n" using assms(2) by (simp add: entry_name_def)
  have "split_on slash ?F = split_on slash (rooted_path cs) @ [''config.d'', n]"
    using split_on_append [OF n, of "rooted_path cs @ slash # ''config.d''"]
      split_on_append [of slash "''config.d''" "rooted_path cs"] by simp
  moreover have "clean_step True st [] = st" for st by (simp add: clean_step_def)
  moreover have "clean_step True st ''config.d'' = ''config.d'' # st" "clean_step True st n = n # st" for st
    using assms(2) by (simp_all add: clean_step_def entry_name_def)
  ultimately have "foldl (clean_step True) [] (split_on slash ?F) = rev (cs @ [''config.d'', n])"
    using foldl_clean_id [OF assms(1)] by (simp add: split_rooted_path [OF assms(1)])
  moreover have "path_isAbs ?F" by (simp add: path_isAbs_def rooted_path_def)
  moreover have "rooted_path cs \<noteq> []" by (simp add: rooted_path_def)
  ultimately show ?thesis
    by (simp add: path_join_def path_clean_def Let_def) (simp add: rooted_path_def)
qed

lemma rel_comps_below [simp]: "rel_comps bs (bs @ ts) = ts"
proof (induction bs)
  case Nil
  then show ?case by (cases ts) simp_all
qed simp

lemma join_with_last2: "join_with [slash] (out @ [a, b]) = join_with [slash] (out @ [a]) @ slash # b"
  by (induction out rule: induct_list012) auto

text \<open>The loader names a file by joining the directory and the name; in a data directory given by an
  absolute path that is the file itself.\<close>

lemma sourcePath_member:
  assumes D: "path_isAbs D" "path_clean D = D" and p: "entry_path p"
  shows "sourcePath cwd D (path_join D p) = Inr p"
proof -
  obtain n where n: "p = ''config.d/'' @ n" "entry_name n" "yaml_name n" using p by (auto simp: entry_path_def)
  obtain cs where cs: "D = rooted_path cs" "\<forall>x \<in> set cs. entry_name x" using clean_absolute [OF D] by metis
  let ?F = "rooted_path (cs @ [''config.d'', n])"
  have all: "\<forall>x \<in> set (cs @ [''config.d'', n]). entry_name x" using cs(2) n(2) by (simp add: entry_name_def)
  have F: "path_join D p = ?F" unfolding cs(1) n(1) by (rule path_join_rooted [OF cs(2) n(2)])
  have rel: "path_rel D ?F = p"
    using path_comps_rooted [OF cs(2)] path_comps_rooted [OF all] by (simp add: path_rel_def cs(1) n(1))
  have "slash \<notin> set n" using n(2) by (simp add: entry_name_def)
  then have ext: "path_ext ?F = path_ext n"
    using path_ext_base [of n "slash # join_with [slash] (cs @ [''config.d''])"] by (simp add: rooted_path_def join_with_last2)
  have np: "\<not> prefix ''../'' p" "p \<noteq> ''..''" by (simp_all add: n(1))
  have ne: "D \<noteq> []" "?F \<noteq> []" by (simp_all add: cs(1) rooted_path_def)
  show ?thesis
    using ne D rooted_path_clean [OF all] rel ext np n(3)
    by (simp add: F sourcePath_def path_abs_def Let_def yaml_name_def)
qed

section \<open>Editing a file of the draft\<close>

lemma sort_key_map: "sort_key k (map g xs) = map g (sort_key (\<lambda>x. k (g x)) xs)"
proof -
  have "insort_key k (g x) (map g ys) = map g (insort_key (\<lambda>x. k (g x)) x ys)" for x ys
    by (induction ys) auto
  then show ?thesis by (induction xs) auto
qed

lemma split_entry_path: "slash \<notin> set n \<Longrightarrow> split_on slash (''config.d/'' @ n) = [''config.d'', n]"
  using split_on_append [of slash n "''config.d''"] by (simp add: split_on_notin)

lemma protocol_files_of:
  assumes "sourceFiles d = Inr files" and "d ''native.yaml'' = None" and "files \<noteq> []"
  obtains es where "d ''config.d'' = Some (Entries es)" and "files = sort_key fst (config_entries es)"
  using assms by (auto simp: sourceFiles_def config_entries_def split: option.splits dirent.splits)

text \<open>What \<open>os.ReadFile\<close> gives for a listed file is the content it is listed with.\<close>

lemma file_at_listed:
  assumes wf: "dir_wf d" and src: "sourceFiles d = Inr files" "d ''native.yaml'' = None" and mem: "(p, c) \<in> set files"
    and p: "entry_path p"
  shows "file_at d p = Inr c"
proof -
  have "files \<noteq> []" using mem by auto
  then obtain es where es: "d ''config.d'' = Some (Entries es)" "files = sort_key fst (config_entries es)"
    using protocol_files_of [OF src] by metis
  obtain n where n: "p = ''config.d/'' @ n" "entry_name n" using p by (auto simp: entry_path_def)
  have "(n, c) \<in> set es" using mem es(2) n(1) by (auto simp: config_entries_def)
  moreover have "distinct (map fst es)" using wf es(1) by (simp add: dir_wf_def)
  ultimately have "map_of es n = Some c" by simp
  moreover have "split_on slash p = [''config.d'', n]"
    using split_entry_path n by (simp add: entry_name_def)
  ultimately show ?thesis using es(1) by (simp add: file_at_def)
qed

lemma sourceFiles_put_file:
  assumes src: "sourceFiles d = Inr files" "d ''native.yaml'' = None" "files \<noteq> []" and p: "entry_path p"
  shows "sourceFiles (put_file p c d) = Inr (replaced_in p c files)"
proof -
  obtain es where es: "d ''config.d'' = Some (Entries es)" "files = sort_key fst (config_entries es)"
    using protocol_files_of [OF src] by metis
  obtain n where n: "p = ''config.d/'' @ n" "entry_name n" using p by (auto simp: entry_path_def)
  have "split_on slash p = [''config.d'', n]" using split_entry_path n by (simp add: entry_name_def)
  then have d': "put_file p c d = d(''config.d'' \<mapsto> Entries (put_entry n c es))" using es(1) by (simp add: put_file_def)
  have "config_entries (put_entry n c es) = replaced_in p c (config_entries es)"
    by (induction es) (auto simp: config_entries_def put_entry_def replaced_in_def n(1))
  then have "sort_key fst (config_entries (put_entry n c es)) = replaced_in p c files"
    by (simp add: es(2) replaced_in_def sort_key_map case_prod_unfold)
  then show ?thesis using src(2) by (simp add: sourceFiles_def d')
qed

lemma sourceFiles_remove_file:
  assumes src: "sourceFiles d = Inr files" "d ''native.yaml'' = None" "files \<noteq> []" and p: "entry_path p"
  shows "sourceFiles (remove_file p d) = Inr (filter (\<lambda>(q, c). q \<noteq> p) files)"
proof -
  obtain es where es: "d ''config.d'' = Some (Entries es)" "files = sort_key fst (config_entries es)"
    using protocol_files_of [OF src] by metis
  obtain n where n: "p = ''config.d/'' @ n" "entry_name n" using p by (auto simp: entry_path_def)
  have "split_on slash p = [''config.d'', n]" using split_entry_path n by (simp add: entry_name_def)
  then have d': "remove_file p d = d(''config.d'' \<mapsto> Entries (filter (\<lambda>(k, x). k \<noteq> n) es))"
    using es(1) by (simp add: remove_file_def)
  have "config_entries (filter (\<lambda>(k, x). k \<noteq> n) es) = filter (\<lambda>(q, c). q \<noteq> p) (config_entries es)"
    by (induction es) (auto simp: config_entries_def n(1))
  then have "sort_key fst (config_entries (filter (\<lambda>(k, x). k \<noteq> n) es)) = filter (\<lambda>(q, c). q \<noteq> p) files"
    by (simp add: es(2) filter_sort)
  then show ?thesis using src(2) by (simp add: sourceFiles_def d')
qed

lemma commitValidated_cases:
  assumes "commitValidated L f p content d = (res, d')"
  obtains e where "res = Some e" and "d' = d"
  | files where "res = None" and "d' = put_file p content d" and "sourceFiles d = Inr files"
      and "loadDir L (filter (\<lambda>(q, c). q \<noteq> ''native.yaml'') (replaced_in p content files)) = []"
  using assms by (auto simp: commitValidated_def Let_def split: option.splits sum.splits if_splits)

text \<open>What the YAML library promises: a text it wrote reads back as the documents it was written from.\<close>

definition yaml_laws :: "'n yaml \<Rightarrow> bool" where
  "yaml_laws Y \<longleftrightarrow> (\<forall>ns t. y_encode Y ns = Inr t \<longrightarrow> y_decode Y t = (map Some ns, None))"

lemma encoded_docs: "yaml_laws Y \<Longrightarrow> y_encode Y ns = Inr t \<Longrightarrow> stream_docs Y t = Inr ns"
  by (simp add: yaml_laws_def stream_docs_def List.map_filter_def comp_def)


lemma replaced_in_fst: "map fst (replaced_in p c files) = map fst files"
  by (simp add: replaced_in_def case_prod_unfold comp_def)

text \<open>The files of a protocol draft are all \<open>config.d\<close> files, so the load before the commit sees all of them.\<close>

lemma listed_not_native:
  assumes "\<forall>q \<in> set (map fst files). entry_path q"
  shows "filter (\<lambda>(q, c). q \<noteq> ''native.yaml'') files = files"
proof -
  have "q \<noteq> ''native.yaml''" if "entry_path q" for q using that by (auto simp: entry_path_def)
  with assms show ?thesis by (fastforce simp: filter_id_conv)
qed

lemma all_listed_not_native:
  assumes "\<forall>q \<in> set (map fst files). entry_path q"
  shows "filter (\<lambda>(q, c). q \<noteq> ''native.yaml'') (replaced_in p x files) = replaced_in p x files"
  by (rule listed_not_native) (use assms in \<open>simp only: replaced_in_fst\<close>)

text \<open>
  An edit of one document changes that document and nothing else.  Take a protocol draft in a data
  directory with an absolute path, one of its files, and the origin the loader gives a document of
  it.  When the edit fails, whatever failed, the data directory is as it was.  When it succeeds, the
  file holds the same documents with the one replaced, every other file is as it was, and the loader
  accepts the whole draft.
\<close>

theorem write_document_changes_one:
  assumes D: "path_isAbs D" "path_clean D = D" and Y: "yaml_laws Y"
    and d: "dir_wf d" "sourceFiles d = Inr files" "d ''native.yaml'' = None" "\<forall>q \<in> set (map fst files). entry_path q"
    and mem: "(p, c) \<in> set files"
    and run: "WriteDraftDocument Y L f cwd D \<lparr>or_file = path_join D p, or_docIndex = i\<rparr> document d = (res, d')"
  shows "(res \<noteq> None \<longrightarrow> d' = d) \<and>
    (res = None \<longrightarrow> (\<exists>docs n c'. stream_docs Y c = Inr docs \<and> 0 \<le> i \<and> nat i < length docs \<and> parseSingleYAML Y document = Inr n \<and>
       stream_docs Y c' = Inr (docs[nat i := n]) \<and> sourceFiles d' = Inr (replaced_in p c' files) \<and>
       loadDir L (replaced_in p c' files) = [] \<and> d' = put_file p c' d))"
proof -
  have p: "entry_path p" using d(4) mem by force
  have ne: "files \<noteq> []" using mem by auto
  have path: "sourcePath cwd D (path_join D p) = Inr p" by (rule sourcePath_member [OF D p])
  have at: "file_at d p = Inr c" by (rule file_at_listed [OF d(1-3) mem p])
  show ?thesis
  proof (cases "res = None")
    case False
    have "d' = d"
      using run False path at by (auto simp: WriteDraftDocument_def split: sum.splits if_splits elim: commitValidated_cases)
    with False show ?thesis by blast
  next
    case True
    from run True path at obtain n docs out where
      e: "parseSingleYAML Y document = Inr n" "stream_docs Y c = Inr docs" "0 \<le> i" "i < int (length docs)"
         "y_encode Y (docs[nat i := n]) = Inr out" "commitValidated L f p out d = (None, d')"
      by (auto simp: WriteDraftDocument_def split: sum.splits if_splits)
    from e(6) have c: "d' = put_file p out d" "loadDir L (replaced_in p out files) = []"
      using d(2) all_listed_not_native [OF d(4)] by (auto elim!: commitValidated_cases)
    have "nat i < length docs" using e(3,4) by simp
    moreover have "stream_docs Y out = Inr (docs[nat i := n])" by (rule encoded_docs [OF Y e(5)])
    moreover have "sourceFiles d' = Inr (replaced_in p out files)"
      unfolding c(1) by (rule sourceFiles_put_file [OF d(2,3) ne p])
    ultimately show ?thesis using True e(1-3) c by blast
  qed
qed

text \<open>A codec whose documents are the characters of the text, and a data directory of one file.\<close>

definition demo_yaml :: "char yaml" where
  "demo_yaml = \<lparr>y_decode = \<lambda>t. (map Some t, None), y_encode = Inr\<rparr>"

definition no_edit_faults :: edit_faults where
  "no_edit_faults = \<lparr>ef_temp = None, ef_check = None, ef_copy = None, ef_rename = None, ef_remove = None\<rparr>"

definition demo_files :: "(string \<times> string) list" where
  "demo_files = [(''config.d/a.yaml'', ''xyz''), (''config.d/b.yaml'', ''u'')]"

definition demo_data :: data_dir where
  "demo_data = [''config.d'' \<mapsto> Entries [(''a.yaml'', ''xyz''), (''b.yaml'', ''u'')]]"

definition any_loaders :: loaders where
  "any_loaders = \<lparr>sha256 = (\<lambda>s. s), loadDir = (\<lambda>_. []), loadNative = Inr\<rparr>"

lemma demo_yaml_laws: "yaml_laws demo_yaml"
  by (simp add: yaml_laws_def demo_yaml_def)

lemma demo_data_facts:
  "dir_wf demo_data" "sourceFiles demo_data = Inr demo_files" "demo_data ''native.yaml'' = None"
  "\<forall>q \<in> set (map fst demo_files). entry_path q" "path_isAbs ''/data''" "path_clean ''/data'' = ''/data''"
proof -
  show "dir_wf demo_data" "sourceFiles demo_data = Inr demo_files" "demo_data ''native.yaml'' = None"
    "path_isAbs ''/data''" "path_clean ''/data'' = ''/data''" by code_simp+
  have "entry_path (''config.d/'' @ n)" if "entry_name n" "yaml_name n" for n using that by (auto simp: entry_path_def)
  from this [of "''a.yaml''"] this [of "''b.yaml''"] show "\<forall>q \<in> set (map fst demo_files). entry_path q"
    by (simp add: demo_files_def entry_name_def yaml_name_def path_ext_def)
qed

theorem write_document_changes_one_witness:
  "\<exists>d' c'. WriteDraftDocument demo_yaml any_loaders no_edit_faults ''/'' ''/data''
       \<lparr>or_file = path_join ''/data'' ''config.d/a.yaml'', or_docIndex = 1\<rparr> ''n'' demo_data = (None, d') \<and>
     sourceFiles d' = Inr (replaced_in ''config.d/a.yaml'' c' demo_files) \<and> stream_docs demo_yaml c' = Inr ''xnz''"
proof -
  let ?W = "WriteDraftDocument demo_yaml any_loaders no_edit_faults ''/'' ''/data''
       \<lparr>or_file = path_join ''/data'' ''config.d/a.yaml'', or_docIndex = 1\<rparr> ''n'' demo_data"
  have ok: "fst ?W = None" by code_simp
  then have run: "?W = (None, snd ?W)" by (metis prod.collapse)
  have mem: "(''config.d/a.yaml'', ''xyz'') \<in> set demo_files" by (simp add: demo_files_def)
  have "stream_docs demo_yaml ''xyz'' = Inr ''xyz''" "parseSingleYAML demo_yaml ''n'' = Inr (CHR ''n'')" by code_simp+
  then show ?thesis
    using write_document_changes_one [OF demo_data_facts(5,6) demo_yaml_laws demo_data_facts(1-4) mem run] run by auto
qed

text \<open>
  Removing one document.  Under the same conditions, a removal that fails leaves the data directory
  as it was.  One that succeeds leaves the other documents of the file and every other file as they
  were, and a draft the loader accepts; a file whose last document is removed goes with it, and in
  that case the rest of the draft is not loaded again.
\<close>

theorem delete_document_removes_one:
  assumes D: "path_isAbs D" "path_clean D = D" and Y: "yaml_laws Y"
    and d: "dir_wf d" "sourceFiles d = Inr files" "d ''native.yaml'' = None" "\<forall>q \<in> set (map fst files). entry_path q"
    and mem: "(p, c) \<in> set files"
    and run: "DeleteDraftDocument Y L f cwd D \<lparr>or_file = path_join D p, or_docIndex = i\<rparr> d = (res, d')"
  shows "(res \<noteq> None \<longrightarrow> d' = d) \<and>
    (res = None \<longrightarrow> (\<exists>docs. stream_docs Y c = Inr docs \<and> 0 \<le> i \<and> nat i < length docs \<and>
       (if length docs = 1 then sourceFiles d' = Inr (filter (\<lambda>(q, x). q \<noteq> p) files) \<and> d' = remove_file p d
        else \<exists>c'. stream_docs Y c' = Inr (take (nat i) docs @ drop (Suc (nat i)) docs) \<and>
               sourceFiles d' = Inr (replaced_in p c' files) \<and> loadDir L (replaced_in p c' files) = [] \<and> d' = put_file p c' d)))"
proof -
  have p: "entry_path p" using d(4) mem by force
  have ne: "files \<noteq> []" using mem by auto
  have path: "sourcePath cwd D (path_join D p) = Inr p" by (rule sourcePath_member [OF D p])
  have at: "file_at d p = Inr c" by (rule file_at_listed [OF d(1-3) mem p])
  show ?thesis
  proof (cases "res = None")
    case False
    have "d' = d"
      using run False path at
      by (auto simp: DeleteDraftDocument_def Let_def split: sum.splits if_splits option.splits elim: commitValidated_cases)
    with False show ?thesis by blast
  next
    case True
    from run True path at obtain docs where e: "stream_docs Y c = Inr docs" "0 \<le> i" "i < int (length docs)"
      by (auto simp: DeleteDraftDocument_def split: sum.splits if_splits)
    let ?rest = "without_nth (nat i) docs"
    have i: "nat i < length docs" using e(2,3) by simp
    have "length ?rest = length docs - 1" using i by (simp add: without_nth_def)
    then have nil: "?rest = [] \<longleftrightarrow> length docs = 1" using i by (cases docs) auto
    show ?thesis
    proof (cases "?rest = []")
      case empty: True
      then have "d' = remove_file p d"
        using run True path at e by (auto simp: DeleteDraftDocument_def Let_def split: option.splits)
      moreover from this have "sourceFiles d' = Inr (filter (\<lambda>(q, x). q \<noteq> p) files)"
        using sourceFiles_remove_file [OF d(2,3) ne p] by simp
      ultimately show ?thesis using True e(1,2) i nil empty by auto
    next
      case more: False
      then obtain out where o: "y_encode Y ?rest = Inr out" "commitValidated L f p out d = (None, d')"
        using run True path at e by (auto simp: DeleteDraftDocument_def Let_def split: sum.splits)
      from o(2) have c: "d' = put_file p out d" "loadDir L (replaced_in p out files) = []"
        using d(2) all_listed_not_native [OF d(4)] by (auto elim!: commitValidated_cases)
      have "stream_docs Y out = Inr (take (nat i) docs @ drop (Suc (nat i)) docs)"
        using encoded_docs [OF Y o(1)] by (simp add: without_nth_def)
      moreover have "sourceFiles d' = Inr (replaced_in p out files)"
        unfolding c(1) by (rule sourceFiles_put_file [OF d(2,3) ne p])
      ultimately show ?thesis using True e(1,2) i nil more c by auto
    qed
  qed
qed

theorem delete_document_removes_one_witness:
  "\<exists>d'. DeleteDraftDocument demo_yaml any_loaders no_edit_faults ''/'' ''/data''
       \<lparr>or_file = path_join ''/data'' ''config.d/b.yaml'', or_docIndex = 0\<rparr> demo_data = (None, d') \<and>
     sourceFiles d' = Inr [(''config.d/a.yaml'', ''xyz'')]"
proof -
  let ?W = "DeleteDraftDocument demo_yaml any_loaders no_edit_faults ''/'' ''/data''
       \<lparr>or_file = path_join ''/data'' ''config.d/b.yaml'', or_docIndex = 0\<rparr> demo_data"
  have ok: "fst ?W = None" by code_simp
  then have run: "?W = (None, snd ?W)" by (metis prod.collapse)
  have mem: "(''config.d/b.yaml'', ''u'') \<in> set demo_files" by (simp add: demo_files_def)
  have "stream_docs demo_yaml ''u'' = Inr ''u''" by code_simp
  then show ?thesis
    using delete_document_removes_one [OF demo_data_facts(5,6) demo_yaml_laws demo_data_facts(1-4) mem run] run
    by (auto simp: demo_files_def)
qed

text \<open>
  With a relative data directory the loader's file names are relative to the working directory, while
  \<open>sourcePath\<close> resolves them against the data directory once more.
\<close>

lemma relative_data_directory_misses:
  "sourcePath ''/srv'' ''data'' (path_join ''data'' ''config.d/a.yaml'') = Inr ''data/config.d/a.yaml''"
  "WriteDraftDocument demo_yaml any_loaders no_edit_faults ''/srv'' ''data''
     \<lparr>or_file = path_join ''data'' ''config.d/a.yaml'', or_docIndex = 1\<rparr> ''n'' demo_data =
   (Some (ErrNotFound ''read draft source: open data/config.d/a.yaml: no such file or directory''), demo_data)"
proof -
  let ?o = "\<lparr>or_file = path_join ''data'' ''config.d/a.yaml'', or_docIndex = 1\<rparr>"
  show 1: "sourcePath ''/srv'' ''data'' (path_join ''data'' ''config.d/a.yaml'') = Inr ''data/config.d/a.yaml''" by code_simp
  have "parseSingleYAML demo_yaml ''n'' = Inr (CHR ''n'')"
    "file_at demo_data ''data/config.d/a.yaml'' =
       Inl (ErrNotFound ''open data/config.d/a.yaml: no such file or directory'')" by code_simp+
  then show "WriteDraftDocument demo_yaml any_loaders no_edit_faults ''/srv'' ''data'' ?o ''n'' demo_data =
    (Some (ErrNotFound ''read draft source: open data/config.d/a.yaml: no such file or directory''), demo_data)"
    using 1 by (simp add: WriteDraftDocument_def)
qed

end
