(* ===== verification/GoJson.thy ===== *)
theory GoJson
  imports JsValue
begin

text \<open>
  \<open>encoding/json\<close> of the Go standard library as the collector uses it: decoding a JSON value into a
  struct.  A member is found by its name in any case, \<open>null\<close> leaves the field as it is, the last
  member of a name counts, a member no field has is ignored, and one value of the wrong kind
  anywhere fails the whole decoding (\<open>None\<close>).  Numbers are integers here, as in \<open>jsval\<close>.
\<close>

type_synonym 'a decoder = "jsval \<Rightarrow> 'a option"

definition go_members :: "string \<Rightarrow> (string \<times> jsval) list \<Rightarrow> jsval list" where
  "go_members k ps = map snd (filter (\<lambda>(j, v). to_lower j = to_lower k \<and> v \<noteq> JNull) ps)"

definition go_field :: "'a decoder \<Rightarrow> 'a \<Rightarrow> string \<Rightarrow> (string \<times> jsval) list \<Rightarrow> 'a option" where
  "go_field dec zero k ps = map_option (\<lambda>vs. if vs = [] then zero else last vs) (those (map dec (go_members k ps)))"

fun go_text :: "string decoder" where
  "go_text (JStr s) = Some s"
| "go_text _ = None"

fun go_bool :: "bool decoder" where
  "go_bool (JBool b) = Some b"
| "go_bool _ = None"

text \<open>An integer of a fixed width: \<open>uint32\<close> and \<open>int64\<close>.\<close>

fun go_int :: "int \<Rightarrow> int \<Rightarrow> int decoder" where
  "go_int lo hi (JNum n) = (if lo \<le> n \<and> n < hi then Some n else None)"
| "go_int lo hi _ = None"

definition go_uint32 :: "int decoder" where "go_uint32 = go_int 0 (2 ^ 32)"
definition go_int64 :: "int decoder" where "go_int64 = go_int (- (2 ^ 63)) (2 ^ 63)"

fun go_struct :: "((string \<times> jsval) list \<Rightarrow> 'a option) \<Rightarrow> 'a decoder" where
  "go_struct f (JObj ps) = f ps"
| "go_struct f _ = None"

text \<open>An element that is \<open>null\<close> keeps its zero value.\<close>

fun go_slice :: "'a \<Rightarrow> 'a decoder \<Rightarrow> 'a list decoder" where
  "go_slice zero dec (JArr xs) = those (map (\<lambda>v. if v = JNull then Some zero else dec v) xs)"
| "go_slice zero dec _ = None"

text \<open>The whole body: \<open>None\<close> is a body that is not JSON, and \<open>null\<close> decodes to the zero value.\<close>

definition go_unmarshal :: "'a \<Rightarrow> 'a decoder \<Rightarrow> jsval option \<Rightarrow> 'a option" where
  "go_unmarshal zero dec body = (case body of None \<Rightarrow> None | Some JNull \<Rightarrow> Some zero | Some v \<Rightarrow> dec v)"

text \<open>\<open>omitempty\<close>: a member that is left out when its value is empty.\<close>

definition member_if :: "bool \<Rightarrow> string \<Rightarrow> jsval \<Rightarrow> (string \<times> jsval) list" where
  "member_if b k v = (if b then [(k, v)] else [])"

lemma go_field_absent: "k \<notin> to_lower ` fst ` set ps \<Longrightarrow> to_lower k = k \<Longrightarrow> go_field dec zero k ps = Some zero"
proof -
  assume "k \<notin> to_lower ` fst ` set ps" "to_lower k = k"
  then have "go_members k ps = []" by (force simp: go_members_def filter_empty_conv)
  then show ?thesis by (simp add: go_field_def)
qed

lemma go_field_single:
  assumes "filter (\<lambda>(j, v). to_lower j = to_lower k) ps = [(j, v)]" and "v \<noteq> JNull"
  shows "go_field dec zero k ps = dec v"
proof -
  have "go_members k ps = map snd (filter (\<lambda>(j, v). v \<noteq> JNull) (filter (\<lambda>(j, v). to_lower j = to_lower k) ps))"
    by (simp add: go_members_def case_prod_unfold conj_commute)
  then have "go_members k ps = [v]" using assms by simp
  then show ?thesis by (cases "dec v") (simp_all add: go_field_def)
qed

text \<open>One value that does not decode fails everything around it.\<close>

lemma those_map_None: "x \<in> set xs \<Longrightarrow> f x = None \<Longrightarrow> those (map f xs) = None"
  by (induction xs) (auto split: option.split)

lemma go_field_fails: "(k, v) \<in> set ps \<Longrightarrow> v \<noteq> JNull \<Longrightarrow> dec v = None \<Longrightarrow> go_field dec zero k ps = None"
proof -
  assume "(k, v) \<in> set ps" "v \<noteq> JNull" "dec v = None"
  moreover from this have "v \<in> set (go_members k ps)" by (force simp: go_members_def)
  ultimately show ?thesis by (simp add: go_field_def those_map_None)
qed

lemma go_slice_fails: "v \<in> set xs \<Longrightarrow> v \<noteq> JNull \<Longrightarrow> dec v = None \<Longrightarrow> go_slice zero dec (JArr xs) = None"
  by (simp add: those_map_None)

lemmas go_json_simps = go_field_def go_members_def go_unmarshal_def

end
