(* ===== verification/ProtocolLoad.thy ===== *)
theory ProtocolLoad
  imports DraftObjects GoJson CertStore
begin

text \<open>
  Loading the protocol files of a draft (\<open>internal/protocol/load.go\<close>, \<open>envelope.go\<close>): the documents of
  each file, their conversion from YAML to JSON, the envelope, and the configuration they make up.

  YAML is a parameter as in \<open>DraftObjects\<close>, with the scalars and keys of its nodes; so is the decoding
  and validation of the \<open>spec\<close> of each kind, which gives a message or the JSON of the spec.  What the
  YAML decoder does when it is called again after an error is a parameter of its own, and \<open>LoadDir\<close> is
  \<open>None\<close> when the loop over the documents does not end.  Members whose names differ only in case are
  taken as one, the last counting.
\<close>

section \<open>Nodes\<close>

datatype ynode = YMapping "(ynode \<times> ynode) list" | YSequence "ynode list" | YScalar string | YAlias

datatype yaml_event = YEof | YFail string | YDoc "ynode option"

record proto_env =
  pe_yaml :: "ynode yaml"
  pe_resume :: "string \<Rightarrow> nat \<Rightarrow> yaml_event"
  pe_key :: "ynode \<Rightarrow> string + string"
  pe_scalar :: "string \<Rightarrow> string + jsval"
  pe_jsonError :: "jsval \<Rightarrow> string"
  pe_spec :: "string \<Rightarrow> jsval option \<Rightarrow> string + jsval"

text \<open>A Go map as a JSON object: the last value of a key, the keys in order.\<close>

definition go_map_json :: "(string \<times> 'a) list \<Rightarrow> (string \<times> 'a) list" where
  "go_map_json ps = map (\<lambda>k. (k, the (map_of (rev ps) k))) (sort (remdups (map fst ps)))"

definition bind_sum :: "'e + 'a \<Rightarrow> ('a \<Rightarrow> 'e + 'b) \<Rightarrow> 'e + 'b" where
  "bind_sum r f = (case r of Inl e \<Rightarrow> Inl e | Inr x \<Rightarrow> f x)"

fun yamlNodeToAny :: "proto_env \<Rightarrow> ynode \<Rightarrow> string + jsval"
  and any_members :: "proto_env \<Rightarrow> (ynode \<times> ynode) list \<Rightarrow> string + (string \<times> jsval) list"
  and any_elements :: "proto_env \<Rightarrow> ynode list \<Rightarrow> string + jsval list" where
  "yamlNodeToAny P (YMapping kvs) = bind_sum (any_members P kvs) (\<lambda>ps. Inr (JObj (go_map_json ps)))"
| "yamlNodeToAny P (YSequence xs) = bind_sum (any_elements P xs) (\<lambda>vs. Inr (JArr vs))"
| "yamlNodeToAny P (YScalar t) = pe_scalar P t"
| "yamlNodeToAny P YAlias = Inl ''YAML aliases are not supported''"
| "any_members P [] = Inr []"
| "any_members P ((k, v) # kvs) =
     (case pe_key P k of
        Inl e \<Rightarrow> Inl (''mapping keys must be strings: '' @ e)
      | Inr key \<Rightarrow> bind_sum (yamlNodeToAny P v) (\<lambda>x. bind_sum (any_members P kvs) (\<lambda>ps. Inr ((key, x) # ps))))"
| "any_elements P [] = Inr []"
| "any_elements P (x # xs) = bind_sum (yamlNodeToAny P x) (\<lambda>v. bind_sum (any_elements P xs) (\<lambda>vs. Inr (v # vs)))"

definition yamlNodeToJSON :: "proto_env \<Rightarrow> ynode option \<Rightarrow> string + jsval" where
  "yamlNodeToJSON P n = (case n of None \<Rightarrow> Inl ''unsupported YAML node kind 0'' | Some m \<Rightarrow> yamlNodeToAny P m)"

section \<open>Envelopes\<close>

definition APIVersionV1Alpha1 :: string where "APIVersionV1Alpha1 = ''esgw/v1alpha1''"
definition DefaultGatewayName :: string where "DefaultGatewayName = ''default''"

definition kind_valid :: "string \<Rightarrow> bool" where
  "kind_valid k \<longleftrightarrow> k \<in> {''Gateway'', ''Listener'', ''Route'', ''Upstream'', ''Policy'', ''EnvoyResources''}"

record object_meta =
  om_name :: string
  om_labels :: "(string \<times> string) list"

record envelope =
  ev_apiVersion :: string
  ev_kind :: string
  ev_metadata :: object_meta
  ev_spec :: "jsval option"

text \<open>\<open>DisallowUnknownFields\<close>.\<close>

definition go_strict :: "string list \<Rightarrow> ((string \<times> jsval) list \<Rightarrow> 'a option) \<Rightarrow> 'a decoder" where
  "go_strict names f v =
     (case v of
        JObj ps \<Rightarrow> if list_all (\<lambda>(k, x). to_lower k \<in> to_lower ` set names) ps then f ps else None
      | _ \<Rightarrow> None)"

definition go_text_map :: "(string \<times> string) list decoder" where
  "go_text_map v =
     (case v of
        JObj ps \<Rightarrow> those (map (\<lambda>(k, x). map_option (Pair k) (if x = JNull then Some [] else go_text x)) ps)
      | _ \<Rightarrow> None)"

definition meta_decoder :: "object_meta decoder" where
  "meta_decoder = go_strict [''name'', ''labels''] (\<lambda>ps.
     Option.bind (go_field go_text [] ''name'' ps) (\<lambda>n.
     map_option (\<lambda>ls. \<lparr>om_name = n, om_labels = ls\<rparr>) (go_field go_text_map [] ''labels'' ps)))"

text \<open>A raw message takes any value, \<open>null\<close> too.\<close>

definition raw_member :: "string \<Rightarrow> (string \<times> jsval) list \<Rightarrow> jsval option" where
  "raw_member k ps = (case filter (\<lambda>(j, v). to_lower j = k) ps of [] \<Rightarrow> None | qs \<Rightarrow> Some (snd (last qs)))"

definition zero_envelope :: envelope where
  "zero_envelope = \<lparr>ev_apiVersion = [], ev_kind = [], ev_metadata = \<lparr>om_name = [], om_labels = []\<rparr>, ev_spec = None\<rparr>"

definition envelope_decoder :: "envelope decoder" where
  "envelope_decoder = go_strict [''apiVersion'', ''kind'', ''metadata'', ''spec''] (\<lambda>ps.
     Option.bind (go_field go_text [] ''apiVersion'' ps) (\<lambda>a.
     Option.bind (go_field go_text [] ''kind'' ps) (\<lambda>k.
     map_option (\<lambda>m. \<lparr>ev_apiVersion = a, ev_kind = k, ev_metadata = m, ev_spec = raw_member ''spec'' ps\<rparr>)
       (go_field meta_decoder \<lparr>om_name = [], om_labels = []\<rparr> ''metadata'' ps))))"

definition decode_envelope :: "jsval \<Rightarrow> envelope option" where
  "decode_envelope v = go_unmarshal zero_envelope envelope_decoder (Some v)"

section \<open>The configuration\<close>

record object_record =
  ob_kind :: string
  ob_name :: string
  ob_origin :: origin
  ob_value :: jsval

record config_set =
  cs_gateway :: "object_record option"
  cs_listeners :: "object_record list"
  cs_routes :: "object_record list"
  cs_upstreams :: "object_record list"
  cs_policies :: "object_record list"
  cs_envoyResources :: "object_record list"

definition empty_config :: config_set where
  "empty_config = \<lparr>cs_gateway = None, cs_listeners = [], cs_routes = [], cs_upstreams = [], cs_policies = [], cs_envoyResources = []\<rparr>"

record load_state =
  ls_config :: config_set
  ls_seen :: "string \<times> string \<Rightarrow> origin option"
  ls_errs :: "load_error list"

definition origin_text :: "origin \<Rightarrow> string" where
  "origin_text org = or_file org @ '' doc['' @ string_of_int (or_docIndex org) @ '']''"

definition load_fault :: "origin \<Rightarrow> string \<Rightarrow> load_error" where
  "load_fault org m = \<lparr>le_text = origin_text org @ '': '' @ m, le_file = or_file org, le_doc = or_docIndex org, le_message = m\<rparr>"

definition meta_json :: "object_meta \<Rightarrow> jsval" where
  "meta_json m = JObj ((''name'', JStr (om_name m)) #
     member_if (om_labels m \<noteq> []) ''labels'' (JObj (map (\<lambda>(k, v). (k, JStr v)) (go_map_json (om_labels m)))))"

definition object_json :: "envelope \<Rightarrow> jsval \<Rightarrow> jsval" where
  "object_json e spec = JObj [(''apiVersion'', JStr (ev_apiVersion e)), (''kind'', JStr (ev_kind e)),
     (''metadata'', meta_json (ev_metadata e)), (''spec'', spec)]"

definition add_object :: "object_record \<Rightarrow> config_set \<Rightarrow> config_set" where
  "add_object ob c =
     (if ob_kind ob = ''Gateway'' then c\<lparr>cs_gateway := Some ob\<rparr>
      else if ob_kind ob = ''Listener'' then c\<lparr>cs_listeners := cs_listeners c @ [ob]\<rparr>
      else if ob_kind ob = ''Route'' then c\<lparr>cs_routes := cs_routes c @ [ob]\<rparr>
      else if ob_kind ob = ''Upstream'' then c\<lparr>cs_upstreams := cs_upstreams c @ [ob]\<rparr>
      else if ob_kind ob = ''Policy'' then c\<lparr>cs_policies := cs_policies c @ [ob]\<rparr>
      else c\<lparr>cs_envoyResources := cs_envoyResources c @ [ob]\<rparr>)"

text \<open>\<open>loadDoc\<close>: the object of a document or the message of its error.\<close>

definition read_object :: "proto_env \<Rightarrow> origin \<Rightarrow> jsval \<Rightarrow> (string \<times> string \<Rightarrow> origin option) \<Rightarrow> string + object_record" where
  "read_object P org doc seen =
     (case decode_envelope doc of
        None \<Rightarrow> Inl (''strict decode failed: '' @ pe_jsonError P doc)
      | Some e \<Rightarrow>
          let kind = ev_kind e; nm = om_name (ev_metadata e) in
          if ev_apiVersion e \<noteq> APIVersionV1Alpha1
          then Inl (''unsupported apiVersion '' @ go_quote (ev_apiVersion e) @ '' (want '' @ go_quote APIVersionV1Alpha1 @ '')'')
          else if \<not> kind_valid kind
          then Inl (''unsupported kind '' @ go_quote kind @ '' (want Gateway | Listener | Route | Upstream | Policy | EnvoyResources)'')
          else if \<not> ValidateName nm
          then Inl (''metadata.name: invalid name '' @ go_quote nm @ '': must match ^[a-z0-9]([a-z0-9-]{0,61}[a-z0-9])?$'')
          else if kind = ''Gateway'' \<and> nm \<noteq> DefaultGatewayName
          then Inl (''Gateway metadata.name must be '' @ go_quote DefaultGatewayName @ '' (v0 supports a single implicit Gateway)'')
          else (case pe_spec P kind (ev_spec e) of
                  Inl m \<Rightarrow> Inl m
                | Inr spec \<Rightarrow>
                    (case seen (kind, nm) of
                       Some prev \<Rightarrow> Inl (''duplicate '' @ kind @ '' name '' @ go_quote nm @ '': first defined at '' @ origin_text prev)
                     | None \<Rightarrow> Inr \<lparr>ob_kind = kind, ob_name = nm, ob_origin = org, ob_value = object_json e spec\<rparr>)))"

definition loadDoc :: "proto_env \<Rightarrow> origin \<Rightarrow> jsval \<Rightarrow> load_state \<Rightarrow> load_state" where
  "loadDoc P org doc s =
     (case read_object P org doc (ls_seen s) of
        Inl m \<Rightarrow> s\<lparr>ls_errs := ls_errs s @ [load_fault org m]\<rparr>
      | Inr ob \<Rightarrow> s\<lparr>ls_config := add_object ob (ls_config s), ls_seen := (ls_seen s)((ob_kind ob, ob_name ob) \<mapsto> org)\<rparr>)"

definition load_node :: "proto_env \<Rightarrow> origin \<Rightarrow> ynode option \<Rightarrow> load_state \<Rightarrow> load_state" where
  "load_node P org n s =
     (case yamlNodeToJSON P n of
        Inl m \<Rightarrow> s\<lparr>ls_errs := ls_errs s @ [load_fault org (''YAML to JSON conversion failed: '' @ m)]\<rparr>
      | Inr JNull \<Rightarrow> s
      | Inr doc \<Rightarrow> loadDoc P org doc s)"

section \<open>Files\<close>

text \<open>The calls of the decoder on a text, in order.\<close>

definition yaml_events :: "proto_env \<Rightarrow> string \<Rightarrow> nat \<Rightarrow> yaml_event" where
  "yaml_events P c i =
     (case y_decode (pe_yaml P) c of (ds, err) \<Rightarrow>
        if i < length ds then YDoc (ds ! i)
        else case err of
            None \<Rightarrow> YEof
          | Some e \<Rightarrow> if i = length ds then YFail e else pe_resume P c (i - length ds - 1))"

partial_function (option) load_events ::
    "proto_env \<Rightarrow> string \<Rightarrow> (nat \<Rightarrow> yaml_event) \<Rightarrow> nat \<Rightarrow> load_state \<Rightarrow> load_state option" where
  "load_events P name evs i s =
     (case evs i of
        YEof \<Rightarrow> Some s
      | YFail m \<Rightarrow>
          load_events P name evs (Suc i)
            (s\<lparr>ls_errs := ls_errs s @ [load_fault \<lparr>or_file = name, or_docIndex = int i\<rparr> (''YAML parse error: '' @ m)]\<rparr>)
      | YDoc n \<Rightarrow> load_events P name evs (Suc i) (load_node P \<lparr>or_file = name, or_docIndex = int i\<rparr> n s))"

definition loadFile :: "proto_env \<Rightarrow> string \<Rightarrow> string \<Rightarrow> load_state \<Rightarrow> load_state option" where
  "loadFile P name content s = load_events P name (yaml_events P content) 0 s"

fun load_files :: "proto_env \<Rightarrow> string \<Rightarrow> (string \<times> string) list \<Rightarrow> load_state \<Rightarrow> load_state option" where
  "load_files P D [] s = Some s"
| "load_files P D ((p, c) # fs) s = Option.bind (loadFile P (path_join D p) c s) (load_files P D fs)"

text \<open>\<open>LoadDir\<close> on the files of \<open>config.d\<close>, which are listed sorted and filtered.\<close>

definition LoadDir :: "proto_env \<Rightarrow> string \<Rightarrow> (string \<times> string) list \<Rightarrow> (config_set \<times> load_error list) option" where
  "LoadDir P D files =
     map_option (\<lambda>s. (ls_config s, ls_errs s))
       (load_files P D files \<lparr>ls_config = empty_config, ls_seen = Map.empty, ls_errs = []\<rparr>)"

section \<open>The loop over the documents\<close>

definition load_event :: "proto_env \<Rightarrow> string \<Rightarrow> nat \<Rightarrow> yaml_event \<Rightarrow> load_state \<Rightarrow> load_state" where
  "load_event P name i ev s =
     (case ev of
        YEof \<Rightarrow> s
      | YFail m \<Rightarrow> s\<lparr>ls_errs := ls_errs s @ [load_fault \<lparr>or_file = name, or_docIndex = int i\<rparr> (''YAML parse error: '' @ m)]\<rparr>
      | YDoc n \<Rightarrow> load_node P \<lparr>or_file = name, or_docIndex = int i\<rparr> n s)"

lemma load_events_step:
  "load_events P name evs i s = (if evs i = YEof then Some s else load_events P name evs (Suc i) (load_event P name i (evs i) s))"
  by (subst load_events.simps) (simp add: load_event_def split: yaml_event.split)

text \<open>The runs of the loop that end.\<close>

inductive load_run :: "proto_env \<Rightarrow> string \<Rightarrow> (nat \<Rightarrow> yaml_event) \<Rightarrow> nat \<Rightarrow> load_state \<Rightarrow> load_state \<Rightarrow> bool"
  for P name evs where
  at_end: "evs i = YEof \<Longrightarrow> load_run P name evs i s s"
| at_event: "evs i \<noteq> YEof \<Longrightarrow> load_run P name evs (Suc i) (load_event P name i (evs i) s) s' \<Longrightarrow> load_run P name evs i s s'"

lemma load_events_run:
  assumes "load_events P name evs i s = Some s'"
  shows "load_run P name evs i s s'"
proof -
  have "case ((((P, name), evs), i), s) of ((((P, name), evs), i), s) \<Rightarrow> load_run P name evs i s s'"
  proof (rule load_events.raw_induct [OF _ assms])
    fix loop P name evs i s s'
    assume IH: "\<And>P name evs i s s'. loop P name evs i s = Some s' \<Longrightarrow>
        (case ((((P, name), evs), i), s) of ((((P, name), evs), i), s) \<Rightarrow> load_run P name evs i s s')"
      and eq: "(case evs i of YEof \<Rightarrow> Some s
        | YFail m \<Rightarrow> loop P name evs (Suc i)
            (s\<lparr>ls_errs := ls_errs s @ [load_fault \<lparr>or_file = name, or_docIndex = int i\<rparr> (''YAML parse error: '' @ m)]\<rparr>)
        | YDoc n \<Rightarrow> loop P name evs (Suc i) (load_node P \<lparr>or_file = name, or_docIndex = int i\<rparr> n s)) = Some s'"
    have "load_run P name evs i s s'"
    proof (cases "evs i = YEof")
      case True
      with eq show ?thesis by (simp add: at_end)
    next
      case False
      with eq have "loop P name evs (Suc i) (load_event P name i (evs i) s) = Some s'"
        by (cases "evs i") (simp_all add: load_event_def)
      from IH [OF this] at_event [of evs i P name s s'] False show ?thesis by simp
    qed
    then show "case ((((P, name), evs), i), s) of ((((P, name), evs), i), s) \<Rightarrow> load_run P name evs i s s'" by simp
  qed
  then show ?thesis by simp
qed

lemma load_run_ends: "load_run P name evs i s s' \<Longrightarrow> \<exists>j \<ge> i. evs j = YEof"
proof (induction rule: load_run.induct)
  case (at_event i s s')
  then show ?case using Suc_leD by blast
qed blast

text \<open>The loop returns only through an end of the stream.\<close>

lemma load_events_returns_iff: "(\<exists>s'. load_events P name evs i s = Some s') \<longleftrightarrow> (\<exists>j \<ge> i. evs j = YEof)"
proof
  show "\<exists>s'. load_events P name evs i s = Some s' \<Longrightarrow> \<exists>j \<ge> i. evs j = YEof"
    using load_events_run load_run_ends by blast
next
  assume "\<exists>j \<ge> i. evs j = YEof"
  then obtain k where "evs (i + k) = YEof" using le_Suc_ex by blast
  then show "\<exists>s'. load_events P name evs i s = Some s'"
  proof (induction k arbitrary: i s)
    case 0
    then show ?case by (subst load_events_step) simp
  next
    case (Suc k)
    from Suc.IH [of "Suc i"] Suc.prems show ?case by (subst load_events_step) simp
  qed
qed

fun load_list :: "proto_env \<Rightarrow> string \<Rightarrow> ynode option list \<Rightarrow> nat \<Rightarrow> load_state \<Rightarrow> load_state" where
  "load_list P name [] i s = s"
| "load_list P name (n # ns) i s = load_list P name ns (Suc i) (load_node P \<lparr>or_file = name, or_docIndex = int i\<rparr> n s)"

lemma load_events_list:
  "(\<And>j. j < length ds \<Longrightarrow> evs (i + j) = YDoc (ds ! j)) \<Longrightarrow>
     load_events P name evs i s = load_events P name evs (i + length ds) (load_list P name ds i s)"
proof (induction ds arbitrary: i s)
  case (Cons n ns)
  from Cons.prems [of 0] have "evs i = YDoc n" by simp
  moreover have "evs (Suc i + j) = YDoc (ns ! j)" if "j < length ns" for j using Cons.prems [of "Suc j"] that by simp
  note Cons.IH [of "Suc i", OF this]
  ultimately show ?case by (subst load_events_step) (simp add: load_event_def)
qed simp

lemma loadFile_complete:
  assumes "y_decode (pe_yaml P) c = (ds, None)"
  shows "loadFile P name c s = Some (load_list P name ds 0 s)"
  using load_events_list [of ds "yaml_events P c" 0 P name s] assms
    load_events_step [of P name "yaml_events P c" "length ds"] by (simp add: loadFile_def yaml_events_def)

text \<open>Errors are only ever added.\<close>

lemma loadDoc_errs: "\<exists>es. ls_errs (loadDoc P org v s) = ls_errs s @ es"
  by (simp add: loadDoc_def split: sum.split)

lemma load_node_errs: "\<exists>es. ls_errs (load_node P org n s) = ls_errs s @ es"
  using loadDoc_errs by (simp add: load_node_def split: sum.split jsval.split)

lemma load_event_errs: "\<exists>es. ls_errs (load_event P name i ev s) = ls_errs s @ es"
  using load_node_errs by (simp add: load_event_def split: yaml_event.split)

lemma load_events_errs:
  assumes "load_events P name evs i s = Some s'"
  shows "\<exists>es. ls_errs s' = ls_errs s @ es"
  using load_events_run [OF assms]
proof (induction rule: load_run.induct)
  case (at_event i s s')
  then show ?case using load_event_errs [of P name i "evs i" s] by auto
qed simp

lemma loadFile_errs: "loadFile P name c s = Some s' \<Longrightarrow> \<exists>es. ls_errs s' = ls_errs s @ es"
  unfolding loadFile_def by (rule load_events_errs)

text \<open>A file loads without errors only if the decoder read all of it.\<close>

lemma loadFile_no_errs:
  assumes "loadFile P name c s = Some s'" and "ls_errs s' = []"
  shows "\<exists>ds. y_decode (pe_yaml P) c = (ds, None) \<and> s' = load_list P name ds 0 s"
proof -
  obtain ds err where d: "y_decode (pe_yaml P) c = (ds, err)" by (cases "y_decode (pe_yaml P) c")
  show ?thesis
  proof (cases err)
    case None
    with d assms(1) loadFile_complete show ?thesis by auto
  next
    case (Some e)
    let ?evs = "yaml_events P c"
    have "load_events P name ?evs 0 s = load_events P name ?evs (length ds) (load_list P name ds 0 s)"
      using load_events_list [of ds ?evs 0 P name s] d by (simp add: yaml_events_def)
    moreover have "?evs (length ds) = YFail e" using d Some by (simp add: yaml_events_def)
    ultimately have "load_events P name ?evs (Suc (length ds)) (load_event P name (length ds) (YFail e) (load_list P name ds 0 s)) = Some s'"
      using assms(1) by (simp add: loadFile_def) (subst (asm) load_events_step, simp)
    from load_events_errs [OF this] assms(2) show ?thesis by (auto simp: load_event_def)
  qed
qed

section \<open>The documents and their objects\<close>

text \<open>All documents of a draft with their origins, and the object each gives by itself.\<close>

definition file_docs :: "proto_env \<Rightarrow> string \<Rightarrow> string \<times> string \<Rightarrow> (origin \<times> ynode option) list" where
  "file_docs P D f =
     map (\<lambda>(i, n). (\<lparr>or_file = path_join D (fst f), or_docIndex = int i\<rparr>, n)) (List.enumerate 0 (fst (y_decode (pe_yaml P) (snd f))))"

definition draft_docs :: "proto_env \<Rightarrow> string \<Rightarrow> (string \<times> string) list \<Rightarrow> (origin \<times> ynode option) list" where
  "draft_docs P D files = concat (map (file_docs P D) files)"

definition doc_object :: "proto_env \<Rightarrow> origin \<times> ynode option \<Rightarrow> object_record option" where
  "doc_object P x =
     (case yamlNodeToJSON P (snd x) of
        Inl m \<Rightarrow> None
      | Inr JNull \<Rightarrow> None
      | Inr v \<Rightarrow> (case read_object P (fst x) v Map.empty of Inl m \<Rightarrow> None | Inr ob \<Rightarrow> Some ob))"

definition all_objects :: "config_set \<Rightarrow> object_record list" where
  "all_objects c = (case cs_gateway c of None \<Rightarrow> [] | Some ob \<Rightarrow> [ob]) @ cs_listeners c @ cs_routes c @ cs_upstreams c @
     cs_policies c @ cs_envoyResources c"

abbreviation object_key :: "object_record \<Rightarrow> string \<times> string" where
  "object_key ob \<equiv> (ob_kind ob, ob_name ob)"

definition load_docs :: "proto_env \<Rightarrow> (origin \<times> ynode option) list \<Rightarrow> load_state \<Rightarrow> load_state" where
  "load_docs P xs s = fold (\<lambda>(org, n). load_node P org n) xs s"

lemma load_list_docs:
  "load_list P name ns i s = load_docs P (map (\<lambda>(j, n). (\<lparr>or_file = name, or_docIndex = int j\<rparr>, n)) (List.enumerate i ns)) s"
  by (induction ns arbitrary: i s) (simp_all add: load_docs_def)

lemma load_docs_errs: "\<exists>es. ls_errs (load_docs P xs s) = ls_errs s @ es"
proof (induction xs arbitrary: s)
  case (Cons x xs)
  obtain org n where x: "x = (org, n)" by (cases x)
  from Cons.IH [of "load_node P org n s"] load_node_errs [of P org n s] show ?case by (auto simp: load_docs_def x)
qed (simp add: load_docs_def)

lemma load_files_docs:
  "load_files P D files s = Some s' \<Longrightarrow> ls_errs s' = [] \<Longrightarrow>
     s' = load_docs P (draft_docs P D files) s \<and> (\<forall>f \<in> set files. snd (y_decode (pe_yaml P) (snd f)) = None) \<and> ls_errs s = []"
proof (induction files arbitrary: s)
  case (Cons f fs)
  obtain p c where f: "f = (p, c)" by (cases f)
  with Cons.prems obtain t where t: "loadFile P (path_join D p) c s = Some t" "load_files P D fs t = Some s'"
    by (auto split: bind_splits)
  from Cons.IH [OF t(2) Cons.prems(2)]
  have IH: "s' = load_docs P (draft_docs P D fs) t" "\<forall>f \<in> set fs. snd (y_decode (pe_yaml P) (snd f)) = None" "ls_errs t = []"
    by simp_all
  from loadFile_no_errs [OF t(1) IH(3)] obtain ds where
    ds: "y_decode (pe_yaml P) c = (ds, None)" "t = load_list P (path_join D p) ds 0 s" by blast
  have "ls_errs s = []" using loadFile_errs [OF t(1)] IH(3) by auto
  with IH ds show ?case by (simp add: f load_list_docs draft_docs_def file_docs_def load_docs_def)
qed (simp add: load_docs_def draft_docs_def)

text \<open>What a load without errors has collected: every name once, and the last place of each.\<close>

definition load_inv :: "load_state \<Rightarrow> bool" where
  "load_inv s = ((\<forall>k. ls_seen s k \<noteq> None \<longleftrightarrow> k \<in> object_key ` set (all_objects (ls_config s))) \<and>
     distinct (map object_key (all_objects (ls_config s))) \<and>
     (\<forall>ob. cs_gateway (ls_config s) = Some ob \<longrightarrow> object_key ob = (''Gateway'', DefaultGatewayName)))"

lemma read_object_facts:
  "read_object P org v seen = Inr ob \<Longrightarrow>
     read_object P org v Map.empty = Inr ob \<and> seen (object_key ob) = None \<and> kind_valid (ob_kind ob) \<and> ValidateName (ob_name ob) \<and>
     ob_origin ob = org \<and> (ob_kind ob = ''Gateway'' \<longrightarrow> ob_name ob = DefaultGatewayName)"
  by (auto simp: read_object_def Let_def split: option.splits if_splits sum.splits)

lemma all_objects_add:
  assumes "ob_kind ob = ''Gateway'' \<longrightarrow> cs_gateway c = None"
  shows "mset (all_objects (add_object ob c)) = add_mset ob (mset (all_objects c))"
  using assms by (auto simp: all_objects_def add_object_def split: option.split)

lemma loadDoc_no_errs:
  assumes "load_inv s" and "ls_errs (loadDoc P org v s) = []"
  obtains ob where "read_object P org v Map.empty = Inr ob" and "load_inv (loadDoc P org v s)"
    and "mset (all_objects (ls_config (loadDoc P org v s))) = add_mset ob (mset (all_objects (ls_config s)))"
proof -
  let ?c = "ls_config s"
  obtain ob where ob: "read_object P org v (ls_seen s) = Inr ob" using assms(2) by (auto simp: loadDoc_def split: sum.splits)
  note facts = read_object_facts [OF ob]
  have new: "object_key ob \<notin> object_key ` set (all_objects ?c)" using assms(1) facts unfolding load_inv_def by metis
  have "cs_gateway ?c = None" if "ob_kind ob = ''Gateway''"
  proof (rule ccontr)
    assume "cs_gateway ?c \<noteq> None"
    then obtain g where g: "cs_gateway ?c = Some g" by blast
    then have "object_key g = object_key ob" using assms(1) facts that by (auto simp: load_inv_def)
    moreover have "g \<in> set (all_objects ?c)" using g by (simp add: all_objects_def)
    then have "object_key g \<in> object_key ` set (all_objects ?c)" by (rule imageI)
    ultimately show False using new by argo
  qed
  then have ms: "mset (all_objects (add_object ob ?c)) = add_mset ob (mset (all_objects ?c))" by (intro all_objects_add) blast
  then have st: "set (all_objects (add_object ob ?c)) = insert ob (set (all_objects ?c))" by (metis set_mset_add_mset_insert set_mset_mset)
  from ms have "mset (map object_key (all_objects (add_object ob ?c))) = mset (map object_key (ob # all_objects ?c))" by simp
  then have "distinct (map object_key (all_objects (add_object ob ?c))) \<longleftrightarrow> distinct (map object_key (ob # all_objects ?c))"
    by (rule mset_eq_imp_distinct_iff)
  with new assms(1) have "distinct (map object_key (all_objects (add_object ob ?c)))" by (simp add: load_inv_def)
  moreover have "cs_gateway (add_object ob ?c) = (if ob_kind ob = ''Gateway'' then Some ob else cs_gateway ?c)"
    by (simp add: add_object_def)
  ultimately have "load_inv (loadDoc P org v s)"
    using assms(1) facts st by (auto simp: load_inv_def loadDoc_def ob)
  with that ms facts show ?thesis by (simp add: loadDoc_def ob)
qed

lemma load_node_no_errs:
  assumes "load_inv s" and "ls_errs (load_node P org n s) = []"
  shows "load_inv (load_node P org n s) \<and>
     mset (all_objects (ls_config (load_node P org n s))) =
       mset (all_objects (ls_config s)) + mset (List.map_filter (doc_object P) [(org, n)]) \<and>
     (yamlNodeToJSON P n = Inr JNull \<or> doc_object P (org, n) \<noteq> None)"
proof -
  obtain v where v: "yamlNodeToJSON P n = Inr v" using assms(2) by (auto simp: load_node_def split: sum.splits)
  show ?thesis
  proof (cases "v = JNull")
    case True
    with v assms(1) show ?thesis by (simp add: load_node_def doc_object_def List.map_filter_def)
  next
    case False
    then have eq: "load_node P org n s = loadDoc P org v s" using v by (cases v) (simp_all add: load_node_def)
    have ob: "doc_object P (org, n) = (case read_object P org v Map.empty of Inl m \<Rightarrow> None | Inr ob \<Rightarrow> Some ob)"
      using False v by (cases v) (simp_all add: doc_object_def)
    show ?thesis
      using assms(2) unfolding eq
      by (rule loadDoc_no_errs [OF assms(1)]) (simp add: ob List.map_filter_def)
  qed
qed

lemma load_docs_no_errs:
  assumes "load_inv s" and "ls_errs (load_docs P xs s) = []"
  shows "load_inv (load_docs P xs s) \<and>
     mset (all_objects (ls_config (load_docs P xs s))) = mset (all_objects (ls_config s)) + mset (List.map_filter (doc_object P) xs) \<and>
     (\<forall>x \<in> set xs. yamlNodeToJSON P (snd x) = Inr JNull \<or> doc_object P x \<noteq> None)"
  using assms
proof (induction xs arbitrary: s)
  case Nil
  then show ?case by (simp add: load_docs_def)
next
  case (Cons x xs)
  obtain org n where x: "x = (org, n)" by (cases x)
  let ?t = "load_node P org n s"
  have eq: "load_docs P (x # xs) s = load_docs P xs ?t" by (simp add: load_docs_def x)
  have "ls_errs ?t = []" using Cons.prems(2) load_docs_errs [of P xs ?t] by (auto simp: eq)
  from load_node_no_errs [OF Cons.prems(1) this] have one: "load_inv ?t"
    "mset (all_objects (ls_config ?t)) = mset (all_objects (ls_config s)) + mset (List.map_filter (doc_object P) [(org, n)])"
    "yamlNodeToJSON P n = Inr JNull \<or> doc_object P (org, n) \<noteq> None" by blast+
  have rest: "ls_errs (load_docs P xs ?t) = []" using Cons.prems(2) by (simp only: eq)
  have "List.map_filter (doc_object P) (x # xs) = List.map_filter (doc_object P) [(org, n)] @ List.map_filter (doc_object P) xs"
    by (simp add: List.map_filter_def x)
  then show ?case using Cons.IH [OF one(1) rest] one(2,3) unfolding eq by (simp add: x)
qed

lemma load_no_errs:
  assumes "LoadDir P D files = Some (c, [])"
  shows "(\<forall>f \<in> set files. snd (y_decode (pe_yaml P) (snd f)) = None) \<and>
    mset (all_objects c) = mset (List.map_filter (doc_object P) (draft_docs P D files)) \<and>
    (\<forall>x \<in> set (draft_docs P D files). yamlNodeToJSON P (snd x) = Inr JNull \<or> doc_object P x \<noteq> None) \<and>
    distinct (map object_key (all_objects c))"
proof -
  let ?s = "\<lparr>ls_config = empty_config, ls_seen = Map.empty, ls_errs = []\<rparr>"
  obtain s' where s': "load_files P D files ?s = Some s'" "ls_errs s' = []" "c = ls_config s'"
    using assms by (auto simp: LoadDir_def)
  have none: "all_objects empty_config = []" by (simp add: all_objects_def empty_config_def)
  have "load_inv ?s" by (simp add: load_inv_def none) (simp add: empty_config_def)
  from load_docs_no_errs [OF this, of P "draft_docs P D files"] load_files_docs [OF s'(1,2)] s'(2)
  show ?thesis by (auto simp: none s'(3) load_inv_def)
qed

text \<open>
  C23: a load without errors loses and invents nothing.  Every file was read to its end, every
  document of every file is empty or one object of the configuration, with the kind, name, metadata
  and spec of its envelope and the place it stands at as its origin; the configuration holds no other
  objects, and no two of the same kind and name.
\<close>

theorem loaded_objects_are_documents:
  assumes "LoadDir P D files = Some (c, [])"
  shows "(\<forall>f \<in> set files. snd (y_decode (pe_yaml P) (snd f)) = None) \<and>
    mset (all_objects c) = mset (List.map_filter (doc_object P) (draft_docs P D files)) \<and>
    (\<forall>x \<in> set (draft_docs P D files). yamlNodeToJSON P (snd x) = Inr JNull \<or> doc_object P x \<noteq> None) \<and>
    distinct (map object_key (all_objects c))"
  by (rule load_no_errs [OF assms])

lemma load_files_stuck:
  assumes "(p, c) \<in> set files" and "\<And>s. loadFile P (path_join D p) c s = None"
  shows "load_files P D files s = None"
  using assms(1)
proof (induction files arbitrary: s)
  case (Cons f fs)
  obtain q e where f: "f = (q, e)" by (cases f)
  show ?case
  proof (cases "f = (p, c)")
    case True
    with assms(2) show ?thesis by simp
  next
    case False
    with Cons show ?thesis by (cases "loadFile P (path_join D q) e s") (auto simp: f)
  qed
qed simp

lemma load_files_complete:
  "\<forall>f \<in> set files. snd (y_decode (pe_yaml P) (snd f)) = None \<Longrightarrow> \<exists>s'. load_files P D files s = Some s'"
proof (induction files arbitrary: s)
  case (Cons f fs)
  obtain p c where f: "f = (p, c)" by (cases f)
  from Cons.prems have "y_decode (pe_yaml P) c = (fst (y_decode (pe_yaml P) c), None)" by (simp add: f prod_eq_iff)
  note loadFile_complete [OF this, of "path_join D p" s]
  with Cons show ?case by (simp add: f)
qed simp

lemma LoadDir_returns_iff:
  assumes "\<forall>c i. pe_resume P c i \<noteq> YEof"
  shows "LoadDir P D files \<noteq> None \<longleftrightarrow> (\<forall>f \<in> set files. snd (y_decode (pe_yaml P) (snd f)) = None)"
proof (cases "\<forall>f \<in> set files. snd (y_decode (pe_yaml P) (snd f)) = None")
  case True
  with load_files_complete show ?thesis by (fastforce simp: LoadDir_def)
next
  case False
  then obtain p c e where f: "(p, c) \<in> set files" "snd (y_decode (pe_yaml P) c) = Some e" by auto
  have "yaml_events P c j \<noteq> YEof" for j
    using assms f(2) by (auto simp: yaml_events_def split: prod.splits if_splits)
  then have "loadFile P name c s = None" for name s
    using load_events_returns_iff [of P name "yaml_events P c" 0 s] unfolding loadFile_def by (cases "load_events P name (yaml_events P c) 0 s") auto
  with load_files_stuck [OF f(1)] False show ?thesis by (simp add: LoadDir_def)
qed

text \<open>
  C26: a syntax error in a file of the draft.  The loop over the documents of a file goes on after a
  parse error and ends only when the decoder reports the end of the stream.  For a decoder that never
  does so once it met a syntax error, loading the directory returns exactly when no file has one.
\<close>

theorem loading_ends_iff_no_syntax_error:
  assumes "\<forall>c i. pe_resume P c i \<noteq> YEof"
  shows "LoadDir P D files \<noteq> None \<longleftrightarrow> (\<forall>f \<in> set files. snd (y_decode (pe_yaml P) (snd f)) = None)"
  by (rule LoadDir_returns_iff [OF assms])

section \<open>Witnesses\<close>

text \<open>A codec of two texts, one of them broken.\<close>

definition demo_route :: "string \<Rightarrow> ynode" where
  "demo_route spec = YMapping [(YScalar ''apiVersion'', YScalar ''esgw/v1alpha1''), (YScalar ''kind'', YScalar ''Route''),
     (YScalar ''metadata'', YMapping [(YScalar ''name'', YScalar ''web'')]), (YScalar ''spec'', YScalar spec)]"

definition route_yaml :: "ynode yaml" where
  "route_yaml = \<lparr>y_decode = (\<lambda>t. if t = ''old'' \<or> t = ''new'' then ([Some (demo_route t)], None) else ([], Some ''broken'')),
     y_encode = (\<lambda>ns. if ns = [demo_route ''old''] then Inr ''old'' else if ns = [demo_route ''new''] then Inr ''new'' else Inl ''other'')\<rparr>"

definition route_env :: proto_env where
  "route_env = \<lparr>pe_yaml = route_yaml, pe_resume = (\<lambda>_ _. YFail ''broken''),
     pe_key = (\<lambda>k. case k of YScalar t \<Rightarrow> Inr t | _ \<Rightarrow> Inl ''not a string''), pe_scalar = (\<lambda>t. Inr (JStr t)),
     pe_jsonError = (\<lambda>_. ''json''), pe_spec = (\<lambda>k v. case v of Some x \<Rightarrow> Inr x | None \<Rightarrow> Inl ''spec'')\<rparr>"

lemma route_events: "pe_resume route_env c i = YFail ''broken''" "pe_yaml route_env = route_yaml"
  "snd (y_decode route_yaml t) = (if t = ''old'' \<or> t = ''new'' then None else Some ''broken'')"
  by (simp_all add: route_env_def route_yaml_def)

definition route_files :: "(string \<times> string) list" where
  "route_files = [(''config.d/a.yaml'', ''old'')]"

definition route_object :: "string \<Rightarrow> object_record" where
  "route_object t = \<lparr>ob_kind = ''Route'', ob_name = ''web'', ob_origin = \<lparr>or_file = ''/data/config.d/a.yaml'', or_docIndex = 0\<rparr>,
     ob_value = JObj [(''apiVersion'', JStr ''esgw/v1alpha1''), (''kind'', JStr ''Route''), (''metadata'', JObj [(''name'', JStr ''web'')]),
       (''spec'', JStr t)]\<rparr>"

lemma route_loads: "LoadDir route_env ''/data'' route_files = Some (empty_config\<lparr>cs_routes := [route_object ''old'']\<rparr>, [])"
proof -
  have "y_decode (pe_yaml route_env) ''old'' = ([Some (demo_route ''old'')], None)" by (simp add: route_env_def route_yaml_def)
  note loads = loadFile_complete [OF this]
  have "path_join ''/data'' ''config.d/a.yaml'' = ''/data/config.d/a.yaml''" by code_simp
  moreover define s where "s = load_list route_env ''/data/config.d/a.yaml'' [Some (demo_route ''old'')] 0
      \<lparr>ls_config = empty_config, ls_seen = Map.empty, ls_errs = []\<rparr>"
  have "ls_config s = empty_config\<lparr>cs_routes := [route_object ''old'']\<rparr>" "ls_errs s = []"
    unfolding s_def by code_simp+
  ultimately show ?thesis by (simp add: LoadDir_def route_files_def loads s_def)
qed

theorem loaded_objects_are_documents_witness:
  "mset (all_objects (empty_config\<lparr>cs_routes := [route_object ''old'']\<rparr>)) =
     mset (List.map_filter (doc_object route_env) (draft_docs route_env ''/data'' route_files))"
  using loaded_objects_are_documents [OF route_loads] by blast

theorem loading_ends_iff_no_syntax_error_witness:
  "LoadDir route_env ''/data'' [(''config.d/a.yaml'', ''old''), (''config.d/b.yaml'', ''['')] = None"
  using loading_ends_iff_no_syntax_error [of route_env "''/data''" "[(''config.d/a.yaml'', ''old''), (''config.d/b.yaml'', ''['')]"]
  by (simp add: route_events del: not_None_eq)

end
