(* ===== verification/ObjectServer.thy ===== *)
theory ObjectServer
  imports ProtocolLoad PublishServer "HOL-Library.Product_Lexorder"
begin

text \<open>
  The operations of the configuration API on single objects (\<open>internal/api/config_handlers.go\<close>):
  listing, reading, writing and deleting an object of the protocol draft, through the loader
  (\<open>ProtocolLoad\<close>) and the document edits (\<open>DraftObjects\<close>) or, for a new object, a replacement of the
  draft by one with a further file.

  A request is its path values, query values, headers and body.  JSON and YAML reading of the body
  into a value, and YAML writing of a value, are parameters.
\<close>

section \<open>State\<close>

record object_api =
  oa_cwd :: string
  oa_dataDir :: string
  oa_proto :: proto_env
  oa_loaders :: loaders
  oa_config :: "(string \<times> string) list \<Rightarrow> config_set"
  oa_yamlValue :: "string \<Rightarrow> jsval option"
  oa_json :: "string \<Rightarrow> jsval option"
  oa_yamlText :: "jsval \<Rightarrow> string + string"

record object_faults =
  of_edit :: edit_faults
  of_stage :: "string option"
  of_commit :: commit_faults

text \<open>The objects by kind and name; a native draft has no configuration.\<close>

definition configObjects :: "config_set option \<Rightarrow> object_record list" where
  "configObjects c = (case c of None \<Rightarrow> [] | Some cs \<Rightarrow> sort_key object_key (all_objects cs))"

definition draft_config :: "object_api \<Rightarrow> draft_info \<Rightarrow> config_set option" where
  "draft_config A dr = (if dr_mode dr = ModeNative then None else Some (oa_config A (dr_files dr)))"

definition bad_object :: http_response where
  "bad_object = writeError 400 ''INVALID_ARGUMENT'' ''invalid object kind or name''"

datatype found = FindFails conf_error | Absent draft_info | Found object_record draft_info

definition no_rows :: conf_error where
  "no_rows = ErrNotFound ''sql: no rows in result set''"

definition findObject :: "object_api \<Rightarrow> string \<Rightarrow> string \<Rightarrow> data_dir \<Rightarrow> found \<times> data_dir" where
  "findObject A kind nm d =
     (if \<not> kind_valid kind \<or> \<not> ValidateName nm then (FindFails (ErrText ''invalid object kind or name''), d)
      else case LoadDraft (oa_loaders A) d of
          (Inl e, d') \<Rightarrow> (FindFails e, d')
        | (Inr dr, d') \<Rightarrow>
            if dr_errors dr \<noteq> [] then (FindFails (ErrText (''draft load failed: '' @ le_text (hd (dr_errors dr)))), d')
            else case find (\<lambda>ob. ob_kind ob = kind \<and> ob_name ob = nm) (configObjects (draft_config A dr)) of
                Some ob \<Rightarrow> (Found ob dr, d')
              | None \<Rightarrow> (Absent dr, d'))"

text \<open>\<open>checkExpectedHash\<close>: the response that ends the request, if any.\<close>

definition checkExpectedHash :: "object_api \<Rightarrow> string \<Rightarrow> data_dir \<Rightarrow> http_response option" where
  "checkExpectedHash A expected d =
     (if expected = [] then None
      else case DraftHash (sha256 (oa_loaders A)) d of
          Inl e \<Rightarrow> Some (writeConfigError e)
        | Inr current \<Rightarrow>
            if current \<noteq> expected then Some (writeError 409 ''CONFLICT'' ''draft changed since it was read'') else None)"

section \<open>Reading\<close>

definition writeValidationError :: "diagnostic list \<Rightarrow> http_response" where
  "writeValidationError ds = writeJSON 422 (JObj [(''error'', JObj
     ([(''code'', JStr ''VALIDATION_FAILED''), (''message'', JStr ''configuration validation failed'')] @
      [(''details'', JArr (map diagnostic_json ds))]))])"

definition listObjects :: "object_api \<Rightarrow> string \<Rightarrow> string \<Rightarrow> string \<Rightarrow> data_dir \<Rightarrow> http_response \<times> data_dir" where
  "listObjects A rawKind limit offset d =
     (case LoadDraft (oa_loaders A) d of
        (Inl e, d') \<Rightarrow> (writeConfigError e, d')
      | (Inr dr, d') \<Rightarrow>
          if dr_errors dr \<noteq> [] then (writeValidationError (loadDiagnostics (dr_errors dr)), d')
          else if rawKind \<noteq> [] \<and> \<not> kind_valid rawKind then (writeError 400 ''INVALID_ARGUMENT'' ''invalid object kind'', d')
          else
            let obs = configObjects (draft_config A dr);
                recs = (if rawKind = [] then obs else filter (\<lambda>ob. ob_kind ob = rawKind) obs)
            in (case pagination limit offset of
                  Inl resp \<Rightarrow> (resp, d')
                | Inr (l, k) \<Rightarrow>
                    (writeJSON 200 (JObj [(''items'', JArr (map ob_value (take (nat l) (drop (nat k) recs)))),
                       (''resourceVersion'', JStr (dr_hash dr)), (''total'', JNum (int (length recs)))]), d')))"

definition find_error :: "found \<Rightarrow> conf_error" where
  "find_error r = (case r of FindFails e \<Rightarrow> e | _ \<Rightarrow> no_rows)"

definition yaml_response :: "string \<Rightarrow> http_response" where
  "yaml_response t = \<lparr>rs_status = 200, rs_headers = [(''Content-Type'', ''application/yaml; charset=utf-8'')],
     rs_cookie = KeepCookie, rs_body = JStr t\<rparr>"

definition getObject :: "object_api \<Rightarrow> string \<Rightarrow> string \<Rightarrow> string \<Rightarrow> data_dir \<Rightarrow> http_response \<times> data_dir" where
  "getObject A acc kind nm d =
     (case findObject A kind nm d of
        (Found ob dr, d') \<Rightarrow>
          if str_includes acc ''application/yaml''
          then (case oa_yamlText A (ob_value ob) of Inl m \<Rightarrow> (writeConfigError (ErrText m), d') | Inr t \<Rightarrow> (yaml_response t, d'))
          else (writeJSON 200 (ob_value ob), d')
      | (r, d') \<Rightarrow> (writeConfigError (find_error r), d'))"

section \<open>Writing\<close>

definition invalid_argument :: "string \<Rightarrow> http_response" where
  "invalid_argument m = writeError 400 ''INVALID_ARGUMENT'' m"

definition readObjectDocument :: "object_api \<Rightarrow> string \<Rightarrow> string \<Rightarrow> http_response + envelope" where
  "readObjectDocument A contentType content =
     (if 2 * 1024 * 1024 < int (length content) \<or> content = [] then Inl (invalid_argument ''invalid or empty object body'')
      else
        let is_yaml = str_includes contentType ''yaml'' in
        if is_yaml \<and> oa_yamlValue A content = None then Inl (invalid_argument ''invalid YAML object body'')
        else case Option.bind (if is_yaml then oa_yamlValue A content else oa_json A content) decode_envelope of
            None \<Rightarrow> Inl (invalid_argument ''invalid protocol object envelope'')
          | Some e \<Rightarrow>
              if ev_apiVersion e \<noteq> APIVersionV1Alpha1 \<or> \<not> kind_valid (ev_kind e)
              then Inl (invalid_argument ''invalid protocol object envelope'') else Inr e)"

text \<open>The envelope of the request, as the response repeats it.\<close>

definition envelope_json :: "envelope \<Rightarrow> jsval" where
  "envelope_json e = JObj ([(''apiVersion'', JStr (ev_apiVersion e)), (''kind'', JStr (ev_kind e)), (''metadata'', meta_json (ev_metadata e))] @
     (case ev_spec e of None \<Rightarrow> [] | Some v \<Rightarrow> [(''spec'', v)]))"

definition currentSourceFiles :: "draft_info \<Rightarrow> source_file list" where
  "currentSourceFiles dr = map source_of (dr_files dr)"

definition object_path :: "string \<Rightarrow> string \<Rightarrow> string" where
  "object_path kind nm = ''config.d/90-api-'' @ to_lower kind @ ''-'' @ nm @ ''.yaml''"

text \<open>The write itself: the error, if any, and the data directory.\<close>

definition store_object ::
    "object_api \<Rightarrow> object_faults \<Rightarrow> string \<Rightarrow> string \<Rightarrow> string \<Rightarrow> data_dir \<Rightarrow> conf_error option \<times> data_dir" where
  "store_object A f kind nm document d =
     (case findObject A kind nm d of
        (Found ob dr, d') \<Rightarrow>
          WriteDraftDocument (pe_yaml (oa_proto A)) (oa_loaders A) (of_edit f) (oa_cwd A) (oa_dataDir A) (ob_origin ob) document d'
      | (Absent dr, d') \<Rightarrow>
          (case ReplaceDraft (oa_loaders A) (of_stage f) (of_commit f) ModeAbstract
                  (currentSourceFiles dr @ [\<lparr>sf_path = object_path kind nm, sf_content = document @ [CHR 0x0A]\<rparr>]) (dr_hash dr) d' of
             (Inl e, d'') \<Rightarrow> (Some e, d'')
           | (Inr h, d'') \<Rightarrow> (None, d''))
      | (FindFails e, d') \<Rightarrow> (Some e, d'))"

definition edit_response :: "object_api \<Rightarrow> (string \<Rightarrow> jsval) \<Rightarrow> conf_error option \<times> data_dir \<Rightarrow> http_response \<times> data_dir" where
  "edit_response A body r =
     (case r of
        (Some e, d') \<Rightarrow> (writeConfigError e, d')
      | (None, d') \<Rightarrow>
          (case DraftHash (sha256 (oa_loaders A)) d' of Inl e \<Rightarrow> (writeConfigError e, d') | Inr h \<Rightarrow> (writeJSON 200 (body h), d')))"

definition putObject ::
    "object_api \<Rightarrow> object_faults \<Rightarrow> string \<Rightarrow> string \<Rightarrow> string \<Rightarrow> string \<Rightarrow> string \<Rightarrow> data_dir \<Rightarrow> http_response \<times> data_dir" where
  "putObject A f kind nm expected contentType content d =
     (if \<not> kind_valid kind \<or> \<not> ValidateName nm then (bad_object, d)
      else case readObjectDocument A contentType content of
          Inl resp \<Rightarrow> (resp, d)
        | Inr e \<Rightarrow>
            if ev_kind e \<noteq> kind \<or> om_name (ev_metadata e) \<noteq> nm
            then (invalid_argument ''path kind/name must match request body'', d)
            else case checkExpectedHash A expected d of
                Some resp \<Rightarrow> (resp, d)
              | None \<Rightarrow> edit_response A (\<lambda>h. JObj [(''draftResourceVersion'', JStr h), (''object'', envelope_json e)])
                          (store_object A f kind nm content d))"

definition deleteObject ::
    "object_api \<Rightarrow> object_faults \<Rightarrow> string \<Rightarrow> string \<Rightarrow> string \<Rightarrow> data_dir \<Rightarrow> http_response \<times> data_dir" where
  "deleteObject A f kind nm expected d =
     (case checkExpectedHash A expected d of
        Some resp \<Rightarrow> (resp, d)
      | None \<Rightarrow>
          edit_response A (\<lambda>h. JObj [(''draftResourceVersion'', JStr h)])
            (case findObject A kind nm d of
               (Found ob dr, d') \<Rightarrow>
                 DeleteDraftDocument (pe_yaml (oa_proto A)) (oa_loaders A) (of_edit f) (oa_cwd A) (oa_dataDir A) (ob_origin ob) d'
             | (r, d') \<Rightarrow> (Some (find_error r), d')))"

section \<open>Objects of a loaded draft\<close>

text \<open>The loaders of the API are \<open>LoadDir\<close>: they give what it returns, and no errors only if it did return.\<close>

definition loads_by_LoadDir :: "object_api \<Rightarrow> bool" where
  "loads_by_LoadDir A \<longleftrightarrow> (\<forall>files.
     (\<forall>c es. LoadDir (oa_proto A) (oa_dataDir A) files = Some (c, es) \<longrightarrow> oa_config A files = c \<and> loadDir (oa_loaders A) files = es) \<and>
     (loadDir (oa_loaders A) files = [] \<longrightarrow> LoadDir (oa_proto A) (oa_dataDir A) files \<noteq> None))"

lemma loads_clean:
  "loads_by_LoadDir A \<Longrightarrow> loadDir (oa_loaders A) files = [] \<Longrightarrow>
     LoadDir (oa_proto A) (oa_dataDir A) files = Some (oa_config A files, [])"
  by (fastforce simp: loads_by_LoadDir_def)

lemma find_by_key:
  assumes "distinct (map object_key obs)" and "ob \<in> set obs"
  shows "find (\<lambda>x. ob_kind x = ob_kind ob \<and> ob_name x = ob_name ob) obs = Some ob"
  using assms by (induction obs) (auto simp: rev_image_eqI)

lemma configObjects_set: "set (configObjects (Some c)) = set (all_objects c)"
  by (simp add: configObjects_def)

lemma configObjects_distinct: "distinct (map object_key (all_objects c)) \<Longrightarrow> distinct (map object_key (configObjects (Some c)))"
proof -
  have "mset (map object_key (configObjects (Some c))) = mset (map object_key (all_objects c))" by (simp add: configObjects_def)
  then show "distinct (map object_key (all_objects c)) \<Longrightarrow> ?thesis" using mset_eq_imp_distinct_iff by blast
qed

lemma set_map_filter: "set (List.map_filter f xs) = {y. \<exists>x \<in> set xs. f x = Some y}"
  by (force simp: List.map_filter_def)

lemma loaded_objects_set:
  assumes "LoadDir P D files = Some (c, [])"
  shows "set (all_objects c) = {ob. \<exists>x \<in> set (draft_docs P D files). doc_object P x = Some ob}"
  using load_no_errs [OF assms] by (metis set_map_filter set_mset_mset)

lemma loaded_found:
  assumes "LoadDir P D files = Some (c, [])" and "x \<in> set (draft_docs P D files)" and "doc_object P x = Some ob"
  shows "find (\<lambda>y. ob_kind y = ob_kind ob \<and> ob_name y = ob_name ob) (configObjects (Some c)) = Some ob"
proof (rule find_by_key)
  show "distinct (map object_key (configObjects (Some c)))" using load_no_errs [OF assms(1)] configObjects_distinct by blast
  show "ob \<in> set (configObjects (Some c))" using loaded_objects_set [OF assms(1)] assms(2,3) configObjects_set by blast
qed

lemma all_present: "\<forall>x \<in> set xs. \<exists>m. x = Some m \<Longrightarrow> xs = map Some (List.map_filter (\<lambda>x. x) xs)"
  by (induction xs) (auto simp: List.map_filter_def)

text \<open>Every node of a file that loads is there, so the stream of its documents is what the decoder gives.\<close>

lemma loaded_file_docs:
  assumes "LoadDir P D files = Some (c, [])" and "(p, t) \<in> set files"
  shows "\<exists>ns. y_decode (pe_yaml P) t = (map Some ns, None) \<and> stream_docs (pe_yaml P) t = Inr ns"
proof -
  let ?ds = "fst (y_decode (pe_yaml P) t)"
  have "\<exists>m. n = Some m" if n: "n \<in> set ?ds" for n
  proof -
    obtain i where i: "i < length ?ds" "?ds ! i = n" using n by (auto simp: in_set_conv_nth)
    then have "(\<lparr>or_file = path_join D p, or_docIndex = int i\<rparr>, n) \<in> set (draft_docs P D files)"
      using assms(2) by (force simp: draft_docs_def file_docs_def in_set_enumerate_eq intro!: bexI [of _ "(p, t)"] rev_image_eqI [of "(i, n)"])
    then have "yamlNodeToJSON P n \<noteq> Inl m" for m using load_no_errs [OF assms(1)] by (force simp: doc_object_def)
    then show ?thesis by (cases n) (auto simp: yamlNodeToJSON_def)
  qed
  then have "\<forall>n \<in> set ?ds. \<exists>m. n = Some m" by simp
  from all_present [OF this] obtain ns where "?ds = map Some ns" by (rule that)
  moreover have "snd (y_decode (pe_yaml P) t) = None" using load_no_errs [OF assms(1)] assms(2) by force
  ultimately have "y_decode (pe_yaml P) t = (map Some ns, None)" by (simp add: prod_eq_iff)
  then show ?thesis by (auto simp: stream_docs_def List.map_filter_def comp_def)
qed

lemma doc_in_file:
  assumes "(p, t) \<in> set files" and "y_decode (pe_yaml P) t = (map Some ns, None)" and "i < length ns"
  shows "(\<lparr>or_file = path_join D p, or_docIndex = int i\<rparr>, Some (ns ! i)) \<in> set (draft_docs P D files)"
proof -
  have "(i, Some (ns ! i)) \<in> set (List.enumerate 0 (map Some ns))" using assms(3) by (simp add: in_set_enumerate_eq)
  then have "(\<lparr>or_file = path_join D p, or_docIndex = int i\<rparr>, Some (ns ! i)) \<in> set (file_docs P D (p, t))"
    unfolding file_docs_def using assms(2) by (force intro: rev_image_eqI)
  then show ?thesis using assms(1) by (auto simp: draft_docs_def)
qed

lemma doc_of_file:
  assumes "x \<in> set (draft_docs P D files)"
  obtains p t i where "(p, t) \<in> set files" and "fst x = \<lparr>or_file = path_join D p, or_docIndex = int i\<rparr>"
    and "i < length (fst (y_decode (pe_yaml P) t))" and "snd x = fst (y_decode (pe_yaml P) t) ! i"
  using assms by (auto simp: draft_docs_def file_docs_def in_set_enumerate_eq)

lemma doc_object_origin: "doc_object P x = Some ob \<Longrightarrow> ob_origin ob = fst x"
  by (auto simp: doc_object_def split: sum.splits jsval.splits dest: read_object_facts)

text \<open>What a successful load of a protocol draft gives.\<close>

definition clean_draft :: "object_api \<Rightarrow> draft_info \<Rightarrow> data_dir \<Rightarrow> bool" where
  "clean_draft A dr d \<longleftrightarrow> LoadDraft (oa_loaders A) d = (Inr dr, d) \<and> dr_errors dr = [] \<and> dr_mode dr = ModeAbstract \<and>
     LoadDir (oa_proto A) (oa_dataDir A) (dr_files dr) = Some (oa_config A (dr_files dr), [])"

lemma LoadDraft_wf: "dir_wf d \<Longrightarrow> LoadDraft L d = (r, d') \<Longrightarrow> dir_wf d'"
  by (auto simp: LoadDraft_def Let_def dir_wf_def split: if_splits)

lemma LoadDraft_errors: "LoadDraft L d = (Inr dr, d') \<Longrightarrow> dr_mode dr = ModeAbstract \<Longrightarrow> dr_errors dr = loadDir L (dr_files dr)"
  by (auto simp: LoadDraft_def Let_def bind_result_Inr_iff ModeAbstract_def ModeNative_def split: if_splits)

lemma LoadDraft_modes: "LoadDraft L d = (Inr dr, d') \<Longrightarrow> dr_mode dr \<noteq> ModeNative \<Longrightarrow> dr_mode dr = ModeAbstract"
  by (auto simp: LoadDraft_def Let_def bind_result_Inr_iff split: if_splits)

lemma clean_draft_found:
  assumes A: "loads_by_LoadDir A" and run: "findObject A kind nm d = (Found ob dr, d')"
  shows "clean_draft A dr d'" and "kind_valid kind" and "ValidateName nm" and "ob_kind ob = kind" and "ob_name ob = nm"
    and "ob \<in> set (all_objects (oa_config A (dr_files dr)))" and "LoadDraft (oa_loaders A) d = (Inr dr, d')"
proof -
  from run have ok: "kind_valid kind" "ValidateName nm" "LoadDraft (oa_loaders A) d = (Inr dr, d')" "dr_errors dr = []"
    and f: "find (\<lambda>ob. ob_kind ob = kind \<and> ob_name ob = nm) (configObjects (draft_config A dr)) = Some ob"
    by (auto simp: findObject_def split: if_splits prod.splits sum.splits option.splits)
  have "dr_mode dr \<noteq> ModeNative" using f by (auto simp: draft_config_def configObjects_def split: if_splits)
  then have m: "dr_mode dr = ModeAbstract" using LoadDraft_modes [OF ok(3)] by simp
  have "loadDir (oa_loaders A) (dr_files dr) = []" using LoadDraft_errors [OF ok(3) m] ok(4) by simp
  with A ok m show "clean_draft A dr d'" by (simp add: clean_draft_def LoadDraft_again loads_clean)
  show "kind_valid kind" "ValidateName nm" "LoadDraft (oa_loaders A) d = (Inr dr, d')" by (fact ok)+
  have "draft_config A dr = Some (oa_config A (dr_files dr))" using m by (simp add: draft_config_def ModeAbstract_def ModeNative_def)
  with f show "ob_kind ob = kind" "ob_name ob = nm" "ob \<in> set (all_objects (oa_config A (dr_files dr)))"
    by (auto simp: configObjects_set find_Some_iff dest: nth_mem)
qed

lemma clean_draft_finds:
  assumes "clean_draft A dr d" and "x \<in> set (draft_docs (oa_proto A) (oa_dataDir A) (dr_files dr))"
    and "doc_object (oa_proto A) x = Some ob" and "kind_valid (ob_kind ob)" and "ValidateName (ob_name ob)"
  shows "findObject A (ob_kind ob) (ob_name ob) d = (Found ob dr, d)"
proof -
  have "draft_config A dr = Some (oa_config A (dr_files dr))"
    using assms(1) by (simp add: clean_draft_def draft_config_def ModeAbstract_def ModeNative_def)
  with assms loaded_found [of "oa_proto A" "oa_dataDir A" "dr_files dr" "oa_config A (dr_files dr)" x ob] show ?thesis
    by (simp add: findObject_def clean_draft_def)
qed

section \<open>Writing and reading back\<close>

text \<open>
  What the JSON and YAML libraries promise of one text: the value a request reads from it is the value
  of its first YAML document, an empty text is \<open>null\<close>, and a newline at the end changes nothing.
\<close>

definition readings_agree :: "object_api \<Rightarrow> bool" where
  "readings_agree A \<longleftrightarrow> (\<forall>c v. oa_yamlValue A c = Some v \<or> oa_json A c = Some v \<longrightarrow>
     (\<forall>n ds err. y_decode (pe_yaml (oa_proto A)) c = (Some n # ds, err) \<longrightarrow> yamlNodeToAny (oa_proto A) n = Inr v) \<and>
     (y_decode (pe_yaml (oa_proto A)) c = ([], None) \<longrightarrow> v = JNull) \<and>
     y_decode (pe_yaml (oa_proto A)) (c @ [CHR 0x0A]) = y_decode (pe_yaml (oa_proto A)) c)"

lemma readObjectDocument_value:
  assumes "readObjectDocument A ct content = Inr e"
  obtains v where "oa_yamlValue A content = Some v \<or> oa_json A content = Some v" and "decode_envelope v = Some e" and "v \<noteq> JNull"
    and "ev_apiVersion e = APIVersionV1Alpha1" and "kind_valid (ev_kind e)"
proof -
  from assms obtain v where v: "oa_yamlValue A content = Some v \<or> oa_json A content = Some v" "decode_envelope v = Some e"
    "ev_apiVersion e = APIVersionV1Alpha1" "kind_valid (ev_kind e)"
    by (auto simp: readObjectDocument_def Let_def bind_eq_Some_conv split: if_splits option.splits)
  moreover have "v \<noteq> JNull"
  proof
    assume "v = JNull"
    then have "e = zero_envelope" using v(2) by (simp add: decode_envelope_def go_unmarshal_def)
    with v(3) show False by (simp add: zero_envelope_def APIVersionV1Alpha1_def)
  qed
  ultimately show ?thesis using that by blast
qed

lemma doc_object_value:
  assumes "yamlNodeToAny P n = Inr v" and "v \<noteq> JNull" and "decode_envelope v = Some e"
    and "doc_object P (org, Some n) \<noteq> None"
  obtains ob spec where "doc_object P (org, Some n) = Some ob" and "pe_spec P (ev_kind e) (ev_spec e) = Inr spec"
    and "ob_kind ob = ev_kind e" and "ob_name ob = om_name (ev_metadata e)" and "ob_value ob = object_json e spec"
proof -
  have "doc_object P (org, Some n) = (case read_object P org v Map.empty of Inl m \<Rightarrow> None | Inr ob \<Rightarrow> Some ob)"
    using assms(1,2) by (cases v) (simp_all add: doc_object_def yamlNodeToJSON_def)
  with assms(3,4) that show ?thesis
    by (auto simp: read_object_def Let_def split: sum.splits if_splits option.splits)
qed

text \<open>An object whose document is in a loaded draft is what a GET returns.\<close>

lemma getObject_document:
  assumes cd: "clean_draft A dr d" and x: "(org, Some n) \<in> set (draft_docs (oa_proto A) (oa_dataDir A) (dr_files dr))"
    and n: "yamlNodeToAny (oa_proto A) n = Inr v" "v \<noteq> JNull" "decode_envelope v = Some e"
    and k: "kind_valid (ev_kind e)" "ValidateName (om_name (ev_metadata e))" and acc: "\<not> str_includes acc ''application/yaml''"
  shows "\<exists>spec. pe_spec (oa_proto A) (ev_kind e) (ev_spec e) = Inr spec \<and>
     getObject A acc (ev_kind e) (om_name (ev_metadata e)) d = (writeJSON 200 (object_json e spec), d)"
proof -
  have load: "LoadDir (oa_proto A) (oa_dataDir A) (dr_files dr) = Some (oa_config A (dr_files dr), [])"
    using cd by (simp add: clean_draft_def)
  have "doc_object (oa_proto A) (org, Some n) \<noteq> None"
    using load_no_errs [OF load] x n(1,2) by (force simp: yamlNodeToJSON_def)
  from doc_object_value [OF n this] obtain ob spec where
    ob: "doc_object (oa_proto A) (org, Some n) = Some ob" "pe_spec (oa_proto A) (ev_kind e) (ev_spec e) = Inr spec"
      "ob_kind ob = ev_kind e" "ob_name ob = om_name (ev_metadata e)" "ob_value ob = object_json e spec" by metis
  from clean_draft_finds [OF cd x ob(1)] k ob(3,4) have "findObject A (ev_kind e) (om_name (ev_metadata e)) d = (Found ob dr, d)"
    by simp
  with acc ob(2,5) show ?thesis by (simp add: getObject_def)
qed

text \<open>The setting of the theorems: an absolute data directory, and libraries and loaders as described.\<close>

definition api_sound :: "object_api \<Rightarrow> bool" where
  "api_sound A \<longleftrightarrow> path_isAbs (oa_dataDir A) \<and> path_clean (oa_dataDir A) = oa_dataDir A \<and> yaml_laws (pe_yaml (oa_proto A)) \<and>
     loads_by_LoadDir A \<and> readings_agree A"

lemma parseSingle_first: "parseSingleYAML Y t = Inr n \<Longrightarrow> \<exists>ds err. y_decode Y t = (Some n # ds, err)"
  by (auto simp: parseSingleYAML_def split: prod.splits list.splits option.splits)

lemma put_file_targets:
  assumes "entry_path p" and "d ''config.d'' \<noteq> None"
  shows "put_file p c d ''native.yaml'' = d ''native.yaml''" and "put_file p c d ''config.d'' \<noteq> None"
proof -
  obtain n where n: "p = ''config.d/'' @ n" "entry_name n" using assms(1) by (auto simp: entry_path_def)
  then have "split_on slash p = [''config.d'', n]" using split_entry_path by (simp add: entry_name_def)
  then show "put_file p c d ''native.yaml'' = d ''native.yaml''" "put_file p c d ''config.d'' \<noteq> None"
    using assms(2) by (auto simp: put_file_def split: option.splits dirent.splits)
qed

lemma clean_draft_of_files:
  assumes "loads_by_LoadDir A" and "sourceFiles d = Inr files" and "d ''native.yaml'' = None" and "d ''config.d'' \<noteq> None"
    and "loadDir (oa_loaders A) files = []"
  shows "clean_draft A (protocol_info (oa_loaders A) files) d"
  using assms loads_clean [OF assms(1,5)] by (auto simp: clean_draft_def LoadDraft_def Let_def protocol_info_def)

text \<open>The protocol files a found object comes from.\<close>

lemma clean_draft_files:
  assumes "clean_draft A dr d" and "dir_wf d"
  shows "sourceFiles d = Inr (dr_files dr)" and "d ''native.yaml'' = None" and "\<forall>p \<in> set (map fst (dr_files dr)). entry_path p"
    and "d ''config.d'' \<noteq> None" and "DraftHash (sha256 (oa_loaders A)) d = Inr (dr_hash dr)" and "distinct (map fst (dr_files dr))"
proof -
  have load: "LoadDraft (oa_loaders A) d = (Inr dr, d)" "dr_mode dr = ModeAbstract" using assms(1) by (simp_all add: clean_draft_def)
  note files = protocol_files [OF assms(2) load]
  show "sourceFiles d = Inr (dr_files dr)" "d ''native.yaml'' = None" "\<forall>p \<in> set (map fst (dr_files dr)). entry_path p"
    "distinct (map fst (dr_files dr))" by (fact files)+
  show "DraftHash (sha256 (oa_loaders A)) d = Inr (dr_hash dr)" using files(4,5) by (simp add: DraftHash_def)
  show "d ''config.d'' \<noteq> None" using load(1) by (auto simp: LoadDraft_def Let_def split: if_splits dest!: fun_cong [of _ _ "''config.d''"])
qed

lemma found_place:
  assumes "clean_draft A dr d" and "ob \<in> set (all_objects (oa_config A (dr_files dr)))"
  obtains p t ns i where "(p, t) \<in> set (dr_files dr)" and "ob_origin ob = \<lparr>or_file = path_join (oa_dataDir A) p, or_docIndex = int i\<rparr>"
    and "y_decode (pe_yaml (oa_proto A)) t = (map Some ns, None)" and "stream_docs (pe_yaml (oa_proto A)) t = Inr ns" and "i < length ns"
    and "doc_object (oa_proto A) (ob_origin ob, Some (ns ! i)) = Some ob"
proof -
  have load: "LoadDir (oa_proto A) (oa_dataDir A) (dr_files dr) = Some (oa_config A (dr_files dr), [])"
    using assms(1) by (simp add: clean_draft_def)
  obtain x where x: "x \<in> set (draft_docs (oa_proto A) (oa_dataDir A) (dr_files dr))" "doc_object (oa_proto A) x = Some ob"
    using assms(2) loaded_objects_set [OF load] by blast
  from doc_of_file [OF x(1)] obtain p t i where f: "(p, t) \<in> set (dr_files dr)"
    "fst x = \<lparr>or_file = path_join (oa_dataDir A) p, or_docIndex = int i\<rparr>"
    "i < length (fst (y_decode (pe_yaml (oa_proto A)) t))" "snd x = fst (y_decode (pe_yaml (oa_proto A)) t) ! i" by metis
  obtain ns where ns: "y_decode (pe_yaml (oa_proto A)) t = (map Some ns, None)" "stream_docs (pe_yaml (oa_proto A)) t = Inr ns"
    using loaded_file_docs [OF load f(1)] by blast
  have org: "ob_origin ob = fst x" using doc_object_origin [OF x(2)] .
  have "x = (ob_origin ob, Some (ns ! i))" using f(3,4) ns(1) org by (simp add: prod_eq_iff)
  then have "doc_object (oa_proto A) (ob_origin ob, Some (ns ! i)) = Some ob" using x(2) by (simp only:)
  moreover have "i < length ns" using f(3) ns(1) by simp
  ultimately show ?thesis using that [OF f(1) _ ns] f(2) org by simp
qed

lemma update_puts_document:
  assumes A: "api_sound A" and wf: "dir_wf d" and cd: "clean_draft A dr d" and ob: "ob \<in> set (all_objects (oa_config A (dr_files dr)))"
    and run: "WriteDraftDocument (pe_yaml (oa_proto A)) (oa_loaders A) f (oa_cwd A) (oa_dataDir A) (ob_origin ob) content d = (None, d')"
  shows "\<exists>dr' org n ds err. clean_draft A dr' d' \<and> (org, Some n) \<in> set (draft_docs (oa_proto A) (oa_dataDir A) (dr_files dr')) \<and>
     y_decode (pe_yaml (oa_proto A)) content = (Some n # ds, err)"
proof -
  let ?P = "oa_proto A" and ?D = "oa_dataDir A" and ?L = "oa_loaders A"
  have snd: "path_isAbs ?D" "path_clean ?D = ?D" "yaml_laws (pe_yaml ?P)" "loads_by_LoadDir A" using A by (simp_all add: api_sound_def)
  note files = clean_draft_files [OF cd wf]
  obtain p t ns i where pl: "(p, t) \<in> set (dr_files dr)" "ob_origin ob = \<lparr>or_file = path_join ?D p, or_docIndex = int i\<rparr>"
    "stream_docs (pe_yaml ?P) t = Inr ns" "i < length ns" using found_place [OF cd ob] by metis
  from write_document_changes_one [OF snd(1-3) wf files(1-3) pl(1) run [unfolded pl(2)]] pl(3)
  obtain n c' where e: "parseSingleYAML (pe_yaml ?P) content = Inr n" "stream_docs (pe_yaml ?P) c' = Inr (ns[i := n])"
    "sourceFiles d' = Inr (replaced_in p c' (dr_files dr))" "loadDir ?L (replaced_in p c' (dr_files dr)) = []" "d' = put_file p c' d"
    by auto
  have p: "entry_path p" using files(3) pl(1) by force
  have "d' ''native.yaml'' = None" "d' ''config.d'' \<noteq> None" using put_file_targets [of p d c', OF p files(4)] files(2) unfolding e(5) by simp_all
  from clean_draft_of_files [OF snd(4) e(3) this e(4)]
  have cd': "clean_draft A (protocol_info ?L (replaced_in p c' (dr_files dr))) d'" .
  have mem: "(p, c') \<in> set (replaced_in p c' (dr_files dr))" using pl(1) by (force simp: replaced_in_def)
  obtain ms where ms: "y_decode (pe_yaml ?P) c' = (map Some ms, None)" "stream_docs (pe_yaml ?P) c' = Inr ms"
    using loaded_file_docs [OF loads_clean [OF snd(4) e(4)] mem] by blast
  with e(2) have "ms = ns[i := n]" by simp
  with doc_in_file [OF mem ms(1), of i ?D] pl(4)
  have "(\<lparr>or_file = path_join ?D p, or_docIndex = int i\<rparr>, Some n) \<in> set (draft_docs ?P ?D (replaced_in p c' (dr_files dr)))" by simp
  with cd' parseSingle_first [OF e(1)] show ?thesis by (force simp: protocol_info_def)
qed

lemma create_puts_documents:
  assumes A: "api_sound A" and v: "oa_yamlValue A content = Some v \<or> oa_json A content = Some v" "v \<noteq> JNull"
    and run: "ReplaceDraft (oa_loaders A) sf f ModeAbstract (old @ [\<lparr>sf_path = q, sf_content = content @ [CHR 0x0A]\<rparr>]) h d = (Inr h', d')"
  shows "\<exists>dr' ns. clean_draft A dr' d' \<and> y_decode (pe_yaml (oa_proto A)) content = (map Some ns, None) \<and> ns \<noteq> [] \<and>
     (\<forall>j < length ns. \<exists>org. (org, Some (ns ! j)) \<in> set (draft_docs (oa_proto A) (oa_dataDir A) (dr_files dr')))"
proof -
  let ?P = "oa_proto A" and ?D = "oa_dataDir A" and ?L = "oa_loaders A"
  let ?ss = "old @ [\<lparr>sf_path = q, sf_content = content @ [CHR 0x0A]\<rparr>]"
  let ?fs = "sort_key fst (map (\<lambda>f. (sf_path f, sf_content f)) ?ss)"
  have A': "loads_by_LoadDir A" "readings_agree A" using A by (simp_all add: api_sound_def)
  note S = ReplaceDraft_success [OF run]
  have "validate_files ModeAbstract [] ?ss = None" using S(2) by (simp add: validateSourceSet_def ModeAbstract_def ModeNative_def)
  note st = validate_files_abstract [OF this]
  have src: "sourceFiles (staged ?ss) = Inr ?fs" by (rule sourceFiles_staged) (use st in blast)+
  have nat: "staged ?ss ''native.yaml'' = None" using native_absent st by blast
  have dir: "staged ?ss ''config.d'' \<noteq> None" by (simp add: staged_def)
  obtain dr where dr: "fst (LoadDraft ?L (staged ?ss)) = Inr dr" "dr_errors dr = []" using S(5) by blast
  then have ok: "loadDir ?L ?fs = []" using src nat dir by (auto simp: LoadDraft_def Let_def)
  have d': "d' ''config.d'' = staged ?ss ''config.d''" "d' ''native.yaml'' = staged ?ss ''native.yaml''"
    using commit_done [OF S(3)] LoadDraft_dir [of "staged ?ss" ?L, OF dir] by (simp_all add: targets_def)
  then have "sourceFiles d' = Inr ?fs" using src sourceFiles_cong [of d' "staged ?ss", OF d'] by simp
  from clean_draft_of_files [OF A'(1) this _ _ ok] have cd: "clean_draft A (protocol_info ?L ?fs) d'" using d' nat dir by simp
  have mem: "(q, content @ [CHR 0x0A]) \<in> set ?fs" by simp
  obtain ns where ns: "y_decode (pe_yaml ?P) (content @ [CHR 0x0A]) = (map Some ns, None)"
    using loaded_file_docs [OF loads_clean [OF A'(1) ok] mem] by blast
  then have c: "y_decode (pe_yaml ?P) content = (map Some ns, None)" using A'(2) v(1) unfolding readings_agree_def by metis
  have "ns \<noteq> []"
  proof
    assume "ns = []"
    with c v A'(2) show False unfolding readings_agree_def by force
  qed
  moreover have "\<exists>org. (org, Some (ns ! j)) \<in> set (draft_docs ?P ?D (dr_files (protocol_info ?L ?fs)))" if "j < length ns" for j
    using doc_in_file [OF mem ns that, of ?D] by (auto simp: protocol_info_def)
  ultimately show ?thesis using cd c by blast
qed

lemma map_Some_inject: "map Some xs = map Some ys \<longleftrightarrow> xs = ys"
  by (simp add: inj_map_eq_map)

lemma store_absent:
  assumes A: "api_sound A" and v: "oa_yamlValue A content = Some v \<or> oa_json A content = Some v" "v \<noteq> JNull"
    and new: "findObject A kind nm d = (Absent dr, d1)" and st: "store_object A f kind nm content d = (None, d')"
  shows "\<exists>dr' ns. clean_draft A dr' d' \<and> y_decode (pe_yaml (oa_proto A)) content = (map Some ns, None) \<and> ns \<noteq> [] \<and>
     (\<forall>j < length ns. \<exists>org. (org, Some (ns ! j)) \<in> set (draft_docs (oa_proto A) (oa_dataDir A) (dr_files dr')))"
proof -
  obtain h where "ReplaceDraft (oa_loaders A) (of_stage f) (of_commit f) ModeAbstract
      (currentSourceFiles dr @ [\<lparr>sf_path = object_path kind nm, sf_content = content @ [CHR 0x0A]\<rparr>]) (dr_hash dr) d1 = (Inr h, d')"
    using new st by (auto simp: store_object_def split: prod.splits sum.splits)
  from create_puts_documents [OF A v this] show ?thesis .
qed

text \<open>A PUT that answers 200 has stored its document.\<close>

lemma putObject_stored:
  assumes "putObject A f kind nm expected ct content d = (resp, d')" and "rs_status resp = 200"
  obtains e v where "readObjectDocument A ct content = Inr e" and "ev_kind e = kind" and "om_name (ev_metadata e) = nm"
    and "kind_valid kind" and "ValidateName nm" and "store_object A f kind nm content d = (None, d')"
    and "oa_yamlValue A content = Some v \<or> oa_json A content = Some v" and "decode_envelope v = Some e" and "v \<noteq> JNull"
proof -
  have err: "rs_status (writeConfigError e) \<noteq> 200" for e
    by (cases e) (auto simp: writeConfigError_def writeError_def writeJSON_def Let_def)
  from assms have k: "kind_valid kind" "ValidateName nm" by (auto simp: putObject_def bad_object_def writeError_def writeJSON_def split: if_splits)
  from assms k obtain e where e: "readObjectDocument A ct content = Inr e" "ev_kind e = kind" "om_name (ev_metadata e) = nm"
    by (auto simp: putObject_def readObjectDocument_def invalid_argument_def writeError_def writeJSON_def Let_def split: if_splits sum.splits option.splits)
  have "store_object A f kind nm content d = (None, d')"
    using assms k e err
    by (auto simp: putObject_def checkExpectedHash_def edit_response_def writeError_def writeJSON_def
        split: if_splits sum.splits option.splits prod.splits)
  moreover obtain v where "oa_yamlValue A content = Some v \<or> oa_json A content = Some v" "decode_envelope v = Some e" "v \<noteq> JNull"
    using readObjectDocument_value [OF e(1)] by metis
  ultimately show ?thesis using that [OF e k] by blast
qed


text \<open>
  The path of a PUT does not bound what it creates.  Only the first document of the body is
  compared with the kind and name of the path.  When the object is new, every further document of
  the body becomes an object of the draft as well, and can be read under its own kind and name.
\<close>

theorem put_creates_every_document:
  assumes A: "api_sound A" and put: "putObject A f kind nm expected ct content d = (resp, d')" "rs_status resp = 200"
    and new: "fst (findObject A kind nm d) = Absent dr"
    and docs: "y_decode (pe_yaml (oa_proto A)) content = (map Some ns, None)" "j < length ns"
    and doc: "yamlNodeToAny (oa_proto A) (ns ! j) = Inr w" "w \<noteq> JNull" "decode_envelope w = Some e2"
    and acc: "\<not> str_includes acc ''application/yaml''"
  shows "\<exists>spec. getObject A acc (ev_kind e2) (om_name (ev_metadata e2)) d' = (writeJSON 200 (object_json e2 spec), d')"
proof -
  obtain e v where st: "store_object A f kind nm content d = (None, d')"
    and v: "oa_yamlValue A content = Some v \<or> oa_json A content = Some v" "v \<noteq> JNull"
    using putObject_stored [OF put] by metis
  obtain d1 where "findObject A kind nm d = (Absent dr, d1)" using new by (cases "findObject A kind nm d") simp
  from store_absent [OF A v this st] docs obtain dr' ms where
    c': "clean_draft A dr' d'" "map Some ms = map Some ns"
      "\<forall>j < length ms. \<exists>org. (org, Some (ms ! j)) \<in> set (draft_docs (oa_proto A) (oa_dataDir A) (dr_files dr'))" by auto
  from c'(2) have "ms = ns" by (metis map_Some_inject)
  with c' docs(2) obtain org where
    c: "clean_draft A dr' d'" "(org, Some (ns ! j)) \<in> set (draft_docs (oa_proto A) (oa_dataDir A) (dr_files dr'))" by blast
  have load: "LoadDir (oa_proto A) (oa_dataDir A) (dr_files dr') = Some (oa_config A (dr_files dr'), [])"
    using c(1) by (simp add: clean_draft_def)
  have "doc_object (oa_proto A) (org, Some (ns ! j)) \<noteq> None"
    using load_no_errs [OF load] c(2) doc(1,2) by (force simp: yamlNodeToJSON_def)
  from doc_object_value [OF doc this] obtain ob where "doc_object (oa_proto A) (org, Some (ns ! j)) = Some ob"
    "ob_kind ob = ev_kind e2" "ob_name ob = om_name (ev_metadata e2)" by metis
  then have "kind_valid (ev_kind e2)" "ValidateName (om_name (ev_metadata e2))"
    by (auto simp: doc_object_def split: sum.splits jsval.splits dest: read_object_facts)
  from getObject_document [OF c doc this acc] show ?thesis by blast
qed

section \<open>Deleting\<close>

text \<open>The kind and name of a document's object do not depend on where it stands.\<close>

definition node_key :: "proto_env \<Rightarrow> ynode option \<Rightarrow> (string \<times> string) option" where
  "node_key P n = map_option object_key (doc_object P (\<lparr>or_file = [], or_docIndex = 0\<rparr>, n))"

lemma read_object_place:
  "read_object P org v Map.empty = map_sum id (\<lambda>ob. ob\<lparr>ob_origin := org\<rparr>) (read_object P \<lparr>or_file = [], or_docIndex = 0\<rparr> v Map.empty)"
  by (simp add: read_object_def Let_def split: option.split sum.split)

lemma doc_object_key: "map_option object_key (doc_object P x) = node_key P (snd x)"
proof (cases "yamlNodeToJSON P (snd x)")
  case (Inr v)
  show ?thesis
  proof (cases "v = JNull")
    case False
    then have eq: "doc_object P (org, snd x) = (case read_object P org v Map.empty of Inl m \<Rightarrow> None | Inr ob \<Rightarrow> Some ob)" for org
      using Inr by (cases v) (simp_all add: doc_object_def)
    show ?thesis
      using eq [of "fst x"] unfolding node_key_def eq prod.collapse
      by (subst (asm) read_object_place) (auto split: sum.splits)
  qed (use Inr in \<open>simp add: node_key_def doc_object_def\<close>)
qed (simp add: node_key_def doc_object_def)

definition draft_nodes :: "proto_env \<Rightarrow> (string \<times> string) list \<Rightarrow> ynode option list" where
  "draft_nodes P files = concat (map (\<lambda>f. fst (y_decode (pe_yaml P) (snd f))) files)"

lemma draft_docs_nodes: "map snd (draft_docs P D files) = draft_nodes P files"
  by (induction files) (simp_all add: draft_docs_def draft_nodes_def file_docs_def case_prod_unfold comp_def)

lemma map_filter_map_option: "map g (List.map_filter f xs) = List.map_filter (\<lambda>x. map_option g (f x)) xs"
  by (induction xs) (auto simp: List.map_filter_def)

lemma map_filter_map: "List.map_filter f (map g xs) = List.map_filter (\<lambda>x. f (g x)) xs"
  by (simp add: List.map_filter_def filter_map comp_def)

lemma object_keys_of_docs: "map object_key (List.map_filter (doc_object P) xs) = List.map_filter (node_key P) (map snd xs)"
  by (simp add: map_filter_map_option map_filter_map doc_object_key)

lemma loaded_keys:
  assumes "LoadDir P D files = Some (c, [])"
  shows "mset (map object_key (all_objects c)) = mset (List.map_filter (node_key P) (draft_nodes P files))"
proof -
  have "mset (all_objects c) = mset (List.map_filter (doc_object P) (draft_docs P D files))" using load_no_errs [OF assms] by blast
  then have "mset (map object_key (all_objects c)) = mset (map object_key (List.map_filter (doc_object P) (draft_docs P D files)))" by simp
  then show ?thesis by (simp only: object_keys_of_docs draft_docs_nodes)
qed

lemma mset_map_filter: "mset xs = mset ys \<Longrightarrow> mset (List.map_filter f xs) = mset (List.map_filter f ys)"
  unfolding List.map_filter_def by simp

text \<open>Documents that are objects with names of their own load without errors.\<close>

lemma load_node_new:
  assumes "yamlNodeToJSON P n = Inr JNull \<or> doc_object P (org, n) \<noteq> None" and "\<forall>k. node_key P n = Some k \<longrightarrow> ls_seen s k = None"
  shows "ls_errs (load_node P org n s) = ls_errs s \<and>
     dom (ls_seen (load_node P org n s)) = dom (ls_seen s) \<union> set_option (node_key P n)"
proof (cases "yamlNodeToJSON P n = Inr JNull")
  case True
  then show ?thesis by (simp add: load_node_def node_key_def doc_object_def)
next
  case False
  with assms(1) obtain v ob where v: "yamlNodeToJSON P n = Inr v" "v \<noteq> JNull" "read_object P org v Map.empty = Inr ob"
    by (auto simp: doc_object_def split: sum.splits jsval.splits)
  have "doc_object P (org, n) = Some ob" using v by (cases v) (simp_all add: doc_object_def)
  then have key: "node_key P n = Some (object_key ob)" using doc_object_key [of P "(org, n)"] by simp
  with assms(2) have "read_object P org v (ls_seen s) = Inr ob"
    using v(3) by (auto simp: read_object_def Let_def split: option.splits if_splits sum.splits)
  then show ?thesis using v(1,2) key by (cases v) (auto simp: load_node_def loadDoc_def)
qed

lemma load_docs_new:
  assumes "\<forall>x \<in> set xs. yamlNodeToJSON P (snd x) = Inr JNull \<or> doc_object P x \<noteq> None"
    and "distinct (List.map_filter (node_key P) (map snd xs))" and "dom (ls_seen s) \<inter> set (List.map_filter (node_key P) (map snd xs)) = {}"
  shows "ls_errs (load_docs P xs s) = ls_errs s"
  using assms
proof (induction xs arbitrary: s)
  case (Cons x xs)
  obtain org n where x: "x = (org, n)" by (cases x)
  let ?t = "load_node P org n s"
  have rest: "\<forall>x \<in> set xs. yamlNodeToJSON P (snd x) = Inr JNull \<or> doc_object P x \<noteq> None"
    and here: "yamlNodeToJSON P n = Inr JNull \<or> doc_object P (org, n) \<noteq> None" using Cons.prems(1) by (simp_all add: x)
  let ?K = "List.map_filter (node_key P) (map snd xs)"
  have one: "ls_errs ?t = ls_errs s" and "distinct ?K \<and> dom (ls_seen ?t) \<inter> set ?K = {}"
  proof -
    have keys: "List.map_filter (node_key P) (map snd (x # xs)) = (case node_key P n of None \<Rightarrow> ?K | Some k \<Rightarrow> k # ?K)"
      by (simp add: x List.map_filter_def split: option.split)
    have fresh: "\<forall>k. node_key P n = Some k \<longrightarrow> ls_seen s k = None"
      using Cons.prems(3) unfolding keys by (auto simp del: split_paired_All)
    show "ls_errs ?t = ls_errs s" using load_node_new [OF here fresh] by blast
    have "dom (ls_seen ?t) = dom (ls_seen s) \<union> set_option (node_key P n)" using load_node_new [OF here fresh] by blast
    then show "distinct ?K \<and> dom (ls_seen ?t) \<inter> set ?K = {}"
      using Cons.prems(2,3) unfolding keys by (cases "node_key P n") auto
  qed
  with Cons.IH [OF rest] have "ls_errs (load_docs P xs ?t) = ls_errs s" by simp
  then show ?case by (simp add: load_docs_def x)
qed (simp add: load_docs_def)

lemma load_files_all:
  "\<forall>f \<in> set files. snd (y_decode (pe_yaml P) (snd f)) = None \<Longrightarrow> load_files P D files s = Some (load_docs P (draft_docs P D files) s)"
proof (induction files arbitrary: s)
  case (Cons f fs)
  obtain p t where f: "f = (p, t)" by (cases f)
  from Cons.prems have "y_decode (pe_yaml P) t = (fst (y_decode (pe_yaml P) t), None)" by (simp add: f prod_eq_iff)
  note loadFile_complete [OF this, of "path_join D p" s]
  with Cons show ?case by (simp add: f load_list_docs draft_docs_def file_docs_def load_docs_def)
qed (simp add: load_docs_def draft_docs_def)

lemma map_filter_append: "List.map_filter f (xs @ ys) = List.map_filter f xs @ List.map_filter f ys"
  by (simp add: List.map_filter_def)

lemma draft_nodes_partition:
  "mset (draft_nodes P files) = mset (draft_nodes P (filter Q files) @ draft_nodes P (filter (\<lambda>f. \<not> Q f) files))"
  by (induction files) (simp_all add: draft_nodes_def)

lemma node_keys_partition:
  "mset (List.map_filter (node_key P) (draft_nodes P files)) =
     mset (List.map_filter (node_key P) (draft_nodes P (filter Q files)) @ List.map_filter (node_key P) (draft_nodes P (filter (\<lambda>f. \<not> Q f) files)))"
  using mset_map_filter [OF draft_nodes_partition [of P files Q], of "node_key P"] unfolding map_filter_append .

lemma loaded_keys_distinct:
  assumes "LoadDir P D files = Some (c, [])"
  shows "distinct (List.map_filter (node_key P) (draft_nodes P files))"
  using load_no_errs [OF assms] mset_eq_imp_distinct_iff [OF loaded_keys [OF assms]] by blast

text \<open>Without one of its files, a draft still loads.\<close>

lemma fewer_files_load:
  assumes "LoadDir P D files = Some (c, [])"
  shows "\<exists>c'. LoadDir P D (filter Q files) = Some (c', [])"
proof -
  let ?s = "\<lparr>ls_config = empty_config, ls_seen = Map.empty, ls_errs = []\<rparr>" and ?docs = "draft_docs P D (filter Q files)"
  note old = load_no_errs [OF assms]
  have "distinct (List.map_filter (node_key P) (draft_nodes P (filter Q files)))"
    using loaded_keys_distinct [OF assms] mset_eq_imp_distinct_iff [OF node_keys_partition [of P files Q]] by simp
  moreover have "set ?docs \<subseteq> set (draft_docs P D files)" by (auto simp: draft_docs_def)
  ultimately have "ls_errs (load_docs P ?docs ?s) = ls_errs ?s" using old by (intro load_docs_new) (auto simp: draft_docs_nodes)
  moreover have "load_files P D (filter Q files) ?s = Some (load_docs P ?docs ?s)" using old by (intro load_files_all) auto
  ultimately show ?thesis by (simp add: LoadDir_def)
qed

lemma filter_path: "distinct (map fst files) \<Longrightarrow> (p, t) \<in> set files \<Longrightarrow> filter (\<lambda>f. \<not> fst f \<noteq> p) files = [(p, t)]"
  by (induction files) (force simp: filter_empty_conv)+

lemma replaced_in_others: "filter (\<lambda>f. fst f \<noteq> p) (replaced_in p c files) = filter (\<lambda>f. fst f \<noteq> p) files"
  by (induction files) (auto simp: replaced_in_def)

lemma replaced_in_mem: "(p, t) \<in> set files \<Longrightarrow> (p, c) \<in> set (replaced_in p c files)"
  by (force simp: replaced_in_def)

text \<open>The keys of a draft whose file \<open>p\<close> holds certain documents.\<close>

definition other_keys :: "proto_env \<Rightarrow> string \<Rightarrow> (string \<times> string) list \<Rightarrow> (string \<times> string) list" where
  "other_keys P p files = List.map_filter (node_key P) (draft_nodes P (filter (\<lambda>f. fst f \<noteq> p) files))"

lemma keys_at:
  assumes "LoadDir P D files = Some (c, [])" and "distinct (map fst files)" and "(p, t) \<in> set files"
    and "y_decode (pe_yaml P) t = (map Some ns, None)"
  shows "mset (map object_key (all_objects c)) = mset (other_keys P p files @ List.map_filter (node_key P) (map Some ns))"
  using node_keys_partition [of P files "\<lambda>f. fst f \<noteq> p"] filter_path [OF assms(2,3)] loaded_keys [OF assms(1)]
  by (simp add: other_keys_def) (simp add: draft_nodes_def assms(4))

lemma key_removed:
  assumes "mset ks = mset (xs @ List.map_filter f (map Some ns))" and "distinct ks" and "i < length ns" and "f (Some (ns ! i)) = Some k"
    and "mset ls = mset (xs @ List.map_filter f (map Some (take i ns @ drop (Suc i) ns)))"
  shows "k \<notin> set ls"
proof -
  have ns: "List.map_filter f (map Some ns) = List.map_filter f (map Some (take i ns)) @ k # List.map_filter f (map Some (drop (Suc i) ns))"
    using arg_cong [OF id_take_nth_drop [OF assms(3)], of "\<lambda>l. List.map_filter f (map Some l)"] assms(4)
    by (simp add: map_filter_append)
  have "distinct (xs @ List.map_filter f (map Some ns))" using assms(2) mset_eq_imp_distinct_iff [OF assms(1)] by simp
  moreover have "set ls = set (xs @ List.map_filter f (map Some (take i ns @ drop (Suc i) ns)))" using assms(5) by (rule mset_eq_setD)
  ultimately show ?thesis unfolding ns by (auto simp: map_filter_append)
qed

lemma remove_file_targets:
  assumes "entry_path p" and "d ''config.d'' \<noteq> None"
  shows "remove_file p d ''native.yaml'' = d ''native.yaml''" and "remove_file p d ''config.d'' \<noteq> None"
proof -
  obtain n where n: "p = ''config.d/'' @ n" "entry_name n" using assms(1) by (auto simp: entry_path_def)
  then have "split_on slash p = [''config.d'', n]" using split_entry_path by (simp add: entry_name_def)
  then show "remove_file p d ''native.yaml'' = d ''native.yaml''" "remove_file p d ''config.d'' \<noteq> None"
    using assms(2) by (auto simp: remove_file_def split: option.splits dirent.splits)
qed

lemma clean_draft_misses:
  assumes "clean_draft A dr d" and "(kind, nm) \<notin> set (map object_key (all_objects (oa_config A (dr_files dr))))"
    and "kind_valid kind" and "ValidateName nm"
  shows "getObject A acc kind nm d = (writeError 404 ''NOT_FOUND'' ''configuration resource not found'', d)"
proof -
  have "find (\<lambda>ob. ob_kind ob = kind \<and> ob_name ob = nm) (configObjects (Some (oa_config A (dr_files dr)))) = None"
    using assms(2) by (force simp: find_None_iff configObjects_set)
  then show ?thesis
    using assms by (simp add: getObject_def findObject_def clean_draft_def draft_config_def ModeAbstract_def ModeNative_def
        find_error_def no_rows_def writeConfigError_def)
qed

lemma delete_removes_key:
  assumes A: "api_sound A" and wf: "dir_wf d" and cd: "clean_draft A dr d" and ob: "ob \<in> set (all_objects (oa_config A (dr_files dr)))"
    and run: "DeleteDraftDocument (pe_yaml (oa_proto A)) (oa_loaders A) f (oa_cwd A) (oa_dataDir A) (ob_origin ob) d = (None, d')"
  shows "\<exists>dr'. clean_draft A dr' d' \<and> object_key ob \<notin> set (map object_key (all_objects (oa_config A (dr_files dr'))))"
proof -
  let ?P = "oa_proto A" and ?D = "oa_dataDir A" and ?L = "oa_loaders A" and ?fs = "dr_files dr"
  have snd: "path_isAbs ?D" "path_clean ?D = ?D" "yaml_laws (pe_yaml ?P)" "loads_by_LoadDir A" using A by (simp_all add: api_sound_def)
  have load: "LoadDir ?P ?D ?fs = Some (oa_config A ?fs, [])" using cd by (simp add: clean_draft_def)
  note files = clean_draft_files [OF cd wf]
  obtain p t ns i where pl: "(p, t) \<in> set ?fs" "ob_origin ob = \<lparr>or_file = path_join ?D p, or_docIndex = int i\<rparr>"
    "y_decode (pe_yaml ?P) t = (map Some ns, None)" "stream_docs (pe_yaml ?P) t = Inr ns" "i < length ns"
    "doc_object ?P (ob_origin ob, Some (ns ! i)) = Some ob" using found_place [OF cd ob] by metis
  have key: "node_key ?P (Some (ns ! i)) = Some (object_key ob)" using doc_object_key [of ?P "(ob_origin ob, Some (ns ! i))"] pl(6) by simp
  have p: "entry_path p" using files(3) pl(1) by force
  have dist: "distinct (map object_key (all_objects (oa_config A ?fs)))" using load_no_errs [OF load] by blast
  note old = keys_at [OF load files(6) pl(1,3)]
  note gone = key_removed [OF old dist pl(5) key]
  note del = delete_document_removes_one [OF snd(1-3) wf files(1-3) pl(1) run [unfolded pl(2)]]
  show ?thesis
  proof (cases "length ns = 1")
    case True
    let ?gs = "filter (\<lambda>f. fst f \<noteq> p) ?fs"
    from del pl(4) True have d': "sourceFiles d' = Inr ?gs" "d' = remove_file p d" by (auto simp: case_prod_unfold)
    obtain c' where l: "LoadDir ?P ?D ?gs = Some (c', [])" using fewer_files_load [OF load] by blast
    then have c': "oa_config A ?gs = c'" "loadDir ?L ?gs = []" using snd(4) by (auto simp: loads_by_LoadDir_def)
    have "d' ''native.yaml'' = None" "d' ''config.d'' \<noteq> None"
      using remove_file_targets [of p d, OF p files(4)] files(2) unfolding d'(2) by simp_all
    from clean_draft_of_files [OF snd(4) d'(1) this c'(2)] have "clean_draft A (protocol_info ?L ?gs) d'" .
    moreover have "map Some (take i ns @ drop (Suc i) ns) = []" using True pl(5) by simp
    then have "object_key ob \<notin> set (map object_key (all_objects c'))"
      using loaded_keys [OF l] by (intro gone) (simp only: other_keys_def List.map_filter_simps append_Nil2)
    ultimately show ?thesis by (intro exI [of _ "protocol_info ?L ?gs"]) (simp add: protocol_info_def c'(1))
  next
    case False
    with del pl(4) obtain c' where e: "stream_docs (pe_yaml ?P) c' = Inr (take i ns @ drop (Suc i) ns)"
      "sourceFiles d' = Inr (replaced_in p c' ?fs)" "loadDir ?L (replaced_in p c' ?fs) = []" "d' = put_file p c' d" by auto
    let ?gs = "replaced_in p c' ?fs"
    have "d' ''native.yaml'' = None" "d' ''config.d'' \<noteq> None"
      using put_file_targets [of p d c', OF p files(4)] files(2) unfolding e(4) by simp_all
    from clean_draft_of_files [OF snd(4) e(2) this e(3)] have cd': "clean_draft A (protocol_info ?L ?gs) d'" .
    have l: "LoadDir ?P ?D ?gs = Some (oa_config A ?gs, [])" by (rule loads_clean [OF snd(4) e(3)])
    have mem: "(p, c') \<in> set ?gs" by (rule replaced_in_mem [OF pl(1)])
    obtain ms where ms: "y_decode (pe_yaml ?P) c' = (map Some ms, None)" "stream_docs (pe_yaml ?P) c' = Inr ms"
      using loaded_file_docs [OF l mem] by blast
    with e(1) have "ms = take i ns @ drop (Suc i) ns" by simp
    moreover have "distinct (map fst ?gs)" using files(6) by (simp only: replaced_in_fst)
    ultimately have "mset (map object_key (all_objects (oa_config A ?gs))) =
        mset (other_keys ?P p ?fs @ List.map_filter (node_key ?P) (map Some (take i ns @ drop (Suc i) ns)))"
      using keys_at [OF l _ mem ms(1)] by (simp add: other_keys_def replaced_in_others)
    from gone [OF this] cd' show ?thesis by (intro exI [of _ "protocol_info ?L ?gs"]) (simp add: protocol_info_def)
  qed
qed


section \<open>Witnesses\<close>

text \<open>An API over texts that stand for one or two documents; a text may end in a newline.\<close>

definition upstream_node :: ynode where
  "upstream_node = YMapping [(YScalar ''apiVersion'', YScalar ''esgw/v1alpha1''), (YScalar ''kind'', YScalar ''Upstream''),
     (YScalar ''metadata'', YMapping [(YScalar ''name'', YScalar ''app'')]), (YScalar ''spec'', YScalar ''x'')]"

definition obj_docs :: "string \<Rightarrow> ynode list option" where
  "obj_docs t = (let u = takeWhile (\<lambda>c. c \<noteq> CHR 0x0A) t in
     if u = ''old'' then Some [demo_route ''old''] else if u = ''new'' then Some [demo_route ''new'']
     else if u = ''two'' then Some [demo_route ''new'', upstream_node] else None)"

definition obj_yaml :: "ynode yaml" where
  "obj_yaml = \<lparr>y_decode = (\<lambda>t. case obj_docs t of Some ns \<Rightarrow> (map Some ns, None) | None \<Rightarrow> ([], Some ''broken'')),
     y_encode = (\<lambda>ns. if ns = [demo_route ''old''] then Inr ''old'' else if ns = [demo_route ''new''] then Inr ''new'' else Inl ''other'')\<rparr>"

definition obj_env :: proto_env where
  "obj_env = route_env\<lparr>pe_yaml := obj_yaml\<rparr>"

definition obj_load :: "(string \<times> string) list \<Rightarrow> config_set \<times> load_error list" where
  "obj_load files =
     (if list_all (\<lambda>f. obj_docs (snd f) \<noteq> None) files
      then let s = load_docs obj_env (draft_docs obj_env ''/data'' files) \<lparr>ls_config = empty_config, ls_seen = Map.empty, ls_errs = []\<rparr>
           in (ls_config s, ls_errs s)
      else (empty_config, [load_fault \<lparr>or_file = [], or_docIndex = 0\<rparr> ''broken'']))"

definition obj_value :: "string \<Rightarrow> jsval option" where
  "obj_value t = (case obj_docs t of
       Some (n # ns) \<Rightarrow> (case yamlNodeToAny obj_env n of Inr v \<Rightarrow> Some v | Inl e \<Rightarrow> None) | _ \<Rightarrow> None)"

definition obj_api :: object_api where
  "obj_api = \<lparr>oa_cwd = ''/'', oa_dataDir = ''/data'', oa_proto = obj_env,
     oa_loaders = \<lparr>sha256 = (\<lambda>_. ''h''), loadDir = (\<lambda>fs. snd (obj_load fs)), loadNative = Inr\<rparr>, oa_config = (\<lambda>fs. fst (obj_load fs)),
     oa_yamlValue = obj_value, oa_json = obj_value, oa_yamlText = (\<lambda>_. Inr [])\<rparr>"

lemma obj_env_facts [simp]: "pe_yaml obj_env = obj_yaml" "pe_resume obj_env c i = YFail ''broken''"
  by (simp_all add: obj_env_def route_env_def)

lemma obj_decodes: "snd (y_decode obj_yaml t) = None \<longleftrightarrow> obj_docs t \<noteq> None"
  by (simp add: obj_yaml_def split: option.split)

lemma obj_load_LoadDir: "LoadDir obj_env ''/data'' files = (if list_all (\<lambda>f. obj_docs (snd f) \<noteq> None) files then Some (obj_load files) else None)"
proof (cases "list_all (\<lambda>f. obj_docs (snd f) \<noteq> None) files")
  case True
  then have "\<forall>f \<in> set files. snd (y_decode (pe_yaml obj_env) (snd f)) = None" by (simp only: obj_env_facts obj_decodes list_all_iff)
  from load_files_all [OF this] True show ?thesis by (simp add: LoadDir_def obj_load_def Let_def)
next
  case False
  then have "\<not> (\<forall>f \<in> set files. snd (y_decode (pe_yaml obj_env) (snd f)) = None)" by (simp only: obj_env_facts obj_decodes list_all_iff simp_thms)
  moreover have "\<forall>c i. pe_resume obj_env c i \<noteq> YEof" by simp
  ultimately show ?thesis using False LoadDir_returns_iff [of obj_env "''/data''" files] by metis
qed

lemma obj_api_sound: "api_sound obj_api"
proof -
  have "path_isAbs (oa_dataDir obj_api)" "path_clean (oa_dataDir obj_api) = oa_dataDir obj_api" by code_simp+
  moreover have "yaml_laws (pe_yaml (oa_proto obj_api))"
    by (auto simp: yaml_laws_def obj_api_def obj_yaml_def obj_docs_def Let_def)
  moreover have "loads_by_LoadDir obj_api"
    unfolding loads_by_LoadDir_def by (auto simp: obj_api_def obj_load_LoadDir) (simp_all add: obj_load_def)
  moreover have "obj_docs (c @ [CHR 0x0A]) = obj_docs c" for c
  proof -
    have "takeWhile (\<lambda>x. x \<noteq> CHR 0x0A) (c @ [CHR 0x0A]) = takeWhile (\<lambda>x. x \<noteq> CHR 0x0A) c"
      by (induction c) simp_all
    then show ?thesis by (simp only: obj_docs_def)
  qed
  then have "readings_agree obj_api"
    by (auto simp: readings_agree_def obj_api_def obj_value_def obj_yaml_def split: option.splits list.splits sum.splits)
  ultimately show ?thesis by (simp add: api_sound_def)
qed

definition obj_dir :: data_dir where
  "obj_dir = [''config.d'' \<mapsto> Entries [(''a.yaml'', ''old'')]]"

definition obj_faults :: object_faults where
  "obj_faults = \<lparr>of_edit = no_edit_faults, of_stage = None, of_commit = no_faults\<rparr>"



theorem put_creates_every_document_witness:
  "\<exists>e spec. getObject obj_api [] ''Upstream'' ''app''
     (snd (putObject obj_api obj_faults ''Route'' ''web'' [] ''application/json'' ''two'' Map.empty)) =
     (writeJSON 200 (object_json e spec), snd (putObject obj_api obj_faults ''Route'' ''web'' [] ''application/json'' ''two'' Map.empty))"
proof -
  let ?r = "putObject obj_api obj_faults ''Route'' ''web'' [] ''application/json'' ''two'' Map.empty" and ?v = "yamlNodeToAny obj_env upstream_node"
  let ?dr = "case fst (findObject obj_api ''Route'' ''web'' Map.empty) of Absent dr \<Rightarrow> dr"
  have ok: "rs_status (fst ?r) = 200" "\<not> str_includes [] ''application/yaml''" by code_simp+
  have new: "fst (findObject obj_api ''Route'' ''web'' Map.empty) = Absent ?dr" by code_simp
  have docs: "y_decode (pe_yaml (oa_proto obj_api)) ''two'' = (map Some [demo_route ''new'', upstream_node], None)" by code_simp
  obtain w e2 where doc: "yamlNodeToAny (oa_proto obj_api) ([demo_route ''new'', upstream_node] ! 1) = Inr w" "w \<noteq> JNull"
    "decode_envelope w = Some e2" "ev_kind e2 = ''Upstream''" "om_name (ev_metadata e2) = ''app''"
  proof -
    have "case yamlNodeToAny (oa_proto obj_api) ([demo_route ''new'', upstream_node] ! 1) of
        Inr w \<Rightarrow> w \<noteq> JNull \<and> (case decode_envelope w of Some e2 \<Rightarrow> ev_kind e2 = ''Upstream'' \<and> om_name (ev_metadata e2) = ''app'' | None \<Rightarrow> False)
      | Inl _ \<Rightarrow> False" by code_simp
    with that show ?thesis by (auto split: sum.splits option.splits)
  qed
  have "1 < length [demo_route ''new'', upstream_node]" by simp
  from put_creates_every_document [OF obj_api_sound prod.collapse [symmetric] ok(1) new docs this doc(1-3) ok(2)] doc(4,5)
  show ?thesis by auto
qed

end
