(* ===== verification/StateSeries.thy ===== *)
theory StateSeries
  imports GoJson ApiServer "HOL-Library.Char_ord" "HOL-Library.List_Lexorder" "HOL-Library.Multiset"
begin

text \<open>
  The metric series of the collector (\<open>internal/state/series.go\<close>): a bounded set of ring buffers, the
  samples read from Envoy's statistics (\<open>parseStats\<close> of \<open>internal/state/state.go\<close>), and the two
  statistics operations of the API (\<open>internal/api/state_handlers.go\<close>).

  A Go map has no order: the store lists its series in the order they were made, and a snapshot of it
  goes through a permutation, which is a parameter.  \<open>fmt.Sscan\<close>, which reads a number out of a text,
  and the format of times are parameters too.
\<close>

section \<open>Ring buffers\<close>

record series_key =
  sk_dim :: string
  sk_name :: string
  sk_metric :: string

record series =
  se_key :: series_key
  se_interval :: time
  se_base :: time
  se_values :: "int list"
  se_head :: nat
  se_filled :: nat

record series_store =
  ss_capacity :: nat
  ss_max :: nat
  ss_interval :: time
  ss_series :: "(series_key \<times> series) list"

definition NewSeriesStore :: "int \<Rightarrow> int \<Rightarrow> time \<Rightarrow> series_store" where
  "NewSeriesStore capacity most interval =
     \<lparr>ss_capacity = nat (if capacity \<le> 0 then 2160 else capacity), ss_max = nat (if most \<le> 0 then 5000 else most),
      ss_interval = (if interval \<le> 0 then 10 * second else interval), ss_series = []\<rparr>"

definition Len :: "series_store \<Rightarrow> nat" where
  "Len s = length (ss_series s)"

definition push :: "int \<Rightarrow> series \<Rightarrow> series" where
  "push v item =
     (let n = length (se_values item) in
      item\<lparr>se_values := (se_values item)[se_head item := v], se_head := Suc (se_head item) mod n,
           se_filled := (if se_filled item < n then Suc (se_filled item) else se_filled item)\<rparr>)"

definition new_series :: "series_store \<Rightarrow> series_key \<Rightarrow> time \<Rightarrow> series" where
  "new_series s key at = \<lparr>se_key = key, se_interval = ss_interval s, se_base = at,
     se_values = replicate (ss_capacity s) 0, se_head = 0, se_filled = 0\<rparr>"

definition Add :: "series_key \<Rightarrow> int \<Rightarrow> time \<Rightarrow> series_store \<Rightarrow> string option \<times> series_store" where
  "Add key v at s =
     (case map_of (ss_series s) key of
        None \<Rightarrow>
          if ss_max s \<le> length (ss_series s) then (Some ''series cardinality limit reached'', s)
          else (None, s\<lparr>ss_series := ss_series s @ [(key, push v (new_series s key at))]\<rparr>)
      | Some item \<Rightarrow>
          (None, s\<lparr>ss_series := map (\<lambda>(k, x). (k, if k = key then push v x else x)) (ss_series s)\<rparr>))"

definition SeriesSnapshot :: "(series list \<Rightarrow> series list) \<Rightarrow> series_store \<Rightarrow> series list" where
  "SeriesSnapshot order s = order (map snd (ss_series s))"

section \<open>Samples\<close>

text \<open>\<open>statIdentity\<close>: dimension, name and metric.\<close>

definition statIdentity :: "string \<Rightarrow> series_key" where
  "statIdentity name =
     (let parts = split_on (CHR ''.'') name;
          key = (\<lambda>dim. \<lparr>sk_dim = dim, sk_name = parts ! 1, sk_metric = join_with ''.'' (drop 2 parts)\<rparr>) in
      if 3 \<le> length parts \<and> hd parts = ''cluster'' then key ''upstream''
      else if 3 \<le> length parts \<and> hd parts = ''http'' then key ''listener''
      else if 3 \<le> length parts \<and> hd parts = ''listener'' then key ''listener''
      else \<lparr>sk_dim = ''global'', sk_name = [], sk_metric = name\<rparr>)"

text \<open>The value of a statistic: a number, or a text that starts with one.  A missing value does not
  decode, \<open>null\<close> is zero.\<close>

definition stat_value :: "(string \<Rightarrow> int option) \<Rightarrow> jsval option \<Rightarrow> int option" where
  "stat_value sscan v =
     (case v of None \<Rightarrow> None | Some JNull \<Rightarrow> Some 0
      | Some (JStr s) \<Rightarrow> sscan s
      | Some x \<Rightarrow> go_int64 x)"

definition stat_item :: "jsval \<Rightarrow> (string \<times> jsval option) option" where
  "stat_item = go_struct (\<lambda>ps. map_option (\<lambda>name. (name, map_of (rev (map (\<lambda>(k, v). (to_lower k, v)) ps)) ''value''))
     (go_field go_text [] ''name'' ps))"

definition quantile_item :: "jsval \<Rightarrow> (int \<times> int) option" where
  "quantile_item = go_struct (\<lambda>ps. case go_field (go_int (- (2 ^ 63)) (2 ^ 63)) 0 ''quantile'' ps of
       None \<Rightarrow> None | Some q \<Rightarrow> map_option (\<lambda>v. (q, v)) (go_field go_int64 0 ''value'' ps))"

definition histogram_item :: "jsval \<Rightarrow> (string \<times> (int \<times> int) list) option" where
  "histogram_item = go_struct (\<lambda>ps. case go_field go_text [] ''name'' ps of
       None \<Rightarrow> None
     | Some n \<Rightarrow> map_option (\<lambda>qs. (n, qs)) (go_field (go_slice (0, 0) quantile_item) [] ''supported_quantiles'' ps))"

definition stats_doc :: "jsval option \<Rightarrow> ((string \<times> jsval option) list \<times> (string \<times> (int \<times> int) list) list) option" where
  "stats_doc = go_unmarshal ([], []) (go_struct (\<lambda>ps.
     case go_field (go_slice ([], None) stat_item) [] ''stats'' ps of
       None \<Rightarrow> None
     | Some st \<Rightarrow> map_option (\<lambda>hs. (st, hs)) (go_field (go_slice ([], []) histogram_item) [] ''histograms'' ps)))"

definition quantile_key :: "string \<Rightarrow> int \<Rightarrow> series_key" where
  "quantile_key name q = (let k = statIdentity name in k\<lparr>sk_metric := sk_metric k @ ''.p'' @ string_of_int (q * 100)\<rparr>)"

definition parseStats :: "(string \<Rightarrow> int option) \<Rightarrow> jsval option \<Rightarrow> (series_key \<times> int) list" where
  "parseStats sscan body =
     (case stats_doc body of
        None \<Rightarrow> []
      | Some (st, hs) \<Rightarrow>
          List.map_filter (\<lambda>(name, v). map_option (Pair (statIdentity name)) (stat_value sscan v)) st @
          concat (map (\<lambda>(name, qs). map (\<lambda>(q, v). (quantile_key name q, v)) qs) hs))"

definition add_all :: "time \<Rightarrow> (series_key \<times> int) list \<Rightarrow> series_store \<Rightarrow> series_store" where
  "add_all now samples s = foldl (\<lambda>s (k, v). snd (Add k v now s)) s samples"

section \<open>Statistics operations\<close>

record series_query =
  qy_dim :: string
  qy_name :: string
  qy_metric :: string

definition Series :: "(series list \<Rightarrow> series list) \<Rightarrow> series_query \<Rightarrow> series_store \<Rightarrow> series list" where
  "Series order q s = filter (\<lambda>x. (qy_dim q = [] \<or> qy_dim q = sk_dim (se_key x)) \<and>
     (qy_name q = [] \<or> qy_name q = sk_name (se_key x)) \<and>
     (qy_metric q = [] \<or> qy_metric q = sk_metric (se_key x))) (SeriesSnapshot order s)"

text \<open>\<open>trimSeries\<close>: the samples in the order of time, and only the last ones of the window.\<close>

definition trimSeries :: "series \<Rightarrow> time \<Rightarrow> series" where
  "trimSeries item window =
     (let n = length (se_values item); filled = min (se_filled item) n in
      if filled = 0 then item\<lparr>se_values := []\<rparr>
      else
        let start = (if se_head item < filled then se_head item + n - filled else se_head item - filled);
            ordered = map (\<lambda>i. se_values item ! ((start + i) mod n)) [0..<filled];
            limit = nat (window div se_interval item);
            trimmed = (if 0 < se_interval item \<and> 0 < limit \<and> limit < length ordered
                       then drop (length ordered - limit) ordered else ordered)
        in item\<lparr>se_values := trimmed, se_head := 0, se_filled := length trimmed\<rparr>)"

definition series_text :: "series \<Rightarrow> string" where
  "series_text x = sk_dim (se_key x) @ CHR 0x00 # sk_name (se_key x) @ CHR 0x00 # sk_metric (se_key x)"

definition series_list :: "(series list \<Rightarrow> series list) \<Rightarrow> series_query \<Rightarrow> time \<Rightarrow> series_store \<Rightarrow> series list" where
  "series_list order q window s = sort_key series_text (map (\<lambda>x. trimSeries x window) (Series order q s))"

definition parseWindow :: "string \<Rightarrow> (time \<times> string) option" where
  "parseWindow raw =
     map_of [([], (15 * minute, ''15m0s'')), (''5m'', (5 * minute, ''5m0s'')), (''15m'', (15 * minute, ''15m0s'')),
       (''1h'', (60 * minute, ''1h0m0s'')), (''6h'', (360 * minute, ''6h0m0s''))] raw"

definition window_error :: http_response where
  "window_error = writeError 400 ''INVALID_ARGUMENT'' ''window must be 5m, 15m, 1h or 6h''"

definition series_json :: "(time \<Rightarrow> string) \<Rightarrow> series \<Rightarrow> jsval" where
  "series_json rfc x = JObj [(''key'', JObj [(''dim'', JStr (sk_dim (se_key x))), (''name'', JStr (sk_name (se_key x))),
       (''metric'', JStr (sk_metric (se_key x)))]),
     (''interval'', JNum (se_interval x)), (''base'', JStr (rfc (se_base x))),
     (''values'', if se_values x = [] then JNull else JArr (map JNum (se_values x)))]"

definition statsOverview :: "(series list \<Rightarrow> series list) \<Rightarrow> string \<Rightarrow> series_store \<Rightarrow> http_response" where
  "statsOverview order raw s =
     (case parseWindow raw of
        None \<Rightarrow> window_error
      | Some (window, label) \<Rightarrow>
          let items = series_list order \<lparr>qy_dim = [], qy_name = [], qy_metric = []\<rparr> window s;
              dims = map (\<lambda>x. sk_dim (se_key x)) items
          in writeJSON 200 (JObj [(''byDimension'', JObj (map (\<lambda>d. (d, JNum (int (length (filter ((=) d) dims))))) (sort (remdups dims)))),
               (''series'', JNum (int (length items))), (''window'', JStr label)]))"

definition statsSeries ::
    "(time \<Rightarrow> string) \<Rightarrow> (series list \<Rightarrow> series list) \<Rightarrow> string \<Rightarrow> string \<Rightarrow> string \<Rightarrow> string \<Rightarrow> series_store \<Rightarrow> http_response" where
  "statsSeries rfc order raw dimension name metric s =
     (case parseWindow raw of
        None \<Rightarrow> window_error
      | Some (window, label) \<Rightarrow>
          if dimension \<noteq> [] \<and> dimension \<noteq> ''route'' \<and> dimension \<noteq> ''cluster''
          then writeError 400 ''INVALID_ARGUMENT'' ''dimension must be route or cluster''
          else
            let items = series_list order \<lparr>qy_dim = dimension, qy_name = name, qy_metric = metric\<rparr> window s in
            writeJSON 200 (JObj [(''items'', JArr (map (series_json rfc) items)), (''total'', JNum (int (length items))), (''window'', JStr label)]))"

section \<open>The last samples\<close>

definition lastn :: "nat \<Rightarrow> 'a list \<Rightarrow> 'a list" where
  "lastn k xs = drop (length xs - k) xs"

lemma length_lastn [simp]: "length (lastn k xs) = min k (length xs)"
  by (auto simp: lastn_def)

lemma lastn_short: "length xs \<le> k \<Longrightarrow> lastn k xs = xs"
  by (simp add: lastn_def)

lemma lastn_append: "lastn k (lastn k xs @ ys) = lastn k (xs @ ys)"
proof (cases "length xs \<le> k")
  case False
  then have "length (lastn k xs) = k" by simp
  moreover have "drop (length ys) (lastn k xs) = drop (length xs + length ys - k) xs"
    using False by (simp add: lastn_def add.commute)
  ultimately show ?thesis
    using False by (auto simp: lastn_def not_le)
qed (simp add: lastn_short)

text \<open>
  What a bounded history promises: adding an element appends it and drops what exceeds the capacity.
\<close>

locale bounded_history =
  fixes add :: "'v \<Rightarrow> 's \<Rightarrow> 's" and recent :: "'s \<Rightarrow> 'v list" and capacity :: "'s \<Rightarrow> nat" and ok :: "'s \<Rightarrow> bool"
  assumes ok_add: "ok s \<Longrightarrow> ok (add v s)"
    and capacity_add: "ok s \<Longrightarrow> capacity (add v s) = capacity s"
    and recent_add: "ok s \<Longrightarrow> recent (add v s) = lastn (capacity s) (recent s @ [v])"
    and recent_bound: "ok s \<Longrightarrow> length (recent s) \<le> capacity s"
begin

lemma ok_adds: "ok s \<Longrightarrow> ok (fold add vs s)"
  by (induction vs arbitrary: s) (auto simp: ok_add)

lemma capacity_adds: "ok s \<Longrightarrow> capacity (fold add vs s) = capacity s"
  by (induction vs arbitrary: s) (auto simp: ok_add capacity_add)

lemma recent_adds: "ok s \<Longrightarrow> recent (fold add vs s) = lastn (capacity s) (recent s @ vs)"
proof (induction vs arbitrary: s)
  case Nil
  then show ?case using recent_bound by (simp add: lastn_short)
next
  case (Cons v vs)
  then show ?case
    by (simp add: ok_add capacity_add recent_add lastn_append)
qed

end

definition ring_ok :: "series \<Rightarrow> bool" where
  "ring_ok x \<longleftrightarrow> se_head x < length (se_values x) \<and> se_filled x \<le> length (se_values x)"

definition ring_start :: "series \<Rightarrow> nat" where
  "ring_start x = (se_head x + length (se_values x) - se_filled x) mod length (se_values x)"

definition ring_values :: "series \<Rightarrow> int list" where
  "ring_values x = map (\<lambda>i. se_values x ! ((ring_start x + i) mod length (se_values x))) [0..<se_filled x]"

lemma mod_shift: "(a + n) mod n = (b::nat) \<Longrightarrow> (a + c) mod n = b \<Longrightarrow> c < n \<Longrightarrow> 0 < c \<Longrightarrow> False"
proof -
  assume "(a + n) mod n = b" "(a + c) mod n = b" "c < n" "0 < c"
  then have "(a + n) mod n = (a + c) mod n" by simp
  then have "n dvd (a + n) - (a + c)" using mod_eq_dvd_iff_nat [of "a + c" "a + n" n] \<open>c < n\<close> by simp
  then have "n dvd n - c" by simp
  moreover have "0 < n - c" "n - c < n" using \<open>c < n\<close> \<open>0 < c\<close> by simp_all
  ultimately show False using nat_dvd_not_less by blast
qed

lemma ring_start_plus:
  assumes "ring_ok x"
  shows "(ring_start x + i) mod length (se_values x) = (se_head x + (length (se_values x) - se_filled x + i)) mod length (se_values x)"
proof -
  let ?n = "length (se_values x)"
  have "se_head x + ?n - se_filled x + i = se_head x + (?n - se_filled x + i)" using assms by (simp add: ring_ok_def)
  then show ?thesis by (simp only: ring_start_def mod_add_left_eq)
qed

lemma length_ring_values [simp]: "length (ring_values x) = se_filled x"
  by (simp add: ring_values_def)

lemma ring_push_room:
  assumes ok: "ring_ok x" and room: "se_filled x < length (se_values x)"
  shows "ring_values (push v x) = ring_values x @ [v]"
proof -
  let ?n = "length (se_values x)" and ?h = "se_head x" and ?f = "se_filled x"
  have h: "?h < ?n" "0 < ?n" using ok by (auto simp: ring_ok_def)
  have P: "se_values (push v x) = (se_values x)[?h := v]" "se_head (push v x) = Suc ?h mod ?n" "se_filled (push v x) = Suc ?f"
    using room by (simp_all add: push_def Let_def)
  have "Suc ?h mod ?n + ?n - Suc ?f = Suc ?h mod ?n + (?n - Suc ?f)" "Suc ?h + (?n - Suc ?f) = ?h + ?n - ?f"
    using room by simp_all
  then have st: "ring_start (push v x) = ring_start x"
    by (simp only: ring_start_def P length_list_update mod_add_left_eq)
  have last: "(ring_start x + ?f) mod ?n = ?h"
    using ring_start_plus [OF ok, of ?f] room h by simp
  have "?h \<noteq> (ring_start x + i) mod ?n" if "i < ?f" for i
  proof
    assume "?h = (ring_start x + i) mod ?n"
    then have b: "(?h + (?n - ?f + i)) mod ?n = ?h" using ring_start_plus [OF ok, of i] by simp
    have a: "(?h + ?n) mod ?n = ?h" using h by simp
    have c: "?n - ?f + i < ?n" "0 < ?n - ?f + i" using that room by linarith+
    show False by (rule mod_shift [OF a b c])
  qed
  then show ?thesis
    using last h by (simp add: ring_values_def P st)
qed

lemma ring_push_full:
  assumes ok: "ring_ok x" and full: "se_filled x = length (se_values x)"
  shows "ring_values (push v x) = drop 1 (ring_values x) @ [v]"
proof -
  let ?n = "length (se_values x)" and ?h = "se_head x"
  have h: "?h < ?n" "0 < ?n" using ok by (auto simp: ring_ok_def)
  have P: "se_values (push v x) = (se_values x)[?h := v]" "se_head (push v x) = Suc ?h mod ?n" "se_filled (push v x) = ?n"
    using full by (simp_all add: push_def Let_def)
  have st: "ring_start (push v x) = Suc ?h mod ?n" "ring_start x = ?h"
    using full h by (simp_all add: ring_start_def P)
  have idx: "(Suc ?h mod ?n + i) mod ?n = (?h + Suc i) mod ?n" for i by (simp add: mod_add_left_eq)
  show ?thesis
  proof (rule nth_equalityI)
    show "length (ring_values (push v x)) = length (drop 1 (ring_values x) @ [v])"
      using h full by (simp add: ring_values_def P)
    fix i assume "i < length (ring_values (push v x))"
    then have i: "i < ?n" by (simp add: ring_values_def P)
    have L: "ring_values (push v x) ! i = (se_values x)[?h := v] ! ((?h + Suc i) mod ?n)"
      using i by (simp add: ring_values_def P st idx)
    show "ring_values (push v x) ! i = (drop 1 (ring_values x) @ [v]) ! i"
    proof (cases "Suc i < ?n")
      case True
      have "(?h + Suc i) mod ?n \<noteq> ?h" using mod_shift [of ?h ?n ?h "Suc i"] True h by auto
      then have "ring_values (push v x) ! i = se_values x ! ((?h + Suc i) mod ?n)" using L by simp
      moreover have "(drop 1 (ring_values x) @ [v]) ! i = se_values x ! ((?h + Suc i) mod ?n)"
      proof -
        have "i < length (drop 1 (ring_values x))" using True full by simp
        then show ?thesis using True full by (simp add: ring_values_def st nth_append)
      qed
      ultimately show ?thesis by simp
    next
      case False
      then have "Suc i = ?n" using i by simp
      then have "ring_values (push v x) ! i = v" using L h by simp
      moreover have "(drop 1 (ring_values x) @ [v]) ! i = v"
      proof -
        have "length (drop 1 (ring_values x)) = i" using \<open>Suc i = ?n\<close> full by simp
        then show ?thesis by (metis nth_append_length)
      qed
      ultimately show ?thesis by simp
    qed
  qed
qed

lemma ring_push: "ring_ok x \<Longrightarrow> ring_values (push v x) = lastn (length (se_values x)) (ring_values x @ [v])"
proof (cases "se_filled x < length (se_values x)")
  case True
  assume "ring_ok x"
  from ring_push_room [OF this True] show ?thesis using True by (simp add: lastn_short)
next
  case False
  assume "ring_ok x"
  moreover from this have "se_filled x = length (se_values x)" using False by (simp add: ring_ok_def)
  ultimately show ?thesis
    using ring_push_full [of x v] by (simp add: lastn_def ring_ok_def)
qed

interpretation ring: bounded_history push ring_values "\<lambda>x. length (se_values x)" ring_ok
proof unfold_locales
  fix x v assume ok: "ring_ok x"
  then have "0 < length (se_values x)" by (auto simp: ring_ok_def)
  then show "ring_ok (push v x)" using ok by (auto simp: ring_ok_def push_def Let_def)
  show "length (se_values (push v x)) = length (se_values x)" by (simp add: push_def Let_def)
  show "ring_values (push v x) = lastn (length (se_values x)) (ring_values x @ [v])" using ok by (rule ring_push)
  show "length (ring_values x) \<le> length (se_values x)" using ok by (simp add: ring_values_def ring_ok_def)
qed

text \<open>What the API shows of a series: the last samples of its buffer that fall into the window.\<close>

lemma trimSeries_values:
  assumes "ring_ok x" and "0 < se_interval x" and "0 < window div se_interval x"
  shows "se_values (trimSeries x window) = lastn (nat (window div se_interval x)) (ring_values x)"
proof -
  let ?n = "length (se_values x)" and ?f = "se_filled x"
  have ok: "se_head x < ?n" "?f \<le> ?n" using assms(1) by (simp_all add: ring_ok_def)
  then have st: "(if se_head x < ?f then se_head x + ?n - ?f else se_head x - ?f) = ring_start x"
  proof (cases "se_head x < ?f")
    case True
    then have "se_head x + ?n - ?f < ?n" using ok(2) by linarith
    with True show ?thesis by (simp add: ring_start_def)
  next
    case False
    then have "se_head x + ?n - ?f = (se_head x - ?f) + ?n" by simp
    then have "ring_start x = (se_head x - ?f) mod ?n" unfolding ring_start_def by (metis mod_add_self2)
    with False ok(1) show ?thesis by simp
  qed
  have "min ?f ?n = ?f" using ok(2) by simp
  show ?thesis
  proof (cases "?f = 0")
    case False
    have lim: "0 < nat (window div se_interval x)" using assms(3) by simp
    have "se_values (trimSeries x window) =
      (if nat (window div se_interval x) < ?f then drop (?f - nat (window div se_interval x)) (ring_values x) else ring_values x)"
      unfolding trimSeries_def Let_def \<open>min ?f ?n = ?f\<close> st using False assms(2) lim by (simp add: ring_values_def)
    then show ?thesis by (simp add: lastn_def)
  qed (simp add: trimSeries_def Let_def lastn_def ring_values_def)
qed

section \<open>The store refines the history of samples\<close>

type_synonym sample = "series_key \<times> int \<times> time"

definition run_adds :: "sample list \<Rightarrow> series_store \<Rightarrow> series_store" where
  "run_adds hist s = foldl (\<lambda>s (k, v, t). snd (Add k v t s)) s hist"

definition samples_of :: "series_key \<Rightarrow> sample list \<Rightarrow> sample list" where
  "samples_of k hist = filter (\<lambda>p. fst p = k) hist"

definition firsts :: "'a list \<Rightarrow> 'a list" where
  "firsts xs = rev (remdups (rev xs))"

lemma firsts_simps [simp]: "firsts [] = []" "firsts (xs @ [x]) = (if x \<in> set xs then firsts xs else firsts xs @ [x])"
  "set (firsts xs) = set xs" "distinct (firsts xs)"
  by (simp_all add: firsts_def)

text \<open>The series of a key is what pushing all its samples on a new one gives.\<close>

definition series_of :: "series_store \<Rightarrow> series_key \<Rightarrow> sample list \<Rightarrow> series" where
  "series_of s k hs = fold push (map (\<lambda>p. fst (snd p)) hs) (new_series s k (snd (snd (hd hs))))"

definition tracks :: "series_store \<Rightarrow> sample list \<Rightarrow> series_store \<Rightarrow> bool" where
  "tracks s0 hist s \<longleftrightarrow> s = s0\<lparr>ss_series := ss_series s\<rparr> \<and> map fst (ss_series s) = take (ss_max s0) (firsts (map fst hist)) \<and>
     (\<forall>(k, x) \<in> set (ss_series s). x = series_of s0 k (samples_of k hist))"

lemma tracksI:
  assumes "s = s0\<lparr>ss_series := ss_series s\<rparr>" and "map fst (ss_series s) = take (ss_max s0) (firsts (map fst hist))"
    and "\<And>k x. (k, x) \<in> set (ss_series s) \<Longrightarrow> x = series_of s0 k (samples_of k hist)"
  shows "tracks s0 hist s"
  using assms(1,2) assms(3) unfolding tracks_def by blast

lemma series_of_snoc: "hs \<noteq> [] \<Longrightarrow> series_of s k (hs @ [(k, v, t)]) = push v (series_of s k hs)"
  by (simp add: series_of_def)

lemma new_series_cong: "new_series (s\<lparr>ss_series := xs\<rparr>) = new_series s"
  by (simp add: new_series_def fun_eq_iff)

lemma tracks_Add:
  assumes tr: "tracks s0 hist s"
  shows "tracks s0 (hist @ [(k, v, t)]) (snd (Add k v t s))"
proof -
  have s: "s = s0\<lparr>ss_series := ss_series s\<rparr>" and keys: "map fst (ss_series s) = take (ss_max s0) (firsts (map fst hist))"
    and xs: "\<And>k x. (k, x) \<in> set (ss_series s) \<Longrightarrow> x = series_of s0 k (samples_of k hist)"
    using tr by (auto simp: tracks_def)
  have params: "ss_max s = ss_max s0" "new_series s = new_series s0"
    by (subst s, simp)+ (subst s, simp add: new_series_cong)
  have known: "k' \<in> set (map fst hist)" if "(k', x) \<in> set (ss_series s)" for k' x
    using that keys by (metis firsts_simps(3) fst_conv image_eqI in_set_takeD set_map)
  have other: "samples_of k' (hist @ [(k, v, t)]) = samples_of k' hist" if "k' \<noteq> k" for k'
    using that by (simp add: samples_of_def)
  have same: "samples_of k (hist @ [(k, v, t)]) = samples_of k hist @ [(k, v, t)]" by (simp add: samples_of_def)
  have keys': "firsts (map fst (hist @ [(k, v, t)])) =
      (if k \<in> set (map fst hist) then firsts (map fst hist) else firsts (map fst hist) @ [k])" by simp
  show ?thesis
  proof (cases "map_of (ss_series s) k")
    case (Some item)
    have mem: "(k, item) \<in> set (ss_series s)" using Some by (rule map_of_SomeD)
    have in_hist: "k \<in> set (map fst hist)" by (rule known [OF mem])
    then have ne: "samples_of k hist \<noteq> []" by (auto simp: samples_of_def filter_empty_conv)
    let ?s' = "s\<lparr>ss_series := map (\<lambda>(k', x). (k', if k' = k then push v x else x)) (ss_series s)\<rparr>"
    have R: "snd (Add k v t s) = ?s'" using Some by (simp add: Add_def)
    have "map fst (ss_series ?s') = map fst (ss_series s)" by (simp add: case_prod_unfold comp_def)
    then have "map fst (ss_series ?s') = take (ss_max s0) (firsts (map fst (hist @ [(k, v, t)])))"
      using keys keys' in_hist by simp
    moreover have "x = series_of s0 k' (samples_of k' (hist @ [(k, v, t)]))" if m: "(k', x) \<in> set (ss_series ?s')" for k' x
    proof -
      obtain y where y: "(k', y) \<in> set (ss_series s)" "x = (if k' = k then push v y else y)" using m by auto
      then show ?thesis using xs [OF y(1)] other same series_of_snoc [OF ne] by auto
    qed
    moreover have "?s' = s0\<lparr>ss_series := ss_series ?s'\<rparr>" by (subst (1) s) simp
    ultimately show ?thesis unfolding R by (intro tracksI)
  next
    case None
    have fresh: "k \<notin> set (map fst (ss_series s))" using None by (simp add: map_of_eq_None_iff)
    show ?thesis
    proof (cases "ss_max s \<le> length (ss_series s)")
      case True
      have R: "snd (Add k v t s) = s" using None True by (simp add: Add_def)
      have "length (ss_series s) \<le> length (firsts (map fst hist))"
        using arg_cong [OF keys, of length] by simp
      then have "take (ss_max s0) (firsts (map fst (hist @ [(k, v, t)]))) = take (ss_max s0) (firsts (map fst hist))"
        using True params(1) by (simp add: keys')
      moreover have "x = series_of s0 k' (samples_of k' (hist @ [(k, v, t)]))" if m: "(k', x) \<in> set (ss_series s)" for k' x
      proof -
        have "k' \<noteq> k" using m fresh by force
        with xs [OF m] other show ?thesis by simp
      qed
      ultimately show ?thesis unfolding R using keys s by (intro tracksI) simp_all
    next
      case False
      let ?s' = "s\<lparr>ss_series := ss_series s @ [(k, push v (new_series s k t))]\<rparr>"
      have R: "snd (Add k v t s) = ?s'" using None False by (simp add: Add_def)
      have "length (ss_series s) < ss_max s0" using False params(1) by simp
      moreover have "length (ss_series s) = min (ss_max s0) (length (firsts (map fst hist)))"
        using arg_cong [OF keys, of length] by (simp add: min.commute)
      ultimately have len: "length (firsts (map fst hist)) < ss_max s0" by simp
      then have all: "map fst (ss_series s) = firsts (map fst hist)" using keys by simp
      then have new: "k \<notin> set (map fst hist)" using fresh by (metis firsts_simps(3))
      then have "samples_of k hist = []" by (auto simp: samples_of_def filter_empty_conv)
      then have "push v (new_series s k t) = series_of s0 k (samples_of k (hist @ [(k, v, t)]))"
        by (simp add: same series_of_def params(2))
      moreover have "x = series_of s0 k' (samples_of k' (hist @ [(k, v, t)]))" if m: "(k', x) \<in> set (ss_series s)" for k' x
      proof -
        have "k' \<noteq> k" using m fresh by force
        with xs [OF m] other show ?thesis by simp
      qed
      ultimately have "x = series_of s0 k' (samples_of k' (hist @ [(k, v, t)]))" if "(k', x) \<in> set (ss_series ?s')" for k' x
        using that by auto
      moreover have "map fst (ss_series ?s') = take (ss_max s0) (firsts (map fst (hist @ [(k, v, t)])))"
        using all len new by (simp add: keys')
      moreover have "?s' = s0\<lparr>ss_series := ss_series ?s'\<rparr>" by (subst (1) s) simp
      ultimately show ?thesis unfolding R by (intro tracksI)
    qed
  qed
qed

lemma tracks_run_adds: "ss_series s0 = [] \<Longrightarrow> tracks s0 hist (run_adds hist s0)"
proof (induction hist rule: rev_induct)
  case Nil
  then show ?case by (simp add: tracks_def run_adds_def)
next
  case (snoc p hist)
  obtain k v t where p: "p = (k, v, t)" by (cases p) auto
  have "tracks s0 hist (run_adds hist s0)" using snoc by simp
  from tracks_Add [OF this] show ?case by (simp add: run_adds_def p)
qed

lemma new_store_params:
  "ss_series (NewSeriesStore c m i) = []" "0 < ss_capacity (NewSeriesStore c m i)" "0 < ss_interval (NewSeriesStore c m i)"
  by (simp_all add: NewSeriesStore_def second_def)

lemma series_of_ring:
  assumes "0 < ss_capacity s"
  shows "ring_ok (series_of s k hs)" and "ring_values (series_of s k hs) = lastn (ss_capacity s) (map (\<lambda>p. fst (snd p)) hs)"
    and "se_interval (series_of s k hs) = ss_interval s" and "se_base (series_of s k hs) = snd (snd (hd hs))"
    and "se_key (series_of s k hs) = k"
proof -
  let ?x = "new_series s k (snd (snd (hd hs)))"
  have ok: "ring_ok ?x" and nil: "ring_values ?x = []" and n: "length (se_values ?x) = ss_capacity s"
    using assms by (simp_all add: ring_ok_def new_series_def ring_values_def)
  show "ring_ok (series_of s k hs)" unfolding series_of_def by (rule ring.ok_adds [OF ok])
  show "ring_values (series_of s k hs) = lastn (ss_capacity s) (map (\<lambda>p. fst (snd p)) hs)"
    unfolding series_of_def using ring.recent_adds [OF ok] by (simp add: nil n)
  have "se_interval (fold push vs x) = se_interval x \<and> se_base (fold push vs x) = se_base x \<and> se_key (fold push vs x) = se_key x" for vs x
    by (induction vs arbitrary: x) (simp_all add: push_def Let_def)
  then show "se_interval (series_of s k hs) = ss_interval s" "se_base (series_of s k hs) = snd (snd (hd hs))"
    "se_key (series_of s k hs) = k" by (simp_all add: series_of_def new_series_def)
qed

text \<open>
  C16: the metric store is a bounded history.  After any sequence of samples, the store tracks the keys
  that came first, as many as its limit allows, each once; and what the API shows of a tracked key for
  a window are exactly the last samples of that key, as many as the buffer and the window hold, in
  the order they came.  The base time stays the one of the first sample, also when that sample has
  long left the buffer.
\<close>

theorem series_store_refines_history:
  assumes S: "S = run_adds hist (NewSeriesStore capacity most interval)" and w: "0 < window div ss_interval S"
  shows "map fst (ss_series S) = take (ss_max S) (firsts (map fst hist)) \<and>
    (\<forall>(k, x) \<in> set (ss_series S). let shown = trimSeries x window; sent = samples_of k hist in
       se_values shown = lastn (nat (window div ss_interval S)) (lastn (ss_capacity S) (map (\<lambda>p. fst (snd p)) sent)) \<and>
       se_key shown = k \<and> se_base shown = snd (snd (hd sent)))"
proof -
  let ?s0 = "NewSeriesStore capacity most interval"
  have tr: "tracks ?s0 hist S" unfolding S by (rule tracks_run_adds) (rule new_store_params)
  then have keys: "map fst (ss_series S) = take (ss_max ?s0) (firsts (map fst hist))"
    and xs: "\<And>k x. (k, x) \<in> set (ss_series S) \<Longrightarrow> x = series_of ?s0 k (samples_of k hist)"
    and s: "S = ?s0\<lparr>ss_series := ss_series S\<rparr>" by (auto simp: tracks_def)
  have params: "ss_max S = ss_max ?s0" "ss_capacity S = ss_capacity ?s0" "ss_interval S = ss_interval ?s0"
    by (subst s, simp)+
  have trim: "se_key (trimSeries x window) = se_key x" "se_base (trimSeries x window) = se_base x" for x
    by (simp_all add: trimSeries_def Let_def)
  have "se_values (trimSeries x window) = lastn (nat (window div ss_interval S)) (lastn (ss_capacity S) (map (\<lambda>p. fst (snd p)) (samples_of k hist)))
      \<and> se_key (trimSeries x window) = k \<and> se_base (trimSeries x window) = snd (snd (hd (samples_of k hist)))"
    if "(k, x) \<in> set (ss_series S)" for k x
  proof -
    note R = series_of_ring [OF new_store_params(2) [of capacity most interval], of k "samples_of k hist"]
    have "se_values (trimSeries x window) = lastn (nat (window div se_interval x)) (ring_values x)"
      using R w params(3) new_store_params(3) unfolding xs [OF that] by (intro trimSeries_values) simp_all
    then show ?thesis using R params trim unfolding xs [OF that] by simp
  qed
  then show ?thesis using keys params(1) by (auto simp: Let_def)
qed

definition demo_key :: series_key where
  "demo_key = \<lparr>sk_dim = ''upstream'', sk_name = ''us/a'', sk_metric = ''rq''\<rparr>"

theorem series_store_refines_history_witness:
  "let S = run_adds [(demo_key, 1, 10), (demo_key, 2, 20), (demo_key, 3, 30)] (NewSeriesStore 2 1 10) in
   \<exists>x. ss_series S = [(demo_key, x)] \<and> se_values (trimSeries x 100) = [2, 3] \<and> se_base (trimSeries x 100) = 10"
proof -
  let ?h = "[(demo_key, 1, 10), (demo_key, 2, 20), (demo_key, 3, 30)] :: sample list"
  let ?S = "run_adds ?h (NewSeriesStore 2 1 10)"
  have p: "ss_interval ?S = 10" "ss_max ?S = 1" "ss_capacity ?S = 2" by code_simp+
  have T: "map fst (ss_series ?S) = take (ss_max ?S) (firsts (map fst ?h)) \<and>
    (\<forall>(k, x) \<in> set (ss_series ?S). let shown = trimSeries x 100; sent = samples_of k ?h in
       se_values shown = lastn (nat (100 div ss_interval ?S)) (lastn (ss_capacity ?S) (map (\<lambda>p. fst (snd p)) sent)) \<and>
       se_key shown = k \<and> se_base shown = snd (snd (hd sent)))"
    by (rule series_store_refines_history [OF refl]) (simp add: p)
  then have "map fst (ss_series ?S) = [demo_key]" by (simp add: p firsts_def)
  then obtain x where x: "ss_series ?S = [(demo_key, x)]" by (cases "ss_series ?S") auto
  with T show ?thesis by (simp add: Let_def p samples_of_def lastn_def)
qed

section \<open>Dimensions\<close>

lemma statIdentity_dim: "sk_dim (statIdentity n) \<in> {''upstream'', ''listener'', ''global''}"
  by (simp add: statIdentity_def Let_def)

lemma parseStats_dim: "(k, v) \<in> set (parseStats sscan body) \<Longrightarrow> sk_dim k \<in> {''upstream'', ''listener'', ''global''}"
proof -
  assume "(k, v) \<in> set (parseStats sscan body)"
  then obtain n where "sk_dim k = sk_dim (statIdentity n)"
    by (auto simp: parseStats_def map_filter_def quantile_key_def Let_def split: option.splits prod.splits)
  then show ?thesis by (simp only: statIdentity_dim)
qed

text \<open>The states of the store the collector can reach: any bodies of the statistics, at any times.\<close>

inductive collected :: "(string \<Rightarrow> int option) \<Rightarrow> series_store \<Rightarrow> bool" for sscan where
  new: "collected sscan (NewSeriesStore 2160 5000 (10 * second))"
| poll: "collected sscan s \<Longrightarrow> collected sscan (add_all now (parseStats sscan body) s)"

definition known_dims :: "series_store \<Rightarrow> bool" where
  "known_dims s \<longleftrightarrow> (\<forall>(k, x) \<in> set (ss_series s). se_key x = k \<and> sk_dim k \<in> {''upstream'', ''listener'', ''global''})"

lemma known_dims_Add:
  assumes "known_dims s" and "sk_dim k \<in> {''upstream'', ''listener'', ''global''}"
  shows "known_dims (snd (Add k v t s))"
proof -
  have key: "se_key (push v x) = se_key x" for x by (simp add: push_def Let_def)
  show ?thesis
    using assms by (auto simp: Add_def known_dims_def key new_series_def split: option.splits)
qed

lemma known_dims_add_all:
  assumes "known_dims s" and "\<forall>(k, v) \<in> set samples. sk_dim k \<in> {''upstream'', ''listener'', ''global''}"
  shows "known_dims (add_all now samples s)"
  using assms
proof (induction samples arbitrary: s)
  case (Cons p samples)
  obtain k v where p: "p = (k, v)" by (cases p) auto
  have "known_dims (snd (Add k v now s))" using Cons.prems p by (intro known_dims_Add) auto
  then have "known_dims (add_all now samples (snd (Add k v now s)))" using Cons.prems(2) by (intro Cons.IH) auto
  then show ?case by (simp add: add_all_def p)
qed (simp add: add_all_def)

lemma collected_dims: "collected sscan s \<Longrightarrow> known_dims s"
proof (induction rule: collected.induct)
  case new
  then show ?case by (simp add: known_dims_def NewSeriesStore_def)
next
  case (poll s now body)
  then show ?case using parseStats_dim by (intro known_dims_add_all) auto
qed

text \<open>
  No dimension can be selected.  Whatever statistics the collector has read, asking for the series
  of the dimension \<open>cluster\<close> or \<open>route\<close>, the only two the operation accepts, gives an empty list:
  the collector files its series under \<open>upstream\<close>, \<open>listener\<close> and \<open>global\<close>.
\<close>

theorem series_dimension_never_matches:
  assumes "collected sscan s" and "\<And>xs. set (order xs) = set xs" and "parseWindow raw = Some (window, label)"
    and "dimension \<in> {''cluster'', ''route''}"
  shows "statsSeries rfc order raw dimension name metric s =
    writeJSON 200 (JObj [(''items'', JArr []), (''total'', JNum 0), (''window'', JStr label)])"
proof -
  have "sk_dim (se_key x) \<noteq> dimension" if "x \<in> set (SeriesSnapshot order s)" for x
  proof -
    have "x \<in> snd ` set (ss_series s)" using that assms(2) by (simp add: SeriesSnapshot_def)
    then obtain k where "(k, x) \<in> set (ss_series s)" by auto
    then have "sk_dim (se_key x) \<in> {''upstream'', ''listener'', ''global''}"
      using collected_dims [OF assms(1)] by (auto simp: known_dims_def)
    then show ?thesis using assms(4) by auto
  qed
  moreover have "dimension \<noteq> []" using assms(4) by auto
  ultimately have "Series order \<lparr>qy_dim = dimension, qy_name = name, qy_metric = metric\<rparr> s = []"
    by (auto simp: Series_def filter_empty_conv)
  then have "series_list order \<lparr>qy_dim = dimension, qy_name = name, qy_metric = metric\<rparr> window s = []"
    by (simp add: series_list_def)
  then show ?thesis using assms(3,4) by (auto simp: statsSeries_def Let_def)
qed

definition demo_stats :: jsval where
  "demo_stats = JObj [(''stats'', JArr [JObj [(''name'', JStr ''cluster.us/a.rq''), (''value'', JNum 7)]])]"

theorem series_dimension_never_matches_witness:
  "let s = add_all 5 (parseStats (\<lambda>_. None) (Some demo_stats)) (NewSeriesStore 2160 5000 (10 * second)) in
   Len s = 1 \<and> statsSeries (\<lambda>_. []) (\<lambda>xs. xs) ''5m'' ''cluster'' [] [] s =
     writeJSON 200 (JObj [(''items'', JArr []), (''total'', JNum 0), (''window'', JStr ''5m0s'')])"
proof -
  let ?s = "add_all 5 (parseStats (\<lambda>_. None) (Some demo_stats)) (NewSeriesStore 2160 5000 (10 * second))"
  have c: "collected (\<lambda>_. None) ?s" by (rule collected.poll [OF collected.new])
  have w: "parseWindow ''5m'' = Some (5 * minute, ''5m0s'')" by (simp add: parseWindow_def)
  have "parseStats (\<lambda>_. None) (Some demo_stats) = [(\<lparr>sk_dim = ''upstream'', sk_name = ''us/a'', sk_metric = ''rq''\<rparr>, 7)]"
    by code_simp
  then have "Len ?s = 1" by (simp add: Len_def add_all_def Add_def NewSeriesStore_def)
  moreover have "statsSeries (\<lambda>_. []) (\<lambda>xs. xs) ''5m'' ''cluster'' [] [] ?s =
      writeJSON 200 (JObj [(''items'', JArr []), (''total'', JNum 0), (''window'', JStr ''5m0s'')])"
    by (rule series_dimension_never_matches [OF c _ w]) simp_all
  ultimately show ?thesis by (simp add: Let_def)
qed

end
