(* ===== verification/Backoff.thy ===== *)
theory Backoff
  imports Limiter
begin

text \<open>
  Waiting before trying again: the restarts of a supervised Envoy (\<open>internal/proc/backoff.go\<close>) and
  the requests of the state collector to one admin path (\<open>internal/state/state.go\<close>).  Durations are
  nanoseconds; the theorems show that no intermediate value exceeds the configured maximum, so
  that the arithmetic of the code does not leave the range of a \<open>time.Duration\<close>.
\<close>

section \<open>Restarts\<close>

record backoff =
  bo_initial :: time
  bo_max :: time
  bo_resetAfter :: time
  bo_giveUp :: int
  bo_failures :: "time list"
  bo_streak :: nat

definition defaults :: "backoff \<Rightarrow> backoff" where
  "defaults b = b\<lparr>bo_initial := (if bo_initial b \<le> 0 then second else bo_initial b),
     bo_max := (if bo_max b \<le> 0 then 30 * second else bo_max b),
     bo_resetAfter := (if bo_resetAfter b \<le> 0 then minute else bo_resetAfter b),
     bo_giveUp := (if bo_giveUp b \<le> 0 then 5 else bo_giveUp b)\<rparr>"

text \<open>The doubling loop, with the turns left to it.\<close>

fun doubled :: "time \<Rightarrow> nat \<Rightarrow> time \<Rightarrow> time" where
  "doubled mx 0 delay = delay"
| "doubled mx (Suc n) delay =
     (if delay < mx then (if mx div 2 < delay then mx else doubled mx n (delay * 2)) else delay)"

definition Failure :: "time \<Rightarrow> time \<Rightarrow> backoff \<Rightarrow> (time \<times> bool) \<times> backoff" where
  "Failure now runFor b0 =
     (let b = defaults b0;
          kept = filter (\<lambda>t. now - 10 * minute < t) (bo_failures b) @ [now];
          streak = (if bo_resetAfter b \<le> runFor then 0 else bo_streak b);
          d = doubled (bo_max b) streak (bo_initial b);
          delay = (if bo_max b < d then bo_max b else d)
      in ((delay, bo_giveUp b \<le> int (length kept)), b\<lparr>bo_failures := kept, bo_streak := streak + 1\<rparr>))"

definition Reset :: "backoff \<Rightarrow> backoff" where
  "Reset b = b\<lparr>bo_failures := [], bo_streak := 0\<rparr>"

section \<open>Requests\<close>

record path_backoff =
  pb_failures :: nat
  pb_next :: time

fun request_doubled :: "nat \<Rightarrow> time \<Rightarrow> time" where
  "request_doubled 0 delay = delay"
| "request_doubled (Suc n) delay = (if delay < minute then request_doubled n (delay * 2) else delay)"

definition request_delay :: "nat \<Rightarrow> time" where
  "request_delay failures = (let d = request_doubled (failures - 1) second in if minute < d then minute else d)"

definition recordBackoff :: "time \<Rightarrow> string \<Rightarrow> bool \<Rightarrow> (string \<Rightarrow> path_backoff option) \<Rightarrow> (string \<Rightarrow> path_backoff option)" where
  "recordBackoff now path failed s =
     (if \<not> failed then s(path := None)
      else let n = (case s path of Some p \<Rightarrow> pb_failures p | None \<Rightarrow> 0) + 1
           in s(path \<mapsto> \<lparr>pb_failures = n, pb_next = now + request_delay n\<rparr>))"

definition backoffAllowed :: "time \<Rightarrow> string \<Rightarrow> (string \<Rightarrow> path_backoff option) \<Rightarrow> bool" where
  "backoffAllowed now path s = (case s path of None \<Rightarrow> True | Some p \<Rightarrow> pb_next p = 0 \<or> pb_next p \<le> now)"

section \<open>Closed forms\<close>

lemma doubled_min:
  assumes "0 < d" and "d \<le> mx"
  shows "doubled mx n d = min mx (d * 2 ^ n)"
  using assms
proof (induction n arbitrary: d)
  case (Suc n)
  have big: "mx \<le> d * 2 ^ Suc n" if "mx \<le> d * 2"
  proof -
    have "d * 2 \<le> d * 2 * 2 ^ n" using Suc.prems(1) by (simp add: mult_le_cancel_left1)
    with that show ?thesis by simp
  qed
  show ?case
  proof (cases "d < mx")
    case False
    with Suc.prems big have "mx \<le> d * 2 ^ Suc n" "d = mx" by simp_all
    then show ?thesis by simp
  next
    case True
    show ?thesis
    proof (cases "mx div 2 < d")
      case half: True
      then have "mx \<le> d * 2" by linarith
      with big True half show ?thesis by (simp add: min_def)
    next
      case False
      then have "d * 2 \<le> mx" by linarith
      with Suc.IH [of "d * 2"] Suc.prems True False show ?thesis by (simp add: mult.assoc)
    qed
  qed
qed simp

lemma request_doubled_ge: "0 < d \<Longrightarrow> min minute (d * 2 ^ n) \<le> request_doubled n d"
proof (induction n arbitrary: d)
  case (Suc n)
  from Suc.IH [of "d * 2"] Suc.prems show ?case
    using min.cobounded1 [of minute "d * (2 * 2 ^ n)"] by (auto simp: mult.assoc)
qed simp

lemma request_doubled_small: "0 < d \<Longrightarrow> d * 2 ^ n \<le> minute \<Longrightarrow> request_doubled n d = d * 2 ^ n"
proof (induction n arbitrary: d)
  case (Suc n)
  have "d * 2 \<le> d * 2 * 2 ^ n" using Suc.prems(1) by (simp add: mult_le_cancel_left1)
  moreover have "d * 2 * 2 ^ n \<le> minute" using Suc.prems(2) by (simp add: mult.assoc)
  ultimately have "d < minute" using Suc.prems(1) by linarith
  with Suc.IH [of "d * 2"] Suc.prems show ?case by (simp add: mult.assoc)
qed simp

lemma request_delay_min: "0 < n \<Longrightarrow> request_delay n = min minute (second * 2 ^ (n - 1))"
  using request_doubled_small [of second "n - 1"] request_doubled_ge [of second "n - 1"]
  by (auto simp: request_delay_def Let_def min_def second_def)

text \<open>The state after a list of failures in order, each with the time the process had run.\<close>

fun after_failures :: "(time \<times> time) list \<Rightarrow> backoff \<Rightarrow> backoff" where
  "after_failures [] b = b"
| "after_failures ((now, runFor) # hist) b = after_failures hist (snd (Failure now runFor b))"

lemma clipped_min:
  assumes "0 < d" and "0 < mx"
  shows "(if mx < doubled mx n d then mx else doubled mx n d) = min mx (d * 2 ^ n)"
proof (cases "d \<le> mx")
  case True
  with doubled_min [OF assms(1)] show ?thesis by simp
next
  case False
  moreover from this have "doubled mx n d = d" by (cases n) simp_all
  moreover have "d \<le> d * 2 ^ n" using assms(1) by (simp add: mult_le_cancel_left1)
  ultimately show ?thesis by simp
qed

text \<open>
  The delay before a restart.  It is the initial delay doubled once for every failure of the
  current streak, cut off at the maximum; so it is positive and never above the maximum, however
  long the streak.
\<close>

theorem restart_delay_schedule:
  "fst (fst (Failure now runFor b)) =
     min (bo_max (defaults b))
       (bo_initial (defaults b) * 2 ^ (if bo_resetAfter (defaults b) \<le> runFor then 0 else bo_streak b)) \<and>
   0 < fst (fst (Failure now runFor b)) \<and> fst (fst (Failure now runFor b)) \<le> bo_max (defaults b)"
proof -
  have "0 < bo_initial (defaults b)" "0 < bo_max (defaults b)" "bo_streak (defaults b) = bo_streak b"
    by (simp_all add: defaults_def second_def)
  then show ?thesis
    using clipped_min [of "bo_initial (defaults b)" "bo_max (defaults b)"]
    by (simp add: Failure_def Let_def)
qed

lemma defaults_idem: "defaults (defaults b) = defaults b"
  by (simp add: defaults_def second_def minute_def)

lemma failures_defaults [simp]: "bo_failures (defaults b) = bo_failures b"
  by (simp add: defaults_def)

lemma Failure_state:
  "bo_failures (snd (Failure now runFor b)) = filter (\<lambda>t. now - 10 * minute < t) (bo_failures b) @ [now]"
  "bo_giveUp (defaults (snd (Failure now runFor b))) = bo_giveUp (defaults b)"
  by (simp_all add: Failure_def Let_def) (simp add: defaults_def)

lemma giveUp_after: "bo_giveUp (defaults (after_failures hist b)) = bo_giveUp (defaults b)"
  by (induction hist b rule: after_failures.induct) (simp_all add: Failure_state)

lemma recent_after:
  assumes "\<forall>t \<in> set (map fst hist). t \<le> now"
  shows "filter (\<lambda>t. now - 10 * minute < t) (bo_failures (after_failures hist b)) =
     filter (\<lambda>t. now - 10 * minute < t) (bo_failures b @ map fst hist)"
  using assms
proof (induction hist b rule: after_failures.induct)
  case (2 t r hist b)
  have "filter (\<lambda>x. now - 10 * minute < x) (filter (\<lambda>x. t - 10 * minute < x) (bo_failures b)) =
      filter (\<lambda>x. now - 10 * minute < x) (bo_failures b)"
    using 2(2) by (auto simp: filter_filter intro!: filter_cong)
  with 2 show ?case by (simp add: Failure_state)
qed simp

text \<open>
  Giving up.  After any history of failures in the order of time, the next one is reported as
  final exactly when, counting itself, at least the configured number of all failures so far fall
  into the last ten minutes, although the code only keeps those it has not dropped yet.
\<close>

theorem gives_up_on_recent_failures:
  assumes "bo_failures b = []" and "sorted (map fst hist @ [now])"
  shows "snd (fst (Failure now runFor (after_failures hist b))) \<longleftrightarrow>
     bo_giveUp (defaults b) \<le> int (length (filter (\<lambda>t. now - 10 * minute < t) (map fst hist @ [now])))"
proof -
  have "\<forall>t \<in> set (map fst hist). t \<le> now" using assms(2) by (simp add: sorted_append)
  note recent = recent_after [OF this, of b]
  have "now - 10 * minute < now" by (simp add: minute_def second_def)
  with recent assms(1) show ?thesis
    by (simp add: Failure_def Let_def giveUp_after)
qed

definition demo_backoff :: backoff where
  "demo_backoff = \<lparr>bo_initial = 0, bo_max = 0, bo_resetAfter = 0, bo_giveUp = 3, bo_failures = [], bo_streak = 0\<rparr>"

theorem gives_up_on_recent_failures_witness:
  "snd (fst (Failure (30 * second) 0 (after_failures [(10 * second, 0), (20 * second, 0)] demo_backoff))) \<and>
   \<not> snd (fst (Failure (20 * minute) 0 (after_failures [(10 * second, 0), (20 * second, 0)] demo_backoff)))"
proof -
  have "sorted (map fst [(10 * second, 0), (20 * second, 0)] @ [30 * second])"
    "sorted (map fst [(10 * second, 0), (20 * second, 0)] @ [20 * minute])"
    by (simp_all add: second_def minute_def)
  moreover have "bo_failures demo_backoff = []" "bo_giveUp (defaults demo_backoff) = 3"
    by (simp_all add: demo_backoff_def defaults_def)
  ultimately show ?thesis
    using gives_up_on_recent_failures [of demo_backoff "[(10 * second, 0), (20 * second, 0)]" "30 * second" 0]
      gives_up_on_recent_failures [of demo_backoff "[(10 * second, 0), (20 * second, 0)]" "20 * minute" 0]
    by (simp add: second_def minute_def)
qed

text \<open>
  After \<open>n\<close> failures in a row a path is not asked again before the delay of the schedule is over,
  and it is asked then.
\<close>

fun failed_times :: "time list \<Rightarrow> string \<Rightarrow> (string \<Rightarrow> path_backoff option) \<Rightarrow> (string \<Rightarrow> path_backoff option)" where
  "failed_times [] path s = s"
| "failed_times (t # ts) path s = failed_times ts path (recordBackoff t path True s)"

lemma failed_times_state:
  "failed_times (ts @ [t]) path s path =
     Some \<lparr>pb_failures = (case s path of Some p \<Rightarrow> pb_failures p | None \<Rightarrow> 0) + length ts + 1,
       pb_next = t + request_delay ((case s path of Some p \<Rightarrow> pb_failures p | None \<Rightarrow> 0) + length ts + 1)\<rparr>"
  by (induction ts arbitrary: s) (auto simp: recordBackoff_def Let_def split: option.splits)

lemma failing_path_schedule:
  assumes "s path = None" and "0 < t"
  shows "backoffAllowed now path (failed_times (ts @ [t]) path s) \<longleftrightarrow>
     t + min minute (second * 2 ^ length ts) \<le> now"
proof -
  have "0 < min minute (second * 2 ^ length ts)" by (simp add: minute_def second_def)
  then have "t + min minute (second * 2 ^ length ts) \<noteq> 0" using assms(2) by linarith
  then show ?thesis
    using assms(1) by (simp add: backoffAllowed_def failed_times_state request_delay_min)
qed

end
