(* ===== verification/StateCollect.thy ===== *)
theory StateCollect
  imports StateConfirm StateSeries Backoff "HOL-Library.Monad_Syntax"
begin

text \<open>
  The collector of Envoy's state (\<open>internal/state/state.go\<close>): the parsers of the admin interface's
  bodies, the refresh of the whole state and the collectors of single paths.

  The admin interface is a parameter: what each path answers at the moment of a poll, \<open>None\<close> for a
  request that fails, and for JSON \<open>Some None\<close> for a body that is not JSON.  The requests of one poll
  take no time.  \<open>time.ParseDuration\<close>, \<open>time.Parse\<close> and \<open>fmt.Sscan\<close> are parameters.  A walk goes through
  the members of an object in their order in the text, where Go leaves the order open.
\<close>

section \<open>State\<close>

record object_ref =
  rf_kind :: string
  rf_name :: string

record server_info =
  sv_version :: string
  sv_state :: string
  sv_uptime :: time
  sv_hotRestartEpoch :: int

record listener_state =
  li_name :: string
  li_address :: string
  li_owner :: "object_ref option"

record endpoint_state =
  ep_address :: string
  ep_port :: int
  ep_health :: string
  ep_weight :: int
  ep_failFlags :: "string list"

record cluster_state =
  cl_name :: string
  cl_owner :: "object_ref option"
  cl_endpoints :: "endpoint_state list"

record observed_cert =
  ce_name :: string
  ce_owner :: "object_ref option"
  ce_subject :: string
  ce_sans :: "string list"
  ce_notAfter :: time
  ce_daysLeft :: int
  ce_serial :: string

record vhost_state =
  vh_name :: string
  vh_domains :: "string list"
  vh_owner :: "object_ref option"

record route_state =
  rt_name :: string
  rt_owner :: "object_ref option"
  rt_virtualHosts :: "vhost_state list"

text \<open>Clusters and certificates are \<open>None\<close> while the slice is nil; of listeners and routes only a
  slice with elements is not nil.\<close>

record data_plane =
  dp_nodeID :: string
  dp_envoy :: server_info
  dp_collectedAt :: time
  dp_stale :: bool
  dp_lastSuccessAt :: time
  dp_ready :: bool
  dp_readyStatus :: string
  dp_listeners :: "listener_state list"
  dp_clusters :: "cluster_state list option"
  dp_certs :: "observed_cert list option"
  dp_routes :: "route_state list"

record collector =
  co_nodeID :: string
  co_current :: data_plane
  co_service :: state_service
  co_series :: series_store
  co_backoff :: "string \<Rightarrow> path_backoff option"

definition zero_state :: data_plane where
  "zero_state = \<lparr>dp_nodeID = [], dp_envoy = \<lparr>sv_version = [], sv_state = [], sv_uptime = 0, sv_hotRestartEpoch = 0\<rparr>,
     dp_collectedAt = 0, dp_stale = False, dp_lastSuccessAt = 0, dp_ready = False, dp_readyStatus = [],
     dp_listeners = [], dp_clusters = None, dp_certs = None, dp_routes = []\<rparr>"

definition new_collector :: "string \<Rightarrow> collector" where
  "new_collector node = \<lparr>co_nodeID = node, co_current = zero_state, co_service = new_state_service,
     co_series = NewSeriesStore 2160 5000 (10 * second), co_backoff = Map.empty\<rparr>"

record std_lib =
  std_duration :: "string \<Rightarrow> time option"
  std_time :: "string \<Rightarrow> time"
  std_sscan :: "string \<Rightarrow> int option"

section \<open>Owners and addresses\<close>

definition resolveOwner :: "string \<Rightarrow> object_ref option" where
  "resolveOwner name =
     (if prefix ''lis/'' name then Some \<lparr>rf_kind = ''Listener'', rf_name = drop 4 name\<rparr>
      else if prefix ''rc/'' name then Some \<lparr>rf_kind = ''Listener'', rf_name = drop 3 name\<rparr>
      else if prefix ''us/'' name then Some \<lparr>rf_kind = ''Upstream'', rf_name = drop 3 name\<rparr>
      else if prefix ''crt/'' name
      then (let parts = split_on slash name in
            if 1 < length parts then Some \<lparr>rf_kind = ''Listener'', rf_name = parts ! 1\<rparr> else None)
      else None)"

definition addressString :: "(string \<times> jsval) list \<Rightarrow> string" where
  "addressString v =
     (case map_of v ''socket_address'' of
        Some (JObj socket) \<Rightarrow>
          let address = (case map_of socket ''address'' of Some (JStr a) \<Rightarrow> a | _ \<Rightarrow> []);
              port = (case map_of socket ''port_value'' of Some (JNum n) \<Rightarrow> n | _ \<Rightarrow> 0)
          in if address \<noteq> [] \<and> port \<noteq> 0 then address @ '':'' @ string_of_int port else []
      | _ \<Rightarrow> [])"

section \<open>Listeners and routes\<close>

text \<open>All objects of a value, an object before those inside it.\<close>

fun dump_nodes :: "jsval \<Rightarrow> (string \<times> jsval) list list" where
  "dump_nodes (JObj ps) = ps # concat (map (\<lambda>p. dump_nodes (snd p)) ps)"
| "dump_nodes (JArr xs) = concat (map dump_nodes xs)"
| "dump_nodes _ = []"

definition body_nodes :: "jsval option \<Rightarrow> (string \<times> jsval) list list" where
  "body_nodes body = (case body of Some (JObj ps) \<Rightarrow> dump_nodes (JObj ps) | _ \<Rightarrow> [])"

definition node_name :: "(string \<times> jsval) list \<Rightarrow> string" where
  "node_name ps = (case map_of ps ''name'' of Some (JStr n) \<Rightarrow> n | _ \<Rightarrow> [])"

definition listener_node :: "(string \<times> jsval) list \<Rightarrow> listener_state" where
  "listener_node ps = \<lparr>li_name = node_name ps,
     li_address = (case map_of ps ''address'' of Some (JObj a) \<Rightarrow> addressString a | _ \<Rightarrow> []),
     li_owner = resolveOwner (node_name ps)\<rparr>"

definition parseListeners :: "jsval option \<Rightarrow> listener_state list" where
  "parseListeners body = map listener_node (filter (\<lambda>ps. prefix ''lis/'' (node_name ps)) (body_nodes body))"

definition strings_of :: "jsval option \<Rightarrow> string list" where
  "strings_of v = (case v of Some (JArr xs) \<Rightarrow> List.map_filter go_text xs | _ \<Rightarrow> [])"

definition vhost_node :: "jsval \<Rightarrow> vhost_state option" where
  "vhost_node v =
     (case v of
        JObj host \<Rightarrow> Some \<lparr>vh_name = node_name host, vh_domains = strings_of (map_of host ''domains''), vh_owner = resolveOwner (node_name host)\<rparr>
      | _ \<Rightarrow> None)"

definition route_node :: "(string \<times> jsval) list \<Rightarrow> route_state" where
  "route_node ps = \<lparr>rt_name = node_name ps, rt_owner = resolveOwner (node_name ps),
     rt_virtualHosts = (case map_of ps ''virtual_hosts'' of Some (JArr hs) \<Rightarrow> List.map_filter vhost_node hs | _ \<Rightarrow> [])\<rparr>"

definition parseRoutes :: "jsval option \<Rightarrow> route_state list" where
  "parseRoutes body = map route_node (filter (\<lambda>ps. prefix ''rc/'' (node_name ps)) (body_nodes body))"

section \<open>Clusters\<close>

record host_status =
  hs_address :: string
  hs_port :: int
  hs_health :: string
  hs_weight :: int
  hs_failedHealthCheck :: bool
  hs_failedOutlier :: bool
  hs_failedTimeout :: bool

definition zero_host :: host_status where
  "zero_host = \<lparr>hs_address = [], hs_port = 0, hs_health = [], hs_weight = 0, hs_failedHealthCheck = False,
     hs_failedOutlier = False, hs_failedTimeout = False\<rparr>"

definition socket_decoder :: "(string \<times> int) decoder" where
  "socket_decoder = go_struct (\<lambda>ps. do { a \<leftarrow> go_field go_text [] ''address'' ps;
     p \<leftarrow> go_field go_uint32 0 ''port_value'' ps; Some (a, p) })"

definition host_decoder :: "host_status decoder" where
  "host_decoder = go_struct (\<lambda>ps. do {
     sock \<leftarrow> go_field (go_struct (go_field socket_decoder ([], 0) ''socket_address'')) ([], 0) ''address'' ps;
     health \<leftarrow> go_field go_text [] ''health_status'' ps;
     weight \<leftarrow> go_field go_uint32 0 ''weight'' ps;
     a \<leftarrow> go_field go_bool False ''failed_active_health_check'' ps;
     b \<leftarrow> go_field go_bool False ''failed_outlier_check'' ps;
     c \<leftarrow> go_field go_bool False ''failed_active_hc_timeout'' ps;
     Some \<lparr>hs_address = fst sock, hs_port = snd sock, hs_health = health, hs_weight = weight,
       hs_failedHealthCheck = a, hs_failedOutlier = b, hs_failedTimeout = c\<rparr> })"

definition cluster_decoder :: "(string \<times> host_status list) decoder" where
  "cluster_decoder = go_struct (\<lambda>ps. do { n \<leftarrow> go_field go_text [] ''name'' ps;
     hs \<leftarrow> go_field (go_slice zero_host host_decoder) [] ''host_statuses'' ps; Some (n, hs) })"

definition clusters_doc :: "jsval option \<Rightarrow> (string \<times> host_status list) list option" where
  "clusters_doc = go_unmarshal [] (go_struct (go_field (go_slice ([], []) cluster_decoder) [] ''cluster_statuses''))"

definition normal_health :: "string \<Rightarrow> string" where
  "normal_health raw =
     (let health = to_upper raw in
      if health = [] then ''UNKNOWN''
      else if health \<in> {''HEALTHY'', ''UNHEALTHY'', ''DRAINING'', ''TIMEOUT''} then health
      else if str_includes health ''HEALTHY'' \<and> \<not> str_includes health ''UNHEALTHY'' then ''HEALTHY''
      else ''UNHEALTHY'')"

definition appendUnique :: "string list \<Rightarrow> string \<Rightarrow> string list" where
  "appendUnique vs v = (if v \<in> set vs then vs else vs @ [v])"

definition fail_flags :: "host_status \<Rightarrow> string list" where
  "fail_flags h =
     (let flags = (if hs_failedHealthCheck h then [''failed_active_health_check''] else []) @
            (if hs_failedOutlier h then [''failed_outlier_check''] else []) @
            (if hs_failedTimeout h then [''failed_active_hc_timeout''] else []);
          status = to_lower (hs_health h)
      in if status \<in> {''failed_active_health_check'', ''failed_outlier_check'', ''failed_active_hc_timeout''}
         then appendUnique flags status else flags)"

definition endpoint_of :: "host_status \<Rightarrow> endpoint_state" where
  "endpoint_of h = \<lparr>ep_address = hs_address h, ep_port = hs_port h, ep_health = normal_health (hs_health h),
     ep_weight = hs_weight h, ep_failFlags = fail_flags h\<rparr>"

definition cluster_of :: "string \<times> host_status list \<Rightarrow> cluster_state" where
  "cluster_of c = \<lparr>cl_name = fst c, cl_owner = resolveOwner (fst c), cl_endpoints = map endpoint_of (snd c)\<rparr>"

definition parseClusters :: "jsval option \<Rightarrow> cluster_state list option" where
  "parseClusters body = map_option (map cluster_of) (clusters_doc body)"

section \<open>Certificates\<close>

record cert_status =
  cs_name :: string
  cs_chainFile :: string
  cs_subject :: string
  cs_serial :: string
  cs_sans :: "string list"
  cs_notAfter :: string
  cs_daysLeft :: int

definition zero_cert :: cert_status where
  "zero_cert = \<lparr>cs_name = [], cs_chainFile = [], cs_subject = [], cs_serial = [], cs_sans = [], cs_notAfter = [], cs_daysLeft = 0\<rparr>"

definition cert_decoder :: "cert_status decoder" where
  "cert_decoder = go_struct (\<lambda>ps. do {
     n \<leftarrow> go_field go_text [] ''name'' ps; f \<leftarrow> go_field go_text [] ''cert_chain_file'' ps;
     s \<leftarrow> go_field go_text [] ''subject'' ps; sn \<leftarrow> go_field go_text [] ''serial_number'' ps;
     sans \<leftarrow> go_field (go_slice [] go_text) [] ''subject_alt_names'' ps;
     t \<leftarrow> go_field go_text [] ''expiration_time'' ps;
     days \<leftarrow> go_field go_int64 0 ''days_until_expiration'' ps;
     Some \<lparr>cs_name = n, cs_chainFile = f, cs_subject = s, cs_serial = sn, cs_sans = sans, cs_notAfter = t, cs_daysLeft = days\<rparr> })"

text \<open>Whole days of a duration, cut towards zero.\<close>

definition whole_days :: "time \<Rightarrow> int" where
  "whole_days t = sgn t * (\<bar>t\<bar> div (24 * 60 * minute))"

definition cert_of :: "std_lib \<Rightarrow> time \<Rightarrow> cert_status \<Rightarrow> observed_cert" where
  "cert_of L now c =
     (let name = (if cs_name c = [] then cs_chainFile c else cs_name c);
          notAfter = (if cs_notAfter c \<noteq> [] then std_time L (cs_notAfter c) else 0);
          days = (if cs_daysLeft c = 0 \<and> notAfter \<noteq> 0 then whole_days (notAfter - now) else cs_daysLeft c)
      in \<lparr>ce_name = name, ce_owner = resolveOwner name, ce_subject = cs_subject c, ce_sans = cs_sans c,
          ce_notAfter = notAfter, ce_daysLeft = days, ce_serial = cs_serial c\<rparr>)"

definition parseCerts :: "std_lib \<Rightarrow> time \<Rightarrow> jsval option \<Rightarrow> observed_cert list option" where
  "parseCerts L now body = map_option (map (cert_of L now))
     (go_unmarshal [] (go_struct (go_field (go_slice zero_cert cert_decoder) [] ''certificates'')) body)"

section \<open>Refreshing and collecting\<close>

record admin_replies =
  ad_ready :: "string option"
  ad_serverInfo :: "jsval option option"
  ad_dump :: "jsval option option"
  ad_clusters :: "jsval option option"
  ad_certs :: "jsval option option"
  ad_stats :: "jsval option option"

definition parseUptime :: "std_lib \<Rightarrow> string \<Rightarrow> time" where
  "parseUptime L v = (if v = [] then 0 else case std_duration L (v @ ''s'') of Some d \<Rightarrow> d | None \<Rightarrow> 0)"

definition server_decoder :: "std_lib \<Rightarrow> server_info decoder" where
  "server_decoder L = go_struct (\<lambda>ps. do { v \<leftarrow> go_field go_text [] ''version'' ps; s \<leftarrow> go_field go_text [] ''state'' ps;
     u \<leftarrow> go_field go_text [] ''uptime_current_epoch'' ps; e \<leftarrow> go_field go_int64 0 ''hot_restart_epoch'' ps;
     Some \<lparr>sv_version = v, sv_state = s, sv_uptime = parseUptime L u, sv_hotRestartEpoch = e\<rparr> })"

definition zero_server :: server_info where
  "zero_server = \<lparr>sv_version = [], sv_state = [], sv_uptime = 0, sv_hotRestartEpoch = 0\<rparr>"

text \<open>\<open>refreshLocked\<close> with its clusters; \<open>None\<close> when it returns an error, which changes nothing.\<close>

definition refreshLocked :: "std_lib \<Rightarrow> admin_replies \<Rightarrow> time \<Rightarrow> collector \<Rightarrow> collector option" where
  "refreshLocked L a now c =
     do { body \<leftarrow> ad_serverInfo a; server \<leftarrow> go_unmarshal zero_server (server_decoder L) body; dump \<leftarrow> ad_dump a;
          let cur = co_current c;
          Some (c\<lparr>co_current := cur\<lparr>dp_nodeID := co_nodeID c, dp_envoy := server, dp_collectedAt := now, dp_lastSuccessAt := now,
              dp_stale := False, dp_listeners := parseListeners dump, dp_routes := parseRoutes dump,
              dp_clusters := (case ad_clusters a of Some b \<Rightarrow> parseClusters b | None \<Rightarrow> dp_clusters cur),
              dp_certs := (case ad_certs a of Some b \<Rightarrow> parseCerts L now b | None \<Rightarrow> dp_certs cur)\<rparr>,
            co_service := refresh_version (Some dump) now (co_service c)\<rparr>) }"

definition mark_stale :: "collector \<Rightarrow> collector" where
  "mark_stale c = c\<lparr>co_current := (co_current c)\<lparr>dp_stale := True\<rparr>\<rparr>"

definition CurrentState :: "std_lib \<Rightarrow> admin_replies \<Rightarrow> time \<Rightarrow> bool \<Rightarrow> collector \<Rightarrow> data_plane \<times> bool \<times> collector" where
  "CurrentState L a now refresh c =
     (if refresh
      then (case refreshLocked L a now c of
              None \<Rightarrow> (co_current (mark_stale c), False, mark_stale c)
            | Some c' \<Rightarrow> (co_current c', True, c'))
      else (co_current c, True, c))"

definition trim_ready :: "string \<Rightarrow> string" where
  "trim_ready s = (let blank = (\<lambda>c. c \<in> {CHR '' '', CHR 0x09, CHR 0x0A, CHR 0x0B, CHR 0x0C, CHR 0x0D}) in
     rev (dropWhile blank (rev (dropWhile blank s))))"

definition collectReady :: "admin_replies \<Rightarrow> time \<Rightarrow> collector \<Rightarrow> collector" where
  "collectReady a now c =
     (if \<not> backoffAllowed now ''/ready'' (co_backoff c) then c
      else
        let c1 = c\<lparr>co_backoff := recordBackoff now ''/ready'' (ad_ready a = None) (co_backoff c)\<rparr>; cur = co_current c in
        (case ad_ready a of
           None \<Rightarrow> c1\<lparr>co_current := cur\<lparr>dp_ready := False, dp_readyStatus := ''UNAVAILABLE''\<rparr>\<rparr>
         | Some body \<Rightarrow>
             let status = trim_ready body in
             c1\<lparr>co_current := cur\<lparr>dp_readyStatus := status, dp_ready := (to_lower status = ''live'' \<or> to_lower status = ''ok'')\<rparr>\<rparr>))"

definition collectStats :: "std_lib \<Rightarrow> admin_replies \<Rightarrow> time \<Rightarrow> collector \<Rightarrow> collector" where
  "collectStats L a now c =
     (let path = ''/stats?format=json'' in
      if \<not> backoffAllowed now path (co_backoff c) then c
      else
        let c1 = c\<lparr>co_backoff := recordBackoff now path (ad_stats a = None) (co_backoff c)\<rparr> in
        (case ad_stats a of None \<Rightarrow> c1
         | Some body \<Rightarrow> c1\<lparr>co_series := add_all now (parseStats (std_sscan L) body) (co_series c)\<rparr>))"

definition collectClusters :: "admin_replies \<Rightarrow> time \<Rightarrow> collector \<Rightarrow> collector" where
  "collectClusters a now c =
     (let path = ''/clusters?format=json'' in
      if \<not> backoffAllowed now path (co_backoff c) then c
      else
        let c1 = c\<lparr>co_backoff := recordBackoff now path (ad_clusters a = None) (co_backoff c)\<rparr> in
        (case ad_clusters a of None \<Rightarrow> c1
         | Some body \<Rightarrow> c1\<lparr>co_current := (co_current c)\<lparr>dp_clusters := parseClusters body\<rparr>\<rparr>))"

definition collectCerts :: "std_lib \<Rightarrow> admin_replies \<Rightarrow> time \<Rightarrow> collector \<Rightarrow> collector" where
  "collectCerts L a now c =
     (let path = ''/certs'' in
      if \<not> backoffAllowed now path (co_backoff c) then c
      else
        let c1 = c\<lparr>co_backoff := recordBackoff now path (ad_certs a = None) (co_backoff c)\<rparr> in
        (case ad_certs a of None \<Rightarrow> c1
         | Some body \<Rightarrow> c1\<lparr>co_current := (co_current c)\<lparr>dp_certs := parseCerts L now body\<rparr>\<rparr>))"

text \<open>What changes the collector: one of the five tickers of \<open>pollLoop\<close>, at any time and with any replies, or a new
  expectation.\<close>

inductive collector_step :: "std_lib \<Rightarrow> collector \<Rightarrow> collector \<Rightarrow> bool" for L where
  ready: "collector_step L c (collectReady a now c)"
| stats: "collector_step L c (collectStats L a now c)"
| clusters: "collector_step L c (collectClusters a now c)"
| dump: "collector_step L c (snd (snd (CurrentState L a now True c)))"
| certs: "collector_step L c (collectCerts L a now c)"
| expect: "collector_step L c (c\<lparr>co_service := ExpectVersion v timeout now (co_service c)\<rparr>)"

end
