(* ===== verification/StateServer.thy ===== *)
theory StateServer
  imports StateCollect StatusPages ConsoleAuth
begin

text \<open>
  The status operations of the API (\<open>internal/api/state_handlers.go\<close>) on the collected state, and what
  the status pages of the console show of them.  The state is \<open>None\<close> where the server runs without a
  collector.
\<close>

section \<open>Encoding\<close>

definition ref_json :: "object_ref \<Rightarrow> jsval" where
  "ref_json r = JObj [(''kind'', JStr (rf_kind r)), (''name'', JStr (rf_name r))]"

definition owner_member :: "object_ref option \<Rightarrow> (string \<times> jsval) list" where
  "owner_member o_ref = (case o_ref of None \<Rightarrow> [] | Some r \<Rightarrow> [(''owner'', ref_json r)])"

definition listener_json :: "listener_state \<Rightarrow> jsval" where
  "listener_json l = JObj ((''name'', JStr (li_name l)) # member_if (li_address l \<noteq> []) ''address'' (JStr (li_address l)) @
     owner_member (li_owner l))"

definition endpoint_json :: "endpoint_state \<Rightarrow> jsval" where
  "endpoint_json e = JObj ([(''address'', JStr (ep_address e)), (''port'', JNum (ep_port e)), (''health'', JStr (ep_health e))] @
     member_if (ep_weight e \<noteq> 0) ''weight'' (JNum (ep_weight e)) @
     member_if (ep_failFlags e \<noteq> []) ''fail_flags'' (JArr (map JStr (ep_failFlags e))))"

definition cluster_json :: "cluster_state \<Rightarrow> jsval" where
  "cluster_json c = JObj ((''name'', JStr (cl_name c)) # owner_member (cl_owner c) @
     member_if (cl_endpoints c \<noteq> []) ''endpoints'' (JArr (map endpoint_json (cl_endpoints c))))"

definition cert_json :: "(time \<Rightarrow> string) \<Rightarrow> observed_cert \<Rightarrow> jsval" where
  "cert_json rfc c = JObj ((''name'', JStr (ce_name c)) # owner_member (ce_owner c) @
     member_if (ce_subject c \<noteq> []) ''subject'' (JStr (ce_subject c)) @
     member_if (ce_sans c \<noteq> []) ''sans'' (JArr (map JStr (ce_sans c))) @
     [(''not_after'', JStr (rfc (ce_notAfter c)))] @
     member_if (ce_daysLeft c \<noteq> 0) ''days_left'' (JNum (ce_daysLeft c)) @
     member_if (ce_serial c \<noteq> []) ''serial'' (JStr (ce_serial c)))"

definition vhost_json :: "vhost_state \<Rightarrow> jsval" where
  "vhost_json v = JObj ((''name'', JStr (vh_name v)) # member_if (vh_domains v \<noteq> []) ''domains'' (JArr (map JStr (vh_domains v))) @
     owner_member (vh_owner v))"

definition route_json :: "route_state \<Rightarrow> jsval" where
  "route_json r = JObj ((''name'', JStr (rt_name r)) # owner_member (rt_owner r) @
     member_if (rt_virtualHosts r \<noteq> []) ''virtual_hosts'' (JArr (map vhost_json (rt_virtualHosts r))))"

definition server_json :: "server_info \<Rightarrow> jsval" where
  "server_json s = JObj [(''version'', JStr (sv_version s)), (''state'', JStr (sv_state s)), (''uptime'', JNum (sv_uptime s)),
     (''hot_restart_epoch'', JNum (sv_hotRestartEpoch s))]"

definition version_json :: "(time \<Rightarrow> string) \<Rightarrow> version_status \<Rightarrow> jsval" where
  "version_json rfc v = JObj ([(''expected'', JStr (vst_expected v)), (''observed'', JStr (vst_observed v)), (''status'', JStr (vst_status v)),
       (''at'', JStr (rfc (vst_at v))), (''elapsed'', JNum (vst_elapsed v))] @
     member_if (vst_details v \<noteq> []) ''details''
       (JArr (map (\<lambda>(t, x). JObj [(''type'', JStr t), (''version'', JStr x)]) (vst_details v))))"

text \<open>A slice: \<open>null\<close> while it is nil.\<close>

definition slice_json :: "('a \<Rightarrow> jsval) \<Rightarrow> 'a list option \<Rightarrow> jsval" where
  "slice_json enc xs = (case xs of None \<Rightarrow> JNull | Some ys \<Rightarrow> JArr (map enc ys))"

definition grown_slice :: "'a list \<Rightarrow> 'a list option" where
  "grown_slice xs = (if xs = [] then None else Some xs)"

section \<open>Operations\<close>

definition state_unavailable :: http_response where
  "state_unavailable = writeError 503 ''UNAVAILABLE'' ''data-plane state is unavailable''"

definition writeStateItems :: "(time \<Rightarrow> string) \<Rightarrow> jsval \<Rightarrow> data_plane \<Rightarrow> http_response" where
  "writeStateItems rfc items d = writeJSON 200 (JObj [(''collectedAt'', JStr (rfc (dp_collectedAt d))), (''items'', items), (''stale'', JBool (dp_stale d))])"

definition with_state :: "(data_plane \<Rightarrow> http_response) \<Rightarrow> collector option \<Rightarrow> http_response" where
  "with_state f st = (case st of None \<Rightarrow> state_unavailable | Some c \<Rightarrow> f (co_current c))"

definition list_length :: "'a list option \<Rightarrow> nat" where
  "list_length xs = (case xs of None \<Rightarrow> 0 | Some ys \<Rightarrow> length ys)"

definition summary_json :: "(time \<Rightarrow> string) \<Rightarrow> version_status \<Rightarrow> data_plane \<Rightarrow> jsval" where
  "summary_json rfc v d = JObj [(''collectedAt'', JStr (rfc (dp_collectedAt d))),
     (''counts'', JObj [(''certs'', JNum (int (list_length (dp_certs d)))), (''clusters'', JNum (int (list_length (dp_clusters d)))),
        (''endpoints'', JNum (int (case dp_clusters d of None \<Rightarrow> 0 | Some cs \<Rightarrow> sum_list (map (\<lambda>c. length (cl_endpoints c)) cs)))),
        (''listeners'', JNum (int (length (dp_listeners d)))), (''routes'', JNum (int (length (dp_routes d))))]),
     (''envoy'', server_json (dp_envoy d)), (''lastSuccessAt'', JStr (rfc (dp_lastSuccessAt d))), (''nodeId'', JStr (dp_nodeID d)),
     (''ready'', JBool (dp_ready d)), (''readyStatus'', JStr (dp_readyStatus d)), (''stale'', JBool (dp_stale d)),
     (''version'', version_json rfc v)]"

definition getStatusSummary :: "(time \<Rightarrow> string) \<Rightarrow> collector option \<Rightarrow> http_response" where
  "getStatusSummary rfc st =
     (case st of None \<Rightarrow> state_unavailable
      | Some c \<Rightarrow> writeJSON 200 (summary_json rfc (ss_version (co_service c)) (co_current c)))"

definition listStatusListeners :: "(time \<Rightarrow> string) \<Rightarrow> collector option \<Rightarrow> http_response" where
  "listStatusListeners rfc = with_state (\<lambda>d. writeStateItems rfc (slice_json listener_json (grown_slice (dp_listeners d))) d)"

definition listStatusClusters :: "(time \<Rightarrow> string) \<Rightarrow> collector option \<Rightarrow> http_response" where
  "listStatusClusters rfc = with_state (\<lambda>d. writeStateItems rfc (slice_json cluster_json (dp_clusters d)) d)"

definition listStatusClusterEndpoints :: "(time \<Rightarrow> string) \<Rightarrow> string \<Rightarrow> collector option \<Rightarrow> http_response" where
  "listStatusClusterEndpoints rfc name = with_state (\<lambda>d.
     case find (\<lambda>c. cl_name c = name) (case dp_clusters d of None \<Rightarrow> [] | Some cs \<Rightarrow> cs) of
       None \<Rightarrow> writeError 404 ''NOT_FOUND'' ''cluster not found''
     | Some c \<Rightarrow> writeStateItems rfc (slice_json endpoint_json (grown_slice (cl_endpoints c))) d)"

definition listStatusRoutes :: "(time \<Rightarrow> string) \<Rightarrow> collector option \<Rightarrow> http_response" where
  "listStatusRoutes rfc = with_state (\<lambda>d. writeStateItems rfc (slice_json route_json (grown_slice (dp_routes d))) d)"

definition listStatusCerts :: "(time \<Rightarrow> string) \<Rightarrow> collector option \<Rightarrow> http_response" where
  "listStatusCerts rfc = with_state (\<lambda>d. writeStateItems rfc (slice_json (cert_json rfc) (dp_certs d)) d)"

record build_info =
  bi_version :: string
  bi_goVersion :: string
  bi_mode :: string
  bi_topology :: string

definition EnvoyMatrixVersions :: "string list" where
  "EnvoyMatrixVersions = [''1.37.5'', ''1.38.3'', ''1.39.0'']"

definition getSystemInfo :: "build_info \<Rightarrow> collector option \<Rightarrow> http_response" where
  "getSystemInfo b = with_state (\<lambda>d. writeJSON 200 (JObj [
     (''envoy'', JObj [(''supportedMinorMax'', JNum 39), (''supportedMinorMin'', JNum 37), (''validationMatrix'', JArr (map JStr EnvoyMatrixVersions)),
        (''version'', JStr (sv_version (dp_envoy d)))]),
     (''goVersion'', JStr (bi_goVersion b)), (''mode'', JStr (bi_mode b)), (''topology'', JStr (bi_topology b)), (''version'', JStr (bi_version b))]))"

text \<open>\<open>envoyPrometheus\<close>: the proxied response, as its status and body; an error becomes one of the gateway.\<close>

definition getEnvoyPrometheusStats :: "(int \<times> string) option \<Rightarrow> http_response + string" where
  "getEnvoyPrometheusStats reply =
     (case reply of
        None \<Rightarrow> Inl (writeError 502 ''UPSTREAM_UNAVAILABLE'' ''Envoy metrics are unavailable'')
      | Some (st, body) \<Rightarrow>
          if 400 \<le> st then Inl (writeError 502 ''UPSTREAM_UNAVAILABLE'' ''Envoy metrics are unavailable'') else Inr body)"

section \<open>The runtime page\<close>

definition owner_view :: "object_ref option \<Rightarrow> view" where
  "owner_view o_ref = (case o_ref of
       Some r \<Rightarrow> if rf_name r \<noteq> [] then Badge tone_neutral [Txt (rf_kind r), Txt ''/'', Txt (rf_name r)] else El ''icon'' [] []
     | None \<Rightarrow> El ''icon'' [] [])"

definition listener_view :: "listener_state \<Rightarrow> view" where
  "listener_view l = El ''div'' [(''key'', li_name l)]
     [El ''p'' [] [Txt (li_name l)], El ''p'' [] [Txt (if li_address l = [] then ''address not reported'' else li_address l)],
      owner_view (li_owner l)]"

definition cluster_view :: "cluster_state \<Rightarrow> view" where
  "cluster_view c = El ''div'' [(''key'', cl_name c)]
     [El ''p'' [] [Txt (cl_name c)], El ''p'' [] [Txt (string_of_nat (length (cl_endpoints c))), Txt '' endpoints''], owner_view (cl_owner c)]"

definition route_view :: "route_state \<Rightarrow> view" where
  "route_view r = El ''div'' [(''key'', rt_name r)]
     [El ''p'' [] [Txt (rt_name r)], El ''p'' [] [Txt (string_of_nat (length (rt_virtualHosts r))), Txt '' virtual hosts''], owner_view (rt_owner r)]"

definition panel_of :: "string \<Rightarrow> view list \<Rightarrow> view" where
  "panel_of title rows = Panel (PanelHeader [El ''p'' [] [Txt ''Observed resources''], El ''h2'' [] [Txt title]] #
     (if rows \<noteq> [] then [El ''div'' [] rows]
      else [EmptyBlock (''No '' @ to_lower title) ''Envoy did not report any resources in this snapshot.'']))"

lemma Owner_member:
  assumes "map_of ps ''owner'' = map_of (owner_member o_ref) ''owner''"
  shows "Owner (JObj ps) = owner_view o_ref"
  using assms
  by (cases o_ref) (auto simp: Owner_def owner_view_def owner_member_def js_get_opt_def ref_json_def asRecord_def
      isRecord_def js_object_simps Let_def)

lemma asRecord_JObj [simp]: "asRecord (JObj ps) = JObj ps"
  by (simp add: asRecord_def isRecord_def)

text \<open>The rows of a panel: each item's name is its key.\<close>

lemma ResourcePanel_rows:
  assumes items: "js_get_opt dat ''items'' = slice_json enc xs"
    and rec: "\<And>x. \<exists>ps. enc x = JObj ps \<and> map_of ps ''name'' = Some (JStr (name x))"
    and row: "\<And>x. El ''div'' [(''key'', name x)] (render (enc x)) = row x"
  shows "ResourcePanel title dat render = panel_of title (map row (case xs of None \<Rightarrow> [] | Some ys \<Rightarrow> ys))"
proof -
  let ?ys = "case xs of None \<Rightarrow> [] | Some ys \<Rightarrow> ys"
  have "asRecord (enc x) = enc x" for x using rec [of x] by auto
  then have its: "map asRecord (js_elems (js_get_opt dat ''items'')) = map enc ?ys"
    by (cases xs) (simp_all add: items slice_json_def)
  have key: "js_string (js_coalesce (js_get_opt (enc x) ''name'') d) = name x" for x d
    using rec [of x] by (auto simp: js_object_simps)
  have "map (\<lambda>(i, item). El ''div'' [(''key'', js_string (js_coalesce (js_get_opt item ''name'') (JNum (int i))))] (render item))
      (enumerate k (map enc ys)) = map row ys" for k ys
    by (induction ys arbitrary: k) (simp_all add: key row)
  then show ?thesis by (simp add: ResourcePanel_def panel_of_def its Let_def)
qed

lemma item_text_hit: "map_of ps k = Some (JStr v) \<Longrightarrow> item_text (JObj ps) (k # ks) d = v"
  by (simp add: item_text_def js_object_simps)

lemma owner_member_name: "map_of (owner_member r) k = None" if "k \<noteq> ''owner''"
  using that by (simp add: owner_member_def split: option.split)

lemma member_if_lookup: "map_of (member_if b k v) j = (if b \<and> j = k then Some v else None)"
  by (simp add: member_if_def)

lemmas row_simps = item_text_def js_object_simps map_add_def owner_member_name member_if_lookup array_length_def

lemma listener_row_view: "El ''div'' [(''key'', li_name l)] (listener_row (listener_json l)) = listener_view l"
proof -
  let ?ps = "(''name'', JStr (li_name l)) # member_if (li_address l \<noteq> []) ''address'' (JStr (li_address l)) @ owner_member (li_owner l)"
  have "Owner (JObj ?ps) = owner_view (li_owner l)"
    by (rule Owner_member) (simp add: map_add_def member_if_lookup split: option.split)
  then show ?thesis by (simp add: listener_row_def listener_json_def listener_view_def row_simps)
qed

lemma cluster_row_view: "El ''div'' [(''key'', cl_name c)] (cluster_row (cluster_json c)) = cluster_view c"
proof -
  let ?ps = "(''name'', JStr (cl_name c)) # owner_member (cl_owner c) @
     member_if (cl_endpoints c \<noteq> []) ''endpoints'' (JArr (map endpoint_json (cl_endpoints c)))"
  have "Owner (JObj ?ps) = owner_view (cl_owner c)"
    by (rule Owner_member) (simp add: map_add_def member_if_lookup split: option.split)
  then show ?thesis by (auto simp: cluster_row_def cluster_json_def cluster_view_def row_simps)
qed

lemma route_row_view: "El ''div'' [(''key'', rt_name r)] (route_row (route_json r)) = route_view r"
proof -
  let ?ps = "(''name'', JStr (rt_name r)) # owner_member (rt_owner r) @
     member_if (rt_virtualHosts r \<noteq> []) ''virtual_hosts'' (JArr (map vhost_json (rt_virtualHosts r)))"
  have "Owner (JObj ?ps) = owner_view (rt_owner r)"
    by (rule Owner_member) (simp add: map_add_def member_if_lookup split: option.split)
  then show ?thesis by (auto simp: route_row_def route_json_def route_view_def row_simps)
qed

lemma state_items_body: "js_get_opt (rs_body (writeStateItems rfc items d)) ''items'' = items"
  by (simp add: writeStateItems_def writeJSON_def js_get_opt_def)

lemma refreshed:
  assumes "refreshLocked L a now c = Some c'" and "ad_clusters a = Some b"
  shows "\<exists>dump. ad_dump a = Some dump \<and> dp_listeners (co_current c') = parseListeners dump \<and>
     dp_routes (co_current c') = parseRoutes dump \<and> dp_clusters (co_current c') = parseClusters b"
  using assms by (auto simp: refreshLocked_def Let_def split: bind_splits)


definition demo_replies :: admin_replies where
  "demo_replies = \<lparr>ad_ready = Some ''LIVE'', ad_serverInfo = Some (Some (JObj [(''version'', JStr ''1.38'')])),
     ad_dump = Some (Some (JObj [(''configs'', JArr [JObj [(''name'', JStr ''lis/web'')], JObj [(''name'', JStr ''other'')]])])),
     ad_clusters = Some (Some (JObj [(''cluster_statuses'', JArr [JObj [(''name'', JStr ''us/api'')]])])),
     ad_certs = Some (Some (JObj [(''certificates'', JArr [JObj [(''name'', JStr ''crt/web/0''), (''days_until_expiration'', JNum 0)]])])),
     ad_stats = None\<rparr>"

definition demo_std :: std_lib where
  "demo_std = \<lparr>std_duration = (\<lambda>_. None), std_time = (\<lambda>_. 0), std_sscan = (\<lambda>_. None)\<rparr>"

definition demo_collected :: collector where
  "demo_collected = the (refreshLocked demo_std demo_replies 100 (new_collector ''n''))"

lemma demo_refresh: "refreshLocked demo_std demo_replies 100 (new_collector ''n'') = Some demo_collected"
proof -
  have "go_unmarshal zero_server (server_decoder demo_std) (Some (JObj [(''version'', JStr ''1.38'')])) \<noteq> None" by code_simp
  then have "refreshLocked demo_std demo_replies 100 (new_collector ''n'') \<noteq> None"
    by (auto simp: refreshLocked_def demo_replies_def Let_def)
  then show ?thesis by (simp add: demo_collected_def)
qed


section \<open>What the pages get wrong\<close>

text \<open>
  A certificate that expires today is shown as healthy.  When the days left are zero, because
  Envoy says so or because less than a day remains, the API leaves the number out, and the row of
  the certificate has the healthy badge and a dash for the days, while a certificate with one to
  twenty-nine days has the warning badge.
\<close>

theorem expiring_certificate_shown_healthy:
  assumes "cs_daysLeft c = 0" and "cs_notAfter c = [] \<or> std_time L (cs_notAfter c) = 0 \<or> \<bar>std_time L (cs_notAfter c) - now\<bar> < 24 * 60 * minute"
    and "0 < d" "d < 30"
  shows "cert_row (cert_json rfc (cert_of L now c)) ! 2 = Badge tone_healthy [Txt em_dash, Txt '' days''] \<and>
     cert_row (cert_json rfc ((cert_of L now c)\<lparr>ce_daysLeft := d\<rparr>)) ! 2 = Badge tone_warning [Txt (string_of_int d), Txt '' days'']"
proof -
  have "ce_daysLeft (cert_of L now c) = 0"
    using assms(1,2) by (auto simp: cert_of_def Let_def whole_days_def)
  then have "days_left (cert_json rfc (cert_of L now c)) x = x" for x
    by (simp add: days_left_def cert_json_def row_simps split: option.split)
  moreover have "days_left (cert_json rfc ((cert_of L now c)\<lparr>ce_daysLeft := d\<rparr>)) x = JNum d" for x
    using assms(3) by (simp add: days_left_def cert_json_def row_simps split: option.split)
  ultimately show ?thesis using assms(3,4) by (simp add: cert_row_def)
qed

theorem expiring_certificate_shown_healthy_witness:
  "cert_row (cert_json (\<lambda>_. []) (cert_of demo_std 100 zero_cert)) ! 2 = Badge tone_healthy [Txt em_dash, Txt '' days'']"
proof -
  have z: "cs_daysLeft zero_cert = 0" "cs_notAfter zero_cert = []" by (simp_all add: zero_cert_def)
  show ?thesis
    using expiring_certificate_shown_healthy [of zero_cert demo_std 100 5 "\<lambda>_. []"] z by simp
qed

text \<open>The states of a collector before its first refresh, which the loop makes after a minute.\<close>

inductive unrefreshed :: "std_lib \<Rightarrow> string \<Rightarrow> collector \<Rightarrow> bool" for L node where
  new: "unrefreshed L node (new_collector node)"
| ready: "unrefreshed L node c \<Longrightarrow> unrefreshed L node (collectReady a now c)"
| stats: "unrefreshed L node c \<Longrightarrow> unrefreshed L node (collectStats L a now c)"
| clusters: "unrefreshed L node c \<Longrightarrow> unrefreshed L node (collectClusters a now c)"
| certs: "unrefreshed L node c \<Longrightarrow> unrefreshed L node (collectCerts L a now c)"

lemmas collect_defs = collectReady_def collectStats_def collectClusters_def collectCerts_def

lemma unrefreshed_state: "unrefreshed L node c \<Longrightarrow> \<not> dp_stale (co_current c) \<and> dp_collectedAt (co_current c) = 0"
  by (induction rule: unrefreshed.induct)
    (simp_all add: new_collector_def zero_state_def collect_defs Let_def split: option.split)

text \<open>
  A state that was never collected is presented as current.  Before the first refresh, whatever
  the other collectors have seen, also when no request was ever answered, the summary is not marked
  stale and has the zero time as its time of collection, and the overview tells the operator that
  the state collection is current and no intervention is required.
\<close>

theorem uncollected_state_presented_current:
  assumes fetch: "fetch_laws wrap" and st: "unrefreshed L node c"
  shows "\<exists>s v. unwrap (wrap (getStatusSummary rfc (Some c))) = Inr s \<and> js_get_opt s ''collectedAt'' = JStr (rfc 0) \<and>
     js_get_opt s ''stale'' = JBool False \<and> OverviewPage fmt (QSuccess s) (QSuccess (JObj ps)) = Some v \<and>
     {''State collection current'', ''No collector intervention required.''} \<subseteq> set (texts v)"
proof -
  let ?s = "summary_json rfc (ss_version (co_service c)) (co_current c)"
  have u: "unwrap (wrap (getStatusSummary rfc (Some c))) = Inr ?s"
    using unwrap_fetch(1) [OF fetch, of "getStatusSummary rfc (Some c)"]
    by (simp add: getStatusSummary_def writeJSON_def response_ok_def)
  have f: "js_get_opt ?s ''collectedAt'' = JStr (rfc 0)" "js_get_opt ?s ''stale'' = JBool False"
    using unrefreshed_state [OF st] by (simp_all add: summary_json_def js_get_opt_def)
  have st: "field_true ?s ''stale'' = Some False" using unrefreshed_state [OF st] by (simp add: field_true_def summary_json_def)
  have typed: "query_typed (TObject [] True) (QSuccess ?s)" "query_typed (TObject [] True) (QSuccess (JObj ps))"
    by (simp_all add: query_typed_def summary_json_def)
  obtain v where v: "OverviewPage fmt (QSuccess ?s) (QSuccess (JObj ps)) = Some v"
    using overview_total [OF typed] by blast
  have "{''State collection current'', ''No collector intervention required.''} \<subseteq> set (texts v)"
    using v st by (auto simp: OverviewPage_def overview_queue_def kit_defs QueueItem_def Let_def split: bind_splits)
  with u f v show ?thesis by blast
qed

theorem uncollected_state_presented_current_witness:
  "\<exists>s v. unwrap (demo_fetch (getStatusSummary (\<lambda>_. ''0001'') (Some (new_collector ''n'')))) = Inr s \<and>
     OverviewPage (\<lambda>_. None) (QSuccess s) (QSuccess (JObj [])) = Some v \<and> ''State collection current'' \<in> set (texts v)"
  using uncollected_state_presented_current [OF demo_fetch_laws unrefreshed.new, of "\<lambda>_. ''0001''" _ "\<lambda>_. None" "[]"] by blast

text \<open>
  One host the collector cannot read hides every cluster.  If the health status of any host in the
  cluster status is not a text but an object, which is the form Envoy's own message has, the whole
  answer fails to decode.  A refresh with it still succeeds and is not stale, but the clusters are
  gone from the list and the summary counts none.
\<close>

theorem unreadable_host_hides_clusters:
  assumes ref: "refreshLocked L a now c = Some c'" and body: "ad_clusters a = Some (Some (JObj ps))"
    and doc: "(''cluster_statuses'', JArr cs) \<in> set ps" "JObj cps \<in> set cs" "(''host_statuses'', JArr hs) \<in> set cps"
      "JObj hps \<in> set hs" "(''health_status'', JObj health) \<in> set hps"
  shows "rs_body (listStatusClusters rfc (Some c')) =
      JObj [(''collectedAt'', JStr (rfc now)), (''items'', JNull), (''stale'', JBool False)] \<and>
    js_get_opt (js_get_opt (rs_body (getStatusSummary rfc (Some c'))) ''counts'') ''clusters'' = JNum 0"
proof -
  have "go_field go_text [] ''health_status'' hps = None" by (rule go_field_fails [OF doc(5)]) simp_all
  then have "host_decoder (JObj hps) = None"
    by (auto simp: host_decoder_def bind_eq_None_conv split: bind_splits)
  then have "go_slice zero_host host_decoder (JArr hs) = None" by (intro go_slice_fails [OF doc(4)]) simp_all
  then have "go_field (go_slice zero_host host_decoder) [] ''host_statuses'' cps = None"
    by (intro go_field_fails [OF doc(3)]) simp_all
  then have "cluster_decoder (JObj cps) = None" by (auto simp: cluster_decoder_def split: bind_splits)
  then have "go_slice ([], []) cluster_decoder (JArr cs) = None" by (intro go_slice_fails [OF doc(2)]) simp_all
  then have "go_field (go_slice ([], []) cluster_decoder) [] ''cluster_statuses'' ps = None"
    by (intro go_field_fails [OF doc(1)]) simp_all
  then have "parseClusters (Some (JObj ps)) = None" by (simp add: parseClusters_def clusters_doc_def go_unmarshal_def)
  then have "dp_clusters (co_current c') = None" "\<not> dp_stale (co_current c')" "dp_collectedAt (co_current c') = now"
    using ref body by (auto simp: refreshLocked_def Let_def split: bind_splits)
  then show ?thesis
    by (simp add: listStatusClusters_def getStatusSummary_def with_state_def writeStateItems_def writeJSON_def slice_json_def
        summary_json_def list_length_def js_get_opt_def)
qed

definition object_health :: admin_replies where
  "object_health = demo_replies\<lparr>ad_clusters := Some (Some (JObj [(''cluster_statuses'', JArr [JObj [(''name'', JStr ''us/api''),
     (''host_statuses'', JArr [JObj [(''health_status'', JObj [(''eds_health_status'', JStr ''HEALTHY'')])]])]])]))\<rparr>"

theorem unreadable_host_hides_clusters_witness:
  "\<exists>c'. refreshLocked demo_std object_health 100 (new_collector ''n'') = Some c' \<and>
     rs_body (listStatusClusters (\<lambda>_. []) (Some c')) = JObj [(''collectedAt'', JStr []), (''items'', JNull), (''stale'', JBool False)]"
proof -
  have "go_unmarshal zero_server (server_decoder demo_std) (Some (JObj [(''version'', JStr ''1.38'')])) \<noteq> None" by code_simp
  then obtain c' where c': "refreshLocked demo_std object_health 100 (new_collector ''n'') = Some c'"
    by (auto simp: refreshLocked_def object_health_def demo_replies_def Let_def)
  have a: "ad_clusters object_health = Some (Some (JObj [(''cluster_statuses'', JArr [JObj [(''name'', JStr ''us/api''),
     (''host_statuses'', JArr [JObj [(''health_status'', JObj [(''eds_health_status'', JStr ''HEALTHY'')])]])]])]))"
    by (simp add: object_health_def)
  from unreadable_host_hides_clusters [OF c' a list.set_intros(1) list.set_intros(1)
      list.set_intros(2) [OF list.set_intros(1)] list.set_intros(1) list.set_intros(1), of "\<lambda>_. []"] c'
  show ?thesis by blast
qed

section \<open>Health\<close>

text \<open>The health of an endpoint is one of five words, and a host is called healthy only when its status
  says so.\<close>

lemma normal_health_values: "normal_health raw \<in> {''UNKNOWN'', ''HEALTHY'', ''UNHEALTHY'', ''DRAINING'', ''TIMEOUT''}"
  by (auto simp: normal_health_def Let_def)

lemma normal_health_sound:
  assumes "normal_health raw = ''HEALTHY''"
  shows "str_includes (to_upper raw) ''HEALTHY'' \<and> \<not> str_includes (to_upper raw) ''UNHEALTHY''"
proof -
  have "str_includes ''HEALTHY'' ''HEALTHY''" "\<not> str_includes ''HEALTHY'' ''UNHEALTHY''" by code_simp+
  with assms show ?thesis by (auto simp: normal_health_def Let_def split: if_splits)
qed

interpretation state_wire: wire_type "TObject [] True" "\<lambda>(v, d). summary_json rfc v d" "\<lambda>_. True" for rfc
  by unfold_locales (auto simp: summary_json_def)

end
