(* ===== verification/Supervisor.thy ===== *)
theory Supervisor
  imports Backoff
begin

text \<open>
  The supervisor of a managed Envoy (\<open>internal/proc/supervisor.go\<close>, \<open>record.go\<close>): adoption and start,
  the monitor of a process, hot restarts with their epochs, and the record on disk.

  The operating system and the probe are parameters: each call says what starting a process, signals,
  saving the record and the observations of Envoy gave.  Details of events and of the status, and the
  fields of the record that repeat the configuration, are left out.  A started process has a handle of its own, which stands for the
  identity of the Go value, beside its PID.  Waiting for a new process at the start and in the
  monitor blocks nothing that changes the state, so these operations are one step; a hot restart is
  two, since the parent can exit while the child is awaited.
\<close>

section \<open>State\<close>

record proc_record =
  rc_pid :: int
  rc_epoch :: int
  rc_nextEpoch :: int
  rc_startedAt :: time
  rc_state :: string

record sup_status =
  st_state :: string
  st_pid :: int
  st_epoch :: int

record process =
  ph_id :: nat
  ph_pid :: int

record hot_restart =
  hr_child :: process
  hr_epoch :: int
  hr_record :: proc_record
  hr_started :: time

record sup_event =
  se_kind :: string
  se_pid :: int
  se_epochs :: int

record supervisor =
  su_record :: "proc_record option"
  su_status :: sup_status
  su_current :: "process option"
  su_running :: bool
  su_closed :: bool
  su_restarting :: bool
  su_hot :: "hot_restart option"
  su_monitors :: "(process \<times> int \<times> time) list"
  su_timer :: "time option"
  su_backoff :: backoff
  su_events :: "sup_event list"
  su_serial :: nat
  su_alive :: "process list"
  su_epochs :: "int list"

text \<open>The last three fields are the world around the supervisor: the number of processes started so
  far, those alive, and the epochs started since the last start from epoch zero.\<close>

definition emit :: "string \<Rightarrow> int \<Rightarrow> int \<Rightarrow> supervisor \<Rightarrow> supervisor" where
  "emit kind pid epoch s =
     s\<lparr>su_events := (if length (su_events s) < 32 then su_events s @ [\<lparr>se_kind = kind, se_pid = pid, se_epochs = epoch\<rparr>] else su_events s)\<rparr>"

definition setStatus :: "string \<Rightarrow> int \<Rightarrow> int \<Rightarrow> supervisor \<Rightarrow> supervisor" where
  "setStatus state pid epoch s = s\<lparr>su_status := \<lparr>st_state = state, st_pid = pid, st_epoch = epoch\<rparr>\<rparr>"

definition setCurrent :: "process \<Rightarrow> int \<Rightarrow> string \<Rightarrow> supervisor \<Rightarrow> supervisor" where
  "setCurrent p epoch state s = (setStatus state (ph_pid p) epoch s)\<lparr>su_current := Some p\<rparr>"

definition degrade :: "supervisor \<Rightarrow> supervisor" where
  "degrade s = emit ''Degraded'' 0 0 (setStatus ''degraded'' 0 0 s)"

definition kill :: "process \<Rightarrow> supervisor \<Rightarrow> supervisor" where
  "kill p s = s\<lparr>su_alive := removeAll p (su_alive s)\<rparr>"

section \<open>The record\<close>

text \<open>Saving replaces the file or not; when only the directory could not be synced, it did and still
  reports an error.\<close>

datatype save_result = Saved | Unsaved string | Unsynced string

definition Save :: "save_result \<Rightarrow> proc_record \<Rightarrow> supervisor \<Rightarrow> string option \<times> supervisor" where
  "Save res r s =
     (case res of
        Saved \<Rightarrow> (None, s\<lparr>su_record := Some r\<rparr>)
      | Unsaved e \<Rightarrow> (Some e, s)
      | Unsynced e \<Rightarrow> (Some e, s\<lparr>su_record := Some r\<rparr>))"

datatype load_result = NoRecord | LoadFails string | Loaded proc_record

definition Load :: "string option \<Rightarrow> supervisor \<Rightarrow> load_result" where
  "Load fault s =
     (case fault of Some e \<Rightarrow> LoadFails e
      | None \<Rightarrow>
        (case su_record s of
           None \<Rightarrow> NoRecord
         | Some r \<Rightarrow>
             if rc_pid r \<le> 0 \<or> rc_epoch r < 0 then LoadFails ''proc: invalid process record''
             else if rc_nextEpoch r \<le> rc_epoch r then Loaded (r\<lparr>rc_nextEpoch := rc_epoch r + 1\<rparr>) else Loaded r))"

section \<open>The operating system\<close>

text \<open>A wait polls the probe until the epoch is observed ready or something other than the ticker wakes
  it: the context, the exit of the process, or the timer, which always comes.\<close>

datatype wake = ContextDone string | ProcessExited "string option" | LiveTimeout string

record waiting =
  wt_ticks :: "(string + bool \<times> int) list"
  wt_last :: "string + bool \<times> int"
  wt_wake :: wake

definition observed_epoch :: "int \<Rightarrow> string + bool \<times> int \<Rightarrow> bool" where
  "observed_epoch epoch ob = (case ob of Inl e \<Rightarrow> False | Inr (ready, ep) \<Rightarrow> ready \<and> ep = epoch)"

definition observation_text :: "string + bool \<times> int \<Rightarrow> string" where
  "observation_text ob =
     (case ob of Inl e \<Rightarrow> e | Inr (ready, ep) \<Rightarrow> ''ready='' @ (if ready then ''true'' else ''false'') @ '' epoch='' @ string_of_int ep)"

fun polls :: "int \<Rightarrow> (string + bool \<times> int) list \<Rightarrow> string + bool \<times> int \<Rightarrow> wake \<Rightarrow> string option" where
  "polls epoch (ob # obs) lst w = (if observed_epoch epoch ob then None else polls epoch obs lst w)"
| "polls epoch [] lst w =
     (if observed_epoch epoch lst then None
      else case w of
          ContextDone e \<Rightarrow> Some e
        | ProcessExited (Some e) \<Rightarrow> Some (''exited with '' @ e)
        | ProcessExited None \<Rightarrow> Some ''process exited before readiness''
        | LiveTimeout limit \<Rightarrow>
            Some (''LIVE epoch '' @ string_of_int epoch @ '' not observed within '' @ limit @ '' (last: '' @ observation_text lst @ '')''))"

definition waitForEpoch :: "int \<Rightarrow> waiting \<Rightarrow> string option" where
  "waitForEpoch epoch w = polls epoch (wt_ticks w) (wt_last w) (wt_wake w)"

lemma polls_ready: "polls epoch obs lst w = None \<longleftrightarrow> (\<exists>ob \<in> set (obs @ [lst]). observed_epoch epoch ob)"
  by (induction epoch obs lst w rule: polls.induct) (auto split: wake.splits option.splits)

text \<open>Signal zero, the links of both executables and their files tell whether a PID is the recorded one.\<close>

datatype signal_result = Delivered | NoProcess | NotPermitted | SignalFails string

record identity_env =
  id_signal :: signal_result
  id_actual :: "string + string"
  id_expected :: "string + string"
  id_stat :: "string \<Rightarrow> string + nat"

definition processIdentity :: "int \<Rightarrow> identity_env \<Rightarrow> (bool \<times> bool) \<times> string option" where
  "processIdentity pid v =
     (if pid \<le> 0 then ((False, False), None)
      else case id_signal v of
          NoProcess \<Rightarrow> ((False, False), None)
        | SignalFails e \<Rightarrow> ((False, False), Some e)
        | _ \<Rightarrow>
          (case id_actual v of Inl e \<Rightarrow> ((True, False), Some e)
           | Inr actual \<Rightarrow>
             (case id_expected v of Inl e \<Rightarrow> ((True, False), Some e)
              | Inr expected \<Rightarrow>
                (case id_stat v actual of Inl e \<Rightarrow> ((True, False), Some e)
                 | Inr f \<Rightarrow>
                   (case id_stat v expected of Inl e \<Rightarrow> ((True, False), Some e)
                    | Inr g \<Rightarrow> ((True, f = g), None))))))"

datatype stop_wake = StopCancelled string | StopDeadline signal_result

record stop_env =
  ss_term :: signal_result
  ss_polls :: "identity_env list"
  ss_wake :: stop_wake

definition signal_error :: "signal_result \<Rightarrow> string option" where
  "signal_error r =
     (case r of Delivered \<Rightarrow> None | NoProcess \<Rightarrow> Some ''no such process'' | NotPermitted \<Rightarrow> Some ''operation not permitted'' | SignalFails e \<Rightarrow> Some e)"

definition stopVerifiedPID :: "int \<Rightarrow> stop_env \<Rightarrow> string option" where
  "stopVerifiedPID pid v =
     (if ss_term v \<noteq> NoProcess \<and> ss_term v \<noteq> Delivered then signal_error (ss_term v)
      else if \<exists>i \<in> set (ss_polls v). processIdentity pid i = ((False, False), None) then None
      else case ss_wake v of StopCancelled e \<Rightarrow> Some e | StopDeadline r \<Rightarrow> signal_error r)"

section \<open>Starting a process\<close>

record spawn_env =
  sp_start :: "string + int"
  sp_now :: time
  sp_save :: save_result
  sp_wait :: waiting
  sp_saveRunning :: save_result

text \<open>\<open>runner.Start\<close> gives a new handle; a start from epoch zero begins a new line of epochs.\<close>

definition run_process :: "int \<Rightarrow> int \<Rightarrow> supervisor \<Rightarrow> process \<times> supervisor" where
  "run_process pid epoch s =
     (let p = \<lparr>ph_id = su_serial s, ph_pid = pid\<rparr> in
      (p, s\<lparr>su_serial := Suc (su_serial s), su_alive := p # su_alive s,
            su_epochs := (if epoch = 0 then [0] else epoch # su_epochs s)\<rparr>))"

definition spawnAndWait :: "spawn_env \<Rightarrow> int \<Rightarrow> supervisor \<Rightarrow> string option \<times> supervisor" where
  "spawnAndWait v epoch s0 =
     (case sp_start v of
        Inl e \<Rightarrow> (Some e, s0)
      | Inr pid \<Rightarrow>
          let (p, s1) = run_process pid epoch s0;
              r = \<lparr>rc_pid = pid, rc_epoch = epoch, rc_nextEpoch = epoch + 1, rc_startedAt = sp_now v, rc_state = ''starting''\<rparr>
          in (case Save (sp_save v) r s1 of
                (Some e, s2) \<Rightarrow> (Some e, kill p s2)
              | (None, s2) \<Rightarrow>
                  let s3 = setCurrent p epoch ''starting'' s2 in
                  (case waitForEpoch epoch (sp_wait v) of
                     Some e \<Rightarrow> (Some (''proc: Envoy epoch '' @ string_of_int epoch @ '' failed readiness: '' @ e), kill p s3)
                   | None \<Rightarrow>
                       (case Save (sp_saveRunning v) (r\<lparr>rc_state := ''running''\<rparr>) s3 of
                          (Some e, s4) \<Rightarrow> (Some e, kill p s4)
                        | (None, s4) \<Rightarrow>
                            let s5 = emit ''Started'' pid epoch (setCurrent p epoch ''running'' s4) in
                            (None, s5\<lparr>su_monitors := (p, epoch, sp_now v) # su_monitors s5\<rparr>)))))"

record start_env =
  sa_load :: "string option"
  sa_identity :: identity_env
  sa_wait :: waiting
  sa_keep :: bool
  sa_save :: save_result
  sa_stop :: stop_env
  sa_spawn :: spawn_env

text \<open>\<open>Start\<close>: the record's process is adopted when it runs the same binary and its epoch is live; with
  the policy \<open>keep\<close> it is never stopped.\<close>

definition Start :: "start_env \<Rightarrow> supervisor \<Rightarrow> string option \<times> supervisor" where
  "Start v s0 =
     (if su_running s0 then (Some ''proc: supervisor already started'', s0)
      else
        let s = s0\<lparr>su_running := True\<rparr> in
        (case Load (sa_load v) s of
           LoadFails e \<Rightarrow> (Some (''proc: load adoption record: '' @ e), s)
         | NoRecord \<Rightarrow> spawnAndWait (sa_spawn v) 0 s
         | Loaded r \<Rightarrow>
             (case processIdentity (rc_pid r) (sa_identity v) of
                (_, Some e) \<Rightarrow> (None, degrade s)
              | ((alive, same), None) \<Rightarrow>
                  if alive \<and> same then
                    (case waitForEpoch (rc_epoch r) (sa_wait v) of
                       None \<Rightarrow>
                         (None, emit ''Adopted'' (rc_pid r) (rc_epoch r)
                            (snd (Save (sa_save v) (r\<lparr>rc_state := ''running''\<rparr>) (setStatus ''running'' (rc_pid r) (rc_epoch r) s))))
                     | Some e \<Rightarrow>
                         if sa_keep v then (None, degrade s)
                         else (case stopVerifiedPID (rc_pid r) (sa_stop v) of
                                 Some m \<Rightarrow> (None, degrade s)
                               | None \<Rightarrow>
                                   spawnAndWait (sa_spawn v) 0 (s\<lparr>su_alive := filter (\<lambda>p. ph_pid p \<noteq> rc_pid r) (su_alive s)\<rparr>)))
                  else spawnAndWait (sa_spawn v) 0 s)))"

section \<open>Monitoring\<close>

text \<open>\<open>monitor\<close>, when the process it waits for has exited, up to the timer it may set.\<close>

definition monitor :: "process \<times> int \<times> time \<Rightarrow> time \<Rightarrow> supervisor \<Rightarrow> supervisor" where
  "monitor m at s0 =
     (case m of (p, epoch, started) \<Rightarrow>
        let s = s0\<lparr>su_monitors := removeAll m (su_monitors s0)\<rparr> in
        if su_closed s \<or> su_current s \<noteq> Some p then s
        else if su_restarting s then emit ''ParentExited'' (ph_pid p) epoch (s\<lparr>su_current := None\<rparr>)
        else
          (case Failure at (at - started) (su_backoff s) of
             ((delay, degraded), b) \<Rightarrow>
               let s1 = emit ''Exited'' (ph_pid p) epoch (s\<lparr>su_current := None, su_backoff := b\<rparr>) in
               if degraded \<or> epoch \<noteq> 0 then degrade s1
               else (setStatus ''backoff'' (ph_pid p) epoch s1)\<lparr>su_timer := Some delay\<rparr>))"

text \<open>The rest of \<open>monitor\<close>, when the timer fires; a closed supervisor has cancelled it.\<close>

definition timer_fires :: "spawn_env \<Rightarrow> supervisor \<Rightarrow> supervisor" where
  "timer_fires v s =
     (if su_timer s = None \<or> su_closed s then s\<lparr>su_timer := None\<rparr>
      else case spawnAndWait v 0 (s\<lparr>su_timer := None\<rparr>) of
          (None, s') \<Rightarrow> s'
        | (Some e, s') \<Rightarrow> degrade s')"

section \<open>Hot restart\<close>

record hot_env =
  ho_load :: "string option"
  ho_save :: save_result
  ho_start :: "string + int"
  ho_now :: time

definition HotRestart_begin :: "hot_env \<Rightarrow> supervisor \<Rightarrow> string option \<times> supervisor" where
  "HotRestart_begin v s =
     (if su_closed s \<or> \<not> su_running s then (Some ''proc: supervisor is not running'', s)
      else if su_restarting s then (Some ''proc: hot restart already in progress'', s)
      else if st_state (su_status s) \<noteq> ''running''
      then (Some (''proc: cannot hot restart while supervisor is '' @ st_state (su_status s)), s)
      else
        (case Load (ho_load v) s of
           LoadFails e \<Rightarrow> (Some (''proc: load epoch record: '' @ e), s)
         | NoRecord \<Rightarrow> (Some ''proc: load epoch record: proc: no process record'', s)
         | Loaded r \<Rightarrow>
             let epoch = rc_nextEpoch r; r1 = r\<lparr>rc_nextEpoch := epoch + 1, rc_state := ''restarting''\<rparr> in
             (case Save (ho_save v) r1 s of
                (Some e, s1) \<Rightarrow> (Some e, s1)
              | (None, s1) \<Rightarrow>
                  (case ho_start v of
                     Inl e \<Rightarrow> (Some (''proc: hot restart epoch '' @ string_of_int epoch @ '': '' @ e), s1)
                   | Inr pid \<Rightarrow>
                       (case run_process pid epoch s1 of
                          (p, s2) \<Rightarrow> (None, s2\<lparr>su_restarting := True,
                             su_hot := Some \<lparr>hr_child = p, hr_epoch = epoch, hr_record = r1, hr_started = ho_now v\<rparr>\<rparr>))))))"

record wait_env =
  wa_wait :: waiting
  wa_save :: save_result

definition HotRestart_end :: "wait_env \<Rightarrow> supervisor \<Rightarrow> string option \<times> supervisor" where
  "HotRestart_end v s0 =
     (case su_hot s0 of
        None \<Rightarrow> (None, s0)
      | Some h \<Rightarrow>
          let s = s0\<lparr>su_hot := None, su_restarting := False\<rparr>; p = hr_child h; epoch = hr_epoch h; r = hr_record h in
          (case waitForEpoch epoch (wa_wait v) of
             Some e \<Rightarrow>
               (Some (''proc: hot restart: epoch '' @ string_of_int epoch @ '' failed: '' @ e),
                emit ''HotRestartFailed'' (ph_pid p) epoch (snd (Save (wa_save v) (r\<lparr>rc_state := ''running''\<rparr>) (kill p s))))
           | None \<Rightarrow>
               (case Save (wa_save v) (r\<lparr>rc_pid := ph_pid p, rc_epoch := epoch, rc_startedAt := hr_started h, rc_state := ''running''\<rparr>) s of
                  (Some e, s1) \<Rightarrow> (Some e, kill p s1)
                | (None, s1) \<Rightarrow>
                    let s2 = emit ''HotRestarted'' (ph_pid p) epoch (setCurrent p epoch ''running'' s1) in
                    (None, s2\<lparr>su_monitors := (p, epoch, hr_started h) # su_monitors s2\<rparr>))))"

definition Close :: "supervisor \<Rightarrow> supervisor" where
  "Close s = s\<lparr>su_closed := True\<rparr>"

definition NewSupervisor :: "backoff \<Rightarrow> supervisor" where
  "NewSupervisor b = \<lparr>su_record = None, su_status = \<lparr>st_state = ''idle'', st_pid = 0, st_epoch = 0\<rparr>, su_current = None,
     su_running = False, su_closed = False, su_restarting = False, su_hot = None, su_monitors = [], su_timer = None,
     su_backoff = b, su_events = [], su_serial = 0, su_alive = [], su_epochs = []\<rparr>"

text \<open>A new management process: the record and the processes outlive the old one.\<close>

definition restarted_server :: "backoff \<Rightarrow> supervisor \<Rightarrow> supervisor" where
  "restarted_server b s = (NewSupervisor b)\<lparr>su_record := su_record s, su_serial := su_serial s, su_alive := su_alive s, su_epochs := su_epochs s\<rparr>"

section \<open>Steps\<close>

text \<open>What happens without an operator: a process exits, a monitor notices, a timer fires, events are
  read, monitoring is detached.\<close>

inductive quiet_step :: "supervisor \<Rightarrow> supervisor \<Rightarrow> bool" where
  exits: "p \<in> set (su_alive s) \<Longrightarrow> quiet_step s (kill p s)"
| notices: "m \<in> set (su_monitors s) \<Longrightarrow> fst m \<notin> set (su_alive s) \<Longrightarrow> quiet_step s (monitor m at s)"
| fires: "quiet_step s (timer_fires v s)"
| reads: "quiet_step s (s\<lparr>su_events := tl (su_events s)\<rparr>)"
| closes: "quiet_step s (Close s)"

inductive sup_step :: "supervisor \<Rightarrow> supervisor \<Rightarrow> bool" where
  quiet: "quiet_step s s' \<Longrightarrow> sup_step s s'"
| start: "sup_step s (snd (Start v s))"
| hot_begin: "sup_step s (snd (HotRestart_begin v s))"
| hot_end: "sup_step s (snd (HotRestart_end v s))"
| new_server: "sup_step s (restarted_server b s)"

inductive sup_reachable :: "supervisor \<Rightarrow> bool" where
  new: "sup_reachable (NewSupervisor b)"
| step: "sup_reachable s \<Longrightarrow> sup_step s s' \<Longrightarrow> sup_reachable s'"

section \<open>Invariants\<close>

text \<open>The epochs started since the last start from zero are all below the next one on record, also
  below the one a pending hot restart will put there.\<close>

definition reserves :: "proc_record \<Rightarrow> supervisor \<Rightarrow> bool" where
  "reserves r s = (0 \<le> rc_epoch r \<and> rc_epoch r < rc_nextEpoch r \<and> (\<forall>e \<in> set (su_epochs s). e < rc_nextEpoch r))"

definition epochs_reserved :: "supervisor \<Rightarrow> bool" where
  "epochs_reserved s =
     ((\<forall>r. su_record s = Some r \<longrightarrow> reserves r s) \<and>
      (\<forall>h. su_hot s = Some h \<longrightarrow> reserves (hr_record h) s \<and> 0 \<le> hr_epoch h \<and> hr_epoch h < rc_nextEpoch (hr_record h)))"

text \<open>A process the supervisor owns and reports running has a monitor that will notice its exit.\<close>

definition watched :: "supervisor \<Rightarrow> bool" where
  "watched s =
     ((\<not> su_running s \<longrightarrow> su_current s = None \<and> su_timer s = None) \<and>
      (\<forall>p. su_current s = Some p \<and> st_state (su_status s) = ''running'' \<and> \<not> su_closed s \<longrightarrow>
         (\<exists>t. (p, st_epoch (su_status s), t) \<in> set (su_monitors s))))"

lemmas sup_defs = emit_def setStatus_def setCurrent_def degrade_def kill_def run_process_def Close_def

lemmas kept_defs = epochs_reserved_def reserves_def watched_def sup_defs

lemma Load_reserved: "epochs_reserved s \<Longrightarrow> Load f s = Loaded r \<Longrightarrow> su_record s = Some r \<and> reserves r s"
  by (fastforce simp: Load_def epochs_reserved_def reserves_def split: option.splits if_splits)

lemma spawnAndWait_reserved: "epochs_reserved s \<Longrightarrow> epochs_reserved (snd (spawnAndWait v 0 s))"
  by (cases "sp_save v"; cases "sp_saveRunning v"; fastforce simp: spawnAndWait_def Let_def Save_def kept_defs split: sum.splits option.splits)

lemma spawnAndWait_watched: "watched s \<Longrightarrow> su_running s \<Longrightarrow> watched (snd (spawnAndWait v e s))"
  by (cases "sp_save v"; cases "sp_saveRunning v"; fastforce simp: spawnAndWait_def Let_def Save_def kept_defs split: sum.splits option.splits)

lemma Start_reserved: "epochs_reserved s \<Longrightarrow> epochs_reserved (snd (Start v s))"
proof -
  assume inv: "epochs_reserved s"
  then have started: "epochs_reserved (s\<lparr>su_running := True\<rparr>)" by (simp add: kept_defs)
  then have stopped: "epochs_reserved (s\<lparr>su_running := True, su_alive := a\<rparr>)" for a by (simp add: kept_defs)
  have adopted: "epochs_reserved (emit k i e (snd (Save w (r\<lparr>rc_state := x\<rparr>) (setStatus y i e (s\<lparr>su_running := True\<rparr>)))))"
    if "Load f (s\<lparr>su_running := True\<rparr>) = Loaded r" for f r k i e w x y
    using Load_reserved [OF started that] started by (cases w) (auto simp: Save_def kept_defs)
  have degraded: "epochs_reserved (degrade (s\<lparr>su_running := True\<rparr>))" using started by (simp add: kept_defs)
  show ?thesis
    using inv by (auto simp: Start_def Let_def started stopped adopted degraded spawnAndWait_reserved split: load_result.splits sum.splits option.splits prod.splits)
qed

lemma Start_watched: "watched s \<Longrightarrow> watched (snd (Start v s))"
proof -
  assume inv: "watched s"
  then have started: "watched (s\<lparr>su_running := True\<rparr>)" by (simp add: kept_defs)
  then have stopped: "watched (s\<lparr>su_running := True, su_alive := a\<rparr>)" for a by (simp add: kept_defs)
  have adopted: "\<not> su_running s \<Longrightarrow> watched (emit k i e (snd (Save w r (setStatus y i e (s\<lparr>su_running := True\<rparr>)))))" for k i e w r y
    using inv by (cases w) (auto simp: Save_def kept_defs)
  have degraded: "watched (degrade (s\<lparr>su_running := True\<rparr>))" using started by (simp add: kept_defs)
  show ?thesis
    using inv by (auto simp: Start_def Let_def started stopped adopted degraded spawnAndWait_watched split: load_result.splits sum.splits option.splits prod.splits)
qed

text \<open>A hot restart does nothing, or it reserves the next epoch on record, and then perhaps starts it.\<close>

definition reserved_record :: "proc_record \<Rightarrow> proc_record" where
  "reserved_record r = r\<lparr>rc_nextEpoch := rc_nextEpoch r + 1, rc_state := ''restarting''\<rparr>"

definition child_started :: "int \<Rightarrow> time \<Rightarrow> proc_record \<Rightarrow> supervisor \<Rightarrow> supervisor" where
  "child_started pid at r s =
     (let ps = run_process pid (rc_nextEpoch r) (s\<lparr>su_record := Some (reserved_record r)\<rparr>)
      in (snd ps)\<lparr>su_restarting := True,
           su_hot := Some \<lparr>hr_child = fst ps, hr_epoch = rc_nextEpoch r, hr_record = reserved_record r, hr_started = at\<rparr>\<rparr>)"

lemma HotRestart_begin_cases:
  obtains (unchanged) e where "HotRestart_begin v s = (Some e, s)"
  | (reserved) e r where "Load (ho_load v) s = Loaded r" "HotRestart_begin v s = (Some e, s\<lparr>su_record := Some (reserved_record r)\<rparr>)"
  | (started) r pid where "Load (ho_load v) s = Loaded r" "ho_start v = Inr pid" "st_state (su_status s) = ''running''"
      "su_running s" "\<not> su_restarting s" "HotRestart_begin v s = (None, child_started pid (ho_now v) r s)"
proof (cases "su_closed s \<or> \<not> su_running s \<or> su_restarting s \<or> st_state (su_status s) \<noteq> ''running''")
  case True
  then have "\<exists>e. HotRestart_begin v s = (Some e, s)" by (auto simp: HotRestart_begin_def)
  then show ?thesis by (blast intro: unchanged)
next
  case go: False
  show ?thesis
  proof (cases "Load (ho_load v) s")
    case (Loaded r)
    with go show ?thesis
      by (cases "ho_save v"; cases "ho_start v")
        (auto simp: HotRestart_begin_def Save_def Let_def reserved_record_def [symmetric] child_started_def
           split: prod.splits intro: unchanged reserved started)
  qed (use go in \<open>auto simp: HotRestart_begin_def intro: unchanged\<close>)
qed

lemma reserved_next: "reserves r s \<Longrightarrow> reserves (reserved_record r) s"
  by (auto simp: reserves_def reserved_record_def)

lemma child_started_reserved: "epochs_reserved s \<Longrightarrow> reserves r s \<Longrightarrow> epochs_reserved (child_started pid at r s)"
  by (auto simp: epochs_reserved_def reserves_def child_started_def reserved_record_def run_process_def Let_def)

lemma begin_reserved: "epochs_reserved s \<Longrightarrow> epochs_reserved (snd (HotRestart_begin v s))"
proof (cases v s rule: HotRestart_begin_cases)
  case (reserved e r)
  assume inv: "epochs_reserved s"
  with reserved(1) have "reserves (reserved_record r) s" by (blast dest: Load_reserved reserved_next)
  with inv reserved(2) show ?thesis by (simp add: epochs_reserved_def reserves_def)
next
  case (started r pid)
  assume inv: "epochs_reserved s"
  with started(1) have "reserves r s" by (blast dest: Load_reserved)
  with inv started(6) show ?thesis by (simp add: child_started_reserved)
qed simp

lemma begin_watched: "watched s \<Longrightarrow> watched (snd (HotRestart_begin v s))"
  by (cases v s rule: HotRestart_begin_cases) (auto simp: kept_defs child_started_def Let_def)

lemma end_reserved: "epochs_reserved s \<Longrightarrow> epochs_reserved (snd (HotRestart_end v s))"
  by (cases "wa_save v"; fastforce simp: HotRestart_end_def Let_def Save_def kept_defs split: option.splits)

lemma monitor_reserved: "epochs_reserved s \<Longrightarrow> epochs_reserved (monitor m at s)"
  by (auto simp: monitor_def Let_def kept_defs split: prod.splits)

lemma monitor_watched: "watched s \<Longrightarrow> watched (monitor m at s)"
  by (auto simp: monitor_def Let_def kept_defs split: prod.splits)

lemma fires_reserved: "epochs_reserved s \<Longrightarrow> epochs_reserved (timer_fires v s)"
  using spawnAndWait_reserved [of "s\<lparr>su_timer := None\<rparr>" v]
  by (auto simp: timer_fires_def split: prod.splits option.splits) (simp_all add: kept_defs)

lemma fires_watched:
  assumes "watched s"
  shows "watched (timer_fires v s)"
proof (cases "su_timer s = None \<or> su_closed s")
  case True
  with assms show ?thesis by (auto simp: timer_fires_def watched_def)
next
  case False
  then have "su_running s" using assms by (auto simp: watched_def)
  moreover have "watched (s\<lparr>su_timer := None\<rparr>)" using assms by (auto simp: watched_def)
  ultimately have "watched (snd (spawnAndWait v 0 (s\<lparr>su_timer := None\<rparr>)))" by (simp add: spawnAndWait_watched)
  with False show ?thesis
    by (auto simp: timer_fires_def split: prod.splits option.splits) (simp_all add: kept_defs)
qed

lemma end_watched: "watched s \<Longrightarrow> su_hot s \<noteq> None \<longrightarrow> su_running s \<Longrightarrow> watched (snd (HotRestart_end v s))"
  by (cases "wa_save v"; fastforce simp: HotRestart_end_def Let_def Save_def kept_defs split: option.splits)

lemma quiet_reserved: "quiet_step s s' \<Longrightarrow> epochs_reserved s \<Longrightarrow> epochs_reserved s'"
  by (induction rule: quiet_step.induct) (simp_all add: monitor_reserved fires_reserved, simp_all add: kept_defs)

lemma reachable_reserved: "sup_reachable s \<Longrightarrow> epochs_reserved s"
proof (induction rule: sup_reachable.induct)
  case (new b)
  show ?case by (simp add: NewSupervisor_def epochs_reserved_def)
next
  case (step s s')
  from step.hyps(2) step.IH show ?case
    by cases (simp_all add: quiet_reserved Start_reserved begin_reserved end_reserved,
        simp add: kept_defs restarted_server_def NewSupervisor_def)
qed

text \<open>A hot restart is only pending on a supervisor that was started.\<close>

lemma spawnAndWait_frame:
  "su_running (snd (spawnAndWait v e s)) = su_running s \<and> su_hot (snd (spawnAndWait v e s)) = su_hot s"
  by (cases "sp_save v"; cases "sp_saveRunning v"; simp add: spawnAndWait_def Let_def Save_def sup_defs split: sum.splits option.splits)

lemma fires_frame: "su_running (timer_fires v s) = su_running s \<and> su_hot (timer_fires v s) = su_hot s"
  using spawnAndWait_frame [of v 0 "s\<lparr>su_timer := None\<rparr>"]
  by (cases "spawnAndWait v 0 (s\<lparr>su_timer := None\<rparr>)") (simp add: timer_fires_def sup_defs split: option.splits)

lemma quiet_frame: "quiet_step s s' \<Longrightarrow> su_running s' = su_running s \<and> su_hot s' = su_hot s"
  by (induction rule: quiet_step.induct) (simp_all add: fires_frame, auto simp: sup_defs monitor_def Let_def split: prod.splits)

lemma hot_running_step:
  assumes "sup_step s s'" and "su_hot s \<noteq> None \<longrightarrow> su_running s"
  shows "su_hot s' \<noteq> None \<longrightarrow> su_running s'"
  using assms
proof cases
  case quiet
  with assms(2) show ?thesis by (simp add: quiet_frame)
next
  case (start v)
  then show ?thesis
    using assms(2)
    by (cases "sa_save v") (auto simp: Start_def sup_defs Let_def Save_def spawnAndWait_frame split: load_result.splits sum.splits option.splits prod.splits)
next
  case (hot_begin v)
  then show ?thesis using assms(2) by (cases v s rule: HotRestart_begin_cases) (auto simp: child_started_def run_process_def Let_def)
next
  case (hot_end v)
  then show ?thesis
    using assms(2) by (cases "wa_save v") (auto simp: HotRestart_end_def sup_defs Let_def Save_def split: option.splits)
qed (simp add: restarted_server_def NewSupervisor_def)

lemma reachable_watched: "sup_reachable s \<Longrightarrow> watched s \<and> (su_hot s \<noteq> None \<longrightarrow> su_running s)"
proof (induction rule: sup_reachable.induct)
  case (new b)
  show ?case by (simp add: NewSupervisor_def watched_def)
next
  case (step s s')
  have "watched s'"
    using step.hyps(2)
  proof cases
    case quiet
    then show ?thesis using step.IH by cases (simp_all add: monitor_watched fires_watched, auto simp: kept_defs)
  qed (use step.IH in \<open>simp_all add: Start_watched begin_watched end_watched restarted_server_def NewSupervisor_def, simp add: watched_def\<close>)
  with hot_running_step [OF step.hyps(2)] step.IH show ?case by blast
qed

text \<open>The handles of processes are fresh.\<close>

definition handles_old :: "supervisor \<Rightarrow> bool" where
  "handles_old s = (\<forall>p \<in> set (su_alive s). ph_id p < su_serial s)"

lemmas old_defs = handles_old_def sup_defs

lemma spawnAndWait_old: "handles_old s \<Longrightarrow> handles_old (snd (spawnAndWait v e s))"
  by (cases "sp_save v"; cases "sp_saveRunning v")
    (auto simp: spawnAndWait_def Let_def Save_def old_defs less_Suc_eq split: sum.splits option.splits)

lemma Start_old: "handles_old s \<Longrightarrow> handles_old (snd (Start v s))"
proof -
  assume old: "handles_old s"
  then have started: "handles_old (s\<lparr>su_running := True\<rparr>)" by (simp add: old_defs)
  from old have stopped: "handles_old (s\<lparr>su_running := True, su_alive := filter P (su_alive s)\<rparr>)" for P by (simp add: old_defs)
  from old show ?thesis
    by (cases "sa_save v")
      (auto simp: Start_def Let_def Save_def started stopped spawnAndWait_old split: load_result.splits sum.splits option.splits prod.splits,
        auto simp: old_defs)
qed

lemma fires_old: "handles_old s \<Longrightarrow> handles_old (timer_fires v s)"
  using spawnAndWait_old [of "s\<lparr>su_timer := None\<rparr>" v 0]
  by (cases "spawnAndWait v 0 (s\<lparr>su_timer := None\<rparr>)") (auto simp: timer_fires_def old_defs split: option.splits)

lemma quiet_old: "quiet_step s s' \<Longrightarrow> handles_old s \<Longrightarrow> handles_old s'"
  by (induction rule: quiet_step.induct) (simp_all add: fires_old, auto simp: old_defs monitor_def Let_def split: prod.splits)

lemma end_old: "handles_old s \<Longrightarrow> handles_old (snd (HotRestart_end v s))"
  by (cases "wa_save v") (auto simp: HotRestart_end_def Let_def Save_def old_defs split: option.splits)

lemma begin_old: "handles_old s \<Longrightarrow> handles_old (snd (HotRestart_begin v s))"
  by (cases v s rule: HotRestart_begin_cases) (auto simp: child_started_def Let_def old_defs less_Suc_eq)

lemma reachable_old: "sup_reachable s \<Longrightarrow> handles_old s"
proof (induction rule: sup_reachable.induct)
  case (new b)
  show ?case by (simp add: NewSupervisor_def handles_old_def)
next
  case (step s s')
  from step.hyps(2) step.IH show ?case
    by cases (simp_all add: quiet_old Start_old begin_old end_old, simp add: restarted_server_def NewSupervisor_def handles_old_def)
qed

section \<open>Hot restarts\<close>

text \<open>
  C17: epochs are never reused.  Whatever happened before, management restarts and failed attempts
  included, the child of a hot restart runs with an epoch above every epoch started since the last
  start from zero, and the record on disk has moved past it before the child exists; the parent is
  still alive, owned and reported.
\<close>

theorem hot_restart_epoch_fresh:
  assumes "sup_reachable s" and "HotRestart_begin v s = (None, s')"
  shows "\<exists>h r. su_hot s' = Some h \<and> (\<forall>e \<in> set (su_epochs s). e < hr_epoch h) \<and>
     su_record s' = Some r \<and> hr_epoch h < rc_nextEpoch r \<and> su_epochs s' = hr_epoch h # su_epochs s \<and>
     hr_child h \<notin> set (su_alive s) \<and> su_alive s' = hr_child h # su_alive s \<and>
     su_current s' = su_current s \<and> su_status s' = su_status s"
proof (cases v s rule: HotRestart_begin_cases)
  case (started r pid)
  have res: "reserves r s" using started(1) reachable_reserved [OF assms(1)] by (blast dest: Load_reserved)
  have "\<lparr>ph_id = su_serial s, ph_pid = pid\<rparr> \<notin> set (su_alive s)"
    using reachable_old [OF assms(1)] by (auto simp: handles_old_def)
  with res started(6) assms(2) show ?thesis
    by (auto simp: child_started_def run_process_def reserved_record_def reserves_def Let_def)
qed (use assms(2) in simp_all)

text \<open>
  A failed hot restart.  When the child does not become ready it alone is killed: the
  processes, the owner, the reported status and the process on record are those before the attempt,
  a further attempt is possible, and the epoch stays consumed.
\<close>

theorem failed_hot_restart_keeps_parent:
  assumes "sup_reachable s" and "HotRestart_begin v s = (None, s1)"
    and "su_hot s1 = Some h" and "waitForEpoch (hr_epoch h) (wa_wait w) = Some e"
    and "HotRestart_end w s1 = (res, s2)"
  shows "res \<noteq> None \<and> su_alive s2 = su_alive s \<and> su_current s2 = su_current s \<and> su_status s2 = su_status s \<and>
     su_monitors s2 = su_monitors s \<and> su_hot s2 = None \<and> \<not> su_restarting s2 \<and>
     (\<exists>r r2. su_record s = Some r \<and> su_record s2 = Some r2 \<and> rc_pid r2 = rc_pid r \<and> rc_epoch r2 = rc_epoch r \<and>
        rc_nextEpoch r2 = rc_nextEpoch r + 1)"
proof (cases v s rule: HotRestart_begin_cases)
  case (started r pid)
  have rec: "su_record s = Some r" using started(1) reachable_reserved [OF assms(1)] by (blast dest: Load_reserved)
  have "\<lparr>ph_id = su_serial s, ph_pid = pid\<rparr> \<notin> set (su_alive s)"
    using reachable_old [OF assms(1)] by (auto simp: handles_old_def)
  with rec started(6) assms(2-5) show ?thesis
    by (cases "wa_save w")
      (auto simp: HotRestart_end_def Save_def child_started_def sup_defs reserved_record_def Let_def removeAll_id)
qed (use assms(2) in simp_all)

section \<open>Exits\<close>

text \<open>A status without an owned process and without a pending restart: no monitor corrects it.\<close>

definition unowned :: "supervisor \<Rightarrow> bool" where
  "unowned s = (su_current s = None \<and> su_timer s = None)"

lemma quiet_unowned: "quiet_step s s' \<Longrightarrow> unowned s \<Longrightarrow> unowned s' \<and> su_status s' = su_status s"
  by (induction rule: quiet_step.induct) (auto simp: unowned_def sup_defs monitor_def timer_fires_def Let_def)

lemma quiet_unowned_many:
  "quiet_step\<^sup>*\<^sup>* s s' \<Longrightarrow> unowned s \<Longrightarrow> unowned s' \<and> su_status s' = su_status s"
proof (induction rule: rtranclp_induct)
  case (step y z)
  with quiet_unowned [OF step.hyps(2)] show ?case by simp
qed simp

lemma all_may_exit: "\<exists>s'. quiet_step\<^sup>*\<^sup>* s s' \<and> su_alive s' = []"
proof (induction "length (su_alive s)" arbitrary: s rule: less_induct)
  case less
  show ?case
  proof (cases "su_alive s")
    case (Cons p ps)
    then have one: "quiet_step s (kill p s)" by (intro exits) simp
    have "length (su_alive (kill p s)) < length (su_alive s)"
      using Cons by (simp add: kill_def le_imp_less_Suc)
    from less [OF this] one show ?thesis by (blast intro: converse_rtranclp_into_rtranclp)
  qed blast
qed

text \<open>
  C38: an adopted Envoy is not watched.  A restarted management process adopts the Envoy on record
  and reports it running, but nothing waits for its exit: whatever follows without an operator, and
  even once no process is left, the status stays running with the adopted PID.
\<close>

theorem adopted_exit_unnoticed:
  assumes "sup_reachable s" and "\<not> su_running s" and "Load (sa_load v) s = Loaded r"
    and "processIdentity (rc_pid r) (sa_identity v) = ((True, True), None)" and "waitForEpoch (rc_epoch r) (sa_wait v) = None"
  shows "(\<exists>s'. quiet_step\<^sup>*\<^sup>* (snd (Start v s)) s' \<and> su_alive s' = []) \<and>
     (\<forall>s'. quiet_step\<^sup>*\<^sup>* (snd (Start v s)) s' \<longrightarrow>
        su_status s' = \<lparr>st_state = ''running'', st_pid = rc_pid r, st_epoch = rc_epoch r\<rparr>)"
proof -
  have "Load (sa_load v) (s\<lparr>su_running := True\<rparr>) = Loaded r" using assms(3) by (simp add: Load_def cong: option.case_cong)
  then have adopted: "Start v s = (None, emit ''Adopted'' (rc_pid r) (rc_epoch r)
      (snd (Save (sa_save v) (r\<lparr>rc_state := ''running''\<rparr>) (setStatus ''running'' (rc_pid r) (rc_epoch r) (s\<lparr>su_running := True\<rparr>)))))"
    using assms(2,4,5) by (simp add: Start_def)
  have st: "su_status (snd (Start v s)) = \<lparr>st_state = ''running'', st_pid = rc_pid r, st_epoch = rc_epoch r\<rparr>"
    by (cases "sa_save v") (simp_all add: adopted Save_def sup_defs)
  have un: "unowned (snd (Start v s))"
    using reachable_watched [OF assms(1)] assms(2) by (cases "sa_save v") (simp_all add: adopted Save_def sup_defs unowned_def watched_def)
  show ?thesis
  proof (intro conjI allI impI)
    show "\<exists>s'. quiet_step\<^sup>*\<^sup>* (snd (Start v s)) s' \<and> su_alive s' = []" by (rule all_may_exit)
    show "su_status s' = \<lparr>st_state = ''running'', st_pid = rc_pid r, st_epoch = rc_epoch r\<rparr>"
      if "quiet_step\<^sup>*\<^sup>* (snd (Start v s)) s'" for s'
      using quiet_unowned_many [OF that un] st by simp
  qed
qed

text \<open>
  A parent lost during a hot restart.  Its monitor leaves the exit to the hot restart; when
  the child then fails too, no process is owned, no restart is planned, and the status stays running.
\<close>

theorem lost_parent_reported_running:
  assumes "sup_reachable s" and "HotRestart_begin v s = (None, s1)"
    and "su_current s = Some p" and "su_timer s = None" and "\<not> su_closed s"
    and "su_hot s1 = Some h" and "waitForEpoch (hr_epoch h) (wa_wait w) = Some e" and "fst m = p"
  shows "\<forall>s'. quiet_step\<^sup>*\<^sup>* (snd (HotRestart_end w (monitor m at (kill p s1)))) s' \<longrightarrow> st_state (su_status s') = ''running''"
proof (cases v s rule: HotRestart_begin_cases)
  case (started r pid)
  define s2 where "s2 = snd (HotRestart_end w (monitor m at (kill p s1)))"
  have "unowned s2 \<and> st_state (su_status s2) = ''running''"
    using started assms(2-8)
    by (cases "wa_save w"; cases m)
      (auto simp: s2_def HotRestart_end_def monitor_def Save_def child_started_def sup_defs unowned_def Let_def)
  then show ?thesis using quiet_unowned_many unfolding s2_def by (metis (no_types))
qed (use assms(2) in simp_all)

lemma Failure_fst:
  "0 < fst (fst (Failure now runFor b))" "fst (fst (Failure now runFor b)) \<le> bo_max (defaults b)"
  "snd (fst (Failure now runFor b)) \<longleftrightarrow>
     bo_giveUp (defaults b) \<le> int (length (filter (\<lambda>f. now - 10 * minute < f) (bo_failures b))) + 1"
proof -
  have "0 < bo_initial (defaults b)" "0 < bo_max (defaults b)" by (simp_all add: defaults_def second_def)
  then show "0 < fst (fst (Failure now runFor b))" "fst (fst (Failure now runFor b)) \<le> bo_max (defaults b)"
    using clipped_min [of "bo_initial (defaults b)" "bo_max (defaults b)"] by (simp_all add: Failure_def Let_def)
qed (simp add: Failure_def Let_def add.commute)


section \<open>Witnesses\<close>

text \<open>A first start, and the supervisor after it.\<close>

definition ready_at :: "int \<Rightarrow> waiting" where
  "ready_at epoch = \<lparr>wt_ticks = [Inl ''refused'', Inr (False, epoch)], wt_last = Inr (True, epoch), wt_wake = LiveTimeout ''30s''\<rparr>"

definition same_binary :: identity_env where
  "same_binary = \<lparr>id_signal = Delivered, id_actual = Inr ''/usr/bin/envoy'', id_expected = Inr ''/usr/bin/envoy'', id_stat = (\<lambda>f. Inr 7)\<rparr>"

lemma ready_at_observed: "waitForEpoch epoch (ready_at epoch) = None"
  by (simp add: waitForEpoch_def ready_at_def polls_ready observed_epoch_def)

definition first_env :: start_env where
  "first_env = \<lparr>sa_load = None, sa_identity = same_binary, sa_wait = ready_at 0, sa_keep = True, sa_save = Saved,
     sa_stop = \<lparr>ss_term = Delivered, ss_polls = [], ss_wake = StopDeadline Delivered\<rparr>,
     sa_spawn = \<lparr>sp_start = Inr 41, sp_now = second, sp_save = Saved, sp_wait = ready_at 0, sp_saveRunning = Saved\<rparr>\<rparr>"

definition no_backoff :: backoff where
  "no_backoff = \<lparr>bo_initial = 0, bo_max = 0, bo_resetAfter = 0, bo_giveUp = 0, bo_failures = [], bo_streak = 0\<rparr>"

definition first_running :: supervisor where
  "first_running = snd (Start first_env (NewSupervisor no_backoff))"

definition child_env :: hot_env where
  "child_env = \<lparr>ho_load = None, ho_save = Saved, ho_start = Inr 52, ho_now = 5 * second\<rparr>"

definition unready_env :: wait_env where
  "unready_env = \<lparr>wa_wait = \<lparr>wt_ticks = [Inr (True, 0)], wt_last = Inr (False, 1), wt_wake = LiveTimeout ''30s''\<rparr>, wa_save = Saved\<rparr>"

definition parent :: process where
  "parent = \<lparr>ph_id = 0, ph_pid = 41\<rparr>"

lemma first_running_state:
  "first_running = \<lparr>su_record = Some \<lparr>rc_pid = 41, rc_epoch = 0, rc_nextEpoch = 1, rc_startedAt = second, rc_state = ''running''\<rparr>,
     su_status = \<lparr>st_state = ''running'', st_pid = 41, st_epoch = 0\<rparr>, su_current = Some parent, su_running = True, su_closed = False,
     su_restarting = False, su_hot = None, su_monitors = [(parent, 0, second)], su_timer = None, su_backoff = no_backoff,
     su_events = [\<lparr>se_kind = ''Started'', se_pid = 41, se_epochs = 0\<rparr>], su_serial = 1, su_alive = [parent], su_epochs = [0]\<rparr>"
  by (simp add: first_running_def first_env_def Start_def Load_def spawnAndWait_def Save_def NewSupervisor_def sup_defs parent_def Let_def ready_at_observed)

lemma first_reachable: "sup_reachable first_running"
  unfolding first_running_def by (rule sup_reachable.step [OF sup_reachable.new sup_step.start])

lemma child_begins: "HotRestart_begin child_env first_running = (None, snd (HotRestart_begin child_env first_running))"
  by (simp add: HotRestart_begin_def first_running_state child_env_def Load_def Save_def run_process_def Let_def)

lemma child_unready:
  "su_hot (snd (HotRestart_begin child_env first_running)) = Some h \<Longrightarrow> \<exists>e. waitForEpoch (hr_epoch h) (wa_wait unready_env) = Some e"
  by (auto simp: HotRestart_begin_def first_running_state child_env_def Load_def Save_def run_process_def Let_def unready_env_def
      waitForEpoch_def observed_epoch_def)

theorem hot_restart_epoch_fresh_witness:
  "\<exists>h. su_hot (snd (HotRestart_begin child_env first_running)) = Some h \<and> 0 < hr_epoch h"
  using hot_restart_epoch_fresh [OF first_reachable child_begins] by (auto simp: first_running_state)

lemma child_pending: "\<exists>h. su_hot (snd (HotRestart_begin child_env first_running)) = Some h"
  by (simp add: HotRestart_begin_def first_running_state child_env_def Load_def Save_def run_process_def Let_def)

theorem failed_hot_restart_keeps_parent_witness:
  "su_alive (snd (HotRestart_end unready_env (snd (HotRestart_begin child_env first_running)))) = [parent]"
proof -
  obtain h e where "su_hot (snd (HotRestart_begin child_env first_running)) = Some h"
    "waitForEpoch (hr_epoch h) (wa_wait unready_env) = Some e"
    using child_pending child_unready by blast
  from failed_hot_restart_keeps_parent [OF first_reachable child_begins this] show ?thesis
    by (cases "HotRestart_end unready_env (snd (HotRestart_begin child_env first_running))") (auto simp: first_running_state)
qed

theorem adopted_exit_unnoticed_witness:
  "\<exists>s'. quiet_step\<^sup>*\<^sup>* (snd (Start first_env (restarted_server no_backoff first_running))) s' \<and>
     su_alive s' = [] \<and> st_state (su_status s') = ''running''"
proof -
  have "sup_reachable (restarted_server no_backoff first_running)"
    by (rule sup_reachable.step [OF first_reachable sup_step.new_server])
  from adopted_exit_unnoticed [OF this, of first_env] show ?thesis
    by (auto simp: restarted_server_def NewSupervisor_def first_running_state Load_def first_env_def processIdentity_def same_binary_def
        ready_at_observed)
qed

theorem lost_parent_reported_running_witness:
  "st_state (su_status (snd (HotRestart_end unready_env
     (monitor (parent, 0, second) (9 * second) (kill parent (snd (HotRestart_begin child_env first_running))))))) = ''running''"
proof -
  obtain h e where "su_hot (snd (HotRestart_begin child_env first_running)) = Some h"
    "waitForEpoch (hr_epoch h) (wa_wait unready_env) = Some e"
    using child_pending child_unready by blast
  with lost_parent_reported_running [OF first_reachable child_begins, of parent h unready_env e "(parent, 0, second)" "9 * second"]
  show ?thesis by (auto simp: first_running_state)
qed

lemma parent_exited: "sup_reachable (kill parent first_running)"
  by (rule sup_reachable.step [OF first_reachable sup_step.quiet [OF exits]]) (simp add: first_running_state)


end
