(* ===== verification/ProcessProbe.thy ===== *)
theory ProcessProbe
  imports StateCollect Supervisor
begin

text \<open>
  The supervisor's probe (\<open>ObserveProcess\<close> of \<open>internal/state/state.go\<close>) together with its waiting for a
  new process (\<open>waitForEpoch\<close> of \<open>internal/proc/supervisor.go\<close>): each poll asks the collector, which asks
  Envoy unless the path is backed off.
\<close>

section \<open>The probe\<close>

definition options_decoder :: "int decoder" where
  "options_decoder = go_struct (go_field (go_struct (go_field go_int64 0 ''restart_epoch'')) 0 ''command_line_options'')"

definition ObserveProcess :: "admin_replies \<Rightarrow> time \<Rightarrow> collector \<Rightarrow> (string + bool \<times> int) \<times> collector" where
  "ObserveProcess a now c =
     (let c1 = collectReady a now c in
      (case ad_serverInfo a of
         None \<Rightarrow> Inl ''admin request failed''
       | Some body \<Rightarrow>
           (case go_unmarshal 0 options_decoder body of
              None \<Rightarrow> Inl ''invalid server_info''
            | Some epoch \<Rightarrow> Inr (dp_ready (co_current c1), epoch)), c1))"

text \<open>The observations of a wait whose polls meet the given replies at the given times.\<close>

fun observations :: "(admin_replies \<times> time) list \<Rightarrow> collector \<Rightarrow> (string + bool \<times> int) list" where
  "observations [] c = []"
| "observations ((a, now) # ps) c = (case ObserveProcess a now c of (ob, c') \<Rightarrow> ob # observations ps c')"

definition wait_result :: "int \<Rightarrow> (admin_replies \<times> time) list \<Rightarrow> wake \<Rightarrow> collector \<Rightarrow> string option" where
  "wait_result epoch ps w c =
     (let obs = observations ps c in waitForEpoch epoch \<lparr>wt_ticks = butlast obs, wt_last = last obs, wt_wake = w\<rparr>)"

lemma wait_result_ready:
  assumes "ps \<noteq> []"
  shows "wait_result epoch ps w c = None \<longleftrightarrow> (\<exists>ob \<in> set (observations ps c). observed_epoch epoch ob)"
proof -
  obtain a t qs where "ps = (a, t) # qs" using assms by (cases ps) auto
  then have "observations ps c \<noteq> []" by (cases "ObserveProcess a t c") simp
  then have "butlast (observations ps c) @ [last (observations ps c)] = observations ps c" by (rule append_butlast_last_id)
  then show ?thesis using polls_ready by (simp only: wait_result_def waitForEpoch_def Let_def waiting.simps)
qed

section \<open>Backing off\<close>

lemma not_ready_observation: "\<not> dp_ready (co_current (collectReady a now c)) \<Longrightarrow> \<not> observed_epoch epoch (fst (ObserveProcess a now c))"
  by (auto simp: ObserveProcess_def observed_epoch_def Let_def split: option.splits)

lemma ObserveProcess_state: "snd (ObserveProcess a now c) = collectReady a now c"
  by (simp add: ObserveProcess_def Let_def)

text \<open>While the path is backed off nothing is asked, whatever Envoy would answer.\<close>

lemma backed_off_blind:
  assumes "co_backoff c ''/ready'' = Some b" and "pb_next b \<noteq> 0" and "\<not> dp_ready (co_current c)" and "\<forall>p \<in> set ps. snd p < pb_next b"
  shows "\<forall>ob \<in> set (observations ps c). \<not> observed_epoch epoch ob"
  using assms
proof (induction ps arbitrary: c)
  case (Cons p ps)
  obtain a t where p: "p = (a, t)" by (cases p)
  have same: "collectReady a t c = c" using Cons.prems p by (auto simp: collectReady_def backoffAllowed_def)
  then have "\<not> observed_epoch epoch (fst (ObserveProcess a t c))" using not_ready_observation Cons.prems(3) by simp
  moreover have "snd (ObserveProcess a t c) = c" using same ObserveProcess_state by simp
  ultimately show ?case using Cons.IH [OF Cons.prems(1-3)] Cons.prems(4) by (cases "ObserveProcess a t c") (auto simp: p)
qed simp

definition unanswered :: "admin_replies \<Rightarrow> bool" where
  "unanswered a \<longleftrightarrow> ad_ready a = None"

lemma unanswered_ready:
  assumes "unanswered a" and "backoffAllowed t ''/ready'' (co_backoff c)"
    and "n = (case co_backoff c ''/ready'' of Some b \<Rightarrow> pb_failures b | None \<Rightarrow> 0)"
  shows "co_backoff (collectReady a t c) ''/ready'' = Some \<lparr>pb_failures = n + 1, pb_next = t + request_delay (n + 1)\<rparr> \<and>
     \<not> dp_ready (co_current (collectReady a t c))"
  using assms by (simp add: unanswered_def collectReady_def recordBackoff_def Let_def)

definition after_polls :: "(admin_replies \<times> time) list \<Rightarrow> collector \<Rightarrow> collector" where
  "after_polls ps c = fold (\<lambda>(a, t). collectReady a t) ps c"

lemma observations_append: "observations (ps @ qs) c = observations ps c @ observations qs (after_polls ps c)"
proof (induction ps arbitrary: c)
  case (Cons p ps)
  obtain a t where p: "p = (a, t)" by (cases p)
  show ?case using Cons ObserveProcess_state [of a t c] by (cases "ObserveProcess a t c") (simp add: p after_polls_def)
qed (simp add: after_polls_def)

text \<open>A path that has failed so far, with its delay.\<close>

definition failing :: "time set \<Rightarrow> collector \<Rightarrow> bool" where
  "failing ts c \<longleftrightarrow> \<not> dp_ready (co_current c) \<and>
     (\<exists>n t. 0 < n \<and> t \<in> ts \<and> co_backoff c ''/ready'' = Some \<lparr>pb_failures = n, pb_next = t + request_delay n\<rparr>)"

lemma failing_poll:
  assumes "failing ts c" and "unanswered a" and "t \<in> ts"
  shows "failing ts (collectReady a t c)"
proof (cases "backoffAllowed t ''/ready'' (co_backoff c)")
  case True
  obtain b where "co_backoff c ''/ready'' = Some b" using assms(1) by (auto simp: failing_def)
  then have "pb_failures b = (case co_backoff c ''/ready'' of Some b \<Rightarrow> pb_failures b | None \<Rightarrow> 0)" by simp
  note r = unanswered_ready [OF assms(2) True this]
  show ?thesis unfolding failing_def
    by (intro conjI exI [of _ "pb_failures b + 1"] exI [of _ t]) (use r assms(3) in simp_all)
next
  case False
  with assms(1) show ?thesis by (simp add: collectReady_def)
qed

lemma failing_polls:
  assumes "failing ts c" and "\<forall>p \<in> set ps. unanswered (fst p) \<and> snd p \<in> ts"
  shows "failing ts (after_polls ps c) \<and> (\<forall>ob \<in> set (observations ps c). \<not> observed_epoch epoch ob)"
  using assms
proof (induction ps arbitrary: c)
  case (Cons p ps)
  obtain a t where p: "p = (a, t)" by (cases p)
  have next_c: "failing ts (collectReady a t c)" using failing_poll [OF Cons.prems(1)] Cons.prems(2) p by simp
  then have "\<not> observed_epoch epoch (fst (ObserveProcess a t c))" by (intro not_ready_observation) (simp add: failing_def)
  with Cons.IH [OF next_c] Cons.prems(2) ObserveProcess_state [of a t c] show ?case
    by (cases "ObserveProcess a t c") (auto simp: p after_polls_def)
qed (simp add: after_polls_def)

text \<open>
  The readiness backoff outlasts the start of a process.  The supervisor polls for a new Envoy
  through the collector, which doubles the pause of the path after every unanswered request.  After
  polls that were not answered, no poll up to the end of that pause, one second doubled for each
  failure but the first and at most a minute, notices that Envoy has become live, whatever it answers:
  a wait whose time is over by then fails.
\<close>

theorem ready_backoff_hides_live_process:
  assumes "early \<noteq> []" and "\<forall>p \<in> set early. unanswered (fst p) \<and> 0 < snd p" and "co_backoff c ''/ready'' = None"
  shows "\<exists>n t. 0 < n \<and> t \<in> snd ` set early \<and>
     co_backoff (after_polls early c) ''/ready'' = Some \<lparr>pb_failures = n, pb_next = t + min minute (second * 2 ^ (n - 1))\<rparr> \<and>
     (\<forall>late epoch w. (\<forall>p \<in> set late. snd p < t + min minute (second * 2 ^ (n - 1))) \<longrightarrow> wait_result epoch (early @ late) w c \<noteq> None)"
proof -
  let ?ts = "snd ` set early"
  obtain a t ps where e: "early = (a, t) # ps" using assms(1) by (cases early) auto
  have first: "failing ?ts (collectReady a t c)"
    using unanswered_ready [of a t c 0] assms(2,3) e unfolding failing_def by (force simp: backoffAllowed_def)
  have "\<not> observed_epoch epoch (fst (ObserveProcess a t c))" for epoch
    using first by (intro not_ready_observation) (simp add: failing_def)
  moreover have rest: "\<forall>p \<in> set ps. unanswered (fst p) \<and> snd p \<in> ?ts" using assms(2) e by auto
  moreover have tail: "observations early c = fst (ObserveProcess a t c) # observations ps (collectReady a t c)"
    using ObserveProcess_state [of a t c] by (cases "ObserveProcess a t c") (simp add: e)
  ultimately have none: "\<forall>ob \<in> set (observations early c). \<not> observed_epoch epoch ob" for epoch
    using failing_polls [OF first, of ps epoch] by auto
  have "after_polls early c = after_polls ps (collectReady a t c)" by (simp add: e after_polls_def)
  then obtain n u where n: "0 < n" "u \<in> ?ts" "\<not> dp_ready (co_current (after_polls early c))"
    "co_backoff (after_polls early c) ''/ready'' = Some \<lparr>pb_failures = n, pb_next = u + request_delay n\<rparr>"
    using failing_polls [OF first rest] unfolding failing_def by metis
  have d: "request_delay n = min minute (second * 2 ^ (n - 1))" by (rule request_delay_min [OF n(1)])
  have "0 < u" using n(2) assms(2) by auto
  moreover have "0 \<le> request_delay n" unfolding d by (simp add: second_def minute_def)
  ultimately have "u + request_delay n \<noteq> 0" by simp
  with backed_off_blind [OF n(4) _ n(3)]
  have "\<forall>ob \<in> set (observations late (after_polls early c)). \<not> observed_epoch epoch ob" if "\<forall>p \<in> set late. snd p < u + request_delay n" for late epoch
    using that by simp
  with none have "wait_result epoch (early @ late) w c \<noteq> None" if "\<forall>p \<in> set late. snd p < u + request_delay n" for late epoch w
    using that assms(1) by (subst wait_result_ready) (auto simp: observations_append)
  with n d show ?thesis by (intro exI [of _ n] exI [of _ u]) simp
qed

section \<open>Witness\<close>

definition silent :: admin_replies where
  "silent = \<lparr>ad_ready = None, ad_serverInfo = None, ad_dump = None, ad_clusters = None, ad_certs = None, ad_stats = None\<rparr>"

definition live :: admin_replies where
  "live = silent\<lparr>ad_ready := Some ''LIVE'',
     ad_serverInfo := Some (Some (JObj [(''command_line_options'', JObj [(''restart_epoch'', JNum 0)])]))\<rparr>"

definition slow_start :: "(admin_replies \<times> time) list" where
  "slow_start = [(silent, second), (silent, 2 * second), (silent, 4 * second), (silent, 8 * second), (silent, 16 * second)]"

text \<open>An Envoy that is live twenty seconds after the first poll is not noticed within thirty.\<close>

theorem ready_backoff_hides_live_process_witness:
  "wait_result 0 (slow_start @ [(live, 21 * second), (live, 31 * second)]) (LiveTimeout ''30s'') (new_collector ''node'') \<noteq> None"
proof -
  let ?c = "new_collector ''node''"
  have b: "co_backoff (after_polls slow_start ?c) ''/ready'' = Some \<lparr>pb_failures = 5, pb_next = 32 * second\<rparr>" by code_simp
  have "slow_start \<noteq> []" "\<forall>p \<in> set slow_start. unanswered (fst p) \<and> 0 < snd p" "co_backoff ?c ''/ready'' = None"
    by (simp_all add: slow_start_def unanswered_def silent_def second_def new_collector_def)
  from ready_backoff_hides_live_process [OF this] obtain n t where
    n: "Some \<lparr>pb_failures = n, pb_next = t + min minute (second * 2 ^ (n - 1))\<rparr> = Some \<lparr>pb_failures = 5, pb_next = 32 * second\<rparr>"
    and late: "\<forall>late epoch w. (\<forall>p \<in> set late. snd p < t + min minute (second * 2 ^ (n - 1))) \<longrightarrow> wait_result epoch (slow_start @ late) w ?c \<noteq> None"
    unfolding b by metis
  have "t + min minute (second * 2 ^ (n - 1)) = 32 * second" using n unfolding option.inject path_backoff.ext_inject by blast
  then show ?thesis using late by (simp add: second_def)
qed

end
