(* ===== verification/ProtocolSpec.thy ===== *)
theory ProtocolSpec
  imports ProtocolLoad AuthService
begin

text \<open>
  The specs of the protocol objects (\<open>internal/protocol\<close>: \<open>gateway.go\<close>, \<open>listener.go\<close>, \<open>route.go\<close>,
  \<open>upstream.go\<close>, \<open>policy.go\<close>, \<open>patch.go\<close>, \<open>enums.go\<close>, \<open>envoyresources.go\<close>) and their validation when a
  document is loaded.

  A pointer that may be \<open>nil\<close> is an \<open>option\<close>, an enumeration is the string it is in the source, a
  duration is its number of nanoseconds, an \<open>int32\<close> is an integer, and a map is the list of its entries.
  A validation is \<open>None\<close> or the message of the first fault.  Addresses and URLs are read by the standard
  library: \<open>net.SplitHostPort\<close> and \<open>strconv.Atoi\<close> are modelled, \<open>netip.ParsePrefix\<close> and \<open>url.Parse\<close> are
  parameters.
\<close>

section \<open>Sequences of checks\<close>

definition or_else :: "'e option \<Rightarrow> 'e option \<Rightarrow> 'e option" where
  "or_else a b = (case a of Some e \<Rightarrow> Some e | None \<Rightarrow> b)"

fun first_error :: "(nat \<Rightarrow> 'a \<Rightarrow> 'e option) \<Rightarrow> nat \<Rightarrow> 'a list \<Rightarrow> 'e option" where
  "first_error f i [] = None"
| "first_error f i (x # xs) = (case f i x of Some e \<Rightarrow> Some e | None \<Rightarrow> first_error f (Suc i) xs)"

definition fault_if :: "bool \<Rightarrow> 'e \<Rightarrow> 'e option" where
  "fault_if b e = (if b then Some e else None)"

lemma or_else_None [simp]: "or_else a b = None \<longleftrightarrow> a = None \<and> b = None"
  by (simp add: or_else_def split: option.split)

lemma fault_if_None [simp]: "fault_if b e = None \<longleftrightarrow> \<not> b"
  by (simp add: fault_if_def)

lemma first_error_None: "first_error f i xs = None \<longleftrightarrow> (\<forall>j < length xs. f (i + j) (xs ! j) = None)"
proof (induction xs arbitrary: i)
  case (Cons x xs)
  then show ?case by (auto simp: less_Suc_eq_0_disj split: option.split)
qed simp

lemma first_error_all: "(\<And>i x. f i x = None \<longleftrightarrow> P x) \<Longrightarrow> first_error f i xs = None \<longleftrightarrow> (\<forall>x \<in> set xs. P x)"
  by (simp add: first_error_None all_set_conv_all_nth)

definition index_text :: "string \<Rightarrow> nat \<Rightarrow> string" where
  "index_text field i = field @ ''['' @ string_of_nat i @ '']''"

text \<open>How many of several alternatives are given.\<close>

definition count_set :: "bool list \<Rightarrow> nat" where
  "count_set bs = length (filter id bs)"

section \<open>Enumerations\<close>

definition AccessLogFormat_Valid :: "string \<Rightarrow> bool" where
  "AccessLogFormat_Valid f \<longleftrightarrow> f \<in> {''json'', ''text''}"

definition ListenerProtocol_Valid :: "string \<Rightarrow> bool" where
  "ListenerProtocol_Valid p \<longleftrightarrow> p \<in> {''HTTP'', ''HTTPS'', ''TCP'', ''TLS'', ''UDP''}"

definition TLSVersion_Valid :: "string \<Rightarrow> bool" where
  "TLSVersion_Valid v \<longleftrightarrow> v \<in> {''1.2'', ''1.3''}"

definition RetryOn_Valid :: "string \<Rightarrow> bool" where
  "RetryOn_Valid r \<longleftrightarrow> r \<in> {''5xx'', ''gateway-error'', ''connect-failure'', ''reset'', ''retriable-4xx''}"

definition LBPolicy_Valid :: "string \<Rightarrow> bool" where
  "LBPolicy_Valid p \<longleftrightarrow> p \<in> {''roundRobin'', ''leastRequest'', ''random'', ''ringHash'', ''maglev''}"

definition DNSResolution_Valid :: "string \<Rightarrow> bool" where
  "DNSResolution_Valid r \<longleftrightarrow> r \<in> {''logical'', ''strict''}"

definition RateLimitUnit_Valid :: "string \<Rightarrow> bool" where
  "RateLimitUnit_Valid u \<longleftrightarrow> u \<in> {''second'', ''minute'', ''hour''}"

definition PatchOp_Valid :: "string \<Rightarrow> bool" where
  "PatchOp_Valid u \<longleftrightarrow> u \<in> {''merge'', ''jsonPatch''}"

definition RateLimitKeyClientIP :: string where "RateLimitKeyClientIP = ''clientIP''"
definition RateLimitKeyHeaderPrefix :: string where "RateLimitKeyHeaderPrefix = ''header:''"
definition RateLimitDefaultMaxKeys :: int where "RateLimitDefaultMaxKeys = 10000"
definition RateLimitMinMaxKeys :: int where "RateLimitMinMaxKeys = 1"
definition RateLimitMaxMaxKeys :: int where "RateLimitMaxMaxKeys = 100000"

section \<open>Specs\<close>

subsection \<open>Patches\<close>

record EnvoyPatch =
  xp_target :: string
  xp_op :: string
  xp_value :: string

definition EnvoyPatch_validate :: "string \<Rightarrow> EnvoyPatch \<Rightarrow> string option" where
  "EnvoyPatch_validate field p =
     or_else (fault_if (xp_target p = []) (field @ '': target is required''))
    (or_else (fault_if (\<not> PatchOp_Valid (xp_op p)) (field @ '': invalid op '' @ go_quote (xp_op p) @ '' (want merge | jsonPatch)''))
             (fault_if (xp_value p = []) (field @ '': value is required'')))"

definition validateEnvoyPatches :: "string \<Rightarrow> EnvoyPatch list \<Rightarrow> string option" where
  "validateEnvoyPatches field ps = first_error (\<lambda>i. EnvoyPatch_validate (index_text field i)) 0 ps"

subsection \<open>Policies\<close>

record HeaderOps =
  hop_set :: "(string \<times> string) list"
  hop_add :: "(string \<times> string) list"
  hop_remove :: "string list"

record HeaderModifierPolicy =
  hmp_request :: "HeaderOps option"
  hmp_response :: "HeaderOps option"

record CORSPolicy =
  cors_allowOrigins :: "string list"
  cors_allowMethods :: "string list"
  cors_allowHeaders :: "string list"
  cors_allowCredentials :: bool
  cors_maxAge :: "int option"

record RateLimitPolicy =
  rl_requests :: int
  rl_unit :: string
  rl_burst :: "int option"
  rl_key :: string
  rl_maxKeys :: "int option"

record JWKS =
  jwks_uri :: string
  jwks_file :: string

record JWTPolicy =
  jwt_issuer :: string
  jwt_audiences :: "string list"
  jwt_jwks :: "JWKS option"
  jwt_forwardPayloadHeader :: string
  jwt_optional :: bool

record ExtAuthHTTP =
  xah_address :: string
  xah_pathPrefix :: string
  xah_caFile :: string
  xah_insecureSkipVerify :: bool

record ExtAuthPolicy =
  xa_grpc :: "string option"
  xa_http :: "ExtAuthHTTP option"
  xa_failOpen :: bool
  xa_disabled :: bool

record IPAccessPolicy =
  ipa_allow :: "string list"
  ipa_deny :: "string list"

record PolicySpec =
  pol_headerModifier :: "HeaderModifierPolicy option"
  pol_cors :: "CORSPolicy option"
  pol_rateLimit :: "RateLimitPolicy option"
  pol_jwt :: "JWTPolicy option"
  pol_extAuth :: "ExtAuthPolicy option"
  pol_ipAccess :: "IPAccessPolicy option"
  pol_basicAuth :: "string option"

record PolicyAttachment =
  pa_ref :: string
  pa_inline :: "PolicySpec option"

subsection \<open>Gateway and listeners\<close>

record AccessLog =
  al_enabled :: bool
  al_format :: string
  al_path :: string

record HTTPDefaults =
  htd_idleTimeout :: "int option"
  htd_maxRequestHeadersKb :: "int option"
  htd_serverHeader :: "string option"

record GatewaySpec =
  gws_accessLog :: "AccessLog option"
  gws_http :: "HTTPDefaults option"
  gws_policies :: "PolicyAttachment list"
  gws_envoyPatch :: "EnvoyPatch list"

record Certificate =
  crt_certFile :: string
  crt_keyFile :: string
  crt_ref :: string

record ListenerTLS =
  ltls_certificates :: "Certificate list"
  ltls_minVersion :: string
  ltls_alpn :: "string list"
  ltls_clientCA :: string

record ListenerHTTP =
  lhttp_http2 :: "bool option"
  lhttp_http3 :: bool

record ListenerSpec =
  lsn_address :: string
  lsn_port :: int
  lsn_protocol :: string
  lsn_tls :: "ListenerTLS option"
  lsn_http :: "ListenerHTTP option"
  lsn_policies :: "PolicyAttachment list"
  lsn_envoyPatch :: "EnvoyPatch list"

subsection \<open>Routes\<close>

record Forward =
  fwd_upstream :: string
  fwd_sniHosts :: "string list"

record PathMatch =
  pm_exact :: string
  pm_prefix :: string
  pm_regex :: string

record KeyValueMatch =
  kvm_name :: string
  kvm_exact :: string
  kvm_regex :: string
  kvm_present :: "bool option"

record RuleMatch =
  rm_path :: "PathMatch option"
  rm_methods :: "string list"
  rm_headers :: "KeyValueMatch list"
  rm_queryParams :: "KeyValueMatch list"

record RegexSubstitution =
  rxs_pattern :: string
  rxs_substitution :: string

record Rewrite =
  rw_pathPrefix :: string
  rw_path :: string
  rw_regex :: "RegexSubstitution option"
  rw_host :: string

record BackendRef =
  bk_upstream :: string
  bk_weight :: "int option"

record Redirect =
  rdr_scheme :: string
  rdr_code :: int

record DirectResponse =
  drs_status :: int
  drs_body :: string

record Retry =
  rty_attempts :: int
  rty_perTryTimeout :: "int option"
  rty_on :: "string list"

record Rule =
  rule_name :: string
  rule_match :: RuleMatch
  rule_rewrite :: "Rewrite option"
  rule_backends :: "BackendRef list"
  rule_redirect :: "Redirect option"
  rule_directResponse :: "DirectResponse option"
  rule_timeout :: "int option"
  rule_retry :: "Retry option"
  rule_policies :: "PolicyAttachment list"

record RouteSpec =
  rts_listeners :: "string list"
  rts_hostnames :: "string list"
  rts_policies :: "PolicyAttachment list"
  rts_rules :: "Rule list"
  rts_forward :: "Forward option"
  rts_envoyPatch :: "EnvoyPatch list"

subsection \<open>Upstreams and native resources\<close>

record Endpoint =
  epn_address :: string
  epn_port :: int
  epn_weight :: "int option"

record DNSEndpointSource =
  dns_hostname :: string
  dns_port :: int
  dns_resolution :: string

record KubernetesServiceSource =
  k8s_namespace :: string
  k8s_name :: string
  k8s_port :: int

record LoadBalancer =
  lb_policy :: string
  lb_hashOn :: "string list"

record HTTPHealthCheck =
  hhc_path :: string
  hhc_expectedStatuses :: "int list"

record HealthCheck =
  hck_http :: "HTTPHealthCheck option"
  hck_tcp :: bool
  hck_interval :: "int option"
  hck_timeout :: "int option"
  hck_healthyThreshold :: "int option"
  hck_unhealthyThreshold :: "int option"

record UpstreamTLS =
  utls_enabled :: bool
  utls_sni :: string
  utls_caFile :: string
  utls_insecureSkipVerify :: bool

record UpstreamConnection =
  conn_connectTimeout :: "int option"
  conn_http2 :: bool
  conn_maxConnections :: "int option"
  conn_maxPendingRequests :: "int option"

record UpstreamSpec =
  ups_endpoints :: "Endpoint list"
  ups_dns :: "DNSEndpointSource option"
  ups_kubernetesService :: "KubernetesServiceSource option"
  ups_loadBalancer :: "LoadBalancer option"
  ups_healthCheck :: "HealthCheck option"
  ups_tls :: "UpstreamTLS option"
  ups_connection :: "UpstreamConnection option"
  ups_envoyPatch :: "EnvoyPatch list"

record EnvoyResourcesSpec =
  ers_resources :: "jsval list"
  ers_allowOverride :: bool

section \<open>Addresses\<close>

text \<open>\<open>url.URL\<close> as far as it is read: \<open>Scheme\<close>, \<open>Host\<close>, \<open>Hostname()\<close>, \<open>Port()\<close>, whether \<open>User\<close> is set,
  \<open>RawQuery\<close>, \<open>Fragment\<close> and \<open>EscapedPath()\<close>.  A \<open>netip.Prefix\<close> is the text of its masked address and its length.\<close>

record url =
  url_scheme :: string
  url_host :: string
  url_hostname :: string
  url_port :: string
  url_hasUser :: bool
  url_rawQuery :: string
  url_fragment :: string
  url_escapedPath :: string

record net_lib =
  nl_parsePrefix :: "string \<Rightarrow> (string \<times> int) option"
  nl_parseURL :: "string \<Rightarrow> string + url"

text \<open>\<open>net.SplitHostPort\<close>.\<close>

definition before_last :: "char \<Rightarrow> string \<Rightarrow> (string \<times> string) option" where
  "before_last c s =
     (if c \<in> set s
      then Some (rev (tl (dropWhile (\<lambda>d. d \<noteq> c) (rev s))), rev (takeWhile (\<lambda>d. d \<noteq> c) (rev s)))
      else None)"

definition addr_error :: "string \<Rightarrow> string \<Rightarrow> string + 'a" where
  "addr_error a why = Inl (''address '' @ a @ '': '' @ why)"

definition SplitHostPort :: "string \<Rightarrow> string + (string \<times> string)" where
  "SplitHostPort s =
     (case before_last (CHR '':'') s of
        None \<Rightarrow> addr_error s ''missing port in address''
      | Some (front, port) \<Rightarrow>
          if hd s = CHR ''['' then
            if CHR '']'' \<notin> set s then addr_error s ''missing ']' in address''
            else let host = takeWhile (\<lambda>c. c \<noteq> CHR '']'') (tl s);
                     rest = drop (length host + 2) s in
              if rest = [] then addr_error s ''missing port in address''
              else if length host + 2 \<noteq> length front then
                addr_error s (if hd rest = CHR '':'' then ''too many colons in address'' else ''missing port in address'')
              else if CHR ''['' \<in> set (tl s) then addr_error s ''unexpected '[' in address''
              else if CHR '']'' \<in> set rest then addr_error s ''unexpected ']' in address''
              else Inr (host, port)
          else if CHR '':'' \<in> set front then addr_error s ''too many colons in address''
          else if CHR ''['' \<in> set s then addr_error s ''unexpected '[' in address''
          else if CHR '']'' \<in> set s then addr_error s ''unexpected ']' in address''
          else Inr (front, port))"

text \<open>\<open>net.JoinHostPort\<close>.\<close>

definition JoinHostPort :: "string \<Rightarrow> string \<Rightarrow> string" where
  "JoinHostPort host port = (if CHR '':'' \<in> set host then ''['' @ host @ '']:'' @ port else host @ '':'' @ port)"

text \<open>\<open>strconv.Atoi\<close>: an optional sign and digits, in the range of \<open>int\<close>.\<close>

definition digits_value :: "string \<Rightarrow> int" where
  "digits_value = foldl (\<lambda>n c. 10 * n + (of_char c - 48)) 0"

definition Atoi :: "string \<Rightarrow> int option" where
  "Atoi s =
     (let neg = (s \<noteq> [] \<and> hd s = CHR ''-'');
          ds = (if s \<noteq> [] \<and> (hd s = CHR ''-'' \<or> hd s = CHR ''+'') then tl s else s);
          n = (if neg then - digits_value ds else digits_value ds)
      in if ds = [] \<or> \<not> list_all is_digit ds \<or> n < - (2 ^ 63) \<or> 2 ^ 63 \<le> n then None else Some n)"

definition validateHostPort :: "string \<Rightarrow> string option" where
  "validateHostPort address =
     (if address = [] \<or> trim_space address \<noteq> address
      then Some ''must be a non-empty host:port without surrounding whitespace''
      else case SplitHostPort address of
          Inl e \<Rightarrow> Some (''invalid host:port '' @ go_quote address)
        | Inr (host, port) \<Rightarrow>
            if host = [] then Some (''invalid host:port '' @ go_quote address)
            else case Atoi port of
                None \<Rightarrow> Some (''invalid port '' @ go_quote port @ '' (want 1-65535)'')
              | Some n \<Rightarrow> fault_if (n < 1 \<or> 65535 < n) (''invalid port '' @ go_quote port @ '' (want 1-65535)''))"

definition validateExtAuthHTTP :: "net_lib \<Rightarrow> ExtAuthHTTP \<Rightarrow> string option" where
  "validateExtAuthHTTP N h =
     (case nl_parseURL N (xah_address h) of
        Inl e \<Rightarrow> Some (''address: invalid HTTP(S) URL '' @ go_quote (xah_address h))
      | Inr u \<Rightarrow>
          or_else (fault_if (url_scheme u \<noteq> ''http'' \<and> url_scheme u \<noteq> ''https'' \<or> url_hostname u = [])
                     (''address: invalid HTTP(S) URL '' @ go_quote (xah_address h)))
         (or_else (fault_if (url_hasUser u \<or> url_rawQuery u \<noteq> [] \<or> url_fragment u \<noteq> [] \<or>
                             url_escapedPath u \<noteq> [] \<and> url_escapedPath u \<noteq> ''/'')
                     ''address: userinfo, path, query and fragment are not allowed'')
         (or_else (map_option (\<lambda>e. ''address: '' @ e) (validateHostPort (url_host u)))
         (or_else (fault_if (xah_pathPrefix h \<noteq> [] \<and> \<not> prefix ''/'' (xah_pathPrefix h)) ''pathPrefix: must start with /'')
         (or_else (fault_if (url_scheme u = ''https'' \<and> xah_caFile h = [] \<and> \<not> xah_insecureSkipVerify h)
                     ''caFile is required for HTTPS unless insecureSkipVerify is true'')
                  (fault_if (url_scheme u = ''http'' \<and> (xah_caFile h \<noteq> [] \<or> xah_insecureSkipVerify h))
                     ''caFile and insecureSkipVerify are only allowed for HTTPS''))))))"

section \<open>Validation of the policies\<close>

text \<open>\<open>headerNameRE\<close>: \<open>[!#$%&'*+\-.^_`|~0-9A-Za-z]+\<close>.\<close>

definition header_name_char :: "char \<Rightarrow> bool" where
  "header_name_char c \<longleftrightarrow> c \<in> set ''!#$%&*+-.^_|~'' \<union> {CHR 0x27, CHR 0x60} \<or> is_digit c \<or>
     65 \<le> (of_char c :: nat) \<and> (of_char c :: nat) \<le> 90 \<or> 97 \<le> (of_char c :: nat) \<and> (of_char c :: nat) \<le> 122"

definition headerNameRE :: "string \<Rightarrow> bool" where
  "headerNameRE s \<longleftrightarrow> s \<noteq> [] \<and> list_all header_name_char s"

text \<open>\<open>strings.CutPrefix\<close>.\<close>

definition CutPrefix :: "string \<Rightarrow> string \<Rightarrow> string option" where
  "CutPrefix s p = (if prefix p s then Some (drop (length p) s) else None)"

definition validate_rateLimit :: "string \<Rightarrow> RateLimitPolicy \<Rightarrow> string option" where
  "validate_rateLimit field r =
     or_else (fault_if (rl_requests r \<le> 0) (field @ ''.rateLimit.requests: must be > 0''))
    (or_else (fault_if (\<not> RateLimitUnit_Valid (rl_unit r))
                (field @ ''.rateLimit.unit: invalid value '' @ go_quote (rl_unit r) @ '' (want second | minute | hour)''))
    (or_else (case rl_burst r of None \<Rightarrow> None | Some b \<Rightarrow> fault_if (b \<le> 0) (field @ ''.rateLimit.burst: must be > 0''))
    (or_else (if rl_key r \<noteq> [] \<and> rl_key r \<noteq> RateLimitKeyClientIP
              then fault_if (case CutPrefix (rl_key r) RateLimitKeyHeaderPrefix of None \<Rightarrow> True | Some h \<Rightarrow> \<not> headerNameRE h)
                     (field @ ''.rateLimit.key: invalid value '' @ go_quote (rl_key r) @ '' (want clientIP | header:<valid HTTP field name>)'')
              else None)
             (case rl_maxKeys r of None \<Rightarrow> None
              | Some m \<Rightarrow> fault_if (m < RateLimitMinMaxKeys \<or> RateLimitMaxMaxKeys < m)
                  (field @ ''.rateLimit.maxKeys: must be between '' @ string_of_int RateLimitMinMaxKeys @ '' and '' @
                   string_of_int RateLimitMaxMaxKeys)))))"

definition validate_extAuth :: "net_lib \<Rightarrow> string \<Rightarrow> ExtAuthPolicy \<Rightarrow> string option" where
  "validate_extAuth N field e =
     (case (xa_grpc e, xa_http e) of
        (Some _, Some _) \<Rightarrow> Some (field @ ''.extAuth: grpc and http are mutually exclusive'')
      | (None, None) \<Rightarrow> fault_if (\<not> xa_disabled e) (field @ ''.extAuth: one of grpc | http is required (unless disabled: true)'')
      | (Some a, None) \<Rightarrow>
          if xa_disabled e then Some (field @ ''.extAuth: disabled cannot be combined with grpc or http'')
          else map_option (\<lambda>m. field @ ''.extAuth.grpc.address: '' @ m) (validateHostPort a)
      | (None, Some h) \<Rightarrow>
          if xa_disabled e then Some (field @ ''.extAuth: disabled cannot be combined with grpc or http'')
          else map_option (\<lambda>m. field @ ''.extAuth.http: '' @ m) (validateExtAuthHTTP N h))"

definition validate_cidrs :: "net_lib \<Rightarrow> string \<Rightarrow> string list \<Rightarrow> string option" where
  "validate_cidrs N field cs =
     first_error (\<lambda>i c. fault_if (nl_parsePrefix N c = None) (index_text field i @ '': invalid CIDR '' @ go_quote c)) 0 cs"

definition policy_types :: "PolicySpec \<Rightarrow> bool list" where
  "policy_types s = [pol_headerModifier s \<noteq> None, pol_cors s \<noteq> None, pol_rateLimit s \<noteq> None, pol_jwt s \<noteq> None,
     pol_extAuth s \<noteq> None, pol_ipAccess s \<noteq> None, pol_basicAuth s \<noteq> None]"

definition PolicySpec_validate :: "net_lib \<Rightarrow> string \<Rightarrow> PolicySpec \<Rightarrow> string option" where
  "PolicySpec_validate N field s =
     or_else (fault_if (count_set (policy_types s) \<noteq> 1)
                (field @ '': exactly one policy type key (headerModifier | cors | rateLimit | jwt | extAuth | ipAccess | basicAuth) is required, got '' @
                 string_of_nat (count_set (policy_types s))))
    (or_else (case pol_rateLimit s of None \<Rightarrow> None | Some r \<Rightarrow> validate_rateLimit field r)
    (or_else (case pol_jwt s of None \<Rightarrow> None
              | Some j \<Rightarrow> (case jwt_jwks j of None \<Rightarrow> None
                  | Some k \<Rightarrow> fault_if ((jwks_uri k = []) = (jwks_file k = [])) (field @ ''.jwt.jwks: exactly one of uri | file is required'')))
    (or_else (case pol_extAuth s of None \<Rightarrow> None | Some e \<Rightarrow> validate_extAuth N field e)
    (or_else (case pol_ipAccess s of None \<Rightarrow> None
              | Some ip \<Rightarrow> or_else (validate_cidrs N (field @ ''.ipAccess.allow'') (ipa_allow ip))
                                    (validate_cidrs N (field @ ''.ipAccess.deny'') (ipa_deny ip)))
             (case pol_basicAuth s of None \<Rightarrow> None
              | Some b \<Rightarrow> fault_if (b = []) (field @ ''.basicAuth.users: is required''))))))"

definition name_fault :: "string \<Rightarrow> string option" where
  "name_fault n = fault_if (\<not> ValidateName n)
     (''invalid name '' @ go_quote n @ '': must match ^[a-z0-9]([a-z0-9-]{0,61}[a-z0-9])?$'')"

definition validatePolicyAttachments :: "net_lib \<Rightarrow> string \<Rightarrow> PolicyAttachment list \<Rightarrow> string option" where
  "validatePolicyAttachments N field ps =
     first_error (\<lambda>i p. let f = index_text field i in
       (case pa_inline p of
          Some s \<Rightarrow> PolicySpec_validate N f s
        | None \<Rightarrow> if pa_ref p \<noteq> [] then map_option (\<lambda>e. f @ '': '' @ e) (name_fault (pa_ref p))
                  else Some (f @ '': empty policy attachment''))) 0 ps"

section \<open>Validation of the objects\<close>

definition GatewaySpec_validate :: "net_lib \<Rightarrow> GatewaySpec \<Rightarrow> string option" where
  "GatewaySpec_validate N s =
     or_else (case gws_accessLog s of None \<Rightarrow> None
              | Some a \<Rightarrow> fault_if (al_format a \<noteq> [] \<and> \<not> AccessLogFormat_Valid (al_format a))
                  (''spec.accessLog.format: invalid value '' @ go_quote (al_format a) @ '' (want json | text)''))
    (or_else (validatePolicyAttachments N ''spec.policies'' (gws_policies s))
             (validateEnvoyPatches ''spec.envoyPatch'' (gws_envoyPatch s)))"

definition port_fault :: "string \<Rightarrow> int \<Rightarrow> string option" where
  "port_fault field p = fault_if (p < 1 \<or> 65535 < p) (field @ '': invalid port '' @ string_of_int p @ '' (want 1-65535)'')"

definition Certificate_validate :: "string \<Rightarrow> Certificate \<Rightarrow> string option" where
  "Certificate_validate field c =
     (let hasRef = (crt_ref c \<noteq> []); hasFiles = (crt_certFile c \<noteq> [] \<or> crt_keyFile c \<noteq> []) in
      if hasRef \<and> hasFiles then Some (field @ '': certificate is oneOf {certFile+keyFile} or {ref}, got both'')
      else if hasRef then None
      else fault_if (crt_certFile c = [] \<or> crt_keyFile c = []) (field @ '': certFile and keyFile must be set together''))"

definition ListenerSpec_validate :: "net_lib \<Rightarrow> ListenerSpec \<Rightarrow> string option" where
  "ListenerSpec_validate N s =
     or_else (port_fault ''spec.port'' (lsn_port s))
    (or_else (fault_if (\<not> ListenerProtocol_Valid (lsn_protocol s))
                (''spec.protocol: invalid value '' @ go_quote (lsn_protocol s) @ '' (want HTTP | HTTPS | TCP | TLS | UDP)''))
    (or_else (case lsn_tls s of None \<Rightarrow> None
              | Some t \<Rightarrow>
                  or_else (fault_if (ltls_minVersion t \<noteq> [] \<and> \<not> TLSVersion_Valid (ltls_minVersion t))
                             (''spec.tls.minVersion: invalid value '' @ go_quote (ltls_minVersion t) @ '' (want '' @
                              go_quote ''1.2'' @ '' | '' @ go_quote ''1.3'' @ '')''))
                          (first_error (\<lambda>i. Certificate_validate (index_text ''spec.tls.certificates'' i)) 0 (ltls_certificates t)))
    (or_else (validatePolicyAttachments N ''spec.policies'' (lsn_policies s))
             (validateEnvoyPatches ''spec.envoyPatch'' (lsn_envoyPatch s)))))"

definition KeyValueMatch_validate :: "string \<Rightarrow> KeyValueMatch \<Rightarrow> string option" where
  "KeyValueMatch_validate field m =
     (let forms = count_set [kvm_exact m \<noteq> [], kvm_regex m \<noteq> [], kvm_present m \<noteq> None] in
      or_else (fault_if (kvm_name m = []) (field @ ''.name: is required''))
              (fault_if (forms \<noteq> 1) (field @ '': exactly one of exact | regex | present is required, got '' @ string_of_nat forms)))"

definition RuleMatch_validate :: "string \<Rightarrow> RuleMatch \<Rightarrow> string option" where
  "RuleMatch_validate field m =
     or_else (case rm_path m of None \<Rightarrow> None
              | Some p \<Rightarrow> let forms = count_set [pm_exact p \<noteq> [], pm_prefix p \<noteq> [], pm_regex p \<noteq> []] in
                  fault_if (forms \<noteq> 1) (field @ ''.path: exactly one of exact | prefix | regex is required, got '' @ string_of_nat forms))
    (or_else (first_error (\<lambda>i. KeyValueMatch_validate (index_text (field @ ''.headers'') i)) 0 (rm_headers m))
             (first_error (\<lambda>i. KeyValueMatch_validate (index_text (field @ ''.queryParams'') i)) 0 (rm_queryParams m)))"

definition Rule_validate :: "net_lib \<Rightarrow> string \<Rightarrow> Rule \<Rightarrow> string option" where
  "Rule_validate N field r =
     (let actions = count_set [rule_backends r \<noteq> [], rule_redirect r \<noteq> None, rule_directResponse r \<noteq> None] in
      or_else (RuleMatch_validate (field @ ''.match'') (rule_match r))
     (or_else (first_error (\<lambda>i b. fault_if (bk_upstream b = []) (index_text (field @ ''.backends'') i @ ''.upstream: is required''))
                 0 (rule_backends r))
     (or_else (fault_if (actions \<noteq> 1)
                 (field @ '': exactly one of backends | redirect | directResponse is required, got '' @ string_of_nat actions))
     (or_else (case rule_rewrite r of None \<Rightarrow> None
               | Some w \<Rightarrow> fault_if (1 < count_set [rw_pathPrefix w \<noteq> [], rw_path w \<noteq> [], rw_regex w \<noteq> None])
                   (field @ ''.rewrite: pathPrefix | path | regex are mutually exclusive''))
     (or_else (case rule_retry r of None \<Rightarrow> None
               | Some t \<Rightarrow> first_error (\<lambda>i on. fault_if (\<not> RetryOn_Valid on)
                   (index_text (field @ ''.retry.on'') i @ '': invalid value '' @ go_quote on @
                    '' (want 5xx | gateway-error | connect-failure | reset | retriable-4xx)'')) 0 (rty_on t))
              (validatePolicyAttachments N (field @ ''.policies'') (rule_policies r)))))))"

text \<open>The rules in turn, with the names met so far and the index of each.\<close>

fun validate_rules :: "net_lib \<Rightarrow> nat \<Rightarrow> (string \<rightharpoonup> nat) \<Rightarrow> Rule list \<Rightarrow> string option" where
  "validate_rules N i names [] = None"
| "validate_rules N i names (r # rs) =
     (let field = index_text ''spec.rules'' i; n = rule_name r in
      or_else (Rule_validate N field r)
     (or_else (if n = [] then None
               else or_else (map_option (\<lambda>e. field @ ''.name: '' @ e) (name_fault n))
                 (case names n of None \<Rightarrow> None
                  | Some prev \<Rightarrow> Some (field @ ''.name: duplicate rule name '' @ go_quote n @ '' (first at '' @
                      index_text ''spec.rules'' prev @ '')'')))
              (validate_rules N (Suc i) (if n = [] then names else names(n \<mapsto> i)) rs)))"

definition RouteSpec_validate :: "net_lib \<Rightarrow> RouteSpec \<Rightarrow> string option" where
  "RouteSpec_validate N s =
     or_else (fault_if (rts_listeners s = []) ''spec.listeners: at least one listener is required'')
    (or_else (case rts_forward s of None \<Rightarrow> None
              | Some f \<Rightarrow> fault_if (fwd_upstream f = []) ''spec.forward.upstream: is required'')
    (or_else (validatePolicyAttachments N ''spec.policies'' (rts_policies s))
    (or_else (validate_rules N 0 Map.empty (rts_rules s))
             (validateEnvoyPatches ''spec.envoyPatch'' (rts_envoyPatch s)))))"

definition Endpoint_validate :: "nat \<Rightarrow> Endpoint \<Rightarrow> string option" where
  "Endpoint_validate i e =
     or_else (fault_if (epn_address e = []) (index_text ''spec.endpoints'' i @ ''.address: is required''))
             (port_fault (index_text ''spec.endpoints'' i @ ''.port'') (epn_port e))"

definition upstream_sources :: "UpstreamSpec \<Rightarrow> nat" where
  "upstream_sources s = count_set [ups_endpoints s \<noteq> [], ups_dns s \<noteq> None, ups_kubernetesService s \<noteq> None]"

definition upstreamCircuitBreakerMax :: int where "upstreamCircuitBreakerMax = 2147483647"

definition breaker_fault :: "string \<Rightarrow> int option \<Rightarrow> string option" where
  "breaker_fault n v = (case v of None \<Rightarrow> None
     | Some x \<Rightarrow> fault_if (x < 1 \<or> upstreamCircuitBreakerMax < x)
         (''spec.connection.'' @ n @ '': must be between 1 and '' @ string_of_int upstreamCircuitBreakerMax))"

definition UpstreamSpec_validate :: "UpstreamSpec \<Rightarrow> string option" where
  "UpstreamSpec_validate s =
     or_else (first_error Endpoint_validate 0 (ups_endpoints s))
    (or_else (case ups_dns s of None \<Rightarrow> None
              | Some d \<Rightarrow>
                  or_else (fault_if (dns_hostname d = []) ''spec.dns.hostname: is required'')
                 (or_else (port_fault ''spec.dns.port'' (dns_port d))
                          (fault_if (dns_resolution d \<noteq> [] \<and> \<not> DNSResolution_Valid (dns_resolution d))
                             (''spec.dns.resolution: invalid value '' @ go_quote (dns_resolution d) @ '' (want logical | strict)''))))
    (or_else (case ups_kubernetesService s of None \<Rightarrow> None
              | Some k \<Rightarrow>
                  or_else (fault_if (k8s_namespace k = [] \<or> k8s_name k = []) ''spec.kubernetesService: namespace and name are required'')
                          (port_fault ''spec.kubernetesService.port'' (k8s_port k)))
    (or_else (fault_if (upstream_sources s \<noteq> 1)
                (''spec: exactly one endpoint source of endpoints | dns | kubernetesService is required, got '' @
                 string_of_nat (upstream_sources s)))
    (or_else (case ups_loadBalancer s of None \<Rightarrow> None
              | Some b \<Rightarrow>
                  or_else (fault_if (lb_policy b \<noteq> [] \<and> \<not> LBPolicy_Valid (lb_policy b))
                             (''spec.loadBalancer.policy: invalid value '' @ go_quote (lb_policy b) @
                              '' (want roundRobin | leastRequest | random | ringHash | maglev)''))
                          (first_error (\<lambda>i h. fault_if (h = []) (index_text ''spec.loadBalancer.hashOn'' i @ ''.header: is required''))
                             0 (lb_hashOn b)))
    (or_else (case ups_healthCheck s of None \<Rightarrow> None
              | Some h \<Rightarrow> let probes = count_set [hck_http h \<noteq> None, hck_tcp h] in
                  fault_if (probes \<noteq> 1) (''spec.healthCheck: exactly one of http | tcp is required, got '' @ string_of_nat probes))
    (or_else (case ups_connection s of None \<Rightarrow> None
              | Some c \<Rightarrow> or_else (breaker_fault ''maxConnections'' (conn_maxConnections c))
                                   (breaker_fault ''maxPendingRequests'' (conn_maxPendingRequests c)))
             (validateEnvoyPatches ''spec.envoyPatch'' (ups_envoyPatch s))))))))"

text \<open>Each resource is an object with a text that is not empty under \<open>@type\<close>.\<close>

definition resource_type :: "jsval \<Rightarrow> string option" where
  "resource_type v = go_struct (go_field go_text [] ''@type'') v"

definition EnvoyResourcesSpec_validate :: "EnvoyResourcesSpec \<Rightarrow> string option" where
  "EnvoyResourcesSpec_validate s =
     first_error (\<lambda>i v. fault_if (resource_type v = None \<or> resource_type v = Some [])
       (index_text ''spec.resources'' i @ '': each resource must be a JSON object carrying a non-empty '' @ go_quote ''@type'')) 0
       (ers_resources s)"

section \<open>What an accepted spec satisfies\<close>

lemma count_set_simps [simp]: "count_set [] = 0" "count_set (b # bs) = (if b then 1 else 0) + count_set bs"
  by (simp_all add: count_set_def)

text \<open>The rules of an accepted route have distinct names, apart from those without one.\<close>

lemma validate_rules_None:
  "validate_rules N i names rs = None \<longleftrightarrow>
     (\<forall>j < length rs. Rule_validate N (index_text ''spec.rules'' (i + j)) (rs ! j) = None) \<and>
     (\<forall>r \<in> set rs. rule_name r \<noteq> [] \<longrightarrow> ValidateName (rule_name r) \<and> names (rule_name r) = None) \<and>
     distinct (filter (\<lambda>n. n \<noteq> []) (map rule_name rs))"
proof (induction rs arbitrary: i names)
  case (Cons r rs)
  let ?n = "rule_name r" and ?names' = "if rule_name r = [] then names else names(rule_name r \<mapsto> i)"
  have names: "(\<forall>q \<in> set rs. rule_name q \<noteq> [] \<longrightarrow> ValidateName (rule_name q) \<and> ?names' (rule_name q) = None) \<longleftrightarrow>
    (\<forall>q \<in> set rs. rule_name q \<noteq> [] \<longrightarrow> ValidateName (rule_name q) \<and> names (rule_name q) = None) \<and>
    (?n \<noteq> [] \<longrightarrow> ?n \<notin> rule_name ` set rs)"
    by (auto split: if_splits) (metis imageI)
  have rules: "(\<forall>j < length (r # rs). P (i + j) ((r # rs) ! j)) \<longleftrightarrow> P i r \<and> (\<forall>j < length rs. P (Suc i + j) (rs ! j))" for P
    by (auto simp: less_Suc_eq_0_disj)
  show ?case
    unfolding rules [of "\<lambda>k x. Rule_validate N (index_text ''spec.rules'' k) x = None"] validate_rules.simps Let_def or_else_None Cons.IH names
    by (auto simp: name_fault_def split: option.splits)
qed simp

end
