(* ===== verification/ProtocolDefaults.thy ===== *)
theory ProtocolDefaults
  imports ProtocolSpec
begin

text \<open>
  The loaded configuration as the compiler takes it, and the defaults it fills in
  (\<open>internal/protocol/defaults.go\<close>, the \<open>ConfigSet\<close> of \<open>load.go\<close>).  \<open>ApplyDefaults\<close> changes the objects in
  place; here it returns the configuration it leaves.
\<close>

record 's protocol_object =
  po_apiVersion :: string
  po_kind :: string
  po_metadata :: object_meta
  po_spec :: 's
  po_origin :: origin

type_synonym Gateway = "GatewaySpec protocol_object"
type_synonym Listener = "ListenerSpec protocol_object"
type_synonym Route = "RouteSpec protocol_object"
type_synonym Upstream = "UpstreamSpec protocol_object"
type_synonym Policy = "PolicySpec protocol_object"
type_synonym EnvoyResources = "EnvoyResourcesSpec protocol_object"

record ConfigSet =
  cfg_gateway :: "Gateway option"
  cfg_listeners :: "Listener list"
  cfg_routes :: "Route list"
  cfg_upstreams :: "Upstream list"
  cfg_policies :: "Policy list"
  cfg_envoyResources :: "EnvoyResources list"

abbreviation po_name :: "'s protocol_object \<Rightarrow> string" where
  "po_name x \<equiv> om_name (po_metadata x)"

definition on_spec :: "('s \<Rightarrow> 's) \<Rightarrow> 's protocol_object \<Rightarrow> 's protocol_object" where
  "on_spec f x = x\<lparr>po_spec := f (po_spec x)\<rparr>"

lemma on_spec_simps [simp]: "po_spec (on_spec f x) = f (po_spec x)" "po_metadata (on_spec f x) = po_metadata x"
  "po_origin (on_spec f x) = po_origin x" "po_kind (on_spec f x) = po_kind x"
  by (simp_all add: on_spec_def)

lemma on_spec_on_spec: "on_spec f (on_spec g x) = on_spec (f \<circ> g) x"
  by (simp add: on_spec_def)

section \<open>Values\<close>

definition second :: int where "second = 1000000000"

definition DefaultIdleTimeout :: int where "DefaultIdleTimeout = 60 * second"
definition DefaultMaxRequestHeadersKB :: int where "DefaultMaxRequestHeadersKB = 60"
definition DefaultServerHeader :: string where "DefaultServerHeader = ''esgw''"
definition DefaultListenerAddress :: string where "DefaultListenerAddress = ''0.0.0.0''"
definition DefaultTLSMinVersion :: string where "DefaultTLSMinVersion = ''1.2''"
definition DefaultRuleTimeout :: int where "DefaultRuleTimeout = 15 * second"
definition DefaultDNSResolution :: string where "DefaultDNSResolution = ''logical''"
definition DefaultLBPolicy :: string where "DefaultLBPolicy = ''roundRobin''"
definition DefaultConnectTimeout :: int where "DefaultConnectTimeout = 5 * second"
definition DefaultALPN :: "string list" where "DefaultALPN = [''h2'', ''http/1.1'']"
definition DefaultExpectedStatuses :: "int list" where "DefaultExpectedStatuses = [200]"

definition default_to :: "'a \<Rightarrow> 'a option \<Rightarrow> 'a option" where
  "default_to d v = (case v of None \<Rightarrow> Some d | Some x \<Rightarrow> Some x)"

definition default_list :: "'a list \<Rightarrow> 'a list \<Rightarrow> 'a list" where
  "default_list d v = (if v = [] then d else v)"

lemma default_to_simps [simp]: "default_to d v \<noteq> None" "default_to d (default_to e v) = default_to e v" "default_to d (Some x) = Some x"
  by (simp_all add: default_to_def split: option.split)

lemma default_list_simps [simp]: "d \<noteq> [] \<Longrightarrow> default_list d v \<noteq> []" "e \<noteq> [] \<Longrightarrow> default_list d (default_list e v) = default_list e v"
  by (simp_all add: default_list_def)

section \<open>Filling in\<close>

definition applyRateLimitDefaults :: "RateLimitPolicy \<Rightarrow> RateLimitPolicy" where
  "applyRateLimitDefaults r =
     r\<lparr>rl_burst := default_to (rl_requests r) (rl_burst r), rl_key := default_list RateLimitKeyClientIP (rl_key r),
       rl_maxKeys := default_to RateLimitDefaultMaxKeys (rl_maxKeys r)\<rparr>"

definition policy_defaults :: "PolicySpec \<Rightarrow> PolicySpec" where
  "policy_defaults p = p\<lparr>pol_rateLimit := map_option applyRateLimitDefaults (pol_rateLimit p)\<rparr>"

definition attachment_defaults :: "PolicyAttachment \<Rightarrow> PolicyAttachment" where
  "attachment_defaults a = a\<lparr>pa_inline := map_option policy_defaults (pa_inline a)\<rparr>"

definition empty_http :: HTTPDefaults where
  "empty_http = \<lparr>htd_idleTimeout = None, htd_maxRequestHeadersKb = None, htd_serverHeader = None\<rparr>"

definition empty_gateway :: Gateway where
  "empty_gateway = \<lparr>po_apiVersion = APIVersionV1Alpha1, po_kind = ''Gateway'', po_metadata = \<lparr>om_name = DefaultGatewayName, om_labels = []\<rparr>,
     po_spec = \<lparr>gws_accessLog = None, gws_http = None, gws_policies = [], gws_envoyPatch = []\<rparr>,
     po_origin = \<lparr>or_file = [], or_docIndex = 0\<rparr>\<rparr>"

definition gateway_http :: "GatewaySpec \<Rightarrow> HTTPDefaults" where
  "gateway_http g = (case gws_http g of None \<Rightarrow> empty_http | Some h \<Rightarrow> h)"

definition gateway_defaults :: "GatewaySpec \<Rightarrow> GatewaySpec" where
  "gateway_defaults g =
     g\<lparr>gws_http := (let h = gateway_http g in
         Some \<lparr>htd_idleTimeout = default_to DefaultIdleTimeout (htd_idleTimeout h),
           htd_maxRequestHeadersKb = default_to DefaultMaxRequestHeadersKB (htd_maxRequestHeadersKb h),
           htd_serverHeader = default_to DefaultServerHeader (htd_serverHeader h)\<rparr>),
       gws_policies := map attachment_defaults (gws_policies g)\<rparr>"

definition tls_defaults :: "ListenerTLS \<Rightarrow> ListenerTLS" where
  "tls_defaults t = t\<lparr>ltls_minVersion := default_list DefaultTLSMinVersion (ltls_minVersion t),
     ltls_alpn := default_list DefaultALPN (ltls_alpn t)\<rparr>"

definition isHTTPProtocol :: "string \<Rightarrow> bool" where
  "isHTTPProtocol p \<longleftrightarrow> p = ''HTTP'' \<or> p = ''HTTPS''"

definition listener_http :: "ListenerSpec \<Rightarrow> ListenerHTTP" where
  "listener_http s = (case lsn_http s of None \<Rightarrow> \<lparr>lhttp_http2 = None, lhttp_http3 = False\<rparr> | Some h \<Rightarrow> h)"

definition listener_defaults :: "ListenerSpec \<Rightarrow> ListenerSpec" where
  "listener_defaults s =
     s\<lparr>lsn_address := default_list DefaultListenerAddress (lsn_address s),
       lsn_tls := map_option tls_defaults (lsn_tls s),
       lsn_http := (if isHTTPProtocol (lsn_protocol s)
         then (let h = listener_http s in Some (h\<lparr>lhttp_http2 := default_to (lsn_protocol s = ''HTTPS'') (lhttp_http2 h)\<rparr>))
         else lsn_http s),
       lsn_policies := map attachment_defaults (lsn_policies s)\<rparr>"

definition rule_defaults :: "Rule \<Rightarrow> Rule" where
  "rule_defaults r = r\<lparr>rule_timeout := default_to DefaultRuleTimeout (rule_timeout r),
     rule_policies := map attachment_defaults (rule_policies r)\<rparr>"

definition route_defaults :: "RouteSpec \<Rightarrow> RouteSpec" where
  "route_defaults s = s\<lparr>rts_policies := map attachment_defaults (rts_policies s), rts_rules := map rule_defaults (rts_rules s)\<rparr>"

definition health_defaults :: "HealthCheck \<Rightarrow> HealthCheck" where
  "health_defaults h = h\<lparr>hck_http := map_option
     (\<lambda>q. q\<lparr>hhc_expectedStatuses := default_list DefaultExpectedStatuses (hhc_expectedStatuses q)\<rparr>) (hck_http h)\<rparr>"

definition upstream_balancer :: "UpstreamSpec \<Rightarrow> LoadBalancer" where
  "upstream_balancer s = (case ups_loadBalancer s of None \<Rightarrow> \<lparr>lb_policy = [], lb_hashOn = []\<rparr> | Some b \<Rightarrow> b)"

definition upstream_connection :: "UpstreamSpec \<Rightarrow> UpstreamConnection" where
  "upstream_connection s = (case ups_connection s of
     None \<Rightarrow> \<lparr>conn_connectTimeout = None, conn_http2 = False, conn_maxConnections = None, conn_maxPendingRequests = None\<rparr>
   | Some c \<Rightarrow> c)"

definition upstream_defaults :: "UpstreamSpec \<Rightarrow> UpstreamSpec" where
  "upstream_defaults s =
     s\<lparr>ups_dns := map_option (\<lambda>d. d\<lparr>dns_resolution := default_list DefaultDNSResolution (dns_resolution d)\<rparr>) (ups_dns s),
       ups_loadBalancer := (let b = upstream_balancer s in Some (b\<lparr>lb_policy := default_list DefaultLBPolicy (lb_policy b)\<rparr>)),
       ups_healthCheck := map_option health_defaults (ups_healthCheck s),
       ups_connection := (let c = upstream_connection s in
         Some (c\<lparr>conn_connectTimeout := default_to DefaultConnectTimeout (conn_connectTimeout c)\<rparr>))\<rparr>"

definition ApplyDefaults :: "ConfigSet \<Rightarrow> ConfigSet" where
  "ApplyDefaults cs =
     cs\<lparr>cfg_gateway := Some (on_spec gateway_defaults (case cfg_gateway cs of None \<Rightarrow> empty_gateway | Some g \<Rightarrow> g)),
        cfg_listeners := map (on_spec listener_defaults) (cfg_listeners cs),
        cfg_routes := map (on_spec route_defaults) (cfg_routes cs),
        cfg_upstreams := map (on_spec upstream_defaults) (cfg_upstreams cs),
        cfg_policies := map (on_spec policy_defaults) (cfg_policies cs)\<rparr>"

section \<open>Filling in once is enough\<close>

lemmas default_values = DefaultListenerAddress_def DefaultTLSMinVersion_def DefaultDNSResolution_def DefaultLBPolicy_def
  DefaultALPN_def DefaultExpectedStatuses_def RateLimitKeyClientIP_def

lemma rate_defaults_idem [simp]: "applyRateLimitDefaults (applyRateLimitDefaults r) = applyRateLimitDefaults r"
  by (simp add: applyRateLimitDefaults_def default_values)

lemma policy_defaults_idem [simp]: "policy_defaults (policy_defaults p) = policy_defaults p"
  by (simp add: policy_defaults_def option.map_comp comp_def)

lemma attachment_defaults_idem [simp]: "attachment_defaults (attachment_defaults a) = attachment_defaults a"
  by (simp add: attachment_defaults_def option.map_comp comp_def)

lemma gateway_defaults_idem [simp]: "gateway_defaults (gateway_defaults g) = gateway_defaults g"
  by (simp add: gateway_defaults_def gateway_http_def Let_def)

lemma tls_defaults_idem [simp]: "tls_defaults (tls_defaults t) = tls_defaults t"
  by (simp add: tls_defaults_def default_values)

lemma listener_defaults_idem [simp]: "listener_defaults (listener_defaults s) = listener_defaults s"
  by (simp add: listener_defaults_def listener_http_def Let_def option.map_comp comp_def default_values)

lemma rule_defaults_idem [simp]: "rule_defaults (rule_defaults r) = rule_defaults r"
  by (simp add: rule_defaults_def)

lemma route_defaults_idem [simp]: "route_defaults (route_defaults s) = route_defaults s"
  by (simp add: route_defaults_def)

lemma health_defaults_idem [simp]: "health_defaults (health_defaults h) = health_defaults h"
  by (simp add: health_defaults_def option.map_comp comp_def default_values)

lemma upstream_defaults_idem [simp]: "upstream_defaults (upstream_defaults s) = upstream_defaults s"
  by (simp add: upstream_defaults_def upstream_balancer_def upstream_connection_def Let_def option.map_comp comp_def default_values)

lemma map_on_spec_idem: "(\<And>s. f (f s) = f s) \<Longrightarrow> map (on_spec f) (map (on_spec f) xs) = map (on_spec f) xs"
  by (simp add: on_spec_on_spec comp_def)

end
