(* ===== verification/CompileLink.thy ===== *)
theory CompileLink
  imports ProtocolDefaults ConfigServer
begin

text \<open>
  The second stage of the compiler (\<open>internal/compile/link.go\<close>, \<open>errors.go\<close>): defaults, references and the
  checks that span objects.  Every check runs and the errors of all of them are returned, in the order
  of the source.

  \<open>link\<close> changes the configuration in place: the defaults are filled in, and a certificate that is
  taken from the store gets the paths of its files.  Here it returns the configuration it leaves.  The
  maps of the source are indexes by name, and the checks that keep a map of what was claimed so far
  are instances of one loop, \<open>claim_loop\<close>.  Reading certificate files is a parameter.
\<close>

section \<open>Errors\<close>

definition linkError :: "origin \<Rightarrow> string \<Rightarrow> string \<Rightarrow> string \<Rightarrow> string \<Rightarrow> compile_error" where
  "linkError org kind name path m = \<lparr>ce_stage = ''link'', ce_file = or_file org, ce_kind = kind, ce_name = name,
     ce_path = path, ce_message = m, ce_severity = SeverityError\<rparr>"

definition hasErrors :: "compile_error list \<Rightarrow> bool" where
  "hasErrors es = list_ex (\<lambda>e. ce_severity e = SeverityError) es"

definition each :: "(nat \<Rightarrow> 'a \<Rightarrow> 'e list) \<Rightarrow> 'a list \<Rightarrow> 'e list" where
  "each f xs = concat (map (\<lambda>(i, x). f i x) (enumerate 0 xs))"

lemma each_Nil: "each f xs = [] \<longleftrightarrow> (\<forall>i < length xs. f i (xs ! i) = [])"
proof -
  have "each f xs = [] \<longleftrightarrow> (\<forall>p \<in> set (enumerate 0 xs). case p of (i, x) \<Rightarrow> f i x = [])"
    by (auto simp: each_def)
  also have "\<dots> \<longleftrightarrow> (\<forall>i < length xs. f i (xs ! i) = [])"
    by (auto simp: in_set_enumerate_eq)
  finally show ?thesis .
qed

lemma each_Nil_set: "(\<And>i x. f i x = [] \<longleftrightarrow> P x) \<Longrightarrow> each f xs = [] \<longleftrightarrow> (\<forall>x \<in> set xs. P x)"
  by (simp add: each_Nil all_set_conv_all_nth)

text \<open>A loop that claims keys: an item without a key is a fault of its own, and an item whose key an
  earlier one holds is a fault when the two clash.\<close>

fun claim_loop ::
    "('a \<Rightarrow> 'k option) \<Rightarrow> ('a \<Rightarrow> 'e) \<Rightarrow> ('a \<Rightarrow> 'a \<Rightarrow> bool) \<Rightarrow> ('a \<Rightarrow> 'a \<Rightarrow> 'e) \<Rightarrow> ('k \<rightharpoonup> 'a) \<Rightarrow> 'a list \<Rightarrow> 'e list" where
  "claim_loop key bad clash err seen [] = []"
| "claim_loop key bad clash err seen (x # xs) =
     (case key x of
        None \<Rightarrow> bad x # claim_loop key bad clash err seen xs
      | Some k \<Rightarrow>
          (case seen k of
             Some p \<Rightarrow>
               if clash p x then err p x # claim_loop key bad clash err seen xs
               else claim_loop key bad clash err (seen(k \<mapsto> x)) xs
           | None \<Rightarrow> claim_loop key bad clash err (seen(k \<mapsto> x)) xs))"

lemma claim_loop_distinct:
  "claim_loop key bad (\<lambda>_ _. True) err seen xs = [] \<longleftrightarrow>
     (\<forall>x \<in> set xs. key x \<noteq> None) \<and> distinct (map key xs) \<and> (\<forall>x \<in> set xs. \<forall>k. key x = Some k \<longrightarrow> seen k = None)"
proof (induction xs arbitrary: seen)
  case (Cons x xs)
  show ?case
  proof (cases "key x")
    case (Some k)
    then show ?thesis by (force simp: Cons.IH split: option.split)
  qed simp
qed simp

definition claims :: "('a \<Rightarrow> 'k option) \<Rightarrow> ('a \<Rightarrow> 'b) \<Rightarrow> ('k \<rightharpoonup> 'a) \<Rightarrow> 'a list \<Rightarrow> ('k \<times> 'b) set" where
  "claims key owner seen xs = {(k, owner p) |k p. seen k = Some p} \<union> {(k, owner x) |k x. x \<in> set xs \<and> key x = Some k}"

lemma claim_loop_single_valued:
  assumes clash: "\<And>p x. clash p x \<longleftrightarrow> owner p \<noteq> owner x"
  shows "claim_loop key bad clash err seen xs = [] \<longleftrightarrow> (\<forall>x \<in> set xs. key x \<noteq> None) \<and> single_valued (claims key owner seen xs)"
proof (induction xs arbitrary: seen)
  case Nil
  then show ?case by (auto simp: claims_def single_valued_def)
next
  case (Cons x xs)
  show ?case
  proof (cases "key x")
    case (Some k)
    show ?thesis
    proof (cases "\<exists>p. seen k = Some p \<and> clash p x")
      case True
      then obtain p where p: "seen k = Some p" "owner p \<noteq> owner x" by (auto simp: clash)
      then have "(k, owner p) \<in> claims key owner seen (x # xs)" "(k, owner x) \<in> claims key owner seen (x # xs)"
        using Some by (auto simp: claims_def)
      with p have "\<not> single_valued (claims key owner seen (x # xs))" by (auto dest: single_valuedD)
      with Some p show ?thesis by (simp add: clash)
    next
      case False
      then have "claims key owner (seen(k \<mapsto> x)) xs = claims key owner seen (x # xs)"
        using Some by (auto simp: claims_def clash split: if_splits)
      moreover from Some False have "claim_loop key bad clash err seen (x # xs) = claim_loop key bad clash err (seen(k \<mapsto> x)) xs"
        by (auto split: option.split)
      ultimately show ?thesis using Some by (simp add: Cons.IH del: claim_loop.simps fun_upd_apply)
    qed
  qed simp
qed

lemma claim_loop_owner:
  assumes "\<And>p x. clash p x \<longleftrightarrow> owner p \<noteq> owner x"
  shows "claim_loop key bad clash err Map.empty xs = [] \<longleftrightarrow>
     (\<forall>x \<in> set xs. key x \<noteq> None) \<and> (\<forall>x \<in> set xs. \<forall>y \<in> set xs. key x = key y \<longrightarrow> owner x = owner y)"
  unfolding claim_loop_single_valued [OF assms] by (fastforce simp: claims_def single_valued_def)

section \<open>Indexes\<close>

definition index_by_name :: "'s protocol_object list \<Rightarrow> string \<rightharpoonup> 's protocol_object" where
  "index_by_name xs = map_of (rev (map (\<lambda>x. (po_name x, x)) xs))"

lemma index_by_name_None: "index_by_name xs n = None \<longleftrightarrow> n \<notin> po_name ` set xs"
  by (auto simp: index_by_name_def map_of_eq_None_iff image_image)

lemma index_by_name_in: "index_by_name xs n = Some x \<Longrightarrow> x \<in> set xs \<and> po_name x = n"
  by (auto simp: index_by_name_def dest: map_of_SomeD)

lemma index_by_name_eq: "distinct (map po_name xs) \<Longrightarrow> index_by_name xs n = Some x \<longleftrightarrow> x \<in> set xs \<and> po_name x = n"
  by (auto simp: index_by_name_def comp_def rev_map [symmetric] dest: map_of_SomeD)

record linked =
  lk_listeners :: "string \<rightharpoonup> Listener"
  lk_upstreams :: "string \<rightharpoonup> Upstream"
  lk_policies :: "string \<rightharpoonup> Policy"

definition link_index :: "ConfigSet \<Rightarrow> linked" where
  "link_index cs = \<lparr>lk_listeners = index_by_name (cfg_listeners cs), lk_upstreams = index_by_name (cfg_upstreams cs),
     lk_policies = index_by_name (cfg_policies cs)\<rparr>"

record cert_verifier =
  ver_keyPair :: "string \<Rightarrow> string \<Rightarrow> string option"
  ver_caFile :: "string \<Rightarrow> string option"

record compile_options =
  opt_mode :: string
  opt_hasEndpointSource :: bool
  opt_managedCertificateDir :: string

section \<open>References\<close>

definition resolvePolicyRefs :: "origin \<Rightarrow> string \<Rightarrow> string \<Rightarrow> string \<Rightarrow> PolicyAttachment list \<Rightarrow> linked \<Rightarrow> compile_error list" where
  "resolvePolicyRefs org kind name path ps lk =
     each (\<lambda>i p. if pa_ref p \<noteq> [] \<and> lk_policies lk (pa_ref p) = None
       then [linkError org kind name (index_text path i) (''dangling reference: policy '' @ go_quote (pa_ref p) @ '' not found'')]
       else []) ps"

definition upstream_ref :: "Route \<Rightarrow> linked \<Rightarrow> string \<Rightarrow> string \<Rightarrow> compile_error list" where
  "upstream_ref r lk path u =
     (if lk_upstreams lk u = None
      then [linkError (po_origin r) ''Route'' (po_name r) path (''dangling reference: upstream '' @ go_quote u @ '' not found'')]
      else [])"

definition resolve_route :: "linked \<Rightarrow> Route \<Rightarrow> compile_error list" where
  "resolve_route lk r =
     each (\<lambda>i n. if lk_listeners lk n = None
       then [linkError (po_origin r) ''Route'' (po_name r) (index_text ''spec.listeners'' i)
               (''dangling reference: listener '' @ go_quote n @ '' not found'')]
       else []) (rts_listeners (po_spec r)) @
     resolvePolicyRefs (po_origin r) ''Route'' (po_name r) ''spec.policies'' (rts_policies (po_spec r)) lk @
     (case rts_forward (po_spec r) of None \<Rightarrow> []
      | Some f \<Rightarrow> upstream_ref r lk ''spec.forward.upstream'' (fwd_upstream f)) @
     each (\<lambda>i rule.
       each (\<lambda>j b. upstream_ref r lk (index_text (index_text ''spec.rules'' i @ ''.backends'') j @ ''.upstream'') (bk_upstream b))
         (rule_backends rule) @
       resolvePolicyRefs (po_origin r) ''Route'' (po_name r) (index_text ''spec.rules'' i @ ''.policies'') (rule_policies rule) lk)
       (rts_rules (po_spec r))"

definition resolveReferences :: "ConfigSet \<Rightarrow> linked \<Rightarrow> compile_error list" where
  "resolveReferences cs lk =
     (case cfg_gateway cs of None \<Rightarrow> []
      | Some g \<Rightarrow> resolvePolicyRefs (po_origin g) ''Gateway'' (po_name g) ''spec.policies'' (gws_policies (po_spec g)) lk) @
     concat (map (\<lambda>l. resolvePolicyRefs (po_origin l) ''Listener'' (po_name l) ''spec.policies'' (lsn_policies (po_spec l)) lk)
       (cfg_listeners cs)) @
     concat (map (resolve_route lk) (cfg_routes cs))"

section \<open>Listeners and the form of routes\<close>

definition listener_key :: "Listener \<Rightarrow> string" where
  "listener_key l = JoinHostPort (lsn_address (po_spec l)) (string_of_int (lsn_port (po_spec l)))"

definition checkListenerAddressUnique :: "ConfigSet \<Rightarrow> compile_error list" where
  "checkListenerAddressUnique cs =
     claim_loop (\<lambda>l. Some (listener_key l)) (\<lambda>l. linkError (po_origin l) ''Listener'' (po_name l) [] []) (\<lambda>_ _. True)
       (\<lambda>prev l. linkError (po_origin l) ''Listener'' (po_name l) ''spec.port''
          (''address:port '' @ go_quote (listener_key l) @ '' conflicts with listener '' @ go_quote (po_name prev) @ '' (must be unique)''))
       Map.empty (cfg_listeners cs)"

definition has_rules :: "Route \<Rightarrow> bool" where "has_rules r \<longleftrightarrow> rts_rules (po_spec r) \<noteq> []"
definition has_forward :: "Route \<Rightarrow> bool" where "has_forward r \<longleftrightarrow> rts_forward (po_spec r) \<noteq> None"

definition sni_hosts :: "Route \<Rightarrow> string list" where
  "sni_hosts r = (case rts_forward (po_spec r) of None \<Rightarrow> [] | Some f \<Rightarrow> fwd_sniHosts f)"

definition route_listener_form :: "linked \<Rightarrow> Route \<Rightarrow> nat \<Rightarrow> string \<Rightarrow> compile_error list" where
  "route_listener_form lk r i n =
     (case lk_listeners lk n of None \<Rightarrow> []
      | Some l \<Rightarrow>
          let p = lsn_protocol (po_spec l) in
          (if isHTTPProtocol p \<and> has_forward r then
             [linkError (po_origin r) ''Route'' (po_name r) (index_text ''spec.listeners'' i)
                (''route form mismatch: listener '' @ go_quote n @ '' is '' @ p @ '' (HTTP-class) but route uses forward (L4 form)'')]
           else if \<not> isHTTPProtocol p \<and> has_rules r then
             [linkError (po_origin r) ''Route'' (po_name r) (index_text ''spec.listeners'' i)
                (''route form mismatch: listener '' @ go_quote n @ '' is '' @ p @ '' (L4-class) but route uses rules (HTTP form)'')]
           else []) @
          (if has_forward r \<and> sni_hosts r \<noteq> [] \<and> p \<noteq> ''TLS'' then
             [linkError (po_origin r) ''Route'' (po_name r) ''spec.forward.sniHosts''
                (''sniHosts is only allowed on listeners with protocol TLS, but listener '' @ go_quote n @ '' is '' @ p)]
           else []))"

definition route_form :: "linked \<Rightarrow> Route \<Rightarrow> compile_error list" where
  "route_form lk r =
     (if has_rules r \<and> has_forward r then
        [linkError (po_origin r) ''Route'' (po_name r) ''spec.forward''
           ''rules and forward are mutually exclusive (HTTP rules form vs L4 forward form)'']
      else if \<not> has_rules r \<and> \<not> has_forward r then
        [linkError (po_origin r) ''Route'' (po_name r) ''spec'' ''route must have either rules (HTTP form) or forward (L4 form)'']
      else each (route_listener_form lk r) (rts_listeners (po_spec r)))"

definition checkRouteForm :: "ConfigSet \<Rightarrow> linked \<Rightarrow> compile_error list" where
  "checkRouteForm cs lk = concat (map (route_form lk) (cfg_routes cs))"

section \<open>Forwarding routes\<close>

definition attachments :: "ConfigSet \<Rightarrow> string \<Rightarrow> (Route \<times> nat) list" where
  "attachments cs n =
     concat (map (\<lambda>r. map (\<lambda>(i, m). (r, i)) (filter (\<lambda>(i, m). m = n) (enumerate 0 (rts_listeners (po_spec r)))))
       (filter (\<lambda>r. has_forward r \<and> \<not> has_rules r) (cfg_routes cs)))"

text \<open>A listener is looked up by name, so one that is not the last of its name is not attached to.\<close>

definition attached :: "ConfigSet \<Rightarrow> linked \<Rightarrow> string \<Rightarrow> (Route \<times> nat) list" where
  "attached cs lk n =
     (case lk_listeners lk n of
        Some l \<Rightarrow> if isHTTPProtocol (lsn_protocol (po_spec l)) then [] else attachments cs n
      | None \<Rightarrow> [])"

definition l4_listener_fields :: "Listener \<Rightarrow> compile_error list" where
  "l4_listener_fields l =
     (let p = lsn_protocol (po_spec l) in
      if isHTTPProtocol p then []
      else (if lsn_http (po_spec l) \<noteq> None
            then [linkError (po_origin l) ''Listener'' (po_name l) ''spec.http''
                    (''spec.http is not allowed on '' @ p @ '' listener '' @ go_quote (po_name l))]
            else []) @
           each (\<lambda>i _. [linkError (po_origin l) ''Listener'' (po_name l) (index_text ''spec.policies'' i)
                    (''HTTP policy is not allowed on '' @ p @ '' listener '' @ go_quote (po_name l))]) (lsn_policies (po_spec l)))"

definition l4_route_fields :: "Route \<Rightarrow> compile_error list" where
  "l4_route_fields r =
     (if \<not> has_forward r \<or> has_rules r then []
      else (if rts_hostnames (po_spec r) \<noteq> []
            then [linkError (po_origin r) ''Route'' (po_name r) ''spec.hostnames''
                    ''hostnames are not allowed on an L4 forward route; use forward.sniHosts for TLS'']
            else []) @
           each (\<lambda>i _. [linkError (po_origin r) ''Route'' (po_name r) (index_text ''spec.policies'' i)
                    ''HTTP policy is not allowed on an L4 forward route'']) (rts_policies (po_spec r)))"

definition sni_norm :: "string \<Rightarrow> string" where
  "sni_norm h = to_lower (trim_space h)"

text \<open>The server names of the attached routes in turn; a route without any is an item of its own.\<close>

type_synonym sni_item = "Route \<times> (nat \<times> string) option"

definition sni_items :: "Route \<Rightarrow> sni_item list" where
  "sni_items r = (if sni_hosts r = [] then [(r, None)] else map (\<lambda>ih. (r, Some ih)) (enumerate 0 (sni_hosts r)))"

definition sni_key :: "sni_item \<Rightarrow> string option" where
  "sni_key x = (case snd x of None \<Rightarrow> None | Some (i, h) \<Rightarrow> if sni_norm h = [] then None else Some (sni_norm h))"

definition sni_bad :: "Listener \<Rightarrow> sni_item \<Rightarrow> compile_error" where
  "sni_bad l x = (let r = fst x in
     (case snd x of
        None \<Rightarrow> linkError (po_origin r) ''Route'' (po_name r) ''spec.forward.sniHosts''
          (''at least one sniHost is required on TLS listener '' @ go_quote (po_name l))
      | Some (i, h) \<Rightarrow> linkError (po_origin r) ''Route'' (po_name r) (index_text ''spec.forward.sniHosts'' i) ''sniHost must not be empty''))"

definition sni_conflict :: "Listener \<Rightarrow> sni_item \<Rightarrow> sni_item \<Rightarrow> compile_error" where
  "sni_conflict l prev x = (let r = fst x in
     (case snd x of
        None \<Rightarrow> sni_bad l x
      | Some (i, h) \<Rightarrow> linkError (po_origin r) ''Route'' (po_name r) (index_text ''spec.forward.sniHosts'' i)
          (''sniHost '' @ go_quote h @ '' on listener '' @ go_quote (po_name l) @ '' conflicts with route '' @ go_quote (po_name (fst prev)))))"

definition l4_listener_routes :: "ConfigSet \<Rightarrow> linked \<Rightarrow> Listener \<Rightarrow> compile_error list" where
  "l4_listener_routes cs lk l =
     (let p = lsn_protocol (po_spec l); routes = attached cs lk (po_name l) in
      if isHTTPProtocol p then []
      else if p = ''TCP'' \<or> p = ''UDP'' then
        (case routes of
           [] \<Rightarrow> [linkError (po_origin l) ''Listener'' (po_name l) ''spec.protocol''
                   (''protocol '' @ p @ '' requires exactly one attached forward route, got 0'')]
         | (r0, i0) # rs \<Rightarrow> map (\<lambda>(r, i). linkError (po_origin r) ''Route'' (po_name r) (index_text ''spec.listeners'' i)
             (''listener '' @ go_quote (po_name l) @ '' with protocol '' @ p @
              '' accepts exactly one forward route (already attached by route '' @ go_quote (po_name r0) @ '')'')) rs)
      else if routes = [] then
        [linkError (po_origin l) ''Listener'' (po_name l) ''spec.protocol''
           ''protocol TLS requires at least one attached forward route with sniHosts'']
      else claim_loop sni_key (sni_bad l) (\<lambda>_ _. True) (sni_conflict l) Map.empty (concat (map (\<lambda>(r, i). sni_items r) routes)))"

definition sortedListeners :: "Listener list \<Rightarrow> Listener list" where
  "sortedListeners ls = sort_key po_name ls"

definition checkL4RouteConstraints :: "ConfigSet \<Rightarrow> linked \<Rightarrow> compile_error list" where
  "checkL4RouteConstraints cs lk =
     concat (map l4_listener_fields (cfg_listeners cs)) @
     concat (map l4_route_fields (cfg_routes cs)) @
     concat (map (l4_listener_routes cs lk) (sortedListeners (cfg_listeners cs)))"

section \<open>Host names\<close>

definition route_hostnames :: "Route \<Rightarrow> string list" where
  "route_hostnames r = (if rts_hostnames (po_spec r) = [] then [''*''] else rts_hostnames (po_spec r))"

text \<open>The host names of the HTTP routes on each of their listeners, in the order of the loops.\<close>

type_synonym host_item = "Route \<times> string \<times> nat \<times> string"

definition host_items :: "linked \<Rightarrow> Route \<Rightarrow> host_item list" where
  "host_items lk r =
     (if has_rules r
      then concat (map (\<lambda>n. map (\<lambda>(i, h). (r, n, i, h)) (enumerate 0 (route_hostnames r)))
             (filter (\<lambda>n. lk_listeners lk n \<noteq> None) (rts_listeners (po_spec r))))
      else [])"

definition host_key :: "host_item \<Rightarrow> (string \<times> string) option" where
  "host_key x = (case x of (r, n, i, h) \<Rightarrow> Some (n, to_lower h))"

definition host_conflict :: "host_item \<Rightarrow> host_item \<Rightarrow> compile_error" where
  "host_conflict prev x = (case x of (r, n, i, h) \<Rightarrow>
     linkError (po_origin r) ''Route'' (po_name r)
       (if rts_hostnames (po_spec r) \<noteq> [] then index_text ''spec.hostnames'' i else ''spec.hostnames'')
       (''hostname '' @ go_quote h @ '' on listener '' @ go_quote n @ '' conflicts with route '' @ go_quote (po_name (fst prev)) @
        '' (same match precision: exact > wildcard > fallback)''))"

definition checkHostnameConflicts :: "ConfigSet \<Rightarrow> linked \<Rightarrow> compile_error list" where
  "checkHostnameConflicts cs lk =
     claim_loop host_key (\<lambda>x. host_conflict x x) (\<lambda>p x. po_name (fst p) \<noteq> po_name (fst x)) host_conflict Map.empty
       (concat (map (host_items lk) (cfg_routes cs)))"

section \<open>Where policies may be attached\<close>

datatype attachLevel = levelGateway | levelListener | levelRoute | levelRule

definition policyTypeKey :: "PolicySpec \<Rightarrow> string" where
  "policyTypeKey s =
     (if pol_headerModifier s \<noteq> None then ''headerModifier''
      else if pol_cors s \<noteq> None then ''cors''
      else if pol_rateLimit s \<noteq> None then ''rateLimit''
      else if pol_jwt s \<noteq> None then ''jwt''
      else if pol_extAuth s \<noteq> None then ''extAuth''
      else if pol_ipAccess s \<noteq> None then ''ipAccess''
      else if pol_basicAuth s \<noteq> None then ''basicAuth''
      else [])"

definition attached_spec :: "linked \<Rightarrow> PolicyAttachment \<Rightarrow> PolicySpec option" where
  "attached_spec lk p = (case pa_inline p of Some s \<Rightarrow> Some s | None \<Rightarrow> map_option po_spec (lk_policies lk (pa_ref p)))"

definition policyTypeOf :: "linked \<Rightarrow> PolicyAttachment \<Rightarrow> string" where
  "policyTypeOf lk p = (case attached_spec lk p of None \<Rightarrow> [] | Some s \<Rightarrow> policyTypeKey s)"

definition check_level :: "linked \<Rightarrow> origin \<Rightarrow> string \<Rightarrow> string \<Rightarrow> string \<Rightarrow> attachLevel \<Rightarrow> PolicyAttachment list \<Rightarrow> compile_error list" where
  "check_level lk org kind name path level ps =
     each (\<lambda>i p. if policyTypeOf lk p = ''ipAccess'' \<and> level = levelRule
       then [linkError org kind name (index_text path i)
               ''ipAccess policy cannot be attached at rule level (allowed: gateway | listener | route)'']
       else []) ps"

definition checkPolicyAttachmentLevels :: "ConfigSet \<Rightarrow> linked \<Rightarrow> compile_error list" where
  "checkPolicyAttachmentLevels cs lk =
     (case cfg_gateway cs of None \<Rightarrow> []
      | Some g \<Rightarrow> check_level lk (po_origin g) ''Gateway'' (po_name g) ''spec.policies'' levelGateway (gws_policies (po_spec g))) @
     concat (map (\<lambda>l. check_level lk (po_origin l) ''Listener'' (po_name l) ''spec.policies'' levelListener (lsn_policies (po_spec l)))
       (cfg_listeners cs)) @
     concat (map (\<lambda>r. check_level lk (po_origin r) ''Route'' (po_name r) ''spec.policies'' levelRoute (rts_policies (po_spec r)) @
         each (\<lambda>i rule. check_level lk (po_origin r) ''Route'' (po_name r) (index_text ''spec.rules'' i @ ''.policies'') levelRule
           (rule_policies rule)) (rts_rules (po_spec r)))
       (cfg_routes cs))"

section \<open>Certificates and sources of endpoints\<close>

definition checkTLSRules :: "ConfigSet \<Rightarrow> compile_error list" where
  "checkTLSRules cs = concat (map (\<lambda>l. let p = lsn_protocol (po_spec l); fault = (\<lambda>m. [linkError (po_origin l) ''Listener'' (po_name l) ''spec.tls'' m]) in
     if p = ''HTTPS'' then (if lsn_tls (po_spec l) = None then fault (''spec.tls is required for protocol '' @ p) else [])
     else if p \<in> {''HTTP'', ''TCP'', ''TLS'', ''UDP''}
     then (if lsn_tls (po_spec l) \<noteq> None then fault (''spec.tls is not allowed for protocol '' @ p) else [])
     else []) (cfg_listeners cs))"

definition store_path :: "string \<Rightarrow> string \<Rightarrow> string \<Rightarrow> string" where
  "store_path dir ref file = path_clean (dir @ slash # ref @ slash # file)"

definition resolve_certificate :: "compile_options \<Rightarrow> Certificate \<Rightarrow> Certificate" where
  "resolve_certificate opts c =
     (if crt_ref c \<noteq> [] \<and> opt_managedCertificateDir opts \<noteq> [] \<and> ValidateName (crt_ref c)
      then c\<lparr>crt_certFile := store_path (opt_managedCertificateDir opts) (crt_ref c) ''tls.crt'',
             crt_keyFile := store_path (opt_managedCertificateDir opts) (crt_ref c) ''tls.key''\<rparr>
      else c)"

definition certificate_errors :: "compile_options \<Rightarrow> cert_verifier \<Rightarrow> Listener \<Rightarrow> nat \<Rightarrow> Certificate \<Rightarrow> compile_error list" where
  "certificate_errors opts V l i c =
     (let base = index_text ''spec.tls.certificates'' i;
          fault = (\<lambda>sub m. [linkError (po_origin l) ''Listener'' (po_name l) (base @ sub) m]) in
      if crt_ref c \<noteq> [] \<and> opt_managedCertificateDir opts = []
      then fault ''.ref'' (''managed certificate store is unavailable for ref '' @ go_quote (crt_ref c))
      else if crt_ref c \<noteq> [] \<and> \<not> ValidateName (crt_ref c)
      then fault ''.ref'' (''invalid managed certificate ref '' @ go_quote (crt_ref c))
      else let d = resolve_certificate opts c in
        (case ver_keyPair V (crt_certFile d) (crt_keyFile d) of None \<Rightarrow> []
         | Some e \<Rightarrow> fault ''.certFile'' (''invalid certificate pair (certFile '' @ go_quote (crt_certFile d) @ '', keyFile '' @
             go_quote (crt_keyFile d) @ ''): '' @ e)))"

definition checkCertificates :: "compile_options \<Rightarrow> cert_verifier \<Rightarrow> ConfigSet \<Rightarrow> compile_error list" where
  "checkCertificates opts V cs = concat (map (\<lambda>l.
     (case lsn_tls (po_spec l) of None \<Rightarrow> []
      | Some t \<Rightarrow> each (certificate_errors opts V l) (ltls_certificates t) @
          (if ltls_clientCA t = [] then []
           else case ver_caFile V (ltls_clientCA t) of None \<Rightarrow> []
             | Some e \<Rightarrow> [linkError (po_origin l) ''Listener'' (po_name l) ''spec.tls.clientCA''
                 (''invalid clientCA file '' @ go_quote (ltls_clientCA t) @ '': '' @ e)]))) (cfg_listeners cs))"

text \<open>What \<open>checkCertificates\<close> writes into the listeners.\<close>

definition resolve_certificates :: "compile_options \<Rightarrow> ConfigSet \<Rightarrow> ConfigSet" where
  "resolve_certificates opts cs = cs\<lparr>cfg_listeners := map (on_spec (\<lambda>s. s\<lparr>lsn_tls := map_option
     (\<lambda>t. t\<lparr>ltls_certificates := map (resolve_certificate opts) (ltls_certificates t)\<rparr>) (lsn_tls s)\<rparr>)) (cfg_listeners cs)\<rparr>"

definition checkKubernetesService :: "compile_options \<Rightarrow> ConfigSet \<Rightarrow> compile_error list" where
  "checkKubernetesService opts cs =
     (if opt_hasEndpointSource opts then []
      else concat (map (\<lambda>u. if ups_kubernetesService (po_spec u) \<noteq> None
        then [linkError (po_origin u) ''Upstream'' (po_name u) ''spec.kubernetesService''
          ''kubernetesService endpoint source is unavailable: k8s service discovery is not enabled in this environment (EndpointSource not injected)'']
        else []) (cfg_upstreams cs)))"

section \<open>The stage\<close>

definition link_checks :: "compile_options \<Rightarrow> cert_verifier \<Rightarrow> ConfigSet \<Rightarrow> compile_error list" where
  "link_checks opts V cs = (let lk = link_index cs in
     resolveReferences cs lk @ checkListenerAddressUnique cs @ checkRouteForm cs lk @ checkL4RouteConstraints cs lk @
     checkHostnameConflicts cs lk @ checkPolicyAttachmentLevels cs lk @ checkTLSRules cs @ checkCertificates opts V cs @
     checkKubernetesService opts cs)"

definition link :: "compile_options \<Rightarrow> cert_verifier \<Rightarrow> ConfigSet \<Rightarrow> ConfigSet \<times> linked \<times> compile_error list" where
  "link opts V cs =
     (let cs1 = ApplyDefaults cs; cs2 = resolve_certificates opts cs1 in (cs2, link_index cs2, link_checks opts V cs1))"

end
