(* ===== verification/EnvoyTypes.thy ===== *)
theory EnvoyTypes
  imports CompileLink
begin

text \<open>
  The Envoy resources the compiler builds, with the fields its code sets, and their names
  (\<open>internal/compile/names.go\<close>).  A message packed into an \<open>Any\<close> is the message itself: packing fails
  only for strings that are not UTF-8, which the JSON decoder never returns.  A wrapped or \<open>uint32\<close>
  number is the integer that results from the conversion, written out where the source converts.
\<close>

section \<open>Names\<close>

definition listenerResourceName :: "string \<Rightarrow> string" where "listenerResourceName n = ''lis/'' @ n"
definition routeConfigName :: "string \<Rightarrow> string" where "routeConfigName l = ''rc/'' @ l"
definition virtualHostName :: "string \<Rightarrow> string" where "virtualHostName r = ''vh/'' @ r"
definition clusterResourceName :: "string \<Rightarrow> string" where "clusterResourceName u = ''us/'' @ u"
definition secretResourceName :: "string \<Rightarrow> nat \<Rightarrow> string" where "secretResourceName l n = ''crt/'' @ l @ ''/'' @ string_of_nat n"
definition clientCASecretResourceName :: "string \<Rightarrow> string" where "clientCASecretResourceName l = ''ca/'' @ l"

definition rbacFilterName :: string where "rbacFilterName = ''envoy.filters.http.rbac''"
definition corsFilterName :: string where "corsFilterName = ''envoy.filters.http.cors''"
definition jwtAuthnFilterName :: string where "jwtAuthnFilterName = ''envoy.filters.http.jwt_authn''"
definition extAuthzFilterName :: string where "extAuthzFilterName = ''envoy.filters.http.ext_authz''"
definition localRateLimitFilterName :: string where "localRateLimitFilterName = ''envoy.filters.http.local_ratelimit''"

lemmas filter_names = rbacFilterName_def corsFilterName_def jwtAuthnFilterName_def extAuthzFilterName_def localRateLimitFilterName_def

lemma resource_name_inject [simp]:
  "listenerResourceName a = listenerResourceName b \<longleftrightarrow> a = b" "routeConfigName a = routeConfigName b \<longleftrightarrow> a = b"
  "virtualHostName a = virtualHostName b \<longleftrightarrow> a = b" "clusterResourceName a = clusterResourceName b \<longleftrightarrow> a = b"
  by (simp_all add: listenerResourceName_def routeConfigName_def virtualHostName_def clusterResourceName_def)

text \<open>\<open>uint32(x)\<close> of an \<open>int32\<close>.\<close>

definition uint32 :: "int \<Rightarrow> int" where "uint32 n = n mod 2 ^ 32"

section \<open>Routes\<close>

datatype string_matcher = MatchExact string | MatchRegex string

datatype path_specifier = Path string | Prefix string | SafeRegex string

datatype value_matcher = PresentMatch bool | StringMatch string_matcher

record route_match =
  rmt_path :: "path_specifier option"
  rmt_headers :: "(string \<times> value_matcher) list"
  rmt_query :: "(string \<times> value_matcher) list"

datatype cluster_specifier = SingleCluster string | WeightedClusters "(string \<times> int) list"

record retry_policy =
  rp_numRetries :: int
  rp_retryOn :: string
  rp_perTryTimeout :: "int option"

record route_action =
  ra_cluster :: cluster_specifier
  ra_prefixRewrite :: string
  ra_regexRewrite :: "(string \<times> string) option"
  ra_hostRewrite :: "string option"
  ra_timeout :: int
  ra_retry :: "retry_policy option"
  ra_hashPolicy :: "string list"

datatype redirect_code = MOVED_PERMANENTLY | FOUND | SEE_OTHER | TEMPORARY_REDIRECT | PERMANENT_REDIRECT

datatype route_target =
    RouteTo route_action
  | RedirectTo "string option" redirect_code
  | RespondWith int "string option"

datatype append_action = OVERWRITE_IF_EXISTS_OR_ADD | APPEND_IF_EXISTS_OR_ADD

type_synonym header_option = "append_action \<times> string \<times> string"

datatype principal =
    AnyPrincipal
  | RemoteIp string int
  | OrIds "principal list"
  | AndIds "principal list"
  | NotId principal

record cors_policy =
  cp_origins :: "string_matcher list"
  cp_methods :: string
  cp_headers :: string
  cp_credentials :: bool
  cp_maxAge :: string

record token_bucket =
  tb_maxTokens :: int
  tb_tokensPerFill :: int
  tb_fillInterval :: int

datatype limit_action = LimitRemoteAddress | LimitHeader string string

record local_rate_limit =
  lrl_bucket :: token_bucket
  lrl_action :: limit_action
  lrl_descriptorKey :: string
  lrl_descriptorBucket :: token_bucket
  lrl_maxDynamic :: int
  lrl_enabledPercent :: int
  lrl_enforcedPercent :: int
  lrl_alwaysConsumeDefault :: bool

datatype per_route =
    CorsPerRoute cors_policy
  | RbacPerRoute principal
  | RateLimitPerRoute local_rate_limit
  | JwtPerRoute string
  | ExtAuthzDisabled
  | ExtAuthzCheck

record envoy_route =
  ert_match :: route_match
  ert_target :: "route_target option"
  ert_requestAdd :: "header_option list"
  ert_requestRemove :: "string list"
  ert_responseAdd :: "header_option list"
  ert_responseRemove :: "string list"
  ert_perFilter :: "string \<rightharpoonup> per_route"

record virtual_host =
  vhx_name :: string
  vhx_domains :: "string list"
  vhx_routes :: "envoy_route list"

record route_config =
  rcf_name :: string
  rcf_virtualHosts :: "virtual_host list"

section \<open>Clusters\<close>

datatype discovery_type = STATIC | LOGICAL_DNS | STRICT_DNS | EDS

datatype lb_kind = ROUND_ROBIN | LEAST_REQUEST | RANDOM | RING_HASH | MAGLEV

type_synonym lb_endpoint = "string \<times> int \<times> int option"

record load_assignment =
  cla_clusterName :: string
  cla_endpoints :: "lb_endpoint list"

record upstream_tls =
  utc_sni :: string
  utc_trustedCa :: string
  utc_acceptUntrusted :: bool

datatype health_checker = HttpCheck string "(int \<times> int) list" | TcpCheck

record health_check =
  hc_timeout :: "int option"
  hc_interval :: "int option"
  hc_healthy :: "int option"
  hc_unhealthy :: "int option"
  hc_checker :: "health_checker option"

record cluster =
  clu_name :: string
  clu_type :: discovery_type
  clu_connectTimeout :: int
  clu_loadAssignment :: "load_assignment option"
  clu_lb :: lb_kind
  clu_healthChecks :: "health_check list"
  clu_tls :: "upstream_tls option"
  clu_http2 :: bool
  clu_breakers :: "(int option \<times> int option) option"
  clu_eds :: bool

section \<open>Listeners\<close>

datatype jwks_source = RemoteJwks string string int | LocalJwks string

record jwt_provider =
  jp_issuer :: string
  jp_audiences :: "string list"
  jp_forwardPayloadHeader :: string
  jp_source :: "jwks_source option"

datatype jwt_requirement =
    AllowMissing
  | ProviderName string
  | ProviderAndAudiences string "string list"

datatype auth_service = GrpcService string int | HttpService string string int string

record ext_authz =
  ez_failureModeAllow :: bool
  ez_service :: auth_service

datatype http_filter =
    RbacFilter
  | CorsFilter
  | JwtFilter "string \<rightharpoonup> jwt_provider" "string \<rightharpoonup> jwt_requirement"
  | ExtAuthzFilter ext_authz
  | LocalRateLimitFilter
  | RouterFilter

datatype route_specifier = Rds string | InlineRoutes route_config

record access_log =
  acl_path :: string
  acl_json :: bool

record hcm =
  hcm_statPrefix :: string
  hcm_routes :: route_specifier
  hcm_httpFilters :: "http_filter list"
  hcm_idleTimeout :: int
  hcm_maxRequestHeadersKb :: int
  hcm_useRemoteAddress :: bool
  hcm_stripAnyHostPort :: bool
  hcm_passThrough :: bool
  hcm_serverName :: string
  hcm_http2 :: bool
  hcm_accessLog :: "access_log list"

datatype network_filter = HcmFilter hcm | TcpProxy string string

datatype listener_filter = TlsInspector | UdpProxy string string

datatype tls_protocol = TLSv1_2 | TLSv1_3

text \<open>A certificate is the file of its chain and the file of its key; a validation context has the file of
  the trusted authority, or none.  Both are given in place or by the name of a secret.\<close>

type_synonym tls_certificate = "string \<times> string"

datatype tls_validation = NoValidation | ValidationContext "string option" | ValidationSds string

record downstream_tls =
  dtc_minVersion :: tls_protocol
  dtc_alpn :: "string list"
  dtc_certificates :: "tls_certificate list"
  dtc_sdsCertificates :: "string list"
  dtc_validation :: tls_validation
  dtc_requireClientCertificate :: bool

datatype secret_type = TlsCertificate tls_certificate | CertificateValidation "string option" | OtherSecret

record secret =
  sec_name :: string
  sec_type :: secret_type

record filter_chain =
  fch_serverNames :: "string list"
  fch_transportProtocol :: string
  fch_tls :: "downstream_tls option"
  fch_filters :: "network_filter list"

record listener =
  lis_name :: string
  lis_address :: string
  lis_port :: int
  lis_udp :: bool
  lis_filterChains :: "filter_chain list"
  lis_listenerFilters :: "listener_filter list"

record buildResult =
  br_listeners :: "listener list"
  br_routes :: "route_config list"
  br_clusters :: "cluster list"

end
