(* ===== verification/LinkSpec.thy ===== *)
theory LinkSpec
  imports CompileLink
begin

text \<open>
  What the second stage of the compiler promises, without loops, maps or an order of checks, and the
  equivalence of \<open>link\<close> with it.
\<close>

section \<open>The contract\<close>

text \<open>What the loader guarantees: names are unique in each kind and the protocols are known.\<close>

definition loaded :: "ConfigSet \<Rightarrow> bool" where
  "loaded cs \<longleftrightarrow> distinct (map po_name (cfg_listeners cs)) \<and> distinct (map po_name (cfg_routes cs)) \<and>
     distinct (map po_name (cfg_upstreams cs)) \<and> distinct (map po_name (cfg_policies cs)) \<and>
     (\<forall>l \<in> set (cfg_listeners cs). ListenerProtocol_Valid (lsn_protocol (po_spec l)))"

definition rule_attachments :: "Route \<Rightarrow> PolicyAttachment list" where
  "rule_attachments r = concat (map rule_policies (rts_rules (po_spec r)))"

definition all_attachments :: "ConfigSet \<Rightarrow> PolicyAttachment list" where
  "all_attachments cs =
     (case cfg_gateway cs of None \<Rightarrow> [] | Some g \<Rightarrow> gws_policies (po_spec g)) @
     concat (map (\<lambda>l. lsn_policies (po_spec l)) (cfg_listeners cs)) @
     concat (map (\<lambda>r. rts_policies (po_spec r) @ rule_attachments r) (cfg_routes cs))"

definition route_upstreams :: "Route \<Rightarrow> string set" where
  "route_upstreams r = (case rts_forward (po_spec r) of None \<Rightarrow> {} | Some f \<Rightarrow> {fwd_upstream f}) \<union>
     (\<Union>rule \<in> set (rts_rules (po_spec r)). bk_upstream ` set (rule_backends rule))"

definition refs_closed :: "ConfigSet \<Rightarrow> bool" where
  "refs_closed cs \<longleftrightarrow>
     (\<forall>p \<in> set (all_attachments cs). pa_ref p \<noteq> [] \<longrightarrow> pa_ref p \<in> po_name ` set (cfg_policies cs)) \<and>
     (\<forall>r \<in> set (cfg_routes cs). set (rts_listeners (po_spec r)) \<subseteq> po_name ` set (cfg_listeners cs) \<and>
        route_upstreams r \<subseteq> po_name ` set (cfg_upstreams cs))"

definition addresses_unique :: "ConfigSet \<Rightarrow> bool" where
  "addresses_unique cs \<longleftrightarrow> distinct (map (\<lambda>l. (lsn_address (po_spec l), lsn_port (po_spec l))) (cfg_listeners cs))"

definition on_listener :: "Route \<Rightarrow> Listener \<Rightarrow> bool" where
  "on_listener r l \<longleftrightarrow> po_name l \<in> set (rts_listeners (po_spec r))"

definition is_http :: "Listener \<Rightarrow> bool" where
  "is_http l \<longleftrightarrow> isHTTPProtocol (lsn_protocol (po_spec l))"

definition routes_formed :: "ConfigSet \<Rightarrow> bool" where
  "routes_formed cs \<longleftrightarrow> (\<forall>r \<in> set (cfg_routes cs). has_rules r \<noteq> has_forward r \<and>
     (\<forall>l \<in> set (cfg_listeners cs). on_listener r l \<longrightarrow>
        is_http l = has_rules r \<and> (sni_hosts r \<noteq> [] \<longrightarrow> lsn_protocol (po_spec l) = ''TLS'')))"

definition forwarding_formed :: "ConfigSet \<Rightarrow> bool" where
  "forwarding_formed cs \<longleftrightarrow>
     (\<forall>l \<in> set (cfg_listeners cs). \<not> is_http l \<longrightarrow> lsn_http (po_spec l) = None \<and> lsn_policies (po_spec l) = []) \<and>
     (\<forall>r \<in> set (cfg_routes cs). has_forward r \<and> \<not> has_rules r \<longrightarrow> rts_hostnames (po_spec r) = [] \<and> rts_policies (po_spec r) = []) \<and>
     (\<forall>l \<in> set (cfg_listeners cs). lsn_protocol (po_spec l) \<in> {''TCP'', ''UDP''} \<longrightarrow> length (attachments cs (po_name l)) = 1) \<and>
     (\<forall>l \<in> set (cfg_listeners cs). lsn_protocol (po_spec l) = ''TLS'' \<longrightarrow>
        (let rs = map fst (attachments cs (po_name l)) in
         rs \<noteq> [] \<and> (\<forall>r \<in> set rs. sni_hosts r \<noteq> []) \<and>
         (\<forall>h \<in> set (concat (map sni_hosts rs)). sni_norm h \<noteq> []) \<and> distinct (map sni_norm (concat (map sni_hosts rs)))))"

definition hostnames_disjoint :: "ConfigSet \<Rightarrow> bool" where
  "hostnames_disjoint cs \<longleftrightarrow> (\<forall>l \<in> set (cfg_listeners cs). \<forall>r \<in> set (cfg_routes cs). \<forall>q \<in> set (cfg_routes cs).
     has_rules r \<and> has_rules q \<and> on_listener r l \<and> on_listener q l \<and> po_name r \<noteq> po_name q \<longrightarrow>
       to_lower ` set (route_hostnames r) \<inter> to_lower ` set (route_hostnames q) = {})"

definition levels_allowed :: "ConfigSet \<Rightarrow> bool" where
  "levels_allowed cs \<longleftrightarrow> (\<forall>r \<in> set (cfg_routes cs). \<forall>p \<in> set (rule_attachments r). policyTypeOf (link_index cs) p \<noteq> ''ipAccess'')"

definition tls_where_terminated :: "ConfigSet \<Rightarrow> bool" where
  "tls_where_terminated cs \<longleftrightarrow> (\<forall>l \<in> set (cfg_listeners cs). lsn_tls (po_spec l) \<noteq> None \<longleftrightarrow> lsn_protocol (po_spec l) = ''HTTPS'')"

definition certificate_usable :: "compile_options \<Rightarrow> cert_verifier \<Rightarrow> Certificate \<Rightarrow> bool" where
  "certificate_usable opts V c \<longleftrightarrow>
     (crt_ref c \<noteq> [] \<longrightarrow> opt_managedCertificateDir opts \<noteq> [] \<and> ValidateName (crt_ref c)) \<and>
     (let d = resolve_certificate opts c in ver_keyPair V (crt_certFile d) (crt_keyFile d) = None)"

definition certificates_usable :: "compile_options \<Rightarrow> cert_verifier \<Rightarrow> ConfigSet \<Rightarrow> bool" where
  "certificates_usable opts V cs \<longleftrightarrow> (\<forall>l \<in> set (cfg_listeners cs). \<forall>t. lsn_tls (po_spec l) = Some t \<longrightarrow>
     (\<forall>c \<in> set (ltls_certificates t). certificate_usable opts V c) \<and>
     (ltls_clientCA t \<noteq> [] \<longrightarrow> ver_caFile V (ltls_clientCA t) = None))"

definition sources_available :: "compile_options \<Rightarrow> ConfigSet \<Rightarrow> bool" where
  "sources_available opts cs \<longleftrightarrow> (opt_hasEndpointSource opts \<or> (\<forall>u \<in> set (cfg_upstreams cs). ups_kubernetesService (po_spec u) = None))"

definition well_linked :: "compile_options \<Rightarrow> cert_verifier \<Rightarrow> ConfigSet \<Rightarrow> bool" where
  "well_linked opts V cs \<longleftrightarrow> refs_closed cs \<and> addresses_unique cs \<and> routes_formed cs \<and> forwarding_formed cs \<and>
     hostnames_disjoint cs \<and> levels_allowed cs \<and> tls_where_terminated cs \<and> certificates_usable opts V cs \<and> sources_available opts cs"

section \<open>References\<close>

lemma link_index_simps [simp]: "lk_listeners (link_index cs) = index_by_name (cfg_listeners cs)"
  "lk_upstreams (link_index cs) = index_by_name (cfg_upstreams cs)" "lk_policies (link_index cs) = index_by_name (cfg_policies cs)"
  by (simp_all add: link_index_def)

lemma resolvePolicyRefs_Nil:
  "resolvePolicyRefs org kind n path ps (link_index cs) = [] \<longleftrightarrow>
     (\<forall>p \<in> set ps. pa_ref p \<noteq> [] \<longrightarrow> pa_ref p \<in> po_name ` set (cfg_policies cs))"
  unfolding resolvePolicyRefs_def by (rule each_Nil_set) (simp add: index_by_name_None)

lemma upstream_ref_Nil: "upstream_ref r (link_index cs) path u = [] \<longleftrightarrow> u \<in> po_name ` set (cfg_upstreams cs)"
  by (simp add: upstream_ref_def index_by_name_None)

lemma resolve_route_Nil:
  "resolve_route (link_index cs) r = [] \<longleftrightarrow>
     set (rts_listeners (po_spec r)) \<subseteq> po_name ` set (cfg_listeners cs) \<and> route_upstreams r \<subseteq> po_name ` set (cfg_upstreams cs) \<and>
     (\<forall>p \<in> set (rts_policies (po_spec r) @ rule_attachments r). pa_ref p \<noteq> [] \<longrightarrow> pa_ref p \<in> po_name ` set (cfg_policies cs))"
proof -
  let ?L = "po_name ` set (cfg_listeners cs)" and ?U = "po_name ` set (cfg_upstreams cs)" and ?P = "po_name ` set (cfg_policies cs)"
  have listeners: "each (\<lambda>i n. if lk_listeners (link_index cs) n = None then [e i n] else []) ns = [] \<longleftrightarrow> (\<forall>n \<in> set ns. n \<in> ?L)"
    for e :: "nat \<Rightarrow> string \<Rightarrow> compile_error" and ns
    by (rule each_Nil_set) (simp add: index_by_name_None)
  have backends: "each (\<lambda>j b. upstream_ref r (link_index cs) (f j) (bk_upstream b)) bs = [] \<longleftrightarrow> (\<forall>b \<in> set bs. bk_upstream b \<in> ?U)" for f bs
    by (rule each_Nil_set) (rule upstream_ref_Nil)
  have rules: "each (\<lambda>i rule.
       each (\<lambda>j b. upstream_ref r (link_index cs) (f i j) (bk_upstream b)) (rule_backends rule) @
       resolvePolicyRefs (po_origin r) ''Route'' (po_name r) (g i) (rule_policies rule) (link_index cs)) rs = [] \<longleftrightarrow>
     (\<forall>rule \<in> set rs. (\<forall>b \<in> set (rule_backends rule). bk_upstream b \<in> ?U) \<and>
        (\<forall>p \<in> set (rule_policies rule). pa_ref p \<noteq> [] \<longrightarrow> pa_ref p \<in> ?P))" for f g rs
    by (rule each_Nil_set) (simp add: backends resolvePolicyRefs_Nil)
  show ?thesis
    unfolding resolve_route_def append_is_Nil_conv listeners rules resolvePolicyRefs_Nil
    by (cases "rts_forward (po_spec r)") (auto simp: route_upstreams_def rule_attachments_def upstream_ref_Nil UN_subset_iff image_subset_iff ball_Un)
qed

lemma resolveReferences_Nil: "resolveReferences cs (link_index cs) = [] \<longleftrightarrow> refs_closed cs"
  unfolding resolveReferences_def refs_closed_def all_attachments_def
  by (cases "cfg_gateway cs") (auto simp: resolvePolicyRefs_Nil resolve_route_Nil)

section \<open>Addresses\<close>

lemma digits_value_of_nat: "digits_value (string_of_nat n) = int n"
proof (induction n rule: string_of_nat.induct)
  case (1 n)
  have digit: "(of_char (char_of (48 + k) :: char) :: int) = 48 + int k" if "k < 10" for k
  proof -
    from that have "(of_char (char_of (48 + k) :: char) :: nat) = 48 + k" by simp
    then have "int (of_char (char_of (48 + k) :: char)) = 48 + int k" by simp
    then show ?thesis by (simp only: of_nat_of_char)
  qed
  show ?case
  proof (cases "n < 10")
    case True
    then show ?thesis by (subst string_of_nat.simps) (simp add: digits_value_def digit)
  next
    case False
    then have "string_of_nat n = string_of_nat (n div 10) @ [char_of (48 + n mod 10)]" by (subst string_of_nat.simps) simp
    moreover have "10 * int (n div 10) + int (n mod 10) = int n" by presburger
    ultimately show ?thesis using 1 [OF False] by (simp add: digits_value_def digit)
  qed
qed

lemma string_of_nat_eq: "string_of_nat m = string_of_nat n \<longleftrightarrow> m = n"
  by (metis digits_value_of_nat of_nat_eq_iff)

lemma string_of_nat_no: "\<not> is_digit c \<Longrightarrow> c \<notin> set (string_of_nat n)"
  using string_of_nat_digits [of n] by (auto simp: list_all_iff)

lemma string_of_int_eq: "string_of_int i = string_of_int j \<longleftrightarrow> i = j"
proof -
  have no: "string_of_nat n \<noteq> CHR ''-'' # s" "CHR ''-'' # s \<noteq> string_of_nat n" for n s
    using string_of_nat_no [of "CHR ''-''" n] by (auto simp: is_digit_def) (metis list.set_intros(1))
  show ?thesis by (cases "i < 0"; cases "j < 0") (simp_all add: string_of_int_def string_of_nat_eq no eq_nat_nat_iff)
qed

lemma string_of_int_no: "\<not> is_digit c \<Longrightarrow> c \<noteq> CHR ''-'' \<Longrightarrow> c \<notin> set (string_of_int i)"
  by (simp add: string_of_int_def string_of_nat_no)

lemma split_at_colon:
  assumes "CHR '':'' \<notin> set p" "CHR '':'' \<notin> set q" and "a @ CHR '':'' # p = b @ CHR '':'' # q"
  shows "a = b \<and> p = q"
  using assms
proof (induction a arbitrary: b)
  case Nil
  then show ?case by (cases b) auto
next
  case (Cons x a)
  then show ?case by (cases b) auto
qed

lemma JoinHostPort_inject: "JoinHostPort a (string_of_int i) = JoinHostPort b (string_of_int j) \<longleftrightarrow> a = b \<and> i = j"
proof
  let ?h = "\<lambda>a. if CHR '':'' \<in> set a then ''['' @ a @ '']'' else a"
  have join: "JoinHostPort a p = ?h a @ CHR '':'' # p" for a p by (simp add: JoinHostPort_def)
  assume "JoinHostPort a (string_of_int i) = JoinHostPort b (string_of_int j)"
  then have "?h a @ CHR '':'' # string_of_int i = ?h b @ CHR '':'' # string_of_int j" by (simp only: join)
  from split_at_colon [OF _ _ this] have "?h a = ?h b" "i = j"
    by (auto simp: string_of_int_eq string_of_int_no is_digit_def)
  moreover from this(1) have "CHR '':'' \<in> set a \<longleftrightarrow> CHR '':'' \<in> set b" by (metis Un_iff set_append)
  ultimately show "a = b \<and> i = j" by (auto split: if_splits)
qed simp

lemma addresses_Nil: "checkListenerAddressUnique cs = [] \<longleftrightarrow> addresses_unique cs"
proof -
  have "(\<lambda>l. Some (listener_key l)) = (\<lambda>(a, p). Some (JoinHostPort a (string_of_int p))) \<circ> (\<lambda>l. (lsn_address (po_spec l), lsn_port (po_spec l)))"
    by (simp add: listener_key_def comp_def)
  moreover have "inj (\<lambda>(a, p). Some (JoinHostPort a (string_of_int p)))"
    by (auto intro!: injI simp: JoinHostPort_inject)
  ultimately show ?thesis
    unfolding checkListenerAddressUnique_def claim_loop_distinct addresses_unique_def
    by (simp add: distinct_map inj_on_def flip: map_map)
qed

section \<open>Routes on listeners\<close>

lemma concat_map_Nil: "concat (map f xs) = [] \<longleftrightarrow> (\<forall>x \<in> set xs. f x = [])"
  by auto

lemma sni_hosts_forward: "sni_hosts r \<noteq> [] \<Longrightarrow> has_forward r"
  by (auto simp: sni_hosts_def has_forward_def split: option.splits)

lemma route_form_Nil:
  assumes "distinct (map po_name (cfg_listeners cs))"
  shows "route_form (link_index cs) r = [] \<longleftrightarrow> has_rules r \<noteq> has_forward r \<and>
    (\<forall>l \<in> set (cfg_listeners cs). on_listener r l \<longrightarrow>
        is_http l = has_rules r \<and> (sni_hosts r \<noteq> [] \<longrightarrow> lsn_protocol (po_spec l) = ''TLS''))"
proof (cases "has_rules r = has_forward r")
  case True
  then show ?thesis by (simp add: route_form_def)
next
  case False
  let ?ok = "\<lambda>l. is_http l = has_rules r \<and> (sni_hosts r \<noteq> [] \<longrightarrow> lsn_protocol (po_spec l) = ''TLS'')"
  have one: "route_listener_form (link_index cs) r i n = [] \<longleftrightarrow> (\<forall>l \<in> set (cfg_listeners cs). po_name l = n \<longrightarrow> ?ok l)" for i n
  proof (cases "index_by_name (cfg_listeners cs) n")
    case None
    then have "n \<notin> po_name ` set (cfg_listeners cs)" by (simp add: index_by_name_None)
    with None show ?thesis by (auto simp: route_listener_form_def)
  next
    case (Some l)
    have "(\<forall>m \<in> set (cfg_listeners cs). po_name m = n \<longrightarrow> ?ok m) \<longleftrightarrow> ?ok l"
      using Some index_by_name_eq [OF assms] by (metis (no_types, lifting) option.inject)
    with Some False show ?thesis
      using sni_hosts_forward by (auto simp: route_listener_form_def is_http_def Let_def)
  qed
  have "each (route_listener_form (link_index cs) r) (rts_listeners (po_spec r)) = [] \<longleftrightarrow>
      (\<forall>n \<in> set (rts_listeners (po_spec r)). \<forall>l \<in> set (cfg_listeners cs). po_name l = n \<longrightarrow> ?ok l)"
    by (rule each_Nil_set) (rule one)
  with False show ?thesis by (auto simp: route_form_def on_listener_def)
qed

lemma checkRouteForm_Nil:
  "distinct (map po_name (cfg_listeners cs)) \<Longrightarrow> checkRouteForm cs (link_index cs) = [] \<longleftrightarrow> routes_formed cs"
  unfolding checkRouteForm_def concat_map_Nil routes_formed_def by (simp add: route_form_Nil)

lemma sni_keys: "map sni_key (sni_items r) =
    (if sni_hosts r = [] then [None] else map (\<lambda>h. if sni_norm h = [] then None else Some (sni_norm h)) (sni_hosts r))"
proof -
  have "map (\<lambda>x. g (snd x)) (enumerate 0 hs) = map g hs" for g :: "string \<Rightarrow> string option" and hs
    by (metis (no_types, lifting) map_map comp_def map_snd_enumerate list.map_cong0)
  from this [of "\<lambda>h. if sni_norm h = [] then None else Some (sni_norm h)" "sni_hosts r"]
  show ?thesis by (simp add: sni_items_def sni_key_def comp_def case_prod_unfold)
qed

lemma sni_claims_Nil:
  "claim_loop sni_key bad (\<lambda>_ _. True) err Map.empty (concat (map sni_items rs)) = [] \<longleftrightarrow>
     (\<forall>r \<in> set rs. sni_hosts r \<noteq> []) \<and> (\<forall>h \<in> set (concat (map sni_hosts rs)). sni_norm h \<noteq> []) \<and>
     distinct (map sni_norm (concat (map sni_hosts rs)))"
  (is "_ \<longleftrightarrow> ?hosts \<and> ?named \<and> _")
proof -
  let ?keys = "map sni_key (concat (map sni_items rs))"
  have keys: "?keys = concat (map (\<lambda>r. map sni_key (sni_items r)) rs)" by (simp add: map_concat comp_def)
  have "None \<in> set (map sni_key (sni_items r)) \<longleftrightarrow> sni_hosts r = [] \<or> (\<exists>h \<in> set (sni_hosts r). sni_norm h = [])" for r
    unfolding sni_keys by (auto simp: image_iff)
  then have none: "None \<notin> set ?keys \<longleftrightarrow> ?hosts \<and> ?named"
    unfolding keys set_concat set_map [of _ rs] by auto
  have same: "?keys = map Some (map sni_norm (concat (map sni_hosts rs)))" if "?hosts \<and> ?named"
  proof -
    have "map sni_key (sni_items r) = map (Some \<circ> sni_norm) (sni_hosts r)" if "r \<in> set rs" for r
      using that \<open>?hosts \<and> ?named\<close> by (auto simp: sni_keys image_iff)
    then have eq: "map (\<lambda>r. map sni_key (sni_items r)) rs = map (\<lambda>r. map (Some \<circ> sni_norm) (sni_hosts r)) rs" by simp
    show ?thesis unfolding keys eq by (simp add: map_concat comp_def)
  qed
  have "(\<forall>x \<in> set xs. sni_key x \<noteq> None) \<longleftrightarrow> None \<notin> set (map sni_key xs)" for xs by (induction xs) auto
  with none have all: "(\<forall>x \<in> set (concat (map sni_items rs)). sni_key x \<noteq> None) \<longleftrightarrow> ?hosts \<and> ?named" by metis
  have "distinct ?keys \<longleftrightarrow> distinct (map sni_norm (concat (map sni_hosts rs)))" if "?hosts \<and> ?named"
    unfolding same [OF that] by (simp add: distinct_map inj_on_def)
  then show ?thesis unfolding claim_loop_distinct all by blast
qed

text \<open>The sets behind the loops.\<close>

lemma attached_eq:
  assumes "distinct (map po_name (cfg_listeners cs))" and "l \<in> set (cfg_listeners cs)" and "\<not> is_http l"
  shows "attached cs (link_index cs) (po_name l) = attachments cs (po_name l)"
proof -
  have "index_by_name (cfg_listeners cs) (po_name l) = Some l" using assms(2) by (simp add: index_by_name_eq [OF assms(1)])
  with assms(3) show ?thesis by (simp add: attached_def is_http_def)
qed

lemma attachments_iff:
  "(r, i) \<in> set (attachments cs n) \<longleftrightarrow> r \<in> set (cfg_routes cs) \<and> has_forward r \<and> \<not> has_rules r \<and>
     i < length (rts_listeners (po_spec r)) \<and> rts_listeners (po_spec r) ! i = n"
  by (auto simp: attachments_def in_set_enumerate_eq image_iff)

lemma each_single_Nil: "each (\<lambda>i x. [f i x]) xs = [] \<longleftrightarrow> xs = []"
  by (auto simp: each_Nil neq_Nil_conv)

lemma l4_listener_routes_Nil:
  assumes "distinct (map po_name (cfg_listeners cs))" and l: "l \<in> set (cfg_listeners cs)"
    and "ListenerProtocol_Valid (lsn_protocol (po_spec l))"
  shows "l4_listener_routes cs (link_index cs) l = [] \<longleftrightarrow>
     (lsn_protocol (po_spec l) \<in> {''TCP'', ''UDP''} \<longrightarrow> length (attachments cs (po_name l)) = 1) \<and>
     (lsn_protocol (po_spec l) = ''TLS'' \<longrightarrow>
        (let rs = map fst (attachments cs (po_name l)) in
         rs \<noteq> [] \<and> (\<forall>r \<in> set rs. sni_hosts r \<noteq> []) \<and>
         (\<forall>h \<in> set (concat (map sni_hosts rs)). sni_norm h \<noteq> []) \<and> distinct (map sni_norm (concat (map sni_hosts rs)))))"
proof -
  consider (http) "is_http l" | (one) "lsn_protocol (po_spec l) \<in> {''TCP'', ''UDP''}" | (tls) "lsn_protocol (po_spec l) = ''TLS''"
    using assms(3) by (auto simp: ListenerProtocol_Valid_def is_http_def isHTTPProtocol_def)
  then show ?thesis
  proof cases
    case http
    then show ?thesis by (auto simp: l4_listener_routes_def is_http_def isHTTPProtocol_def)
  next
    case one
    then have "\<not> is_http l" by (auto simp: is_http_def isHTTPProtocol_def)
    note attached_eq [OF assms(1) l this]
    with one show ?thesis
      by (auto simp: l4_listener_routes_def isHTTPProtocol_def Let_def split: list.splits)
  next
    case tls
    then have "\<not> is_http l" by (auto simp: is_http_def isHTTPProtocol_def)
    note att = attached_eq [OF assms(1) l this]
    have eq: "(\<lambda>(r, i). sni_items r) = (sni_items \<circ> fst :: Route \<times> nat \<Rightarrow> sni_item list)" by (simp add: comp_def case_prod_unfold)
    have "l4_listener_routes cs (link_index cs) l = [] \<longleftrightarrow> attachments cs (po_name l) \<noteq> [] \<and>
        claim_loop sni_key (sni_bad l) (\<lambda>_ _. True) (sni_conflict l) Map.empty (concat (map sni_items (map fst (attachments cs (po_name l))))) = []"
      using tls att by (simp add: l4_listener_routes_def isHTTPProtocol_def Let_def eq)
    then show ?thesis unfolding sni_claims_Nil using tls by (simp add: Let_def)
  qed
qed

lemma checkL4_Nil:
  assumes "distinct (map po_name (cfg_listeners cs))" and "\<forall>l \<in> set (cfg_listeners cs). ListenerProtocol_Valid (lsn_protocol (po_spec l))"
  shows "checkL4RouteConstraints cs (link_index cs) = [] \<longleftrightarrow> forwarding_formed cs"
proof -
  have fields: "l4_listener_fields l = [] \<longleftrightarrow> (\<not> is_http l \<longrightarrow> lsn_http (po_spec l) = None \<and> lsn_policies (po_spec l) = [])" for l
    by (simp add: l4_listener_fields_def is_http_def each_single_Nil Let_def)
  have routes: "l4_route_fields r = [] \<longleftrightarrow>
      (has_forward r \<and> \<not> has_rules r \<longrightarrow> rts_hostnames (po_spec r) = [] \<and> rts_policies (po_spec r) = [])" for r
    by (auto simp: l4_route_fields_def each_single_Nil)
  have sorted: "set (sortedListeners ls) = set ls" for ls by (simp add: sortedListeners_def)
  have per: "(\<forall>l \<in> set (cfg_listeners cs). l4_listener_routes cs (link_index cs) l = []) \<longleftrightarrow>
    (\<forall>l \<in> set (cfg_listeners cs). lsn_protocol (po_spec l) \<in> {''TCP'', ''UDP''} \<longrightarrow> length (attachments cs (po_name l)) = 1) \<and>
    (\<forall>l \<in> set (cfg_listeners cs). lsn_protocol (po_spec l) = ''TLS'' \<longrightarrow>
        (let rs = map fst (attachments cs (po_name l)) in
         rs \<noteq> [] \<and> (\<forall>r \<in> set rs. sni_hosts r \<noteq> []) \<and>
         (\<forall>h \<in> set (concat (map sni_hosts rs)). sni_norm h \<noteq> []) \<and> distinct (map sni_norm (concat (map sni_hosts rs)))))"
    unfolding ball_conj_distrib [symmetric] by (rule ball_cong) (simp_all only: l4_listener_routes_Nil [OF assms(1)] assms(2))
  show ?thesis
    unfolding checkL4RouteConstraints_def append_is_Nil_conv concat_map_Nil sorted per fields routes forwarding_formed_def
    by (rule refl)
qed

section \<open>Host names\<close>

lemma host_items_iff:
  "(r, n, i, h) \<in> set (host_items lk q) \<longleftrightarrow> r = q \<and> has_rules q \<and> n \<in> set (rts_listeners (po_spec q)) \<and> lk_listeners lk n \<noteq> None \<and>
     i < length (route_hostnames q) \<and> route_hostnames q ! i = h"
  by (auto simp: host_items_def in_set_enumerate_eq image_iff)

lemma host_names: "h \<in> set hs \<longleftrightarrow> (\<exists>i < length hs. hs ! i = h)"
  by (simp add: in_set_conv_nth)

lemma checkHostnames_Nil: "checkHostnameConflicts cs (link_index cs) = [] \<longleftrightarrow> hostnames_disjoint cs"
proof -
  let ?items = "concat (map (host_items (link_index cs)) (cfg_routes cs))"
  have items: "x \<in> set ?items \<longleftrightarrow> (\<exists>r n i h. x = (r, n, i, h) \<and> r \<in> set (cfg_routes cs) \<and> has_rules r \<and> n \<in> set (rts_listeners (po_spec r)) \<and>
      n \<in> po_name ` set (cfg_listeners cs) \<and> i < length (route_hostnames r) \<and> route_hostnames r ! i = h)" for x
    by (cases x) (auto simp: host_items_iff index_by_name_None)
  have "checkHostnameConflicts cs (link_index cs) = [] \<longleftrightarrow>
     (\<forall>x \<in> set ?items. \<forall>y \<in> set ?items. host_key x = host_key y \<longrightarrow> po_name (fst x) = po_name (fst y))"
  proof -
    have "\<forall>x \<in> set ?items. host_key x \<noteq> None" by (simp add: host_key_def split: prod.split)
    then show ?thesis unfolding checkHostnameConflicts_def
      by (subst claim_loop_owner [where owner = "\<lambda>x. po_name (fst x)"]) (rule refl, blast)
  qed
  also have "\<dots> \<longleftrightarrow> hostnames_disjoint cs"
  proof
    assume L: "\<forall>x \<in> set ?items. \<forall>y \<in> set ?items. host_key x = host_key y \<longrightarrow> po_name (fst x) = po_name (fst y)"
    show "hostnames_disjoint cs" unfolding hostnames_disjoint_def
    proof (intro ballI impI)
      fix l r q assume a: "l \<in> set (cfg_listeners cs)" "r \<in> set (cfg_routes cs)" "q \<in> set (cfg_routes cs)"
        "has_rules r \<and> has_rules q \<and> on_listener r l \<and> on_listener q l \<and> po_name r \<noteq> po_name q"
      have "to_lower g \<noteq> to_lower h" if gh: "g \<in> set (route_hostnames r)" "h \<in> set (route_hostnames q)" for g h
      proof
        assume same: "to_lower g = to_lower h"
        from gh obtain i j where "i < length (route_hostnames r)" "route_hostnames r ! i = g"
          "j < length (route_hostnames q)" "route_hostnames q ! j = h" by (auto simp: host_names)
        then have "(r, po_name l, i, g) \<in> set ?items" "(q, po_name l, j, h) \<in> set ?items"
          using a unfolding items on_listener_def by (blast intro: imageI)+
        with L same have "po_name r = po_name q" by (fastforce simp: host_key_def)
        with a show False by simp
      qed
      then show "to_lower ` set (route_hostnames r) \<inter> to_lower ` set (route_hostnames q) = {}" by auto
    qed
  next
    assume R: "hostnames_disjoint cs"
    show "\<forall>x \<in> set ?items. \<forall>y \<in> set ?items. host_key x = host_key y \<longrightarrow> po_name (fst x) = po_name (fst y)"
    proof (intro ballI impI)
      fix x y assume x: "x \<in> set ?items" and y: "y \<in> set ?items" and k: "host_key x = host_key y"
      from x obtain r n i where r: "x = (r, n, i, route_hostnames r ! i)" "r \<in> set (cfg_routes cs)" "has_rules r"
        "n \<in> set (rts_listeners (po_spec r))" "n \<in> po_name ` set (cfg_listeners cs)" "i < length (route_hostnames r)" unfolding items by blast
      from y obtain q m j where q: "y = (q, m, j, route_hostnames q ! j)" "q \<in> set (cfg_routes cs)" "has_rules q"
        "m \<in> set (rts_listeners (po_spec q))" "j < length (route_hostnames q)" unfolding items by blast
      from r(5) obtain l where l: "l \<in> set (cfg_listeners cs)" "po_name l = n" by auto
      from k r(1) q(1) have "m = n" "to_lower (route_hostnames r ! i) = to_lower (route_hostnames q ! j)" by (auto simp: host_key_def)
      moreover have "route_hostnames r ! i \<in> set (route_hostnames r)" "route_hostnames q ! j \<in> set (route_hostnames q)" using r(6) q(5) by simp_all
      ultimately have "to_lower ` set (route_hostnames r) \<inter> to_lower ` set (route_hostnames q) \<noteq> {}" by (metis IntI empty_iff imageI)
      moreover note R [unfolded hostnames_disjoint_def, rule_format, OF l(1) r(2) q(2)]
      ultimately have "po_name r = po_name q" using l(2) r(3,4) q(3,4) \<open>m = n\<close> by (auto simp: on_listener_def)
      with r(1) q(1) show "po_name (fst x) = po_name (fst y)" by simp
    qed
  qed
  finally show ?thesis .
qed

section \<open>Policies, certificates and sources\<close>

lemma check_level_Nil:
  "check_level lk org kind n path level ps = [] \<longleftrightarrow> level \<noteq> levelRule \<or> (\<forall>p \<in> set ps. policyTypeOf lk p \<noteq> ''ipAccess'')"
  unfolding check_level_def by (subst each_Nil_set [where P = "\<lambda>p. policyTypeOf lk p = ''ipAccess'' \<longrightarrow> level \<noteq> levelRule"]) auto

lemma checkLevels_Nil: "checkPolicyAttachmentLevels cs (link_index cs) = [] \<longleftrightarrow> levels_allowed cs"
proof -
  have rules: "each (\<lambda>i rule. check_level lk org kind n (g i) levelRule (rule_policies rule)) rs = [] \<longleftrightarrow>
      (\<forall>rule \<in> set rs. \<forall>p \<in> set (rule_policies rule). policyTypeOf lk p \<noteq> ''ipAccess'')" for lk org kind n g rs
    by (rule each_Nil_set) (simp add: check_level_Nil)
  show ?thesis
    unfolding checkPolicyAttachmentLevels_def append_is_Nil_conv concat_map_Nil rules check_level_Nil levels_allowed_def rule_attachments_def
    by (cases "cfg_gateway cs") (auto simp: check_level_Nil)
qed

lemma checkTLSRules_Nil:
  assumes "\<forall>l \<in> set (cfg_listeners cs). ListenerProtocol_Valid (lsn_protocol (po_spec l))"
  shows "checkTLSRules cs = [] \<longleftrightarrow> tls_where_terminated cs"
  unfolding checkTLSRules_def concat_map_Nil tls_where_terminated_def
  by (rule ball_cong) (use assms in \<open>auto simp: ListenerProtocol_Valid_def Let_def\<close>)

lemma certificate_errors_Nil: "certificate_errors opts V l i c = [] \<longleftrightarrow> certificate_usable opts V c"
  unfolding certificate_errors_def certificate_usable_def Let_def
  by (cases "crt_ref c = []"; cases "opt_managedCertificateDir opts = []"; cases "ValidateName (crt_ref c)")
    (simp_all split: option.split)

lemma checkCertificates_Nil: "checkCertificates opts V cs = [] \<longleftrightarrow> certificates_usable opts V cs"
proof -
  have certs: "each (certificate_errors opts V l) xs = [] \<longleftrightarrow> (\<forall>c \<in> set xs. certificate_usable opts V c)" for l xs
    by (rule each_Nil_set) (rule certificate_errors_Nil)
  show ?thesis
    unfolding checkCertificates_def concat_map_Nil certificates_usable_def
    by (rule ball_cong [OF refl]) (auto simp: certs split: option.split)
qed

lemma checkKubernetes_Nil: "checkKubernetesService opts cs = [] \<longleftrightarrow> sources_available opts cs"
  unfolding checkKubernetesService_def sources_available_def
  by (cases "opt_hasEndpointSource opts") (simp, simp only: if_False concat_map_Nil split: if_split, simp)

section \<open>The equivalence\<close>

lemma link_checks_Nil: "loaded cs \<Longrightarrow> link_checks opts V cs = [] \<longleftrightarrow> well_linked opts V cs"
  unfolding loaded_def link_checks_def Let_def append_is_Nil_conv well_linked_def
  by (simp add: resolveReferences_Nil addresses_Nil checkRouteForm_Nil checkL4_Nil checkHostnames_Nil checkLevels_Nil
    checkTLSRules_Nil checkCertificates_Nil checkKubernetes_Nil)

lemma listener_defaults_protocol [simp]: "lsn_protocol (listener_defaults s) = lsn_protocol s" "lsn_port (listener_defaults s) = lsn_port s"
  by (simp_all add: listener_defaults_def)

lemma defaults_loaded: "loaded cs \<Longrightarrow> loaded (ApplyDefaults cs)"
  by (simp add: loaded_def ApplyDefaults_def comp_def)

text \<open>Every error of the stage is of severity \<open>Error\<close>, so an error stops the pipeline.\<close>

definition link_fault :: "compile_error \<Rightarrow> bool" where
  "link_fault e \<longleftrightarrow> ce_stage e = ''link'' \<and> ce_severity e = SeverityError"

lemma link_fault_linkError [simp]: "link_fault (linkError org kind n path m)"
  by (simp add: link_fault_def linkError_def)

lemma list_all_each: "(\<And>i x. list_all P (f i x)) \<Longrightarrow> list_all P (each f xs)"
  by (force simp: each_def list_all_iff)

lemma list_all_concat_map: "(\<And>x. list_all P (f x)) \<Longrightarrow> list_all P (concat (map f xs))"
  by (auto simp: list_all_iff)

lemma list_all_claim_loop: "(\<And>x. P (bad x)) \<Longrightarrow> (\<And>p x. P (err p x)) \<Longrightarrow> list_all P (claim_loop key bad clash err seen xs)"
  by (induction xs arbitrary: seen) (simp_all split: option.split)

lemma refs_faults: "list_all link_fault (resolveReferences cs lk)"
proof -
  have pols: "list_all link_fault (resolvePolicyRefs org kind n path ps lk)" for org kind n path ps
    unfolding resolvePolicyRefs_def by (rule list_all_each) simp
  have ups: "list_all link_fault (upstream_ref r lk path u)" for r path u by (simp add: upstream_ref_def)
  have "list_all link_fault (resolve_route lk r)" for r
    unfolding resolve_route_def list_all_append by (intro conjI list_all_each pols) (simp_all add: ups pols list_all_each split: option.split)
  then show ?thesis unfolding resolveReferences_def list_all_append
    by (intro conjI list_all_concat_map pols) (simp_all add: pols split: option.split)
qed

lemma form_faults: "list_all link_fault (checkRouteForm cs lk)"
proof -
  have "list_all link_fault (route_listener_form lk r i n)" for r i n
    by (simp add: route_listener_form_def Let_def split: option.split)
  then have "list_all link_fault (route_form lk r)" for r by (simp add: route_form_def list_all_each)
  then show ?thesis unfolding checkRouteForm_def by (rule list_all_concat_map)
qed

lemma l4_faults: "list_all link_fault (checkL4RouteConstraints cs lk)"
proof -
  have "list_all link_fault (l4_listener_fields l)" for l by (simp add: l4_listener_fields_def Let_def list_all_each)
  moreover have "list_all link_fault (l4_route_fields r)" for r by (simp add: l4_route_fields_def list_all_each)
  moreover have "list_all link_fault (l4_listener_routes cs lk l)" for l
  proof -
    have bad: "link_fault (sni_bad l x)" for x by (simp add: sni_bad_def Let_def split: option.split)
    have "link_fault (sni_conflict l p x)" for p x by (simp add: sni_conflict_def bad Let_def split: option.split)
    then have "list_all link_fault (claim_loop sni_key (sni_bad l) (\<lambda>_ _. True) (sni_conflict l) Map.empty xs)" for xs
      using bad by (intro list_all_claim_loop)
    then show ?thesis by (simp add: l4_listener_routes_def Let_def list.pred_map list.pred_True comp_def case_prod_unfold split: list.split)
  qed
  ultimately show ?thesis unfolding checkL4RouteConstraints_def list_all_append by (intro conjI list_all_concat_map)
qed

lemma other_faults: "list_all link_fault (checkListenerAddressUnique cs)" "list_all link_fault (checkHostnameConflicts cs lk)"
  "list_all link_fault (checkPolicyAttachmentLevels cs lk)" "list_all link_fault (checkTLSRules cs)" "list_all link_fault (checkKubernetesService opts cs)"
proof -
  show "list_all link_fault (checkListenerAddressUnique cs)" unfolding checkListenerAddressUnique_def by (rule list_all_claim_loop) simp_all
  have "link_fault (host_conflict p x)" for p x by (simp add: host_conflict_def split: prod.split)
  then show "list_all link_fault (checkHostnameConflicts cs lk)" unfolding checkHostnameConflicts_def by (intro list_all_claim_loop)
  have level: "list_all link_fault (check_level lk org kind n path level ps)" for org kind n path level ps
    unfolding check_level_def by (rule list_all_each) simp
  show "list_all link_fault (checkPolicyAttachmentLevels cs lk)"
    unfolding checkPolicyAttachmentLevels_def list_all_append
    by (intro conjI list_all_concat_map) (simp_all add: level list_all_each split: option.split)
  show "list_all link_fault (checkTLSRules cs)" unfolding checkTLSRules_def by (rule list_all_concat_map) (simp add: Let_def)
  show "list_all link_fault (checkKubernetesService opts cs)"
    unfolding checkKubernetesService_def by (simp add: list_all_concat_map)
qed

lemma certificate_faults: "list_all link_fault (checkCertificates opts V cs)"
proof -
  have "list_all link_fault (certificate_errors opts V l i c)" for l i c
    by (simp add: certificate_errors_def Let_def split: option.split)
  then show ?thesis unfolding checkCertificates_def
    by (intro list_all_concat_map) (simp add: list_all_each split: option.split)
qed

lemma link_checks_faults: "list_all link_fault (link_checks opts V cs)"
  by (simp add: link_checks_def Let_def refs_faults form_faults l4_faults other_faults certificate_faults)

lemma hasErrors_link: "hasErrors (link_checks opts V cs) \<longleftrightarrow> link_checks opts V cs \<noteq> []"
  using link_checks_faults [of opts V cs] by (cases "link_checks opts V cs") (auto simp: hasErrors_def link_fault_def)

end
