(* ===== verification/CompilePolicy.thy ===== *)
theory CompilePolicy
  imports EnvoyTypes LinkSpec "HOL-Library.Monad_Syntax"
begin

text \<open>
  Policies in the third stage of the compiler (\<open>internal/compile/build_policy.go\<close>, \<open>build_extauth.go\<close>):
  the policies in effect for a rule, the configuration they give a route, and what they collect for the
  listener and for the clusters.

  A run-time panic of the source is \<open>None\<close>; an error it reports is a list or an \<open>Inl\<close>.  SHA-256, the
  parsing of URLs and addresses and the reading of certificates are parameters.  The two maps of
  generated clusters, which the stage fills while it builds routes, are lists of named clusters.
\<close>

record build_lib =
  bl_net :: net_lib
  bl_sha256hex :: "string \<Rightarrow> string"
  bl_isIP :: "string \<Rightarrow> bool"
  bl_serverNames :: "string \<Rightarrow> string + string list"

definition buildError :: "origin \<Rightarrow> string \<Rightarrow> string \<Rightarrow> string \<Rightarrow> string \<Rightarrow> compile_error" where
  "buildError org kind name path m = \<lparr>ce_stage = ''build'', ce_file = or_file org, ce_kind = kind, ce_name = name,
     ce_path = path, ce_message = m, ce_severity = SeverityError\<rparr>"

section \<open>Policies in effect\<close>

record effectivePolicies =
  eff_headerModifier :: "HeaderModifierPolicy option"
  eff_cors :: "CORSPolicy option"
  eff_rateLimit :: "RateLimitPolicy option"
  eff_jwt :: "JWTPolicy option"
  eff_extAuth :: "ExtAuthPolicy option"
  eff_ipAccess :: "IPAccessPolicy option"
  eff_unsupported :: "string list"

definition no_policies :: effectivePolicies where
  "no_policies = \<lparr>eff_headerModifier = None, eff_cors = None, eff_rateLimit = None, eff_jwt = None, eff_extAuth = None,
     eff_ipAccess = None, eff_unsupported = []\<rparr>"

definition apply_policy :: "PolicySpec \<Rightarrow> effectivePolicies \<Rightarrow> effectivePolicies" where
  "apply_policy s eff =
     (if pol_headerModifier s \<noteq> None then eff\<lparr>eff_headerModifier := pol_headerModifier s\<rparr>
      else if pol_cors s \<noteq> None then eff\<lparr>eff_cors := pol_cors s\<rparr>
      else if pol_rateLimit s \<noteq> None then eff\<lparr>eff_rateLimit := pol_rateLimit s\<rparr>
      else if pol_jwt s \<noteq> None then eff\<lparr>eff_jwt := pol_jwt s\<rparr>
      else if pol_extAuth s \<noteq> None then eff\<lparr>eff_extAuth := pol_extAuth s\<rparr>
      else if pol_ipAccess s \<noteq> None then eff\<lparr>eff_ipAccess := pol_ipAccess s\<rparr>
      else eff\<lparr>eff_unsupported := eff_unsupported eff @ [policyTypeKey s]\<rparr>)"

definition normalizePolicies :: "linked \<Rightarrow> PolicyAttachment list list \<Rightarrow> effectivePolicies" where
  "normalizePolicies lk levels =
     fold (\<lambda>a eff. case attached_spec lk a of None \<Rightarrow> eff | Some s \<Rightarrow> apply_policy s eff) (concat levels) no_policies"

section \<open>Headers\<close>

definition headerAdds :: "HeaderOps \<Rightarrow> header_option list" where
  "headerAdds ops = map (\<lambda>(k, v). (OVERWRITE_IF_EXISTS_OR_ADD, k, v)) (go_map_json (hop_set ops)) @
     map (\<lambda>(k, v). (APPEND_IF_EXISTS_OR_ADD, k, v)) (go_map_json (hop_add ops))"

definition applyHeaderModifier :: "HeaderModifierPolicy option \<Rightarrow> envoy_route \<Rightarrow> envoy_route" where
  "applyHeaderModifier hm route =
     (case hm of None \<Rightarrow> route
      | Some m \<Rightarrow>
          let r1 = (case hmp_request m of None \<Rightarrow> route
            | Some rq \<Rightarrow> route\<lparr>ert_requestAdd := ert_requestAdd route @ headerAdds rq,
                ert_requestRemove := ert_requestRemove route @ hop_remove rq\<rparr>) in
          (case hmp_response m of None \<Rightarrow> r1
           | Some resp \<Rightarrow> r1\<lparr>ert_responseAdd := ert_responseAdd r1 @ headerAdds resp,
               ert_responseRemove := ert_responseRemove r1 @ hop_remove resp\<rparr>))"

section \<open>Origins\<close>

text \<open>\<open>regexp.QuoteMeta\<close>.\<close>

definition QuoteMeta :: "string \<Rightarrow> string" where
  "QuoteMeta s = concat (map (\<lambda>c. if c \<in> set ''.+*?()|[]{}^$'' \<or> c = CHR 0x5C then [CHR 0x5C, c] else [c]) s)"

definition originMatcher :: "string \<Rightarrow> string_matcher" where
  "originMatcher s =
     (if CHR ''*'' \<notin> set s then MatchExact s
      else MatchRegex (''^'' @ join_with ''.*'' (map QuoteMeta (split_on (CHR ''*'') s)) @ ''$''))"

text \<open>Division of Go's integers, towards zero.\<close>

definition go_div :: "int \<Rightarrow> int \<Rightarrow> int" where
  "go_div a b = (if 0 \<le> a then a div b else - ((- a) div b))"

definition buildCorsPolicy :: "CORSPolicy \<Rightarrow> cors_policy" where
  "buildCorsPolicy p =
     \<lparr>cp_origins = (if ''*'' \<in> set (cors_allowOrigins p) then [] else map originMatcher (cors_allowOrigins p)),
      cp_methods = join_with '','' (cors_allowMethods p), cp_headers = join_with '','' (cors_allowHeaders p),
      cp_credentials = cors_allowCredentials p,
      cp_maxAge = (case cors_maxAge p of None \<Rightarrow> [] | Some d \<Rightarrow> string_of_int (go_div d second))\<rparr>"

section \<open>Addresses\<close>

text \<open>\<open>MustParsePrefix\<close> panics on a text that is no prefix.  The prefixes are told apart and sorted by their text.\<close>

definition prefix_text :: "string \<times> int \<Rightarrow> string" where
  "prefix_text p = fst p @ ''/'' @ string_of_int (snd p)"

fun dedup_by :: "('a \<Rightarrow> 'k) \<Rightarrow> 'k set \<Rightarrow> 'a list \<Rightarrow> 'a list" where
  "dedup_by key seen [] = []"
| "dedup_by key seen (x # xs) = (if key x \<in> seen then dedup_by key seen xs else x # dedup_by key (insert (key x) seen) xs)"

definition cidrPrincipals :: "build_lib \<Rightarrow> string list \<Rightarrow> principal list option" where
  "cidrPrincipals B raw =
     map_option (\<lambda>ps. map (\<lambda>(a, n). RemoteIp a (uint32 n)) (sort_key prefix_text (dedup_by prefix_text {} ps)))
       (those (map (nl_parsePrefix (bl_net B)) raw))"

definition orPrincipal :: "principal list \<Rightarrow> principal" where
  "orPrincipal ids = (case ids of [p] \<Rightarrow> p | _ \<Rightarrow> OrIds ids)"

definition buildIPAccess :: "build_lib \<Rightarrow> IPAccessPolicy \<Rightarrow> principal option" where
  "buildIPAccess B p = do {
     allow \<leftarrow> cidrPrincipals B (ipa_allow p);
     deny \<leftarrow> cidrPrincipals B (ipa_deny p);
     let first = (if allow = [] then AnyPrincipal else orPrincipal allow);
     Some (if deny = [] then first else AndIds [first, NotId (orPrincipal deny)]) }"

section \<open>Rate limits\<close>

definition rateLimitTokenBucket :: "RateLimitPolicy \<Rightarrow> int \<Rightarrow> token_bucket" where
  "rateLimitTokenBucket p unit =
     \<lparr>tb_maxTokens = uint32 (case rl_burst p of Some b \<Rightarrow> b | None \<Rightarrow> rl_requests p), tb_tokensPerFill = uint32 (rl_requests p),
      tb_fillInterval = unit\<rparr>"

definition limit_unit :: "string \<Rightarrow> int" where
  "limit_unit u = (if u = ''second'' then second else if u = ''minute'' then 60 * second else if u = ''hour'' then 3600 * second else 0)"

definition buildLocalRateLimit :: "RateLimitPolicy \<Rightarrow> local_rate_limit" where
  "buildLocalRateLimit p =
     (let header = map_option to_lower (CutPrefix (rl_key p) RateLimitKeyHeaderPrefix);
          key = (case header of None \<Rightarrow> ''remote_address'' | Some h \<Rightarrow> RateLimitKeyHeaderPrefix @ h);
          bucket = rateLimitTokenBucket p (limit_unit (rl_unit p)) in
      \<lparr>lrl_bucket = bucket, lrl_action = (case header of None \<Rightarrow> LimitRemoteAddress | Some h \<Rightarrow> LimitHeader h key),
       lrl_descriptorKey = key, lrl_descriptorBucket = bucket,
       lrl_maxDynamic = uint32 (case rl_maxKeys p of Some m \<Rightarrow> m | None \<Rightarrow> RateLimitDefaultMaxKeys),
       lrl_enabledPercent = 100, lrl_enforcedPercent = 100, lrl_alwaysConsumeDefault = False\<rparr>)"

section \<open>What the stage collects\<close>

record ext_assembly =
  xas_key :: string
  xas_config :: ext_authz
  xas_cluster :: string

record build_state =
  bs_jwks :: "(string \<times> cluster) list"
  bs_extAuth :: "(string \<times> cluster) list"
  bs_providers :: "string \<rightharpoonup> jwt_provider"
  bs_requirements :: "string \<rightharpoonup> jwt_requirement"
  bs_ext :: "ext_assembly option"

definition put_cluster :: "cluster \<Rightarrow> (string \<times> cluster) list \<Rightarrow> (string \<times> cluster) list" where
  "put_cluster c cs = (clu_name c, c) # filter (\<lambda>(n, d). n \<noteq> clu_name c) cs"

definition upstreamTLSSocket :: "UpstreamTLS \<Rightarrow> DNSEndpointSource option \<Rightarrow> upstream_tls" where
  "upstreamTLSSocket t dns =
     \<lparr>utc_sni = (case (utls_sni t, dns) of ([], Some d) \<Rightarrow> dns_hostname d | (s, _) \<Rightarrow> s),
      utc_trustedCa = utls_caFile t, utc_acceptUntrusted = utls_insecureSkipVerify t\<rparr>"

text \<open>A cluster with one endpoint, as the policies generate them.\<close>

definition service_cluster :: "string \<Rightarrow> discovery_type \<Rightarrow> string \<Rightarrow> int \<Rightarrow> upstream_tls option \<Rightarrow> bool \<Rightarrow> cluster" where
  "service_cluster n typ host port tls h2 =
     \<lparr>clu_name = n, clu_type = typ, clu_connectTimeout = DefaultConnectTimeout,
      clu_loadAssignment = Some \<lparr>cla_clusterName = n, cla_endpoints = [(host, uint32 port, None)]\<rparr>, clu_lb = ROUND_ROBIN,
      clu_healthChecks = [], clu_tls = tls, clu_http2 = h2, clu_breakers = None, clu_eds = False\<rparr>"

section \<open>JWT\<close>

definition jwtProviderKey :: "JWTPolicy \<Rightarrow> string" where
  "jwtProviderKey j = jwt_issuer j @ ''|'' @
     (case jwt_jwks j of None \<Rightarrow> []
      | Some k \<Rightarrow> if jwks_uri k \<noteq> [] then ''uri:'' @ trim_space (jwks_uri k)
                   else if jwks_file k \<noteq> [] then ''file:'' @ jwks_file k else [])"

definition jwtProviderName :: "build_lib \<Rightarrow> string \<Rightarrow> string" where
  "jwtProviderName B key = ''jwt/'' @ take 8 (bl_sha256hex B key)"

definition jwtAllowMissingRequirement :: string where "jwtAllowMissingRequirement = ''allow-missing''"

text \<open>\<open>fmt.Sscanf(s, "%d", &n)\<close>: after spaces, which a line feed does not count among, a sign and at
  least one digit.\<close>

definition scan_space :: "char \<Rightarrow> bool" where
  "scan_space c \<longleftrightarrow> c \<in> {CHR '' '', CHR 0x09, CHR 0x0B, CHR 0x0C, CHR 0x0D}"

definition scan_int :: "string \<Rightarrow> int option" where
  "scan_int text =
     (let s = dropWhile scan_space text;
          ds = takeWhile is_digit (if s \<noteq> [] \<and> (hd s = CHR ''-'' \<or> hd s = CHR ''+'') then tl s else s);
          n = (if s \<noteq> [] \<and> hd s = CHR ''-'' then - digits_value ds else digits_value ds)
      in if ds = [] \<or> n < - (2 ^ 63) \<or> 2 ^ 63 \<le> n then None else Some n)"

definition jwksFetchCluster :: "build_lib \<Rightarrow> string \<Rightarrow> build_state \<Rightarrow> (string + string) \<times> build_state" where
  "jwksFetchCluster B raw s =
     (case nl_parseURL (bl_net B) raw of
        Inl e \<Rightarrow> (Inl (''invalid jwks uri '' @ go_quote raw @ '': '' @ e), s)
      | Inr u \<Rightarrow>
          if url_hostname u = [] then (Inl (''invalid jwks uri '' @ go_quote raw @ '': <nil>''), s)
          else let port = (if url_port u \<noteq> [] then url_port u else if url_scheme u = ''https'' then ''443'' else ''80'') in
            (case scan_int port of
               None \<Rightarrow> (Inl (''invalid jwks uri '' @ go_quote raw @ '': bad port '' @ go_quote port), s)
             | Some n \<Rightarrow>
                 if n < 1 \<or> 65535 < n then (Inl (''invalid jwks uri '' @ go_quote raw @ '': bad port '' @ go_quote port), s)
                 else let name = ''jwt-jwks/'' @ url_hostname u @ '':'' @ port in
                   if name \<in> fst ` set (bs_jwks s) then (Inr name, s)
                   else let c = service_cluster name STRICT_DNS (url_hostname u) n
                          (if url_scheme u = ''https''
                           then Some (upstreamTLSSocket \<lparr>utls_enabled = True, utls_sni = url_hostname u, utls_caFile = [], utls_insecureSkipVerify = False\<rparr> None)
                           else None) False in
                     (Inr name, s\<lparr>bs_jwks := put_cluster c (bs_jwks s)\<rparr>)))"

text \<open>\<open>j.JWKS\<close> is not \<open>nil\<close> here.\<close>

definition buildJWTProvider :: "build_lib \<Rightarrow> JWTPolicy \<Rightarrow> JWKS \<Rightarrow> build_state \<Rightarrow> (string + jwt_provider) \<times> build_state" where
  "buildJWTProvider B j k s =
     (let p = (\<lambda>src. \<lparr>jp_issuer = jwt_issuer j, jp_audiences = jwt_audiences j,
                 jp_forwardPayloadHeader = jwt_forwardPayloadHeader j, jp_source = src\<rparr>) in
      if jwks_uri k \<noteq> [] then
        (case jwksFetchCluster B (jwks_uri k) s of
           (Inl e, s') \<Rightarrow> (Inl e, s')
         | (Inr c, s') \<Rightarrow> (Inr (p (Some (RemoteJwks (jwks_uri k) c DefaultConnectTimeout))), s'))
      else (Inr (p (if jwks_file k \<noteq> [] then Some (LocalJwks (jwks_file k)) else None)), s))"

definition register_provider :: "build_lib \<Rightarrow> JWTPolicy \<Rightarrow> JWKS \<Rightarrow> string \<Rightarrow> build_state \<Rightarrow> string option \<times> build_state" where
  "register_provider B j k pname s =
     (if bs_providers s pname \<noteq> None then (None, s)
      else case buildJWTProvider B j k s of
          (Inl e, s') \<Rightarrow> (Some e, s')
        | (Inr p, s') \<Rightarrow> (None, s'\<lparr>bs_providers := (bs_providers s')(pname \<mapsto> p)\<rparr>))"

definition registerJWT :: "build_lib \<Rightarrow> JWTPolicy \<Rightarrow> build_state \<Rightarrow> (string + string) \<times> build_state" where
  "registerJWT B j s =
     (if jwt_optional j
      then (Inr jwtAllowMissingRequirement, s\<lparr>bs_requirements := (bs_requirements s)(jwtAllowMissingRequirement \<mapsto> AllowMissing)\<rparr>)
      else case jwt_jwks j of
          None \<Rightarrow> (Inl (''jwt policy requires jwks (uri | file) unless optional: true (issuer '' @ go_quote (jwt_issuer j) @ '')''), s)
        | Some k \<Rightarrow>
            let pname = jwtProviderName B (jwtProviderKey j) in
            (case register_provider B j k pname s of
               (Some e, s') \<Rightarrow> (Inl e, s')
             | (None, s') \<Rightarrow>
                 let rn = (if jwt_audiences j \<noteq> [] then pname @ '':'' @ join_with '','' (jwt_audiences j) else pname) in
                 (Inr rn, s'\<lparr>bs_requirements := (bs_requirements s')(rn \<mapsto>
                    (if jwt_audiences j \<noteq> [] then ProviderAndAudiences pname (jwt_audiences j) else ProviderName pname))\<rparr>)))"

section \<open>External authorization\<close>

definition bool_text :: "bool \<Rightarrow> string" where "bool_text b = (if b then ''true'' else ''false'')"

definition extAuthProviderKey :: "build_lib \<Rightarrow> ExtAuthPolicy \<Rightarrow> string + string" where
  "extAuthProviderKey B p =
     bind_sum
       (case (xa_grpc p, xa_http p) of
          (Some a, _) \<Rightarrow>
            (case SplitHostPort a of
               Inl e \<Rightarrow> Inl (''invalid extAuth gRPC address '' @ go_quote a @ '': '' @ e)
             | Inr (host, port) \<Rightarrow> Inr (''grpc|'' @ JoinHostPort (to_lower host) port))
        | (None, Some h) \<Rightarrow>
            (case nl_parseURL (bl_net B) (xah_address h) of
               Inl e \<Rightarrow> Inl (''invalid extAuth HTTP address '' @ go_quote (xah_address h) @ '': '' @ e)
             | Inr u \<Rightarrow> Inr (''http|'' @ to_lower (url_scheme u) @ ''|'' @ JoinHostPort (to_lower (url_hostname u)) (url_port u) @ ''|'' @
                 xah_pathPrefix h @ ''|ca='' @ xah_caFile h @ ''|insecure='' @ bool_text (xah_insecureSkipVerify h)))
        | (None, None) \<Rightarrow> Inl ''extAuth provider is missing grpc/http service'')
       (\<lambda>service. Inr (service @ ''|failOpen='' @ bool_text (xa_failOpen p)))"

definition extAuthClusterName :: "build_lib \<Rightarrow> string \<Rightarrow> string" where
  "extAuthClusterName B key = ''extauth/'' @ take 12 (bl_sha256hex B key)"

definition buildExtAuthCluster :: "build_lib \<Rightarrow> string \<Rightarrow> string \<Rightarrow> ExtAuthHTTP option \<Rightarrow> bool \<Rightarrow> string + cluster" where
  "buildExtAuthCluster B name address httpTLS http2 =
     (case SplitHostPort address of
        Inl e \<Rightarrow> Inl (''invalid extAuth address '' @ go_quote address @ '': '' @ e)
      | Inr (host, port) \<Rightarrow>
          (case scan_int port of
             None \<Rightarrow> Inl (''invalid extAuth port '' @ go_quote port)
           | Some n \<Rightarrow> Inr (service_cluster name (if bl_isIP B host then STATIC else STRICT_DNS) host n
               (map_option (\<lambda>h. upstreamTLSSocket \<lparr>utls_enabled = True, utls_sni = host, utls_caFile = xah_caFile h,
                  utls_insecureSkipVerify = xah_insecureSkipVerify h\<rparr> None) httpTLS) http2)))"

text \<open>A policy with neither service has no key, so it does not get here.\<close>

definition buildExtAuthProvider :: "build_lib \<Rightarrow> ExtAuthPolicy \<Rightarrow> string \<Rightarrow> build_state \<Rightarrow> (string + ext_authz \<times> string) \<times> build_state" where
  "buildExtAuthProvider B p key s =
     (let name = extAuthClusterName B key;
          built = (case (xa_grpc p, xa_http p) of
            (Some a, _) \<Rightarrow> bind_sum (buildExtAuthCluster B name a None True) (\<lambda>c. Inr (c, GrpcService name DefaultConnectTimeout))
          | (None, Some h) \<Rightarrow>
              (case nl_parseURL (bl_net B) (xah_address h) of
                 Inl e \<Rightarrow> Inl e
               | Inr u \<Rightarrow> bind_sum (buildExtAuthCluster B name (url_host u) (if url_scheme u = ''https'' then Some h else None) False)
                   (\<lambda>c. Inr (c, HttpService (xah_address h) name DefaultConnectTimeout (xah_pathPrefix h))))
          | (None, None) \<Rightarrow> Inl []) in
      case built of
        Inl e \<Rightarrow> (Inl e, s)
      | Inr (c, service) \<Rightarrow> (Inr (\<lparr>ez_failureModeAllow = xa_failOpen p, ez_service = service\<rparr>, name), s\<lparr>bs_extAuth := put_cluster c (bs_extAuth s)\<rparr>))"

definition registerExtAuth :: "build_lib \<Rightarrow> ExtAuthPolicy option \<Rightarrow> build_state \<Rightarrow> string option \<times> build_state" where
  "registerExtAuth B pol s =
     (case pol of
        None \<Rightarrow> (None, s)
      | Some p \<Rightarrow>
          if xa_disabled p then (None, s)
          else case extAuthProviderKey B p of
              Inl e \<Rightarrow> (Some e, s)
            | Inr key \<Rightarrow>
                (case bs_ext s of
                   Some a \<Rightarrow>
                     (if xas_key a \<noteq> key then Some ''extAuth provider conflicts with another effective policy on this listener'' else None, s)
                 | None \<Rightarrow>
                     (case buildExtAuthProvider B p key s of
                        (Inl e, s') \<Rightarrow> (Some e, s')
                      | (Inr (cfg, cluster), s') \<Rightarrow> (None, s'\<lparr>bs_ext := Some \<lparr>xas_key = key, xas_config = cfg, xas_cluster = cluster\<rparr>\<rparr>))))"

section \<open>The configuration of a route\<close>

definition typedPerFilterConfig ::
    "build_lib \<Rightarrow> effectivePolicies \<Rightarrow> Route \<Rightarrow> nat \<Rightarrow> build_state \<Rightarrow> ((string \<rightharpoonup> per_route) \<times> compile_error list \<times> build_state) option" where
  "typedPerFilterConfig B eff r idx s = do {
     let path = index_text ''spec.rules'' idx @ ''.policies'';
     let m0 = (case eff_cors eff of None \<Rightarrow> Map.empty | Some c \<Rightarrow> Map.empty(corsFilterName \<mapsto> CorsPerRoute (buildCorsPolicy c)));
     m1 \<leftarrow> (case eff_ipAccess eff of None \<Rightarrow> Some m0
            | Some ip \<Rightarrow> map_option (\<lambda>p. m0(rbacFilterName \<mapsto> RbacPerRoute p)) (buildIPAccess B ip));
     let m2 = (case eff_rateLimit eff of None \<Rightarrow> m1 | Some l \<Rightarrow> m1(localRateLimitFilterName \<mapsto> RateLimitPerRoute (buildLocalRateLimit l)));
     let (m3, errs, s3) = (case eff_jwt eff of None \<Rightarrow> (m2, [], s)
            | Some j \<Rightarrow> (case registerJWT B j s of
                (Inl e, s') \<Rightarrow> (m2, [buildError (po_origin r) ''Route'' (po_name r) path e], s')
              | (Inr rn, s') \<Rightarrow> (m2(jwtAuthnFilterName \<mapsto> JwtPerRoute rn), [], s')));
     Some ((case eff_extAuth eff of None \<Rightarrow> m3
            | Some x \<Rightarrow> m3(extAuthzFilterName \<mapsto> (if xa_disabled x then ExtAuthzDisabled else ExtAuthzCheck))), errs, s3) }"

definition finalize_route :: "bool \<Rightarrow> envoy_route \<Rightarrow> envoy_route" where
  "finalize_route enabled r =
     (if \<not> enabled then r\<lparr>ert_perFilter := (ert_perFilter r)(extAuthzFilterName := None)\<rparr>
      else if ert_perFilter r extAuthzFilterName = None
      then r\<lparr>ert_perFilter := (ert_perFilter r)(extAuthzFilterName \<mapsto> ExtAuthzDisabled)\<rparr>
      else r)"

definition finalizeExtAuthRoutes :: "bool \<Rightarrow> route_config \<Rightarrow> route_config" where
  "finalizeExtAuthRoutes enabled rc =
     rc\<lparr>rcf_virtualHosts := map (\<lambda>v. v\<lparr>vhx_routes := map (finalize_route enabled) (vhx_routes v)\<rparr>) (rcf_virtualHosts rc)\<rparr>"

text \<open>The order of the filters is fixed.\<close>

definition httpFilters :: "build_state \<Rightarrow> http_filter list" where
  "httpFilters s = [RbacFilter, CorsFilter, JwtFilter (bs_providers s) (bs_requirements s)] @
     (case bs_ext s of None \<Rightarrow> [] | Some a \<Rightarrow> [ExtAuthzFilter (xas_config a)]) @ [LocalRateLimitFilter, RouterFilter]"

section \<open>The nearest policy\<close>

definition single_type :: "PolicySpec \<Rightarrow> bool" where
  "single_type s \<longleftrightarrow> count_set (policy_types s) = 1"

text \<open>The last policy of a type in a list of attachments, and the first that is given among several.\<close>

definition pick :: "linked \<Rightarrow> (PolicySpec \<Rightarrow> 'a option) \<Rightarrow> PolicyAttachment \<Rightarrow> 'a option \<Rightarrow> 'a option" where
  "pick lk sel a p = (case Option.bind (attached_spec lk a) sel of Some q \<Rightarrow> Some q | None \<Rightarrow> p)"

definition level_policy :: "linked \<Rightarrow> (PolicySpec \<Rightarrow> 'a option) \<Rightarrow> PolicyAttachment list \<Rightarrow> 'a option" where
  "level_policy lk sel ps = fold (pick lk sel) ps None"

fun first_some :: "'a option list \<Rightarrow> 'a option" where
  "first_some [] = None"
| "first_some (Some x # xs) = Some x"
| "first_some (None # xs) = first_some xs"

lemma first_some_append: "first_some (xs @ ys) = (case first_some xs of Some x \<Rightarrow> Some x | None \<Rightarrow> first_some ys)"
  by (induction xs rule: first_some.induct) simp_all

lemma first_some_pair: "first_some [a, b] = (case a of Some x \<Rightarrow> Some x | None \<Rightarrow> b)"
  by (cases a; cases b) simp_all

lemma first_some_single [simp]: "first_some [p] = p"
  by (cases p) simp_all

text \<open>A type of policy: where it is in a spec, and where its effect is.\<close>

locale policy_type =
  fixes sel :: "PolicySpec \<Rightarrow> 'a option" and get :: "effectivePolicies \<Rightarrow> 'a option"
  assumes applied: "single_type s \<Longrightarrow> get (apply_policy s eff) = (case sel s of Some p \<Rightarrow> Some p | None \<Rightarrow> get eff)"
    and none: "get no_policies = None"
begin

lemma fold_policies:
  assumes "\<forall>a \<in> set ps. \<forall>s. attached_spec lk a = Some s \<longrightarrow> single_type s"
  shows "get (fold (\<lambda>a eff. case attached_spec lk a of None \<Rightarrow> eff | Some s \<Rightarrow> apply_policy s eff) ps eff) = fold (pick lk sel) ps (get eff)"
  using assms
proof (induction ps arbitrary: eff)
  case (Cons a ps)
  then show ?case by (cases "attached_spec lk a") (simp_all add: pick_def applied)
qed simp

lemma level_policy_start: "fold (pick lk sel) ps p = first_some [level_policy lk sel ps, p]"
proof (induction ps rule: rev_induct)
  case Nil
  then show ?case by (simp add: level_policy_def first_some_pair)
next
  case (snoc a ps)
  have "level_policy lk sel (ps @ [a]) = pick lk sel a (level_policy lk sel ps)" by (simp add: level_policy_def)
  with snoc show ?case by (cases "Option.bind (attached_spec lk a) sel") (simp_all add: pick_def first_some_pair)
qed

lemma fold_levels: "fold (pick lk sel) (concat levels) p = first_some (map (level_policy lk sel) (rev levels) @ [p])"
proof (induction levels arbitrary: p)
  case Nil
  then show ?case by (cases p) simp_all
next
  case (Cons ps levels)
  have "fold (pick lk sel) (concat (ps # levels)) p = fold (pick lk sel) (concat levels) (fold (pick lk sel) ps p)" by simp
  also have "\<dots> = first_some (map (level_policy lk sel) (rev levels) @ [fold (pick lk sel) ps p])" by (rule Cons)
  also have "\<dots> = first_some (map (level_policy lk sel) (rev (ps # levels)) @ [p])"
    unfolding level_policy_start by (simp add: first_some_append first_some_pair split: option.split)
  finally show ?case .
qed

lemma nearest:
  assumes "\<forall>a \<in> set (concat levels). \<forall>s. attached_spec lk a = Some s \<longrightarrow> single_type s"
  shows "get (normalizePolicies lk levels) = first_some (map (level_policy lk sel) (rev levels))"
  unfolding normalizePolicies_def fold_policies [OF assms] none fold_levels by (simp add: first_some_append split: option.split)

end

lemmas policy_type_defs = apply_policy_def single_type_def policy_types_def no_policies_def

interpretation header_policy: policy_type pol_headerModifier eff_headerModifier
  by unfold_locales (auto simp: policy_type_defs split: option.split)

interpretation cors_type: policy_type pol_cors eff_cors
  by unfold_locales (auto simp: policy_type_defs split: option.split if_splits)

interpretation rate_type: policy_type pol_rateLimit eff_rateLimit
  by unfold_locales (auto simp: policy_type_defs split: option.split if_splits)

interpretation jwt_type: policy_type pol_jwt eff_jwt
  by unfold_locales (auto simp: policy_type_defs split: option.split if_splits)

interpretation ext_type: policy_type pol_extAuth eff_extAuth
  by unfold_locales (auto simp: policy_type_defs split: option.split if_splits)

interpretation ip_type: policy_type pol_ipAccess eff_ipAccess
  by unfold_locales (auto simp: policy_type_defs split: option.split if_splits)

section \<open>What an address policy admits\<close>

text \<open>The meaning of a principal for an address, given which addresses a prefix covers.\<close>

fun admits :: "(string \<times> int \<Rightarrow> 'ip \<Rightarrow> bool) \<Rightarrow> principal \<Rightarrow> 'ip \<Rightarrow> bool" where
  "admits M AnyPrincipal ip = True"
| "admits M (RemoteIp a n) ip = M (a, n) ip"
| "admits M (OrIds ps) ip = list_ex (\<lambda>p. admits M p ip) ps"
| "admits M (AndIds ps) ip = list_all (\<lambda>p. admits M p ip) ps"
| "admits M (NotId p) ip = (\<not> admits M p ip)"

lemma admits_orPrincipal: "admits M (orPrincipal ps) ip \<longleftrightarrow> (\<exists>p \<in> set ps. admits M p ip)"
  by (auto simp: orPrincipal_def list_ex_iff split: list.split)

lemma set_dedup_by: "inj_on key (set xs) \<Longrightarrow> set (dedup_by key seen xs) = {x \<in> set xs. key x \<notin> seen}"
proof (induction xs arbitrary: seen)
  case (Cons x xs)
  then have "inj_on key (set xs)" by (simp add: inj_on_def)
  with Cons show ?case by (auto simp: inj_on_def)
qed simp

lemma split_at_slash:
  assumes "CHR ''/'' \<notin> set p" "CHR ''/'' \<notin> set q" and "a @ CHR ''/'' # p = b @ CHR ''/'' # q"
  shows "a = b \<and> p = q"
  using assms
proof (induction a arbitrary: b)
  case Nil
  then show ?case by (cases b) auto
next
  case (Cons x a)
  then show ?case by (cases b) auto
qed

lemma prefix_text_inj: "inj prefix_text"
proof (rule injI)
  fix x y assume "prefix_text x = prefix_text y"
  then have "fst x @ CHR ''/'' # string_of_int (snd x) = fst y @ CHR ''/'' # string_of_int (snd y)" by (simp add: prefix_text_def)
  from split_at_slash [OF _ _ this] show "x = y"
    by (auto simp: string_of_int_no is_digit_def string_of_int_eq prod_eq_iff)
qed

lemma those_map_set: "those (map f xs) = Some ys \<Longrightarrow> set ys = {y. \<exists>x \<in> set xs. f x = Some y} \<and> length ys = length xs"
proof (induction xs arbitrary: ys)
  case (Cons x xs)
  then show ?case by (cases "f x"; cases "those (map f xs)") auto
qed simp

lemma cidr_admits:
  assumes "cidrPrincipals B raw = Some ps" and "\<forall>c \<in> set raw. \<forall>a n. nl_parsePrefix (bl_net B) c = Some (a, n) \<longrightarrow> 0 \<le> n \<and> n \<le> 128"
  shows "(\<exists>p \<in> set ps. admits M p ip) \<longleftrightarrow> (\<exists>c \<in> set raw. \<exists>x. nl_parsePrefix (bl_net B) c = Some x \<and> M x ip)" and "ps = [] \<longleftrightarrow> raw = []"
proof -
  obtain qs where qs: "those (map (nl_parsePrefix (bl_net B)) raw) = Some qs"
    and ps: "ps = map (\<lambda>(a, n). RemoteIp a (uint32 n)) (sort_key prefix_text (dedup_by prefix_text {} qs))"
    using assms(1) by (auto simp: cidrPrincipals_def)
  note set_qs = those_map_set [OF qs]
  have "inj_on prefix_text (set qs)" using prefix_text_inj by (rule inj_on_subset) simp
  then have set_ps: "set ps = (\<lambda>(a, n). RemoteIp a (uint32 n)) ` set qs" by (simp add: ps set_dedup_by)
  have small: "uint32 n = n" if "(a, n) \<in> set qs" for a n using that set_qs assms(2) by (fastforce simp: uint32_def)
  have "(\<exists>p \<in> set ps. admits M p ip) \<longleftrightarrow> (\<exists>x \<in> set qs. M x ip)"
    unfolding set_ps bex_simps by (rule bex_cong) (auto simp: small)
  with set_qs show "(\<exists>p \<in> set ps. admits M p ip) \<longleftrightarrow> (\<exists>c \<in> set raw. \<exists>x. nl_parsePrefix (bl_net B) c = Some x \<and> M x ip)" by auto
  have "qs = [] \<longleftrightarrow> raw = []" using set_qs by (metis length_0_conv)
  moreover have "ps = [] \<longleftrightarrow> qs = []" using set_ps by (metis empty_set image_is_empty set_empty)
  ultimately show "ps = [] \<longleftrightarrow> raw = []" by simp
qed

definition covered :: "build_lib \<Rightarrow> (string \<times> int \<Rightarrow> 'ip \<Rightarrow> bool) \<Rightarrow> string list \<Rightarrow> 'ip \<Rightarrow> bool" where
  "covered B M cidrs ip \<longleftrightarrow> (\<exists>c \<in> set cidrs. \<exists>x. nl_parsePrefix (bl_net B) c = Some x \<and> M x ip)"

lemma buildIPAccess_admits:
  assumes "\<forall>c a n. nl_parsePrefix (bl_net B) c = Some (a, n) \<longrightarrow> 0 \<le> n \<and> n \<le> 128" and "buildIPAccess B p = Some q"
  shows "admits M q ip \<longleftrightarrow> (ipa_allow p = [] \<or> covered B M (ipa_allow p) ip) \<and> \<not> covered B M (ipa_deny p) ip"
proof -
  obtain as ds where c: "cidrPrincipals B (ipa_allow p) = Some as" "cidrPrincipals B (ipa_deny p) = Some ds"
    and q: "q = (let f = (if as = [] then AnyPrincipal else orPrincipal as) in if ds = [] then f else AndIds [f, NotId (orPrincipal ds)])"
    using assms(2) by (auto simp: buildIPAccess_def Let_def split: bind_splits)
  have "\<forall>c \<in> set raw. \<forall>a n. nl_parsePrefix (bl_net B) c = Some (a, n) \<longrightarrow> 0 \<le> n \<and> n \<le> 128" for raw using assms(1) by blast
  note as = cidr_admits(1) [OF c(1) this, of M ip] cidr_admits(2) [OF c(1) this] and ds = cidr_admits(1) [OF c(2) this, of M ip] cidr_admits(2) [OF c(2) this]
  then show ?thesis by (auto simp: q Let_def admits_orPrincipal covered_def)
qed

end
