(* ===== verification/CompileBuild.thy ===== *)
theory CompileBuild
  imports CompilePolicy "HOL-Library.Product_Lexorder"
begin

text \<open>
  The third stage of the compiler (\<open>internal/compile/build.go\<close>, \<open>build_route.go\<close>, \<open>build_listener.go\<close>,
  \<open>build_l4.go\<close>, \<open>build_upstream.go\<close>): routes, listeners and clusters from the linked configuration.

  A dereferenced \<open>nil\<close> pointer or an index out of range, which stop the process, are \<open>None\<close>.  The maps
  of clusters the policies generate and the collections of a listener are passed along as \<open>build_state\<close>.
\<close>

section \<open>Routes\<close>

definition domainRank :: "string \<Rightarrow> nat" where
  "domainRank d = (if d = ''*'' then 2 else if prefix ''*.'' d then 1 else 0)"

definition routeDomains :: "Route \<Rightarrow> string list" where
  "routeDomains r =
     (if rts_hostnames (po_spec r) = [] then [''*''] else sort_key domainRank (sort (rts_hostnames (po_spec r))))"

definition value_matcher_of :: "KeyValueMatch \<Rightarrow> string \<times> value_matcher" where
  "value_matcher_of kv = (kvm_name kv,
     (case kvm_present kv of Some b \<Rightarrow> PresentMatch b
      | None \<Rightarrow> StringMatch (if kvm_regex kv \<noteq> [] then MatchRegex (kvm_regex kv) else MatchExact (kvm_exact kv))))"

definition buildRouteMatch :: "RuleMatch \<Rightarrow> route_match" where
  "buildRouteMatch m =
     \<lparr>rmt_path = (case rm_path m of None \<Rightarrow> None
        | Some p \<Rightarrow> if pm_exact p \<noteq> [] then Some (Path (pm_exact p)) else if pm_prefix p \<noteq> [] then Some (Prefix (pm_prefix p))
            else if pm_regex p \<noteq> [] then Some (SafeRegex (pm_regex p)) else None),
      rmt_headers = (if rm_methods m = [] then []
        else [('':method'', StringMatch (MatchRegex (''^(?:'' @ join_with ''|'' (rm_methods m) @ '')$'')))]) @ map value_matcher_of (rm_headers m),
      rmt_query = map value_matcher_of (rm_queryParams m)\<rparr>"

definition route_clusters :: "Rule \<Rightarrow> cluster_specifier" where
  "route_clusters rule =
     (case rule_backends rule of
        [b] \<Rightarrow> (case bk_weight b of
            None \<Rightarrow> SingleCluster (clusterResourceName (bk_upstream b))
          | Some w \<Rightarrow> WeightedClusters [(clusterResourceName (bk_upstream b), uint32 w)])
      | bs \<Rightarrow> WeightedClusters (map (\<lambda>b. (clusterResourceName (bk_upstream b),
                uint32 (case bk_weight b of None \<Rightarrow> 1 | Some w \<Rightarrow> w))) bs))"

definition regex_rewrite :: "Rewrite \<Rightarrow> (string \<times> string) option" where
  "regex_rewrite rw =
     (if rw_pathPrefix rw \<noteq> [] then None
      else if rw_path rw \<noteq> [] then Some (''^/.*$'', rw_path rw)
      else map_option (\<lambda>x. (rxs_pattern x, rxs_substitution x)) (rw_regex rw))"

text \<open>The hash keys of the upstreams that balance by hashing, each once.\<close>

definition hash_headers :: "linked \<Rightarrow> Rule \<Rightarrow> string list" where
  "hash_headers lk rule = dedup_by id {} (concat (map (\<lambda>b.
     (case lk_upstreams lk (bk_upstream b) of None \<Rightarrow> []
      | Some u \<Rightarrow> (case ups_loadBalancer (po_spec u) of None \<Rightarrow> []
          | Some x \<Rightarrow> if lb_policy x \<in> {''ringHash'', ''maglev''} then lb_hashOn x else []))) (rule_backends rule)))"

definition buildRetry :: "Retry \<Rightarrow> retry_policy" where
  "buildRetry t = \<lparr>rp_numRetries = uint32 (rty_attempts t), rp_retryOn = join_with '','' (rty_on t), rp_perTryTimeout = rty_perTryTimeout t\<rparr>"

definition buildRouteAction :: "linked \<Rightarrow> Rule \<Rightarrow> route_action option" where
  "buildRouteAction lk rule = do {
     timeout \<leftarrow> rule_timeout rule;
     Some \<lparr>ra_cluster = route_clusters rule,
       ra_prefixRewrite = (case rule_rewrite rule of None \<Rightarrow> [] | Some w \<Rightarrow> rw_pathPrefix w),
       ra_regexRewrite = Option.bind (rule_rewrite rule) regex_rewrite,
       ra_hostRewrite = (case rule_rewrite rule of None \<Rightarrow> None | Some w \<Rightarrow> if rw_host w \<noteq> [] then Some (rw_host w) else None),
       ra_timeout = timeout, ra_retry = map_option buildRetry (rule_retry rule), ra_hashPolicy = hash_headers lk rule\<rparr> }"

definition buildRedirectAction :: "Redirect \<Rightarrow> string + route_target" where
  "buildRedirectAction rd =
     (let c = rdr_code rd; to = RedirectTo (if rdr_scheme rd \<noteq> [] then Some (rdr_scheme rd) else None) in
      if c = 0 \<or> c = 301 then Inr (to MOVED_PERMANENTLY) else if c = 302 then Inr (to FOUND) else if c = 303 then Inr (to SEE_OTHER)
      else if c = 307 then Inr (to TEMPORARY_REDIRECT) else if c = 308 then Inr (to PERMANENT_REDIRECT)
      else Inl (''unsupported redirect code '' @ string_of_int c @ '' (want 301 | 302 | 303 | 307 | 308)''))"

definition buildDirectResponseAction :: "DirectResponse \<Rightarrow> route_target" where
  "buildDirectResponseAction d = RespondWith (uint32 (drs_status d)) (if drs_body d \<noteq> [] then Some (drs_body d) else None)"

definition rule_target :: "linked \<Rightarrow> Route \<Rightarrow> nat \<Rightarrow> Rule \<Rightarrow> (route_target option \<times> compile_error list) option" where
  "rule_target lk r idx rule =
     (if rule_backends rule \<noteq> [] then map_option (\<lambda>a. (Some (RouteTo a), [])) (buildRouteAction lk rule)
      else case rule_redirect rule of
          Some rd \<Rightarrow> Some (case buildRedirectAction rd of
              Inl e \<Rightarrow> (None, [buildError (po_origin r) ''Route'' (po_name r) (index_text ''spec.rules'' idx @ ''.redirect.code'') e])
            | Inr t \<Rightarrow> (Some t, []))
        | None \<Rightarrow> Some (map_option buildDirectResponseAction (rule_directResponse rule), []))"

definition rule_levels :: "Gateway \<Rightarrow> Listener \<Rightarrow> Route \<Rightarrow> Rule \<Rightarrow> PolicyAttachment list list" where
  "rule_levels g l r rule = [gws_policies (po_spec g), lsn_policies (po_spec l), rts_policies (po_spec r), rule_policies rule]"

definition buildRule ::
    "build_lib \<Rightarrow> ConfigSet \<Rightarrow> linked \<Rightarrow> Listener \<Rightarrow> Route \<Rightarrow> nat \<Rightarrow> Rule \<Rightarrow> build_state \<Rightarrow> (envoy_route \<times> compile_error list \<times> build_state) option" where
  "buildRule B cs lk l r idx rule s = do {
     (target, errs0) \<leftarrow> rule_target lk r idx rule;
     g \<leftarrow> cfg_gateway cs;
     let eff = normalizePolicies lk (rule_levels g l r rule);
     let path = index_text ''spec.rules'' idx @ ''.policies'';
     let (err1, s1) = registerExtAuth B (eff_extAuth eff) s;
     (tpc, errs3, s3) \<leftarrow> typedPerFilterConfig B eff r idx s1;
     let route = applyHeaderModifier (eff_headerModifier eff)
       \<lparr>ert_match = buildRouteMatch (rule_match rule), ert_target = target, ert_requestAdd = [], ert_requestRemove = [],
        ert_responseAdd = [], ert_responseRemove = [], ert_perFilter = Map.empty\<rparr>;
     Some (route\<lparr>ert_perFilter := tpc\<rparr>,
       errs0 @ (case err1 of None \<Rightarrow> [] | Some e \<Rightarrow> [buildError (po_origin r) ''Route'' (po_name r) path e]) @
       map (\<lambda>typ. buildError (po_origin r) ''Route'' (po_name r) path (''policy type '' @ typ @ '' is not implemented in M0 (P1)'')) (eff_unsupported eff) @
       errs3, s3) }"

text \<open>A loop that builds one thing after another and collects the errors.\<close>

fun build_each ::
    "(nat \<Rightarrow> 'a \<Rightarrow> 's \<Rightarrow> ('b \<times> compile_error list \<times> 's) option) \<Rightarrow> nat \<Rightarrow> 'a list \<Rightarrow> 's \<Rightarrow> ('b list \<times> compile_error list \<times> 's) option" where
  "build_each f i [] s = Some ([], [], s)"
| "build_each f i (x # xs) s = do {
     (y, es, s1) \<leftarrow> f i x s;
     (ys, es', s2) \<leftarrow> build_each f (Suc i) xs s1;
     Some (y # ys, es @ es', s2) }"

definition buildVirtualHost ::
    "build_lib \<Rightarrow> ConfigSet \<Rightarrow> linked \<Rightarrow> Listener \<Rightarrow> Route \<Rightarrow> build_state \<Rightarrow> (virtual_host \<times> compile_error list \<times> build_state) option" where
  "buildVirtualHost B cs lk l r s = do {
     (routes, errs, s') \<leftarrow> build_each (buildRule B cs lk l r) 0 (rts_rules (po_spec r)) s;
     Some (\<lparr>vhx_name = virtualHostName (po_name r), vhx_domains = routeDomains r, vhx_routes = routes\<rparr>, errs, s') }"

section \<open>HTTP listeners\<close>

definition attachesTo :: "Route \<Rightarrow> string \<Rightarrow> bool" where
  "attachesTo r n = list_ex (\<lambda>m. m = n) (rts_listeners (po_spec r))"

definition sortedRoutes :: "Route list \<Rightarrow> Route list" where "sortedRoutes rs = sort_key po_name rs"
definition sortedUpstreams :: "Upstream list \<Rightarrow> Upstream list" where "sortedUpstreams us = sort_key po_name us"

definition buildAccessLog :: "AccessLog \<Rightarrow> access_log" where
  "buildAccessLog al = \<lparr>acl_path = (if al_path al = [] then ''/dev/stdout'' else al_path al), acl_json = (al_format al = ''json'')\<rparr>"

definition buildHCM :: "ConfigSet \<Rightarrow> Listener \<Rightarrow> build_state \<Rightarrow> hcm option" where
  "buildHCM cs l s = do {
     g \<leftarrow> cfg_gateway cs;
     http \<leftarrow> gws_http (po_spec g);
     idle \<leftarrow> htd_idleTimeout http;
     kb \<leftarrow> htd_maxRequestHeadersKb http;
     header \<leftarrow> htd_serverHeader http;
     Some \<lparr>hcm_statPrefix = listenerResourceName (po_name l), hcm_routes = Rds (routeConfigName (po_name l)), hcm_httpFilters = httpFilters s,
       hcm_idleTimeout = idle, hcm_maxRequestHeadersKb = uint32 kb, hcm_useRemoteAddress = True, hcm_stripAnyHostPort = True,
       hcm_passThrough = (header = []), hcm_serverName = header,
       hcm_http2 = (case lsn_http (po_spec l) of None \<Rightarrow> False | Some h \<Rightarrow> lhttp_http2 h = Some True),
       hcm_accessLog = (case gws_accessLog (po_spec g) of None \<Rightarrow> [] | Some al \<Rightarrow> if al_enabled al then [buildAccessLog al] else [])\<rparr> }"

definition tlsProtocolVersion :: "string \<Rightarrow> tls_protocol" where
  "tlsProtocolVersion v = (if v = ''1.3'' then TLSv1_3 else TLSv1_2)"

definition downstreamTLSSocket :: "ListenerTLS \<Rightarrow> Certificate \<Rightarrow> downstream_tls" where
  "downstreamTLSSocket t c =
     \<lparr>dtc_minVersion = tlsProtocolVersion (ltls_minVersion t), dtc_alpn = ltls_alpn t, dtc_certificates = [(crt_certFile c, crt_keyFile c)],
      dtc_sdsCertificates = [], dtc_validation = (if ltls_clientCA t \<noteq> [] then ValidationContext (Some (ltls_clientCA t)) else NoValidation),
      dtc_requireClientCertificate = (ltls_clientCA t \<noteq> [])\<rparr>"

text \<open>The server names of a certificate, claimed in turn; a name another certificate has is an error, and
  the chain is built all the same.\<close>

fun claim_names :: "Listener \<Rightarrow> nat \<Rightarrow> string list \<Rightarrow> (string \<rightharpoonup> nat) \<Rightarrow> (string \<rightharpoonup> nat) \<times> compile_error list" where
  "claim_names l i [] claimed = (claimed, [])"
| "claim_names l i (n # ns) claimed =
     (case claimed n of
        Some prev \<Rightarrow>
          (let (claimed', es) = claim_names l i ns claimed in
           (claimed', buildError (po_origin l) ''Listener'' (po_name l) (index_text ''spec.tls.certificates'' i @ ''.certFile'')
              (''server name '' @ go_quote n @ '' overlaps with '' @ index_text ''certificates'' prev @
               '' (SNI ambiguity; explicit sniHosts disambiguation is P1)'') # es))
      | None \<Rightarrow> claim_names l i ns (claimed(n \<mapsto> i)))"

fun https_chains ::
    "build_lib \<Rightarrow> Listener \<Rightarrow> ListenerTLS \<Rightarrow> hcm \<Rightarrow> nat \<Rightarrow> Certificate list \<Rightarrow> (string \<rightharpoonup> nat) \<Rightarrow> filter_chain list \<times> compile_error list" where
  "https_chains B l t h i [] claimed = ([], [])"
| "https_chains B l t h i (c # cs) claimed =
     (let base = index_text ''spec.tls.certificates'' i @ ''.certFile'' in
      case bl_serverNames B (crt_certFile c) of
        Inl e \<Rightarrow>
          (let (chs, es) = https_chains B l t h (Suc i) cs claimed in
           (chs, buildError (po_origin l) ''Listener'' (po_name l) base (''extract server names from certificate: '' @ e) # es))
      | Inr [] \<Rightarrow>
          (let (chs, es) = https_chains B l t h (Suc i) cs claimed in
           (chs, buildError (po_origin l) ''Listener'' (po_name l) base
              (''certificate '' @ go_quote (crt_certFile c) @ '' has neither SAN nor CN; cannot derive SNI server names'') # es))
      | Inr names \<Rightarrow>
          (let (claimed', es) = claim_names l i names claimed; (chs, es') = https_chains B l t h (Suc i) cs claimed' in
           (\<lparr>fch_serverNames = names, fch_transportProtocol = [], fch_tls = Some (downstreamTLSSocket t c), fch_filters = [HcmFilter h]\<rparr> # chs,
            es @ es')))"

definition buildHTTPSFilterChains :: "build_lib \<Rightarrow> Listener \<Rightarrow> hcm \<Rightarrow> (filter_chain list \<times> compile_error list) option" where
  "buildHTTPSFilterChains B l h = map_option (\<lambda>t. https_chains B l t h 0 (ltls_certificates t) Map.empty) (lsn_tls (po_spec l))"

definition httpRoutesFor :: "ConfigSet \<Rightarrow> string \<Rightarrow> Route list" where
  "httpRoutesFor cs n = filter (\<lambda>r. has_rules r \<and> attachesTo r n) (sortedRoutes (cfg_routes cs))"

definition new_assembly :: "build_state \<Rightarrow> build_state" where
  "new_assembly s = s\<lparr>bs_providers := Map.empty, bs_requirements := Map.empty, bs_ext := None\<rparr>"

definition buildHTTPListener ::
    "build_lib \<Rightarrow> ConfigSet \<Rightarrow> linked \<Rightarrow> Listener \<Rightarrow> build_state \<Rightarrow> ((listener \<times> route_config option) option \<times> compile_error list \<times> build_state) option" where
  "buildHTTPListener B cs lk l s = do {
     (vhosts, errs1, s1) \<leftarrow> build_each (\<lambda>_. buildVirtualHost B cs lk l) 0 (httpRoutesFor cs (po_name l)) (new_assembly s);
     let rc = finalizeExtAuthRoutes (bs_ext s1 \<noteq> None) \<lparr>rcf_name = routeConfigName (po_name l), rcf_virtualHosts = vhosts\<rparr>;
     h \<leftarrow> buildHCM cs l s1;
     (chs, errs2) \<leftarrow> (if lsn_protocol (po_spec l) = ''HTTPS'' then buildHTTPSFilterChains B l h
        else Some ([\<lparr>fch_serverNames = [], fch_transportProtocol = [], fch_tls = None, fch_filters = [HcmFilter h]\<rparr>], []));
     Some (if chs = [] then None
       else Some (\<lparr>lis_name = listenerResourceName (po_name l), lis_address = lsn_address (po_spec l), lis_port = uint32 (lsn_port (po_spec l)),
         lis_udp = False, lis_filterChains = chs,
         lis_listenerFilters = (if lsn_protocol (po_spec l) = ''HTTPS'' then [TlsInspector] else [])\<rparr>, Some rc),
       errs1 @ errs2, s1) }"

section \<open>Forwarding listeners\<close>

definition forwardRoutesFor :: "ConfigSet \<Rightarrow> string \<Rightarrow> Route list" where
  "forwardRoutesFor cs n = filter (\<lambda>r. has_forward r \<and> \<not> has_rules r \<and> attachesTo r n) (sortedRoutes (cfg_routes cs))"

definition forward_cluster :: "Route \<Rightarrow> string option" where
  "forward_cluster r = map_option (\<lambda>f. clusterResourceName (fwd_upstream f)) (rts_forward (po_spec r))"

definition l4_listener :: "Listener \<Rightarrow> bool \<Rightarrow> filter_chain list \<Rightarrow> listener_filter list \<Rightarrow> listener" where
  "l4_listener l udp chs fs = \<lparr>lis_name = listenerResourceName (po_name l), lis_address = lsn_address (po_spec l),
     lis_port = uint32 (lsn_port (po_spec l)), lis_udp = udp, lis_filterChains = chs, lis_listenerFilters = fs\<rparr>"

definition tcp_chain :: "Listener \<Rightarrow> string list \<Rightarrow> string \<Rightarrow> string \<Rightarrow> filter_chain" where
  "tcp_chain l names proto cluster = \<lparr>fch_serverNames = names, fch_transportProtocol = proto, fch_tls = None,
     fch_filters = [TcpProxy (listenerResourceName (po_name l)) cluster]\<rparr>"

definition passthrough_hosts :: "Route \<Rightarrow> string list" where
  "passthrough_hosts r = sort (map sni_norm (sni_hosts r))"

definition buildTLSPassthroughListener :: "Listener \<Rightarrow> Route list \<Rightarrow> listener option" where
  "buildTLSPassthroughListener l routes = do {
     chs \<leftarrow> those (map (\<lambda>r. map_option (tcp_chain l (passthrough_hosts r) ''tls'') (forward_cluster r))
       (sort_key (\<lambda>r. (join_with [CHR 0x00] (passthrough_hosts r), po_name r)) routes));
     Some (l4_listener l False chs [TlsInspector]) }"

definition buildL4Listener :: "ConfigSet \<Rightarrow> Listener \<Rightarrow> (listener option \<times> compile_error list) option" where
  "buildL4Listener cs l =
     (let p = lsn_protocol (po_spec l); routes = forwardRoutesFor cs (po_name l);
          first = (case routes of [] \<Rightarrow> None | r # _ \<Rightarrow> forward_cluster r) in
      if p = ''TCP'' then map_option (\<lambda>c. (Some (l4_listener l False [tcp_chain l [] [] c] []), [])) first
      else if p = ''TLS'' then map_option (\<lambda>x. (Some x, [])) (buildTLSPassthroughListener l routes)
      else if p = ''UDP'' then map_option (\<lambda>c. (Some (l4_listener l True [] [UdpProxy (listenerResourceName (po_name l)) c]), [])) first
      else Some (None, [buildError (po_origin l) ''Listener'' (po_name l) ''spec.protocol'' (''unsupported L4 protocol '' @ p)]))"

section \<open>Upstreams\<close>

definition buildCLA :: "Upstream \<Rightarrow> load_assignment" where
  "buildCLA u = \<lparr>cla_clusterName = clusterResourceName (po_name u),
     cla_endpoints = (case ups_dns (po_spec u) of
        Some d \<Rightarrow> [(dns_hostname d, uint32 (dns_port d), None)]
      | None \<Rightarrow> map (\<lambda>e. (epn_address e, uint32 (epn_port e), map_option uint32 (epn_weight e))) (ups_endpoints (po_spec u)))\<rparr>"

definition buildHealthCheck :: "HealthCheck \<Rightarrow> health_check" where
  "buildHealthCheck h = \<lparr>hc_timeout = hck_timeout h, hc_interval = hck_interval h, hc_healthy = map_option uint32 (hck_healthyThreshold h),
     hc_unhealthy = map_option uint32 (hck_unhealthyThreshold h),
     hc_checker = (case hck_http h of
        Some q \<Rightarrow> Some (HttpCheck (hhc_path q) (map (\<lambda>s. (s, s + 1)) (hhc_expectedStatuses q)))
      | None \<Rightarrow> if hck_tcp h then Some TcpCheck else None)\<rparr>"

definition lb_of :: "string \<Rightarrow> lb_kind" where
  "lb_of p = (if p = ''leastRequest'' then LEAST_REQUEST else if p = ''random'' then RANDOM else if p = ''ringHash'' then RING_HASH
     else if p = ''maglev'' then MAGLEV else ROUND_ROBIN)"

definition upstream_discovery :: "UpstreamSpec \<Rightarrow> discovery_type option" where
  "upstream_discovery s =
     (if ups_endpoints s \<noteq> [] then Some STATIC
      else case ups_dns s of None \<Rightarrow> None
        | Some d \<Rightarrow> Some (if dns_resolution d = ''strict'' then STRICT_DNS else LOGICAL_DNS))"

definition buildUpstream :: "Upstream \<Rightarrow> (cluster option \<times> compile_error list) option" where
  "buildUpstream u = do {
     let s = po_spec u;
     conn \<leftarrow> ups_connection s;
     timeout \<leftarrow> conn_connectTimeout conn;
     (case upstream_discovery s of
        None \<Rightarrow> Some (None, [buildError (po_origin u) ''Upstream'' (po_name u) ''spec.kubernetesService''
                  ''kubernetesService endpoint source is not implemented in M0 (P2)''])
      | Some typ \<Rightarrow> do {
          b \<leftarrow> ups_loadBalancer s;
          Some (Some \<lparr>clu_name = clusterResourceName (po_name u), clu_type = typ, clu_connectTimeout = timeout,
            clu_loadAssignment = Some (buildCLA u), clu_lb = lb_of (lb_policy b),
            clu_healthChecks = (case ups_healthCheck s of None \<Rightarrow> [] | Some h \<Rightarrow> [buildHealthCheck h]),
            clu_tls = (case ups_tls s of None \<Rightarrow> None | Some t \<Rightarrow> if utls_enabled t then Some (upstreamTLSSocket t (ups_dns s)) else None),
            clu_http2 = conn_http2 conn,
            clu_breakers = (if conn_maxConnections conn \<noteq> None \<or> conn_maxPendingRequests conn \<noteq> None
              then Some (map_option uint32 (conn_maxConnections conn), map_option uint32 (conn_maxPendingRequests conn)) else None), clu_eds = False\<rparr>, []) }) }"

section \<open>The stage\<close>

definition build_listener ::
    "build_lib \<Rightarrow> ConfigSet \<Rightarrow> linked \<Rightarrow> Listener \<Rightarrow> build_state \<Rightarrow> ((listener \<times> route_config option) option \<times> compile_error list \<times> build_state) option" where
  "build_listener B cs lk l s =
     (if isHTTPProtocol (lsn_protocol (po_spec l)) then buildHTTPListener B cs lk l s
      else map_option (\<lambda>(x, es). (map_option (\<lambda>y. (y, None)) x, es, s)) (buildL4Listener cs l))"

definition start_state :: build_state where
  "start_state = \<lparr>bs_jwks = [], bs_extAuth = [], bs_providers = Map.empty, bs_requirements = Map.empty, bs_ext = None\<rparr>"

definition build :: "build_lib \<Rightarrow> ConfigSet \<Rightarrow> linked \<Rightarrow> (buildResult \<times> compile_error list) option" where
  "build B cs lk = do {
     (ls, errs1, s) \<leftarrow> build_each (\<lambda>_. build_listener B cs lk) 0 (sortedListeners (cfg_listeners cs)) start_state;
     us \<leftarrow> those (map buildUpstream (sortedUpstreams (cfg_upstreams cs)));
     Some (\<lparr>br_listeners = map fst (List.map_filter id ls), br_routes = List.map_filter snd (List.map_filter id ls),
       br_clusters = sort_key clu_name (List.map_filter fst us @ map snd (bs_jwks s) @ map snd (bs_extAuth s))\<rparr>,
       errs1 @ concat (map snd us)) }"

end
