(* ===== verification/CompileSynth.thy ===== *)
theory CompileSynth
  imports CompileBuild "HOL-Library.AList"
begin

text \<open>
  The fourth stage of the compiler (\<open>internal/compile/patch.go\<close>): the resources the third stage built,
  the secrets taken out of them, the patches of the objects and the native resources.

  A patch is the JSON text of a message, changed and read back: the JSON form of the messages and the
  two kinds of patch are third-party code, so they are parameters (\<open>codec\<close>, \<open>json_patch\<close>).  A message is
  known here by the fields the compiler sets or reads.  The filter chains of a listener that was
  compiled hold one and the same filter object; a listener that was replaced has objects of its own.
  This is the \<open>bool\<close> beside a listener.  Where the source ranges over a Go map, whose order is
  arbitrary, the model takes the order of insertion.
\<close>

section \<open>Sources and errors\<close>

type_synonym resource_key = "string \<times> string"

record SourceRef =
  sr_file :: string
  sr_kind :: string
  sr_name :: string
  sr_path :: string

definition ResourceListener :: string where "ResourceListener = ''listener''"
definition ResourceCluster :: string where "ResourceCluster = ''cluster''"
definition ResourceRoute :: string where "ResourceRoute = ''route''"
definition ResourceEndpoints :: string where "ResourceEndpoints = ''endpoints''"
definition ResourceSecret :: string where "ResourceSecret = ''secret''"
definition ResourceBootstrap :: string where "ResourceBootstrap = ''bootstrap''"

lemmas resource_kinds = ResourceListener_def ResourceCluster_def ResourceRoute_def ResourceEndpoints_def ResourceSecret_def ResourceBootstrap_def

definition key_text :: "resource_key \<Rightarrow> string" where
  "key_text k = fst k @ ''/'' @ snd k"

definition source_error :: "string \<Rightarrow> SourceRef \<Rightarrow> string \<Rightarrow> compile_error" where
  "source_error stg src m = \<lparr>ce_stage = stg, ce_file = sr_file src, ce_kind = sr_kind src, ce_name = sr_name src,
     ce_path = sr_path src, ce_message = m, ce_severity = SeverityError\<rparr>"

definition patchError :: "origin \<Rightarrow> string \<Rightarrow> string \<Rightarrow> string \<Rightarrow> string \<Rightarrow> compile_error" where
  "patchError org kind name path m = \<lparr>ce_stage = ''patch'', ce_file = or_file org, ce_kind = kind, ce_name = name,
     ce_path = path, ce_message = m, ce_severity = SeverityError\<rparr>"

section \<open>The working set\<close>

record synthesis =
  syn_listeners :: "(bool \<times> listener) list"
  syn_routes :: "route_config list"
  syn_clusters :: "cluster list"
  syn_endpoints :: "load_assignment list"
  syn_secrets :: "secret list"
  syn_compiledListeners :: "string list"
  syn_compiledSecrets :: "string list"
  syn_sourceMap :: "(resource_key \<times> SourceRef) list"

definition set_source :: "resource_key \<Rightarrow> SourceRef \<Rightarrow> synthesis \<Rightarrow> synthesis" where
  "set_source k v s = s\<lparr>syn_sourceMap := AList.update k v (syn_sourceMap s)\<rparr>"

definition initSourceMap :: "ConfigSet \<Rightarrow> synthesis \<Rightarrow> synthesis" where
  "initSourceMap cs s =
     (let s1 = fold (\<lambda>l t. let src = \<lparr>sr_file = or_file (po_origin l), sr_kind = ''Listener'', sr_name = po_name l, sr_path = []\<rparr> in
            set_source (ResourceRoute, routeConfigName (po_name l)) src (set_source (ResourceListener, listenerResourceName (po_name l)) src t))
          (cfg_listeners cs) s;
          s2 = fold (\<lambda>u. set_source (ResourceCluster, clusterResourceName (po_name u))
            \<lparr>sr_file = or_file (po_origin u), sr_kind = ''Upstream'', sr_name = po_name u, sr_path = []\<rparr>) (cfg_upstreams cs) s1 in
      set_source (ResourceBootstrap, ''bootstrap'')
        \<lparr>sr_file = (case cfg_gateway cs of None \<Rightarrow> [] | Some g \<Rightarrow> or_file (po_origin g)), sr_kind = ''Gateway'', sr_name = DefaultGatewayName, sr_path = []\<rparr> s2)"

subsection \<open>Secrets\<close>

definition firstTlsCertificate :: "downstream_tls \<Rightarrow> tls_certificate option" where
  "firstTlsCertificate d = (case dtc_certificates d of [] \<Rightarrow> None | c # _ \<Rightarrow> Some c)"

definition add_secret :: "Listener \<Rightarrow> string \<Rightarrow> string \<Rightarrow> secret_type \<Rightarrow> synthesis \<Rightarrow> synthesis" where
  "add_secret pl path n ty s =
     set_source (ResourceSecret, n) \<lparr>sr_file = or_file (po_origin pl), sr_kind = ''Listener'', sr_name = po_name pl, sr_path = path\<rparr>
       (s\<lparr>syn_secrets := syn_secrets s @ [\<lparr>sec_name = n, sec_type = ty\<rparr>], syn_compiledSecrets := List.insert n (syn_compiledSecrets s)\<rparr>)"

fun extract_chains :: "Listener \<Rightarrow> nat \<Rightarrow> bool \<Rightarrow> filter_chain list \<Rightarrow> synthesis \<Rightarrow> synthesis" where
  "extract_chains pl i ca [] s = s"
| "extract_chains pl i ca (c # cs) s =
     (case fch_tls c of
        None \<Rightarrow> extract_chains pl i ca cs s
      | Some d \<Rightarrow>
          let s1 = (case firstTlsCertificate d of None \<Rightarrow> s
                | Some tc \<Rightarrow> add_secret pl (index_text ''spec.tls.certificates'' i) (secretResourceName (po_name pl) i) (TlsCertificate tc) s) in
          (case (ca, dtc_validation d) of
             (False, ValidationContext (Some f)) \<Rightarrow>
               extract_chains pl (Suc i) True cs
                 (add_secret pl ''spec.tls.clientCA'' (clientCASecretResourceName (po_name pl)) (CertificateValidation (Some f)) s1)
           | _ \<Rightarrow> extract_chains pl (Suc i) ca cs s1))"

definition trim_prefix :: "string \<Rightarrow> string \<Rightarrow> string" where
  "trim_prefix p s = (case CutPrefix s p of None \<Rightarrow> s | Some t \<Rightarrow> t)"

definition extract_listener :: "ConfigSet \<Rightarrow> listener \<Rightarrow> synthesis \<Rightarrow> synthesis" where
  "extract_listener cs lis s =
     (case index_by_name (cfg_listeners cs) (trim_prefix ''lis/'' (lis_name lis)) of
        None \<Rightarrow> s
      | Some pl \<Rightarrow> extract_chains pl 0 False (lis_filterChains lis) (s\<lparr>syn_compiledListeners := List.insert (lis_name lis) (syn_compiledListeners s)\<rparr>))"

definition extractCompiledSecrets :: "ConfigSet \<Rightarrow> synthesis \<Rightarrow> synthesis" where
  "extractCompiledSecrets cs s = fold (extract_listener cs) (map snd (syn_listeners s)) s"

section \<open>Patches\<close>

record json_patch =
  jp_merge :: "string \<Rightarrow> string \<Rightarrow> string + string"
  jp_decode :: "string \<Rightarrow> string + string"
  jp_apply :: "string \<Rightarrow> string \<Rightarrow> string + string"

record 'm codec =
  cd_marshal :: "'m \<Rightarrow> string + string"
  cd_unmarshal :: "string \<Rightarrow> string + 'm"
  cd_object :: "(string \<times> jsval) list \<Rightarrow> string + 'm"

definition map_error :: "(string \<Rightarrow> string) \<Rightarrow> string + 'a \<Rightarrow> string + 'a" where
  "map_error f r = (case r of Inl e \<Rightarrow> Inl (f e) | Inr x \<Rightarrow> Inr x)"

definition apply_patch :: "json_patch \<Rightarrow> 'm codec \<Rightarrow> EnvoyPatch \<Rightarrow> 'm \<Rightarrow> string + 'm" where
  "apply_patch J C p m =
     bind_sum (map_error (\<lambda>e. ''marshal target resource: '' @ e) (cd_marshal C m))
    (\<lambda>doc. bind_sum
       (if xp_op p = ''merge'' then map_error (\<lambda>e. ''apply merge: '' @ e) (jp_merge J doc (xp_value p))
        else if xp_op p = ''jsonPatch'' then
          bind_sum (map_error (\<lambda>e. ''decode jsonPatch: '' @ e) (jp_decode J (xp_value p)))
            (\<lambda>ops. map_error (\<lambda>e. ''apply jsonPatch: '' @ e) (jp_apply J ops doc))
        else Inr [])
    (\<lambda>patched. map_error (\<lambda>e. ''round-trip back to proto (unknown field or type mismatch): '' @ e) (cd_unmarshal C patched)))"

record patch_lib =
  pt_json :: json_patch
  pt_listener :: "listener codec"
  pt_secret :: "secret codec"
  pt_virtualHost :: "virtual_host codec"
  pt_route :: "envoy_route codec"
  pt_cluster :: "cluster codec"
  pt_endpoints :: "load_assignment codec"
  pt_routeConfig :: "route_config codec"
  pt_typeError :: "jsval \<Rightarrow> string"

definition parsePatchTarget :: "string \<Rightarrow> string \<times> string" where
  "parsePatchTarget t = (takeWhile (\<lambda>c. c \<noteq> CHR ''/'') t, tl (dropWhile (\<lambda>c. c \<noteq> CHR ''/'') t))"

definition patchTargets :: "string \<Rightarrow> string list" where
  "patchTargets kind = (if kind = ''Listener'' then [''listener'', ''secret''] else if kind = ''Route'' then [''virtualHost'', ''route'']
     else if kind = ''Upstream'' then [''cluster'', ''endpoints''] else [])"

definition allowedTargets :: "string \<Rightarrow> string" where
  "allowedTargets kind = (if patchTargets kind = [] then ''(none)'' else join_with '' | '' (patchTargets kind))"

text \<open>Every located target is patched, and one that fails is left as it is.\<close>

definition keep_or :: "'m \<Rightarrow> string + 'm \<Rightarrow> 'm" where
  "keep_or m r = (case r of Inl _ \<Rightarrow> m | Inr x \<Rightarrow> x)"

definition fault_of :: "string + 'm \<Rightarrow> string list" where
  "fault_of r = (case r of Inl e \<Rightarrow> [e] | Inr _ \<Rightarrow> [])"

definition patch_where :: "('m \<Rightarrow> bool) \<Rightarrow> ('m \<Rightarrow> string + 'm) \<Rightarrow> 'm list \<Rightarrow> 'm list \<times> string list" where
  "patch_where P f ms = (map (\<lambda>m. if P m then keep_or m (f m) else m) ms, concat (map (\<lambda>m. if P m then fault_of (f m) else []) ms))"

fun patch_first :: "('m \<Rightarrow> bool) \<Rightarrow> ('m \<Rightarrow> string + 'm) \<Rightarrow> 'm list \<Rightarrow> 'm list \<times> string list" where
  "patch_first P f [] = ([], [])"
| "patch_first P f (m # ms) =
     (if P m then (keep_or m (f m) # ms, fault_of (f m)) else (let (ms', es) = patch_first P f ms in (m # ms', es)))"

definition locateListenerTargets :: "patch_lib \<Rightarrow> string \<Rightarrow> string \<times> string \<Rightarrow> EnvoyPatch \<Rightarrow> synthesis \<Rightarrow> string + (synthesis \<times> string list)" where
  "locateListenerTargets L name t p s =
     (if fst t = ''listener'' then
        let rn = listenerResourceName name in
        if \<not> list_ex (\<lambda>(b, lis). lis_name lis = rn) (syn_listeners s) then Inl (''listener produced no resource '' @ go_quote rn)
        else let (ls, es) = patch_first (\<lambda>(b, lis). lis_name lis = rn)
                   (\<lambda>(b, lis). bind_sum (apply_patch (pt_json L) (pt_listener L) p lis) (\<lambda>lis'. Inr (False, lis'))) (syn_listeners s) in
          Inr (s\<lparr>syn_listeners := ls\<rparr>, es)
      else if fst t = ''secret'' then
        let P = (\<lambda>sec. sec_name sec \<in> set (syn_compiledSecrets s) \<and> prefix (''crt/'' @ name @ ''/'') (sec_name sec)) in
        if \<not> list_ex P (syn_secrets s)
        then Inl (''listener '' @ go_quote name @ '' has no certificates (secret target applies to the listener's certificate Secrets crt/'' @ name @ ''/<n>)'')
        else let (ss, es) = patch_where P (apply_patch (pt_json L) (pt_secret L) p) (syn_secrets s) in Inr (s\<lparr>syn_secrets := ss\<rparr>, es)
      else Inl (''invalid target kind '' @ go_quote (fst t)))"

definition patch_hosts :: "string \<Rightarrow> (virtual_host \<Rightarrow> bool) \<Rightarrow> (virtual_host \<Rightarrow> string + virtual_host) \<Rightarrow> route_config list \<Rightarrow> route_config list \<times> string list" where
  "patch_hosts vh P f rcs =
     (map (\<lambda>rc. rc\<lparr>rcf_virtualHosts := fst (patch_where (\<lambda>v. vhx_name v = vh \<and> P v) f (rcf_virtualHosts rc))\<rparr>) rcs,
      concat (map (\<lambda>rc. snd (patch_where (\<lambda>v. vhx_name v = vh \<and> P v) f (rcf_virtualHosts rc))) rcs))"

definition has_host :: "string \<Rightarrow> (virtual_host \<Rightarrow> bool) \<Rightarrow> route_config list \<Rightarrow> bool" where
  "has_host vh P rcs = list_ex (\<lambda>rc. list_ex (\<lambda>v. vhx_name v = vh \<and> P v) (rcf_virtualHosts rc)) rcs"

fun rule_index :: "string \<Rightarrow> nat \<Rightarrow> Rule list \<Rightarrow> nat option" where
  "rule_index n i [] = None"
| "rule_index n i (r # rs) = (if rule_name r = n then Some i else rule_index n (Suc i) rs)"

definition locateRouteTargets :: "patch_lib \<Rightarrow> Route \<Rightarrow> string \<times> string \<Rightarrow> EnvoyPatch \<Rightarrow> synthesis \<Rightarrow> string + (synthesis \<times> string list)" where
  "locateRouteTargets L r t p s =
     (let vh = virtualHostName (po_name r) in
      if fst t = ''virtualHost'' then
        if \<not> has_host vh (\<lambda>_. True) (syn_routes s) then Inl (''route produced no virtual host '' @ go_quote vh)
        else let (rcs, es) = patch_hosts vh (\<lambda>_. True) (apply_patch (pt_json L) (pt_virtualHost L) p) (syn_routes s) in
          Inr (s\<lparr>syn_routes := rcs\<rparr>, es)
      else if fst t = ''route'' then
        if snd t = [] then Inl (''rule-level patch requires target '' @ go_quote ''route/<ruleName>'' @
             '' (rules need an optional name to be addressable, see protocol '' @ [CHR 0xC2, CHR 0xA7] @ ''3.3 note 4)'')
        else case rule_index (snd t) 0 (rts_rules (po_spec r)) of
            None \<Rightarrow> Inl (''no rule named '' @ go_quote (snd t) @ '' in route '' @ go_quote (po_name r) @
              '' (unnamed rules cannot be addressed by rule-level patch)'')
          | Some i \<Rightarrow>
              let P = (\<lambda>v. i < length (vhx_routes v)) in
              if \<not> has_host vh P (syn_routes s)
              then Inl (''route produced no virtual host '' @ go_quote vh @ '' carrying rule '' @ go_quote (snd t))
              else let (rcs, es) = patch_hosts vh P
                         (\<lambda>v. bind_sum (apply_patch (pt_json L) (pt_route L) p (vhx_routes v ! i)) (\<lambda>x. Inr (v\<lparr>vhx_routes := (vhx_routes v)[i := x]\<rparr>)))
                         (syn_routes s) in
                Inr (s\<lparr>syn_routes := rcs\<rparr>, es)
      else Inl (''invalid target kind '' @ go_quote (fst t)))"

definition locateUpstreamTargets :: "patch_lib \<Rightarrow> string \<Rightarrow> string \<times> string \<Rightarrow> EnvoyPatch \<Rightarrow> synthesis \<Rightarrow> string + (synthesis \<times> string list)" where
  "locateUpstreamTargets L name t p s =
     (let rn = clusterResourceName name in
      case find (\<lambda>c. clu_name c = rn) (syn_clusters s) of
        None \<Rightarrow> Inl (''upstream produced no resource '' @ go_quote rn)
      | Some c \<Rightarrow>
          if fst t = ''cluster'' then
            let (cs, es) = patch_first (\<lambda>c. clu_name c = rn) (apply_patch (pt_json L) (pt_cluster L) p) (syn_clusters s) in
            Inr (s\<lparr>syn_clusters := cs\<rparr>, es)
          else if fst t = ''endpoints'' then
            (case clu_loadAssignment c of
               None \<Rightarrow> Inl (''cluster '' @ go_quote rn @ '' has no inline endpoints to patch'')
             | Some cla \<Rightarrow>
                 let (cs, es) = patch_first (\<lambda>c. clu_name c = rn)
                       (\<lambda>c. bind_sum (apply_patch (pt_json L) (pt_endpoints L) p cla) (\<lambda>x. Inr (c\<lparr>clu_loadAssignment := Some x\<rparr>))) (syn_clusters s) in
                 Inr (s\<lparr>syn_clusters := cs\<rparr>, es))
          else Inl (''upstream produced no resource '' @ go_quote rn))"

text \<open>The patches of one object in turn.\<close>

fun patchObject ::
    "origin \<Rightarrow> string \<Rightarrow> string \<Rightarrow> (string \<times> string \<Rightarrow> EnvoyPatch \<Rightarrow> synthesis \<Rightarrow> string + (synthesis \<times> string list)) \<Rightarrow> nat \<Rightarrow> EnvoyPatch list \<Rightarrow>
     synthesis \<Rightarrow> synthesis \<times> compile_error list" where
  "patchObject org kind name loc i [] s = (s, [])"
| "patchObject org kind name loc i (p # ps) s =
     (let base = index_text ''spec.envoyPatch'' i; t = parsePatchTarget (xp_target p);
          (s1, es) = (if fst t \<notin> set (patchTargets kind)
             then (s, [patchError org kind name (base @ ''.target'')
               (''invalid target '' @ go_quote (xp_target p) @ '' for '' @ kind @ '' (allowed: '' @ allowedTargets kind @ '')'')])
             else case loc t p s of
                 Inl e \<Rightarrow> (s, [patchError org kind name (base @ ''.target'') e])
               | Inr (s', fs) \<Rightarrow> (s', map (\<lambda>e. patchError org kind name base (''target '' @ go_quote (xp_target p) @ '': '' @ e)) fs));
          (s2, es') = patchObject org kind name loc (Suc i) ps s1 in
      (s2, es @ es'))"

fun patch_objects :: "('o \<Rightarrow> synthesis \<Rightarrow> synthesis \<times> compile_error list) \<Rightarrow> 'o list \<Rightarrow> synthesis \<Rightarrow> synthesis \<times> compile_error list" where
  "patch_objects f [] s = (s, [])"
| "patch_objects f (x # xs) s = (let (s1, es) = f x s; (s2, es') = patch_objects f xs s1 in (s2, es @ es'))"

definition gateway_patches :: "ConfigSet \<Rightarrow> compile_error list" where
  "gateway_patches cs =
     (case cfg_gateway cs of None \<Rightarrow> []
      | Some g \<Rightarrow> each (\<lambda>i p. [patchError (po_origin g) ''Gateway'' (po_name g) (index_text ''spec.envoyPatch'' i @ ''.target'')
          ''Gateway has no patchable target in v0 (bootstrap patch is not allowed; see decision C2, planned for M1)'']) (gws_envoyPatch (po_spec g)))"

definition applyEnvoyPatches :: "patch_lib \<Rightarrow> ConfigSet \<Rightarrow> synthesis \<Rightarrow> synthesis \<times> compile_error list" where
  "applyEnvoyPatches L cs s =
     (let (s1, es1) = patch_objects (\<lambda>l. patchObject (po_origin l) ''Listener'' (po_name l) (locateListenerTargets L (po_name l)) 0 (lsn_envoyPatch (po_spec l)))
            (cfg_listeners cs) s;
          (s2, es2) = patch_objects (\<lambda>r. patchObject (po_origin r) ''Route'' (po_name r) (locateRouteTargets L r) 0 (rts_envoyPatch (po_spec r)))
            (cfg_routes cs) s1;
          (s3, es3) = patch_objects (\<lambda>u. patchObject (po_origin u) ''Upstream'' (po_name u) (locateUpstreamTargets L (po_name u)) 0 (ups_envoyPatch (po_spec u)))
            (cfg_upstreams cs) s2 in
      (s3, gateway_patches cs @ es1 @ es2 @ es3))"

section \<open>Native resources\<close>

datatype native =
    NativeListener listener
  | NativeCluster cluster
  | NativeRoute route_config
  | NativeEndpoints load_assignment
  | NativeSecret secret

definition resourceKindOf :: "native \<Rightarrow> string" where
  "resourceKindOf m = (case m of NativeListener _ \<Rightarrow> ResourceListener | NativeCluster _ \<Rightarrow> ResourceCluster | NativeRoute _ \<Rightarrow> ResourceRoute
     | NativeEndpoints _ \<Rightarrow> ResourceEndpoints | NativeSecret _ \<Rightarrow> ResourceSecret)"

definition resourceNameOf :: "native \<Rightarrow> string" where
  "resourceNameOf m = (case m of NativeListener x \<Rightarrow> lis_name x | NativeCluster x \<Rightarrow> clu_name x | NativeRoute x \<Rightarrow> rcf_name x
     | NativeEndpoints x \<Rightarrow> cla_clusterName x | NativeSecret x \<Rightarrow> sec_name x)"

definition envoyResourceTypes :: "patch_lib \<Rightarrow> string \<Rightarrow> ((string \<times> jsval) list \<Rightarrow> string + native) option" where
  "envoyResourceTypes L url =
     (if url = ''type.googleapis.com/envoy.config.listener.v3.Listener'' then Some (\<lambda>fs. bind_sum (cd_object (pt_listener L) fs) (Inr \<circ> NativeListener))
      else if url = ''type.googleapis.com/envoy.config.cluster.v3.Cluster'' then Some (\<lambda>fs. bind_sum (cd_object (pt_cluster L) fs) (Inr \<circ> NativeCluster))
      else if url = ''type.googleapis.com/envoy.config.route.v3.RouteConfiguration'' then Some (\<lambda>fs. bind_sum (cd_object (pt_routeConfig L) fs) (Inr \<circ> NativeRoute))
      else if url = ''type.googleapis.com/envoy.config.endpoint.v3.ClusterLoadAssignment'' then Some (\<lambda>fs. bind_sum (cd_object (pt_endpoints L) fs) (Inr \<circ> NativeEndpoints))
      else if url = ''type.googleapis.com/envoy.extensions.transport_sockets.tls.v3.Secret'' then Some (\<lambda>fs. bind_sum (cd_object (pt_secret L) fs) (Inr \<circ> NativeSecret))
      else None)"

text \<open>A resource that is \<open>null\<close> has no fields, and a type that is \<open>null\<close> is empty.\<close>

definition raw_fields :: "jsval \<Rightarrow> (string \<times> jsval) list option" where
  "raw_fields raw = (case raw of JObj fs \<Rightarrow> Some fs | JNull \<Rightarrow> Some [] | _ \<Rightarrow> None)"

definition decodeEnvoyResource :: "patch_lib \<Rightarrow> jsval \<Rightarrow> string + native" where
  "decodeEnvoyResource L raw =
     (case raw_fields raw of
        Some fs \<Rightarrow>
          bind_sum (case map_of fs ''@type'' of
               Some (JStr url) \<Rightarrow> Inr url
             | Some JNull \<Rightarrow> Inr []
             | Some v \<Rightarrow> Inl (''invalid '' @ go_quote ''@type'' @ '': '' @ pt_typeError L v)
             | None \<Rightarrow> Inl (''invalid '' @ go_quote ''@type'' @ '': unexpected end of JSON input''))
            (\<lambda>url. case envoyResourceTypes L url of
               None \<Rightarrow> Inl (''unsupported '' @ go_quote ''@type'' @ '' '' @ go_quote url @
                 '' (supported: Listener | Cluster | RouteConfiguration | ClusterLoadAssignment | Secret)'')
             | Some dec \<Rightarrow> map_error (\<lambda>e. ''decode '' @ url @ '': '' @ e) (dec (filter (\<lambda>(k, v). k \<noteq> ''@type'') fs)))
      | None \<Rightarrow> Inl (''invalid JSON object: '' @ pt_typeError L raw))"

definition hasResource :: "resource_key \<Rightarrow> synthesis \<Rightarrow> bool" where
  "hasResource key s =
     (case key of (kind, n) \<Rightarrow>
        if kind = ResourceListener then n \<in> set (map (lis_name \<circ> snd) (syn_listeners s))
        else if kind = ResourceCluster then n \<in> set (map clu_name (syn_clusters s))
        else if kind = ResourceRoute then n \<in> set (map rcf_name (syn_routes s))
        else if kind = ResourceEndpoints then n \<in> set (map cla_clusterName (syn_endpoints s))
        else if kind = ResourceSecret then n \<in> set (map sec_name (syn_secrets s))
        else False)"

definition appendResource :: "native \<Rightarrow> synthesis \<Rightarrow> synthesis" where
  "appendResource m s = (case m of
     NativeListener x \<Rightarrow> s\<lparr>syn_listeners := syn_listeners s @ [(False, x)]\<rparr>
   | NativeCluster x \<Rightarrow> s\<lparr>syn_clusters := syn_clusters s @ [x]\<rparr>
   | NativeRoute x \<Rightarrow> s\<lparr>syn_routes := syn_routes s @ [x]\<rparr>
   | NativeEndpoints x \<Rightarrow> s\<lparr>syn_endpoints := syn_endpoints s @ [x]\<rparr>
   | NativeSecret x \<Rightarrow> s\<lparr>syn_secrets := syn_secrets s @ [x]\<rparr>)"

fun put_first :: "('m \<Rightarrow> bool) \<Rightarrow> 'm \<Rightarrow> 'm list \<Rightarrow> 'm list" where
  "put_first P x [] = [x]"
| "put_first P x (m # ms) = (if P m then x # ms else m # put_first P x ms)"

text \<open>The first resource of that name is replaced; if there is none the resource is appended.\<close>

definition replaceResource :: "native \<Rightarrow> synthesis \<Rightarrow> synthesis" where
  "replaceResource m s = (case m of
     NativeListener x \<Rightarrow> s\<lparr>syn_listeners := put_first (\<lambda>(b, y). lis_name y = lis_name x) (False, x) (syn_listeners s)\<rparr>
   | NativeCluster x \<Rightarrow> s\<lparr>syn_clusters := put_first (\<lambda>y. clu_name y = clu_name x) x (syn_clusters s)\<rparr>
   | NativeRoute x \<Rightarrow> s\<lparr>syn_routes := put_first (\<lambda>y. rcf_name y = rcf_name x) x (syn_routes s)\<rparr>
   | NativeEndpoints x \<Rightarrow> s\<lparr>syn_endpoints := put_first (\<lambda>y. cla_clusterName y = cla_clusterName x) x (syn_endpoints s)\<rparr>
   | NativeSecret x \<Rightarrow> s\<lparr>syn_secrets := put_first (\<lambda>y. sec_name y = sec_name x) x (syn_secrets s)\<rparr>)"

fun merge_resources :: "patch_lib \<Rightarrow> EnvoyResources \<Rightarrow> nat \<Rightarrow> jsval list \<Rightarrow> synthesis \<Rightarrow> synthesis \<times> compile_error list" where
  "merge_resources L er i [] s = (s, [])"
| "merge_resources L er i (raw # raws) s =
     (let path = index_text ''spec.resources'' i; err = patchError (po_origin er) ''EnvoyResources'' (po_name er) path;
          (s1, es) = (case decodeEnvoyResource L raw of
             Inl e \<Rightarrow> (s, [err e])
           | Inr m \<Rightarrow>
               let key = (resourceKindOf m, resourceNameOf m);
                   src = set_source key \<lparr>sr_file = or_file (po_origin er), sr_kind = ''EnvoyResources'', sr_name = po_name er, sr_path = path\<rparr> in
               if \<not> hasResource key s then (src (appendResource m s), [])
               else if ers_allowOverride (po_spec er) then (src (replaceResource m s), [])
               else (s, [err (''resource '' @ key_text key @ '' conflicts with an existing resource of the same name'' @
                 '' (set allowOverride: true to replace the compiled resource)'')]));
          (s2, es') = merge_resources L er (Suc i) raws s1 in
      (s2, es @ es'))"

definition mergeEnvoyResources :: "patch_lib \<Rightarrow> ConfigSet \<Rightarrow> synthesis \<Rightarrow> synthesis \<times> compile_error list" where
  "mergeEnvoyResources L cs s = patch_objects (\<lambda>er. merge_resources L er 0 (ers_resources (po_spec er))) (cfg_envoyResources cs) s"

section \<open>The stage\<close>

definition start_synthesis :: "buildResult \<Rightarrow> synthesis" where
  "start_synthesis res = \<lparr>syn_listeners = map (\<lambda>l. (True, l)) (br_listeners res), syn_routes = br_routes res, syn_clusters = br_clusters res,
     syn_endpoints = [], syn_secrets = [], syn_compiledListeners = [], syn_compiledSecrets = [], syn_sourceMap = []\<rparr>"

definition synthesize :: "patch_lib \<Rightarrow> ConfigSet \<Rightarrow> buildResult \<Rightarrow> synthesis \<times> compile_error list" where
  "synthesize L cs res =
     (let s0 = extractCompiledSecrets cs (initSourceMap cs (start_synthesis res));
          (s1, es1) = applyEnvoyPatches L cs s0; (s2, es2) = mergeEnvoyResources L cs s1 in
      (s2, es1 @ es2))"

end
