(* ===== verification/CompileIR.thy ===== *)
theory CompileIR
  imports CompileSynth
begin

text \<open>
  The last stages of the compiler: the form of the resources for the two ways of delivery
  (\<open>internal/compile/materialize.go\<close>), the check of the references between them (\<open>validate.go\<close>), and the
  whole pipeline (\<open>compile.go\<close>) with its result (\<open>internal/ir/ir.go\<close>).

  The maps of the result are lists sorted by name.  The generated validators of the messages, which
  the check runs first, and the hash that names a version are parameters.
\<close>

record bootstrap =
  bst_nodeId :: string
  bst_nodeCluster :: string
  bst_adminAddress :: string
  bst_adminPort :: int

record IR =
  ir_listeners :: "(string \<times> listener) list"
  ir_clusters :: "(string \<times> cluster) list"
  ir_routes :: "(string \<times> route_config) list"
  ir_endpoints :: "(string \<times> load_assignment) list"
  ir_secrets :: "(string \<times> secret) list"
  ir_bootstrap :: bootstrap
  ir_version :: string
  ir_sourceMap :: "(resource_key \<times> SourceRef) list"

definition ModeXDS :: string where "ModeXDS = ''xds''"
definition ModeStatic :: string where "ModeStatic = ''static''"

section \<open>Form\<close>

definition secretByName :: "synthesis \<Rightarrow> string \<Rightarrow> secret option" where
  "secretByName s n = find (\<lambda>x. sec_name x = n) (syn_secrets s)"

definition routeConfig :: "synthesis \<Rightarrow> string \<Rightarrow> route_config option" where
  "routeConfig s n = find (\<lambda>x. rcf_name x = n) (syn_routes s)"

definition materializeErr :: "synthesis \<Rightarrow> string \<Rightarrow> string \<Rightarrow> compile_error" where
  "materializeErr s n m = source_error ''patch''
     (case find (\<lambda>(k, v). snd k = n) (syn_sourceMap s) of Some (k, v) \<Rightarrow> v | None \<Rightarrow> \<lparr>sr_file = [], sr_kind = [], sr_name = n, sr_path = []\<rparr>) m"

definition no_certificate :: "synthesis \<Rightarrow> string \<Rightarrow> nat \<Rightarrow> compile_error" where
  "no_certificate s sn i = materializeErr s sn (''TLS filter chain '' @ string_of_nat i @ '' has no certificate Secret '' @ go_quote sn @ '' (was it removed by a patch?)'')"

definition no_client_ca :: "synthesis \<Rightarrow> string \<Rightarrow> compile_error" where
  "no_client_ca s ca = materializeErr s ca (''TLS filter chain has no client CA validation-context Secret '' @ go_quote ca)"

text \<open>The validation of a chain, given what takes the place of its context: the new one, the secrets it
  uses and the errors.\<close>

definition bind_validation :: "(string \<Rightarrow> string option \<Rightarrow> tls_validation) \<Rightarrow> synthesis \<Rightarrow> string \<Rightarrow> tls_validation \<Rightarrow> tls_validation \<times> string list \<times> compile_error list" where
  "bind_validation f s n v =
     (let ca = clientCASecretResourceName n in
      case v of
        ValidationContext _ \<Rightarrow>
          (case secretByName s ca of
             Some x \<Rightarrow> (case sec_type x of CertificateValidation c \<Rightarrow> (f ca c, [ca], []) | _ \<Rightarrow> (v, [], [no_client_ca s ca]))
           | None \<Rightarrow> (v, [], [no_client_ca s ca]))
      | _ \<Rightarrow> (v, [], []))"

fun reference_chains :: "synthesis \<Rightarrow> string \<Rightarrow> nat \<Rightarrow> filter_chain list \<Rightarrow> filter_chain list \<times> string list \<times> compile_error list" where
  "reference_chains s n i [] = ([], [], [])"
| "reference_chains s n i (c # cs) =
     (case fch_tls c of
        None \<Rightarrow> (let (cs', used, es) = reference_chains s n i cs in (c # cs', used, es))
      | Some d \<Rightarrow>
          let sn = secretResourceName n i; (cs', used, es) = reference_chains s n (Suc i) cs in
          (case secretByName s sn of
             None \<Rightarrow> (c # cs', used, no_certificate s sn i # es)
           | Some _ \<Rightarrow>
               let (v, u, es1) = bind_validation (\<lambda>ca _. ValidationSds ca) s n (dtc_validation d) in
               (c\<lparr>fch_tls := Some (d\<lparr>dtc_certificates := [], dtc_sdsCertificates := [sn], dtc_validation := v\<rparr>)\<rparr> # cs', sn # u @ used, es1 @ es)))"

fun inline_chains :: "synthesis \<Rightarrow> string \<Rightarrow> nat \<Rightarrow> filter_chain list \<Rightarrow> filter_chain list \<times> string list \<times> compile_error list" where
  "inline_chains s n i [] = ([], [], [])"
| "inline_chains s n i (c # cs) =
     (case fch_tls c of
        None \<Rightarrow> (let (cs', used, es) = inline_chains s n i cs in (c # cs', used, es))
      | Some d \<Rightarrow>
          let sn = secretResourceName n i; (cs', used, es) = inline_chains s n (Suc i) cs in
          (case secretByName s sn of
             None \<Rightarrow> (c # cs', used, no_certificate s sn i # es)
           | Some x \<Rightarrow>
               (case sec_type x of
                  TlsCertificate tc \<Rightarrow>
                    let (v, u, es1) = bind_validation (\<lambda>_ f. ValidationContext f) s n (dtc_validation d) in
                    (c\<lparr>fch_tls := Some (d\<lparr>dtc_certificates := [tc], dtc_validation := v\<rparr>)\<rparr> # cs', sn # u @ used, es1 @ es)
                | _ \<Rightarrow> (c # cs', sn # used, materializeErr s sn (''patched Secret '' @ go_quote sn @
                    '' is no longer a tls_certificate; static mode cannot inline other secret types'') # es))))"

definition checkOrphanSecrets :: "synthesis \<Rightarrow> string \<Rightarrow> string list \<Rightarrow> compile_error list" where
  "checkOrphanSecrets s n used =
     concat (map (\<lambda>x. if (prefix (''crt/'' @ n @ ''/'') x \<or> x = clientCASecretResourceName n) \<and> x \<notin> set used
       then [materializeErr s x (''compiled TLS Secret '' @ go_quote x @ '' is not referenced by any TLS filter chain (was the chain removed by a patch?)'')]
       else []) (syn_compiledSecrets s))"

definition referenceSDS :: "synthesis \<Rightarrow> listener \<Rightarrow> listener \<times> compile_error list" where
  "referenceSDS s lis =
     (let n = trim_prefix ''lis/'' (lis_name lis); (chs, used, es) = reference_chains s n 0 (lis_filterChains lis) in
      (lis\<lparr>lis_filterChains := chs\<rparr>, es @ checkOrphanSecrets s n used))"

subsection \<open>Routes in place\<close>

fun find_hcm :: "network_filter list \<Rightarrow> hcm option" where
  "find_hcm [] = None"
| "find_hcm (HcmFilter h # fs) = Some h"
| "find_hcm (f # fs) = find_hcm fs"

definition findHCMFilter :: "listener \<Rightarrow> hcm option" where
  "findHCMFilter lis = find_hcm (concat (map fch_filters (lis_filterChains lis)))"

definition set_routes :: "route_config \<Rightarrow> network_filter \<Rightarrow> network_filter" where
  "set_routes rc f = (case f of HcmFilter h \<Rightarrow> HcmFilter (h\<lparr>hcm_routes := InlineRoutes rc\<rparr>) | _ \<Rightarrow> f)"

fun set_first :: "route_config \<Rightarrow> network_filter list \<Rightarrow> network_filter list" where
  "set_first rc [] = []"
| "set_first rc (HcmFilter h # fs) = set_routes rc (HcmFilter h) # fs"
| "set_first rc (f # fs) = f # set_first rc fs"

fun set_first_chain :: "route_config \<Rightarrow> filter_chain list \<Rightarrow> filter_chain list" where
  "set_first_chain rc [] = []"
| "set_first_chain rc (c # cs) =
     (if find_hcm (fch_filters c) = None then c # set_first_chain rc cs else c\<lparr>fch_filters := set_first rc (fch_filters c)\<rparr> # cs)"

text \<open>The filter that is found is changed: it is the filter of every chain as long as the chains share it.\<close>

definition put_routes :: "bool \<Rightarrow> route_config \<Rightarrow> filter_chain list \<Rightarrow> filter_chain list" where
  "put_routes shared rc chs =
     (if shared then map (\<lambda>c. c\<lparr>fch_filters := map (set_routes rc) (fch_filters c)\<rparr>) chs else set_first_chain rc chs)"

definition inline_routes :: "synthesis \<Rightarrow> bool \<Rightarrow> listener \<Rightarrow> listener \<times> string list \<times> compile_error list" where
  "inline_routes s shared lis =
     (case findHCMFilter lis of
        None \<Rightarrow> (lis, [], [])
      | Some h \<Rightarrow>
          (case hcm_routes h of
             InlineRoutes _ \<Rightarrow> (lis, [], [])
           | Rds rn \<Rightarrow>
               (case routeConfig s rn of
                  None \<Rightarrow> (lis, [], [materializeErr s (listenerResourceName (trim_prefix ''lis/'' (lis_name lis)))
                     (''RouteConfiguration '' @ go_quote rn @ '' referenced by HCM RDS not found (was it removed by a patch?)'')])
                | Some rc \<Rightarrow> (lis\<lparr>lis_filterChains := put_routes shared rc (lis_filterChains lis)\<rparr>, [rn], []))))"

definition inlineListener :: "synthesis \<Rightarrow> bool \<times> listener \<Rightarrow> listener \<times> string list \<times> compile_error list" where
  "inlineListener s x =
     (let n = trim_prefix ''lis/'' (lis_name (snd x)); (lis, inlined, es0) = inline_routes s (fst x) (snd x);
          (chs, used, es) = inline_chains s n 0 (lis_filterChains lis) in
      (lis\<lparr>lis_filterChains := chs\<rparr>, inlined, es0 @ es @ checkOrphanSecrets s n used))"

subsection \<open>Endpoints\<close>

definition eds_conflict :: "synthesis \<Rightarrow> load_assignment \<Rightarrow> bool" where
  "eds_conflict s a = hasResource (ResourceEndpoints, cla_clusterName a) s"

definition extractable :: "synthesis \<Rightarrow> cluster \<Rightarrow> load_assignment option" where
  "extractable s c = (if clu_type c \<noteq> STATIC then None else case clu_loadAssignment c of None \<Rightarrow> None | Some a \<Rightarrow> if eds_conflict s a then None else Some a)"

definition to_eds :: "synthesis \<Rightarrow> cluster \<Rightarrow> cluster" where
  "to_eds s c = (if extractable s c = None then c else c\<lparr>clu_loadAssignment := None, clu_type := EDS, clu_eds := True\<rparr>)"

definition eds_errors :: "synthesis \<Rightarrow> cluster \<Rightarrow> compile_error list" where
  "eds_errors s c =
     (if clu_type c \<noteq> STATIC then [] else case clu_loadAssignment c of None \<Rightarrow> []
      | Some a \<Rightarrow> if eds_conflict s a then [materializeErr s (cla_clusterName a)
          (''EDS resource '' @ go_quote (cla_clusterName a) @ '' conflicts with an existing ClusterLoadAssignment'')] else [])"

definition eds_source :: "cluster \<times> load_assignment \<Rightarrow> synthesis \<Rightarrow> synthesis" where
  "eds_source x s = set_source (ResourceEndpoints, cla_clusterName (snd x))
     (case map_of (syn_sourceMap s) (ResourceCluster, clu_name (fst x)) of Some v \<Rightarrow> v | None \<Rightarrow> \<lparr>sr_file = [], sr_kind = [], sr_name = [], sr_path = []\<rparr>) s"

definition extractEDS :: "synthesis \<Rightarrow> synthesis \<times> compile_error list" where
  "extractEDS s =
     (let cls = sort_key clu_name (syn_clusters s);
          moved = List.map_filter (\<lambda>c. map_option (\<lambda>a. (c, a)) (extractable s c)) cls;
          s1 = fold eds_source moved s in
      (s1\<lparr>syn_clusters := map (to_eds s) (syn_clusters s), syn_endpoints := syn_endpoints s @ map snd moved\<rparr>,
       concat (map (eds_errors s) cls)))"

subsection \<open>The stage\<close>

definition buildBootstrap :: bootstrap where
  "buildBootstrap = \<lparr>bst_nodeId = ''esgw'', bst_nodeCluster = ''esgw'', bst_adminAddress = ''127.0.0.1'', bst_adminPort = 9901\<rparr>"

definition compiled :: "synthesis \<Rightarrow> bool \<times> listener \<Rightarrow> bool" where
  "compiled s x = (lis_name (snd x) \<in> set (syn_compiledListeners s))"

definition by_name :: "('m \<Rightarrow> string) \<Rightarrow> 'm list \<Rightarrow> (string \<times> 'm) list" where
  "by_name f ms = go_map_json (map (\<lambda>m. (f m, m)) ms)"

definition materialize_xds :: "synthesis \<Rightarrow> IR option \<times> compile_error list" where
  "materialize_xds s =
     (let ls = map (\<lambda>x. if compiled s x then referenceSDS s (snd x) else (snd x, [])) (syn_listeners s);
          (s1, es2) = extractEDS s; es = concat (map snd ls) @ es2 in
      (if hasErrors es then None
       else Some \<lparr>ir_listeners = by_name lis_name (map fst ls), ir_clusters = by_name clu_name (syn_clusters s1), ir_routes = by_name rcf_name (syn_routes s1),
         ir_endpoints = by_name cla_clusterName (syn_endpoints s1), ir_secrets = by_name sec_name (syn_secrets s1),
         ir_bootstrap = buildBootstrap, ir_version = [], ir_sourceMap = syn_sourceMap s1\<rparr>, es))"

definition materialize_static :: "synthesis \<Rightarrow> IR option \<times> compile_error list" where
  "materialize_static s =
     (let ls = map (\<lambda>x. if compiled s x then inlineListener s x else (snd x, [], [])) (syn_listeners s);
          inlined = concat (map (\<lambda>(l, r, e). r) ls); es = concat (map (\<lambda>(l, r, e). e) ls) in
      (if hasErrors es then None
       else Some \<lparr>ir_listeners = by_name lis_name (map fst ls), ir_clusters = by_name clu_name (syn_clusters s),
         ir_routes = by_name rcf_name (filter (\<lambda>rc. rcf_name rc \<notin> set inlined) (syn_routes s)),
         ir_endpoints = by_name cla_clusterName (syn_endpoints s),
         ir_secrets = by_name sec_name (filter (\<lambda>x. sec_name x \<notin> set (syn_compiledSecrets s)) (syn_secrets s)),
         ir_bootstrap = buildBootstrap, ir_version = [], ir_sourceMap = syn_sourceMap s\<rparr>, es))"

definition materialize :: "synthesis \<Rightarrow> string \<Rightarrow> IR option \<times> compile_error list" where
  "materialize s mode =
     (if mode = ModeXDS then materialize_xds s else if mode = ModeStatic then materialize_static s
      else (None, [source_error ''build'' \<lparr>sr_file = [], sr_kind = [], sr_name = [], sr_path = []\<rparr>
        (''invalid mode '' @ go_quote mode @ '' (want xds | static)'')]))"

section \<open>References\<close>

definition validateError :: "IR \<Rightarrow> resource_key \<Rightarrow> string \<Rightarrow> compile_error" where
  "validateError out key m = source_error ''validate''
     (case map_of (ir_sourceMap out) key of Some v \<Rightarrow> v | None \<Rightarrow> \<lparr>sr_file = [], sr_kind = [], sr_name = snd key, sr_path = []\<rparr>) (key_text key @ '': '' @ m)"

definition tcpProxyCluster :: "network_filter \<Rightarrow> string" where
  "tcpProxyCluster f = (case f of TcpProxy p c \<Rightarrow> c | _ \<Rightarrow> [])"

definition udpProxyCluster :: "listener_filter \<Rightarrow> string" where
  "udpProxyCluster f = (case f of UdpProxy p c \<Rightarrow> c | _ \<Rightarrow> [])"

definition extAuthCluster :: "http_filter \<Rightarrow> string" where
  "extAuthCluster f = (case f of ExtAuthzFilter z \<Rightarrow> (case ez_service z of GrpcService c t \<Rightarrow> c | HttpService u c t p \<Rightarrow> c) | _ \<Rightarrow> [])"

definition missing :: "(string \<times> 'a) list \<Rightarrow> string \<Rightarrow> bool" where
  "missing m n \<longleftrightarrow> n \<notin> fst ` set m"

definition cluster_ref :: "IR \<Rightarrow> resource_key \<Rightarrow> string \<Rightarrow> string \<Rightarrow> compile_error list" where
  "cluster_ref out key what c =
     (if c \<noteq> [] \<and> missing (ir_clusters out) c then [validateError out key (what @ '' reference '' @ go_quote c @ '' has no matching Cluster'')] else [])"

definition action_clusters :: "envoy_route \<Rightarrow> string list" where
  "action_clusters r = (case ert_target r of
     Some (RouteTo a) \<Rightarrow> (case ra_cluster a of SingleCluster c \<Rightarrow> if c \<noteq> [] then [c] else [] | WeightedClusters ws \<Rightarrow> map fst ws)
   | _ \<Rightarrow> [])"

fun route_ref_errors :: "IR \<Rightarrow> resource_key \<Rightarrow> string set \<Rightarrow> (string \<times> string) list \<Rightarrow> compile_error list" where
  "route_ref_errors out key seen [] = []"
| "route_ref_errors out key seen ((vh, c) # xs) =
     (if \<not> missing (ir_clusters out) c \<or> c \<in> seen then route_ref_errors out key seen xs
      else validateError out key (''route (virtual host '' @ go_quote vh @ '') references cluster '' @ go_quote c @ '' which does not exist'') #
        route_ref_errors out key (insert c seen) xs)"

definition checkRouteConfigRefs :: "IR \<Rightarrow> route_config \<Rightarrow> resource_key \<Rightarrow> compile_error list" where
  "checkRouteConfigRefs out rc key =
     route_ref_errors out key {} (concat (map (\<lambda>v. concat (map (\<lambda>r. map (\<lambda>c. (vhx_name v, c)) (action_clusters r)) (vhx_routes v))) (rcf_virtualHosts rc)))"

definition filter_refs :: "IR \<Rightarrow> resource_key \<Rightarrow> network_filter \<Rightarrow> compile_error list" where
  "filter_refs out key f =
     cluster_ref out key ''TCP proxy'' (tcpProxyCluster f) @
     (case f of
        HcmFilter h \<Rightarrow>
          concat (map (\<lambda>x. cluster_ref out key ''ext_authz'' (extAuthCluster x)) (hcm_httpFilters h)) @
          (case hcm_routes h of
             Rds n \<Rightarrow> if missing (ir_routes out) n
               then [validateError out key (''HCM RDS reference '' @ go_quote n @ '' has no matching RouteConfiguration'')] else []
           | InlineRoutes rc \<Rightarrow> checkRouteConfigRefs out rc key)
      | _ \<Rightarrow> [])"

definition tls_refs :: "IR \<Rightarrow> resource_key \<Rightarrow> filter_chain \<Rightarrow> compile_error list" where
  "tls_refs out key c =
     (case fch_tls c of None \<Rightarrow> []
      | Some d \<Rightarrow>
          concat (map (\<lambda>n. if missing (ir_secrets out) n
            then [validateError out key (''SDS certificate reference '' @ go_quote n @ '' has no matching Secret'')] else []) (dtc_sdsCertificates d)) @
          (case dtc_validation d of
             ValidationSds n \<Rightarrow> if missing (ir_secrets out) n
               then [validateError out key (''SDS validation context reference '' @ go_quote n @ '' has no matching Secret'')] else []
           | _ \<Rightarrow> []))"

definition listener_ref_errors :: "IR \<Rightarrow> string \<times> listener \<Rightarrow> compile_error list" where
  "listener_ref_errors out x =
     (let key = (ResourceListener, fst x) in
      concat (map (\<lambda>c. concat (map (filter_refs out key) (fch_filters c)) @ tls_refs out key c) (lis_filterChains (snd x))) @
      concat (map (\<lambda>f. cluster_ref out key ''UDP proxy'' (udpProxyCluster f)) (lis_listenerFilters (snd x))))"

definition checkCrossRefs :: "IR \<Rightarrow> compile_error list" where
  "checkCrossRefs out =
     concat (map (listener_ref_errors out) (ir_listeners out)) @
     concat (map (\<lambda>(n, c). if clu_eds c \<and> missing (ir_endpoints out) n
       then [validateError out (ResourceCluster, n) (''EDS cluster has no matching ClusterLoadAssignment '' @ go_quote n)] else []) (ir_clusters out)) @
     concat (map (\<lambda>(n, rc). checkRouteConfigRefs out rc (ResourceRoute, n)) (ir_routes out))"

section \<open>The pipeline\<close>

record resource_checks =
  rs_listener :: "listener \<Rightarrow> string option"
  rs_cluster :: "cluster \<Rightarrow> string option"
  rs_route :: "route_config \<Rightarrow> string option"
  rs_endpoints :: "load_assignment \<Rightarrow> string option"
  rs_secret :: "secret \<Rightarrow> string option"
  rs_bootstrap :: "bootstrap \<Rightarrow> string option"

definition check_resources :: "IR \<Rightarrow> string \<Rightarrow> ('m \<Rightarrow> string option) \<Rightarrow> (string \<times> 'm) list \<Rightarrow> compile_error list" where
  "check_resources out kind f ms = concat (map (\<lambda>(n, m). case f m of None \<Rightarrow> [] | Some e \<Rightarrow> [validateError out (kind, n) e]) ms)"

definition validateIR :: "resource_checks \<Rightarrow> IR \<Rightarrow> compile_error list" where
  "validateIR R out =
     check_resources out ResourceListener (rs_listener R) (ir_listeners out) @
     check_resources out ResourceCluster (rs_cluster R) (ir_clusters out) @
     check_resources out ResourceRoute (rs_route R) (ir_routes out) @
     check_resources out ResourceEndpoints (rs_endpoints R) (ir_endpoints out) @
     check_resources out ResourceSecret (rs_secret R) (ir_secrets out) @
     check_resources out ResourceBootstrap (rs_bootstrap R) [(''bootstrap'', ir_bootstrap out)] @
     checkCrossRefs out"

record compile_lib =
  cl_verifier :: cert_verifier
  cl_build :: build_lib
  cl_patch :: patch_lib
  cl_checks :: resource_checks
  cl_version :: "IR \<Rightarrow> string + string"

text \<open>Each stage runs only if the ones before it reported no error; \<open>None\<close> is a panic.\<close>

definition finish :: "compile_lib \<Rightarrow> IR \<Rightarrow> compile_error list \<Rightarrow> IR option \<times> compile_error list" where
  "finish C out errs =
     (let es = errs @ validateIR (cl_checks C) out in
      if hasErrors es then (None, es)
      else case cl_version C out of
          Inl e \<Rightarrow> (None, es @ [source_error ''validate'' \<lparr>sr_file = [], sr_kind = [], sr_name = [], sr_path = []\<rparr> (''compute IR version: '' @ e)])
        | Inr v \<Rightarrow> (Some (out\<lparr>ir_version := v\<rparr>), es))"

definition after_build :: "compile_lib \<Rightarrow> compile_options \<Rightarrow> ConfigSet \<Rightarrow> buildResult \<Rightarrow> compile_error list \<Rightarrow> IR option \<times> compile_error list" where
  "after_build C opts cs res errs =
     (if hasErrors errs then (None, errs)
      else let (syn, perrs) = synthesize (cl_patch C) cs res; es1 = errs @ perrs in
        if hasErrors es1 then (None, es1)
        else let (out, merrs) = materialize syn (opt_mode opts); es2 = es1 @ merrs in
          if hasErrors es2 then (None, es2)
          else case out of None \<Rightarrow> (None, es2) | Some ir \<Rightarrow> finish C ir es2)"

definition Compile :: "compile_lib \<Rightarrow> compile_options \<Rightarrow> ConfigSet \<Rightarrow> (IR option \<times> compile_error list) option" where
  "Compile C opts cs =
     (case link opts (cl_verifier C) cs of (cs', lk, errs) \<Rightarrow>
        if hasErrors errs then Some (None, errs)
        else map_option (\<lambda>(res, berrs). after_build C opts cs' res (errs @ berrs)) (build (cl_build C) cs' lk))"

end
