(* ===== verification/BuildTotal.thy ===== *)
theory BuildTotal
  imports CompileBuild
begin

text \<open>
  The stages fit together: on a configuration the loader accepted and the second stage passed, the
  third never reaches a \<open>nil\<close> pointer or an index that is out of range.
\<close>

section \<open>What the loader has checked\<close>

definition validated :: "net_lib \<Rightarrow> ConfigSet \<Rightarrow> bool" where
  "validated N cs \<longleftrightarrow>
     (case cfg_gateway cs of None \<Rightarrow> True | Some g \<Rightarrow> GatewaySpec_validate N (po_spec g) = None) \<and>
     (\<forall>l \<in> set (cfg_listeners cs). ValidateName (po_name l) \<and> ListenerSpec_validate N (po_spec l) = None) \<and>
     (\<forall>r \<in> set (cfg_routes cs). RouteSpec_validate N (po_spec r) = None) \<and>
     (\<forall>u \<in> set (cfg_upstreams cs). UpstreamSpec_validate (po_spec u) = None) \<and>
     (\<forall>p \<in> set (cfg_policies cs). PolicySpec_validate N ''spec'' (po_spec p) = None)"

definition spec_ok :: "net_lib \<Rightarrow> PolicySpec \<Rightarrow> bool" where
  "spec_ok N s \<longleftrightarrow> single_type s \<and>
     (\<forall>ip. pol_ipAccess s = Some ip \<longrightarrow> (\<forall>c \<in> set (ipa_allow ip) \<union> set (ipa_deny ip). nl_parsePrefix N c \<noteq> None))"

lemma validate_cidrs_None: "validate_cidrs N field cs = None \<longleftrightarrow> (\<forall>c \<in> set cs. nl_parsePrefix N c \<noteq> None)"
  unfolding validate_cidrs_def by (rule first_error_all) simp

lemma PolicySpec_validate_ok: "PolicySpec_validate N f s = None \<Longrightarrow> spec_ok N s"
  by (auto simp: PolicySpec_validate_def spec_ok_def single_type_def validate_cidrs_None split: option.splits)

lemma attachments_ok:
  assumes "validatePolicyAttachments N f ps = None" and "a \<in> set ps" and "pa_inline a = Some s"
  shows "spec_ok N s"
proof -
  obtain i where "i < length ps" "ps ! i = a" using assms(2) by (auto simp: in_set_conv_nth)
  with assms(1,3) have "PolicySpec_validate N (index_text f i) s = None"
    by (auto simp: validatePolicyAttachments_def first_error_None Let_def dest!: spec [of _ i])
  then show ?thesis by (rule PolicySpec_validate_ok)
qed

definition policies_ok :: "net_lib \<Rightarrow> ConfigSet \<Rightarrow> bool" where
  "policies_ok N cs \<longleftrightarrow> (\<forall>p \<in> set (cfg_policies cs). spec_ok N (po_spec p)) \<and>
     (\<forall>a \<in> set (all_attachments cs). \<forall>s. pa_inline a = Some s \<longrightarrow> spec_ok N s)"

lemma rule_attachments_ok:
  assumes "RouteSpec_validate N (po_spec r) = None" and "a \<in> set (rule_attachments r)" and "pa_inline a = Some s"
  shows "spec_ok N s"
proof -
  obtain rule where rule: "rule \<in> set (rts_rules (po_spec r))" "a \<in> set (rule_policies rule)"
    using assms(2) by (auto simp: rule_attachments_def)
  then obtain j where "j < length (rts_rules (po_spec r))" "rts_rules (po_spec r) ! j = rule" by (auto simp: in_set_conv_nth)
  moreover have "validate_rules N 0 Map.empty (rts_rules (po_spec r)) = None" using assms(1) by (simp add: RouteSpec_validate_def)
  ultimately have "Rule_validate N (index_text ''spec.rules'' j) rule = None" by (auto simp: validate_rules_None)
  then have "validatePolicyAttachments N (index_text ''spec.rules'' j @ ''.policies'') (rule_policies rule) = None"
    by (simp add: Rule_validate_def Let_def)
  then show ?thesis using rule(2) assms(3) by (rule attachments_ok)
qed

lemma validated_policies_ok: "validated N cs \<Longrightarrow> policies_ok N cs"
  unfolding policies_ok_def
proof (intro conjI ballI allI impI)
  assume v: "validated N cs"
  show "spec_ok N (po_spec p)" if "p \<in> set (cfg_policies cs)" for p
    using v that PolicySpec_validate_ok by (auto simp: validated_def)
  fix a s assume a: "a \<in> set (all_attachments cs)" "pa_inline a = Some s"
  from a(1) consider g where "cfg_gateway cs = Some g" "a \<in> set (gws_policies (po_spec g))"
    | l where "l \<in> set (cfg_listeners cs)" "a \<in> set (lsn_policies (po_spec l))"
    | r where "r \<in> set (cfg_routes cs)" "a \<in> set (rts_policies (po_spec r))"
    | r where "r \<in> set (cfg_routes cs)" "a \<in> set (rule_attachments r)"
    by (cases "cfg_gateway cs") (auto simp: all_attachments_def)
  then show "spec_ok N s"
  proof cases
    case (1 g)
    then have "validatePolicyAttachments N ''spec.policies'' (gws_policies (po_spec g)) = None"
      using v by (simp add: validated_def GatewaySpec_validate_def)
    then show ?thesis using 1(2) a(2) by (rule attachments_ok)
  next
    case (2 l)
    then have "validatePolicyAttachments N ''spec.policies'' (lsn_policies (po_spec l)) = None"
      using v by (simp add: validated_def ListenerSpec_validate_def)
    then show ?thesis using 2(2) a(2) by (rule attachments_ok)
  next
    case (3 r)
    then have "validatePolicyAttachments N ''spec.policies'' (rts_policies (po_spec r)) = None"
      using v by (simp add: validated_def RouteSpec_validate_def)
    then show ?thesis using 3(2) a(2) by (rule attachments_ok)
  next
    case (4 r)
    then show ?thesis using v a(2) by (auto simp: validated_def intro: rule_attachments_ok)
  qed
qed

section \<open>What the defaults leave\<close>

lemma spec_ok_defaults: "spec_ok N s \<Longrightarrow> spec_ok N (policy_defaults s)"
  by (cases "pol_rateLimit s") (simp_all add: spec_ok_def single_type_def policy_types_def policy_defaults_def)

lemma all_attachments_defaults:
  "a \<in> set (all_attachments (ApplyDefaults cs)) \<Longrightarrow> \<exists>b \<in> set (all_attachments cs). a = attachment_defaults b"
proof -
  have rules: "rule_attachments (on_spec route_defaults r) = map attachment_defaults (rule_attachments r)" for r
    by (simp add: rule_attachments_def route_defaults_def rule_defaults_def map_concat comp_def)
  assume "a \<in> set (all_attachments (ApplyDefaults cs))"
  then show ?thesis
    by (cases "cfg_gateway cs")
      (auto simp: all_attachments_def ApplyDefaults_def rules gateway_defaults_def listener_defaults_def route_defaults_def empty_gateway_def)
qed

lemma policies_ok_defaults: "policies_ok N cs \<Longrightarrow> policies_ok N (ApplyDefaults cs)"
  unfolding policies_ok_def
proof (intro conjI ballI allI impI)
  assume ok: "(\<forall>p \<in> set (cfg_policies cs). spec_ok N (po_spec p)) \<and> (\<forall>a \<in> set (all_attachments cs). \<forall>s. pa_inline a = Some s \<longrightarrow> spec_ok N s)"
  show "spec_ok N (po_spec p)" if "p \<in> set (cfg_policies (ApplyDefaults cs))" for p
    using ok that spec_ok_defaults by (auto simp: ApplyDefaults_def)
  fix a s assume "a \<in> set (all_attachments (ApplyDefaults cs))" "pa_inline a = Some s"
  then obtain b t where "b \<in> set (all_attachments cs)" "pa_inline b = Some t" "s = policy_defaults t"
    using all_attachments_defaults by (fastforce simp: attachment_defaults_def)
  with ok show "spec_ok N s" using spec_ok_defaults by blast
qed

definition filled :: "ConfigSet \<Rightarrow> bool" where
  "filled cs \<longleftrightarrow>
     (\<exists>g h. cfg_gateway cs = Some g \<and> gws_http (po_spec g) = Some h \<and> htd_idleTimeout h \<noteq> None \<and>
        htd_maxRequestHeadersKb h \<noteq> None \<and> htd_serverHeader h \<noteq> None) \<and>
     (\<forall>r \<in> set (cfg_routes cs). \<forall>rule \<in> set (rts_rules (po_spec r)). rule_timeout rule \<noteq> None) \<and>
     (\<forall>u \<in> set (cfg_upstreams cs). ups_loadBalancer (po_spec u) \<noteq> None \<and>
        (\<exists>c. ups_connection (po_spec u) = Some c \<and> conn_connectTimeout c \<noteq> None))"

lemma default_to_ex [simp]: "\<exists>y. default_to d v = Some y"
  by (simp add: default_to_def split: option.split)

lemma filled_defaults: "filled (ApplyDefaults cs)"
  by (auto simp: filled_def ApplyDefaults_def gateway_defaults_def route_defaults_def rule_defaults_def upstream_defaults_def Let_def)

section \<open>No panic\<close>

lemma build_each_total: "(\<And>i x s. x \<in> set xs \<Longrightarrow> f i x s \<noteq> None) \<Longrightarrow> build_each f i xs s \<noteq> None"
proof (induction xs arbitrary: i s)
  case (Cons x xs)
  from Cons.prems [of x i s] obtain y es s1 where one: "f i x s = Some (y, es, s1)" by auto
  from Cons.IH [of "Suc i" s1] Cons.prems obtain ys es' s2 where "build_each f (Suc i) xs s1 = Some (ys, es', s2)" by auto
  with one show ?case by simp
qed simp

lemma those_total: "(\<And>x. x \<in> set xs \<Longrightarrow> f x \<noteq> None) \<Longrightarrow> those (map f xs) \<noteq> None"
  by (induction xs) (auto split: option.split)

lemma rule_levels_all:
  assumes "cfg_gateway cs = Some g" "l \<in> set (cfg_listeners cs)" "r \<in> set (cfg_routes cs)" "rule \<in> set (rts_rules (po_spec r))"
  shows "set (concat (rule_levels g l r rule)) \<subseteq> set (all_attachments cs)"
  using assms by (auto simp: rule_levels_def all_attachments_def rule_attachments_def)

lemma attached_ok:
  assumes "policies_ok N cs" and "a \<in> set (all_attachments cs)" and "attached_spec (link_index cs) a = Some s"
  shows "spec_ok N s"
  using assms by (auto simp: attached_spec_def policies_ok_def split: option.splits dest: index_by_name_in)

lemma level_policy_from: "level_policy lk sel ps = Some p \<Longrightarrow> \<exists>a \<in> set ps. \<exists>s. attached_spec lk a = Some s \<and> sel s = Some p"
proof (induction ps rule: rev_induct)
  case (snoc a ps)
  then show ?case by (cases "attached_spec lk a"; auto simp: level_policy_def pick_def split: option.splits)
qed (simp add: level_policy_def)

lemma first_some_in: "first_some xs = Some x \<Longrightarrow> Some x \<in> set xs"
  by (induction xs rule: first_some.induct) auto

lemma ipAccess_from:
  assumes "\<forall>a \<in> set (concat levels). \<forall>s. attached_spec lk a = Some s \<longrightarrow> spec_ok N s" and "eff_ipAccess (normalizePolicies lk levels) = Some ip"
  shows "\<forall>c \<in> set (ipa_allow ip) \<union> set (ipa_deny ip). nl_parsePrefix N c \<noteq> None"
proof -
  from assms have "first_some (map (level_policy lk pol_ipAccess) (rev levels)) = Some ip"
    by (subst ip_type.nearest [symmetric]) (auto simp: spec_ok_def)
  then have "Some ip \<in> set (map (level_policy lk pol_ipAccess) (rev levels))" by (rule first_some_in)
  then obtain ps where "ps \<in> set levels" "level_policy lk pol_ipAccess ps = Some ip" by (metis (no_types, lifting) imageE set_map set_rev)
  then obtain a s where "a \<in> set (concat levels)" "attached_spec lk a = Some s" "pol_ipAccess s = Some ip"
    using level_policy_from by fastforce
  with assms(1) show ?thesis by (auto simp: spec_ok_def)
qed

lemma buildRule_total:
  assumes cs: "filled cs" "policies_ok (bl_net B) cs" "l \<in> set (cfg_listeners cs)" "r \<in> set (cfg_routes cs)" and rule: "rule \<in> set (rts_rules (po_spec r))"
  shows "buildRule B cs (link_index cs) l r idx rule s \<noteq> None"
proof -
  obtain g where g: "cfg_gateway cs = Some g" using cs(1) by (auto simp: filled_def)
  have "rule_timeout rule \<noteq> None" using cs(1,4) rule by (auto simp: filled_def)
  then have target: "rule_target (link_index cs) r idx rule \<noteq> None" by (auto simp: rule_target_def buildRouteAction_def split: option.split)
  let ?levels = "rule_levels g l r rule"
  have ok: "\<forall>a \<in> set (concat ?levels). \<forall>s. attached_spec (link_index cs) a = Some s \<longrightarrow> spec_ok (bl_net B) s"
    using rule_levels_all [OF g cs(3,4) rule] attached_ok [OF cs(2)] by blast
  have "buildIPAccess B ip \<noteq> None" if "eff_ipAccess (normalizePolicies (link_index cs) ?levels) = Some ip" for ip
    using ipAccess_from [OF ok that] those_total [of "ipa_allow ip" "nl_parsePrefix (bl_net B)"] those_total [of "ipa_deny ip" "nl_parsePrefix (bl_net B)"]
    by (auto simp: buildIPAccess_def cidrPrincipals_def Let_def)
  then have "typedPerFilterConfig B (normalizePolicies (link_index cs) ?levels) r idx t \<noteq> None" for t
    by (auto simp: typedPerFilterConfig_def Let_def split: option.splits prod.splits)
  note tpc = this
  obtain tg es where "rule_target (link_index cs) r idx rule = Some (tg, es)" using target by auto
  moreover obtain e1 s1 where "registerExtAuth B (eff_extAuth (normalizePolicies (link_index cs) ?levels)) s = (e1, s1)" by fastforce
  moreover obtain m es3 s3 where "typedPerFilterConfig B (normalizePolicies (link_index cs) ?levels) r idx s1 = Some (m, es3, s3)"
    using tpc [of s1] by auto
  ultimately show ?thesis by (simp add: buildRule_def Let_def g)
qed

lemma buildHTTPListener_total:
  assumes cs: "filled cs" "policies_ok (bl_net B) cs" and l: "l \<in> set (cfg_listeners cs)" and "lsn_protocol (po_spec l) = ''HTTPS'' \<longrightarrow> lsn_tls (po_spec l) \<noteq> None"
  shows "buildHTTPListener B cs (link_index cs) l s \<noteq> None"
proof -
  have "buildVirtualHost B cs (link_index cs) l r t \<noteq> None" if "r \<in> set (httpRoutesFor cs (po_name l))" for r t
  proof -
    have "r \<in> set (cfg_routes cs)" using that by (simp add: httpRoutesFor_def sortedRoutes_def)
    note one = buildRule_total [OF cs l this]
    have "build_each (buildRule B cs (link_index cs) l r) 0 (rts_rules (po_spec r)) t \<noteq> None"
      by (rule build_each_total) (rule one)
    then show ?thesis by (auto simp: buildVirtualHost_def)
  qed
  then have hosts: "build_each (\<lambda>_. buildVirtualHost B cs (link_index cs) l) 0 (httpRoutesFor cs (po_name l)) (new_assembly s) \<noteq> None"
    by (rule build_each_total)
  have hcm: "buildHCM cs l t \<noteq> None" for t using cs(1) by (auto simp: filled_def buildHCM_def)
  have chs: "lsn_protocol (po_spec l) = ''HTTPS'' \<Longrightarrow> buildHTTPSFilterChains B l h \<noteq> None" for h
    using assms(4) by (simp add: buildHTTPSFilterChains_def)
  obtain vs es t where vs: "build_each (\<lambda>_. buildVirtualHost B cs (link_index cs) l) 0 (httpRoutesFor cs (po_name l)) (new_assembly s) = Some (vs, es, t)"
    using hosts by auto
  obtain h where h: "buildHCM cs l t = Some h" using hcm [of t] by blast
  show ?thesis using chs [of h] by (auto simp: buildHTTPListener_def vs h Let_def)
qed

lemma forward_routes:
  "r \<in> set (forwardRoutesFor cs n) \<longleftrightarrow> r \<in> set (cfg_routes cs) \<and> has_forward r \<and> \<not> has_rules r \<and> n \<in> set (rts_listeners (po_spec r))"
  by (auto simp: forwardRoutesFor_def sortedRoutes_def attachesTo_def list_ex_iff)

lemma attachments_forward: "set (forwardRoutesFor cs n) = fst ` set (attachments cs n)"
proof (rule set_eqI)
  fix r
  have "r \<in> fst ` set (attachments cs n) \<longleftrightarrow> (\<exists>i. (r, i) \<in> set (attachments cs n))" by force
  then show "r \<in> set (forwardRoutesFor cs n) \<longleftrightarrow> r \<in> fst ` set (attachments cs n)"
    unfolding attachments_iff forward_routes by (auto simp: in_set_conv_nth)
qed

lemma forward_cluster_total: "has_forward r \<Longrightarrow> forward_cluster r \<noteq> None"
  by (simp add: has_forward_def forward_cluster_def)

lemma buildL4Listener_total:
  assumes "lsn_protocol (po_spec l) \<in> {''TCP'', ''UDP''} \<longrightarrow> attachments cs (po_name l) \<noteq> []"
  shows "buildL4Listener cs l \<noteq> None"
proof -
  let ?routes = "forwardRoutesFor cs (po_name l)"
  have fwd: "forward_cluster r \<noteq> None" if "r \<in> set ?routes" for r using that forward_cluster_total by (auto simp: forward_routes)
  have "(case ?routes of [] \<Rightarrow> None | r # _ \<Rightarrow> forward_cluster r) \<noteq> None" if "lsn_protocol (po_spec l) \<in> {''TCP'', ''UDP''}"
  proof -
    have "?routes \<noteq> []" using assms that attachments_forward [of cs "po_name l"] by auto
    then show ?thesis using fwd by (cases ?routes) auto
  qed
  moreover have "buildTLSPassthroughListener l ?routes \<noteq> None"
    using those_total [of "sort_key (\<lambda>r. (join_with [CHR 0x00] (passthrough_hosts r), po_name r)) ?routes"
        "\<lambda>r. map_option (tcp_chain l (passthrough_hosts r) ''tls'') (forward_cluster r)"] fwd
    by (auto simp: buildTLSPassthroughListener_def)
  ultimately show ?thesis by (auto simp: buildL4Listener_def Let_def)
qed

lemma buildUpstream_total: "filled cs \<Longrightarrow> u \<in> set (cfg_upstreams cs) \<Longrightarrow> buildUpstream u \<noteq> None"
  by (auto simp: filled_def buildUpstream_def Let_def split: option.split)

lemma build_total:
  assumes cs: "filled cs" "policies_ok (bl_net B) cs" and "forwarding_formed cs" and "tls_where_terminated cs"
  shows "build B cs (link_index cs) \<noteq> None"
proof -
  have "build_listener B cs (link_index cs) l s \<noteq> None" if l: "l \<in> set (cfg_listeners cs)" for l s
  proof -
    have "attachments cs (po_name l) \<noteq> []" if "lsn_protocol (po_spec l) \<in> {''TCP'', ''UDP''}"
      using assms(3) l that unfolding forwarding_formed_def by (metis length_0_conv zero_neq_one)
    with buildL4Listener_total [of l cs] buildHTTPListener_total [OF cs l, of s] assms(4) l show ?thesis
      by (auto simp: build_listener_def tls_where_terminated_def)
  qed
  then have "build_each (\<lambda>_. build_listener B cs (link_index cs)) 0 (sortedListeners (cfg_listeners cs)) s \<noteq> None" for s
    by (intro build_each_total) (simp add: sortedListeners_def)
  then obtain ls es t where "build_each (\<lambda>_. build_listener B cs (link_index cs)) 0 (sortedListeners (cfg_listeners cs)) start_state = Some (ls, es, t)"
    by (metis option.exhaust prod_cases3)
  moreover have "those (map buildUpstream (sortedUpstreams (cfg_upstreams cs))) \<noteq> None"
    by (rule those_total) (simp add: sortedUpstreams_def buildUpstream_total [OF cs(1)])
  ultimately show ?thesis by (auto simp: build_def)
qed

section \<open>The certificates\<close>

text \<open>Writing the paths of the certificates changes nothing else the later stages read.\<close>

definition set_certificates :: "compile_options \<Rightarrow> ListenerSpec \<Rightarrow> ListenerSpec" where
  "set_certificates opts s = s\<lparr>lsn_tls := map_option (\<lambda>t. t\<lparr>ltls_certificates := map (resolve_certificate opts) (ltls_certificates t)\<rparr>) (lsn_tls s)\<rparr>"

lemma set_certificates_simps [simp]:
  "lsn_protocol (set_certificates opts s) = lsn_protocol s" "lsn_policies (set_certificates opts s) = lsn_policies s"
  "lsn_http (set_certificates opts s) = lsn_http s" "lsn_tls (set_certificates opts s) = None \<longleftrightarrow> lsn_tls s = None"
  "lsn_port (set_certificates opts s) = lsn_port s" "lsn_address (set_certificates opts s) = lsn_address s"
  by (simp_all add: set_certificates_def)

lemma resolve_certificates_simps [simp]:
  "cfg_listeners (resolve_certificates opts cs) = map (on_spec (set_certificates opts)) (cfg_listeners cs)"
  "cfg_routes (resolve_certificates opts cs) = cfg_routes cs" "cfg_gateway (resolve_certificates opts cs) = cfg_gateway cs"
  "cfg_upstreams (resolve_certificates opts cs) = cfg_upstreams cs" "cfg_policies (resolve_certificates opts cs) = cfg_policies cs"
  "attachments (resolve_certificates opts cs) = attachments cs"
  by (simp_all add: resolve_certificates_def set_certificates_def attachments_def fun_eq_iff on_spec_def)

lemma resolved:
  "filled (resolve_certificates opts cs) = filled cs" "policies_ok N (resolve_certificates opts cs) = policies_ok N cs"
  "forwarding_formed (resolve_certificates opts cs) = forwarding_formed cs" "tls_where_terminated (resolve_certificates opts cs) = tls_where_terminated cs"
proof -
  have "all_attachments (resolve_certificates opts cs) = all_attachments cs" by (simp add: all_attachments_def comp_def)
  then show "policies_ok N (resolve_certificates opts cs) = policies_ok N cs" by (simp add: policies_ok_def)
  show "filled (resolve_certificates opts cs) = filled cs" by (simp add: filled_def)
  show "forwarding_formed (resolve_certificates opts cs) = forwarding_formed cs" by (simp add: forwarding_formed_def is_http_def)
  show "tls_where_terminated (resolve_certificates opts cs) = tls_where_terminated cs" by (simp add: tls_where_terminated_def del: not_None_eq)
qed

lemma linked_build_total:
  assumes "loaded cs" and "validated (bl_net B) cs" and "link opts V cs = (cs', lk, [])"
  shows "build B cs' lk \<noteq> None"
proof -
  have cs': "cs' = resolve_certificates opts (ApplyDefaults cs)" "lk = link_index cs'" "link_checks opts V (ApplyDefaults cs) = []"
    using assms(3) by (auto simp: link_def Let_def)
  then have "well_linked opts V (ApplyDefaults cs)" using link_checks_Nil [OF defaults_loaded [OF assms(1)]] by blast
  then have "forwarding_formed (ApplyDefaults cs)" "tls_where_terminated (ApplyDefaults cs)" by (simp_all add: well_linked_def)
  then show ?thesis unfolding cs'(2) using policies_ok_defaults [OF validated_policies_ok [OF assms(2)]]
    by (intro build_total) (simp_all add: cs'(1) resolved filled_defaults)
qed

end
