(* ===== verification/BuildRefs.thy ===== *)
theory BuildRefs
  imports BuildTotal
begin

text \<open>
  What the third stage of the compiler builds refers only to what it builds: clusters, route
  configurations, and the providers and requirements of the token filter.
\<close>

section \<open>References\<close>

definition target_clusters :: "cluster_specifier \<Rightarrow> string set" where
  "target_clusters c = (case c of SingleCluster n \<Rightarrow> {n} | WeightedClusters ws \<Rightarrow> fst ` set ws)"

definition route_refs :: "envoy_route \<Rightarrow> string set" where
  "route_refs r = (case ert_target r of Some (RouteTo a) \<Rightarrow> target_clusters (ra_cluster a) | _ \<Rightarrow> {})"

definition service_target :: "auth_service \<Rightarrow> string" where
  "service_target s = (case s of GrpcService c t \<Rightarrow> c | HttpService u c t p \<Rightarrow> c)"

definition provider_refs :: "jwt_provider \<Rightarrow> string set" where
  "provider_refs p = (case jp_source p of Some (RemoteJwks u c t) \<Rightarrow> {c} | _ \<Rightarrow> {})"

definition http_filter_refs :: "http_filter \<Rightarrow> string set" where
  "http_filter_refs f = (case f of ExtAuthzFilter z \<Rightarrow> {service_target (ez_service z)} | JwtFilter ps rs \<Rightarrow> \<Union> (provider_refs ` ran ps) | _ \<Rightarrow> {})"

definition network_refs :: "network_filter \<Rightarrow> string set" where
  "network_refs f = (case f of HcmFilter h \<Rightarrow> \<Union> (http_filter_refs ` set (hcm_httpFilters h)) | TcpProxy p c \<Rightarrow> {c})"

definition listener_refs :: "listener \<Rightarrow> string set" where
  "listener_refs l = (\<Union>ch \<in> set (lis_filterChains l). \<Union> (network_refs ` set (fch_filters ch))) \<union>
     (\<Union>f \<in> set (lis_listenerFilters l). case f of UdpProxy p c \<Rightarrow> {c} | TlsInspector \<Rightarrow> {})"

definition config_refs :: "route_config \<Rightarrow> string set" where
  "config_refs rc = (\<Union>v \<in> set (rcf_virtualHosts rc). \<Union> (route_refs ` set (vhx_routes v)))"

section \<open>Loops\<close>

text \<open>What a loop leaves, given a preorder that its steps keep.\<close>

lemma build_each_nth:
  assumes "build_each f i xs s = Some (ys, es, t)"
    and step: "\<forall>j s y e t. \<forall>x \<in> set xs. f j x s = Some (y, e, t) \<longrightarrow> Q s t" and "reflp Q" and "transp Q"
  shows "length ys = length xs" "Q s t"
    "j < length xs \<Longrightarrow> \<exists>s1 e s2. f (i + j) (xs ! j) s1 = Some (ys ! j, e, s2) \<and> set e \<subseteq> set es \<and> Q s s1 \<and> Q s2 t"
proof -
  note refl = reflpD [OF assms(3)] and trans = transpD [OF assms(4)]
  have "length ys = length xs \<and> Q s t \<and>
    (\<forall>j < length xs. \<exists>s1 e s2. f (i + j) (xs ! j) s1 = Some (ys ! j, e, s2) \<and> set e \<subseteq> set es \<and> Q s s1 \<and> Q s2 t)"
    using assms(1) step
  proof (induction xs arbitrary: i s ys es)
    case Nil
    then show ?case by (simp add: refl)
  next
    case (Cons x xs)
    obtain y e s1 ys' es' where one: "f i x s = Some (y, e, s1)" and rest: "build_each f (Suc i) xs s1 = Some (ys', es', t)"
      and eq: "ys = y # ys'" "es = e @ es'" using Cons.prems(1) by (auto split: bind_splits)
    have Q: "Q s s1" using Cons.prems(2) one by simp
    have IH: "length ys' = length xs \<and> Q s1 t \<and>
      (\<forall>j < length xs. \<exists>s2 e s3. f (Suc i + j) (xs ! j) s2 = Some (ys' ! j, e, s3) \<and> set e \<subseteq> set es' \<and> Q s1 s2 \<and> Q s3 t)"
      by (rule Cons.IH [OF rest]) (use Cons.prems(2) in simp)
    show ?case
    proof (intro conjI allI impI)
      show "length ys = length (x # xs)" "Q s t" using IH Q trans by (auto simp: eq)
      fix j assume j: "j < length (x # xs)"
      show "\<exists>s1 e s2. f (i + j) ((x # xs) ! j) s1 = Some (ys ! j, e, s2) \<and> set e \<subseteq> set es \<and> Q s s1 \<and> Q s2 t"
      proof (cases j)
        case 0
        then show ?thesis using one refl IH by (auto simp: eq)
      next
        case (Suc k)
        then obtain s2 e' s3 where "f (Suc i + k) (xs ! k) s2 = Some (ys' ! k, e', s3)" "set e' \<subseteq> set es'" "Q s1 s2" "Q s3 t" using IH j by auto
        then show ?thesis using Suc trans [OF Q, of s2] by (intro exI [of _ s2] exI [of _ e'] exI [of _ s3]) (auto simp: eq)
      qed
    qed
  qed
  then show "length ys = length xs" "Q s t"
    "j < length xs \<Longrightarrow> \<exists>s1 e s2. f (i + j) (xs ! j) s1 = Some (ys ! j, e, s2) \<and> set e \<subseteq> set es \<and> Q s s1 \<and> Q s2 t" by auto
qed

section \<open>The state of the stage\<close>

definition plain_cluster :: "cluster \<Rightarrow> bool" where
  "plain_cluster c \<longleftrightarrow> \<not> clu_eds c \<and> (\<exists>a. clu_loadAssignment c = Some a \<and> cla_clusterName a = clu_name c)"

definition named :: "string \<Rightarrow> (string \<times> cluster) list \<Rightarrow> bool" where
  "named p cs \<longleftrightarrow> distinct (map fst cs) \<and> (\<forall>(n, c) \<in> set cs. clu_name c = n \<and> prefix p n \<and> plain_cluster c)"

definition requirement_provider :: "jwt_requirement \<Rightarrow> string option" where
  "requirement_provider q = (case q of AllowMissing \<Rightarrow> None | ProviderName p \<Rightarrow> Some p | ProviderAndAudiences p as \<Rightarrow> Some p)"

definition fail_key :: "bool \<Rightarrow> string \<Rightarrow> bool" where
  "fail_key b key \<longleftrightarrow> suffix (''|failOpen='' @ bool_text b) key"

definition good :: "build_lib \<Rightarrow> build_state \<Rightarrow> bool" where
  "good B s \<longleftrightarrow> named ''jwt-jwks/'' (bs_jwks s) \<and> named ''extauth/'' (bs_extAuth s) \<and>
     (\<forall>n p. bs_providers s n = Some p \<longrightarrow> provider_refs p \<subseteq> fst ` set (bs_jwks s)) \<and>
     (\<forall>n q. bs_requirements s n = Some q \<longrightarrow> set_option (requirement_provider q) \<subseteq> dom (bs_providers s)) \<and>
     (\<forall>a. bs_ext s = Some a \<longrightarrow> service_target (ez_service (xas_config a)) = extAuthClusterName B (xas_key a) \<and>
        extAuthClusterName B (xas_key a) \<in> fst ` set (bs_extAuth s) \<and> fail_key (ez_failureModeAllow (xas_config a)) (xas_key a))"

definition keeps :: "build_state \<Rightarrow> build_state \<Rightarrow> bool" where
  "keeps s t \<longleftrightarrow> fst ` set (bs_jwks s) \<subseteq> fst ` set (bs_jwks t) \<and> fst ` set (bs_extAuth s) \<subseteq> fst ` set (bs_extAuth t)"

definition grows :: "build_state \<Rightarrow> build_state \<Rightarrow> bool" where
  "grows s t \<longleftrightarrow> keeps s t \<and> bs_providers s \<subseteq>\<^sub>m bs_providers t \<and> dom (bs_requirements s) \<subseteq> dom (bs_requirements t) \<and>
     (\<forall>a. bs_ext s = Some a \<longrightarrow> bs_ext t = Some a)"

lemma keeps_refl: "keeps s s" by (simp add: keeps_def)

lemma keeps_trans: "keeps a b \<Longrightarrow> keeps b c \<Longrightarrow> keeps a c"
  unfolding keeps_def by (meson subset_trans)

lemma grows_refl: "grows s s" by (simp add: grows_def keeps_refl)

lemma grows_trans: "grows a b \<Longrightarrow> grows b c \<Longrightarrow> grows a c"
  unfolding grows_def using keeps_trans map_le_trans by (metis subset_trans)

lemma named_put: "named p cs \<Longrightarrow> prefix p (clu_name c) \<Longrightarrow> plain_cluster c \<Longrightarrow> named p (put_cluster c cs)"
  by (auto simp: named_def put_cluster_def distinct_map_filter)

lemma put_cluster_names: "fst ` set (put_cluster c cs) = insert (clu_name c) (fst ` set cs)"
  by (force simp: put_cluster_def)

lemma service_cluster_simps [simp]: "clu_name (service_cluster n ty h p tls h2) = n" "plain_cluster (service_cluster n ty h p tls h2)"
  by (simp_all add: service_cluster_def plain_cluster_def)

lemma jwksFetchCluster_cases:
  assumes "jwksFetchCluster B raw s = (x, t)"
  obtains (failed) e where "x = Inl e" "t = s" | (old) n where "x = Inr n" "t = s" "n \<in> fst ` set (bs_jwks s)"
    | (put) c where "x = Inr (clu_name c)" "t = s\<lparr>bs_jwks := put_cluster c (bs_jwks s)\<rparr>" "prefix ''jwt-jwks/'' (clu_name c)" "plain_cluster c"
proof (cases "nl_parseURL (bl_net B) raw")
  case (Inl e)
  then show ?thesis using assms failed by (auto simp: jwksFetchCluster_def)
next
  case (Inr u)
  define port where "port = (if url_port u \<noteq> [] then url_port u else if url_scheme u = ''https'' then ''443'' else ''80'')"
  define name where "name = ''jwt-jwks/'' @ url_hostname u @ '':'' @ port"
  show ?thesis
  proof (cases "url_hostname u = [] \<or> scan_int port = None \<or> (\<exists>n. scan_int port = Some n \<and> (n < 1 \<or> 65535 < n))")
    case True
    then have "\<exists>e. jwksFetchCluster B raw s = (Inl e, s)"
      using Inr by (elim disjE) (auto simp: jwksFetchCluster_def port_def [symmetric] Let_def)
    then show ?thesis using assms failed by auto
  next
    case False
    then obtain n where n: "scan_int port = Some n" "\<not> n < 1" "\<not> 65535 < n" "url_hostname u \<noteq> []" by auto
    show ?thesis
    proof (cases "name \<in> fst ` set (bs_jwks s)")
      case True
      then have "jwksFetchCluster B raw s = (Inr name, s)" using Inr n by (simp add: jwksFetchCluster_def port_def [symmetric] name_def Let_def)
      then show ?thesis using assms True old by simp
    next
      case False
      then have "\<exists>tls. jwksFetchCluster B raw s =
          (Inr name, s\<lparr>bs_jwks := put_cluster (service_cluster name STRICT_DNS (url_hostname u) n tls False) (bs_jwks s)\<rparr>)"
        using Inr n by (auto simp: jwksFetchCluster_def port_def [symmetric] name_def Let_def)
      then obtain tls where "x = Inr name" "t = s\<lparr>bs_jwks := put_cluster (service_cluster name STRICT_DNS (url_hostname u) n tls False) (bs_jwks s)\<rparr>"
        using assms by auto
      then show ?thesis by (intro put [of "service_cluster name STRICT_DNS (url_hostname u) n tls False"]) (simp_all add: name_def)
    qed
  qed
qed

lemma jwksFetchCluster_good:
  assumes "jwksFetchCluster B raw s = (x, t)"
  shows "\<exists>cs. t = s\<lparr>bs_jwks := cs\<rparr> \<and> (named ''jwt-jwks/'' (bs_jwks s) \<longrightarrow> named ''jwt-jwks/'' cs) \<and> fst ` set (bs_jwks s) \<subseteq> fst ` set cs \<and>
    (\<forall>c. x = Inr c \<longrightarrow> c \<in> fst ` set cs)"
  using assms
proof (cases rule: jwksFetchCluster_cases)
  case (put c)
  then show ?thesis by (intro exI [of _ "put_cluster c (bs_jwks s)"]) (auto simp: put_cluster_names intro: named_put)
qed (auto intro!: exI [of _ "bs_jwks s"])

lemma good_jwks: "good B s \<Longrightarrow> named ''jwt-jwks/'' cs \<Longrightarrow> fst ` set (bs_jwks s) \<subseteq> fst ` set cs \<Longrightarrow> good B (s\<lparr>bs_jwks := cs\<rparr>)"
  unfolding good_def by (simp del: image_subset_iff) (meson subset_trans)

lemma good_provider: "good B s \<Longrightarrow> provider_refs p \<subseteq> fst ` set (bs_jwks s) \<Longrightarrow> good B (s\<lparr>bs_providers := (bs_providers s)(n \<mapsto> p)\<rparr>)"
  unfolding good_def by (simp del: image_subset_iff) (meson subset_insertI2)

lemma good_requirement:
  "good B s \<Longrightarrow> set_option (requirement_provider q) \<subseteq> dom (bs_providers s) \<Longrightarrow> good B (s\<lparr>bs_requirements := (bs_requirements s)(n \<mapsto> q)\<rparr>)"
  unfolding good_def by (simp del: image_subset_iff)

lemma register_provider_good:
  assumes "register_provider B j k n s = (e, t)"
  shows "grows s t" "good B s \<Longrightarrow> good B t" "e = None \<Longrightarrow> n \<in> dom (bs_providers t)" "bs_requirements t = bs_requirements s" "bs_ext t = bs_ext s"
    "bs_extAuth t = bs_extAuth s"
proof -
  consider (old) "bs_providers s n \<noteq> None" "t = s" "e = None"
    | (err) cs where "bs_providers s n = None" "e \<noteq> None" "t = s\<lparr>bs_jwks := cs\<rparr>" "named ''jwt-jwks/'' (bs_jwks s) \<longrightarrow> named ''jwt-jwks/'' cs" "fst ` set (bs_jwks s) \<subseteq> fst ` set cs"
    | (new) cs p where "bs_providers s n = None" "e = None" "t = s\<lparr>bs_jwks := cs, bs_providers := (bs_providers s)(n \<mapsto> p)\<rparr>"
        "named ''jwt-jwks/'' (bs_jwks s) \<longrightarrow> named ''jwt-jwks/'' cs" "fst ` set (bs_jwks s) \<subseteq> fst ` set cs" "provider_refs p \<subseteq> fst ` set cs"
  proof (cases "bs_providers s n")
    case (Some p)
    then show ?thesis using assms by (intro old) (auto simp: register_provider_def)
  next
    case None
    show ?thesis
    proof (cases "jwks_uri k = []")
      case True
      then show ?thesis using assms None
        by (cases "jwks_file k = []"; intro new [where cs = "bs_jwks s"]) (auto simp: register_provider_def buildJWTProvider_def provider_refs_def Let_def)
    next
      case False
      obtain x u where f: "jwksFetchCluster B (jwks_uri k) s = (x, u)" by fastforce
      from jwksFetchCluster_good [OF this] obtain cs where cs: "u = s\<lparr>bs_jwks := cs\<rparr>" "named ''jwt-jwks/'' (bs_jwks s) \<longrightarrow> named ''jwt-jwks/'' cs" "fst ` set (bs_jwks s) \<subseteq> fst ` set cs"
        "\<forall>c. x = Inr c \<longrightarrow> c \<in> fst ` set cs" by auto
      show ?thesis
      proof (cases x)
        case (Inl m)
        then show ?thesis using assms None False f cs by (intro err [where cs = cs]) (auto simp: register_provider_def buildJWTProvider_def Let_def)
      next
        case (Inr c)
        then show ?thesis using assms None False f cs
          by (intro new [where cs = cs]) (auto simp: register_provider_def buildJWTProvider_def provider_refs_def Let_def intro: rev_image_eqI)
      qed
    qed
  qed
  note cases = this
  show "grows s t" using cases by cases (auto simp: grows_def keeps_def map_le_def)
  show "good B t" if "good B s" using cases
  proof cases
    case (err cs)
    then show ?thesis using that good_jwks by (auto simp: good_def)
  next
    case (new cs p)
    then have "good B (s\<lparr>bs_jwks := cs\<rparr>)" using that good_jwks by (auto simp: good_def)
    from good_provider [OF this, of p n] new show ?thesis by simp
  qed (use that in simp)
  show "n \<in> dom (bs_providers t)" if "e = None" using cases that by cases auto
  show "bs_requirements t = bs_requirements s" "bs_ext t = bs_ext s" "bs_extAuth t = bs_extAuth s" using cases by (cases; simp)+
qed

lemma registerJWT_good:
  assumes "registerJWT B j s = (x, t)"
  shows "grows s t" "good B s \<Longrightarrow> good B t" "x = Inr rn \<Longrightarrow> rn \<in> dom (bs_requirements t)" "bs_ext t = bs_ext s"
proof -
  define k n where "k = the (jwt_jwks j)" and "n = jwtProviderName B (jwtProviderKey j)"
  obtain e u where reg: "register_provider B j k n s = (e, u)" by fastforce
  note u = register_provider_good [OF reg]
  consider (optional) "x = Inr jwtAllowMissingRequirement" "t = s\<lparr>bs_requirements := (bs_requirements s)(jwtAllowMissingRequirement \<mapsto> AllowMissing)\<rparr>"
    | (missing) m where "x = Inl m" "t = s" | (failed) m where "x = Inl m" "t = u"
    | (made) q m where "x = Inr m" "e = None" "requirement_provider q = Some n" "t = u\<lparr>bs_requirements := (bs_requirements u)(m \<mapsto> q)\<rparr>"
  proof (cases "jwt_optional j")
    case True
    then show ?thesis using assms by (intro optional) (auto simp: registerJWT_def)
  next
    case False
    show ?thesis
    proof (cases "jwt_jwks j")
      case None
      then show ?thesis using assms False missing by (auto simp: registerJWT_def)
    next
      case (Some k')
      then have k: "k' = k" by (simp add: k_def)
      show ?thesis
      proof (cases e)
        case (Some m)
        then show ?thesis using assms False reg failed \<open>jwt_jwks j = Some k'\<close> by (auto simp: registerJWT_def k n_def [symmetric])
      next
        case None
        then show ?thesis using assms False reg \<open>jwt_jwks j = Some k'\<close>
          by (intro made) (auto simp: registerJWT_def k n_def [symmetric] Let_def requirement_provider_def)
      qed
    qed
  qed
  note cases = this
  show "grows s t" using cases
  proof cases
    case (made q m)
    then have "grows u t" by (auto simp: grows_def keeps_def)
    then show ?thesis using u(1) grows_trans by blast
  qed (use u(1) in \<open>auto simp: grows_def keeps_def\<close>)
  show "good B t" if "good B s" using cases
  proof cases
    case optional
    then show ?thesis using good_requirement [OF that, of AllowMissing] by (simp add: requirement_provider_def)
  next
    case (made q m)
    then show ?thesis using good_requirement [OF u(2) [OF that], of q m] u(3) by auto
  qed (use that u(2) in auto)
  show "rn \<in> dom (bs_requirements t)" if "x = Inr rn" using cases that by cases auto
  show "bs_ext t = bs_ext s" using cases u(5) by cases auto
qed

lemma fail_key_unique: "fail_key a key \<Longrightarrow> fail_key b key \<Longrightarrow> a = b"
  by (cases a; cases b) (auto simp: fail_key_def bool_text_def suffix_def dest: arg_cong [of _ _ rev])

lemma provider_fail_key: "extAuthProviderKey B p = Inr key \<Longrightarrow> fail_key (xa_failOpen p) key"
  by (auto simp: extAuthProviderKey_def fail_key_def suffix_def bind_sum_def split: sum.splits)

lemma buildExtAuthProvider_good:
  assumes "buildExtAuthProvider B p key s = (x, t)"
  obtains e where "x = Inl e" "t = s"
    | c z where "x = Inr (z, extAuthClusterName B key)" "t = s\<lparr>bs_extAuth := put_cluster c (bs_extAuth s)\<rparr>" "clu_name c = extAuthClusterName B key"
        "plain_cluster c" "service_target (ez_service z) = extAuthClusterName B key" "ez_failureModeAllow z = xa_failOpen p"
proof -
  have cluster: "clu_name c = n \<and> plain_cluster c" if "buildExtAuthCluster B n a h b = Inr c" for n a h b c
    using that by (auto simp: buildExtAuthCluster_def split: sum.splits prod.splits option.splits)
  show ?thesis
    using assms that cluster unfolding buildExtAuthProvider_def Let_def
    by (auto simp: bind_sum_def service_target_def split: sum.splits option.splits prod.splits)
qed

lemma good_extAuth:
  assumes "good B s" and "clu_name c = extAuthClusterName B key" "plain_cluster c"
    "service_target (ez_service z) = extAuthClusterName B key" "fail_key (ez_failureModeAllow z) key" and "bs_ext s = None"
  shows "good B (s\<lparr>bs_extAuth := put_cluster c (bs_extAuth s), bs_ext := Some \<lparr>xas_key = key, xas_config = z, xas_cluster = n\<rparr>\<rparr>)"
  using assms named_put [of "''extauth/''" "bs_extAuth s" c] unfolding good_def
  by (simp add: put_cluster_names extAuthClusterName_def)

lemma registerExtAuth_good:
  assumes "registerExtAuth B pol s = (e, t)"
  shows "grows s t" "good B s \<Longrightarrow> good B t"
    "e = None \<Longrightarrow> pol = Some p \<Longrightarrow> \<not> xa_disabled p \<Longrightarrow> \<exists>a. extAuthProviderKey B p = Inr (xas_key a) \<and> bs_ext t = Some a"
    "bs_ext t \<noteq> None \<Longrightarrow> bs_ext s \<noteq> None \<or> (\<exists>p. pol = Some p \<and> \<not> xa_disabled p)"
proof -
  consider (none) "pol = None \<or> (\<exists>p. pol = Some p \<and> xa_disabled p)" "e = None" "t = s"
    | (failed) "e \<noteq> None" "t = s"
    | (same) q a where "pol = Some q" "\<not> xa_disabled q" "extAuthProviderKey B q = Inr (xas_key a)" "bs_ext s = Some a" "t = s"
    | (new) q key c z where "pol = Some q" "\<not> xa_disabled q" "extAuthProviderKey B q = Inr key" "bs_ext s = None"
        "t = s\<lparr>bs_extAuth := put_cluster c (bs_extAuth s), bs_ext := Some \<lparr>xas_key = key, xas_config = z, xas_cluster = extAuthClusterName B key\<rparr>\<rparr>"
        "clu_name c = extAuthClusterName B key" "plain_cluster c" "service_target (ez_service z) = extAuthClusterName B key"
        "ez_failureModeAllow z = xa_failOpen q"
  proof (cases "\<exists>q. pol = Some q \<and> \<not> xa_disabled q")
    case False
    then show ?thesis using assms by (intro none) (auto simp: registerExtAuth_def split: option.splits)
  next
    case True
    then obtain q where q: "pol = Some q" "\<not> xa_disabled q" by auto
    show ?thesis
    proof (cases "extAuthProviderKey B q")
      case (Inl m)
      then show ?thesis using assms q by (intro failed) (auto simp: registerExtAuth_def)
    next
      case (Inr key)
      show ?thesis
      proof (cases "bs_ext s")
        case (Some a)
        have "registerExtAuth B pol s = (if xas_key a \<noteq> key then Some ''extAuth provider conflicts with another effective policy on this listener'' else None, s)"
          by (simp add: registerExtAuth_def q Inr Some)
        then have et: "e = (if xas_key a \<noteq> key then Some ''extAuth provider conflicts with another effective policy on this listener'' else None)" "t = s"
          using assms by simp_all
        show ?thesis
        proof (cases "xas_key a = key")
          case True
          then show ?thesis using et q Inr Some by (intro same [of q a]) simp_all
        next
          case False
          then show ?thesis using et by (intro failed) simp_all
        qed
      next
        case None
        obtain x u where b: "buildExtAuthProvider B q key s = (x, u)" by fastforce
        then show ?thesis
        proof (cases rule: buildExtAuthProvider_good)
          case (1 m)
          then show ?thesis using assms q Inr None b by (intro failed) (auto simp: registerExtAuth_def)
        next
          case (2 c z)
          then show ?thesis using assms q Inr None b by (intro new [where q = q and key = key and c = c and z = z]) (auto simp: registerExtAuth_def)
        qed
      qed
    qed
  qed
  note cases = this
  show "grows s t" using cases by cases (auto simp: grows_def keeps_def put_cluster_names)
  show "good B t" if "good B s" using cases
  proof cases
    case (new q key c z)
    then show ?thesis using good_extAuth [OF that] provider_fail_key by simp
  qed (use that in auto)
  show "\<exists>a. extAuthProviderKey B p = Inr (xas_key a) \<and> bs_ext t = Some a" if "e = None" "pol = Some p" "\<not> xa_disabled p" using cases that by cases auto
  show "bs_ext s \<noteq> None \<or> (\<exists>p. pol = Some p \<and> \<not> xa_disabled p)" if "bs_ext t \<noteq> None" using cases that by cases auto
qed

definition ext_mark :: "ExtAuthPolicy option \<Rightarrow> per_route option" where
  "ext_mark p = map_option (\<lambda>x. if xa_disabled x then ExtAuthzDisabled else ExtAuthzCheck) p"

lemma typedPerFilterConfig_good:
  assumes "typedPerFilterConfig B eff r idx s = Some (m, es, t)"
  shows "grows s t" "good B s \<Longrightarrow> good B t" "bs_ext t = bs_ext s" "m extAuthzFilterName = ext_mark (eff_extAuth eff)"
    "m jwtAuthnFilterName = Some c \<Longrightarrow> \<exists>rn. c = JwtPerRoute rn \<and> rn \<in> dom (bs_requirements t)"
    "es = [] \<Longrightarrow> eff_jwt eff \<noteq> None \<Longrightarrow> m jwtAuthnFilterName \<noteq> None"
    "m rbacFilterName = Option.bind (eff_ipAccess eff) (\<lambda>ip. map_option RbacPerRoute (buildIPAccess B ip))"
    "m corsFilterName = map_option (CorsPerRoute \<circ> buildCorsPolicy) (eff_cors eff)"
    "m localRateLimitFilterName = map_option (RateLimitPerRoute \<circ> buildLocalRateLimit) (eff_rateLimit eff)"
proof -
  let ?m0 = "case eff_cors eff of None \<Rightarrow> Map.empty | Some c \<Rightarrow> Map.empty(corsFilterName \<mapsto> CorsPerRoute (buildCorsPolicy c))"
  let ?limit = "\<lambda>m :: string \<rightharpoonup> per_route. case eff_rateLimit eff of None \<Rightarrow> m | Some l \<Rightarrow> m(localRateLimitFilterName \<mapsto> RateLimitPerRoute (buildLocalRateLimit l))"
  let ?ext = "\<lambda>m :: string \<rightharpoonup> per_route. case eff_extAuth eff of None \<Rightarrow> m | Some x \<Rightarrow> m(extAuthzFilterName \<mapsto> (if xa_disabled x then ExtAuthzDisabled else ExtAuthzCheck))"
  obtain m1 where m1: "(case eff_ipAccess eff of None \<Rightarrow> Some ?m0 | Some ip \<Rightarrow> map_option (\<lambda>p. ?m0(rbacFilterName \<mapsto> RbacPerRoute p)) (buildIPAccess B ip)) = Some m1"
    using assms by (auto simp: typedPerFilterConfig_def Let_def split: bind_splits)
  let ?m2 = "?limit m1"
  have m2: "?m2 extAuthzFilterName = None" "?m2 jwtAuthnFilterName = None"
    "?m2 rbacFilterName = Option.bind (eff_ipAccess eff) (\<lambda>ip. map_option RbacPerRoute (buildIPAccess B ip))"
    "?m2 corsFilterName = map_option (CorsPerRoute \<circ> buildCorsPolicy) (eff_cors eff)"
    "?m2 localRateLimitFilterName = map_option (RateLimitPerRoute \<circ> buildLocalRateLimit) (eff_rateLimit eff)"
    using m1 by (auto simp: filter_names split: option.splits)
  consider (nojwt) "eff_jwt eff = None" "m = ?ext ?m2" "t = s"
    | (err) j e where "eff_jwt eff = Some j" "registerJWT B j s = (Inl e, t)" "m = ?ext ?m2" "es \<noteq> []"
    | (jwt) j rn where "eff_jwt eff = Some j" "registerJWT B j s = (Inr rn, t)" "m = ?ext (?m2(jwtAuthnFilterName \<mapsto> JwtPerRoute rn))"
    using assms m1 unfolding typedPerFilterConfig_def Let_def by (auto split: option.splits prod.splits sum.splits)
  note cases = this
  show "grows s t" using cases by cases (auto simp: grows_refl dest: registerJWT_good(1))
  show "good B t" if "good B s" using cases that by cases (auto dest: registerJWT_good(2))
  show "bs_ext t = bs_ext s" using cases by cases (auto dest: registerJWT_good(4))
  show "m extAuthzFilterName = ext_mark (eff_extAuth eff)" using cases m2(1) by cases (auto simp: ext_mark_def filter_names split: option.splits)
  show "\<exists>rn. c = JwtPerRoute rn \<and> rn \<in> dom (bs_requirements t)" if "m jwtAuthnFilterName = Some c"
    using cases
  proof cases
    case (jwt j rn)
    then show ?thesis using that registerJWT_good(3) [OF jwt(2), of rn] by (auto simp: filter_names split: option.splits)
  qed (use that m2(2) in \<open>auto simp: filter_names split: option.splits\<close>)
  show "m jwtAuthnFilterName \<noteq> None" if "es = []" "eff_jwt eff \<noteq> None" using cases that by cases (auto simp: filter_names split: option.splits)
  show "m rbacFilterName = Option.bind (eff_ipAccess eff) (\<lambda>ip. map_option RbacPerRoute (buildIPAccess B ip))"
    "m corsFilterName = map_option (CorsPerRoute \<circ> buildCorsPolicy) (eff_cors eff)"
    "m localRateLimitFilterName = map_option (RateLimitPerRoute \<circ> buildLocalRateLimit) (eff_rateLimit eff)"
    using cases m2(3-5) by (cases; auto simp: filter_names split: option.splits)+
qed

section \<open>Routes\<close>

definition rule_policy :: "ConfigSet \<Rightarrow> linked \<Rightarrow> Listener \<Rightarrow> Route \<Rightarrow> Rule \<Rightarrow> effectivePolicies" where
  "rule_policy cs lk l r rule = normalizePolicies lk (rule_levels (the (cfg_gateway cs)) l r rule)"

lemma route_clusters_refs: "target_clusters (route_clusters rule) \<subseteq> (\<lambda>b. clusterResourceName (bk_upstream b)) ` set (rule_backends rule)"
  by (auto simp: route_clusters_def target_clusters_def image_image split: list.split option.split)

lemma rule_target_refs:
  assumes "rule_target lk r idx rule = Some (Some (RouteTo a), es)"
  shows "target_clusters (ra_cluster a) \<subseteq> (\<lambda>b. clusterResourceName (bk_upstream b)) ` set (rule_backends rule)"
proof -
  have "ra_cluster a = route_clusters rule"
    using assms by (auto simp: rule_target_def buildRouteAction_def buildRedirectAction_def buildDirectResponseAction_def Let_def
      split: if_splits option.splits sum.splits bind_splits)
  then show ?thesis using route_clusters_refs by simp
qed

lemma applyHeaderModifier_keeps [simp]: "ert_target (applyHeaderModifier hm x) = ert_target x" "ert_match (applyHeaderModifier hm x) = ert_match x"
  by (simp_all add: applyHeaderModifier_def Let_def split: option.split)

lemma buildRule_parts:
  assumes "buildRule B cs lk l r idx rule s = Some (y, es, t)"
  obtains target es0 e1 s1 m es3 where "rule_target lk r idx rule = Some (target, es0)"
    "registerExtAuth B (eff_extAuth (rule_policy cs lk l r rule)) s = (e1, s1)"
    "typedPerFilterConfig B (rule_policy cs lk l r rule) r idx s1 = Some (m, es3, t)" "ert_target y = target" "ert_perFilter y = m"
    "ert_match y = buildRouteMatch (rule_match rule)" "set es0 \<subseteq> set es" "e1 \<noteq> None \<longrightarrow> es \<noteq> []" "set es3 \<subseteq> set es"
proof -
  obtain target es0 where target: "rule_target lk r idx rule = Some (target, es0)" using assms by (auto simp: buildRule_def split: bind_splits)
  obtain g where g: "cfg_gateway cs = Some g" using assms by (auto simp: buildRule_def split: bind_splits)
  then have eff: "rule_policy cs lk l r rule = normalizePolicies lk (rule_levels g l r rule)" by (simp add: rule_policy_def)
  obtain e1 s1 where ext: "registerExtAuth B (eff_extAuth (rule_policy cs lk l r rule)) s = (e1, s1)" by fastforce
  obtain m es3 u where tpc: "typedPerFilterConfig B (rule_policy cs lk l r rule) r idx s1 = Some (m, es3, u)"
    using assms ext by (auto simp: buildRule_def target g eff Let_def split: bind_splits)
  show thesis
  proof (rule that [OF target ext])
    show "typedPerFilterConfig B (rule_policy cs lk l r rule) r idx s1 = Some (m, es3, t)" "ert_target y = target" "ert_perFilter y = m"
      "ert_match y = buildRouteMatch (rule_match rule)" "set es0 \<subseteq> set es" "e1 \<noteq> None \<longrightarrow> es \<noteq> []" "set es3 \<subseteq> set es"
      using assms ext tpc by (auto simp: buildRule_def target g eff Let_def)
  qed
qed

lemma buildRule_good:
  assumes "buildRule B cs lk l r idx rule s = Some (y, es, t)"
  shows "grows s t" "good B s \<Longrightarrow> good B t" "route_refs y \<subseteq> (\<lambda>b. clusterResourceName (bk_upstream b)) ` set (rule_backends rule)"
    "ert_perFilter y extAuthzFilterName = ext_mark (eff_extAuth (rule_policy cs lk l r rule))"
    "es = [] \<Longrightarrow> eff_extAuth (rule_policy cs lk l r rule) = Some p \<Longrightarrow> \<not> xa_disabled p \<Longrightarrow> \<exists>a. extAuthProviderKey B p = Inr (xas_key a) \<and> bs_ext t = Some a"
    "bs_ext t \<noteq> None \<Longrightarrow> bs_ext s \<noteq> None \<or> (\<exists>p. eff_extAuth (rule_policy cs lk l r rule) = Some p \<and> \<not> xa_disabled p)"
    "ert_perFilter y jwtAuthnFilterName = Some c \<Longrightarrow> \<exists>rn. c = JwtPerRoute rn \<and> rn \<in> dom (bs_requirements t)"
    "es = [] \<Longrightarrow> eff_jwt (rule_policy cs lk l r rule) \<noteq> None \<Longrightarrow> ert_perFilter y jwtAuthnFilterName \<noteq> None"
    "ert_perFilter y rbacFilterName = Option.bind (eff_ipAccess (rule_policy cs lk l r rule)) (\<lambda>ip. map_option RbacPerRoute (buildIPAccess B ip))"
proof -
  from assms obtain target es0 e1 s1 m es3 where parts: "rule_target lk r idx rule = Some (target, es0)"
    "registerExtAuth B (eff_extAuth (rule_policy cs lk l r rule)) s = (e1, s1)"
    "typedPerFilterConfig B (rule_policy cs lk l r rule) r idx s1 = Some (m, es3, t)" "ert_target y = target" "ert_perFilter y = m"
    "e1 \<noteq> None \<longrightarrow> es \<noteq> []" "set es3 \<subseteq> set es" by (rule buildRule_parts)
  note ext = registerExtAuth_good [OF parts(2)] and tpc = typedPerFilterConfig_good [OF parts(3)]
  show "grows s t" using ext(1) tpc(1) by (rule grows_trans)
  show "good B t" if "good B s" using ext(2) tpc(2) that by blast
  show "route_refs y \<subseteq> (\<lambda>b. clusterResourceName (bk_upstream b)) ` set (rule_backends rule)"
    using rule_target_refs [of lk r idx rule _ es0] parts(1,4) unfolding route_refs_def by (simp split: option.split route_target.split)
  show "ert_perFilter y extAuthzFilterName = ext_mark (eff_extAuth (rule_policy cs lk l r rule))" using tpc(4) parts(5) by simp
  show "\<exists>a. extAuthProviderKey B p = Inr (xas_key a) \<and> bs_ext t = Some a"
    if "es = []" "eff_extAuth (rule_policy cs lk l r rule) = Some p" "\<not> xa_disabled p" using ext(3) tpc(3) parts(6) that by metis
  show "bs_ext s \<noteq> None \<or> (\<exists>p. eff_extAuth (rule_policy cs lk l r rule) = Some p \<and> \<not> xa_disabled p)" if "bs_ext t \<noteq> None" using ext(4) tpc(3) that by metis
  show "\<exists>rn. c = JwtPerRoute rn \<and> rn \<in> dom (bs_requirements t)" if "ert_perFilter y jwtAuthnFilterName = Some c" using tpc(5) parts(5) that by simp
  show "ert_perFilter y jwtAuthnFilterName \<noteq> None" if "es = []" "eff_jwt (rule_policy cs lk l r rule) \<noteq> None" using tpc(6) parts(5,7) that by simp
  show "ert_perFilter y rbacFilterName = Option.bind (eff_ipAccess (rule_policy cs lk l r rule)) (\<lambda>ip. map_option RbacPerRoute (buildIPAccess B ip))"
    using tpc(7) parts(5) by simp
qed

section \<open>Listeners\<close>

definition advances :: "build_lib \<Rightarrow> build_state \<Rightarrow> build_state \<Rightarrow> bool" where
  "advances B s t \<longleftrightarrow> grows s t \<and> (good B s \<longrightarrow> good B t)"

lemma advances_refl: "reflp (advances B)" by (simp add: reflp_def advances_def grows_refl)

lemma advances_trans: "transp (advances B)"
  unfolding transp_def advances_def using grows_trans by blast

lemma buildVirtualHost_rules:
  assumes "buildVirtualHost B cs lk l r s = Some (v, es, t)"
  shows "advances B s t" "vhx_name v = virtualHostName (po_name r)" "vhx_domains v = routeDomains r" "length (vhx_routes v) = length (rts_rules (po_spec r))"
    "i < length (rts_rules (po_spec r)) \<Longrightarrow>
       \<exists>s1 e s2. buildRule B cs lk l r i (rts_rules (po_spec r) ! i) s1 = Some (vhx_routes v ! i, e, s2) \<and> set e \<subseteq> set es \<and> advances B s s1 \<and> advances B s2 t"
proof -
  obtain ys where ys: "build_each (buildRule B cs lk l r) 0 (rts_rules (po_spec r)) s = Some (ys, es, t)"
    and v: "v = \<lparr>vhx_name = virtualHostName (po_name r), vhx_domains = routeDomains r, vhx_routes = ys\<rparr>"
    using assms by (auto simp: buildVirtualHost_def split: bind_splits)
  have "\<forall>j s y e t. \<forall>x \<in> set (rts_rules (po_spec r)). buildRule B cs lk l r j x s = Some (y, e, t) \<longrightarrow> advances B s t"
    using buildRule_good(1,2) by (fastforce simp: advances_def)
  note each = build_each_nth [OF ys this advances_refl advances_trans]
  show "advances B s t" by (rule each(2))
  show "vhx_name v = virtualHostName (po_name r)" "vhx_domains v = routeDomains r" "length (vhx_routes v) = length (rts_rules (po_spec r))"
    using each(1) by (simp_all add: v)
  show "\<exists>s1 e s2. buildRule B cs lk l r i (rts_rules (po_spec r) ! i) s1 = Some (vhx_routes v ! i, e, s2) \<and> set e \<subseteq> set es \<and> advances B s s1 \<and> advances B s2 t"
    if "i < length (rts_rules (po_spec r))" using each(3) [OF that] by (simp add: v)
qed

lemma https_chains_filters: "https_chains B l t h i cs claimed = (chs, es) \<Longrightarrow> ch \<in> set chs \<Longrightarrow> fch_filters ch = [HcmFilter h]"
proof (induction cs arbitrary: i claimed chs es)
  case (Cons c cs)
  obtain chs' es' where rest: "https_chains B l t h (Suc i) cs claimed = (chs', es')" by fastforce
  show ?case
  proof (cases "\<exists>names. bl_serverNames B (crt_certFile c) = Inr names \<and> names \<noteq> []")
    case False
    then have "chs = chs'" using Cons.prems(1) rest by (auto simp: Let_def split: sum.splits list.splits)
    then show ?thesis using Cons.IH [OF rest] Cons.prems(2) by simp
  next
    case True
    then obtain n ns where names: "bl_serverNames B (crt_certFile c) = Inr (n # ns)" by (auto simp: neq_Nil_conv)
    obtain cl e1 where cl: "claim_names l i (n # ns) claimed = (cl, e1)" by fastforce
    obtain chs'' es'' where rest': "https_chains B l t h (Suc i) cs cl = (chs'', es'')" by fastforce
    have "chs = \<lparr>fch_serverNames = n # ns, fch_transportProtocol = [], fch_tls = Some (downstreamTLSSocket t c), fch_filters = [HcmFilter h]\<rparr> # chs''"
      using Cons.prems(1) by (simp add: names cl rest' Let_def del: claim_names.simps)
    then show ?thesis using Cons.IH [OF rest'] Cons.prems(2) by auto
  qed
qed simp

lemma buildHTTPListener_parts:
  assumes "buildHTTPListener B cs lk l s = Some (Some (lis, rc), es, t)"
  obtains vs es1 h where "build_each (\<lambda>_. buildVirtualHost B cs lk l) 0 (httpRoutesFor cs (po_name l)) (new_assembly s) = Some (vs, es1, t)" "set es1 \<subseteq> set es"
    "buildHCM cs l t = Some h" "rc = Some (finalizeExtAuthRoutes (bs_ext t \<noteq> None) \<lparr>rcf_name = routeConfigName (po_name l), rcf_virtualHosts = vs\<rparr>)"
    "lis_name lis = listenerResourceName (po_name l)" "\<forall>ch \<in> set (lis_filterChains lis). fch_filters ch = [HcmFilter h]" "lis_filterChains lis \<noteq> []"
    "set (lis_listenerFilters lis) \<subseteq> {TlsInspector}"
proof -
  obtain vs es1 u where vs: "build_each (\<lambda>_. buildVirtualHost B cs lk l) 0 (httpRoutesFor cs (po_name l)) (new_assembly s) = Some (vs, es1, u)"
    using assms by (auto simp: buildHTTPListener_def split: bind_splits)
  obtain h where h: "buildHCM cs l u = Some h" using assms by (auto simp: buildHTTPListener_def vs Let_def split: bind_splits)
  obtain chs es2 where chs: "(if lsn_protocol (po_spec l) = ''HTTPS'' then buildHTTPSFilterChains B l h
        else Some ([\<lparr>fch_serverNames = [], fch_transportProtocol = [], fch_tls = None, fch_filters = [HcmFilter h]\<rparr>], [])) = Some (chs, es2)"
    using assms by (auto simp: buildHTTPListener_def vs h Let_def split: bind_splits)
  have filters: "\<forall>ch \<in> set chs. fch_filters ch = [HcmFilter h]"
    using chs https_chains_filters by (auto simp: buildHTTPSFilterChains_def split: if_splits)
  have "u = t" "chs \<noteq> []" and es: "es = es1 @ es2" and rc: "rc = Some (finalizeExtAuthRoutes (bs_ext t \<noteq> None) \<lparr>rcf_name = routeConfigName (po_name l), rcf_virtualHosts = vs\<rparr>)"
    and lis: "lis = \<lparr>lis_name = listenerResourceName (po_name l), lis_address = lsn_address (po_spec l), lis_port = uint32 (lsn_port (po_spec l)),
         lis_udp = False, lis_filterChains = chs,
         lis_listenerFilters = (if lsn_protocol (po_spec l) = ''HTTPS'' then [TlsInspector] else [])\<rparr>"
    using assms by (auto simp: buildHTTPListener_def vs h chs Let_def simp del: not_None_eq split: if_split_asm)
  then show thesis using that [OF vs [unfolded \<open>u = t\<close>] _ h [unfolded \<open>u = t\<close>] rc] filters by (auto simp: es lis)
qed

text \<open>Each virtual host of a listener with the route it is built from.\<close>

lemma buildHTTPListener_hosts:
  assumes built: "buildHTTPListener B cs lk l s = Some (Some (lis, Some rc), es, t)"
  shows "advances B (new_assembly s) t" "rcf_name rc = routeConfigName (po_name l)"
    "length (rcf_virtualHosts rc) = length (httpRoutesFor cs (po_name l))"
    "j < length (httpRoutesFor cs (po_name l)) \<Longrightarrow> r = httpRoutesFor cs (po_name l) ! j \<Longrightarrow> v = rcf_virtualHosts rc ! j \<Longrightarrow>
       vhx_name v = virtualHostName (po_name r) \<and> vhx_domains v = routeDomains r \<and> length (vhx_routes v) = length (rts_rules (po_spec r)) \<and>
       (\<forall>i < length (rts_rules (po_spec r)). \<exists>y s1 e s2. buildRule B cs lk l r i (rts_rules (po_spec r) ! i) s1 = Some (y, e, s2) \<and>
          vhx_routes v ! i = finalize_route (bs_ext t \<noteq> None) y \<and> set e \<subseteq> set es \<and> advances B s2 t)"
proof -
  from built obtain vs es1 h where each: "build_each (\<lambda>_. buildVirtualHost B cs lk l) 0 (httpRoutesFor cs (po_name l)) (new_assembly s) = Some (vs, es1, t)"
    "set es1 \<subseteq> set es" and "Some rc = Some (finalizeExtAuthRoutes (bs_ext t \<noteq> None) \<lparr>rcf_name = routeConfigName (po_name l), rcf_virtualHosts = vs\<rparr>)"
    by (rule buildHTTPListener_parts)
  then have rc: "rcf_virtualHosts rc = map (\<lambda>v. v\<lparr>vhx_routes := map (finalize_route (bs_ext t \<noteq> None)) (vhx_routes v)\<rparr>) vs" "rcf_name rc = routeConfigName (po_name l)"
    by (simp_all add: finalizeExtAuthRoutes_def)
  have "\<forall>(j::nat) s y e t. \<forall>x \<in> set (httpRoutesFor cs (po_name l)). buildVirtualHost B cs lk l x s = Some (y, e, t) \<longrightarrow> advances B s t"
    using buildVirtualHost_rules(1) by blast
  note vs = build_each_nth [OF each(1) this advances_refl advances_trans]
  show "advances B (new_assembly s) t" by (rule vs(2))
  show "rcf_name rc = routeConfigName (po_name l)" by (rule rc(2))
  show "length (rcf_virtualHosts rc) = length (httpRoutesFor cs (po_name l))" using vs(1) by (simp add: rc(1))
  assume j: "j < length (httpRoutesFor cs (po_name l))" and r: "r = httpRoutesFor cs (po_name l) ! j" and v: "v = rcf_virtualHosts rc ! j"
  then obtain a e b where one: "buildVirtualHost B cs lk l r a = Some (vs ! j, e, b)" and e: "set e \<subseteq> set es1" and b: "advances B b t"
    using vs(3) [OF j] by auto
  note host = buildVirtualHost_rules [OF one]
  have vj: "v = (vs ! j)\<lparr>vhx_routes := map (finalize_route (bs_ext t \<noteq> None)) (vhx_routes (vs ! j))\<rparr>" using j vs(1) by (simp add: v rc(1))
  have rules: "\<exists>y s1 e s2. buildRule B cs lk l r i (rts_rules (po_spec r) ! i) s1 = Some (y, e, s2) \<and>
      vhx_routes v ! i = finalize_route (bs_ext t \<noteq> None) y \<and> set e \<subseteq> set es \<and> advances B s2 t" if i: "i < length (rts_rules (po_spec r))" for i
  proof -
    from host(5) [OF i] obtain s1 f s2 where "buildRule B cs lk l r i (rts_rules (po_spec r) ! i) s1 = Some (vhx_routes (vs ! j) ! i, f, s2)"
      "set f \<subseteq> set e" "advances B s2 b" by blast
    moreover have "vhx_routes v ! i = finalize_route (bs_ext t \<noteq> None) (vhx_routes (vs ! j) ! i)" using i host(4) by (simp add: vj)
    ultimately show ?thesis using transpD [OF advances_trans _ b] e each(2) by blast
  qed
  show "vhx_name v = virtualHostName (po_name r) \<and> vhx_domains v = routeDomains r \<and> length (vhx_routes v) = length (rts_rules (po_spec r)) \<and>
       (\<forall>i < length (rts_rules (po_spec r)). \<exists>y s1 e s2. buildRule B cs lk l r i (rts_rules (po_spec r) ! i) s1 = Some (y, e, s2) \<and>
          vhx_routes v ! i = finalize_route (bs_ext t \<noteq> None) y \<and> set e \<subseteq> set es \<and> advances B s2 t)"
    using host(2-4) rules by (simp add: vj)
qed

definition listener_hcms :: "listener \<Rightarrow> hcm set" where
  "listener_hcms l = {h. \<exists>ch \<in> set (lis_filterChains l). HcmFilter h \<in> set (fch_filters ch)}"

lemma buildHCM_simps:
  assumes "buildHCM cs l s = Some h"
  shows "hcm_routes h = Rds (routeConfigName (po_name l))" "hcm_httpFilters h = httpFilters s"
  using assms by (auto simp: buildHCM_def split: bind_splits)

text \<open>An external authorization that is in effect is enforced, by the service the policy names, and the
  other rules of the listener are exempt.\<close>

lemma ext_auth_marks:
  assumes built: "buildHTTPListener B cs lk l s = Some (Some (lis, Some rc), [], t)" and "good B (new_assembly s)"
    and j: "j < length (httpRoutesFor cs (po_name l))" and r: "r = httpRoutesFor cs (po_name l) ! j" and i: "i < length (rts_rules (po_spec r))"
    and p: "p = eff_extAuth (rule_policy cs lk l r (rts_rules (po_spec r) ! i))" and y: "y = vhx_routes (rcf_virtualHosts rc ! j) ! i"
  shows "(\<exists>x. p = Some x \<and> \<not> xa_disabled x) \<Longrightarrow> ert_perFilter y extAuthzFilterName = Some ExtAuthzCheck"
    "\<not> (\<exists>x. p = Some x \<and> \<not> xa_disabled x) \<Longrightarrow> ert_perFilter y extAuthzFilterName = (if bs_ext t = None then None else Some ExtAuthzDisabled)"
    "p = Some x \<Longrightarrow> \<not> xa_disabled x \<Longrightarrow> \<exists>key z. extAuthProviderKey B x = Inr key \<and> bs_ext t \<noteq> None \<and> xas_config (the (bs_ext t)) = z \<and>
       service_target (ez_service z) = extAuthClusterName B key \<and> ez_failureModeAllow z = xa_failOpen x \<and> key = xas_key (the (bs_ext t))"
proof -
  note hosts = buildHTTPListener_hosts [OF built]
  have good: "good B t" using hosts(1) assms(2) by (simp add: advances_def)
  from hosts(4) [OF j r refl] i obtain y0 s1 s2 where rule: "buildRule B cs lk l r i (rts_rules (po_spec r) ! i) s1 = Some (y0, [], s2)"
    and yf: "y = finalize_route (bs_ext t \<noteq> None) y0" and adv: "advances B s2 t" by (auto simp: y)
  note one = buildRule_good [OF rule]
  have key: "\<exists>a. extAuthProviderKey B x = Inr (xas_key a) \<and> bs_ext t = Some a" if "p = Some x" "\<not> xa_disabled x" for x
    using one(5) [OF refl, of x] that adv by (auto simp: p advances_def grows_def)
  have mark: "ert_perFilter y0 extAuthzFilterName = ext_mark p" using one(4) by (simp add: p)
  show "ert_perFilter y extAuthzFilterName = Some ExtAuthzCheck" if "\<exists>x. p = Some x \<and> \<not> xa_disabled x"
    using that key mark by (auto simp: yf finalize_route_def ext_mark_def)
  show "ert_perFilter y extAuthzFilterName = (if bs_ext t = None then None else Some ExtAuthzDisabled)" if "\<not> (\<exists>x. p = Some x \<and> \<not> xa_disabled x)"
    using that mark by (cases p) (auto simp: yf finalize_route_def ext_mark_def)
  assume x: "p = Some x" "\<not> xa_disabled x"
  then obtain a where a: "extAuthProviderKey B x = Inr (xas_key a)" "bs_ext t = Some a" using key by blast
  with good have "service_target (ez_service (xas_config a)) = extAuthClusterName B (xas_key a)" "fail_key (ez_failureModeAllow (xas_config a)) (xas_key a)"
    by (simp_all add: good_def)
  with a provider_fail_key [OF a(1)] fail_key_unique show "\<exists>key z. extAuthProviderKey B x = Inr key \<and> bs_ext t \<noteq> None \<and> xas_config (the (bs_ext t)) = z \<and>
       service_target (ez_service z) = extAuthClusterName B key \<and> ez_failureModeAllow z = xa_failOpen x \<and> key = xas_key (the (bs_ext t))" by auto
qed

section \<open>The stage\<close>

definition pooled :: "build_state \<Rightarrow> bool" where
  "pooled s \<longleftrightarrow> named ''jwt-jwks/'' (bs_jwks s) \<and> named ''extauth/'' (bs_extAuth s)"

definition pool_names :: "build_state \<Rightarrow> string set" where
  "pool_names s = fst ` set (bs_jwks s) \<union> fst ` set (bs_extAuth s)"

definition fills :: "build_state \<Rightarrow> build_state \<Rightarrow> bool" where
  "fills s t \<longleftrightarrow> keeps s t \<and> (pooled s \<longrightarrow> pooled t)"

lemma fills_refl: "reflp fills" by (simp add: reflp_def fills_def keeps_refl)

lemma fills_trans: "transp fills" unfolding transp_def fills_def using keeps_trans by blast

lemma new_assembly_good [simp]: "good B (new_assembly s) \<longleftrightarrow> pooled s"
  by (simp add: good_def new_assembly_def pooled_def)

lemma advances_fills: "advances B (new_assembly s) t \<Longrightarrow> fills s t"
proof -
  assume adv: "advances B (new_assembly s) t"
  have "good B t \<Longrightarrow> pooled t" by (simp add: good_def pooled_def)
  moreover have "keeps s t" using adv by (simp add: advances_def grows_def keeps_def new_assembly_def)
  ultimately show ?thesis using adv by (simp add: fills_def advances_def)
qed

lemma fills_names: "fills s t \<Longrightarrow> pool_names s \<subseteq> pool_names t"
  unfolding fills_def keeps_def pool_names_def by (meson Un_mono)

lemma httpFilters_refs:
  assumes "good B s" and "f \<in> set (httpFilters s)"
  shows "http_filter_refs f \<subseteq> pool_names s"
proof -
  have "\<Union> (provider_refs ` ran (bs_providers s)) \<subseteq> pool_names s" using assms(1) unfolding good_def pool_names_def ran_def by blast
  moreover have "service_target (ez_service (xas_config a)) \<in> pool_names s" if "bs_ext s = Some a" for a
    using assms(1) that unfolding good_def pool_names_def by auto
  ultimately show ?thesis using assms(2) by (auto simp: httpFilters_def http_filter_refs_def split: option.splits)
qed

definition upstream_refs :: "ConfigSet \<Rightarrow> string set" where
  "upstream_refs cs = clusterResourceName ` (\<Union>r \<in> set (cfg_routes cs). route_upstreams r)"

lemma upstream_refI: "r \<in> set (cfg_routes cs) \<Longrightarrow> u \<in> route_upstreams r \<Longrightarrow> clusterResourceName u \<in> upstream_refs cs"
  unfolding upstream_refs_def by blast

lemma buildHTTPListener_refs:
  assumes built: "buildHTTPListener B cs lk l s = Some (Some (lis, rco), es, t)" and "pooled s"
  shows "listener_refs lis \<subseteq> pool_names t" "\<exists>rc. rco = Some rc \<and> rcf_name rc = routeConfigName (po_name l) \<and> config_refs rc \<subseteq> upstream_refs cs"
    "lis_name lis = listenerResourceName (po_name l)" "h \<in> listener_hcms lis \<Longrightarrow> hcm_routes h = Rds (routeConfigName (po_name l))"
proof -
  from built obtain vs es1 h where each: "build_each (\<lambda>_. buildVirtualHost B cs lk l) 0 (httpRoutesFor cs (po_name l)) (new_assembly s) = Some (vs, es1, t)"
    and hcm: "buildHCM cs l t = Some h" and rco: "rco = Some (finalizeExtAuthRoutes (bs_ext t \<noteq> None) \<lparr>rcf_name = routeConfigName (po_name l), rcf_virtualHosts = vs\<rparr>)"
    and name: "lis_name lis = listenerResourceName (po_name l)" and filters: "\<forall>ch \<in> set (lis_filterChains lis). fch_filters ch = [HcmFilter h]"
    and insp: "set (lis_listenerFilters lis) \<subseteq> {TlsInspector}"
    by (rule buildHTTPListener_parts)
  define rc where "rc = finalizeExtAuthRoutes (bs_ext t \<noteq> None) \<lparr>rcf_name = routeConfigName (po_name l), rcf_virtualHosts = vs\<rparr>"
  note hosts = buildHTTPListener_hosts [OF built [unfolded rco rc_def [symmetric]]]
  have "good B t" using hosts(1) assms(2) by (simp add: advances_def)
  from httpFilters_refs [OF this] have net: "network_refs (HcmFilter h) \<subseteq> pool_names t"
    using buildHCM_simps(2) [OF hcm] by (auto simp: network_refs_def)
  have "listener_refs lis \<subseteq> network_refs (HcmFilter h)"
    using filters insp by (auto simp: listener_refs_def split: listener_filter.splits)
  then show "listener_refs lis \<subseteq> pool_names t" using net by blast
  show "lis_name lis = listenerResourceName (po_name l)" by (rule name)
  show "hcm_routes h' = Rds (routeConfigName (po_name l))" if "h' \<in> listener_hcms lis" for h'
    using that filters buildHCM_simps(1) [OF hcm] by (auto simp: listener_hcms_def)
  have "route_refs y \<subseteq> upstream_refs cs" if v: "v \<in> set (rcf_virtualHosts rc)" and y: "y \<in> set (vhx_routes v)" for v y
  proof -
    from v obtain j where j: "j < length (httpRoutesFor cs (po_name l))" "v = rcf_virtualHosts rc ! j" using hosts(3) by (auto simp: in_set_conv_nth)
    define r where "r = httpRoutesFor cs (po_name l) ! j"
    note host = hosts(4) [OF j(1) r_def j(2)]
    from y host obtain i y0 s1 e s2 where i: "i < length (rts_rules (po_spec r))" "buildRule B cs lk l r i (rts_rules (po_spec r) ! i) s1 = Some (y0, e, s2)"
      "y = finalize_route (bs_ext t \<noteq> None) y0" by (metis in_set_conv_nth)
    have "r \<in> set (cfg_routes cs)" using j(1) nth_mem [of j "httpRoutesFor cs (po_name l)"] by (simp add: r_def httpRoutesFor_def sortedRoutes_def)
    moreover have "route_refs y = route_refs y0" by (simp add: i(3) route_refs_def finalize_route_def)
    moreover have "bk_upstream ` set (rule_backends (rts_rules (po_spec r) ! i)) \<subseteq> route_upstreams r" using nth_mem [OF i(1)] unfolding route_upstreams_def by blast
    ultimately show ?thesis using buildRule_good(3) [OF i(2)] upstream_refI [of r cs] by (auto simp: image_subset_iff)
  qed
  then have "config_refs rc \<subseteq> upstream_refs cs" by (auto simp: config_refs_def)
  then show "\<exists>rc. rco = Some rc \<and> rcf_name rc = routeConfigName (po_name l) \<and> config_refs rc \<subseteq> upstream_refs cs"
    using rco hosts(2) by (auto simp: rc_def)
qed

lemma forward_cluster_ref: "forward_cluster r = Some c \<Longrightarrow> r \<in> set (cfg_routes cs) \<Longrightarrow> c \<in> upstream_refs cs"
  using upstream_refI [of r cs] by (auto simp: forward_cluster_def route_upstreams_def)

lemma buildTLSPassthroughListener_refs:
  assumes "buildTLSPassthroughListener l (forwardRoutesFor cs (po_name l)) = Some lis"
  shows "listener_refs lis \<subseteq> upstream_refs cs" "listener_hcms lis = {}" "lis_name lis = listenerResourceName (po_name l)"
proof -
  let ?rs = "sort_key (\<lambda>r. (join_with [CHR 0x00] (passthrough_hosts r), po_name r)) (forwardRoutesFor cs (po_name l))"
  obtain chs where chs: "those (map (\<lambda>r. map_option (tcp_chain l (passthrough_hosts r) ''tls'') (forward_cluster r)) ?rs) = Some chs"
    and lis: "lis = l4_listener l False chs [TlsInspector]" using assms by (auto simp: buildTLSPassthroughListener_def split: bind_splits)
  have "\<exists>ns. \<exists>c \<in> upstream_refs cs. ch = tcp_chain l ns ''tls'' c" if "ch \<in> set chs" for ch
    using those_map_set [OF chs] that forward_cluster_ref [of _ _ cs] by (fastforce simp: forward_routes)
  then show "listener_refs lis \<subseteq> upstream_refs cs" "listener_hcms lis = {}"
    by (fastforce simp: lis l4_listener_def tcp_chain_def listener_refs_def listener_hcms_def network_refs_def)+
  show "lis_name lis = listenerResourceName (po_name l)" by (simp add: lis l4_listener_def)
qed

lemma buildL4Listener_refs:
  assumes "buildL4Listener cs l = Some (Some lis, es)"
  shows "listener_refs lis \<subseteq> upstream_refs cs" "listener_hcms lis = {}" "lis_name lis = listenerResourceName (po_name l)"
proof -
  let ?first = "case forwardRoutesFor cs (po_name l) of [] \<Rightarrow> None | r # _ \<Rightarrow> forward_cluster r"
  have first: "c \<in> upstream_refs cs" if "?first = Some c" for c
  proof (cases "forwardRoutesFor cs (po_name l)")
    case (Cons r rs)
    then have "r \<in> set (cfg_routes cs)" using forward_routes [of r cs "po_name l"] by simp
    then show ?thesis using that Cons forward_cluster_ref by simp
  qed (use that in simp)
  consider (tcp) c where "?first = Some c" "lis = l4_listener l False [tcp_chain l [] [] c] []"
    | (udp) c where "?first = Some c" "lis = l4_listener l True [] [UdpProxy (listenerResourceName (po_name l)) c]"
    | (tls) "buildTLSPassthroughListener l (forwardRoutesFor cs (po_name l)) = Some lis"
    using assms unfolding buildL4Listener_def Let_def by (auto split: if_splits)
  then have "listener_refs lis \<subseteq> upstream_refs cs \<and> listener_hcms lis = {} \<and> lis_name lis = listenerResourceName (po_name l)"
  proof cases
    case tls
    then show ?thesis using buildTLSPassthroughListener_refs by blast
  qed (use first in \<open>auto simp: l4_listener_def tcp_chain_def listener_refs_def listener_hcms_def network_refs_def\<close>)
  then show "listener_refs lis \<subseteq> upstream_refs cs" "listener_hcms lis = {}" "lis_name lis = listenerResourceName (po_name l)" by auto
qed

text \<open>What a listener of the result has, with its routes, when the pool of clusters is \<open>P\<close>.\<close>

definition listener_closed :: "ConfigSet \<Rightarrow> string set \<Rightarrow> string \<Rightarrow> listener \<times> route_config option \<Rightarrow> bool" where
  "listener_closed cs P n x \<longleftrightarrow> (case x of (lis, rco) \<Rightarrow>
     lis_name lis = listenerResourceName n \<and> listener_refs lis \<subseteq> P \<union> upstream_refs cs \<and>
     (case rco of None \<Rightarrow> listener_hcms lis = {}
      | Some rc \<Rightarrow> rcf_name rc = routeConfigName n \<and> config_refs rc \<subseteq> upstream_refs cs \<and> (\<forall>h \<in> listener_hcms lis. hcm_routes h = Rds (routeConfigName n))))"

lemma build_listener_closed:
  assumes "build_listener B cs lk l s = Some (x, es, t)"
  shows "fills s t" "pooled s \<Longrightarrow> x = Some y \<Longrightarrow> listener_closed cs (pool_names t) (po_name l) y"
proof -
  show "fills s t"
  proof (cases "is_http l")
    case True
    then have "buildHTTPListener B cs lk l s = Some (x, es, t)" using assms by (simp add: build_listener_def is_http_def)
    then obtain vs es1 where each: "build_each (\<lambda>_. buildVirtualHost B cs lk l) 0 (httpRoutesFor cs (po_name l)) (new_assembly s) = Some (vs, es1, t)"
      by (auto simp: buildHTTPListener_def Let_def split: bind_splits)
    have "\<forall>(j::nat) s y e t. \<forall>x \<in> set (httpRoutesFor cs (po_name l)). buildVirtualHost B cs lk l x s = Some (y, e, t) \<longrightarrow> advances B s t"
      using buildVirtualHost_rules(1) by blast
    from build_each_nth(2) [OF each this advances_refl advances_trans] show ?thesis by (rule advances_fills)
  next
    case False
    then have "t = s" using assms by (auto simp: build_listener_def is_http_def)
    then show ?thesis using reflpD [OF fills_refl] by simp
  qed
  assume pooled: "pooled s" and y: "x = Some y"
  obtain lis rco where p: "y = (lis, rco)" by fastforce
  show "listener_closed cs (pool_names t) (po_name l) y"
  proof (cases "is_http l")
    case True
    then have "buildHTTPListener B cs lk l s = Some (Some (lis, rco), es, t)" using assms by (simp add: build_listener_def is_http_def y p)
    from buildHTTPListener_refs [OF this pooled] show ?thesis by (auto simp: p listener_closed_def)
  next
    case False
    then have "buildL4Listener cs l = Some (Some lis, es)" "rco = None" using assms by (auto simp: build_listener_def is_http_def y p)
    with buildL4Listener_refs show ?thesis by (fastforce simp: p listener_closed_def)
  qed
qed

lemma map_filter_names:
  assumes "list_all2 (\<lambda>l x. \<forall>y. k x = Some y \<longrightarrow> f y = g l) ls xs"
  shows "f ` set (List.map_filter k xs) \<subseteq> g ` set ls \<and> (distinct (map g ls) \<longrightarrow> distinct (map f (List.map_filter k xs)))"
  using assms
proof (induction rule: list_all2_induct)
  case (Cons l ls x xs)
  then show ?case by (cases "k x") (auto simp: map_filter_simps)
qed (simp add: map_filter_simps)

lemma set_map_filter_iff: "y \<in> set (List.map_filter k xs) \<longleftrightarrow> (\<exists>x \<in> set xs. k x = Some y)"
  by (induction xs) (auto simp: map_filter_simps split: option.split)

lemma map_filter_comp: "List.map_filter f (List.map_filter g xs) = List.map_filter (\<lambda>x. Option.bind (g x) f) xs"
  by (induction xs) (simp_all add: map_filter_simps split: option.split)

lemma distinct_map_sort_key: "distinct (map f (sort_key g xs)) \<longleftrightarrow> distinct (map f xs)"
  by (rule mset_eq_imp_distinct_iff) simp

lemma buildUpstream_name: "buildUpstream u = Some (Some c, es) \<Longrightarrow> clu_name c = clusterResourceName (po_name u)"
  by (auto simp: buildUpstream_def Let_def split: bind_splits option.splits)

lemma buildUpstream_built: "buildUpstream u = Some (x, []) \<Longrightarrow> x \<noteq> None"
  by (auto simp: buildUpstream_def Let_def split: bind_splits option.splits)

lemma those_list_all2: "those (map f xs) = Some ys \<longleftrightarrow> list_all2 (\<lambda>x y. f x = Some y) xs ys"
proof (induction xs arbitrary: ys)
  case (Cons x xs)
  show ?case by (cases ys; cases "f x") (auto simp: Cons split: option.splits)
qed auto

lemma buildUpstreams_names:
  assumes "those (map buildUpstream xs) = Some us" and "concat (map snd us) = []"
  shows "map clu_name (List.map_filter fst us) = map (\<lambda>u. clusterResourceName (po_name u)) xs"
proof -
  have "list_all2 (\<lambda>u y. buildUpstream u = Some y) xs us" using assms(1) by (simp add: those_list_all2)
  then show ?thesis using assms(2)
  proof (induction rule: list_all2_induct)
    case (Cons u xs y us)
    then obtain c where "y = (Some c, [])" using buildUpstream_built [of u "fst y"] by (cases y) auto
    with Cons show ?case by (auto simp: map_filter_simps buildUpstream_name)
  qed (simp add: map_filter_simps)
qed

lemma build_parts:
  assumes "build B cs lk = Some (res, es)"
  obtains ls es1 t us where "build_each (\<lambda>_. build_listener B cs lk) 0 (sortedListeners (cfg_listeners cs)) start_state = Some (ls, es1, t)"
    "those (map buildUpstream (sortedUpstreams (cfg_upstreams cs))) = Some us" "es = es1 @ concat (map snd us)"
    "br_listeners res = map fst (List.map_filter id ls)" "br_routes res = List.map_filter (\<lambda>x. Option.bind x snd) ls"
    "br_clusters res = sort_key clu_name (List.map_filter fst us @ map snd (bs_jwks t) @ map snd (bs_extAuth t))"
  using assms by (auto simp: build_def map_filter_comp split: bind_splits)

text \<open>Each listener of the configuration with what is built of it.\<close>

lemma build_listeners_closed:
  assumes "build_each (\<lambda>_. build_listener B cs lk) 0 ls0 start_state = Some (ls, es, t)"
  shows "pooled t" "list_all2 (\<lambda>l x. \<forall>y. x = Some y \<longrightarrow> listener_closed cs (pool_names t) (po_name l) y) ls0 ls"
proof -
  have start: "pooled start_state" by (simp add: pooled_def start_state_def named_def)
  have "\<forall>(j::nat) s y e t. \<forall>x \<in> set ls0. build_listener B cs lk x s = Some (y, e, t) \<longrightarrow> fills s t" using build_listener_closed(1) by blast
  note each = build_each_nth [OF assms this fills_refl fills_trans]
  show "pooled t" using each(2) start by (simp add: fills_def)
  show "list_all2 (\<lambda>l x. \<forall>y. x = Some y \<longrightarrow> listener_closed cs (pool_names t) (po_name l) y) ls0 ls"
  proof (rule list_all2_all_nthI)
    show "length ls0 = length ls" using each(1) by simp
    fix j assume "j < length ls0"
    from each(3) [OF this] obtain s1 e s2 where one: "build_listener B cs lk (ls0 ! j) s1 = Some (ls ! j, e, s2)" "fills start_state s1" "fills s2 t" by auto
    have "pooled s1" using one(2) start by (simp add: fills_def)
    then show "\<forall>y. ls ! j = Some y \<longrightarrow> listener_closed cs (pool_names t) (po_name (ls0 ! j)) y"
      using build_listener_closed(2) [OF one(1)] fills_names [OF one(3)] by (fastforce simp: listener_closed_def)
  qed
qed

lemma named_clusters: "named p cs \<Longrightarrow> map clu_name (map snd cs) = map fst cs"
  by (auto simp: named_def)

lemma named_prefix: "named p cs \<Longrightarrow> n \<in> fst ` set cs \<Longrightarrow> prefix p n"
  by (auto simp: named_def)

definition compiled_clusters :: "buildResult \<Rightarrow> string set" where
  "compiled_clusters res = clu_name ` set (br_clusters res)"

lemma cluster_names:
  assumes "pooled t" and "those (map buildUpstream xs) = Some us" and "concat (map snd us) = []"
    and "cs = sort_key clu_name (List.map_filter fst us @ map snd (bs_jwks t) @ map snd (bs_extAuth t))"
  shows "clu_name ` set cs = (\<lambda>u. clusterResourceName (po_name u)) ` set xs \<union> pool_names t"
    "distinct (map po_name xs) \<Longrightarrow> distinct (map clu_name cs)"
proof -
  let ?cs = "List.map_filter fst us @ map snd (bs_jwks t) @ map snd (bs_extAuth t)"
  have n: "named ''jwt-jwks/'' (bs_jwks t)" "named ''extauth/'' (bs_extAuth t)" using assms(1) by (simp_all add: pooled_def)
  have names: "map clu_name ?cs = map (\<lambda>u. clusterResourceName (po_name u)) xs @ map fst (bs_jwks t) @ map fst (bs_extAuth t)"
    unfolding map_append using buildUpstreams_names [OF assms(2,3)] named_clusters [OF n(1)] named_clusters [OF n(2)] by simp
  have "clu_name ` set cs = set (map clu_name ?cs)" by (simp add: assms(4) image_Un image_image)
  then show "clu_name ` set cs = (\<lambda>u. clusterResourceName (po_name u)) ` set xs \<union> pool_names t"
    unfolding names by (simp add: pool_names_def)
  assume d: "distinct (map po_name xs)"
  have "distinct (map (\<lambda>u. clusterResourceName (po_name u)) xs)" using d by (simp add: distinct_map inj_on_def)
  moreover have "distinct (map fst (bs_jwks t))" "distinct (map fst (bs_extAuth t))" using n by (simp_all add: named_def)
  moreover have "n \<notin> fst ` set (bs_jwks t)" "n \<notin> fst ` set (bs_extAuth t)" if us: "n \<in> (\<lambda>u. clusterResourceName (po_name u)) ` set xs" for n
  proof -
    from us obtain u where "n = clusterResourceName u" by blast
    then have "\<not> prefix ''jwt-jwks/'' n" "\<not> prefix ''extauth/'' n" by (simp_all add: clusterResourceName_def)
    then show "n \<notin> fst ` set (bs_jwks t)" "n \<notin> fst ` set (bs_extAuth t)" using named_prefix n by blast+
  qed
  moreover have "m \<notin> fst ` set (bs_extAuth t)" if "m \<in> fst ` set (bs_jwks t)" for m
    using named_prefix [OF n(1) that] named_prefix [OF n(2), of m] by (auto simp: prefix_def)
  ultimately have "distinct (map clu_name ?cs)" unfolding names distinct_append set_append set_map by blast
  then show "distinct (map clu_name cs)" unfolding assms(4) by (simp only: distinct_map_sort_key)
qed

lemma build_closed:
  assumes "loaded cs" and "refs_closed cs" and "build B cs lk = Some (res, [])"
  shows "\<forall>l \<in> set (br_listeners res). listener_refs l \<subseteq> compiled_clusters res"
    "\<forall>rc \<in> set (br_routes res). config_refs rc \<subseteq> compiled_clusters res"
    "\<forall>l \<in> set (br_listeners res). \<forall>h \<in> listener_hcms l. \<exists>rc \<in> set (br_routes res). hcm_routes h = Rds (rcf_name rc)"
    "distinct (map lis_name (br_listeners res))" "distinct (map rcf_name (br_routes res))" "distinct (map clu_name (br_clusters res))"
proof -
  from assms(3) obtain ls es1 t us where ls: "build_each (\<lambda>_. build_listener B cs lk) 0 (sortedListeners (cfg_listeners cs)) start_state = Some (ls, es1, t)"
    and us: "those (map buildUpstream (sortedUpstreams (cfg_upstreams cs))) = Some us" and es: "[] = es1 @ concat (map snd us)"
    and res: "br_listeners res = map fst (List.map_filter id ls)" "br_routes res = List.map_filter (\<lambda>x. Option.bind x snd) ls"
      "br_clusters res = sort_key clu_name (List.map_filter fst us @ map snd (bs_jwks t) @ map snd (bs_extAuth t))"
    by (rule build_parts)
  note closed = build_listeners_closed [OF ls]
  have "concat (map snd us) = []" using es by simp
  note names = cluster_names [OF closed(1) us this res(3)]
  have clusters: "pool_names t \<union> upstream_refs cs \<subseteq> compiled_clusters res"
  proof -
    have "upstream_refs cs \<subseteq> (\<lambda>u. clusterResourceName (po_name u)) ` set (cfg_upstreams cs)"
      using assms(2) unfolding upstream_refs_def refs_closed_def by blast
    then show ?thesis using names(1) by (auto simp: compiled_clusters_def sortedUpstreams_def)
  qed
  have every: "\<exists>l \<in> set (cfg_listeners cs). listener_closed cs (pool_names t) (po_name l) y" if "Some y \<in> set ls" for y
  proof -
    from that obtain j where j: "j < length ls" "ls ! j = Some y" by (auto simp: in_set_conv_nth)
    then have "listener_closed cs (pool_names t) (po_name (sortedListeners (cfg_listeners cs) ! j)) y" "j < length (sortedListeners (cfg_listeners cs))"
      using list_all2_nthD2 [OF closed(2) j(1)] list_all2_lengthD [OF closed(2)] j(1) by (blast, simp)
    then show ?thesis using nth_mem [of j "sortedListeners (cfg_listeners cs)"] by (auto simp: sortedListeners_def)
  qed
  have listeners: "l \<in> set (br_listeners res) \<longleftrightarrow> (\<exists>rco. Some (l, rco) \<in> set ls)" for l by (force simp: res(1) set_map_filter_iff)
  have routes: "rc \<in> set (br_routes res) \<longleftrightarrow> (\<exists>l. Some (l, Some rc) \<in> set ls)" for rc by (force simp: res(2) set_map_filter_iff bind_eq_Some_conv)
  show "\<forall>l \<in> set (br_listeners res). listener_refs l \<subseteq> compiled_clusters res"
    using every clusters by (fastforce simp: listeners listener_closed_def)
  show "\<forall>rc \<in> set (br_routes res). config_refs rc \<subseteq> compiled_clusters res"
    using every clusters by (fastforce simp: routes listener_closed_def)
  show "\<forall>l \<in> set (br_listeners res). \<forall>h \<in> listener_hcms l. \<exists>rc \<in> set (br_routes res). hcm_routes h = Rds (rcf_name rc)"
  proof (intro ballI)
    fix l h assume "l \<in> set (br_listeners res)" and h: "h \<in> listener_hcms l"
    then obtain rco where l: "Some (l, rco) \<in> set ls" by (auto simp: listeners)
    from every [OF this] h obtain rc where "rco = Some rc" "hcm_routes h = Rds (rcf_name rc)" by (auto simp: listener_closed_def split: option.splits)
    with l show "\<exists>rc \<in> set (br_routes res). hcm_routes h = Rds (rcf_name rc)" using routes by blast
  qed
  have dist: "distinct (map po_name (sortedListeners (cfg_listeners cs)))" "distinct (map po_name (sortedUpstreams (cfg_upstreams cs)))"
    using assms(1) by (simp_all add: loaded_def sortedListeners_def sortedUpstreams_def distinct_map_sort_key)
  then have dl: "distinct (map (\<lambda>l. listenerResourceName (po_name l)) (sortedListeners (cfg_listeners cs)))"
    "distinct (map (\<lambda>l. routeConfigName (po_name l)) (sortedListeners (cfg_listeners cs)))" by (simp_all add: distinct_map inj_on_def)
  have "list_all2 (\<lambda>l x. \<forall>y. id x = Some y \<longrightarrow> lis_name (fst y) = listenerResourceName (po_name l)) (sortedListeners (cfg_listeners cs)) ls"
    using closed(2) by (rule list_all2_mono) (auto simp: listener_closed_def)
  from map_filter_names [OF this] dl(1) show "distinct (map lis_name (br_listeners res))" by (simp add: res(1) comp_def id_def)
  have "list_all2 (\<lambda>l x. \<forall>y. Option.bind x snd = Some y \<longrightarrow> rcf_name y = routeConfigName (po_name l)) (sortedListeners (cfg_listeners cs)) ls"
    using closed(2) by (rule list_all2_mono) (auto simp: listener_closed_def bind_eq_Some_conv)
  from map_filter_names [OF this] dl(2) show "distinct (map rcf_name (br_routes res))" by (simp add: res(2))
  show "distinct (map clu_name (br_clusters res))" using names(2) [OF dist(2)] .
qed

end
