(* ===== verification/CompileRefs.thy ===== *)
theory CompileRefs
  imports CompileIR BuildRefs
begin

text \<open>
  The last stages on a configuration without patches and native resources: both forms of the resources
  are complete, and the check of the references finds nothing.
\<close>

section \<open>Without patches\<close>

definition plain_config :: "ConfigSet \<Rightarrow> bool" where
  "plain_config cs \<longleftrightarrow> (case cfg_gateway cs of None \<Rightarrow> True | Some g \<Rightarrow> gws_envoyPatch (po_spec g) = []) \<and>
     (\<forall>l \<in> set (cfg_listeners cs). lsn_envoyPatch (po_spec l) = []) \<and> (\<forall>r \<in> set (cfg_routes cs). rts_envoyPatch (po_spec r) = []) \<and>
     (\<forall>u \<in> set (cfg_upstreams cs). ups_envoyPatch (po_spec u) = []) \<and> cfg_envoyResources cs = []"

lemma patch_objects_none: "(\<And>x s. x \<in> set xs \<Longrightarrow> f x s = (s, [])) \<Longrightarrow> patch_objects f xs s = (s, [])"
  by (induction xs arbitrary: s) simp_all

lemma synthesize_plain:
  assumes "plain_config cs"
  shows "synthesize L cs res = (extractCompiledSecrets cs (initSourceMap cs (start_synthesis res)), [])"
proof -
  have "applyEnvoyPatches L cs s = (s, [])" for s
    using assms by (auto simp: applyEnvoyPatches_def plain_config_def patch_objects_none gateway_patches_def each_def split: option.splits)
  moreover have "mergeEnvoyResources L cs s = (s, [])" for s
    using assms by (simp add: mergeEnvoyResources_def plain_config_def)
  ultimately show ?thesis by (simp add: synthesize_def Let_def)
qed

section \<open>Secrets\<close>

definition tls_uniform :: "tls_validation \<Rightarrow> filter_chain list \<Rightarrow> bool" where
  "tls_uniform v chs \<longleftrightarrow> (\<forall>c \<in> set chs. \<forall>d. fch_tls c = Some d \<longrightarrow> (\<exists>tc. dtc_certificates d = [tc]) \<and> dtc_sdsCertificates d = [] \<and> dtc_validation d = v) \<and>
     (v = NoValidation \<or> (\<exists>f. v = ValidationContext (Some f)))"

lemma tls_uniform_Cons: "tls_uniform v (c # chs) \<longleftrightarrow>
    (\<forall>d. fch_tls c = Some d \<longrightarrow> (\<exists>tc. dtc_certificates d = [tc]) \<and> dtc_sdsCertificates d = [] \<and> dtc_validation d = v) \<and> tls_uniform v chs"
  by (auto simp: tls_uniform_def)

definition tls_count :: "filter_chain list \<Rightarrow> nat" where
  "tls_count chs = length (filter (\<lambda>c. fch_tls c \<noteq> None) chs)"

lemma tls_count_simps [simp]: "tls_count [] = 0" "tls_count (c # chs) = (if fch_tls c = None then tls_count chs else Suc (tls_count chs))"
  by (simp_all add: tls_count_def)

text \<open>The names of the secrets of a listener, and what each of them is.\<close>

definition ca_names :: "string \<Rightarrow> tls_validation \<Rightarrow> nat \<Rightarrow> string set" where
  "ca_names n v k = (if v = NoValidation \<or> k = 0 then {} else {clientCASecretResourceName n})"

definition crt_names :: "string \<Rightarrow> nat \<Rightarrow> nat \<Rightarrow> string set" where
  "crt_names n i k = secretResourceName n ` {i..<i + k}"

lemma crt_names_Suc: "crt_names n i (Suc k) = insert (secretResourceName n i) (crt_names n (Suc i) k)"
proof -
  have "{i..<i + Suc k} = insert i {Suc i..<Suc i + k}" by auto
  then show ?thesis by (simp add: crt_names_def)
qed

lemma crt_names_0 [simp]: "crt_names n i 0 = {}" by (simp add: crt_names_def)

definition secret_fits :: "secret \<Rightarrow> bool" where
  "secret_fits x \<longleftrightarrow> (if prefix ''crt/'' (sec_name x) then \<exists>tc. sec_type x = TlsCertificate tc else \<exists>f. sec_type x = CertificateValidation f)"

definition holds_secrets :: "synthesis \<Rightarrow> bool" where
  "holds_secrets s \<longleftrightarrow> (\<forall>x \<in> set (syn_secrets s). secret_fits x) \<and> set (syn_compiledSecrets s) = sec_name ` set (syn_secrets s)"

definition same_resources :: "synthesis \<Rightarrow> synthesis \<Rightarrow> bool" where
  "same_resources s t \<longleftrightarrow> syn_listeners t = syn_listeners s \<and> syn_routes t = syn_routes s \<and> syn_clusters t = syn_clusters s \<and> syn_endpoints t = syn_endpoints s"

lemma same_resources_trans: "same_resources a b \<Longrightarrow> same_resources b c \<Longrightarrow> same_resources a c"
  by (simp add: same_resources_def)

lemma add_secret_effect:
  "same_resources s (add_secret pl path n ty s)" "syn_compiledListeners (add_secret pl path n ty s) = syn_compiledListeners s"
  "syn_secrets (add_secret pl path n ty s) = syn_secrets s @ [\<lparr>sec_name = n, sec_type = ty\<rparr>]"
  "holds_secrets s \<Longrightarrow> secret_fits \<lparr>sec_name = n, sec_type = ty\<rparr> \<Longrightarrow> holds_secrets (add_secret pl path n ty s)"
  by (auto simp: add_secret_def set_source_def same_resources_def holds_secrets_def)

lemma crt_fits [simp]: "secret_fits \<lparr>sec_name = secretResourceName n i, sec_type = TlsCertificate tc\<rparr>"
  by (simp add: secret_fits_def secretResourceName_def)

lemma ca_fits [simp]: "secret_fits \<lparr>sec_name = clientCASecretResourceName n, sec_type = CertificateValidation f\<rparr>"
  by (simp add: secret_fits_def clientCASecretResourceName_def)

lemma extract_chains_effect:
  assumes "tls_uniform v chs"
  shows "same_resources s (extract_chains pl i ca chs s) \<and> syn_compiledListeners (extract_chains pl i ca chs s) = syn_compiledListeners s \<and>
    (holds_secrets s \<longrightarrow> holds_secrets (extract_chains pl i ca chs s)) \<and>
    sec_name ` set (syn_secrets (extract_chains pl i ca chs s)) =
      sec_name ` set (syn_secrets s) \<union> crt_names (po_name pl) i (tls_count chs) \<union> (if ca then {} else ca_names (po_name pl) v (tls_count chs))"
  using assms
proof (induction chs arbitrary: i ca s)
  case Nil
  then show ?case by (simp add: same_resources_def ca_names_def)
next
  case (Cons c chs)
  have u: "tls_uniform v chs" using Cons.prems by (simp add: tls_uniform_Cons)
  show ?case
  proof (cases "fch_tls c")
    case None
    then show ?thesis using Cons.IH [OF u, of s i ca] by simp
  next
    case (Some d)
    then obtain tc where d: "dtc_certificates d = [tc]" "dtc_validation d = v" using Cons.prems by (auto simp: tls_uniform_Cons)
    define s1 where "s1 = add_secret pl (index_text ''spec.tls.certificates'' i) (secretResourceName (po_name pl) i) (TlsCertificate tc) s"
    note s1 = add_secret_effect [where s = s and pl = pl and path = "index_text ''spec.tls.certificates'' i" and n = "secretResourceName (po_name pl) i"
      and ty = "TlsCertificate tc", folded s1_def]
    have ex1: "s1 = (case firstTlsCertificate d of None \<Rightarrow> s
        | Some tc \<Rightarrow> add_secret pl (index_text ''spec.tls.certificates'' i) (secretResourceName (po_name pl) i) (TlsCertificate tc) s)"
      by (simp add: s1_def firstTlsCertificate_def d)
    show ?thesis
    proof (cases "\<not> ca \<and> v \<noteq> NoValidation")
      case True
      then obtain f where f: "v = ValidationContext (Some f)" using u by (auto simp: tls_uniform_def)
      define s2 where "s2 = add_secret pl ''spec.tls.clientCA'' (clientCASecretResourceName (po_name pl)) (CertificateValidation (Some f)) s1"
      note s2 = add_secret_effect [where s = s1 and pl = pl and path = "''spec.tls.clientCA''" and n = "clientCASecretResourceName (po_name pl)"
        and ty = "CertificateValidation (Some f)", folded s2_def]
      have eq: "extract_chains pl i ca (c # chs) s = extract_chains pl (Suc i) True chs s2"
        using True by (simp add: Some Let_def ex1 [symmetric] d(2) f s2_def)
      show ?thesis
        using Cons.IH [OF u, of s2 "Suc i" True] s1 s2 same_resources_trans True
        unfolding eq by (auto simp: Some crt_names_Suc ca_names_def)
    next
      case False
      then have eq: "extract_chains pl i ca (c # chs) s = extract_chains pl (Suc i) ca chs s1"
        by (cases ca; cases v) (auto simp: Some Let_def ex1 [symmetric] d(2))
      show ?thesis
        using Cons.IH [OF u, of s1 "Suc i" ca] s1 same_resources_trans False
        unfolding eq by (auto simp: Some crt_names_Suc ca_names_def)
    qed
  qed
qed

definition listener_validation :: "filter_chain list \<Rightarrow> tls_validation" where
  "listener_validation chs = (case List.map_filter fch_tls chs of [] \<Rightarrow> NoValidation | d # _ \<Rightarrow> dtc_validation d)"

definition uniform :: "filter_chain list \<Rightarrow> bool" where
  "uniform chs \<longleftrightarrow> tls_uniform (listener_validation chs) chs"

definition listener_secrets :: "listener \<Rightarrow> string set" where
  "listener_secrets lis = (let n = trim_prefix ''lis/'' (lis_name lis); k = tls_count (lis_filterChains lis) in
     crt_names n 0 k \<union> ca_names n (listener_validation (lis_filterChains lis)) k)"

lemma trim_listener [simp]: "trim_prefix ''lis/'' (listenerResourceName n) = n"
  by (simp add: trim_prefix_def CutPrefix_def listenerResourceName_def)

lemma extract_listener_effect:
  assumes "lis_name lis = listenerResourceName n" and "n \<in> po_name ` set (cfg_listeners cs)" and "uniform (lis_filterChains lis)"
  shows "same_resources s (extract_listener cs lis s) \<and> set (syn_compiledListeners (extract_listener cs lis s)) = insert (lis_name lis) (set (syn_compiledListeners s)) \<and>
    (holds_secrets s \<longrightarrow> holds_secrets (extract_listener cs lis s)) \<and>
    sec_name ` set (syn_secrets (extract_listener cs lis s)) = sec_name ` set (syn_secrets s) \<union> listener_secrets lis"
proof -
  obtain pl where pl: "index_by_name (cfg_listeners cs) n = Some pl" "po_name pl = n"
    using assms(2) index_by_name_None [of "cfg_listeners cs" n] index_by_name_in [of "cfg_listeners cs" n] by (cases "index_by_name (cfg_listeners cs) n") auto
  define t where "t = s\<lparr>syn_compiledListeners := List.insert (lis_name lis) (syn_compiledListeners s)\<rparr>"
  have ex: "extract_listener cs lis s = extract_chains pl 0 False (lis_filterChains lis) t"
    by (simp add: extract_listener_def assms(1) pl t_def)
  have t: "same_resources s t" "holds_secrets t = holds_secrets s" "syn_secrets t = syn_secrets s" "set (syn_compiledListeners t) = insert (lis_name lis) (set (syn_compiledListeners s))"
    by (simp_all add: t_def same_resources_def holds_secrets_def)
  show ?thesis unfolding ex
    using extract_chains_effect [OF assms(3) [unfolded uniform_def], of t pl 0 False] t same_resources_trans
    by (auto simp: listener_secrets_def assms(1) pl(2) Let_def)
qed

lemma extract_all:
  assumes "\<forall>lis \<in> set ls. (\<exists>n \<in> po_name ` set (cfg_listeners cs). lis_name lis = listenerResourceName n) \<and> uniform (lis_filterChains lis)"
  shows "same_resources s (fold (extract_listener cs) ls s) \<and> set (syn_compiledListeners (fold (extract_listener cs) ls s)) = lis_name ` set ls \<union> set (syn_compiledListeners s) \<and>
    (holds_secrets s \<longrightarrow> holds_secrets (fold (extract_listener cs) ls s)) \<and>
    sec_name ` set (syn_secrets (fold (extract_listener cs) ls s)) = sec_name ` set (syn_secrets s) \<union> (\<Union>lis \<in> set ls. listener_secrets lis)"
  using assms
proof (induction ls arbitrary: s)
  case (Cons lis ls)
  obtain n where "lis_name lis = listenerResourceName n" "n \<in> po_name ` set (cfg_listeners cs)" "uniform (lis_filterChains lis)" using Cons.prems by auto
  note one = extract_listener_effect [OF this, of s]
  have "\<forall>lis \<in> set ls. (\<exists>n \<in> po_name ` set (cfg_listeners cs). lis_name lis = listenerResourceName n) \<and> uniform (lis_filterChains lis)" using Cons.prems by simp
  note rest = Cons.IH [OF this, of "extract_listener cs lis s"]
  show ?case using one rest same_resources_trans by auto
qed (simp add: same_resources_def)

definition resourced :: "synthesis \<Rightarrow> synthesis \<Rightarrow> bool" where
  "resourced s t \<longleftrightarrow> (\<exists>m. t = s\<lparr>syn_sourceMap := m\<rparr>)"

lemma resourced_set: "resourced s t \<Longrightarrow> resourced s (set_source k v t)"
  by (auto simp: resourced_def set_source_def)

lemma resourced_fold: "(\<And>x t. resourced s t \<Longrightarrow> resourced s (f x t)) \<Longrightarrow> resourced s t \<Longrightarrow> resourced s (fold f xs t)"
  by (induction xs arbitrary: t) simp_all

lemma initSourceMap_same: "resourced s (initSourceMap cs s)"
proof -
  have "resourced s s" by (auto simp: resourced_def intro: exI [of _ "syn_sourceMap s"])
  then show ?thesis unfolding initSourceMap_def Let_def by (intro resourced_set resourced_fold)
qed

text \<open>The working set of a configuration without patches.\<close>

definition shaped :: "ConfigSet \<Rightarrow> buildResult \<Rightarrow> bool" where
  "shaped cs res \<longleftrightarrow> (\<forall>lis \<in> set (br_listeners res). (\<exists>n \<in> po_name ` set (cfg_listeners cs). lis_name lis = listenerResourceName n) \<and> uniform (lis_filterChains lis))"

lemma synthesized:
  assumes "plain_config cs" and "shaped cs res"
  obtains s where "synthesize L cs res = (s, [])" "syn_listeners s = map (\<lambda>l. (True, l)) (br_listeners res)" "syn_routes s = br_routes res"
    "syn_clusters s = br_clusters res" "syn_endpoints s = []" "set (syn_compiledListeners s) = lis_name ` set (br_listeners res)" "holds_secrets s"
    "sec_name ` set (syn_secrets s) = (\<Union>lis \<in> set (br_listeners res). listener_secrets lis)"
proof -
  define t where "t = initSourceMap cs (start_synthesis res)"
  obtain m where m: "t = (start_synthesis res)\<lparr>syn_sourceMap := m\<rparr>"
    using initSourceMap_same [of "start_synthesis res" cs] unfolding resourced_def t_def by blast
  have t: "syn_listeners t = map (\<lambda>l. (True, l)) (br_listeners res)" "syn_routes t = br_routes res" "syn_clusters t = br_clusters res" "syn_endpoints t = []"
    "holds_secrets t" "syn_compiledListeners t = []" "syn_secrets t = []" by (simp_all add: m holds_secrets_def start_synthesis_def)
  have ex: "extractCompiledSecrets cs t = fold (extract_listener cs) (br_listeners res) t" by (simp add: extractCompiledSecrets_def t(1) comp_def)
  note all = extract_all [OF assms(2) [unfolded shaped_def], of t]
  have syn: "synthesize L cs res = (fold (extract_listener cs) (br_listeners res) t, [])"
    unfolding synthesize_plain [OF assms(1)] t_def [symmetric] ex ..
  show thesis by (rule that [OF syn]) (use all t in \<open>simp_all add: same_resources_def\<close>)
qed

section \<open>Form\<close>

lemma secretByName_holds:
  assumes "holds_secrets s" and "n \<in> sec_name ` set (syn_secrets s)"
  obtains x where "secretByName s n = Some x" "sec_name x = n" "secret_fits x"
proof -
  from assms(2) obtain x where x: "secretByName s n = Some x"
    by (cases "secretByName s n") (auto simp: secretByName_def find_None_iff)
  then have "sec_name x = n" "x \<in> set (syn_secrets s)" unfolding secretByName_def by (auto simp: find_Some_iff)
  with x show thesis using that assms(1) by (auto simp: holds_secrets_def)
qed

lemma crt_found:
  assumes "holds_secrets s" and "secretResourceName n i \<in> sec_name ` set (syn_secrets s)"
  obtains x tc where "secretByName s (secretResourceName n i) = Some x" "sec_type x = TlsCertificate tc"
  using assms by (rule secretByName_holds) (auto simp: secret_fits_def secretResourceName_def intro: that)

lemma ca_found:
  assumes "holds_secrets s" and "clientCASecretResourceName n \<in> sec_name ` set (syn_secrets s)"
  obtains x f where "secretByName s (clientCASecretResourceName n) = Some x" "sec_type x = CertificateValidation f"
  using assms by (rule secretByName_holds) (auto simp: secret_fits_def clientCASecretResourceName_def intro: that)

text \<open>What is left of the chains: the same filters, and references to secrets that are there.\<close>

definition chain_ok :: "string set \<Rightarrow> filter_chain \<Rightarrow> filter_chain \<Rightarrow> bool" where
  "chain_ok S c c' \<longleftrightarrow> fch_filters c' = fch_filters c \<and> (fch_tls c' = None \<longleftrightarrow> fch_tls c = None) \<and>
     (\<forall>d. fch_tls c' = Some d \<longrightarrow> set (dtc_sdsCertificates d) \<subseteq> S \<and> (\<forall>n. dtc_validation d = ValidationSds n \<longrightarrow> n \<in> S))"

lemma chain_ok_plain: "fch_tls c = None \<Longrightarrow> chain_ok S c c" by (simp add: chain_ok_def)

lemma bind_validation_ok:
  assumes "holds_secrets s" and "ca_names n v 1 \<subseteq> sec_name ` set (syn_secrets s)" and "v = NoValidation \<or> (\<exists>f. v = ValidationContext (Some f))"
  obtains w u where "bind_validation g s n v = (w, u, [])" "set u = ca_names n v 1" "w = NoValidation \<or> (\<exists>f. w = g (clientCASecretResourceName n) f) \<and> ca_names n v 1 \<noteq> {}"
proof (cases "v = NoValidation")
  case True
  then show ?thesis by (intro that [of NoValidation "[]"]) (simp_all add: bind_validation_def ca_names_def)
next
  case False
  then have "clientCASecretResourceName n \<in> sec_name ` set (syn_secrets s)" using assms(2) by (simp add: ca_names_def)
  with assms(1) obtain x f where "secretByName s (clientCASecretResourceName n) = Some x" "sec_type x = CertificateValidation f" by (rule ca_found)
  with False assms(3) show ?thesis
    by (intro that [of "g (clientCASecretResourceName n) f" "[clientCASecretResourceName n]"]) (auto simp: bind_validation_def ca_names_def Let_def)
qed

lemma reference_chains_ok:
  assumes "holds_secrets s" and "tls_uniform v chs"
    and "crt_names n i (tls_count chs) \<union> ca_names n v (tls_count chs) \<subseteq> sec_name ` set (syn_secrets s)"
  obtains chs' used where "reference_chains s n i chs = (chs', used, [])" "set used = crt_names n i (tls_count chs) \<union> ca_names n v (tls_count chs)"
    "list_all2 (chain_ok (sec_name ` set (syn_secrets s))) chs chs'"
  using assms(2,3)
proof (induction chs arbitrary: i thesis)
  case Nil
  then show ?case by (simp add: ca_names_def)
next
  case (Cons c chs)
  have u: "tls_uniform v chs" using Cons.prems(2) by (simp add: tls_uniform_Cons)
  show ?case
  proof (cases "fch_tls c")
    case None
    obtain chs' used where "reference_chains s n i chs = (chs', used, [])" "set used = crt_names n i (tls_count chs) \<union> ca_names n v (tls_count chs)"
      "list_all2 (chain_ok (sec_name ` set (syn_secrets s))) chs chs'" using Cons.IH [OF _ u, of i] Cons.prems(3) None by auto
    with None show ?thesis by (intro Cons.prems(1) [of "c # chs'" used]) (auto simp: chain_ok_plain)
  next
    case (Some d)
    then have d: "dtc_validation d = v" and v: "v = NoValidation \<or> (\<exists>f. v = ValidationContext (Some f))"
      using Cons.prems(2) by (auto simp: tls_uniform_Cons tls_uniform_def)
    have sub: "crt_names n (Suc i) (tls_count chs) \<union> ca_names n v (tls_count chs) \<subseteq> sec_name ` set (syn_secrets s)"
      and crt: "secretResourceName n i \<in> sec_name ` set (syn_secrets s)" and ca: "ca_names n v 1 \<subseteq> sec_name ` set (syn_secrets s)"
      using Cons.prems(3) by (auto simp: Some crt_names_Suc ca_names_def split: if_splits)
    obtain chs' used where rest: "reference_chains s n (Suc i) chs = (chs', used, [])" "set used = crt_names n (Suc i) (tls_count chs) \<union> ca_names n v (tls_count chs)"
      "list_all2 (chain_ok (sec_name ` set (syn_secrets s))) chs chs'" using Cons.IH [OF _ u sub] by blast
    obtain x tc where x: "secretByName s (secretResourceName n i) = Some x" using crt_found [OF assms(1) crt] by metis
    obtain w us where w: "bind_validation (\<lambda>ca _. ValidationSds ca) s n v = (w, us, [])" "set us = ca_names n v 1"
      "w = NoValidation \<or> (\<exists>f::string option. w = ValidationSds (clientCASecretResourceName n)) \<and> ca_names n v 1 \<noteq> {}"
      by (rule bind_validation_ok [OF assms(1) ca v])
    let ?c = "c\<lparr>fch_tls := Some (d\<lparr>dtc_certificates := [], dtc_sdsCertificates := [secretResourceName n i], dtc_validation := w\<rparr>)\<rparr>"
    have "chain_ok (sec_name ` set (syn_secrets s)) c ?c" using w(3) ca crt by (auto simp: chain_ok_def Some ca_names_def split: if_splits)
    moreover have "reference_chains s n i (c # chs) = (?c # chs', secretResourceName n i # us @ used, [])"
      by (simp add: Some x rest(1) d w(1) Let_def)
    moreover have "set (secretResourceName n i # us @ used) = crt_names n i (tls_count (c # chs)) \<union> ca_names n v (tls_count (c # chs))"
      using rest(2) w(2) by (auto simp: Some crt_names_Suc ca_names_def)
    ultimately show ?thesis using rest(3) by (intro Cons.prems(1)) auto
  qed
qed

lemma inline_chains_ok:
  assumes "holds_secrets s" and "tls_uniform v chs"
    and "crt_names n i (tls_count chs) \<union> ca_names n v (tls_count chs) \<subseteq> sec_name ` set (syn_secrets s)"
  obtains chs' used where "inline_chains s n i chs = (chs', used, [])" "set used = crt_names n i (tls_count chs) \<union> ca_names n v (tls_count chs)"
    "list_all2 (chain_ok {}) chs chs'"
  using assms(2,3)
proof (induction chs arbitrary: i thesis)
  case Nil
  then show ?case by (simp add: ca_names_def)
next
  case (Cons c chs)
  have u: "tls_uniform v chs" using Cons.prems(2) by (simp add: tls_uniform_Cons)
  show ?case
  proof (cases "fch_tls c")
    case None
    obtain chs' used where "inline_chains s n i chs = (chs', used, [])" "set used = crt_names n i (tls_count chs) \<union> ca_names n v (tls_count chs)"
      "list_all2 (chain_ok {}) chs chs'" using Cons.IH [OF _ u, of i] Cons.prems(3) None by auto
    with None show ?thesis by (intro Cons.prems(1) [of "c # chs'" used]) (auto simp: chain_ok_plain)
  next
    case (Some d)
    then have d: "dtc_validation d = v" "dtc_sdsCertificates d = []" and v: "v = NoValidation \<or> (\<exists>f. v = ValidationContext (Some f))"
      using Cons.prems(2) by (auto simp: tls_uniform_Cons tls_uniform_def)
    have sub: "crt_names n (Suc i) (tls_count chs) \<union> ca_names n v (tls_count chs) \<subseteq> sec_name ` set (syn_secrets s)"
      and crt: "secretResourceName n i \<in> sec_name ` set (syn_secrets s)" and ca: "ca_names n v 1 \<subseteq> sec_name ` set (syn_secrets s)"
      using Cons.prems(3) by (auto simp: Some crt_names_Suc ca_names_def split: if_splits)
    obtain chs' used where rest: "inline_chains s n (Suc i) chs = (chs', used, [])" "set used = crt_names n (Suc i) (tls_count chs) \<union> ca_names n v (tls_count chs)"
      "list_all2 (chain_ok {}) chs chs'" using Cons.IH [OF _ u sub] by blast
    obtain x tc where x: "secretByName s (secretResourceName n i) = Some x" "sec_type x = TlsCertificate tc" using crt_found [OF assms(1) crt] .
    obtain w us where w: "bind_validation (\<lambda>_ f. ValidationContext f) s n v = (w, us, [])" "set us = ca_names n v 1"
      "w = NoValidation \<or> (\<exists>f. w = ValidationContext f) \<and> ca_names n v 1 \<noteq> {}"
      by (rule bind_validation_ok [OF assms(1) ca v])
    let ?c = "c\<lparr>fch_tls := Some (d\<lparr>dtc_certificates := [tc], dtc_validation := w\<rparr>)\<rparr>"
    have "chain_ok {} c ?c" using w(3) by (auto simp: chain_ok_def Some d(2))
    moreover have "inline_chains s n i (c # chs) = (?c # chs', secretResourceName n i # us @ used, [])"
      by (simp add: Some x rest(1) d w(1) Let_def)
    moreover have "set (secretResourceName n i # us @ used) = crt_names n i (tls_count (c # chs)) \<union> ca_names n v (tls_count (c # chs))"
      using rest(2) w(2) by (auto simp: Some crt_names_Suc ca_names_def)
    ultimately show ?thesis using rest(3) by (intro Cons.prems(1)) auto
  qed
qed

subsection \<open>No secret is left over\<close>

lemma valid_name_slash: "ValidateName n \<Longrightarrow> CHR ''/'' \<notin> set n"
proof -
  have "\<not> (name_char (CHR ''/'') \<or> CHR ''/'' = CHR ''-'')" by (simp add: name_char_def is_digit_def)
  then show "ValidateName n \<Longrightarrow> CHR ''/'' \<notin> set n" by (auto simp: ValidateName_def list_all_iff)
qed

lemma slash_prefix: "CHR ''/'' \<notin> set m \<Longrightarrow> CHR ''/'' \<notin> set n \<Longrightarrow> prefix (n @ ''/'') (m @ CHR ''/'' # z) \<Longrightarrow> m = n"
proof (induction n arbitrary: m)
  case Nil
  then show ?case by (cases m) auto
next
  case (Cons a n)
  then show ?case by (cases m) auto
qed

definition owned :: "string \<Rightarrow> string \<Rightarrow> bool" where
  "owned n x \<longleftrightarrow> prefix (''crt/'' @ n @ ''/'') x \<or> x = clientCASecretResourceName n"

lemma secret_owner:
  assumes "x \<in> listener_secrets lis" and "lis_name lis = listenerResourceName m" and "CHR ''/'' \<notin> set m" "CHR ''/'' \<notin> set n" and "owned n x"
  shows "m = n"
proof -
  from assms(1,2) consider (crt) j where "x = secretResourceName m j" | (ca) "x = clientCASecretResourceName m"
    by (auto simp: listener_secrets_def crt_names_def ca_names_def Let_def split: if_splits)
  then show ?thesis
  proof cases
    case crt
    then have "prefix (n @ ''/'') (m @ CHR ''/'' # string_of_nat j)"
      using assms(5) by (simp add: owned_def secretResourceName_def clientCASecretResourceName_def)
    then show ?thesis using slash_prefix assms(3,4) by blast
  next
    case ca
    then show ?thesis using assms(5) by (simp add: owned_def clientCASecretResourceName_def)
  qed
qed

definition clean_names :: "listener list \<Rightarrow> bool" where
  "clean_names ls \<longleftrightarrow> distinct (map lis_name ls) \<and> (\<forall>lis \<in> set ls. \<exists>n. lis_name lis = listenerResourceName n \<and> CHR ''/'' \<notin> set n)"

lemma no_orphans:
  assumes "holds_secrets s" and names: "sec_name ` set (syn_secrets s) = (\<Union>lis \<in> set ls. listener_secrets lis)" and "clean_names ls"
    and lis: "lis \<in> set ls" "lis_name lis = listenerResourceName n" and used: "set used = listener_secrets lis"
  shows "checkOrphanSecrets s n used = []"
proof -
  have n: "CHR ''/'' \<notin> set n" using assms(3) lis by (auto simp: clean_names_def)
  have "x \<in> set used" if x: "x \<in> set (syn_compiledSecrets s)" "owned n x" for x
  proof -
    from x(1) assms(1) names obtain lis' where lis': "lis' \<in> set ls" "x \<in> listener_secrets lis'" by (auto simp: holds_secrets_def)
    then obtain m where m: "lis_name lis' = listenerResourceName m" "CHR ''/'' \<notin> set m" using assms(3) by (auto simp: clean_names_def)
    from secret_owner [OF lis'(2) m n x(2)] have "lis_name lis' = lis_name lis" using m(1) lis(2) by simp
    then have "lis' = lis" using assms(3) lis'(1) lis(1) by (auto simp: clean_names_def distinct_map dest: inj_onD)
    then show ?thesis using lis'(2) used by simp
  qed
  then show ?thesis by (auto simp: checkOrphanSecrets_def owned_def)
qed

lemma listener_secrets_eq:
  "lis_name lis = listenerResourceName n \<Longrightarrow>
     listener_secrets lis = crt_names n 0 (tls_count (lis_filterChains lis)) \<union> ca_names n (listener_validation (lis_filterChains lis)) (tls_count (lis_filterChains lis))"
  by (simp add: listener_secrets_def Let_def)

lemma referenceSDS_ok:
  assumes "holds_secrets s" and names: "sec_name ` set (syn_secrets s) = (\<Union>lis \<in> set ls. listener_secrets lis)" and "clean_names ls"
    and lis: "lis \<in> set ls" "uniform (lis_filterChains lis)"
  obtains chs where "referenceSDS s lis = (lis\<lparr>lis_filterChains := chs\<rparr>, [])" "list_all2 (chain_ok (sec_name ` set (syn_secrets s))) (lis_filterChains lis) chs"
proof -
  obtain n where n: "lis_name lis = listenerResourceName n" using assms(3) lis(1) by (auto simp: clean_names_def)
  have "listener_secrets lis \<subseteq> sec_name ` set (syn_secrets s)" using names lis(1) by auto
  then obtain chs used where "reference_chains s n 0 (lis_filterChains lis) = (chs, used, [])" "set used = listener_secrets lis"
    "list_all2 (chain_ok (sec_name ` set (syn_secrets s))) (lis_filterChains lis) chs"
    unfolding listener_secrets_eq [OF n] using reference_chains_ok [OF assms(1) lis(2) [unfolded uniform_def], of n 0] by metis
  with no_orphans [OF assms(1-3) lis(1) n] show thesis using that by (simp add: referenceSDS_def n Let_def)
qed

subsection \<open>Routes in place\<close>

definition inlined_filters :: "route_config option \<Rightarrow> network_filter list \<Rightarrow> network_filter list" where
  "inlined_filters x fs = (case x of None \<Rightarrow> fs | Some rc \<Rightarrow> map (set_routes rc) fs)"

lemma find_hcm_Some: "find_hcm fs = Some h \<Longrightarrow> HcmFilter h \<in> set fs"
  by (induction fs rule: find_hcm.induct) auto

lemma find_hcm_None: "find_hcm fs = None \<Longrightarrow> HcmFilter h \<notin> set fs"
  by (induction fs rule: find_hcm.induct) auto

lemma hcms_iff: "h \<in> listener_hcms lis \<longleftrightarrow> HcmFilter h \<in> set (concat (map fch_filters (lis_filterChains lis)))"
  by (auto simp: listener_hcms_def)

definition rds_of :: "listener \<Rightarrow> string \<Rightarrow> bool" where
  "rds_of lis rn \<longleftrightarrow> (\<forall>h \<in> listener_hcms lis. hcm_routes h = Rds rn)"

lemma inline_routes_ok:
  assumes "rds_of lis rn" and "listener_hcms lis \<noteq> {} \<longrightarrow> rn \<in> rcf_name ` set (syn_routes s)"
  obtains x inl where "inline_routes s True lis = (lis\<lparr>lis_filterChains := map (\<lambda>c. c\<lparr>fch_filters := inlined_filters x (fch_filters c)\<rparr>) (lis_filterChains lis)\<rparr>, inl, [])"
    "\<forall>rc. x = Some rc \<longrightarrow> rc \<in> set (syn_routes s)" "listener_hcms lis \<noteq> {} \<longrightarrow> x \<noteq> None"
proof (cases "findHCMFilter lis")
  case None
  then have "h \<notin> listener_hcms lis" for h unfolding findHCMFilter_def hcms_iff by (rule find_hcm_None)
  then have "listener_hcms lis = {}" by blast
  moreover have "inline_routes s True lis = (lis, [], [])" by (simp add: inline_routes_def None)
  ultimately show thesis by (intro that [of None "[]"]) (simp_all add: inlined_filters_def)
next
  case (Some h)
  then have h: "h \<in> listener_hcms lis" unfolding findHCMFilter_def hcms_iff by (rule find_hcm_Some)
  then have "routeConfig s rn \<noteq> None" using assms(2) by (auto simp: routeConfig_def find_None_iff)
  then obtain rc where rc: "routeConfig s rn = Some rc" by blast
  then have "rc \<in> set (syn_routes s)" by (auto simp: routeConfig_def find_Some_iff)
  moreover have "inline_routes s True lis = (lis\<lparr>lis_filterChains := put_routes True rc (lis_filterChains lis)\<rparr>, [rn], [])"
    using assms(1) h by (simp add: inline_routes_def Some rds_of_def rc)
  ultimately show thesis by (intro that [of "Some rc" "[rn]"]) (simp_all add: put_routes_def inlined_filters_def)
qed

definition chain_inlined :: "route_config option \<Rightarrow> filter_chain \<Rightarrow> filter_chain \<Rightarrow> bool" where
  "chain_inlined x c c' \<longleftrightarrow> chain_ok {} (c\<lparr>fch_filters := inlined_filters x (fch_filters c)\<rparr>) c'"

lemma tls_map [simp]: "tls_count (map (\<lambda>c. c\<lparr>fch_filters := g c\<rparr>) chs) = tls_count chs"
  "listener_validation (map (\<lambda>c. c\<lparr>fch_filters := g c\<rparr>) chs) = listener_validation chs" "tls_uniform v (map (\<lambda>c. c\<lparr>fch_filters := g c\<rparr>) chs) = tls_uniform v chs"
proof -
  show "tls_count (map (\<lambda>c. c\<lparr>fch_filters := g c\<rparr>) chs) = tls_count chs" by (induction chs) simp_all
  have "List.map_filter fch_tls (map (\<lambda>c. c\<lparr>fch_filters := g c\<rparr>) chs) = List.map_filter fch_tls chs"
    by (induction chs) (simp_all split: option.split)
  then show "listener_validation (map (\<lambda>c. c\<lparr>fch_filters := g c\<rparr>) chs) = listener_validation chs" by (simp add: listener_validation_def)
  show "tls_uniform v (map (\<lambda>c. c\<lparr>fch_filters := g c\<rparr>) chs) = tls_uniform v chs" by (simp add: tls_uniform_def)
qed

lemma inlineListener_ok:
  assumes "holds_secrets s" and names: "sec_name ` set (syn_secrets s) = (\<Union>lis \<in> set ls. listener_secrets lis)" and "clean_names ls"
    and lis: "lis \<in> set ls" "uniform (lis_filterChains lis)" and rds: "rds_of lis rn" and rn: "listener_hcms lis \<noteq> {} \<longrightarrow> rn \<in> rcf_name ` set (syn_routes s)"
  obtains chs x inl where "inlineListener s (True, lis) = (lis\<lparr>lis_filterChains := chs\<rparr>, inl, [])" "list_all2 (chain_inlined x) (lis_filterChains lis) chs"
    "\<forall>rc. x = Some rc \<longrightarrow> rc \<in> set (syn_routes s)" "listener_hcms lis \<noteq> {} \<longrightarrow> x \<noteq> None"
proof -
  obtain n where n: "lis_name lis = listenerResourceName n" using assms(3) lis(1) by (auto simp: clean_names_def)
  have sub: "listener_secrets lis \<subseteq> sec_name ` set (syn_secrets s)" using names lis(1) by auto
  from rds rn obtain x inl where x: "inline_routes s True lis = (lis\<lparr>lis_filterChains := map (\<lambda>c. c\<lparr>fch_filters := inlined_filters x (fch_filters c)\<rparr>) (lis_filterChains lis)\<rparr>, inl, [])"
    "\<forall>rc. x = Some rc \<longrightarrow> rc \<in> set (syn_routes s)" "listener_hcms lis \<noteq> {} \<longrightarrow> x \<noteq> None" by (rule inline_routes_ok)
  let ?chs = "map (\<lambda>c. c\<lparr>fch_filters := inlined_filters x (fch_filters c)\<rparr>) (lis_filterChains lis)"
  let ?v = "listener_validation (lis_filterChains lis)"
  have uni: "tls_uniform ?v ?chs" using lis(2) by (simp add: uniform_def)
  have "crt_names n 0 (tls_count ?chs) \<union> ca_names n ?v (tls_count ?chs) \<subseteq> sec_name ` set (syn_secrets s)"
    using sub listener_secrets_eq [OF n] by simp
  with assms(1) uni obtain chs used where chs: "inline_chains s n 0 ?chs = (chs, used, [])" "set used = crt_names n 0 (tls_count ?chs) \<union> ca_names n ?v (tls_count ?chs)"
    "list_all2 (chain_ok {}) ?chs chs" by (rule inline_chains_ok)
  have used: "set used = listener_secrets lis" using chs(2) listener_secrets_eq [OF n] by simp
  have "inlineListener s (True, lis) = (lis\<lparr>lis_filterChains := chs\<rparr>, inl, [])"
    using no_orphans [OF assms(1-3) lis(1) n used] by (simp add: inlineListener_def x(1) n chs(1) Let_def)
  moreover have "list_all2 (chain_inlined x) (lis_filterChains lis) chs" using chs(3) by (simp add: chain_inlined_def [abs_def] list_all2_map1)
  ultimately show thesis using that x(2,3) by blast
qed

section \<open>References\<close>

lemma cluster_ref_Nil: "c \<in> fst ` set (ir_clusters out) \<or> c = [] \<Longrightarrow> cluster_ref out key what c = []"
  by (auto simp: cluster_ref_def missing_def)

lemma route_ref_errors_Nil: "snd ` set xs \<subseteq> fst ` set (ir_clusters out) \<Longrightarrow> route_ref_errors out key seen xs = []"
proof (induction xs arbitrary: seen)
  case (Cons x xs)
  then have "\<not> missing (ir_clusters out) (snd x)" "route_ref_errors out key seen xs = []" by (simp_all add: missing_def)
  then show ?case by (cases x) simp
qed simp

lemma action_clusters_refs: "set (action_clusters r) \<subseteq> route_refs r"
  by (auto simp: action_clusters_def route_refs_def target_clusters_def split: option.splits route_target.splits cluster_specifier.splits)

lemma checkRouteConfigRefs_Nil:
  assumes "config_refs rc \<subseteq> fst ` set (ir_clusters out)"
  shows "checkRouteConfigRefs out rc key = []"
  unfolding checkRouteConfigRefs_def
  by (rule route_ref_errors_Nil) (use assms action_clusters_refs in \<open>fastforce simp: config_refs_def\<close>)

lemma extAuth_ref: "f \<in> set (hcm_httpFilters h) \<Longrightarrow> extAuthCluster f = [] \<or> extAuthCluster f \<in> network_refs (HcmFilter h)"
proof (cases f)
  case (ExtAuthzFilter z)
  assume f: "f \<in> set (hcm_httpFilters h)"
  have "extAuthCluster f \<in> http_filter_refs f"
    by (simp add: ExtAuthzFilter extAuthCluster_def http_filter_refs_def service_target_def split: auth_service.split)
  with f show ?thesis by (auto simp: network_refs_def)
qed (simp_all add: extAuthCluster_def)

lemma filter_refs_Nil:
  assumes "network_refs f \<subseteq> fst ` set (ir_clusters out)"
    and "\<And>h n. f = HcmFilter h \<Longrightarrow> hcm_routes h = Rds n \<Longrightarrow> n \<in> fst ` set (ir_routes out)"
    and "\<And>h rc. f = HcmFilter h \<Longrightarrow> hcm_routes h = InlineRoutes rc \<Longrightarrow> config_refs rc \<subseteq> fst ` set (ir_clusters out)"
  shows "filter_refs out key f = []"
proof (cases f)
  case (TcpProxy p c)
  then show ?thesis using assms(1) by (simp add: filter_refs_def tcpProxyCluster_def cluster_ref_Nil network_refs_def)
next
  case (HcmFilter h)
  have "cluster_ref out key ''ext_authz'' (extAuthCluster x) = []" if "x \<in> set (hcm_httpFilters h)" for x
    by (rule cluster_ref_Nil) (use extAuth_ref [OF that] assms(1) HcmFilter in auto)
  then show ?thesis using assms(2,3) [OF HcmFilter]
    by (auto simp: filter_refs_def HcmFilter tcpProxyCluster_def cluster_ref_Nil missing_def checkRouteConfigRefs_Nil split: route_specifier.split)
qed

lemma tls_refs_Nil:
  assumes "chain_ok S c0 c" and "S \<subseteq> fst ` set (ir_secrets out)"
  shows "tls_refs out key c = []"
  using assms by (auto simp: tls_refs_def chain_ok_def missing_def split: option.split tls_validation.split)

section \<open>What the third stage gives\<close>

lemma https_chains_tls: "https_chains B l t h i cs claimed = (chs, es) \<Longrightarrow> ch \<in> set chs \<Longrightarrow> \<exists>c. fch_tls ch = Some (downstreamTLSSocket t c)"
proof (induction cs arbitrary: i claimed chs es)
  case (Cons c cs)
  obtain chs' es' where rest: "https_chains B l t h (Suc i) cs claimed = (chs', es')" by fastforce
  show ?case
  proof (cases "bl_serverNames B (crt_certFile c)")
    case (Inl e)
    then show ?thesis using Cons.prems rest Cons.IH [OF rest] by (simp add: Let_def)
  next
    case (Inr names)
    show ?thesis
    proof (cases names)
      case Nil
      then show ?thesis using Inr Cons.prems rest Cons.IH [OF rest] by (simp add: Let_def)
    next
      case (Cons n ns)
      obtain cl e1 where cl: "claim_names l i (n # ns) claimed = (cl, e1)" by fastforce
      obtain chs'' es'' where rest': "https_chains B l t h (Suc i) cs cl = (chs'', es'')" by fastforce
      have "ch \<in> set chs'' \<or> fch_tls ch = Some (downstreamTLSSocket t c)"
        using Cons.prems Inr by (auto simp: Cons cl rest' Let_def simp del: claim_names.simps)
      then show ?thesis using Cons.IH [OF rest'] by blast
    qed
  qed
qed simp

definition built_chain :: "Listener \<Rightarrow> filter_chain \<Rightarrow> bool" where
  "built_chain l ch \<longleftrightarrow> fch_tls ch = None \<or> (\<exists>t c. lsn_tls (po_spec l) = Some t \<and> fch_tls ch = Some (downstreamTLSSocket t c))"

lemma built_uniform:
  assumes "\<forall>ch \<in> set chs. built_chain l ch"
  shows "uniform chs"
proof -
  define v where "v = (case lsn_tls (po_spec l) of None \<Rightarrow> NoValidation | Some t \<Rightarrow> if ltls_clientCA t \<noteq> [] then ValidationContext (Some (ltls_clientCA t)) else NoValidation)"
  have "(\<exists>tc. dtc_certificates d = [tc]) \<and> dtc_sdsCertificates d = [] \<and> dtc_validation d = v" if ch: "ch \<in> set chs" "fch_tls ch = Some d" for ch d
  proof -
    from assms ch obtain t c where "lsn_tls (po_spec l) = Some t" "d = downstreamTLSSocket t c" unfolding built_chain_def by fastforce
    then show ?thesis by (simp add: v_def downstreamTLSSocket_def)
  qed
  moreover have "v = NoValidation \<or> (\<exists>f. v = ValidationContext (Some f))" by (simp add: v_def split: option.split)
  ultimately have v: "tls_uniform v chs" by (simp add: tls_uniform_def)
  show ?thesis
  proof (cases "List.map_filter fch_tls chs")
    case Nil
    then have "\<forall>c \<in> set chs. fch_tls c = None"
      by (metis (no_types, lifting) emptyE empty_set not_None_eq set_map_filter_iff)
    then show ?thesis by (simp add: uniform_def tls_uniform_def listener_validation_def Nil)
  next
    case (Cons d ds)
    then have "\<exists>c \<in> set chs. fch_tls c = Some d" using set_map_filter_iff [of d fch_tls chs] by simp
    then have "dtc_validation d = v" using v by (auto simp: tls_uniform_def)
    then show ?thesis using v by (simp add: uniform_def listener_validation_def Cons)
  qed
qed

lemma built_listener_chains:
  assumes "build_listener B cs lk l s = Some (Some (lis, rco), es, t)"
  shows "\<forall>ch \<in> set (lis_filterChains lis). built_chain l ch"
proof (cases "is_http l")
  case True
  then have b: "buildHTTPListener B cs lk l s = Some (Some (lis, rco), es, t)" using assms by (simp add: build_listener_def is_http_def)
  show ?thesis
  proof (cases "lsn_protocol (po_spec l) = ''HTTPS''")
    case True
    then obtain h tl es2 where "lsn_tls (po_spec l) = Some tl" "https_chains B l tl h 0 (ltls_certificates tl) Map.empty = (lis_filterChains lis, es2)"
      using b by (auto simp: buildHTTPListener_def buildHTTPSFilterChains_def Let_def split: bind_splits if_splits)
    then show ?thesis using https_chains_tls by (fastforce simp: built_chain_def)
  next
    case False
    then show ?thesis using b by (auto simp: buildHTTPListener_def built_chain_def Let_def split: bind_splits if_splits)
  qed
next
  case False
  then have b: "buildL4Listener cs l = Some (Some lis, es)" using assms by (auto simp: build_listener_def is_http_def)
  have tcp: "built_chain l (tcp_chain l ns p c)" for ns p c by (simp add: tcp_chain_def built_chain_def)
  have "built_chain l ch" if "buildTLSPassthroughListener l rs = Some lis" "ch \<in> set (lis_filterChains lis)" for rs ch
    using that tcp by (auto simp: buildTLSPassthroughListener_def l4_listener_def split: bind_splits dest!: those_map_set)
  then show ?thesis using b tcp unfolding buildL4Listener_def Let_def
    by (auto simp: l4_listener_def split: if_splits)
qed

text \<open>Everything the last stages need of the result of the third.\<close>

definition complete :: "buildResult \<Rightarrow> bool" where
  "complete res \<longleftrightarrow> clean_names (br_listeners res) \<and> (\<forall>c \<in> set (br_clusters res). plain_cluster c) \<and>
     (\<forall>l \<in> set (br_listeners res). uniform (lis_filterChains l) \<and> listener_refs l \<subseteq> compiled_clusters res \<and>
        (\<exists>rn. rds_of l rn \<and> (listener_hcms l \<noteq> {} \<longrightarrow> rn \<in> rcf_name ` set (br_routes res)))) \<and>
     (\<forall>rc \<in> set (br_routes res). config_refs rc \<subseteq> compiled_clusters res)"

lemma complete_listener:
  assumes "complete res" and "l \<in> set (br_listeners res)"
  obtains rn where "uniform (lis_filterChains l)" "listener_refs l \<subseteq> compiled_clusters res" "rds_of l rn" "listener_hcms l \<noteq> {} \<longrightarrow> rn \<in> rcf_name ` set (br_routes res)"
  using assms unfolding complete_def by blast

lemma buildUpstream_plain: "buildUpstream u = Some (Some c, es) \<Longrightarrow> plain_cluster c"
  by (auto simp: buildUpstream_def plain_cluster_def buildCLA_def Let_def split: bind_splits option.splits)

lemma build_complete:
  assumes "loaded cs" and "refs_closed cs" and names: "\<forall>l \<in> set (cfg_listeners cs). ValidateName (po_name l)" and built: "build B cs lk = Some (res, [])"
  shows "complete res" "shaped cs res"
proof -
  note closed = build_closed [OF assms(1,2) built]
  from built obtain ls es1 t us where ls: "build_each (\<lambda>_. build_listener B cs lk) 0 (sortedListeners (cfg_listeners cs)) start_state = Some (ls, es1, t)"
    and us: "those (map buildUpstream (sortedUpstreams (cfg_upstreams cs))) = Some us"
    and res: "br_listeners res = map fst (List.map_filter id ls)" "br_clusters res = sort_key clu_name (List.map_filter fst us @ map snd (bs_jwks t) @ map snd (bs_extAuth t))"
    by (rule build_parts)
  have one: "\<exists>l \<in> set (cfg_listeners cs). lis_name lis = listenerResourceName (po_name l) \<and> uniform (lis_filterChains lis) \<and>
      (listener_hcms lis \<noteq> {} \<longrightarrow> rds_of lis (routeConfigName (po_name l)))" if lis: "lis \<in> set (br_listeners res)" for lis
  proof -
    from lis obtain rco where "Some (lis, rco) \<in> set ls" by (force simp: res(1) set_map_filter_iff)
    then obtain j where j: "j < length ls" "ls ! j = Some (lis, rco)" by (auto simp: in_set_conv_nth)
    let ?l = "sortedListeners (cfg_listeners cs) ! j"
    have len: "j < length (sortedListeners (cfg_listeners cs))" using j(1) list_all2_lengthD [OF build_listeners_closed(2) [OF ls]] by simp
    then have l: "?l \<in> set (cfg_listeners cs)" using nth_mem [OF len] by (simp add: sortedListeners_def)
    have closed: "listener_closed cs (pool_names t) (po_name ?l) (lis, rco)" using list_all2_nthD2 [OF build_listeners_closed(2) [OF ls] j(1)] j(2) by blast
    have trivial: "\<forall>(j::nat) s y e t. \<forall>x \<in> set (sortedListeners (cfg_listeners cs)). build_listener B cs lk x s = Some (y, e, t) \<longrightarrow> True"
      "reflp (\<lambda>(_::build_state) _. True)" "transp (\<lambda>(_::build_state) _. True)" by (simp_all add: reflp_def transp_def)
    from build_each_nth(3) [OF ls trivial len] j(2) obtain a e b where "build_listener B cs lk ?l a = Some (Some (lis, rco), e, b)" by auto
    from built_uniform [OF built_listener_chains [OF this]] l closed show ?thesis
      by (intro bexI [of _ ?l]) (auto simp: listener_closed_def rds_of_def split: option.splits)
  qed
  then show "shaped cs res" by (fastforce simp: shaped_def)
  have "clean_names (br_listeners res)" using closed(4) one names valid_name_slash by (fastforce simp: clean_names_def)
  moreover have "plain_cluster c" if "c \<in> set (br_clusters res)" for c
  proof -
    have pool: "named ''jwt-jwks/'' (bs_jwks t)" "named ''extauth/'' (bs_extAuth t)" using build_listeners_closed(1) [OF ls] by (simp_all add: pooled_def)
    from that consider "c \<in> set (List.map_filter fst us)" | "c \<in> snd ` set (bs_jwks t)" | "c \<in> snd ` set (bs_extAuth t)" by (auto simp: res(2))
    then show ?thesis
    proof cases
      case 1
      then obtain y where y: "y \<in> set us" "fst y = Some c" by (auto simp: set_map_filter_iff)
      then obtain i where "i < length us" "us ! i = y" by (auto simp: in_set_conv_nth)
      then have "buildUpstream (sortedUpstreams (cfg_upstreams cs) ! i) = Some y" using us by (auto simp: those_list_all2 list_all2_conv_all_nth)
      then show ?thesis using y(2) buildUpstream_plain by (cases y) auto
    qed (use pool in \<open>auto simp: named_def\<close>)
  qed
  moreover have "\<exists>rn. rds_of l rn \<and> (listener_hcms l \<noteq> {} \<longrightarrow> rn \<in> rcf_name ` set (br_routes res))" if l: "l \<in> set (br_listeners res)" for l
  proof (cases "listener_hcms l = {}")
    case True
    then show ?thesis by (simp add: rds_of_def)
  next
    case False
    then obtain rn h where rn: "rds_of l rn" "h \<in> listener_hcms l" using one [OF l] by blast
    with closed(3) l obtain rc where "rc \<in> set (br_routes res)" "hcm_routes h = Rds (rcf_name rc)" by blast
    with rn show ?thesis by (auto simp: rds_of_def)
  qed
  moreover have "uniform (lis_filterChains l)" if "l \<in> set (br_listeners res)" for l using one [OF that] by blast
  ultimately show "complete res" unfolding complete_def using closed(1,2) by blast
qed

section \<open>The last stages\<close>

lemma by_name_in: "x \<in> set (by_name f ms) \<Longrightarrow> snd x \<in> set ms \<and> fst x = f (snd x)"
proof -
  assume "x \<in> set (by_name f ms)"
  then obtain k where k: "k \<in> f ` set ms" "x = (k, the (map_of (rev (map (\<lambda>m. (f m, m)) ms)) k))" by (auto simp: by_name_def go_map_json_def)
  then have "k \<in> dom (map_of (rev (map (\<lambda>m. (f m, m)) ms)))" by (auto simp: dom_map_of_conv_image_fst image_image)
  then obtain m where "map_of (rev (map (\<lambda>m. (f m, m)) ms)) k = Some m" by blast
  then show ?thesis using k(2) map_of_SomeD by fastforce
qed

lemma by_name_names: "fst ` set (by_name f ms) = f ` set ms"
  by (auto simp: by_name_def go_map_json_def image_image)

lemma set_routes_refs: "network_refs (set_routes rc f) = network_refs f"
  by (simp add: set_routes_def network_refs_def split: network_filter.split)

lemma list_all2_in2: "list_all2 P xs ys \<Longrightarrow> y \<in> set ys \<Longrightarrow> \<exists>x \<in> set xs. P x y"
  by (induction rule: list_all2_induct) auto

lemma udp_ref: "UdpProxy p c \<in> set (lis_listenerFilters lis) \<Longrightarrow> c \<in> listener_refs lis"
  by (force simp: listener_refs_def)

lemma listener_ref_errors_Nil:
  assumes "\<forall>ch \<in> set (lis_filterChains lis). (\<forall>f \<in> set (fch_filters ch). filter_refs out (ResourceListener, n) f = []) \<and> tls_refs out (ResourceListener, n) ch = []"
    and "listener_refs lis \<subseteq> fst ` set (ir_clusters out)"
  shows "listener_ref_errors out (n, lis) = []"
proof -
  have "cluster_ref out (ResourceListener, n) ''UDP proxy'' (udpProxyCluster f) = []" if "f \<in> set (lis_listenerFilters lis)" for f
    by (rule cluster_ref_Nil) (use assms(2) that udp_ref in \<open>auto simp: udpProxyCluster_def split: listener_filter.splits\<close>)
  then show ?thesis using assms(1) by (simp add: listener_ref_errors_def Let_def)
qed

lemma network_refs_listener: "ch \<in> set (lis_filterChains lis) \<Longrightarrow> f \<in> set (fch_filters ch) \<Longrightarrow> network_refs f \<subseteq> listener_refs lis"
  by (auto simp: listener_refs_def)

text \<open>The two forms of a listener refer to nothing that is not there.\<close>

lemma referenced_listener:
  assumes "list_all2 (chain_ok S) (lis_filterChains lis) chs" and "S \<subseteq> fst ` set (ir_secrets out)" and refs: "listener_refs lis \<subseteq> fst ` set (ir_clusters out)"
    and "rds_of lis rn" and rn: "listener_hcms lis \<noteq> {} \<longrightarrow> rn \<in> fst ` set (ir_routes out)"
  shows "listener_ref_errors out (n, lis\<lparr>lis_filterChains := chs\<rparr>) = []"
proof (rule listener_ref_errors_Nil)
  have from_old: "\<exists>c \<in> set (lis_filterChains lis). chain_ok S c ch" if "ch \<in> set chs" for ch
    using list_all2_in2 [OF assms(1) that] .
  show "\<forall>ch \<in> set (lis_filterChains (lis\<lparr>lis_filterChains := chs\<rparr>)).
      (\<forall>f \<in> set (fch_filters ch). filter_refs out (ResourceListener, n) f = []) \<and> tls_refs out (ResourceListener, n) ch = []"
  proof (intro ballI conjI)
    fix ch assume "ch \<in> set (lis_filterChains (lis\<lparr>lis_filterChains := chs\<rparr>))"
    then obtain c where c: "c \<in> set (lis_filterChains lis)" "chain_ok S c ch" using from_old by auto
    show "tls_refs out (ResourceListener, n) ch = []" using c(2) assms(2) by (rule tls_refs_Nil)
    fix f assume "f \<in> set (fch_filters ch)"
    then have f: "f \<in> set (fch_filters c)" using c(2) by (simp add: chain_ok_def)
    show "filter_refs out (ResourceListener, n) f = []"
    proof (rule filter_refs_Nil)
      show "network_refs f \<subseteq> fst ` set (ir_clusters out)" using network_refs_listener [OF c(1) f] refs by blast
      fix h assume h: "f = HcmFilter h"
      then have "h \<in> listener_hcms lis" using c(1) f by (auto simp: listener_hcms_def)
      then have "hcm_routes h = Rds rn" "rn \<in> fst ` set (ir_routes out)" using assms(4) rn by (auto simp: rds_of_def)
      then show "m \<in> fst ` set (ir_routes out)" if "hcm_routes h = Rds m" for m using that by simp
      from \<open>hcm_routes h = Rds rn\<close> show "config_refs rc \<subseteq> fst ` set (ir_clusters out)" if "hcm_routes h = InlineRoutes rc" for rc using that by simp
    qed
  qed
  have "listener_refs (lis\<lparr>lis_filterChains := chs\<rparr>) \<subseteq> listener_refs lis" using from_old by (fastforce simp: listener_refs_def chain_ok_def)
  then show "listener_refs (lis\<lparr>lis_filterChains := chs\<rparr>) \<subseteq> fst ` set (ir_clusters out)" using refs by blast
qed

lemma inlined_listener:
  assumes "list_all2 (chain_inlined x) (lis_filterChains lis) chs" and refs: "listener_refs lis \<subseteq> fst ` set (ir_clusters out)"
    and x: "\<forall>rc. x = Some rc \<longrightarrow> config_refs rc \<subseteq> fst ` set (ir_clusters out)" "listener_hcms lis \<noteq> {} \<longrightarrow> x \<noteq> None"
  shows "listener_ref_errors out (n, lis\<lparr>lis_filterChains := chs\<rparr>) = []"
proof (rule listener_ref_errors_Nil)
  have from_old: "\<exists>c \<in> set (lis_filterChains lis). chain_inlined x c ch" if "ch \<in> set chs" for ch
    using list_all2_in2 [OF assms(1) that] .
  have filters: "f' \<in> set (inlined_filters x (fch_filters c)) \<longleftrightarrow> (\<exists>f \<in> set (fch_filters c). f' = (case x of None \<Rightarrow> f | Some rc \<Rightarrow> set_routes rc f))" for f' c
    by (auto simp: inlined_filters_def split: option.split)
  have keep: "network_refs (case x of None \<Rightarrow> f | Some rc \<Rightarrow> set_routes rc f) = network_refs f" for f by (simp add: set_routes_refs split: option.split)
  show "\<forall>ch \<in> set (lis_filterChains (lis\<lparr>lis_filterChains := chs\<rparr>)).
      (\<forall>f \<in> set (fch_filters ch). filter_refs out (ResourceListener, n) f = []) \<and> tls_refs out (ResourceListener, n) ch = []"
  proof (intro ballI conjI)
    fix ch assume "ch \<in> set (lis_filterChains (lis\<lparr>lis_filterChains := chs\<rparr>))"
    then obtain c where c: "c \<in> set (lis_filterChains lis)" "chain_inlined x c ch" using from_old by auto
    then show "tls_refs out (ResourceListener, n) ch = []" using tls_refs_Nil by (fastforce simp: chain_inlined_def)
    fix f' assume "f' \<in> set (fch_filters ch)"
    then obtain f where f: "f \<in> set (fch_filters c)" and f': "f' = (case x of None \<Rightarrow> f | Some rc \<Rightarrow> set_routes rc f)"
      using c(2) filters [of f' c] by (auto simp: chain_inlined_def chain_ok_def)
    show "filter_refs out (ResourceListener, n) f' = []"
    proof (rule filter_refs_Nil)
      show "network_refs f' \<subseteq> fst ` set (ir_clusters out)" using network_refs_listener [OF c(1) f] refs by (auto simp: f' keep)
      fix h' assume h': "f' = HcmFilter h'"
      then obtain h where "f = HcmFilter h" using f' by (auto simp: set_routes_def split: option.splits network_filter.splits)
      moreover from this have "h \<in> listener_hcms lis" using c(1) f by (auto simp: listener_hcms_def)
      ultimately obtain rc where "x = Some rc" "hcm_routes h' = InlineRoutes rc" using x(2) f' h' by (auto simp: set_routes_def)
      then show "m \<in> fst ` set (ir_routes out)" if "hcm_routes h' = Rds m" for m using that by simp
      show "config_refs r \<subseteq> fst ` set (ir_clusters out)" if "hcm_routes h' = InlineRoutes r" for r
        using that x(1) \<open>x = Some rc\<close> \<open>hcm_routes h' = InlineRoutes rc\<close> by simp
    qed
  qed
  have "network_refs f' \<subseteq> listener_refs lis" if "ch \<in> set chs" "f' \<in> set (fch_filters ch)" for ch f'
  proof -
    from from_old [OF that(1)] obtain c where c: "c \<in> set (lis_filterChains lis)" "fch_filters ch = inlined_filters x (fch_filters c)"
      by (auto simp: chain_inlined_def chain_ok_def)
    with that(2) obtain f where "f \<in> set (fch_filters c)" "f' = (case x of None \<Rightarrow> f | Some rc \<Rightarrow> set_routes rc f)" using filters by auto
    then show ?thesis using network_refs_listener [OF c(1)] keep by simp
  qed
  then have "listener_refs (lis\<lparr>lis_filterChains := chs\<rparr>) \<subseteq> listener_refs lis" by (auto simp: listener_refs_def)
  then show "listener_refs (lis\<lparr>lis_filterChains := chs\<rparr>) \<subseteq> fst ` set (ir_clusters out)" using refs by blast
qed

lemma to_eds_name [simp]: "clu_name (to_eds s c) = clu_name c" by (simp add: to_eds_def)

lemma extractEDS_ok:
  assumes "syn_endpoints s = []" and "\<forall>c \<in> set (syn_clusters s). plain_cluster c"
  obtains s1 where "extractEDS s = (s1, [])" "syn_clusters s1 = map (to_eds s) (syn_clusters s)" "syn_routes s1 = syn_routes s" "syn_secrets s1 = syn_secrets s"
    "\<forall>c \<in> set (syn_clusters s1). clu_eds c \<longrightarrow> clu_name c \<in> cla_clusterName ` set (syn_endpoints s1)"
proof -
  define moved where "moved = List.map_filter (\<lambda>c. map_option (\<lambda>a. (c, a)) (extractable s c)) (sort_key clu_name (syn_clusters s))"
  define s1 where "s1 = fold eds_source moved s"
  have "resourced s s" by (auto simp: resourced_def intro: exI [of _ "syn_sourceMap s"])
  then have "resourced s s1" unfolding s1_def by (intro resourced_fold) (auto simp: eds_source_def intro: resourced_set)
  then have same: "syn_routes s1 = syn_routes s" "syn_secrets s1 = syn_secrets s" by (auto simp: resourced_def)
  let ?s = "s1\<lparr>syn_clusters := map (to_eds s) (syn_clusters s), syn_endpoints := syn_endpoints s @ map snd moved\<rparr>"
  have no: "\<not> eds_conflict s a" for a using assms(1) by (simp add: eds_conflict_def hasResource_def resource_kinds)
  then have "eds_errors s c = []" for c by (simp add: eds_errors_def split: option.split)
  then have "extractEDS s = (?s, [])" by (simp add: extractEDS_def Let_def moved_def s1_def)
  moreover have "clu_name c \<in> cla_clusterName ` snd ` set moved" if c: "c \<in> set (syn_clusters s)" "clu_eds (to_eds s c)" for c
  proof -
    from c assms(2) obtain a where a: "extractable s c = Some a" by (auto simp: to_eds_def plain_cluster_def split: if_splits)
    then have "clu_loadAssignment c = Some a" by (auto simp: extractable_def split: if_splits option.splits)
    then have "cla_clusterName a = clu_name c" using assms(2) c(1) by (auto simp: plain_cluster_def)
    moreover have "(c, a) \<in> set moved" using a c(1) by (auto simp: moved_def set_map_filter_iff)
    ultimately show ?thesis by (metis (mono_tags, lifting) image_eqI snd_conv)
  qed
  ultimately show thesis using same by (intro that [of ?s]) (auto simp: image_Un)
qed

lemma check_cross_refs:
  assumes "\<forall>x \<in> set (ir_listeners out). listener_ref_errors out x = []" and "\<forall>(n, c) \<in> set (ir_clusters out). clu_eds c \<longrightarrow> n \<in> fst ` set (ir_endpoints out)"
    and "\<forall>(n, rc) \<in> set (ir_routes out). config_refs rc \<subseteq> fst ` set (ir_clusters out)"
  shows "checkCrossRefs out = []"
  using assms by (auto simp: checkCrossRefs_def missing_def checkRouteConfigRefs_Nil)

lemma compiled_all:
  assumes "syn_listeners s = map (\<lambda>l. (True, l)) ls" and "set (syn_compiledListeners s) = lis_name ` set ls"
  shows "map (\<lambda>x. if compiled s x then f x else g x) (syn_listeners s) = map (\<lambda>l. f (True, l)) ls"
  using assms by (auto simp: compiled_def)

lemma materialize_xds_ok:
  assumes syn: "syn_listeners s = map (\<lambda>l. (True, l)) (br_listeners res)" "syn_routes s = br_routes res" "syn_clusters s = br_clusters res" "syn_endpoints s = []"
    "set (syn_compiledListeners s) = lis_name ` set (br_listeners res)" "holds_secrets s"
    "sec_name ` set (syn_secrets s) = (\<Union>lis \<in> set (br_listeners res). listener_secrets lis)" and "complete res"
  obtains ir where "materialize_xds s = (Some ir, [])" "checkCrossRefs ir = []" "fst ` set (ir_listeners ir) = lis_name ` set (br_listeners res)"
proof -
  have c: "clean_names (br_listeners res)" "\<forall>c \<in> set (syn_clusters s). plain_cluster c" using assms(8) by (simp_all add: complete_def syn(3))
  from extractEDS_ok [OF syn(4) c(2)] obtain s1 where s1: "extractEDS s = (s1, [])" "syn_clusters s1 = map (to_eds s) (syn_clusters s)" "syn_routes s1 = syn_routes s"
    "syn_secrets s1 = syn_secrets s" "\<forall>c \<in> set (syn_clusters s1). clu_eds c \<longrightarrow> clu_name c \<in> cla_clusterName ` set (syn_endpoints s1)" by metis
  have ref: "\<exists>chs. referenceSDS s lis = (lis\<lparr>lis_filterChains := chs\<rparr>, []) \<and> list_all2 (chain_ok (sec_name ` set (syn_secrets s))) (lis_filterChains lis) chs"
    if "lis \<in> set (br_listeners res)" for lis
    using referenceSDS_ok [OF syn(6,7) c(1) that] assms(8) that by (metis complete_def)
  then have errs: "concat (map (\<lambda>l. snd (referenceSDS s l)) (br_listeners res)) = []" by fastforce
  let ?ls = "map (\<lambda>l. fst (referenceSDS s l)) (br_listeners res)"
  define ir where "ir = \<lparr>ir_listeners = by_name lis_name ?ls, ir_clusters = by_name clu_name (syn_clusters s1), ir_routes = by_name rcf_name (syn_routes s1),
         ir_endpoints = by_name cla_clusterName (syn_endpoints s1), ir_secrets = by_name sec_name (syn_secrets s1),
         ir_bootstrap = buildBootstrap, ir_version = [], ir_sourceMap = syn_sourceMap s1\<rparr>"
  have names: "fst ` set (ir_clusters ir) = compiled_clusters res" "fst ` set (ir_routes ir) = rcf_name ` set (br_routes res)"
    "fst ` set (ir_secrets ir) = sec_name ` set (syn_secrets s)" "fst ` set (ir_endpoints ir) = cla_clusterName ` set (syn_endpoints s1)"
    by (simp_all add: ir_def by_name_names s1 syn image_image compiled_clusters_def)
  have mat: "materialize_xds s = (Some ir, [])"
    unfolding materialize_xds_def Let_def compiled_all [OF syn(1,5)] by (simp add: s1(1) errs hasErrors_def ir_def comp_def)
  have "listener_ref_errors ir (n, lis) = []" if "(n, lis) \<in> set (ir_listeners ir)" for n lis
  proof -
    from by_name_in that have "lis \<in> set ?ls" by (fastforce simp: ir_def)
    then obtain l chs where l: "l \<in> set (br_listeners res)" "lis = l\<lparr>lis_filterChains := chs\<rparr>"
      "list_all2 (chain_ok (sec_name ` set (syn_secrets s))) (lis_filterChains l) chs" using ref by fastforce
    from assms(8) l(1) obtain rn where "listener_refs l \<subseteq> compiled_clusters res" "rds_of l rn" "listener_hcms l \<noteq> {} \<longrightarrow> rn \<in> rcf_name ` set (br_routes res)"
      by (rule complete_listener)
    then show ?thesis unfolding l(2) by (intro referenced_listener [OF l(3)]) (simp_all add: names)
  qed
  moreover have "\<forall>(n, c) \<in> set (ir_clusters ir). clu_eds c \<longrightarrow> n \<in> fst ` set (ir_endpoints ir)"
    using s1(5) by_name_in unfolding names(4) by (fastforce simp: ir_def)
  moreover have "\<forall>(n, rc) \<in> set (ir_routes ir). config_refs rc \<subseteq> fst ` set (ir_clusters ir)"
    using assms(8) by_name_in [of _ rcf_name] unfolding names(1) by (fastforce simp: ir_def complete_def s1(3) syn(2))
  ultimately have "checkCrossRefs ir = []" by (intro check_cross_refs) auto
  moreover have "fst ` set (ir_listeners ir) = lis_name ` set (br_listeners res)"
    using ref by (force simp: ir_def by_name_names image_image)
  ultimately show thesis using mat that by blast
qed

lemma materialize_static_ok:
  assumes syn: "syn_listeners s = map (\<lambda>l. (True, l)) (br_listeners res)" "syn_routes s = br_routes res" "syn_clusters s = br_clusters res" "syn_endpoints s = []"
    "set (syn_compiledListeners s) = lis_name ` set (br_listeners res)" "holds_secrets s"
    "sec_name ` set (syn_secrets s) = (\<Union>lis \<in> set (br_listeners res). listener_secrets lis)" and "complete res"
  obtains ir where "materialize_static s = (Some ir, [])" "checkCrossRefs ir = []" "fst ` set (ir_listeners ir) = lis_name ` set (br_listeners res)"
proof -
  have c: "clean_names (br_listeners res)" using assms(8) by (simp add: complete_def)
  have inl: "\<exists>chs x inl. inlineListener s (True, lis) = (lis\<lparr>lis_filterChains := chs\<rparr>, inl, []) \<and> list_all2 (chain_inlined x) (lis_filterChains lis) chs \<and>
      (\<forall>rc. x = Some rc \<longrightarrow> rc \<in> set (br_routes res)) \<and> (listener_hcms lis \<noteq> {} \<longrightarrow> x \<noteq> None)" if lis: "lis \<in> set (br_listeners res)" for lis
  proof -
    from assms(8) lis obtain rn where "uniform (lis_filterChains lis)" "rds_of lis rn" "listener_hcms lis \<noteq> {} \<longrightarrow> rn \<in> rcf_name ` set (syn_routes s)"
      unfolding syn(2) by (rule complete_listener)
    from inlineListener_ok [OF syn(6,7) c lis this] show ?thesis unfolding syn(2) by metis
  qed
  then have errs: "concat (map (\<lambda>l. case inlineListener s (True, l) of (l, r, e) \<Rightarrow> e) (br_listeners res)) = []" by fastforce
  let ?ls = "map (\<lambda>l. fst (inlineListener s (True, l))) (br_listeners res)" and ?names = "concat (map (\<lambda>l. case inlineListener s (True, l) of (l, r, e) \<Rightarrow> r) (br_listeners res))"
  define ir where "ir = \<lparr>ir_listeners = by_name lis_name ?ls, ir_clusters = by_name clu_name (syn_clusters s),
         ir_routes = by_name rcf_name (filter (\<lambda>rc. rcf_name rc \<notin> set ?names) (syn_routes s)),
         ir_endpoints = by_name cla_clusterName (syn_endpoints s),
         ir_secrets = by_name sec_name (filter (\<lambda>x. sec_name x \<notin> set (syn_compiledSecrets s)) (syn_secrets s)),
         ir_bootstrap = buildBootstrap, ir_version = [], ir_sourceMap = syn_sourceMap s\<rparr>"
  have names: "fst ` set (ir_clusters ir) = compiled_clusters res" by (simp add: ir_def by_name_names syn compiled_clusters_def)
  have mat: "materialize_static s = (Some ir, [])"
    unfolding materialize_static_def Let_def compiled_all [OF syn(1,5)] map_map comp_def errs ir_def by (simp add: hasErrors_def)
  have "listener_ref_errors ir (n, lis) = []" if "(n, lis) \<in> set (ir_listeners ir)" for n lis
  proof -
    from by_name_in that have "lis \<in> set ?ls" by (fastforce simp: ir_def)
    then obtain l where l: "l \<in> set (br_listeners res)" "lis = fst (inlineListener s (True, l))" by auto
    from inl [OF l(1)] obtain chs x ns where i: "inlineListener s (True, l) = (l\<lparr>lis_filterChains := chs\<rparr>, ns, [])" and chs: "list_all2 (chain_inlined x) (lis_filterChains l) chs"
      and x: "\<forall>rc. x = Some rc \<longrightarrow> rc \<in> set (br_routes res)" "listener_hcms l \<noteq> {} \<longrightarrow> x \<noteq> None" by blast
    have lis: "lis = l\<lparr>lis_filterChains := chs\<rparr>" using l(2) i by simp
    have "\<forall>rc. x = Some rc \<longrightarrow> config_refs rc \<subseteq> fst ` set (ir_clusters ir)" "listener_refs l \<subseteq> fst ` set (ir_clusters ir)"
      using assms(8) x(1) l(1) unfolding names complete_def by blast+
    then show ?thesis unfolding lis using chs x(2) by (intro inlined_listener)
  qed
  moreover have "\<forall>(n, c) \<in> set (ir_clusters ir). clu_eds c \<longrightarrow> n \<in> fst ` set (ir_endpoints ir)"
    using assms(8) by_name_in [of _ clu_name "br_clusters res"] by (fastforce simp: ir_def complete_def plain_cluster_def syn(3))
  moreover have "\<forall>(n, rc) \<in> set (ir_routes ir). config_refs rc \<subseteq> fst ` set (ir_clusters ir)"
    using assms(8) by_name_in [of _ rcf_name] unfolding names by (fastforce simp: ir_def complete_def syn(2))
  ultimately have "checkCrossRefs ir = []" by (intro check_cross_refs) auto
  moreover have "fst ` set (ir_listeners ir) = lis_name ` set (br_listeners res)"
    using inl by (force simp: ir_def by_name_names image_image)
  ultimately show thesis using mat that by blast
qed

lemma materialize_plain:
  assumes "plain_config cs" and "shaped cs res" and "complete res" and "mode \<in> {ModeXDS, ModeStatic}"
  obtains s ir where "synthesize L cs res = (s, [])" "materialize s mode = (Some ir, [])" "checkCrossRefs ir = []"
    "fst ` set (ir_listeners ir) = lis_name ` set (br_listeners res)"
proof -
  from assms(1,2) obtain s where s: "synthesize L cs res = (s, [])" "syn_listeners s = map (\<lambda>l. (True, l)) (br_listeners res)" "syn_routes s = br_routes res"
    "syn_clusters s = br_clusters res" "syn_endpoints s = []" "set (syn_compiledListeners s) = lis_name ` set (br_listeners res)" "holds_secrets s"
    "sec_name ` set (syn_secrets s) = (\<Union>lis \<in> set (br_listeners res). listener_secrets lis)" by (rule synthesized)
  note ok = s(2-8) assms(3)
  show thesis
  proof (cases "mode = ModeXDS")
    case True
    from ok obtain ir where "materialize_xds s = (Some ir, [])" "checkCrossRefs ir = []" "fst ` set (ir_listeners ir) = lis_name ` set (br_listeners res)"
      by (rule materialize_xds_ok)
    then show thesis using True s(1) by (intro that) (simp_all add: materialize_def)
  next
    case False
    from ok obtain ir where "materialize_static s = (Some ir, [])" "checkCrossRefs ir = []" "fst ` set (ir_listeners ir) = lis_name ` set (br_listeners res)"
      by (rule materialize_static_ok)
    then show thesis using False assms(4) s(1) by (intro that) (auto simp: materialize_def ModeXDS_def ModeStatic_def)
  qed
qed

end
