(* ===== verification/CompileExample.thy ===== *)
theory CompileExample
  imports BuildRefs
begin

text \<open>
  A small configuration for the witnesses: one HTTP listener with two routes on the same upstream, the
  second of which asks an authorization service, and an address policy of the gateway.
\<close>

definition no_origin :: origin where "no_origin = \<lparr>or_file = ''gw.yaml'', or_docIndex = 0\<rparr>"

definition example_object :: "string \<Rightarrow> string \<Rightarrow> 's \<Rightarrow> 's protocol_object" where
  "example_object kind n s = \<lparr>po_apiVersion = APIVersionV1Alpha1, po_kind = kind, po_metadata = \<lparr>om_name = n, om_labels = []\<rparr>, po_spec = s, po_origin = no_origin\<rparr>"

definition no_policy :: PolicySpec where
  "no_policy = \<lparr>pol_headerModifier = None, pol_cors = None, pol_rateLimit = None, pol_jwt = None, pol_extAuth = None, pol_ipAccess = None, pol_basicAuth = None\<rparr>"

definition example_auth :: ExtAuthPolicy where
  "example_auth = \<lparr>xa_grpc = Some ''auth:9000'', xa_http = None, xa_failOpen = False, xa_disabled = False\<rparr>"

definition example_access :: IPAccessPolicy where
  "example_access = \<lparr>ipa_allow = [''10.0.0.0/8''], ipa_deny = []\<rparr>"

definition example_rule :: "PolicyAttachment list \<Rightarrow> Rule" where
  "example_rule ps = \<lparr>rule_name = [], rule_match = \<lparr>rm_path = Some \<lparr>pm_exact = [], pm_prefix = ''/'', pm_regex = []\<rparr>, rm_methods = [], rm_headers = [], rm_queryParams = []\<rparr>,
     rule_rewrite = None, rule_backends = [\<lparr>bk_upstream = ''app'', bk_weight = None\<rparr>], rule_redirect = None, rule_directResponse = None,
     rule_timeout = None, rule_retry = None, rule_policies = ps\<rparr>"

definition example_route :: "string \<Rightarrow> string \<Rightarrow> PolicyAttachment list \<Rightarrow> Route" where
  "example_route n host ps = example_object ''Route'' n \<lparr>rts_listeners = [''web''], rts_hostnames = [host], rts_policies = [], rts_rules = [example_rule ps],
     rts_forward = None, rts_envoyPatch = []\<rparr>"

definition example_listener :: Listener where
  "example_listener = example_object ''Listener'' ''web'' \<lparr>lsn_address = [], lsn_port = 8080, lsn_protocol = ''HTTP'', lsn_tls = None, lsn_http = None,
     lsn_policies = [], lsn_envoyPatch = []\<rparr>"

definition example_upstream :: Upstream where
  "example_upstream = example_object ''Upstream'' ''app'' \<lparr>ups_endpoints = [\<lparr>epn_address = ''10.0.0.2'', epn_port = 8000, epn_weight = None\<rparr>],
     ups_dns = None, ups_kubernetesService = None, ups_loadBalancer = None, ups_healthCheck = None, ups_tls = None, ups_connection = None, ups_envoyPatch = []\<rparr>"

definition example_config :: ConfigSet where
  "example_config = \<lparr>cfg_gateway = Some (example_object ''Gateway'' ''default'' \<lparr>gws_accessLog = None, gws_http = None,
       gws_policies = [\<lparr>pa_ref = [], pa_inline = Some (no_policy\<lparr>pol_ipAccess := Some example_access\<rparr>)\<rparr>], gws_envoyPatch = []\<rparr>),
     cfg_listeners = [example_listener],
     cfg_routes = [example_route ''open'' ''a.example'' [], example_route ''guarded'' ''b.example'' [\<lparr>pa_ref = ''sso'', pa_inline = None\<rparr>]],
     cfg_upstreams = [example_upstream],
     cfg_policies = [example_object ''Policy'' ''sso'' (no_policy\<lparr>pol_extAuth := Some example_auth\<rparr>)],
     cfg_envoyResources = []\<rparr>"

definition example_options :: compile_options where
  "example_options = \<lparr>opt_mode = ''xds'', opt_hasEndpointSource = False, opt_managedCertificateDir = []\<rparr>"

definition example_verifier :: cert_verifier where
  "example_verifier = \<lparr>ver_keyPair = (\<lambda>c k. None), ver_caFile = (\<lambda>c. None)\<rparr>"

text \<open>A library that knows one network.\<close>

definition example_lib :: build_lib where
  "example_lib = \<lparr>bl_net = \<lparr>nl_parsePrefix = (\<lambda>t. if t = ''10.0.0.0/8'' then Some (''10.0.0.0'', 8) else None), nl_parseURL = (\<lambda>_. Inl ''no URL'')\<rparr>,
     bl_sha256hex = (\<lambda>t. replicate 64 (CHR ''0'')), bl_isIP = (\<lambda>_. False), bl_serverNames = (\<lambda>_. Inr [''b.example''])\<rparr>"

lemmas example_defs = example_config_def example_object_def example_listener_def example_route_def example_rule_def example_upstream_def
  example_auth_def example_access_def example_options_def example_verifier_def example_lib_def no_policy_def no_origin_def

lemma example_loaded: "loaded example_config"
  by (simp add: loaded_def example_defs ListenerProtocol_Valid_def)

lemma example_validated: "validated (bl_net example_lib) example_config"
proof -
  have "validateHostPort ''auth:9000'' = None" "ValidateName ''sso''" "ValidateName ''web''" by code_simp+
  then show ?thesis
    by (simp add: validated_def example_defs GatewaySpec_validate_def ListenerSpec_validate_def RouteSpec_validate_def UpstreamSpec_validate_def
      PolicySpec_validate_def validatePolicyAttachments_def validateEnvoyPatches_def Rule_validate_def RuleMatch_validate_def validate_extAuth_def
      validate_cidrs_def policy_types_def name_fault_def port_fault_def ListenerProtocol_Valid_def Endpoint_validate_def upstream_sources_def Let_def fault_if_def or_else_def)
qed

lemmas default_defs = ApplyDefaults_def gateway_defaults_def gateway_http_def empty_http_def attachment_defaults_def policy_defaults_def
  listener_defaults_def listener_http_def isHTTPProtocol_def route_defaults_def rule_defaults_def upstream_defaults_def upstream_balancer_def
  upstream_connection_def default_to_def default_list_def on_spec_def Let_def

definition example_filled :: ConfigSet where "example_filled = ApplyDefaults example_config"

lemma example_linked: "well_linked example_options example_verifier example_filled"
  unfolding well_linked_def
proof (intro conjI)
  note defs = example_filled_def default_defs example_defs
  show "refs_closed example_filled" by (simp add: refs_closed_def all_attachments_def rule_attachments_def route_upstreams_def defs)
  show "addresses_unique example_filled" by (simp add: addresses_unique_def defs)
  show "routes_formed example_filled" by (simp add: routes_formed_def on_listener_def is_http_def has_rules_def has_forward_def sni_hosts_def defs)
  show "forwarding_formed example_filled" by (simp add: forwarding_formed_def is_http_def has_rules_def has_forward_def defs)
  have "to_lower ''a.example'' \<noteq> to_lower ''b.example''" by code_simp
  then show "hostnames_disjoint example_filled" by (simp add: hostnames_disjoint_def on_listener_def route_hostnames_def has_rules_def defs)
  show "levels_allowed example_filled" by (simp add: levels_allowed_def rule_attachments_def policyTypeOf_def attached_spec_def link_index_def index_by_name_def policyTypeKey_def defs)
  show "tls_where_terminated example_filled" "certificates_usable example_options example_verifier example_filled" "sources_available example_options example_filled"
    by (simp_all add: tls_where_terminated_def certificates_usable_def sources_available_def defs)
qed

end
