(* ===== verification/CompileProps.thy ===== *)
theory CompileProps
  imports CompileRefs CompileExample
begin

text \<open>
  The properties of the compiler as a whole: what the second stage accepts, that the stages never panic on
  a loaded configuration, that what is delivered is closed under references, and what the policies do.
\<close>

section \<open>The configuration between the stages\<close>

lemma link_parts:
  assumes "loaded cs" and "link opts V cs = (cs', lk, [])"
  shows "cs' = resolve_certificates opts (ApplyDefaults cs)" "lk = link_index cs'" "well_linked opts V (ApplyDefaults cs)"
proof -
  show "cs' = resolve_certificates opts (ApplyDefaults cs)" "lk = link_index cs'" using assms(2) by (auto simp: link_def Let_def)
  have "link_checks opts V (ApplyDefaults cs) = []" using assms(2) by (auto simp: link_def Let_def)
  then show "well_linked opts V (ApplyDefaults cs)" using link_checks_Nil [OF defaults_loaded [OF assms(1)]] by blast
qed

lemma resolved_names: "po_name ` set (cfg_listeners (resolve_certificates opts cs)) = po_name ` set (cfg_listeners cs)"
  by (simp add: image_image)

lemma resolved_refs: "refs_closed (resolve_certificates opts cs) = refs_closed cs"
proof -
  have "all_attachments (resolve_certificates opts cs) = all_attachments cs" by (simp add: all_attachments_def comp_def)
  then show ?thesis unfolding refs_closed_def resolved_names by simp
qed

lemma resolved_loaded: "loaded (resolve_certificates opts cs) = loaded cs"
  by (simp add: loaded_def comp_def)

lemma plain_defaults: "plain_config cs \<Longrightarrow> plain_config (resolve_certificates opts (ApplyDefaults cs))"
  by (auto simp: plain_config_def ApplyDefaults_def resolve_certificates_def gateway_defaults_def listener_defaults_def route_defaults_def
    upstream_defaults_def empty_gateway_def Let_def split: option.splits)

lemma linked_config:
  assumes "loaded cs" and "link opts V cs = (cs', lk, [])"
  shows "loaded cs'" "refs_closed cs'" "po_name ` set (cfg_listeners cs') = po_name ` set (cfg_listeners cs)" "plain_config cs \<Longrightarrow> plain_config cs'"
proof -
  note parts = link_parts [OF assms]
  show "loaded cs'" using assms(1) by (simp add: parts(1) resolved_loaded defaults_loaded)
  show "refs_closed cs'" using parts(3) by (simp add: parts(1) resolved_refs well_linked_def)
  show "po_name ` set (cfg_listeners cs') = po_name ` set (cfg_listeners cs)" by (simp add: parts(1) image_image ApplyDefaults_def)
  show "plain_config cs'" if "plain_config cs" using that by (simp add: parts(1) plain_defaults)
qed

lemma link_stops: "link opts V cs = (cs', lk, es) \<Longrightarrow> \<not> hasErrors es \<Longrightarrow> es = []"
  using hasErrors_link [of opts V "ApplyDefaults cs"] by (auto simp: link_def Let_def)

section \<open>References\<close>

text \<open>A set of resources in which every reference has its target.\<close>

definition filter_closed :: "IR \<Rightarrow> network_filter \<Rightarrow> bool" where
  "filter_closed ir f \<longleftrightarrow>
     (case f of
        TcpProxy p c \<Rightarrow> {c} - {[]} \<subseteq> fst ` set (ir_clusters ir)
      | HcmFilter h \<Rightarrow>
          (\<forall>x \<in> set (hcm_httpFilters h). {extAuthCluster x} - {[]} \<subseteq> fst ` set (ir_clusters ir)) \<and>
          (case hcm_routes h of Rds n \<Rightarrow> n \<in> fst ` set (ir_routes ir) | InlineRoutes rc \<Rightarrow> config_refs rc - {[]} \<subseteq> fst ` set (ir_clusters ir)))"

definition chain_closed :: "IR \<Rightarrow> filter_chain \<Rightarrow> bool" where
  "chain_closed ir c \<longleftrightarrow> (\<forall>f \<in> set (fch_filters c). filter_closed ir f) \<and>
     (\<forall>d. fch_tls c = Some d \<longrightarrow> set (dtc_sdsCertificates d) \<subseteq> fst ` set (ir_secrets ir) \<and>
        (\<forall>n. dtc_validation d = ValidationSds n \<longrightarrow> n \<in> fst ` set (ir_secrets ir)))"

definition references_closed :: "IR \<Rightarrow> bool" where
  "references_closed ir \<longleftrightarrow>
     (\<forall>(n, lis) \<in> set (ir_listeners ir). (\<forall>c \<in> set (lis_filterChains lis). chain_closed ir c) \<and>
        (\<forall>p c. UdpProxy p c \<in> set (lis_listenerFilters lis) \<longrightarrow> {c} - {[]} \<subseteq> fst ` set (ir_clusters ir))) \<and>
     (\<forall>(n, c) \<in> set (ir_clusters ir). clu_eds c \<longrightarrow> n \<in> fst ` set (ir_endpoints ir)) \<and>
     (\<forall>(n, rc) \<in> set (ir_routes ir). config_refs rc - {[]} \<subseteq> fst ` set (ir_clusters ir))"

lemma cluster_ref_iff: "cluster_ref ir key what c = [] \<longleftrightarrow> {c} - {[]} \<subseteq> fst ` set (ir_clusters ir)"
  by (auto simp: cluster_ref_def missing_def)

lemma route_refs_iff: "route_ref_errors ir key seen xs = [] \<longleftrightarrow> snd ` set xs \<subseteq> fst ` set (ir_clusters ir) \<union> seen"
proof (induction xs arbitrary: seen)
  case (Cons x xs)
  then show ?case by (cases x) (auto simp: missing_def)
qed simp

lemma action_clusters_iff: "set (action_clusters r) - {[]} = route_refs r - {[]}"
  by (auto simp: action_clusters_def route_refs_def target_clusters_def split: option.splits route_target.splits cluster_specifier.splits)

lemma config_refs_checked: "checkRouteConfigRefs ir rc key = [] \<Longrightarrow> config_refs rc - {[]} \<subseteq> fst ` set (ir_clusters ir)"
proof
  assume none: "checkRouteConfigRefs ir rc key = []"
  fix c assume "c \<in> config_refs rc - {[]}"
  then obtain v r where vr: "v \<in> set (rcf_virtualHosts rc)" "r \<in> set (vhx_routes v)" "c \<in> set (action_clusters r)"
    using action_clusters_iff by (force simp: config_refs_def)
  then have "c \<in> snd ` set (concat (map (\<lambda>v. concat (map (\<lambda>r. map (\<lambda>c. (vhx_name v, c)) (action_clusters r)) (vhx_routes v))) (rcf_virtualHosts rc)))"
    by (force simp: image_iff)
  with none show "c \<in> fst ` set (ir_clusters ir)" unfolding checkRouteConfigRefs_def route_refs_iff by blast
qed

lemma filter_checked: "filter_refs ir key f = [] \<Longrightarrow> filter_closed ir f"
proof (cases f)
  case (HcmFilter h)
  assume "filter_refs ir key f = []"
  then show ?thesis unfolding HcmFilter
    by (cases "hcm_routes h") (auto simp: filter_refs_def filter_closed_def cluster_ref_iff missing_def simp del: Diff_subset_conv Diff_insert_absorb insert_subset split: if_split_asm dest: config_refs_checked)
qed (simp add: filter_refs_def filter_closed_def cluster_ref_iff tcpProxyCluster_def)

lemma tls_checked:
  assumes "tls_refs ir key c = []" and "fch_tls c = Some d"
  shows "set (dtc_sdsCertificates d) \<subseteq> fst ` set (ir_secrets ir)" "dtc_validation d = ValidationSds n \<Longrightarrow> n \<in> fst ` set (ir_secrets ir)"
proof -
  show "set (dtc_sdsCertificates d) \<subseteq> fst ` set (ir_secrets ir)"
  proof
    fix n assume "n \<in> set (dtc_sdsCertificates d)"
    with assms have "\<not> missing (ir_secrets ir) n" by (auto simp: tls_refs_def split: if_split_asm)
    then show "n \<in> fst ` set (ir_secrets ir)" by (simp add: missing_def)
  qed
  show "n \<in> fst ` set (ir_secrets ir)" if "dtc_validation d = ValidationSds n"
    using assms that by (simp add: tls_refs_def missing_def split: if_split_asm)
qed

lemma chain_checked:
  assumes "tls_refs ir key c = []" and "\<forall>f \<in> set (fch_filters c). filter_refs ir key f = []"
  shows "chain_closed ir c"
  unfolding chain_closed_def using assms filter_checked tls_checked by blast

lemma cross_refs_checked:
  assumes "checkCrossRefs ir = []"
  shows "references_closed ir"
  unfolding references_closed_def
proof (intro conjI ballI)
  fix x assume "x \<in> set (ir_listeners ir)"
  with assms have none: "listener_ref_errors ir x = []" by (auto simp: checkCrossRefs_def)
  then have "\<forall>c \<in> set (lis_filterChains (snd x)). chain_closed ir c"
    by (intro ballI chain_checked [where key = "(ResourceListener, fst x)"]) (simp_all add: listener_ref_errors_def Let_def)
  moreover have "\<forall>p c. UdpProxy p c \<in> set (lis_listenerFilters (snd x)) \<longrightarrow> {c} - {[]} \<subseteq> fst ` set (ir_clusters ir)"
  proof (intro allI impI)
    fix p c assume "UdpProxy p c \<in> set (lis_listenerFilters (snd x))"
    moreover have "\<forall>f \<in> set (lis_listenerFilters (snd x)). cluster_ref ir (ResourceListener, fst x) ''UDP proxy'' (udpProxyCluster f) = []"
      using none by (simp add: listener_ref_errors_def Let_def)
    ultimately have "cluster_ref ir (ResourceListener, fst x) ''UDP proxy'' (udpProxyCluster (UdpProxy p c)) = []" by blast
    then show "{c} - {[]} \<subseteq> fst ` set (ir_clusters ir)" by (simp add: cluster_ref_iff udpProxyCluster_def)
  qed
  ultimately show "case x of (n, lis) \<Rightarrow> (\<forall>c \<in> set (lis_filterChains lis). chain_closed ir c) \<and>
      (\<forall>p c. UdpProxy p c \<in> set (lis_listenerFilters lis) \<longrightarrow> {c} - {[]} \<subseteq> fst ` set (ir_clusters ir))" by (simp add: case_prod_beta)
next
  fix x assume "x \<in> set (ir_clusters ir)"
  with assms show "case x of (n, c) \<Rightarrow> clu_eds c \<longrightarrow> n \<in> fst ` set (ir_endpoints ir)"
    by (cases x) (auto simp: checkCrossRefs_def missing_def split: if_split_asm dest!: bspec)
next
  fix x assume "x \<in> set (ir_routes ir)"
  with assms have "checkRouteConfigRefs ir (snd x) (ResourceRoute, fst x) = []" by (cases x) (auto simp: checkCrossRefs_def)
  then show "case x of (n, rc) \<Rightarrow> config_refs rc - {[]} \<subseteq> fst ` set (ir_clusters ir)" by (auto simp: case_prod_beta dest: config_refs_checked)
qed

text \<open>Every error of the check stops the pipeline.\<close>

definition fault :: "compile_error \<Rightarrow> bool" where "fault e \<longleftrightarrow> ce_severity e = SeverityError"

lemma validateError_fault [simp]: "fault (validateError ir key m)" by (simp add: validateError_def source_error_def fault_def)

lemma route_ref_faults: "list_all fault (route_ref_errors ir key seen xs)"
proof (induction xs arbitrary: seen)
  case (Cons x xs)
  then show ?case by (cases x) simp
qed simp

lemma filter_faults: "list_all fault (filter_refs ir key f)"
proof -
  have "list_all fault (cluster_ref ir key what c)" for what c by (simp add: cluster_ref_def)
  then show ?thesis using route_ref_faults
    by (simp add: filter_refs_def checkRouteConfigRefs_def list_all_concat_map split: network_filter.split route_specifier.split)
qed

lemma tls_faults: "list_all fault (tls_refs ir key c)"
  by (simp add: tls_refs_def list_all_concat_map split: option.split tls_validation.split)

lemma cross_ref_faults: "list_all fault (checkCrossRefs ir)"
proof -
  have "list_all fault (listener_ref_errors ir x)" for x
    by (simp add: listener_ref_errors_def Let_def cluster_ref_def list_all_concat_map filter_faults tls_faults)
  then show ?thesis using route_ref_faults by (simp add: checkCrossRefs_def checkRouteConfigRefs_def list_all_concat_map split: prod.split)
qed

lemma faults_stop: "list_all fault es \<Longrightarrow> \<not> hasErrors es \<Longrightarrow> es = []"
  by (cases es) (simp_all add: hasErrors_def fault_def)

lemma version_closed [simp]: "references_closed (ir\<lparr>ir_version := v\<rparr>) = references_closed ir"
proof -
  have "filter_closed (ir\<lparr>ir_version := v\<rparr>) = filter_closed ir"
    by (simp add: fun_eq_iff filter_closed_def split: network_filter.split route_specifier.split)
  then have "chain_closed (ir\<lparr>ir_version := v\<rparr>) = chain_closed ir" by (simp add: fun_eq_iff chain_closed_def)
  then show ?thesis by (simp add: references_closed_def)
qed

lemma finish_checked:
  assumes "finish C out errs = (Some ir, es)"
  shows "references_closed ir"
proof -
  from assms have "\<not> hasErrors (errs @ validateIR (cl_checks C) out)" and ir: "\<exists>v. ir = out\<lparr>ir_version := v\<rparr>"
    by (auto simp: finish_def Let_def split: if_splits sum.splits)
  then have "\<not> hasErrors (checkCrossRefs out)" by (auto simp: validateIR_def hasErrors_def)
  then have "references_closed out" by (intro cross_refs_checked faults_stop cross_ref_faults)
  with ir show ?thesis by auto
qed

section \<open>What is built of a listener\<close>

lemma built_listener_at:
  assumes "loaded cs" and built: "build B cs lk = Some (res, [])" and l: "l \<in> set (cfg_listeners cs)"
    and lis: "lis \<in> set (br_listeners res)" "lis_name lis = listenerResourceName (po_name l)"
  obtains rco s t where "build_listener B cs lk l s = Some (Some (lis, rco), [], t)" "pooled s" "\<forall>rc. rco = Some rc \<longrightarrow> rc \<in> set (br_routes res)"
proof -
  let ?sl = "sortedListeners (cfg_listeners cs)"
  from built obtain ls es1 t us where ls: "build_each (\<lambda>_. build_listener B cs lk) 0 ?sl start_state = Some (ls, es1, t)"
    and "those (map buildUpstream (sortedUpstreams (cfg_upstreams cs))) = Some us" and es: "[] = es1 @ concat (map snd us)"
    and res: "br_listeners res = map fst (List.map_filter id ls)" "br_routes res = List.map_filter (\<lambda>x. Option.bind x snd) ls"
    by (rule build_parts)
  have "\<forall>(j::nat) s y e t. \<forall>x \<in> set ?sl. build_listener B cs lk x s = Some (y, e, t) \<longrightarrow> fills s t" using build_listener_closed(1) by blast
  note each = build_each_nth [OF ls this fills_refl fills_trans]
  from lis(1) obtain rco where "Some (lis, rco) \<in> set ls" by (force simp: res(1) set_map_filter_iff)
  then obtain j where j: "j < length ?sl" "ls ! j = Some (lis, rco)" using each(1) by (auto simp: in_set_conv_nth)
  have "listener_closed cs (pool_names t) (po_name (?sl ! j)) (lis, rco)"
    using list_all2_nthD [OF build_listeners_closed(2) [OF ls] j(1)] j(2) by blast
  then have same: "po_name (?sl ! j) = po_name l" using lis(2) by (simp add: listener_closed_def)
  have "inj_on po_name (set (cfg_listeners cs))" using assms(1) by (simp add: loaded_def distinct_map)
  moreover have "?sl ! j \<in> set (cfg_listeners cs)" using nth_mem [OF j(1)] by (simp add: sortedListeners_def)
  ultimately have at: "?sl ! j = l" using same l by (auto dest: inj_onD)
  from each(3) [OF j(1)] obtain s1 e s2 where one: "build_listener B cs lk l s1 = Some (Some (lis, rco), e, s2)" "set e \<subseteq> set es1" "fills start_state s1"
    by (auto simp: at j(2))
  have "pooled s1" using one(3) by (simp add: fills_def pooled_def start_state_def named_def)
  moreover have "rc \<in> set (br_routes res)" if "rco = Some rc" for rc
    using j each(1) nth_mem [of j ls] that by (force simp: res(2) set_map_filter_iff)
  ultimately show thesis using one(1,2) es that by auto
qed

lemma built_rule:
  assumes "loaded cs" and "build B cs lk = Some (res, [])" and "l \<in> set (cfg_listeners cs)" and http: "is_http l"
    and "lis \<in> set (br_listeners res)" and "lis_name lis = listenerResourceName (po_name l)"
    and r: "r \<in> set (cfg_routes cs)" "has_rules r" "attachesTo r (po_name l)" and i: "i < length (rts_rules (po_spec r))"
  obtains rc s t j y0 s1 s2 where "rc \<in> set (br_routes res)" "rcf_name rc = routeConfigName (po_name l)"
    "buildHTTPListener B cs lk l s = Some (Some (lis, Some rc), [], t)" "pooled s"
    "j < length (httpRoutesFor cs (po_name l))" "r = httpRoutesFor cs (po_name l) ! j" "rcf_virtualHosts rc ! j \<in> set (rcf_virtualHosts rc)"
    "vhx_name (rcf_virtualHosts rc ! j) = virtualHostName (po_name r)" "vhx_domains (rcf_virtualHosts rc ! j) = routeDomains r"
    "buildRule B cs lk l r i (rts_rules (po_spec r) ! i) s1 = Some (y0, [], s2)"
    "vhx_routes (rcf_virtualHosts rc ! j) ! i = finalize_route (bs_ext t \<noteq> None) y0"
proof -
  from assms(1-3,5,6) obtain rco s t where one: "build_listener B cs lk l s = Some (Some (lis, rco), [], t)" "pooled s" "\<forall>rc. rco = Some rc \<longrightarrow> rc \<in> set (br_routes res)"
    by (rule built_listener_at)
  have "buildHTTPListener B cs lk l s = Some (Some (lis, rco), [], t)" using one(1) http by (simp add: build_listener_def is_http_def)
  moreover from this obtain rc where rc: "rco = Some rc" using buildHTTPListener_refs(2) one(2) by blast
  ultimately have built: "buildHTTPListener B cs lk l s = Some (Some (lis, Some rc), [], t)" by simp
  note hosts = buildHTTPListener_hosts [OF built]
  have "r \<in> set (httpRoutesFor cs (po_name l))" using r by (simp add: httpRoutesFor_def sortedRoutes_def)
  then obtain j where j: "j < length (httpRoutesFor cs (po_name l))" "r = httpRoutesFor cs (po_name l) ! j" by (auto simp: in_set_conv_nth)
  note host = hosts(4) [OF j refl]
  from host i obtain y0 s1 s2 where "buildRule B cs lk l r i (rts_rules (po_spec r) ! i) s1 = Some (y0, [], s2)"
    "vhx_routes (rcf_virtualHosts rc ! j) ! i = finalize_route (bs_ext t \<noteq> None) y0" by auto
  then show thesis using that [OF _ hosts(2) built one(2) j] one(3) rc host j hosts(3) by simp
qed

section \<open>The levels of a rule\<close>

text \<open>The last policy of a type at the nearest level that has one: the rule, the route, the listener, the
  gateway.\<close>

definition nearest_policy :: "linked \<Rightarrow> (PolicySpec \<Rightarrow> 'a option) \<Rightarrow> Gateway \<Rightarrow> Listener \<Rightarrow> Route \<Rightarrow> Rule \<Rightarrow> 'a option" where
  "nearest_policy lk sel g l r rule = first_some [level_policy lk sel (rule_policies rule), level_policy lk sel (rts_policies (po_spec r)),
     level_policy lk sel (lsn_policies (po_spec l)), level_policy lk sel (gws_policies (po_spec g))]"

lemma nearest_levels: "first_some (map (level_policy lk sel) (rev (rule_levels g l r rule))) = nearest_policy lk sel g l r rule"
  by (simp add: nearest_policy_def rule_levels_def)

lemma linked_single_types:
  assumes "loaded cs" and "validated N cs" and "link opts V cs = (cs', lk, [])" and "cfg_gateway cs' = Some g"
    and "l \<in> set (cfg_listeners cs')" and "r \<in> set (cfg_routes cs')" and "rule \<in> set (rts_rules (po_spec r))"
  shows "\<forall>a \<in> set (concat (rule_levels g l r rule)). \<forall>s. attached_spec lk a = Some s \<longrightarrow> single_type s"
proof -
  note parts = link_parts [OF assms(1,3)]
  have ok: "policies_ok N cs'" using policies_ok_defaults [OF validated_policies_ok [OF assms(2)]] by (simp add: parts(1) resolved)
  have "set (concat (rule_levels g l r rule)) \<subseteq> set (all_attachments cs')" using assms(4-7) by (rule rule_levels_all)
  then show ?thesis unfolding parts(2) using attached_ok [OF ok] by (auto simp: spec_ok_def)
qed

section \<open>Properties\<close>

lemma ApplyDefaults_idem: "ApplyDefaults (ApplyDefaults cs) = ApplyDefaults cs"
  by (simp add: ApplyDefaults_def map_on_spec_idem on_spec_on_spec comp_def)

lemma plain_compiles:
  assumes "loaded cs" and "validated (bl_net (cl_build C)) cs" and "plain_config cs" and "opt_mode opts \<in> {ModeXDS, ModeStatic}"
    and link: "link opts (cl_verifier C) cs = (cs', lk, [])" and built: "build (cl_build C) cs' lk = Some (res, [])"
  shows "\<exists>ir. Compile C opts cs = Some (finish C ir []) \<and> checkCrossRefs ir = [] \<and> fst ` set (ir_listeners ir) = lis_name ` set (br_listeners res)"
proof -
  note cs' = linked_config [OF assms(1) link]
  have "\<forall>l \<in> set (cfg_listeners cs). ValidateName (po_name l)" using assms(2) by (simp add: validated_def)
  then have "\<forall>l \<in> set (cfg_listeners cs'). ValidateName (po_name l)" using cs'(3) by (metis imageE imageI)
  note complete = build_complete [OF cs'(1,2) this built]
  from cs'(4) [OF assms(3)] complete(2,1) assms(4) obtain s ir where "synthesize (cl_patch C) cs' res = (s, [])" "materialize s (opt_mode opts) = (Some ir, [])"
    "checkCrossRefs ir = []" "fst ` set (ir_listeners ir) = lis_name ` set (br_listeners res)" by (rule materialize_plain)
  then show ?thesis by (auto simp: Compile_def link built after_build_def hasErrors_def Let_def)
qed

text \<open>C9: The second stage reports no error exactly for the configurations that satisfy the contract of linked
  configurations, after the defaults are filled in.\<close>

theorem link_accepts_iff_contract:
  assumes "loaded cs"
  shows "snd (snd (link opts V cs)) = [] \<longleftrightarrow> well_linked opts V (ApplyDefaults cs)"
  using link_checks_Nil [OF defaults_loaded [OF assms]] by (simp add: link_def Let_def)


text \<open>C7: A configuration without patches and native resources that passes the second and third stage gets
  through all later ones, in both modes: nothing but the validators of the resources and the version can
  fail after that.  The result has exactly the listeners of the third stage.\<close>

theorem plain_configuration_compiles:
  assumes "loaded cs" and "validated (bl_net (cl_build C)) cs" and "plain_config cs" and "opt_mode opts \<in> {ModeXDS, ModeStatic}"
    and "link opts (cl_verifier C) cs = (cs', lk, [])" and "build (cl_build C) cs' lk = Some (res, [])"
  shows "\<exists>ir. Compile C opts cs = Some (finish C ir []) \<and> checkCrossRefs ir = [] \<and> fst ` set (ir_listeners ir) = lis_name ` set (br_listeners res)"
  using assms by (rule plain_compiles)

text \<open>C8: Whatever patches and native resources do, a result of the compiler has the target of every
  reference that is checked: of clusters from routes, proxies and authorization filters, of route
  configurations, of secrets and of endpoints.\<close>

theorem delivered_references_closed:
  assumes "Compile C opts cs = Some (Some ir, es)"
  shows "references_closed ir"
proof -
  obtain cs' lk es1 where link: "link opts (cl_verifier C) cs = (cs', lk, es1)" by (cases "link opts (cl_verifier C) cs") auto
  from assms link obtain res es2 where "after_build C opts cs' res es2 = (Some ir, es)" by (auto simp: Compile_def split: if_splits)
  then obtain out errs where "finish C out errs = (Some ir, es)" by (auto simp: after_build_def Let_def split: if_splits prod.splits option.splits)
  then show ?thesis by (rule finish_checked)
qed

text \<open>C12: For each type of policy the one in effect for a rule is the last of the nearest level that has
  one: of the rule, else of the route, else of the listener, else of the gateway.\<close>

theorem nearest_policy_wins:
  assumes "loaded cs" and "validated N cs" and "link opts V cs = (cs', lk, [])" and "cfg_gateway cs' = Some g"
    and "l \<in> set (cfg_listeners cs')" and "r \<in> set (cfg_routes cs')" and "rule \<in> set (rts_rules (po_spec r))"
  shows "eff_headerModifier (rule_policy cs' lk l r rule) = nearest_policy lk pol_headerModifier g l r rule \<and>
    eff_cors (rule_policy cs' lk l r rule) = nearest_policy lk pol_cors g l r rule \<and>
    eff_rateLimit (rule_policy cs' lk l r rule) = nearest_policy lk pol_rateLimit g l r rule \<and>
    eff_jwt (rule_policy cs' lk l r rule) = nearest_policy lk pol_jwt g l r rule \<and>
    eff_extAuth (rule_policy cs' lk l r rule) = nearest_policy lk pol_extAuth g l r rule \<and>
    eff_ipAccess (rule_policy cs' lk l r rule) = nearest_policy lk pol_ipAccess g l r rule"
proof -
  have eff: "rule_policy cs' lk l r rule = normalizePolicies lk (rule_levels g l r rule)" by (simp add: rule_policy_def assms(4))
  note levels = linked_single_types [OF assms]
  show ?thesis
    unfolding eff header_policy.nearest [OF levels] cors_type.nearest [OF levels] rate_type.nearest [OF levels] jwt_type.nearest [OF levels]
      ext_type.nearest [OF levels] ip_type.nearest [OF levels] nearest_levels by simp
qed

text \<open>C11: A rule with an external authorization in effect is checked by it: the route of the rule asks for the
  check, and every connection manager of the listener has the filter with the service and the failure mode
  of the policy.\<close>

theorem ext_auth_enforced:
  assumes "loaded cs" and "build B cs lk = Some (res, [])" and "l \<in> set (cfg_listeners cs)" and "is_http l"
    and "lis \<in> set (br_listeners res)" and "lis_name lis = listenerResourceName (po_name l)"
    and "r \<in> set (cfg_routes cs)" and "has_rules r" and "attachesTo r (po_name l)" and "i < length (rts_rules (po_spec r))"
    and p: "eff_extAuth (rule_policy cs lk l r (rts_rules (po_spec r) ! i)) = Some x" "\<not> xa_disabled x"
  shows "(\<exists>rc \<in> set (br_routes res). rcf_name rc = routeConfigName (po_name l) \<and>
      (\<exists>v \<in> set (rcf_virtualHosts rc). vhx_name v = virtualHostName (po_name r) \<and> ert_perFilter (vhx_routes v ! i) extAuthzFilterName = Some ExtAuthzCheck)) \<and>
    (\<exists>key. extAuthProviderKey B x = Inr key \<and> (\<forall>h \<in> listener_hcms lis. \<exists>z. ExtAuthzFilter z \<in> set (hcm_httpFilters h) \<and>
      service_target (ez_service z) = extAuthClusterName B key \<and> ez_failureModeAllow z = xa_failOpen x))"
proof (rule conjI)
  from assms(1-10) obtain rc s t j where rc: "rc \<in> set (br_routes res)" "rcf_name rc = routeConfigName (po_name l)"
    and built: "buildHTTPListener B cs lk l s = Some (Some (lis, Some rc), [], t)" "pooled s"
    and j: "j < length (httpRoutesFor cs (po_name l))" "r = httpRoutesFor cs (po_name l) ! j" "rcf_virtualHosts rc ! j \<in> set (rcf_virtualHosts rc)"
      "vhx_name (rcf_virtualHosts rc ! j) = virtualHostName (po_name r)" by (rule built_rule)
  note marks = ext_auth_marks [OF built(1) _ j(1,2) assms(10) refl refl, simplified, OF built(2)]
  show "\<exists>rc \<in> set (br_routes res). rcf_name rc = routeConfigName (po_name l) \<and>
      (\<exists>v \<in> set (rcf_virtualHosts rc). vhx_name v = virtualHostName (po_name r) \<and> ert_perFilter (vhx_routes v ! i) extAuthzFilterName = Some ExtAuthzCheck)"
    using rc j(3,4) marks(1) p by blast
  from built(1) obtain h where h: "buildHCM cs l t = Some h" "\<forall>ch \<in> set (lis_filterChains lis). fch_filters ch = [HcmFilter h]" by (rule buildHTTPListener_parts)
  have "hcm_httpFilters h' = httpFilters t" if "h' \<in> listener_hcms lis" for h' using that h(2) buildHCM_simps(2) [OF h(1)] by (auto simp: listener_hcms_def)
  with marks(3) [OF p] show "\<exists>key. extAuthProviderKey B x = Inr key \<and> (\<forall>h \<in> listener_hcms lis. \<exists>z. ExtAuthzFilter z \<in> set (hcm_httpFilters h) \<and>
      service_target (ez_service z) = extAuthClusterName B key \<and> ez_failureModeAllow z = xa_failOpen x)" by (auto simp: httpFilters_def)
qed

text \<open>C13: The addresses a rule admits are those of the address policy in effect: the allowed ones, or all if
  there are none, less the denied ones.  Without a policy the route has no configuration of the filter.\<close>

theorem ip_access_enforced:
  assumes "loaded cs" and "build B cs lk = Some (res, [])" and "l \<in> set (cfg_listeners cs)" and "is_http l"
    and "lis \<in> set (br_listeners res)" and "lis_name lis = listenerResourceName (po_name l)"
    and "r \<in> set (cfg_routes cs)" and "has_rules r" and "attachesTo r (po_name l)" and "i < length (rts_rules (po_spec r))"
    and eff: "eff_ipAccess (rule_policy cs lk l r (rts_rules (po_spec r) ! i)) = Some p"
    and parse: "\<forall>c a n. nl_parsePrefix (bl_net B) c = Some (a, n) \<longrightarrow> 0 \<le> n \<and> n \<le> 128"
  shows "\<exists>rc \<in> set (br_routes res). rcf_name rc = routeConfigName (po_name l) \<and>
      (\<exists>v \<in> set (rcf_virtualHosts rc). vhx_name v = virtualHostName (po_name r) \<and>
        (\<exists>q. ert_perFilter (vhx_routes v ! i) rbacFilterName = Some (RbacPerRoute q) \<and>
          (\<forall>ip. admits M q ip \<longleftrightarrow> (ipa_allow p = [] \<or> covered B M (ipa_allow p) ip) \<and> \<not> covered B M (ipa_deny p) ip)))"
proof -
  from assms(1-10) obtain rc s t j y0 s1 s2 where rc: "rc \<in> set (br_routes res)" "rcf_name rc = routeConfigName (po_name l)"
    and "buildHTTPListener B cs lk l s = Some (Some (lis, Some rc), [], t)"
    and v: "rcf_virtualHosts rc ! j \<in> set (rcf_virtualHosts rc)" "vhx_name (rcf_virtualHosts rc ! j) = virtualHostName (po_name r)"
    and rule: "buildRule B cs lk l r i (rts_rules (po_spec r) ! i) s1 = Some (y0, [], s2)"
      "vhx_routes (rcf_virtualHosts rc ! j) ! i = finalize_route (bs_ext t \<noteq> None) y0" by (rule built_rule)
  from rule(1) obtain a m es3 where "typedPerFilterConfig B (rule_policy cs lk l r (rts_rules (po_spec r) ! i)) r i a = Some (m, es3, s2)"
    by (rule buildRule_parts)
  then obtain q where q: "buildIPAccess B p = Some q" by (auto simp: typedPerFilterConfig_def eff Let_def split: bind_splits)
  then have "ert_perFilter y0 rbacFilterName = Some (RbacPerRoute q)" using buildRule_good(9) [OF rule(1)] eff by simp
  then have rbac: "ert_perFilter (vhx_routes (rcf_virtualHosts rc ! j) ! i) rbacFilterName = Some (RbacPerRoute q)"
    by (simp add: rule(2) finalize_route_def filter_names)
  have adm: "\<forall>ip. admits M q ip \<longleftrightarrow> (ipa_allow p = [] \<or> covered B M (ipa_allow p) ip) \<and> \<not> covered B M (ipa_deny p) ip"
    by (intro allI buildIPAccess_admits [OF parse q])
  show ?thesis
  proof (rule bexI [OF _ rc(1)], rule conjI [OF rc(2)], rule bexI [OF _ v(1)], rule conjI [OF v(2)])
    show "\<exists>q. ert_perFilter (vhx_routes (rcf_virtualHosts rc ! j) ! i) rbacFilterName = Some (RbacPerRoute q) \<and>
        (\<forall>ip. admits M q ip \<longleftrightarrow> (ipa_allow p = [] \<or> covered B M (ipa_allow p) ip) \<and> \<not> covered B M (ipa_deny p) ip)"
      using rbac adm by (intro exI [of _ q] conjI)
  qed
qed

text \<open>C37: An HTTPS listener with an empty list of certificates is accepted by every stage and left out of the
  result without an error.\<close>

theorem https_without_certificates_dropped:
  assumes "loaded cs" and "link opts V cs = (cs', lk, [])" and built: "build B cs' lk = Some (res, [])"
    and l: "l \<in> set (cfg_listeners cs)" "lsn_protocol (po_spec l) = ''HTTPS''" "lsn_tls (po_spec l) = Some t" "ltls_certificates t = []"
  shows "listenerResourceName (po_name l) \<notin> lis_name ` set (br_listeners res)"
proof
  assume "listenerResourceName (po_name l) \<in> lis_name ` set (br_listeners res)"
  then obtain lis where lis: "lis \<in> set (br_listeners res)" "lis_name lis = listenerResourceName (po_name l)" by force
  define m where "m = on_spec (set_certificates opts) (on_spec listener_defaults l)"
  have m: "m \<in> set (cfg_listeners cs')" using l(1) by (simp add: link_parts(1) [OF assms(1,2)] m_def ApplyDefaults_def)
  have tls: "po_name m = po_name l" "lsn_protocol (po_spec m) = ''HTTPS''" "\<exists>t. lsn_tls (po_spec m) = Some t \<and> ltls_certificates t = []"
    using l(2-4) by (simp_all add: m_def set_certificates_def listener_defaults_def tls_defaults_def)
  from linked_config(1) [OF assms(1,2)] built m lis(1) obtain rco s u where "build_listener B cs' lk m s = Some (Some (lis, rco), [], u)"
    by (rule built_listener_at) (simp_all add: lis(2) tls(1))
  with tls(2) have "buildHTTPListener B cs' lk m s = Some (Some (lis, rco), [], u)" by (simp add: build_listener_def isHTTPProtocol_def)
  then show False using tls by (auto simp: buildHTTPListener_def buildHTTPSFilterChains_def Let_def split: bind_splits)
qed

section \<open>The example\<close>

text \<open>Nothing is patched, every validator accepts and the version is constant.\<close>

definition no_codec :: "'m codec" where
  "no_codec = \<lparr>cd_marshal = (\<lambda>_. Inl ''no text''), cd_unmarshal = (\<lambda>_. Inl ''no message''), cd_object = (\<lambda>_. Inl ''no message'')\<rparr>"

definition example_patch :: patch_lib where
  "example_patch = \<lparr>pt_json = \<lparr>jp_merge = (\<lambda>_ _. Inl ''no patch''), jp_decode = (\<lambda>_. Inl ''no patch''), jp_apply = (\<lambda>_ _. Inl ''no patch'')\<rparr>,
      pt_listener = no_codec, pt_secret = no_codec, pt_virtualHost = no_codec, pt_route = no_codec, pt_cluster = no_codec,
     pt_endpoints = no_codec, pt_routeConfig = no_codec, pt_typeError = (\<lambda>_. ''no type'')\<rparr>"

definition example_compiler :: compile_lib where
  "example_compiler = \<lparr>cl_verifier = example_verifier, cl_build = example_lib, cl_patch = example_patch,
     cl_checks = \<lparr>rs_listener = (\<lambda>_. None), rs_cluster = (\<lambda>_. None), rs_route = (\<lambda>_. None), rs_endpoints = (\<lambda>_. None), rs_secret = (\<lambda>_. None), rs_bootstrap = (\<lambda>_. None)\<rparr>,
     cl_version = (\<lambda>_. Inr ''v1'')\<rparr>"

lemma example_compiler_parts: "cl_verifier example_compiler = example_verifier" "cl_build example_compiler = example_lib"
  by (simp_all add: example_compiler_def)

lemma no_check: "check_resources ir kind (\<lambda>_. None) ms = []"
  by (simp add: check_resources_def concat_eq_Nil_conv case_prod_beta)

lemma example_finish: "checkCrossRefs ir = [] \<Longrightarrow> finish example_compiler ir [] = (Some (ir\<lparr>ir_version := ''v1''\<rparr>), [])"
  by (simp add: finish_def validateIR_def example_compiler_def no_check hasErrors_def Let_def)

lemma example_link: "link example_options example_verifier example_config = (example_filled, link_index example_filled, [])"
proof -
  have "resolve_certificates example_options example_filled = example_filled"
    by (simp add: resolve_certificates_def example_filled_def default_defs example_defs)
  moreover have "link_checks example_options example_verifier example_filled = []"
    using example_linked link_checks_Nil [OF defaults_loaded [OF example_loaded]] by (simp add: example_filled_def)
  ultimately show ?thesis by (simp add: link_def Let_def example_filled_def)
qed

lemma example_build:
  obtains res lis where "build example_lib example_filled (link_index example_filled) = Some (res, [])" "br_listeners res = [lis]" "lis_name lis = ''lis/web''"
proof -
  have "case build example_lib example_filled (link_index example_filled) of None \<Rightarrow> False | Some (res, es) \<Rightarrow> es = [] \<and> map lis_name (br_listeners res) = [''lis/web'']"
    by code_simp
  then show thesis using that by (auto split: option.splits)
qed

lemma example_plain: "plain_config example_config" by (simp add: plain_config_def example_defs)

lemma example_mode: "opt_mode example_options \<in> {ModeXDS, ModeStatic}" by (simp add: example_options_def ModeXDS_def)

theorem link_accepts_iff_contract_witness:
  "loaded example_config \<and> snd (snd (link example_options example_verifier example_config)) = []"
  using link_accepts_iff_contract [OF example_loaded, of example_options example_verifier] example_linked example_loaded by (simp add: example_filled_def)


theorem plain_configuration_compiles_witness:
  "\<exists>ir. Compile example_compiler example_options example_config = Some (Some ir, []) \<and> fst ` set (ir_listeners ir) = {''lis/web''}"
proof -
  obtain res lis where b: "build example_lib example_filled (link_index example_filled) = Some (res, [])" "br_listeners res = [lis]" "lis_name lis = ''lis/web''"
    by (rule example_build)
  note compiles = plain_configuration_compiles [OF example_loaded _ example_plain example_mode, of example_compiler, unfolded example_compiler_parts,
    OF example_validated example_link b(1)]
  from compiles obtain ir where "Compile example_compiler example_options example_config = Some (finish example_compiler ir [])" "checkCrossRefs ir = []"
      "fst ` set (ir_listeners ir) = {''lis/web''}" by (auto simp: b)
  then show ?thesis by (intro exI [of _ "ir\<lparr>ir_version := ''v1''\<rparr>"]) (simp add: example_finish)
qed

lemma example_compiles: "\<exists>ir. Compile example_compiler example_options example_config = Some (Some ir, [])"
proof -
  obtain res lis where b: "build example_lib example_filled (link_index example_filled) = Some (res, [])" by (rule example_build)
  from plain_compiles [OF example_loaded _ example_plain example_mode, of example_compiler, unfolded example_compiler_parts,
    OF example_validated example_link b] obtain ir where "Compile example_compiler example_options example_config = Some (finish example_compiler ir [])" "checkCrossRefs ir = []"
    by blast
  then show ?thesis by (simp add: example_finish)
qed

theorem delivered_references_closed_witness:
  "\<exists>ir. Compile example_compiler example_options example_config = Some (Some ir, []) \<and> references_closed ir"
  using example_compiles delivered_references_closed by blast

definition guarded_route :: Route where
  "guarded_route = on_spec route_defaults (example_route ''guarded'' ''b.example'' [\<lparr>pa_ref = ''sso'', pa_inline = None\<rparr>])"

definition web_listener :: Listener where "web_listener = on_spec listener_defaults example_listener"

lemma example_parts:
  "web_listener \<in> set (cfg_listeners example_filled)" "guarded_route \<in> set (cfg_routes example_filled)" "loaded example_filled"
  "is_http web_listener" "has_rules guarded_route" "attachesTo guarded_route (po_name web_listener)" "0 < length (rts_rules (po_spec guarded_route))"
  "po_name web_listener = ''web''" "rts_rules (po_spec guarded_route) ! 0 \<in> set (rts_rules (po_spec guarded_route))"
proof -
  show "loaded example_filled" using defaults_loaded [OF example_loaded] by (simp add: example_filled_def)
qed (simp_all add: example_filled_def ApplyDefaults_def web_listener_def guarded_route_def example_config_def example_route_def example_object_def
  example_listener_def route_defaults_def is_http_def listener_defaults_def isHTTPProtocol_def has_rules_def attachesTo_def)

lemma example_policies:
  "eff_extAuth (rule_policy example_filled (link_index example_filled) web_listener guarded_route (rts_rules (po_spec guarded_route) ! 0)) = Some example_auth"
  "eff_ipAccess (rule_policy example_filled (link_index example_filled) web_listener guarded_route (rts_rules (po_spec guarded_route) ! 0)) = Some example_access"
  by code_simp+

theorem nearest_policy_wins_witness:
  "eff_extAuth (rule_policy example_filled (link_index example_filled) web_listener guarded_route (rts_rules (po_spec guarded_route) ! 0)) =
     nearest_policy (link_index example_filled) pol_extAuth (the (cfg_gateway example_filled)) web_listener guarded_route (rts_rules (po_spec guarded_route) ! 0)"
proof -
  have "cfg_gateway example_filled = Some (the (cfg_gateway example_filled))" by (simp add: example_filled_def ApplyDefaults_def)
  from nearest_policy_wins [OF example_loaded example_validated example_link this example_parts(1,2,9)] show ?thesis by blast
qed

theorem ext_auth_enforced_witness:
  "\<exists>res. build example_lib example_filled (link_index example_filled) = Some (res, []) \<and>
     (\<exists>rc \<in> set (br_routes res). rcf_name rc = ''rc/web'' \<and>
       (\<exists>v \<in> set (rcf_virtualHosts rc). vhx_name v = virtualHostName ''guarded'' \<and> ert_perFilter (vhx_routes v ! 0) extAuthzFilterName = Some ExtAuthzCheck))"
proof -
  obtain res lis where b: "build example_lib example_filled (link_index example_filled) = Some (res, [])" "br_listeners res = [lis]" "lis_name lis = ''lis/web''"
    by (rule example_build)
  have "lis \<in> set (br_listeners res)" "lis_name lis = listenerResourceName (po_name web_listener)" "\<not> xa_disabled example_auth"
    using b(2,3) example_parts(8) by (simp_all add: listenerResourceName_def example_auth_def)
  note enforced = ext_auth_enforced [OF example_parts(3) b(1) example_parts(1,4) this(1,2) example_parts(2,5,6,7) example_policies(1) this(3), THEN conjunct1]
  have "po_name guarded_route = ''guarded''" by (simp add: guarded_route_def example_route_def example_object_def)
  with enforced b(1) show ?thesis by (simp add: example_parts(8) routeConfigName_def)
qed

theorem ip_access_enforced_witness:
  "\<exists>res. build example_lib example_filled (link_index example_filled) = Some (res, []) \<and>
     (\<exists>rc \<in> set (br_routes res). rcf_name rc = ''rc/web'' \<and>
       (\<exists>v \<in> set (rcf_virtualHosts rc). vhx_name v = virtualHostName ''guarded'' \<and>
         (\<exists>q. ert_perFilter (vhx_routes v ! 0) rbacFilterName = Some (RbacPerRoute q) \<and>
           (\<forall>ip. admits (\<lambda>(a, n) x. take 3 a = take 3 x) q ip \<longleftrightarrow> take 3 ip = ''10.''))))"
proof -
  obtain res lis where b: "build example_lib example_filled (link_index example_filled) = Some (res, [])" "br_listeners res = [lis]" "lis_name lis = ''lis/web''"
    by (rule example_build)
  have "lis \<in> set (br_listeners res)" "lis_name lis = listenerResourceName (po_name web_listener)"
    "\<forall>c a n. nl_parsePrefix (bl_net example_lib) c = Some (a, n) \<longrightarrow> 0 \<le> n \<and> n \<le> 128"
    using b(2,3) example_parts(8) by (simp_all add: listenerResourceName_def example_lib_def)
  note enforced = ip_access_enforced [OF example_parts(3) b(1) example_parts(1,4) this(1,2) example_parts(2,5,6,7) example_policies(2) this(3),
    of "\<lambda>(a, n) x. take 3 a = take 3 x"]
  have "po_name guarded_route = ''guarded''" by (simp add: guarded_route_def example_route_def example_object_def)
  moreover have "((ipa_allow example_access = [] \<or> covered example_lib (\<lambda>(a, n) x. take 3 a = take 3 x) (ipa_allow example_access) ip) \<and>
      \<not> covered example_lib (\<lambda>(a, n) x. take 3 a = take 3 x) (ipa_deny example_access) ip) = (take 3 ip = ''10.'')" for ip
    by (auto simp: covered_def example_access_def example_lib_def)
  ultimately show ?thesis using enforced b(1) by (simp add: example_parts(8) routeConfigName_def)
qed

text \<open>The example with a second listener, for HTTPS and without certificates.\<close>

definition bare_listener :: Listener where
  "bare_listener = example_object ''Listener'' ''tls'' \<lparr>lsn_address = [], lsn_port = 8443, lsn_protocol = ''HTTPS'',
     lsn_tls = Some \<lparr>ltls_certificates = [], ltls_minVersion = [], ltls_alpn = [], ltls_clientCA = []\<rparr>, lsn_http = None,
     lsn_policies = [], lsn_envoyPatch = []\<rparr>"

definition bare_config :: ConfigSet where
  "bare_config = example_config\<lparr>cfg_listeners := [example_listener, bare_listener]\<rparr>"

lemma bare_loaded: "loaded bare_config"
  using example_loaded by (simp add: loaded_def bare_config_def bare_listener_def example_defs ListenerProtocol_Valid_def)

lemma bare_validated: "validated (bl_net example_lib) bare_config"
proof -
  have "ValidateName ''tls''" "ValidateName ''web''" by code_simp+
  then show ?thesis using example_validated
    by (simp add: validated_def bare_config_def bare_listener_def example_object_def example_listener_def example_config_def ListenerSpec_validate_def
      validatePolicyAttachments_def validateEnvoyPatches_def port_fault_def ListenerProtocol_Valid_def fault_if_def or_else_def no_origin_def)
qed

lemma bare_linked: "well_linked example_options example_verifier (ApplyDefaults bare_config)"
  unfolding well_linked_def
proof (intro conjI)
  note defs = bare_config_def bare_listener_def default_defs tls_defaults_def example_defs
  show "refs_closed (ApplyDefaults bare_config)" by (simp add: refs_closed_def all_attachments_def rule_attachments_def route_upstreams_def defs)
  show "addresses_unique (ApplyDefaults bare_config)" by (simp add: addresses_unique_def defs)
  show "routes_formed (ApplyDefaults bare_config)" by (simp add: routes_formed_def on_listener_def is_http_def has_rules_def has_forward_def sni_hosts_def defs)
  show "forwarding_formed (ApplyDefaults bare_config)" by (simp add: forwarding_formed_def is_http_def has_rules_def has_forward_def defs)
  have "to_lower ''a.example'' \<noteq> to_lower ''b.example''" by code_simp
  then show "hostnames_disjoint (ApplyDefaults bare_config)" by (simp add: hostnames_disjoint_def on_listener_def route_hostnames_def has_rules_def defs)
  show "levels_allowed (ApplyDefaults bare_config)"
    by (simp add: levels_allowed_def rule_attachments_def policyTypeOf_def attached_spec_def link_index_def index_by_name_def policyTypeKey_def defs)
  show "tls_where_terminated (ApplyDefaults bare_config)" "certificates_usable example_options example_verifier (ApplyDefaults bare_config)"
    "sources_available example_options (ApplyDefaults bare_config)"
    by (simp_all add: tls_where_terminated_def certificates_usable_def sources_available_def defs)
qed

lemma bare_link: "\<exists>cs' lk. link example_options example_verifier bare_config = (cs', lk, [])"
  using bare_linked link_checks_Nil [OF defaults_loaded [OF bare_loaded]] by (simp add: link_def Let_def)

theorem https_without_certificates_dropped_witness:
  "validated (bl_net example_lib) bare_config \<and>
     (\<exists>cs' lk res. link example_options example_verifier bare_config = (cs', lk, []) \<and> build example_lib cs' lk = Some (res, []) \<and>
       ''lis/tls'' \<notin> lis_name ` set (br_listeners res))"
proof -
  obtain cs' lk where link: "link example_options example_verifier bare_config = (cs', lk, [])" using bare_link by blast
  have "case build example_lib (resolve_certificates example_options (ApplyDefaults bare_config)) (link_index (resolve_certificates example_options (ApplyDefaults bare_config))) of
      None \<Rightarrow> False | Some (res, es) \<Rightarrow> es = []" by code_simp
  then obtain res where built: "build example_lib cs' lk = Some (res, [])"
    using link_parts(1,2) [OF bare_loaded link] by (auto split: option.splits)
  have "listenerResourceName (po_name bare_listener) \<notin> lis_name ` set (br_listeners res)"
    by (rule https_without_certificates_dropped [OF bare_loaded link built, where t = "the (lsn_tls (po_spec bare_listener))"]) (simp_all add: bare_config_def bare_listener_def example_object_def)
  with bare_validated link built show ?thesis by (auto simp: listenerResourceName_def bare_listener_def example_object_def)
qed

end
