(* ===== verification/Spec2Isabelle.thy ===== *)
theory Spec2Isabelle
  imports ConsoleApp ConsoleEntry DraftFlow CertFlow PublishPage LicenseScript ObjectServer StateServer ProcessProbe CompileProps
begin

text \<open>
  \<^bold>\<open>The standalone Envoy gateway: console and management plane\<close>

  The program manages one Envoy.  An operator edits a draft of YAML files in a web console
  (\<open>web/src\<close>, TypeScript).  The console talks to the management server (\<open>internal\<close>, Go) through an
  API whose types are generated into \<open>web/src/api/generated.ts\<close>.  The server keeps the draft in a
  data directory, compiles it into Envoy resources, and publishes it: a snapshot is taken, a row is written to the table of
  versions, the compiled configuration goes to a deliverer, and a collector polls Envoy until it shows
  the new version or a deadline passes.  The collector also turns the replies of Envoy's admin interface
  into the state and the statistics the console shows.  In a managed deployment a supervisor starts,
  adopts, watches and hot-restarts the Envoy process.  Accounts, sessions and certificates are kept in
  the same database.

  \<^bold>\<open>Theories and sources\<close>

  \<^item> \<open>Prelude\<close>, \<open>JsValue\<close>, \<open>JsonText\<close>, \<open>GoPath\<close>: the shared lemma collections, the result type, and
    what the sources use of the standard libraries: JavaScript values with property reads that throw,
    JSON text, Go's \<open>filepath\<close>; \<open>GoJson\<close>: decoding into structs by \<open>encoding/json\<close>.
  \<^item> \<open>TsSchema\<close>, \<open>ApiSchemas\<close>, \<open>ApiOperations\<close>, \<open>ApiContract\<close>: the types, operations and paths of
    \<open>generated.ts\<close>, each in the order of the file, with an executable conformance predicate, and the
    registry of the server (\<open>internal/api/contract/operations.go\<close>) with its routing.
  \<^item> \<open>Client\<close>: \<open>web/src/api/client.ts\<close> and \<open>web/src/lib/utils.ts\<close>.  The locale \<open>wire_type\<close> states what
    a provider of a JSON body promises; every handler theory interprets it for its own bodies.
  \<^item> \<open>ConsoleKit\<close>, \<open>ConsoleAuth\<close>, \<open>ConfigurationPage\<close>, \<open>StatusPages\<close>, \<open>CertificatesPage\<close>, \<open>ExpertPage\<close>,
    \<open>ConsoleApp\<close>, \<open>ConsoleEntry\<close>: the components of \<open>web/src\<close>.  The state of a component is a record
    with one field per hook, an event handler is a function on it, and rendering is a function into a
    tree of elements or a thrown error.
  \<^item> \<open>Limiter\<close>, \<open>AuthStore\<close>, \<open>AuthService\<close>, \<open>AuthProps\<close>, \<open>ApiServer\<close>: \<open>internal/auth\<close>,
    \<open>internal/store/auth.go\<close> and the server core of \<open>internal/api\<close>, with the locales \<open>throttle\<close> and
    \<open>session_table\<close>.
  \<^item> \<open>ConfDraft\<close>, \<open>DraftEntries\<close>: reading, hashing and replacing the draft (\<open>internal/conf/draft.go\<close>,
    \<open>replace.go\<close>), with the locale \<open>optimistic_store\<close>.  A data directory is a map from entry names to
    files; every step of a replacement that touches the disk has a field in a record of faults.
  \<^item> \<open>ConfHistory\<close>: snapshots (\<open>draft.go\<close>), rollback sources (\<open>rollback.go\<close>) and differences
    (\<open>diff.go\<close>).
  \<^item> \<open>DraftObjects\<close>: replacing and removing one document of a draft file (\<open>internal/conf/crud.go\<close>).
  \<^item> \<open>ProtocolLoad\<close>: the loader of the protocol files (\<open>internal/protocol/load.go\<close>, \<open>envelope.go\<close>): YAML
    documents to JSON, envelopes, duplicate names, the collected configuration.
  \<^item> \<open>ProtocolSpec\<close>, \<open>ProtocolDefaults\<close>: the specs of the six kinds of object (\<open>gateway.go\<close>, \<open>listener.go\<close>,
    \<open>route.go\<close>, \<open>upstream.go\<close>, \<open>policy.go\<close>, \<open>envoyresources.go\<close>, with \<open>patch.go\<close> and \<open>enums.go\<close>), their validation,
    and \<open>ApplyDefaults\<close> of \<open>defaults.go\<close>.
  \<^item> \<open>CompileLink\<close>, \<open>LinkSpec\<close>: the second stage of the compiler (\<open>internal/compile/link.go\<close>) and its contract
    \<open>well_linked\<close>.
  \<^item> \<open>EnvoyTypes\<close>, \<open>CompilePolicy\<close>, \<open>CompileBuild\<close>, \<open>BuildTotal\<close>, \<open>BuildRefs\<close>: the third stage.  \<open>EnvoyTypes\<close> has
    the names of \<open>names.go\<close> and the fields of the Envoy messages the stage sets; \<open>CompilePolicy\<close> is
    \<open>build_policy.go\<close> and \<open>build_extauth.go\<close>, with the locale \<open>policy_type\<close> for what the six types of policy
    share; \<open>CompileBuild\<close> is \<open>build.go\<close>, \<open>build_route.go\<close>, \<open>build_listener.go\<close>, \<open>build_l4.go\<close> and
    \<open>build_upstream.go\<close>.  The other two show that it is total and closed under references.
  \<^item> \<open>CompileSynth\<close>, \<open>CompileIR\<close>, \<open>CompileRefs\<close>: patches and native resources (\<open>patch.go\<close>), the two forms of
    the result (\<open>materialize.go\<close>), the check of its references (\<open>validate.go\<close>) and the pipeline
    (\<open>compile.go\<close>).  \<open>CompileExample\<close> is a small configuration; \<open>CompileProps\<close> has the properties.
  \<^item> \<open>VersionStore\<close>: the tables \<open>versions\<close> and \<open>publish_runs\<close> of \<open>internal/store/store.go\<close> as lists of
    rows, with the unique index on active runs and the transaction of \<open>TransitionPublish\<close>; both tables
    interpret the locale \<open>keyed_table\<close>.
  \<^item> \<open>StateSeries\<close>: the ring buffers of \<open>internal/state/series.go\<close>, the samples of a statistics reply and
    the statistics handlers, with the locale \<open>bounded_history\<close>.
  \<^item> \<open>StateCollect\<close>: the parsers, the refresh and the collectors of \<open>internal/state/state.go\<close>.
  \<^item> \<open>StateServer\<close>: the handlers of \<open>internal/api/state_handlers.go\<close>, and what the pages show of them.
  \<^item> \<open>StateConfirm\<close>: which version Envoy shows, expectations, the confirmation loop and its events
    (\<open>internal/state/state.go\<close>).
  \<^item> \<open>Publisher\<close>, \<open>PublishInv\<close>, \<open>PublishFlow\<close>, \<open>PublishLife\<close>: \<open>internal/conf/publish.go\<close> and
    \<open>RollbackPublish\<close>, the invariant of the whole publishing state, the step relation of the server
    with its restarts, and how publishes begin and end.
  \<^item> \<open>ConfigServer\<close>, \<open>PublishServer\<close>: the handlers of \<open>internal/api/config_handlers.go\<close> for the draft,
    validation, publishing, versions, differences and rollback; \<open>ObjectServer\<close>: those for single objects.
  \<^item> \<open>CertStore\<close>: \<open>internal/certstore\<close>, \<open>internal/store/certificate.go\<close> and
    \<open>internal/api/certificate_handlers.go\<close>.
  \<^item> \<open>Backoff\<close>: \<open>internal/proc/backoff.go\<close> and the backoff of admin requests in \<open>state.go\<close>.
  \<^item> \<open>Supervisor\<close>: \<open>internal/proc/supervisor.go\<close> and \<open>record.go\<close> as a step relation; \<open>ProcessProbe\<close>: its
    probe (\<open>ObserveProcess\<close> of \<open>state.go\<close>) and its waiting together.
  \<^item> \<open>LicenseScript\<close>: \<open>scripts/dependency-licenses.mjs\<close>.
  \<^item> \<open>DraftFlow\<close>, \<open>CertFlow\<close>, \<open>PublishPage\<close>: console and server together.

  \<^bold>\<open>What the theorems show\<close>

  \<^item> Editing: a text saved on the page is stored, read back and shown, and nothing else of the draft
    changes; a replacement that names a version never overwrites another one; a commit installs
    everything or restores the old draft, whichever step fails, but for two faults that are shown to
    lose files.
  \<^item> Objects: a load without errors gives one object per document; an object that was written is read
    back and a deleted one is gone.  A PUT can create more than its path names, and a syntax error
    keeps the loader from returning, for a decoder that keeps its error.
  \<^item> Compiling: the second stage accepts exactly the configurations that satisfy its contract; no stage
    panics on a configuration the loader accepted; without patches, what links and builds gets through
    all later stages in both modes; whatever patches do, a result has the target of each checked
    reference.  The nearest policy of each type is in effect, an external authorization is enforced, and
    an address policy admits what it says.  An HTTPS listener without certificates is dropped silently.
  \<^item> Observing: the ring buffers hold the last samples of each series, and the runtime page shows what
    the collector parsed.  Shown as well: an expired certificate looks healthy, one unreadable host
    hides all clusters, a query by dimension is always empty, and a state nobody collected looks current.
  \<^item> Processes: epochs are never reused, a failed hot restart leaves the parent as it was, a crash leads
    to a restart or to degradation.  An adopted process and a parent lost during a hot restart are not
    watched, and the backoff of the probe can outlast the time a start is given.
  \<^item> Publishing: in every state the server can reach, after any faults and restarts, at most one run is
    active, at most one version is effective, an effective version was delivered and each listed
    version has its snapshot.  A version becomes effective only when Envoy was seen to run it.  A
    publish delivers and snapshots exactly the draft it read, succeeds when nothing stands in its way,
    excludes a second one while it is active, and is settled once the admin interface answers.
    A snapshot can be gone back to, and a difference determines the second version from the first.
    A restart during a confirmation, however, stops publishing for good.
  \<^item> Security: the limits of the limiter, lifetimes and rotation of sessions, revocation, the
    session and CSRF checks of the server, and one account by bootstrap.
  \<^item> Contract: server and console agree on the operations, the calls of the console conform to it and
    so do the answers of the modelled handlers, the pages render for every typed answer; where an
    answer is not typed, the page that breaks is shown to break.
  \<^item> Tools: the restart delays and the limit of the supervisor, and the license inventory.

  \<^bold>\<open>Parameters, bounds and fuel\<close>

  Code outside the repository is an argument: SHA-256 and the YAML loaders (\<open>loaders\<close>), the YAML codec
  with its round trip \<open>yaml_laws\<close>, the reading of request bodies (\<open>readings_agree\<close>), durations and times
  (\<open>std_lib\<close>), the replies of Envoy, processes, signals and files of the supervisor, the compiler
  with the statistics of its output (\<open>publish_env\<close>), Argon2 and the random tokens, X.509 parsing,
  locale formatting, \<open>clsx\<close> and \<open>twMerge\<close>, the router's matching, react-query's cache and states,
  and \<open>fetch\<close>, whose laws are \<open>fetch_laws\<close>.  For the publisher and the handlers the compiler is a
  parameter too, since they look only at its version and errors; the theories of the compiler model it on
  its own, with prefixes, URLs and addresses (\<open>net_lib\<close>, \<open>build_lib\<close>), the files of certificates
  (\<open>cert_verifier\<close>), the codec of the messages and JSON patches (\<open>patch_lib\<close>), the generated validators
  (\<open>resource_checks\<close>) and the hash of the version as parameters.  The messages are records of the fields the
  compiler sets, and packing one into another cannot fail.
  The decoding of the specs of objects is a parameter of the loader (\<open>pe_spec\<close>); \<open>loaded\<close> and \<open>validated\<close> say
  what the loader has checked when the compiler starts, and \<open>loads_by_LoadDir\<close> that the loaders of an API
  are \<open>LoadDir\<close>.  The loop of the loader is a partial function into \<open>option\<close>.
  The reader of JSON text takes the length of the text as fuel, which is enough because every call
  consumes a character.  The confirmation loop takes a number of polls; \<open>polls_until\<close> is two more
  than the half seconds up to the deadline and the first answer, and more polls give the same result.
  All other recursions are total.  Times are integers, counted in nanoseconds; integers of Go that
  count rows or versions are unbounded.  A time of zero stands for Go's zero time.

  \<^bold>\<open>Steps and interleaving\<close>

  The publisher holds a mutex for each operation, so an operation is one step of \<open>server_step\<close>, and any
  interleaving of the calls is a sequence of steps.  The auth service locks its limiter and leaves the
  rest to single SQL statements; the relation of \<open>AuthProps\<close> takes each of its operations as one step.
  Draft changes from outside, polls of Envoy and the handling of events are steps of their own,
  and a restart keeps the files and the tables and forgets the expectation.  The supervisor starts
  processes without holding its lock; a hot restart is two steps, since the parent can exit between
  them, and a start is one, since nothing else acts while it waits.

  \<^bold>\<open>Not modelled\<close>

  \<^item> The minified bundles of \<open>internal/console/ui/assets\<close>: they are built from \<open>web/src\<close> and third-party
    packages.  Build and test configuration (\<open>vite\<close>, \<open>tailwind\<close>, \<open>playwright\<close>) has no behaviour of its own.
  \<^item> The deliverers, the JSON schemas of the protocol, and the decoding of specs from JSON.
  \<^item> In the compiler: the generated validators of the messages, their deterministic encoding and hash, and
    fields of the messages that patches set and the compiler does not read.
  \<^item> The schema and compiled-output handlers, and the watcher of the data directory.
  \<^item> Fractional JSON numbers, the sharing of admin requests in flight, and the HTTP client of \<open>internal/state\<close>.
  \<^item> The runner and the discovery of the Envoy binary, flags and wiring of \<open>internal/core\<close> and \<open>cmd\<close>.
\<close>

end
